(* ===== verification/Effects.thy ===== *)
theory Effects
  imports Prelude
begin

section \<open>Exceptions and effects\<close>

text \<open>
  Exceptions are values: a class and the text it was raised with. An operation of the source is a
  function from the state it works on to its outcome (an exception or a result) and the state it
  leaves behind, so that what was done before a \<open>raise\<close> is kept, as in Python. The combinators are
  written in prefix form: \<open>bnd m f\<close> is "run \<open>m\<close>, then \<open>f\<close> on its result", \<open>sq m n\<close> runs \<open>n\<close>
  after \<open>m\<close>, \<open>tryc m h\<close> is \<open>try\<close>/\<open>except\<close>.

  \<open>pres R m\<close> says that \<open>m\<close> relates the state it starts in to the one it leaves by \<open>R\<close>, whatever
  its outcome. The locale \<open>step_relation\<close> derives the rules that carry it through the combinators
  for any reflexive and transitive \<open>R\<close>.
\<close>

subsection \<open>Exception classes\<close>

datatype exn_class =
    KeyError | ValueError | TypeError | AttributeError | TimeoutError | AssertionError
  | NotImplementedError | RuntimeError | ValidationError
  | StateConcurrencyError | ThreadTransitionError
  | WorkflowDefinitionError | StepNotFoundError | IllegalTransitionError
  | BranchResolutionError | RoutingResolutionError
  | ApprovalRequiredError | ApprovalRejectedError | PolicyDeniedError | ContainmentPolicyError
  | InterruptExpiredError int
  | ToolValidationError | ToolExecutionError
  | CLIToolProcessError int string string | CLIToolOutputError | CLIToolTimeoutError
  | AgentExecutionError | AgentToolNotAllowedError | AgentLimitExceededError
  | RemoteExecutionError string
  | PendingToolCall string json
  | OtherError string

text \<open>\<open>type(exc).__name__\<close>.\<close>

fun exn_name :: "exn_class \<Rightarrow> string" where
  "exn_name KeyError = ''KeyError''"
| "exn_name ValueError = ''ValueError''"
| "exn_name TypeError = ''TypeError''"
| "exn_name AttributeError = ''AttributeError''"
| "exn_name TimeoutError = ''TimeoutError''"
| "exn_name AssertionError = ''AssertionError''"
| "exn_name NotImplementedError = ''NotImplementedError''"
| "exn_name RuntimeError = ''RuntimeError''"
| "exn_name ValidationError = ''ValidationError''"
| "exn_name StateConcurrencyError = ''StateConcurrencyError''"
| "exn_name ThreadTransitionError = ''ThreadTransitionError''"
| "exn_name WorkflowDefinitionError = ''WorkflowDefinitionError''"
| "exn_name StepNotFoundError = ''StepNotFoundError''"
| "exn_name IllegalTransitionError = ''IllegalTransitionError''"
| "exn_name BranchResolutionError = ''BranchResolutionError''"
| "exn_name RoutingResolutionError = ''RoutingResolutionError''"
| "exn_name ApprovalRequiredError = ''ApprovalRequiredError''"
| "exn_name ApprovalRejectedError = ''ApprovalRejectedError''"
| "exn_name PolicyDeniedError = ''PolicyDeniedError''"
| "exn_name ContainmentPolicyError = ''ContainmentPolicyError''"
| "exn_name (InterruptExpiredError _) = ''InterruptExpiredError''"
| "exn_name ToolValidationError = ''ToolValidationError''"
| "exn_name ToolExecutionError = ''ToolExecutionError''"
| "exn_name (CLIToolProcessError _ _ _) = ''CLIToolProcessError''"
| "exn_name CLIToolOutputError = ''CLIToolOutputError''"
| "exn_name CLIToolTimeoutError = ''CLIToolTimeoutError''"
| "exn_name AgentExecutionError = ''AgentExecutionError''"
| "exn_name AgentToolNotAllowedError = ''AgentToolNotAllowedError''"
| "exn_name AgentLimitExceededError = ''AgentLimitExceededError''"
| "exn_name (RemoteExecutionError _) = ''RemoteExecutionError''"
| "exn_name (PendingToolCall _ _) = ''PendingToolCall''"
| "exn_name (OtherError n) = n"

text \<open>The classes below \<open>ToolError\<close>, and those \<open>except (ValueError, KeyError)\<close> catches.\<close>

fun is_tool_error :: "exn_class \<Rightarrow> bool" where
  "is_tool_error ToolValidationError = True"
| "is_tool_error ToolExecutionError = True"
| "is_tool_error (CLIToolProcessError _ _ _) = True"
| "is_tool_error CLIToolOutputError = True"
| "is_tool_error CLIToolTimeoutError = True"
| "is_tool_error _ = False"

fun is_value_or_key_error :: "exn_class \<Rightarrow> bool" where
  "is_value_or_key_error KeyError = True"
| "is_value_or_key_error ValueError = True"
| "is_value_or_key_error ValidationError = True"
| "is_value_or_key_error ThreadTransitionError = True"
| "is_value_or_key_error _ = False"

fun is_expired_error :: "exn_class \<Rightarrow> bool" where
  "is_expired_error (InterruptExpiredError _) = True"
| "is_expired_error _ = False"

datatype exn = Exn (eclass: exn_class) (emsg: string)

text \<open>\<open>str(exc)\<close>: a \<open>KeyError\<close> shows its argument's \<open>repr\<close>.\<close>

definition exn_str :: "exn \<Rightarrow> string" where
  "exn_str e = (if eclass e = KeyError then repr_str (emsg e) else emsg e)"

subsection \<open>Operations with effects\<close>

type_synonym ('w, 'a) py = "'w \<Rightarrow> (exn + 'a) \<times> 'w"

definition ret :: "'a \<Rightarrow> ('w, 'a) py" where
  "ret x = (\<lambda>w. (Inr x, w))"

definition raise :: "exn \<Rightarrow> ('w, 'a) py" where
  "raise e = (\<lambda>w. (Inl e, w))"

definition bnd :: "('w, 'a) py \<Rightarrow> ('a \<Rightarrow> ('w, 'b) py) \<Rightarrow> ('w, 'b) py" where
  "bnd m f = (\<lambda>w. case m w of (Inl e, w') \<Rightarrow> (Inl e, w') | (Inr x, w') \<Rightarrow> f x w')"

definition sq :: "('w, 'a) py \<Rightarrow> ('w, 'b) py \<Rightarrow> ('w, 'b) py" where
  "sq m n = bnd m (\<lambda>_. n)"

definition tryc :: "('w, 'a) py \<Rightarrow> (exn \<Rightarrow> ('w, 'a) py) \<Rightarrow> ('w, 'a) py" where
  "tryc m h = (\<lambda>w. case m w of (Inl e, w') \<Rightarrow> h e w' | (Inr x, w') \<Rightarrow> (Inr x, w'))"

definition gets :: "('w \<Rightarrow> 'a) \<Rightarrow> ('w, 'a) py" where
  "gets f = (\<lambda>w. (Inr (f w), w))"

definition modify :: "('w \<Rightarrow> 'w) \<Rightarrow> ('w, unit) py" where
  "modify f = (\<lambda>w. (Inr (), f w))"

definition lift_res :: "exn + 'a \<Rightarrow> ('w, 'a) py" where
  "lift_res r = (\<lambda>w. (r, w))"

definition perform :: "bool \<Rightarrow> ('w, unit) py \<Rightarrow> ('w, unit) py" where
  "perform b m = (if b then m else ret ())"

text \<open>An attempt: its outcome is handed on, exception or not.\<close>

definition attempt :: "('w, 'a) py \<Rightarrow> (exn + 'a \<Rightarrow> ('w, 'b) py) \<Rightarrow> ('w, 'b) py" where
  "attempt m f = (\<lambda>w. case m w of (r, w') \<Rightarrow> f r w')"

text \<open>\<open>m\<close>, and \<open>h\<close> on its exception, which is raised again afterwards.\<close>

definition on_error :: "('w, 'a) py \<Rightarrow> (exn \<Rightarrow> ('w, unit) py) \<Rightarrow> ('w, 'a) py" where
  "on_error m h = tryc m (\<lambda>e. sq (h e) (raise e))"

text \<open>An operation on a part of the state, run on the whole.\<close>

definition zoom :: "('w \<Rightarrow> 's) \<Rightarrow> ('s \<Rightarrow> 'w \<Rightarrow> 'w) \<Rightarrow> ('s, 'a) py \<Rightarrow> ('w, 'a) py" where
  "zoom part put m = (\<lambda>w. case m (part w) of (r, s) \<Rightarrow> (r, put s w))"

fun each :: "('a \<Rightarrow> ('w, unit) py) \<Rightarrow> 'a list \<Rightarrow> ('w, unit) py" where
  "each f [] = ret ()"
| "each f (x # xs) = sq (f x) (each f xs)"

lemma ret_run [py_simps]: "ret x w = (Inr x, w)"
  by (simp add: ret_def)

lemma raise_run [py_simps]: "raise e w = (Inl e, w)"
  by (simp add: raise_def)

lemma gets_run [py_simps]: "gets f w = (Inr (f w), w)"
  by (simp add: gets_def)

lemma modify_run [py_simps]: "modify f w = (Inr (), f w)"
  by (simp add: modify_def)

lemma lift_res_run [py_simps]: "lift_res r w = (r, w)"
  by (simp add: lift_res_def)

lemma zoom_run [py_simps]: "zoom part put m w = (case m (part w) of (r, s) \<Rightarrow> (r, put s w))"
  by (simp add: zoom_def)

lemma bnd_run [py_simps]:
  "bnd m f w = (case m w of (Inl e, w') \<Rightarrow> (Inl e, w') | (Inr x, w') \<Rightarrow> f x w')"
  by (simp add: bnd_def)

lemma sq_run [py_simps]:
  "sq m n w = (case m w of (Inl e, w') \<Rightarrow> (Inl e, w') | (Inr x, w') \<Rightarrow> n w')"
  by (simp add: sq_def bnd_def)

lemma tryc_run [py_simps]:
  "tryc m h w = (case m w of (Inl e, w') \<Rightarrow> h e w' | (Inr x, w') \<Rightarrow> (Inr x, w'))"
  by (simp add: tryc_def)

lemma attempt_run [py_simps]: "attempt m f w = (case m w of (r, w') \<Rightarrow> f r w')"
  by (simp add: attempt_def)

lemma perform_run [py_simps]: "perform b m w = (if b then m w else (Inr (), w))"
  by (simp add: perform_def ret_def)

lemma on_error_run [py_simps]:
  "on_error m h w =
     (case m w of
        (Inl e, w') \<Rightarrow> (case h e w' of (Inl e', w'') \<Rightarrow> (Inl e', w'') | (Inr _, w'') \<Rightarrow> (Inl e, w''))
      | (Inr x, w') \<Rightarrow> (Inr x, w'))"
  by (simp add: on_error_def py_simps split: sum.splits prod.splits)

text \<open>Inversion: an operation built from two that ends in a result got one from each.\<close>

lemma bnd_InrE:
  assumes "bnd m f w = (Inr y, w')"
  obtains x w1 where "m w = (Inr x, w1)" and "f x w1 = (Inr y, w')"
  using assms by (auto simp: bnd_def split: sum.splits prod.splits)

lemma sq_InrE:
  assumes "sq m n w = (Inr y, w')"
  obtains x w1 where "m w = (Inr x, w1)" and "n w1 = (Inr y, w')"
  using assms unfolding sq_def by (elim bnd_InrE)

subsection \<open>Relations every step keeps\<close>

definition pres :: "('w \<Rightarrow> 'w \<Rightarrow> bool) \<Rightarrow> ('w, 'a) py \<Rightarrow> bool" where
  "pres R m \<longleftrightarrow> (\<forall>w. R w (snd (m w)))"

lemma presD: "pres R m \<Longrightarrow> m w = (r, w') \<Longrightarrow> R w w'"
  unfolding pres_def by (metis snd_conv)

lemma presI: "(\<And>w r w'. m w = (r, w') \<Longrightarrow> R w w') \<Longrightarrow> pres R m"
  unfolding pres_def by (metis prod.collapse)

locale step_relation =
  fixes R :: "'w \<Rightarrow> 'w \<Rightarrow> bool"
  assumes R_refl: "R w w"
    and R_trans: "R u v \<Longrightarrow> R v w \<Longrightarrow> R u w"
begin

lemma pres_ret [pres_intros]: "pres R (ret x)"
  by (simp add: pres_def ret_def R_refl)

lemma pres_raise [pres_intros]: "pres R (raise e)"
  by (simp add: pres_def raise_def R_refl)

lemma pres_gets [pres_intros]: "pres R (gets f)"
  by (simp add: pres_def gets_def R_refl)

lemma pres_lift_res [pres_intros]: "pres R (lift_res r)"
  by (simp add: pres_def lift_res_def R_refl)

lemma pres_modify: "(\<And>w. R w (f w)) \<Longrightarrow> pres R (modify f)"
  by (simp add: pres_def modify_def)

lemma pres_bnd [pres_intros]: "pres R m \<Longrightarrow> (\<And>x. pres R (f x)) \<Longrightarrow> pres R (bnd m f)"
  unfolding pres_def bnd_def by (auto split: sum.splits prod.splits intro: R_trans) (metis R_trans snd_conv)+

lemma pres_sq [pres_intros]: "pres R m \<Longrightarrow> pres R n \<Longrightarrow> pres R (sq m n)"
  unfolding sq_def by (rule pres_bnd)

lemma pres_tryc [pres_intros]: "pres R m \<Longrightarrow> (\<And>e. pres R (h e)) \<Longrightarrow> pres R (tryc m h)"
  unfolding pres_def tryc_def by (auto split: sum.splits prod.splits intro: R_trans) (metis R_trans snd_conv)+

lemma pres_on_error [pres_intros]: "pres R m \<Longrightarrow> (\<And>e. pres R (h e)) \<Longrightarrow> pres R (on_error m h)"
  unfolding on_error_def by (intro pres_tryc pres_sq pres_raise)

lemma pres_attempt [pres_intros]: "pres R m \<Longrightarrow> (\<And>r. pres R (f r)) \<Longrightarrow> pres R (attempt m f)"
  unfolding pres_def attempt_def by (simp add: split_beta) (blast intro: R_trans)

lemma pres_perform [pres_intros]: "pres R m \<Longrightarrow> pres R (perform b m)"
  by (simp add: perform_def pres_ret)

lemma pres_each [pres_intros]: "(\<And>x. pres R (f x)) \<Longrightarrow> pres R (each f xs)"
  by (induction xs) (simp_all add: pres_ret pres_sq)

lemma pres_if [pres_intros]: "pres R m \<Longrightarrow> pres R n \<Longrightarrow> pres R (if b then m else n)"
  by simp

lemma pres_Let [pres_intros]: "(\<And>x. pres R (f x)) \<Longrightarrow> pres R (let x = t in f x)"
  by simp

lemma pres_case_option [pres_intros]:
  "pres R m \<Longrightarrow> (\<And>x. pres R (f x)) \<Longrightarrow> pres R (case t of None \<Rightarrow> m | Some x \<Rightarrow> f x)"
  by (cases t) simp_all

lemma pres_case_sum [pres_intros]:
  "(\<And>e. pres R (f e)) \<Longrightarrow> (\<And>x. pres R (g x)) \<Longrightarrow> pres R (case t of Inl e \<Rightarrow> f e | Inr x \<Rightarrow> g x)"
  by (cases t) simp_all

lemma pres_case_prod [pres_intros]:
  "(\<And>x y. pres R (f x y)) \<Longrightarrow> pres R (case t of (x, y) \<Rightarrow> f x y)"
  by (cases t) simp

end

text \<open>A predicate kept by every step is the relation "if it held before, it holds after".\<close>

definition keeps :: "('w \<Rightarrow> bool) \<Rightarrow> 'w \<Rightarrow> 'w \<Rightarrow> bool" where
  "keeps P w w' \<longleftrightarrow> (P w \<longrightarrow> P w')"

lemma step_relation_keeps: "step_relation (keeps P)"
  by unfold_locales (simp_all add: keeps_def)

end
