(* ===== verification/Models.thy ===== *)
theory Models
  imports Effects
begin

section \<open>Data models (\<open>governai/models\<close>)\<close>

text \<open>
  The enumerations and record types of \<open>governai/models\<close>, field by field. Timestamps are whole
  seconds (integers); the dumps that go into audit payloads show them as numbers.
\<close>

subsection \<open>Enumerations\<close>

definition END_STEP :: string where
  "END_STEP = ''__END__''"

datatype run_status =
  PENDING | RUNNING | WAITING_APPROVAL | WAITING_INTERRUPT | COMPLETED | FAILED

fun status_value :: "run_status \<Rightarrow> string" where
  "status_value PENDING = ''PENDING''"
| "status_value RUNNING = ''RUNNING''"
| "status_value WAITING_APPROVAL = ''WAITING_APPROVAL''"
| "status_value WAITING_INTERRUPT = ''WAITING_INTERRUPT''"
| "status_value COMPLETED = ''COMPLETED''"
| "status_value FAILED = ''FAILED''"

datatype determinism_mode = STRICT | RULE_BASED | BOUNDED_ROUTING

datatype event_type =
    RUN_STARTED | CHECKPOINT_WRITTEN | CHECKPOINT_RESTORED | STEP_ENTERED
  | POLICY_CHECKED | POLICY_DENIED
  | APPROVAL_REQUESTED | APPROVAL_GRANTED | APPROVAL_REJECTED
  | INTERRUPT_REQUESTED | INTERRUPT_RESOLVED | INTERRUPT_EXPIRED | INTERRUPT_REJECTED_EPOCH
  | TOOL_EXECUTION_STARTED | TOOL_EXECUTION_COMPLETED | TOOL_EXECUTION_FAILED
  | AGENT_ENTERED | AGENT_COMPLETED | AGENT_FAILED
  | AGENT_HANDOFF_PROPOSED | AGENT_HANDOFF_ACCEPTED | AGENT_HANDOFF_REJECTED
  | AGENT_TOOL_CALL_STARTED | AGENT_TOOL_CALL_COMPLETED | AGENT_TOOL_CALL_FAILED
  | TRANSITION_CHOSEN | RUN_COMPLETED | RUN_FAILED
  | THREAD_CREATED | THREAD_ACTIVE | THREAD_INTERRUPTED | THREAD_IDLE | THREAD_ARCHIVED
  | CAPABILITY_DENIED | MEMORY_READ | MEMORY_WRITE | MEMORY_DELETE | MEMORY_SEARCH

definition normalize_step_ref :: "string \<Rightarrow> string" where
  "normalize_step_ref value = (if lower value = ''end'' then END_STEP else value)"

lemma normalize_step_ref_idem: "normalize_step_ref (normalize_step_ref s) = normalize_step_ref s"
proof -
  have "normalize_step_ref END_STEP = END_STEP" by code_simp
  then show ?thesis by (simp add: normalize_step_ref_def)
qed

subsection \<open>Approvals\<close>

datatype decision_type = APPROVE | REJECT

record approval_request =
  ar_request_id :: string
  ar_run_id :: string
  ar_workflow_name :: string
  ar_step_name :: string
  ar_executor_name :: string
  ar_reason :: "string option"
  ar_created_at :: int
  ar_metadata :: "string dict"

record approval_decision =
  ad_decision :: decision_type
  ad_decided_by :: "string option"
  ad_reason :: "string option"
  ad_decided_at :: int

definition opt_json :: "string option \<Rightarrow> json" where
  "opt_json x = (case x of None \<Rightarrow> JNull | Some s \<Rightarrow> JStr s)"

definition approval_request_dump :: "approval_request \<Rightarrow> json dict" where
  "approval_request_dump r =
     [(''request_id'', JStr (ar_request_id r)), (''run_id'', JStr (ar_run_id r)),
      (''workflow_name'', JStr (ar_workflow_name r)), (''step_name'', JStr (ar_step_name r)),
      (''executor_name'', JStr (ar_executor_name r)), (''reason'', opt_json (ar_reason r)),
      (''created_at'', JInt (ar_created_at r)),
      (''metadata'', JObj (map (\<lambda>(k, v). (k, JStr v)) (ar_metadata r)))]"

subsection \<open>Run state\<close>

record run_state =
  rs_run_id :: string
  rs_thread_id :: string
  rs_checkpoint_id :: "string option"
  rs_parent_checkpoint_id :: "string option"
  rs_epoch :: int
  rs_workflow_name :: string
  rs_status :: run_status
  rs_current_step :: "string option"
  rs_completed_steps :: "string list"
  rs_artifacts :: "json dict"
  rs_channels :: "json dict"
  rs_pending_approval :: "approval_request option"
  rs_pending_interrupt_id :: "string option"
  rs_started_at :: int
  rs_updated_at :: int
  rs_error :: "string option"
  rs_metadata :: "json dict"

text \<open>The constructor with its defaults; the validator makes an absent thread id the run id.\<close>

definition new_run_state ::
  "string \<Rightarrow> string option \<Rightarrow> string \<Rightarrow> string option \<Rightarrow> json dict \<Rightarrow> int \<Rightarrow> run_state" where
  "new_run_state run_id thread_id workflow_name current_step channels now =
     \<lparr>rs_run_id = run_id,
      rs_thread_id = (case thread_id of None \<Rightarrow> run_id | Some t \<Rightarrow> t),
      rs_checkpoint_id = None, rs_parent_checkpoint_id = None, rs_epoch = 0,
      rs_workflow_name = workflow_name, rs_status = PENDING, rs_current_step = current_step,
      rs_completed_steps = [], rs_artifacts = [], rs_channels = channels,
      rs_pending_approval = None, rs_pending_interrupt_id = None,
      rs_started_at = now, rs_updated_at = now, rs_error = None, rs_metadata = []\<rparr>"

definition touch :: "int \<Rightarrow> run_state \<Rightarrow> run_state" where
  "touch now s = s\<lparr>rs_updated_at := now\<rparr>"

subsection \<open>Commands, resume payloads, policy data, audit events\<close>

record interrupt_instruction =
  ii_message :: string
  ii_context :: "json dict"
  ii_ttl_seconds :: "int option"

record command =
  cmd_goto :: "string option"
  cmd_state_update :: "json dict"
  cmd_interrupt :: "interrupt_instruction option"
  cmd_output :: json

definition opt_int_json :: "int option \<Rightarrow> json" where
  "opt_int_json x = (case x of None \<Rightarrow> JNull | Some i \<Rightarrow> JInt i)"

text \<open>\<open>command.model_dump(mode="json")\<close>: the fields in declaration order.\<close>

definition command_dump :: "command \<Rightarrow> json" where
  "command_dump c = JObj
     [(''goto'', opt_json (cmd_goto c)),
      (''state_update'', JObj (cmd_state_update c)),
      (''interrupt'',
        (case cmd_interrupt c of
           None \<Rightarrow> JNull
         | Some i \<Rightarrow> JObj [(''message'', JStr (ii_message i)), (''context'', JObj (ii_context i)),
                         (''ttl_seconds'', opt_int_json (ii_ttl_seconds i))])),
      (''output'', cmd_output c)]"

datatype decision_input = Decided approval_decision | DecisionText string

datatype resume_payload =
    ResumeApproval decision_input
  | ResumeInterrupt (ri_interrupt_id: string) (ri_response: json) (ri_epoch: "int option")

record policy_context =
  pc_workflow_name :: string
  pc_step_name :: string
  pc_tool_name :: string
  pc_capabilities :: "string list"
  pc_side_effect :: bool
  pc_artifacts :: "json dict"
  pc_pending_approval :: bool
  pc_metadata :: "json dict"

record policy_decision =
  pd_allow :: bool
  pd_reason :: "string option"
  pd_requires_approval :: bool

record audit_extension =
  ax_type_key :: string
  ax_data :: "json dict"

record audit_event =
  ev_event_id :: string
  ev_timestamp :: int
  ev_run_id :: string
  ev_thread_id :: "string option"
  ev_workflow_name :: string
  ev_step_name :: "string option"
  ev_event_type :: event_type
  ev_payload :: "json dict"
  ev_extensions :: "audit_extension list"

subsection \<open>The artifact container\<close>

type_synonym artifacts = "json dict"

definition artifacts_get :: "artifacts \<Rightarrow> string \<Rightarrow> json \<Rightarrow> json" where
  "artifacts_get a key dflt = dget_or a key dflt"

definition artifacts_set :: "artifacts \<Rightarrow> string \<Rightarrow> json \<Rightarrow> artifacts" where
  "artifacts_set a key value = dset key value a"

definition artifacts_has :: "artifacts \<Rightarrow> string \<Rightarrow> bool" where
  "artifacts_has a key = dhas a key"

lemma artifacts_get_set:
  "artifacts_get (artifacts_set a k v) k' d = (if k' = k then v else artifacts_get a k' d)"
  by (simp add: artifacts_get_def artifacts_set_def dget_or_def)

lemma artifacts_has_set: "artifacts_has (artifacts_set a k v) k' \<longleftrightarrow> k' = k \<or> artifacts_has a k'"
  by (simp add: artifacts_has_def artifacts_set_def)

end
