(* ===== verification/Run_Store.thy ===== *)
theory Run_Store
  imports Models
begin

section \<open>Run persistence (\<open>governai/runtime/run_store.py\<close>)\<close>

text \<open>
  \<open>InMemoryRunStore\<close>: the latest snapshot of every run, checkpoint snapshots, and the thread
  indexes (runs per thread, checkpoints per thread, active run per thread). \<open>put\<close> validates the
  state, rejects a write older than the stored epoch, numbers the write, and records a checkpoint;
  it changes the caller's state object too, so it returns it. \<open>fresh_id\<close> is the \<open>uuid4\<close> the call
  would draw.

  The locale \<open>run_store\<close> is the contract of the abstract class \<open>RunStore\<close> that the runtime relies
  on; its lemmas (lost updates are refused, epochs count the writes) hold for every
  implementation, and it is interpreted on the in-memory store.
\<close>

subsection \<open>State\<close>

record mem_run_store =
  st_state :: "run_state dict"
  st_checkpoints :: "run_state dict"
  st_thread_checkpoints :: "string list dict"
  st_thread_runs :: "string list dict"
  st_thread_active :: "string dict"

definition empty_run_store :: mem_run_store where
  "empty_run_store =
     \<lparr>st_state = [], st_checkpoints = [], st_thread_checkpoints = [], st_thread_runs = [],
      st_thread_active = []\<rparr>"

definition validate_state :: "run_state \<Rightarrow> exn + unit" where
  "validate_state s =
     (if rs_status s = WAITING_INTERRUPT \<and> rs_pending_interrupt_id s = None
      then Inl (Exn ValueError (''Run '' @ rs_run_id s @
             '': status is WAITING_INTERRUPT but pending_interrupt_id is None''))
      else if rs_status s = WAITING_APPROVAL \<and> rs_pending_approval s = None
      then Inl (Exn ValueError (''Run '' @ rs_run_id s @
             '': status is WAITING_APPROVAL but pending_approval is None''))
      else Inr ())"

definition state_consistent :: "run_state \<Rightarrow> bool" where
  "state_consistent s \<longleftrightarrow>
     (rs_status s = WAITING_INTERRUPT \<longrightarrow> rs_pending_interrupt_id s \<noteq> None) \<and>
     (rs_status s = WAITING_APPROVAL \<longrightarrow> rs_pending_approval s \<noteq> None)"

lemma validate_state_iff: "validate_state s = Inr () \<longleftrightarrow> state_consistent s"
  by (auto simp: validate_state_def state_consistent_def)

subsection \<open>Thread history\<close>

definition record_thread_run :: "string \<Rightarrow> string \<Rightarrow> mem_run_store \<Rightarrow> mem_run_store" where
  "record_thread_run thread_id run_id st =
     (let runs = dget_or (st_thread_runs st) thread_id []
      in st\<lparr>st_thread_runs :=
           dset thread_id (if run_id \<in> set runs then runs else runs @ [run_id])
             (st_thread_runs st)\<rparr>)"

definition remove_thread_run :: "string \<Rightarrow> string \<Rightarrow> mem_run_store \<Rightarrow> mem_run_store" where
  "remove_thread_run thread_id run_id st =
     (case dget (st_thread_runs st) thread_id of
        None \<Rightarrow> st
      | Some runs \<Rightarrow>
          (let filtered = filter (\<lambda>current. current \<noteq> run_id) runs
           in if filtered \<noteq> []
              then st\<lparr>st_thread_runs := dset thread_id filtered (st_thread_runs st)\<rparr>
              else st\<lparr>st_thread_runs := ddel thread_id (st_thread_runs st)\<rparr>))"

subsection \<open>Snapshots and checkpoints\<close>

definition write_checkpoint :: "string \<Rightarrow> run_state \<Rightarrow> mem_run_store \<Rightarrow> string \<times> mem_run_store" where
  "write_checkpoint fresh_id state st =
     (let checkpoint_id = or_else (rs_checkpoint_id state) fresh_id;
          snapshot = state\<lparr>rs_checkpoint_id := Some checkpoint_id\<rparr>;
          thread_list = dget_or (st_thread_checkpoints st) (rs_thread_id state) []
      in (checkpoint_id,
          st\<lparr>st_checkpoints := dset checkpoint_id snapshot (st_checkpoints st),
             st_thread_checkpoints :=
               dset (rs_thread_id state)
                 (if checkpoint_id \<in> set thread_list then thread_list
                  else thread_list @ [checkpoint_id])
                 (st_thread_checkpoints st)\<rparr>))"

definition stale_message :: "run_state \<Rightarrow> int \<Rightarrow> string" where
  "stale_message state stored =
     ''Stale write for run '' @ rs_run_id state @ '': store epoch='' @ int_str stored @
     '', write epoch='' @ int_str (rs_epoch state)"

definition put :: "string \<Rightarrow> run_state \<Rightarrow> mem_run_store \<Rightarrow> exn + (run_state \<times> mem_run_store)" where
  "put fresh_id state st =
     (case validate_state state of
        Inl e \<Rightarrow> Inl e
      | Inr _ \<Rightarrow>
          (let existing = dget (st_state st) (rs_run_id state);
               stored = (case existing of None \<Rightarrow> 0 | Some e \<Rightarrow> rs_epoch e)
           in if existing \<noteq> None \<and> stored > rs_epoch state
              then Inl (Exn StateConcurrencyError (stale_message state stored))
              else
                (let state1 = state\<lparr>rs_epoch := stored + 1\<rparr>;
                     (checkpoint_id, st1) = write_checkpoint fresh_id state1 st;
                     state2 = state1\<lparr>rs_checkpoint_id := Some checkpoint_id\<rparr>;
                     st2 = st1\<lparr>st_state := dset (rs_run_id state) state2 (st_state st1)\<rparr>
                 in Inr (state2, record_thread_run (rs_thread_id state) (rs_run_id state) st2))))"

definition get :: "mem_run_store \<Rightarrow> string \<Rightarrow> run_state option" where
  "get st run_id = dget (st_state st) run_id"

definition delete_run :: "string \<Rightarrow> mem_run_store \<Rightarrow> mem_run_store" where
  "delete_run run_id st =
     (case dget (st_state st) run_id of
        None \<Rightarrow> st
      | Some v \<Rightarrow>
          (let st1 = remove_thread_run (rs_thread_id v) run_id
                       (st\<lparr>st_state := ddel run_id (st_state st)\<rparr>)
           in if dget (st_thread_active st1) (rs_thread_id v) = Some run_id
              then st1\<lparr>st_thread_active := ddel (rs_thread_id v) (st_thread_active st1)\<rparr>
              else st1))"

definition get_checkpoint :: "mem_run_store \<Rightarrow> string \<Rightarrow> run_state option" where
  "get_checkpoint st checkpoint_id = dget (st_checkpoints st) checkpoint_id"

definition get_latest_checkpoint :: "mem_run_store \<Rightarrow> string \<Rightarrow> run_state option" where
  "get_latest_checkpoint st thread_id =
     (let ids = dget_or (st_thread_checkpoints st) thread_id []
      in if ids = [] then None else dget (st_checkpoints st) (last ids))"

definition list_checkpoints :: "mem_run_store \<Rightarrow> string \<Rightarrow> run_state list" where
  "list_checkpoints st thread_id =
     List.map_filter (dget (st_checkpoints st)) (dget_or (st_thread_checkpoints st) thread_id [])"

subsection \<open>Thread lookup\<close>

definition get_active_run_id :: "string \<Rightarrow> mem_run_store \<Rightarrow> string option \<times> mem_run_store" where
  "get_active_run_id thread_id st =
     (case dget (st_thread_active st) thread_id of
        None \<Rightarrow> (None, st)
      | Some run_id \<Rightarrow>
          if \<not> dhas (st_state st) run_id
          then (None, st\<lparr>st_thread_active := ddel thread_id (st_thread_active st)\<rparr>)
          else (Some run_id, st))"

definition list_run_ids :: "string \<Rightarrow> mem_run_store \<Rightarrow> string list \<times> mem_run_store" where
  "list_run_ids thread_id st =
     (let run_ids = dget_or (st_thread_runs st) thread_id [];
          valid = filter (dhas (st_state st)) run_ids
      in (valid,
          if length valid \<noteq> length run_ids
          then (if valid \<noteq> []
                then st\<lparr>st_thread_runs := dset thread_id valid (st_thread_runs st)\<rparr>
                else st\<lparr>st_thread_runs := ddel thread_id (st_thread_runs st)\<rparr>)
          else st))"

definition get_latest_run_id :: "string \<Rightarrow> mem_run_store \<Rightarrow> string option \<times> mem_run_store" where
  "get_latest_run_id thread_id st =
     (case list_run_ids thread_id st of
        (run_ids, st') \<Rightarrow> (if run_ids = [] then None else Some (last run_ids), st'))"

definition set_active_run_id :: "string \<Rightarrow> string \<Rightarrow> mem_run_store \<Rightarrow> mem_run_store" where
  "set_active_run_id thread_id run_id st =
     (let st1 = record_thread_run thread_id run_id st
      in st1\<lparr>st_thread_active := dset thread_id run_id (st_thread_active st1)\<rparr>)"

definition clear_active_run_id :: "string \<Rightarrow> string \<Rightarrow> mem_run_store \<Rightarrow> mem_run_store" where
  "clear_active_run_id thread_id run_id st =
     (if dget (st_thread_active st) thread_id = Some run_id
      then st\<lparr>st_thread_active := ddel thread_id (st_thread_active st)\<rparr>
      else st)"

subsection \<open>The store invariant\<close>

definition checkpoint_index_ok :: "mem_run_store \<Rightarrow> bool" where
  "checkpoint_index_ok st \<longleftrightarrow>
     (\<forall>t. distinct (dget_or (st_thread_checkpoints st) t []) \<and>
        (\<forall>c \<in> set (dget_or (st_thread_checkpoints st) t []). dhas (st_checkpoints st) c))"

definition checkpoint_ids_ok :: "mem_run_store \<Rightarrow> bool" where
  "checkpoint_ids_ok st \<longleftrightarrow>
     (\<forall>c s. dget (st_checkpoints st) c = Some s \<longrightarrow> rs_checkpoint_id s = Some c)"

definition run_index_ok :: "mem_run_store \<Rightarrow> bool" where
  "run_index_ok st \<longleftrightarrow> (\<forall>t. distinct (dget_or (st_thread_runs st) t []))"

definition states_ok :: "mem_run_store \<Rightarrow> bool" where
  "states_ok st \<longleftrightarrow>
     (\<forall>r s. dget (st_state st) r = Some s \<longrightarrow>
        rs_run_id s = r \<and> state_consistent s \<and>
        r \<in> set (dget_or (st_thread_runs st) (rs_thread_id s) []))"

definition store_inv :: "mem_run_store \<Rightarrow> bool" where
  "store_inv st \<longleftrightarrow>
     checkpoint_index_ok st \<and> checkpoint_ids_ok st \<and> run_index_ok st \<and> states_ok st"

lemmas store_inv_defs =
  store_inv_def checkpoint_index_ok_def checkpoint_ids_ok_def run_index_ok_def states_ok_def

lemma store_inv_empty: "store_inv empty_run_store"
  by (simp add: store_inv_defs empty_run_store_def)

lemma record_thread_run_frame [simp]:
  "st_state (record_thread_run t r st) = st_state st"
  "st_checkpoints (record_thread_run t r st) = st_checkpoints st"
  "st_thread_checkpoints (record_thread_run t r st) = st_thread_checkpoints st"
  "st_thread_active (record_thread_run t r st) = st_thread_active st"
  by (simp_all add: record_thread_run_def Let_def)

lemma record_thread_run_index:
  "dget_or (st_thread_runs (record_thread_run t r st)) t' [] =
     (let runs = dget_or (st_thread_runs st) t' []
      in if t' = t \<and> r \<notin> set runs then runs @ [r] else runs)"
  by (simp add: record_thread_run_def Let_def)

lemma record_thread_run_inv: "store_inv st \<Longrightarrow> store_inv (record_thread_run t r st)"
  by (auto simp: store_inv_defs record_thread_run_index Let_def)

lemma write_checkpoint_frame [simp]:
  "st_state (snd (write_checkpoint u s st)) = st_state st"
  "st_thread_runs (snd (write_checkpoint u s st)) = st_thread_runs st"
  "st_thread_active (snd (write_checkpoint u s st)) = st_thread_active st"
  by (simp_all add: write_checkpoint_def Let_def)

lemma write_checkpoint_fst: "fst (write_checkpoint u s st) = or_else (rs_checkpoint_id s) u"
  by (simp add: write_checkpoint_def Let_def)

lemma write_checkpoint_get:
  "dget (st_checkpoints (snd (write_checkpoint u s st))) =
     (dget (st_checkpoints st))
       (or_else (rs_checkpoint_id s) u \<mapsto> s\<lparr>rs_checkpoint_id := Some (or_else (rs_checkpoint_id s) u)\<rparr>)"
  by (simp add: write_checkpoint_def Let_def fun_eq_iff)

lemma write_checkpoint_index:
  "dget_or (st_thread_checkpoints (snd (write_checkpoint u s st))) t [] =
     (let ids = dget_or (st_thread_checkpoints st) t []; c = or_else (rs_checkpoint_id s) u
      in if t = rs_thread_id s \<and> c \<notin> set ids then ids @ [c] else ids)"
  by (simp add: write_checkpoint_def Let_def)

lemma write_checkpoint_inv: "store_inv st \<Longrightarrow> store_inv (snd (write_checkpoint u s st))"
  by (auto simp: store_inv_defs write_checkpoint_index write_checkpoint_get Let_def dhas_def
      split: if_splits)

subsection \<open>What \<open>put\<close> does\<close>

definition next_epoch :: "run_state option \<Rightarrow> int" where
  "next_epoch old = (case old of None \<Rightarrow> 1 | Some s \<Rightarrow> rs_epoch s + 1)"

lemma next_epoch_simps [simp]: "next_epoch None = 1" "next_epoch (Some s) = rs_epoch s + 1"
  by (simp_all add: next_epoch_def)

definition written :: "string \<Rightarrow> run_state option \<Rightarrow> run_state \<Rightarrow> run_state" where
  "written u old s =
     s\<lparr>rs_epoch := next_epoch old, rs_checkpoint_id := Some (or_else (rs_checkpoint_id s) u)\<rparr>"

lemma written_fields [simp]:
  "rs_run_id (written u old s) = rs_run_id s"
  "rs_thread_id (written u old s) = rs_thread_id s"
  "rs_status (written u old s) = rs_status s"
  "rs_current_step (written u old s) = rs_current_step s"
  "rs_pending_approval (written u old s) = rs_pending_approval s"
  "rs_pending_interrupt_id (written u old s) = rs_pending_interrupt_id s"
  "rs_parent_checkpoint_id (written u old s) = rs_parent_checkpoint_id s"
  "rs_artifacts (written u old s) = rs_artifacts s"
  "rs_channels (written u old s) = rs_channels s"
  "rs_metadata (written u old s) = rs_metadata s"
  "rs_error (written u old s) = rs_error s"
  "rs_completed_steps (written u old s) = rs_completed_steps s"
  "rs_workflow_name (written u old s) = rs_workflow_name s"
  "rs_updated_at (written u old s) = rs_updated_at s"
  "rs_started_at (written u old s) = rs_started_at s"
  "rs_epoch (written u old s) = next_epoch old"
  "rs_checkpoint_id (written u old s) = Some (or_else (rs_checkpoint_id s) u)"
  by (simp_all add: written_def)

lemma written_consistent [simp]: "state_consistent (written u old s) = state_consistent s"
  by (simp add: state_consistent_def)

lemma put_eq:
  "put u s st =
     (case validate_state s of
        Inl e \<Rightarrow> Inl e
      | Inr _ \<Rightarrow>
          (case get st (rs_run_id s) of
             Some old \<Rightarrow> if rs_epoch old > rs_epoch s
               then Inl (Exn StateConcurrencyError (stale_message s (rs_epoch old)))
               else Inr (written u (Some old) s, record_thread_run (rs_thread_id s) (rs_run_id s)
                 ((snd (write_checkpoint u (s\<lparr>rs_epoch := rs_epoch old + 1\<rparr>) st))
                   \<lparr>st_state := dset (rs_run_id s) (written u (Some old) s) (st_state st)\<rparr>))
           | None \<Rightarrow> Inr (written u None s, record_thread_run (rs_thread_id s) (rs_run_id s)
               ((snd (write_checkpoint u (s\<lparr>rs_epoch := 1\<rparr>) st))
                 \<lparr>st_state := dset (rs_run_id s) (written u None s) (st_state st)\<rparr>))))"
  by (auto simp: put_def get_def Let_def written_def write_checkpoint_def split: sum.splits option.splits)

lemma put_InrE:
  assumes "put u s st = Inr (s', st')"
  obtains "state_consistent s"
    and "\<And>old. get st (rs_run_id s) = Some old \<Longrightarrow> rs_epoch old \<le> rs_epoch s"
    and "s' = written u (get st (rs_run_id s)) s"
    and "st' = record_thread_run (rs_thread_id s) (rs_run_id s)
          ((snd (write_checkpoint u (s\<lparr>rs_epoch := next_epoch (get st (rs_run_id s))\<rparr>) st))
             \<lparr>st_state := dset (rs_run_id s) s' (st_state st)\<rparr>)"
  using assms validate_state_iff [of s]
  by (cases "get st (rs_run_id s)")
    (auto simp: put_eq split: sum.splits if_splits)

lemma put_OK:
  "\<lbrakk>state_consistent s; \<And>old. get st (rs_run_id s) = Some old \<Longrightarrow> rs_epoch old \<le> rs_epoch s\<rbrakk> \<Longrightarrow>
   \<exists>st'. put u s st = Inr (written u (get st (rs_run_id s)) s, st')"
  using validate_state_iff [of s]
  by (cases "get st (rs_run_id s)") (auto simp: put_eq split: sum.splits)

lemma put_inv:
  assumes inv: "store_inv st" and p: "put u s st = Inr (s', st')"
  shows "store_inv st'"
proof -
  let ?s1 = "s\<lparr>rs_epoch := next_epoch (get st (rs_run_id s))\<rparr>"
  let ?st1 = "snd (write_checkpoint u ?s1 st)"
  let ?st2 = "record_thread_run (rs_thread_id s) (rs_run_id s) ?st1"
  from p obtain c: "state_consistent s" and s': "s' = written u (get st (rs_run_id s)) s"
    and st': "st' = record_thread_run (rs_thread_id s) (rs_run_id s)
          (?st1\<lparr>st_state := dset (rs_run_id s) s' (st_state st)\<rparr>)"
    by (rule put_InrE)
  have st'2: "st' = ?st2\<lparr>st_state := dset (rs_run_id s) s' (st_state ?st2)\<rparr>"
    by (simp add: st' record_thread_run_def Let_def)
  have "store_inv ?st2"
    using inv by (simp add: record_thread_run_inv write_checkpoint_inv)
  moreover have "rs_run_id s \<in> set (dget_or (st_thread_runs ?st2) (rs_thread_id s) [])"
    by (simp add: record_thread_run_index Let_def)
  ultimately show ?thesis unfolding st'2 using c by (auto simp: store_inv_defs s')
qed

lemma put_get:
  "put u s st = Inr (s', st') \<Longrightarrow> get st' = (get st)(rs_run_id s \<mapsto> s')"
  by (erule put_InrE) (simp add: get_def fun_eq_iff)

lemma put_get_checkpoint:
  "put u s st = Inr (s', st') \<Longrightarrow>
   get_checkpoint st' = (get_checkpoint st)(or_else (rs_checkpoint_id s) u \<mapsto> s')"
  by (erule put_InrE) (simp add: get_checkpoint_def write_checkpoint_get fun_eq_iff written_def)

lemma put_active: "put u s st = Inr (s', st') \<Longrightarrow> st_thread_active st' = st_thread_active st"
  by (erule put_InrE) simp

lemma put_list_checkpoints:
  assumes inv: "store_inv st" and p: "put u s st = Inr (s', st')"
    and fresh: "get_checkpoint st (or_else (rs_checkpoint_id s) u) = None"
  shows "list_checkpoints st' t =
    (if t = rs_thread_id s then list_checkpoints st t @ [s'] else list_checkpoints st t)"
proof -
  let ?c = "or_else (rs_checkpoint_id s) u" and ?ids = "dget_or (st_thread_checkpoints st)"
  have known: "\<forall>c \<in> set (?ids t []). c \<noteq> ?c" for t
  proof -
    have "\<forall>c \<in> set (?ids t []). dhas (st_checkpoints st) c" using inv by (simp add: store_inv_defs)
    moreover have "\<not> dhas (st_checkpoints st) ?c" using fresh by (simp add: dhas_def get_checkpoint_def)
    ultimately show ?thesis by metis
  qed
  have ids: "dget_or (st_thread_checkpoints st') t [] =
      (if t = rs_thread_id s then ?ids t [] @ [?c] else ?ids t [])" for t
    using p known [of t] by (elim put_InrE) (auto simp: write_checkpoint_index Let_def)
  have cp: "dget (st_checkpoints st') = (dget (st_checkpoints st))(?c \<mapsto> s')"
    using put_get_checkpoint [OF p] by (simp add: get_checkpoint_def fun_eq_iff)
  have old: "List.map_filter ((dget (st_checkpoints st))(?c \<mapsto> s')) (?ids t []) =
      List.map_filter (dget (st_checkpoints st)) (?ids t [])" for t
    unfolding List.map_filter_def using known [of t] by (auto intro!: map_cong filter_cong)
  show ?thesis
    unfolding list_checkpoints_def ids cp using old
    by (simp add: map_filter_simps List.map_filter_def)
qed

subsection \<open>The contract of \<open>RunStore\<close>\<close>

locale run_store =
  fixes put :: "string \<Rightarrow> run_state \<Rightarrow> 's \<Rightarrow> exn + (run_state \<times> 's)"
    and get :: "'s \<Rightarrow> string \<Rightarrow> run_state option"
    and get_checkpoint :: "'s \<Rightarrow> string \<Rightarrow> run_state option"
    and list_checkpoints :: "'s \<Rightarrow> string \<Rightarrow> run_state list"
    and inv :: "'s \<Rightarrow> bool"
  assumes put_invalid: "\<not> state_consistent s \<Longrightarrow> \<exists>m. put u s st = Inl (Exn ValueError m)"
    and put_stale:
      "\<lbrakk>state_consistent s; get st (rs_run_id s) = Some old; rs_epoch s < rs_epoch old\<rbrakk> \<Longrightarrow>
       \<exists>m. put u s st = Inl (Exn StateConcurrencyError m)"
    and put_fresh:
      "\<lbrakk>inv st; state_consistent s;
        \<And>old. get st (rs_run_id s) = Some old \<Longrightarrow> rs_epoch old \<le> rs_epoch s\<rbrakk> \<Longrightarrow>
       \<exists>st'. put u s st = Inr (written u (get st (rs_run_id s)) s, st') \<and> inv st' \<and>
         get st' = (get st)(rs_run_id s \<mapsto> written u (get st (rs_run_id s)) s) \<and>
         get_checkpoint st' =
           (get_checkpoint st)(or_else (rs_checkpoint_id s) u \<mapsto> written u (get st (rs_run_id s)) s) \<and>
         (get_checkpoint st (or_else (rs_checkpoint_id s) u) = None \<longrightarrow>
            (\<forall>t. list_checkpoints st' t =
               (if t = rs_thread_id s
                then list_checkpoints st t @ [written u (get st (rs_run_id s)) s]
                else list_checkpoints st t)))"
begin

lemma put_Inr_iff:
  "inv st \<Longrightarrow> (\<exists>r. put u s st = Inr r) \<longleftrightarrow>
     state_consistent s \<and> (\<forall>old. get st (rs_run_id s) = Some old \<longrightarrow> rs_epoch old \<le> rs_epoch s)"
proof
  assume "\<exists>r. put u s st = Inr r"
  then have "put u s st \<noteq> Inl e" for e by auto
  then show "state_consistent s \<and> (\<forall>old. get st (rs_run_id s) = Some old \<longrightarrow> rs_epoch old \<le> rs_epoch s)"
    by (metis put_invalid put_stale not_le)
next
  assume "inv st"
    and "state_consistent s \<and> (\<forall>old. get st (rs_run_id s) = Some old \<longrightarrow> rs_epoch old \<le> rs_epoch s)"
  then show "\<exists>r. put u s st = Inr r" using put_fresh [of st s u] by blast
qed

lemma put_result:
  assumes "inv st" and "put u s st = Inr (s', st')"
  shows "s' = written u (get st (rs_run_id s)) s \<and> inv st' \<and>
    get st' = (get st)(rs_run_id s \<mapsto> s') \<and>
    get_checkpoint st' = (get_checkpoint st)(or_else (rs_checkpoint_id s) u \<mapsto> s')"
proof -
  have "state_consistent s" "\<And>old. get st (rs_run_id s) = Some old \<Longrightarrow> rs_epoch old \<le> rs_epoch s"
    using assms put_Inr_iff by blast+
  from put_fresh [OF assms(1) this, of u] assms(2) show ?thesis by auto
qed

text \<open>Optimistic locking: of two writers that read the same snapshot, the second is refused.\<close>

lemma lost_update_refused:
  assumes "inv st" and "get st r = Some old"
    and "rs_run_id a = r" and "rs_epoch a = rs_epoch old" and "put u a st = Inr (a', st1)"
    and "rs_run_id b = r" and "rs_epoch b = rs_epoch old" and "state_consistent b"
  shows "\<exists>m. put v b st1 = Inl (Exn StateConcurrencyError m)"
proof -
  from put_result [OF assms(1,5)] have "get st1 r = Some a'" "rs_epoch a' = rs_epoch old + 1"
    using assms(2,3) by auto
  with assms(6-8) show ?thesis by (intro put_stale) auto
qed

text \<open>A writer that keeps using the state \<open>put\<close> handed back is never refused, and each write is
  numbered one higher.\<close>

lemma put_again:
  assumes "inv st" and "put u s st = Inr (s', st')"
    and "rs_run_id t = rs_run_id s" and "rs_epoch t = rs_epoch s'" and "state_consistent t"
  shows "\<exists>t' st''. put v t st' = Inr (t', st'') \<and> rs_epoch t' = rs_epoch s' + 1"
proof -
  from put_result [OF assms(1,2)] have g: "get st' (rs_run_id t) = Some s'" and i: "inv st'"
    using assms(3) by auto
  then have "\<exists>r. put v t st' = Inr r" using assms(4,5) put_Inr_iff [OF i] by simp
  then obtain t' st'' where p: "put v t st' = Inr (t', st'')" by auto
  from put_result [OF i p] g show ?thesis using p by auto
qed

end

interpretation mem: run_store put get get_checkpoint list_checkpoints store_inv
proof
  show "\<exists>m. put u s st = Inl (Exn ValueError m)" if "\<not> state_consistent s" for s u st
    using that by (auto simp: put_eq validate_state_def state_consistent_def)
  show "\<exists>m. put u s st = Inl (Exn StateConcurrencyError m)"
    if "state_consistent s" "get st (rs_run_id s) = Some old" "rs_epoch s < rs_epoch old"
    for s st old u
    using that by (auto simp: put_eq validate_state_iff [THEN iffD2])
  show "\<exists>st'. put u s st = Inr (written u (get st (rs_run_id s)) s, st') \<and> store_inv st' \<and>
         get st' = (get st)(rs_run_id s \<mapsto> written u (get st (rs_run_id s)) s) \<and>
         get_checkpoint st' =
           (get_checkpoint st)(or_else (rs_checkpoint_id s) u \<mapsto> written u (get st (rs_run_id s)) s) \<and>
         (get_checkpoint st (or_else (rs_checkpoint_id s) u) = None \<longrightarrow>
            (\<forall>t. list_checkpoints st' t =
               (if t = rs_thread_id s
                then list_checkpoints st t @ [written u (get st (rs_run_id s)) s]
                else list_checkpoints st t)))"
    if i: "store_inv st" and c: "state_consistent s"
      and e: "\<And>old. get st (rs_run_id s) = Some old \<Longrightarrow> rs_epoch old \<le> rs_epoch s" for st s u
  proof -
    from put_OK [OF c e] obtain st' where p: "put u s st = Inr (written u (get st (rs_run_id s)) s, st')"
      by blast
    from put_inv [OF i p] put_get [OF p] put_get_checkpoint [OF p] put_list_checkpoints [OF i p] p
    show ?thesis by auto
  qed
qed

subsection \<open>The other operations keep the invariant\<close>

lemma remove_thread_run_frame [simp]:
  "st_state (remove_thread_run t r st) = st_state st"
  "st_checkpoints (remove_thread_run t r st) = st_checkpoints st"
  "st_thread_checkpoints (remove_thread_run t r st) = st_thread_checkpoints st"
  "st_thread_active (remove_thread_run t r st) = st_thread_active st"
  by (simp_all add: remove_thread_run_def Let_def split: option.splits)

lemma remove_thread_run_index:
  "dget_or (st_thread_runs (remove_thread_run t r st)) t' [] =
     (let runs = dget_or (st_thread_runs st) t' [] in if t' = t then filter (\<lambda>c. c \<noteq> r) runs else runs)"
proof (cases "dget (st_thread_runs st) t")
  case None
  then show ?thesis by (simp add: remove_thread_run_def Let_def dget_or_def)
next
  case (Some runs)
  then show ?thesis
    by (cases "filter (\<lambda>c. c \<noteq> r) runs = []")
      (simp_all add: remove_thread_run_def Let_def dget_or_Some)
qed

lemma remove_thread_run_states_ok:
  assumes "states_ok st" and "dget (st_state st) r = Some v"
  shows "states_ok (remove_thread_run (rs_thread_id v) r (st\<lparr>st_state := ddel r (st_state st)\<rparr>))"
  unfolding states_ok_def
proof (intro allI impI)
  fix q s
  let ?st = "remove_thread_run (rs_thread_id v) r (st\<lparr>st_state := ddel r (st_state st)\<rparr>)"
  assume "dget (st_state ?st) q = Some s"
  then have ne: "q \<noteq> r" and q: "dget (st_state st) q = Some s" by (simp_all split: if_splits)
  from q assms(1) have "rs_run_id s = q" "state_consistent s"
    "q \<in> set (dget_or (st_thread_runs st) (rs_thread_id s) [])"
    by (simp_all add: states_ok_def)
  with ne show "rs_run_id s = q \<and> state_consistent s \<and>
      q \<in> set (dget_or (st_thread_runs ?st) (rs_thread_id s) [])"
    by (cases "rs_thread_id s = rs_thread_id v") (simp_all add: remove_thread_run_index Let_def)
qed

lemma delete_run_inv:
  assumes inv: "store_inv st"
  shows "store_inv (delete_run r st)"
proof (cases "dget (st_state st) r")
  case None
  then show ?thesis using inv by (simp add: delete_run_def)
next
  case (Some v)
  let ?st = "remove_thread_run (rs_thread_id v) r (st\<lparr>st_state := ddel r (st_state st)\<rparr>)"
  have "run_index_ok ?st"
    using inv by (simp add: store_inv_def run_index_ok_def remove_thread_run_index Let_def)
  moreover have "states_ok ?st"
    using inv Some by (simp add: store_inv_def remove_thread_run_states_ok)
  moreover have "checkpoint_index_ok ?st" "checkpoint_ids_ok ?st"
    using inv by (simp_all add: store_inv_def checkpoint_index_ok_def checkpoint_ids_ok_def)
  ultimately have "store_inv ?st" by (simp add: store_inv_def)
  then show ?thesis using Some by (simp add: delete_run_def Let_def store_inv_defs)
qed

lemma get_active_run_id_inv: "store_inv st \<Longrightarrow> store_inv (snd (get_active_run_id t st))"
  by (auto simp: get_active_run_id_def store_inv_defs split: option.splits)

lemma list_run_ids_index:
  "dget_or (st_thread_runs (snd (list_run_ids t st))) t' [] =
     (let runs = dget_or (st_thread_runs st) t' []
      in if t' = t then filter (dhas (st_state st)) runs else runs)"
proof (cases "length (filter (dhas (st_state st)) (dget_or (st_thread_runs st) t [])) =
    length (dget_or (st_thread_runs st) t [])")
  case True
  then have "filter (dhas (st_state st)) (dget_or (st_thread_runs st) t []) =
      dget_or (st_thread_runs st) t []"
    by (metis filter_id_conv length_filter_less less_irrefl)
  then show ?thesis by (simp add: list_run_ids_def Let_def)
next
  case False
  then show ?thesis by (simp add: list_run_ids_def Let_def)
qed

lemma list_run_ids_frame [simp]:
  "st_state (snd (list_run_ids t st)) = st_state st"
  "st_checkpoints (snd (list_run_ids t st)) = st_checkpoints st"
  "st_thread_checkpoints (snd (list_run_ids t st)) = st_thread_checkpoints st"
  "st_thread_active (snd (list_run_ids t st)) = st_thread_active st"
  by (simp_all add: list_run_ids_def Let_def)

lemma list_run_ids_inv: "store_inv st \<Longrightarrow> store_inv (snd (list_run_ids t st))"
  by (auto simp: store_inv_defs list_run_ids_index Let_def dhas_def)

lemma set_active_run_id_inv: "store_inv st \<Longrightarrow> store_inv (set_active_run_id t r st)"
  using record_thread_run_inv [of st t r] by (simp add: set_active_run_id_def Let_def store_inv_defs)

lemma clear_active_run_id_inv: "store_inv st \<Longrightarrow> store_inv (clear_active_run_id t r st)"
  by (simp add: clear_active_run_id_def store_inv_defs)

text \<open>The history of a thread lists exactly its persisted runs, once each.\<close>

lemma list_run_ids_complete:
  assumes "store_inv st" and "get st r = Some s"
  shows "r \<in> set (fst (list_run_ids (rs_thread_id s) st))"
  using assms by (auto simp: list_run_ids_def Let_def store_inv_defs get_def dhas_def)

lemma list_run_ids_sound:
  "r \<in> set (fst (list_run_ids t st)) \<Longrightarrow> get st r \<noteq> None"
  by (auto simp: list_run_ids_def Let_def get_def dhas_def)

lemma list_run_ids_distinct: "store_inv st \<Longrightarrow> distinct (fst (list_run_ids t st))"
  by (simp add: list_run_ids_def Let_def store_inv_defs)

lemma get_latest_checkpoint_last:
  assumes "store_inv st"
  shows "get_latest_checkpoint st t =
    (let cs = list_checkpoints st t in if cs = [] then None else Some (last cs))"
proof (cases "dget_or (st_thread_checkpoints st) t []" rule: rev_cases)
  case Nil
  then show ?thesis by (simp add: get_latest_checkpoint_def list_checkpoints_def Let_def map_filter_simps)
next
  case (snoc ids c)
  have "\<forall>c \<in> set (dget_or (st_thread_checkpoints st) t []). dhas (st_checkpoints st) c"
    using assms by (simp add: store_inv_defs)
  with snoc obtain s where "dget (st_checkpoints st) c = Some s" by (auto simp: dhas_def)
  with snoc show ?thesis
    by (simp add: get_latest_checkpoint_def list_checkpoints_def Let_def List.map_filter_def)
qed

end
