(* ===== verification/Thread_Store.thy ===== *)
theory Thread_Store
  imports Models
begin

section \<open>Thread lifecycle (\<open>governai/runtime/thread_store.py\<close>)\<close>

text \<open>
  \<open>InMemoryThreadStore\<close>: one record per thread, whose status moves along
  \<open>ALLOWED_THREAD_TRANSITIONS\<close>. The operations are the source's; \<open>thread_step\<close> is the transition
  relation they induce on one record, used to state what a thread's history can be.
\<close>

datatype thread_status = CREATED | ACTIVE | INTERRUPTED | IDLE | ARCHIVED

instantiation thread_status :: enum
begin

definition enum_thread_status :: "thread_status list" where
  "enum_thread_status = [CREATED, ACTIVE, INTERRUPTED, IDLE, ARCHIVED]"

definition enum_all_thread_status :: "(thread_status \<Rightarrow> bool) \<Rightarrow> bool" where
  "enum_all_thread_status P \<longleftrightarrow> P CREATED \<and> P ACTIVE \<and> P INTERRUPTED \<and> P IDLE \<and> P ARCHIVED"

definition enum_ex_thread_status :: "(thread_status \<Rightarrow> bool) \<Rightarrow> bool" where
  "enum_ex_thread_status P \<longleftrightarrow> P CREATED \<or> P ACTIVE \<or> P INTERRUPTED \<or> P IDLE \<or> P ARCHIVED"

instance
proof
  show univ: "(UNIV :: thread_status set) = set enum_class.enum"
    by (auto simp: enum_thread_status_def intro: thread_status.exhaust)
  show "distinct (enum_class.enum :: thread_status list)"
    by (simp add: enum_thread_status_def)
  show "enum_class.enum_all P \<longleftrightarrow> Ball UNIV P" for P :: "thread_status \<Rightarrow> bool"
    unfolding univ by (simp add: enum_all_thread_status_def enum_thread_status_def)
  show "enum_class.enum_ex P \<longleftrightarrow> Bex UNIV P" for P :: "thread_status \<Rightarrow> bool"
    unfolding univ by (simp add: enum_ex_thread_status_def enum_thread_status_def)
qed

end

fun thread_status_value :: "thread_status \<Rightarrow> string" where
  "thread_status_value CREATED = ''created''"
| "thread_status_value ACTIVE = ''active''"
| "thread_status_value INTERRUPTED = ''interrupted''"
| "thread_status_value IDLE = ''idle''"
| "thread_status_value ARCHIVED = ''archived''"

fun allowed_thread_transitions :: "thread_status \<Rightarrow> thread_status list" where
  "allowed_thread_transitions CREATED = [ACTIVE]"
| "allowed_thread_transitions ACTIVE = [IDLE, INTERRUPTED]"
| "allowed_thread_transitions INTERRUPTED = [ACTIVE]"
| "allowed_thread_transitions IDLE = [ACTIVE, ARCHIVED]"
| "allowed_thread_transitions ARCHIVED = []"

record thread_record =
  tr_thread_id :: string
  tr_status :: thread_status
  tr_run_ids :: "string list"
  tr_created_at :: int
  tr_updated_at :: int
  tr_metadata :: "json dict"

type_synonym thread_store = "thread_record dict"

definition thread_create :: "int \<Rightarrow> string \<Rightarrow> (thread_store, thread_record) py" where
  "thread_create now thread_id =
     bnd (gets (\<lambda>s. dhas s thread_id)) (\<lambda>known.
     if known then raise (Exn KeyError (''Thread already exists: '' @ thread_id))
     else
       (let record = \<lparr>tr_thread_id = thread_id, tr_status = CREATED, tr_run_ids = [],
                      tr_created_at = now, tr_updated_at = now, tr_metadata = []\<rparr>
        in sq (modify (dset thread_id record)) (ret record)))"

definition thread_get :: "string \<Rightarrow> (thread_store, thread_record option) py" where
  "thread_get thread_id = gets (\<lambda>s. dget s thread_id)"

definition thread_transition ::
  "int \<Rightarrow> string \<Rightarrow> thread_status \<Rightarrow> (thread_store, thread_record) py" where
  "thread_transition now thread_id new_status =
     bnd (gets (\<lambda>s. dget s thread_id)) (\<lambda>found.
     case found of
       None \<Rightarrow> raise (Exn KeyError (''Unknown thread_id: '' @ thread_id))
     | Some record \<Rightarrow>
         if new_status \<notin> set (allowed_thread_transitions (tr_status record))
         then raise (Exn ThreadTransitionError
                (''Invalid transition for thread '' @ thread_id @ '': '' @
                 thread_status_value (tr_status record) @ '' -> '' @
                 thread_status_value new_status))
         else
           (let record' = record\<lparr>tr_status := new_status, tr_updated_at := now\<rparr>
            in sq (modify (dset thread_id record')) (ret record')))"

definition thread_add_run_id :: "int \<Rightarrow> string \<Rightarrow> string \<Rightarrow> (thread_store, thread_record) py" where
  "thread_add_run_id now thread_id run_id =
     bnd (gets (\<lambda>s. dget s thread_id)) (\<lambda>found.
     case found of
       None \<Rightarrow> raise (Exn KeyError (''Unknown thread_id: '' @ thread_id))
     | Some record \<Rightarrow>
         (let record' = record\<lparr>tr_run_ids := tr_run_ids record @ [run_id], tr_updated_at := now\<rparr>
          in sq (modify (dset thread_id record')) (ret record')))"

definition thread_archive :: "int \<Rightarrow> string \<Rightarrow> (thread_store, thread_record) py" where
  "thread_archive now thread_id = thread_transition now thread_id ARCHIVED"

subsection \<open>The transition relation\<close>

datatype thread_op =
    OpCreate int string
  | OpTransition int string thread_status
  | OpAddRun int string string
  | OpArchive int string

fun thread_apply :: "thread_op \<Rightarrow> thread_store \<Rightarrow> (exn + thread_record) \<times> thread_store" where
  "thread_apply (OpCreate now t) = thread_create now t"
| "thread_apply (OpTransition now t st) = thread_transition now t st"
| "thread_apply (OpAddRun now t r) = thread_add_run_id now t r"
| "thread_apply (OpArchive now t) = thread_archive now t"

fun thread_run :: "thread_op list \<Rightarrow> thread_store \<Rightarrow> thread_store" where
  "thread_run [] s = s"
| "thread_run (x # xs) s = thread_run xs (snd (thread_apply x s))"

inductive thread_step :: "thread_status \<Rightarrow> thread_status \<Rightarrow> bool" where
  activate: "st \<in> {CREATED, INTERRUPTED, IDLE} \<Longrightarrow> thread_step st ACTIVE"
| settle: "st \<in> {IDLE, INTERRUPTED} \<Longrightarrow> thread_step ACTIVE st"
| archive: "thread_step IDLE ARCHIVED"

inductive_cases from_archived: "thread_step ARCHIVED st"
inductive_cases to_archived: "thread_step st ARCHIVED"
inductive_cases to_created: "thread_step st CREATED"

lemma allowed_iff_step: "st' \<in> set (allowed_thread_transitions st) \<longleftrightarrow> thread_step st st'"
  by (cases st; cases st') (auto intro: thread_step.intros elim: thread_step.cases)

definition thread_status_of :: "thread_store \<Rightarrow> string \<Rightarrow> thread_status option" where
  "thread_status_of s t = map_option tr_status (dget s t)"

lemma thread_apply_status:
  "thread_status_of (snd (thread_apply x s)) t = thread_status_of s t \<or>
   (thread_status_of s t = None \<and> thread_status_of (snd (thread_apply x s)) t = Some CREATED) \<or>
   (\<exists>a b. thread_status_of s t = Some a \<and> thread_status_of (snd (thread_apply x s)) t = Some b \<and>
      thread_step a b)"
  by (cases x)
    (auto simp: thread_create_def thread_transition_def thread_add_run_id_def thread_archive_def
      thread_status_of_def py_simps Let_def dhas_def allowed_iff_step split: option.splits)

lemma thread_run_status:
  "thread_status_of s t = Some a \<Longrightarrow>
   \<exists>b. thread_status_of (thread_run xs s) t = Some b \<and> thread_step\<^sup>*\<^sup>* a b"
proof (induction xs arbitrary: s a)
  case Nil
  then show ?case by simp
next
  case (Cons x xs)
  from thread_apply_status [of x s t] Cons.prems
  obtain b where "thread_status_of (snd (thread_apply x s)) t = Some b" "thread_step\<^sup>*\<^sup>* a b"
    by auto
  with Cons.IH show ?case by (fastforce intro: rtranclp_trans)
qed

lemma archived_stuck: "thread_step\<^sup>*\<^sup>* ARCHIVED b \<Longrightarrow> b = ARCHIVED"
  by (induction rule: rtranclp_induct) (auto elim: from_archived)

lemma archived_forever:
  "thread_status_of s t = Some ARCHIVED \<Longrightarrow>
   thread_status_of (thread_run xs s) t = Some ARCHIVED"
  using thread_run_status [of s t ARCHIVED xs] archived_stuck by auto

lemma thread_archive_iff:
  "(\<exists>r. fst (thread_archive now t s) = Inr r) \<longleftrightarrow> thread_status_of s t = Some IDLE"
  by (auto simp: thread_archive_def thread_transition_def thread_status_of_def py_simps Let_def
      allowed_iff_step split: option.splits elim: to_archived intro: thread_step.intros)

lemma thread_error_unchanged: "fst (thread_apply x s) = Inl e \<Longrightarrow> snd (thread_apply x s) = s"
  by (cases x)
    (auto simp: thread_create_def thread_transition_def thread_add_run_id_def thread_archive_def
      py_simps Let_def split: option.splits if_splits)

end
