(* ===== verification/Interrupts.thy ===== *)
theory Interrupts
  imports Models
begin

section \<open>Interrupts (\<open>governai/runtime/interrupts.py\<close>)\<close>

text \<open>
  An interrupt request is a question a step puts to a user: it is pending until it is resolved or
  expires, and it carries the epoch it belongs to. \<open>InterruptStore\<close> is the abstract persistence
  class, here a record of its operations; \<open>InMemoryInterruptStore\<close> is one implementation;
  \<open>InterruptManager\<close> works over any store. Time is the argument \<open>now\<close> (\<open>int(time.time())\<close>), the
  \<open>uuid4\<close> of a new request the argument \<open>fresh_id\<close>.

  The locale \<open>interrupt_store\<close> states what the manager relies on; the manager's lemmas are proved
  in it, and it is interpreted on the in-memory store.
\<close>

subsection \<open>Requests\<close>

record interrupt_request =
  ir_interrupt_id :: string
  ir_run_id :: string
  ir_step_name :: string
  ir_message :: string
  ir_context :: "json dict"
  ir_epoch :: int
  ir_created_at :: int
  ir_expires_at :: int
  ir_status :: string

record interrupt_resolution =
  ires_request :: interrupt_request
  ires_response :: json
  ires_resolved_at :: int

subsection \<open>The store interface\<close>

record 's interrupt_ops =
  io_get_epoch :: "'s \<Rightarrow> string \<Rightarrow> int"
  io_set_epoch :: "string \<Rightarrow> int \<Rightarrow> 's \<Rightarrow> 's"
  io_save :: "interrupt_request \<Rightarrow> 's \<Rightarrow> 's"
  io_get :: "'s \<Rightarrow> string \<Rightarrow> string \<Rightarrow> interrupt_request option"
  io_list :: "string \<Rightarrow> 's \<Rightarrow> interrupt_request list \<times> 's"
  io_delete :: "string \<Rightarrow> string \<Rightarrow> 's \<Rightarrow> 's"

subsection \<open>InMemoryInterruptStore\<close>

record mem_interrupts =
  mi_requests :: "interrupt_request dict dict"
  mi_epochs :: "int dict"

definition empty_interrupts :: mem_interrupts where
  "empty_interrupts = \<lparr>mi_requests = [], mi_epochs = []\<rparr>"

definition mem_get_epoch :: "mem_interrupts \<Rightarrow> string \<Rightarrow> int" where
  "mem_get_epoch s run_id = dget_or (mi_epochs s) run_id 0"

definition mem_set_epoch :: "string \<Rightarrow> int \<Rightarrow> mem_interrupts \<Rightarrow> mem_interrupts" where
  "mem_set_epoch run_id epoch s = s\<lparr>mi_epochs := dset run_id epoch (mi_epochs s)\<rparr>"

definition mem_save_request :: "interrupt_request \<Rightarrow> mem_interrupts \<Rightarrow> mem_interrupts" where
  "mem_save_request q s =
     (let requests = dget_or (mi_requests s) (ir_run_id q) []
      in s\<lparr>mi_requests := dset (ir_run_id q) (dset (ir_interrupt_id q) q requests) (mi_requests s)\<rparr>)"

definition mem_get_request :: "mem_interrupts \<Rightarrow> string \<Rightarrow> string \<Rightarrow> interrupt_request option" where
  "mem_get_request s run_id interrupt_id = dget (dget_or (mi_requests s) run_id []) interrupt_id"

definition mem_list_requests :: "string \<Rightarrow> mem_interrupts \<Rightarrow> interrupt_request list \<times> mem_interrupts" where
  "mem_list_requests run_id s = (dvalues (dget_or (mi_requests s) run_id []), s)"

definition mem_delete_request :: "string \<Rightarrow> string \<Rightarrow> mem_interrupts \<Rightarrow> mem_interrupts" where
  "mem_delete_request run_id interrupt_id s =
     (case dget (mi_requests s) run_id of
        None \<Rightarrow> s
      | Some requests \<Rightarrow>
          (let requests' = ddel interrupt_id requests
           in s\<lparr>mi_requests :=
                (if requests' = [] then ddel run_id (mi_requests s)
                 else dset run_id requests' (mi_requests s))\<rparr>))"

definition swept :: "int \<Rightarrow> interrupt_request \<Rightarrow> bool" where
  "swept now q \<longleftrightarrow> ir_expires_at q > 0 \<and> ir_expires_at q \<le> now"

definition mem_sweep_expired :: "int \<Rightarrow> mem_interrupts \<Rightarrow> nat \<times> mem_interrupts" where
  "mem_sweep_expired now s =
     (let removed = sum_list (map (\<lambda>(_, reqs). length (filter (\<lambda>(_, q). swept now q) reqs)) (mi_requests s));
          kept = map (\<lambda>(r, reqs). (r, filter (\<lambda>(_, q). \<not> swept now q) reqs)) (mi_requests s)
      in (removed, s\<lparr>mi_requests := filter (\<lambda>(_, reqs). reqs \<noteq> []) kept\<rparr>))"

definition mem_interrupt_ops :: "mem_interrupts interrupt_ops" where
  "mem_interrupt_ops =
     \<lparr>io_get_epoch = mem_get_epoch, io_set_epoch = mem_set_epoch, io_save = mem_save_request,
      io_get = mem_get_request, io_list = mem_list_requests, io_delete = mem_delete_request\<rparr>"

subsection \<open>InterruptManager\<close>

definition bump_epoch :: "'s interrupt_ops \<Rightarrow> string \<Rightarrow> 's \<Rightarrow> int \<times> 's" where
  "bump_epoch ops run_id s =
     (let next_epoch = io_get_epoch ops s run_id + 1
      in (next_epoch, io_set_epoch ops run_id next_epoch s))"

fun collect_pending ::
  "'s interrupt_ops \<Rightarrow> int \<Rightarrow> int option \<Rightarrow> interrupt_request list \<Rightarrow> 's \<Rightarrow>
   interrupt_request list \<times> 's" where
  "collect_pending ops now epoch [] s = ([], s)"
| "collect_pending ops now epoch (q # qs) s =
     (if ir_status q \<noteq> ''pending'' then collect_pending ops now epoch qs s
      else if ir_expires_at q \<le> now
      then collect_pending ops now epoch qs (io_save ops (q\<lparr>ir_status := ''expired''\<rparr>) s)
      else if epoch \<noteq> None \<and> Some (ir_epoch q) \<noteq> epoch then collect_pending ops now epoch qs s
      else (let (out, s') = collect_pending ops now epoch qs s in (q # out, s')))"

definition list_pending ::
  "'s interrupt_ops \<Rightarrow> int \<Rightarrow> string \<Rightarrow> int option \<Rightarrow> 's \<Rightarrow> interrupt_request list \<times> 's" where
  "list_pending ops now run_id epoch s =
     (let (requests, s1) = io_list ops run_id s;
          (out, s2) = collect_pending ops now epoch requests s1
      in (sort_key (\<lambda>item. (ir_created_at item, ir_interrupt_id item)) out, s2))"

definition create_interrupt ::
  "'s interrupt_ops \<Rightarrow> int \<Rightarrow> int \<Rightarrow> string \<Rightarrow> string \<Rightarrow> string \<Rightarrow> string \<Rightarrow> json dict \<Rightarrow>
   int option \<Rightarrow> int option \<Rightarrow> int option \<Rightarrow> ('s, interrupt_request) py" where
  "create_interrupt ops default_ttl now fresh_id run_id step_name message ctx ttl_seconds epoch
     max_pending =
     sq (case max_pending of
           None \<Rightarrow> ret ()
         | Some m \<Rightarrow>
             if m \<ge> 0
             then bnd (\<lambda>s. case list_pending ops now run_id epoch s of (qs, s') \<Rightarrow> (Inr qs, s'))
                    (\<lambda>current_pending.
                    if int (length current_pending) \<ge> m
                    then raise (Exn ValueError (''Run '' @ run_id @
                           '' reached max pending interrupts ('' @ int_str m @ '')''))
                    else ret ())
             else ret ())
        (bnd (gets (\<lambda>s. case epoch of None \<Rightarrow> io_get_epoch ops s run_id | Some e \<Rightarrow> e)) (\<lambda>resolved_epoch.
         let ttl = (case ttl_seconds of None \<Rightarrow> default_ttl | Some t \<Rightarrow> t);
             request = \<lparr>ir_interrupt_id = fresh_id, ir_run_id = run_id, ir_step_name = step_name,
                        ir_message = message, ir_context = ctx, ir_epoch = resolved_epoch,
                        ir_created_at = now, ir_expires_at = now + ttl, ir_status = ''pending''\<rparr>
         in sq (modify (io_save ops request)) (ret request)))"

definition get_pending ::
  "'s interrupt_ops \<Rightarrow> int \<Rightarrow> string \<Rightarrow> string \<Rightarrow> 's \<Rightarrow> interrupt_request option \<times> 's" where
  "get_pending ops now run_id interrupt_id s =
     (case io_get ops s run_id interrupt_id of
        None \<Rightarrow> (None, s)
      | Some q \<Rightarrow>
          if ir_status q \<noteq> ''pending'' then (None, s)
          else if ir_expires_at q \<le> now
          then (None, io_save ops (q\<lparr>ir_status := ''expired''\<rparr>) s)
          else (Some q, s))"

definition get_latest_pending ::
  "'s interrupt_ops \<Rightarrow> int \<Rightarrow> string \<Rightarrow> int option \<Rightarrow> 's \<Rightarrow> interrupt_request option \<times> 's" where
  "get_latest_pending ops now run_id epoch s =
     (let (pending, s') = list_pending ops now run_id epoch s
      in (if pending = [] then None else Some (last pending), s'))"

definition resolve_interrupt ::
  "'s interrupt_ops \<Rightarrow> int \<Rightarrow> string \<Rightarrow> string \<Rightarrow> json \<Rightarrow> int option \<Rightarrow> ('s, interrupt_resolution) py" where
  "resolve_interrupt ops now run_id interrupt_id response epoch =
     bnd (gets (\<lambda>s. io_get ops s run_id interrupt_id)) (\<lambda>found.
     case found of
       None \<Rightarrow> raise (Exn KeyError (''Unknown interrupt_id: '' @ interrupt_id))
     | Some q \<Rightarrow>
         if ir_status q \<noteq> ''pending''
         then raise (Exn ValueError (''Interrupt '' @ interrupt_id @ '' is not pending''))
         else if ir_expires_at q \<le> now
         then sq (modify (io_save ops (q\<lparr>ir_status := ''expired''\<rparr>)))
                 (raise (Exn (InterruptExpiredError (ir_expires_at q))
                    (''Interrupt '' @ interrupt_id @ '' has expired'')))
         else if epoch \<noteq> None \<and> Some (ir_epoch q) \<noteq> epoch
         then raise (Exn ValueError (''Interrupt epoch mismatch for '' @ interrupt_id @
                '': expected='' @ int_str (ir_epoch q) @ '' provided='' @ int_str (the epoch)))
         else
           (let q' = q\<lparr>ir_status := ''resolved''\<rparr>
            in sq (modify (io_save ops q'))
                  (ret \<lparr>ires_request = q', ires_response = response, ires_resolved_at = now\<rparr>)))"

fun clear_requests ::
  "'s interrupt_ops \<Rightarrow> int \<Rightarrow> string \<Rightarrow> interrupt_request list \<Rightarrow> 's \<Rightarrow> nat \<times> 's" where
  "clear_requests ops now run_id [] s = (0, s)"
| "clear_requests ops now run_id (q # qs) s =
     (if ir_status q \<noteq> ''pending'' \<or> ir_expires_at q \<le> now
      then (let (n, s') = clear_requests ops now run_id qs
                            (io_delete ops run_id (ir_interrupt_id q) s)
            in (Suc n, s'))
      else clear_requests ops now run_id qs s)"

definition clear_expired :: "'s interrupt_ops \<Rightarrow> int \<Rightarrow> string \<Rightarrow> 's \<Rightarrow> nat \<times> 's" where
  "clear_expired ops now run_id s =
     (let (requests, s1) = io_list ops run_id s in clear_requests ops now run_id requests s1)"

subsection \<open>The contract of a store\<close>

definition mark_expired :: "int \<Rightarrow> interrupt_request \<Rightarrow> interrupt_request" where
  "mark_expired now q =
     (if ir_status q = ''pending'' \<and> ir_expires_at q \<le> now then q\<lparr>ir_status := ''expired''\<rparr> else q)"

definition live :: "int \<Rightarrow> int option \<Rightarrow> interrupt_request \<Rightarrow> bool" where
  "live now epoch q \<longleftrightarrow>
     ir_status q = ''pending'' \<and> now < ir_expires_at q \<and>
     (case epoch of None \<Rightarrow> True | Some e \<Rightarrow> ir_epoch q = e)"

lemma mark_expired_fields [simp]:
  "ir_interrupt_id (mark_expired now q) = ir_interrupt_id q"
  "ir_run_id (mark_expired now q) = ir_run_id q"
  "ir_epoch (mark_expired now q) = ir_epoch q"
  "ir_expires_at (mark_expired now q) = ir_expires_at q"
  by (simp_all add: mark_expired_def)

lemma live_mark_expired [simp]: "live now e (mark_expired now q) \<longleftrightarrow> live now e q"
  by (auto simp: live_def mark_expired_def)

lemma mark_expired_live: "live now e q \<Longrightarrow> mark_expired now q = q"
  by (simp add: live_def mark_expired_def)

locale interrupt_store =
  fixes ops :: "'s interrupt_ops" and inv :: "'s \<Rightarrow> bool"
  assumes get_key: "\<lbrakk>inv s; io_get ops s r i = Some q\<rbrakk> \<Longrightarrow> ir_run_id q = r \<and> ir_interrupt_id q = i"
    and save_inv: "inv s \<Longrightarrow> inv (io_save ops q s)"
    and get_save:
      "inv s \<Longrightarrow> io_get ops (io_save ops q s) r i =
         (if r = ir_run_id q \<and> i = ir_interrupt_id q then Some q else io_get ops s r i)"
    and delete_inv: "inv s \<Longrightarrow> inv (io_delete ops r i s)"
    and get_delete:
      "inv s \<Longrightarrow> io_get ops (io_delete ops r i s) r' i' =
         (if r' = r \<and> i' = i then None else io_get ops s r' i')"
    and list_inv: "inv s \<Longrightarrow> inv (snd (io_list ops r s))"
    and list_get: "inv s \<Longrightarrow> io_get ops (snd (io_list ops r s)) = io_get ops s"
    and list_set: "inv s \<Longrightarrow> set (fst (io_list ops r s)) = {q. \<exists>i. io_get ops s r i = Some q}"
    and list_distinct: "inv s \<Longrightarrow> distinct (map ir_interrupt_id (fst (io_list ops r s)))"
    and epoch_inv: "inv s \<Longrightarrow> inv (io_set_epoch ops r e s)"
    and get_set_epoch: "io_get ops (io_set_epoch ops r e s) = io_get ops s"
    and epoch_set: "io_get_epoch ops (io_set_epoch ops r e s) r' =
         (if r' = r then e else io_get_epoch ops s r')"
    and epoch_save: "io_get_epoch ops (io_save ops q s) = io_get_epoch ops s"
    and epoch_delete: "io_get_epoch ops (io_delete ops r i s) = io_get_epoch ops s"
    and epoch_list: "io_get_epoch ops (snd (io_list ops r s)) = io_get_epoch ops s"
begin

lemma collect_pending_out:
  "fst (collect_pending ops now epoch qs s) = filter (live now epoch) qs"
  by (induction qs arbitrary: s)
    (auto simp: live_def Let_def split_beta split: option.splits)

lemma collect_pending_inv: "inv s \<Longrightarrow> inv (snd (collect_pending ops now epoch qs s))"
  by (induction qs arbitrary: s) (auto simp: Let_def save_inv split_beta)

lemma collect_pending_epoch:
  "io_get_epoch ops (snd (collect_pending ops now epoch qs s)) = io_get_epoch ops s"
  by (induction qs arbitrary: s) (auto simp: Let_def epoch_save split_beta)

lemma collect_pending_get:
  "\<lbrakk>inv s; distinct (map ir_interrupt_id qs); \<forall>q \<in> set qs. ir_run_id q = r;
    \<forall>q \<in> set qs. io_get ops s r (ir_interrupt_id q) = Some q\<rbrakk> \<Longrightarrow>
   io_get ops (snd (collect_pending ops now epoch qs s)) r' i =
     (if r' = r \<and> i \<in> ir_interrupt_id ` set qs
      then map_option (mark_expired now) (io_get ops s r' i) else io_get ops s r' i)"
proof (induction qs arbitrary: s)
  case Nil
  then show ?case by simp
next
  case (Cons q qs)
  have q: "io_get ops s r (ir_interrupt_id q) = Some q" "ir_run_id q = r" using Cons.prems by auto
  have rest: "\<forall>q' \<in> set qs. ir_interrupt_id q' \<noteq> ir_interrupt_id q" using Cons.prems(2) by (simp add: image_iff) metis
  show ?case
  proof (cases "ir_status q = ''pending'' \<and> ir_expires_at q \<le> now")
    case True
    let ?s = "io_save ops (q\<lparr>ir_status := ''expired''\<rparr>) s"
    have m: "mark_expired now q = q\<lparr>ir_status := ''expired''\<rparr>" using True by (simp add: mark_expired_def)
    have g: "io_get ops ?s r' i = (if r' = r \<and> i = ir_interrupt_id q
        then Some (mark_expired now q) else io_get ops s r' i)" for r' i
      using Cons.prems(1) q m by (simp add: get_save)
    have "io_get ops (snd (collect_pending ops now epoch qs ?s)) r' i =
        (if r' = r \<and> i \<in> ir_interrupt_id ` set qs
         then map_option (mark_expired now) (io_get ops ?s r' i) else io_get ops ?s r' i)"
      using Cons.prems rest by (intro Cons.IH) (auto simp: save_inv g)
    with True q rest g show ?thesis by auto
  next
    case False
    have s: "snd (collect_pending ops now epoch (q # qs) s) = snd (collect_pending ops now epoch qs s)"
      using False by (auto simp: Let_def split_beta)
    have m: "mark_expired now q = q" using False by (auto simp: mark_expired_def)
    have "io_get ops (snd (collect_pending ops now epoch qs s)) r' i =
        (if r' = r \<and> i \<in> ir_interrupt_id ` set qs
         then map_option (mark_expired now) (io_get ops s r' i) else io_get ops s r' i)"
      using Cons.prems by (intro Cons.IH) auto
    with s q m show ?thesis by auto
  qed
qed

text \<open>\<open>list_pending\<close> returns exactly the live requests, oldest first, and its only effect on the
  stored requests is to mark the overdue ones of this run expired.\<close>

lemma list_pending_set:
  assumes "inv s"
  shows "set (fst (list_pending ops now r epoch s)) =
    {q. (\<exists>i. io_get ops s r i = Some q) \<and> live now epoch q}"
  using list_set [OF assms, of r]
  by (auto simp: list_pending_def Let_def collect_pending_out split_beta)

lemma list_pending_sorted:
  "sorted (map (\<lambda>q. (ir_created_at q, ir_interrupt_id q)) (fst (list_pending ops now r epoch s)))"
  by (simp add: list_pending_def Let_def split_beta)

lemma list_pending_distinct:
  "inv s \<Longrightarrow> distinct (map ir_interrupt_id (fst (list_pending ops now r epoch s)))"
  using list_distinct [of s r]
  by (simp add: list_pending_def Let_def split_beta collect_pending_out distinct_map
      inj_on_def)

lemma list_pending_inv: "inv s \<Longrightarrow> inv (snd (list_pending ops now r epoch s))"
  by (simp add: list_pending_def Let_def split_beta collect_pending_inv list_inv)

lemma list_pending_epoch:
  "io_get_epoch ops (snd (list_pending ops now r epoch s)) = io_get_epoch ops s"
  by (simp add: list_pending_def Let_def split_beta collect_pending_epoch epoch_list)

lemma list_pending_get:
  assumes i: "inv s"
  shows "io_get ops (snd (list_pending ops now r epoch s)) r' i =
    (if r' = r then map_option (mark_expired now) (io_get ops s r' i) else io_get ops s r' i)"
proof -
  let ?qs = "fst (io_list ops r s)" and ?s = "snd (io_list ops r s)"
  have key: "ir_run_id q = r \<and> io_get ops ?s r (ir_interrupt_id q) = Some q" if "q \<in> set ?qs" for q
    using that list_set [OF i] get_key [OF i] by (force simp: list_get [OF i])
  have "io_get ops (snd (collect_pending ops now epoch ?qs ?s)) r' i =
     (if r' = r \<and> i \<in> ir_interrupt_id ` set ?qs
      then map_option (mark_expired now) (io_get ops ?s r' i) else io_get ops ?s r' i)"
    using key by (intro collect_pending_get list_inv list_distinct i) auto
  moreover have "io_get ops s r i = None" if "i \<notin> ir_interrupt_id ` set ?qs"
  proof (rule ccontr)
    assume "io_get ops s r i \<noteq> None"
    then obtain q where q: "io_get ops s r i = Some q" by auto
    with list_set [OF i, of r] have "q \<in> set ?qs" by auto
    with get_key [OF i q] that show False by auto
  qed
  ultimately show ?thesis by (auto simp: list_pending_def Let_def split_beta list_get [OF i])
qed

text \<open>\<open>resolve\<close>: which requests can be answered, and that an answer is final.\<close>

lemma resolve_Inr_iff:
  "(\<exists>x. fst (resolve_interrupt ops now r i v epoch s) = Inr x) \<longleftrightarrow>
     (\<exists>q. io_get ops s r i = Some q \<and> live now epoch q)"
  by (auto simp: resolve_interrupt_def py_simps live_def Let_def split: option.splits)

lemma resolve_live:
  assumes "io_get ops s r i = Some q" and "live now epoch q"
  shows "resolve_interrupt ops now r i v epoch s =
    (Inr \<lparr>ires_request = q\<lparr>ir_status := ''resolved''\<rparr>, ires_response = v, ires_resolved_at = now\<rparr>,
     io_save ops (q\<lparr>ir_status := ''resolved''\<rparr>) s)"
  using assms by (auto simp: resolve_interrupt_def py_simps live_def Let_def split: option.splits)

lemma resolve_once:
  assumes i: "inv s" and r: "resolve_interrupt ops now r i v epoch s = (Inr x, s')"
  shows "fst (resolve_interrupt ops now' r i v' epoch' s') =
    Inl (Exn ValueError (''Interrupt '' @ i @ '' is not pending''))"
proof -
  from r have "\<exists>x. fst (resolve_interrupt ops now r i v epoch s) = Inr x" by auto
  then obtain q where q: "io_get ops s r i = Some q" "live now epoch q"
    by (auto simp: resolve_Inr_iff)
  with r have s': "s' = io_save ops (q\<lparr>ir_status := ''resolved''\<rparr>) s"
    by (simp add: resolve_live)
  have "io_get ops s' r i = Some (q\<lparr>ir_status := ''resolved''\<rparr>)"
    using get_key [OF i q(1)] by (simp add: s' get_save [OF i])
  then show ?thesis by (simp add: resolve_interrupt_def py_simps)
qed

lemma resolve_expired:
  assumes i: "inv s" and q: "io_get ops s r i = Some q" "ir_status q = ''pending''" "ir_expires_at q \<le> now"
  shows "fst (resolve_interrupt ops now r i v epoch s) =
      Inl (Exn (InterruptExpiredError (ir_expires_at q)) (''Interrupt '' @ i @ '' has expired''))"
    and "io_get ops (snd (resolve_interrupt ops now r i v epoch s)) r i = Some (q\<lparr>ir_status := ''expired''\<rparr>)"
  using q get_key [OF i q(1)] by (simp_all add: resolve_interrupt_def py_simps get_save [OF i])

lemma resolve_inv: "inv s \<Longrightarrow> inv (snd (resolve_interrupt ops now r i v epoch s))"
  by (auto simp: resolve_interrupt_def py_simps Let_def save_inv split: option.splits)

text \<open>\<open>create\<close>: the bound on pending requests of an epoch, and the request it stores.\<close>

lemma create_at_limit:
  assumes "0 \<le> m" and "m \<le> int (length (fst (list_pending ops now r epoch s)))"
  shows "fst (create_interrupt ops d now u r st msg c ttl epoch (Some m) s) =
    Inl (Exn ValueError (''Run '' @ r @ '' reached max pending interrupts ('' @ int_str m @ '')''))"
  using assms by (simp add: create_interrupt_def py_simps split_beta)

lemma create_below_limit:
  assumes "0 \<le> m" and "int (length (fst (list_pending ops now r epoch s))) < m"
  shows "create_interrupt ops d now u r st msg c ttl epoch (Some m) s =
    (let e = (case epoch of None \<Rightarrow> io_get_epoch ops s r | Some e \<Rightarrow> e);
         q = \<lparr>ir_interrupt_id = u, ir_run_id = r, ir_step_name = st, ir_message = msg,
              ir_context = c, ir_epoch = e, ir_created_at = now,
              ir_expires_at = now + (case ttl of None \<Rightarrow> d | Some t \<Rightarrow> t), ir_status = ''pending''\<rparr>
     in (Inr q, io_save ops q (snd (list_pending ops now r epoch s))))"
  using assms
  by (simp add: create_interrupt_def py_simps split_beta Let_def list_pending_epoch split: option.splits)

lemma create_inv: "inv s \<Longrightarrow> inv (snd (create_interrupt ops d now u r st msg c ttl epoch m s))"
  by (auto simp: create_interrupt_def py_simps split_beta Let_def save_inv list_pending_inv
      split: option.splits sum.splits)

lemma create_then_resolve:
  assumes i: "inv s" and c: "create_interrupt ops d now u r st msg c ttl (Some e) m s = (Inr q, s')"
    and t: "now' < now + (case ttl of None \<Rightarrow> d | Some t \<Rightarrow> t)"
  shows "\<exists>x s''. resolve_interrupt ops now' r u v (Some e) s' = (Inr x, s'') \<and> ires_response x = v"
proof -
  let ?s1 = "snd (list_pending ops now r (Some e) s)"
  have inv1: "inv ?s1" using i by (rule list_pending_inv)
  have q: "live now' (Some e) q" "ir_run_id q = r" "ir_interrupt_id q = u"
    using c t
    by (auto simp: create_interrupt_def py_simps split_beta Let_def live_def
        split: option.splits if_splits)
  have s': "s' = io_save ops q s \<or> s' = io_save ops q ?s1"
    using c
    by (auto simp: create_interrupt_def py_simps split_beta Let_def
        split: option.splits if_splits)
  then have "io_get ops s' r u = Some q" using q i inv1 by (auto simp: get_save)
  with q show ?thesis by (simp add: resolve_live)
qed

lemma bump_epoch_strict:
  "io_get_epoch ops (snd (bump_epoch ops r s)) r' =
     (if r' = r then io_get_epoch ops s r + 1 else io_get_epoch ops s r')"
  by (simp add: bump_epoch_def Let_def epoch_set)

lemma bump_epoch_inv: "inv s \<Longrightarrow> inv (snd (bump_epoch ops r s))"
  by (simp add: bump_epoch_def Let_def epoch_inv)

lemma clear_requests_inv: "inv s \<Longrightarrow> inv (snd (clear_requests ops now r qs s))"
  by (induction qs arbitrary: s) (auto simp: Let_def split_beta delete_inv)

lemma clear_requests_get:
  "\<lbrakk>inv s; distinct (map ir_interrupt_id qs)\<rbrakk> \<Longrightarrow>
   io_get ops (snd (clear_requests ops now r qs s)) r' i =
     (if r' = r \<and> (\<exists>q \<in> set qs. ir_interrupt_id q = i \<and> \<not> live now None q) then None
      else io_get ops s r' i)"
proof (induction qs arbitrary: s)
  case Nil
  then show ?case by simp
next
  case (Cons q qs)
  have ne: "ir_interrupt_id q' \<noteq> ir_interrupt_id q" if "q' \<in> set qs" for q'
    using Cons.prems(2) that by (auto simp: image_iff)
  show ?case
  proof (cases "live now None q")
    case True
    then have "\<not> (ir_status q \<noteq> ''pending'' \<or> ir_expires_at q \<le> now)" by (simp add: live_def)
    then have "snd (clear_requests ops now r (q # qs) s) = snd (clear_requests ops now r qs s)"
      by simp
    with True Cons.IH [of s] Cons.prems ne show ?thesis by auto
  next
    case False
    let ?s = "io_delete ops r (ir_interrupt_id q) s"
    have "ir_status q \<noteq> ''pending'' \<or> ir_expires_at q \<le> now" using False by (auto simp: live_def)
    then have "snd (clear_requests ops now r (q # qs) s) = snd (clear_requests ops now r qs ?s)"
      by (auto simp: Let_def split_beta)
    with False Cons.IH [of ?s] Cons.prems show ?thesis
      by (auto simp: delete_inv get_delete)
  qed
qed

lemma clear_expired_get:
  assumes i: "inv s"
  shows "io_get ops (snd (clear_expired ops now r s)) r' i =
    (case io_get ops s r' i of
       None \<Rightarrow> None
     | Some q \<Rightarrow> if r' = r \<and> \<not> live now None q then None else Some q)"
proof -
  let ?qs = "fst (io_list ops r s)"
  have member: "(\<exists>q \<in> set ?qs. ir_interrupt_id q = i \<and> \<not> live now None q) \<longleftrightarrow>
      (\<exists>q. io_get ops s r i = Some q \<and> \<not> live now None q)"
    using list_set [OF i, of r] get_key [OF i] by auto
  show ?thesis
    using member clear_requests_get [OF list_inv [OF i, of r] list_distinct [OF i, of r], of now r r' i]
    by (auto simp: clear_expired_def Let_def split_beta list_get [OF i] split: option.splits)
qed

end

subsection \<open>The in-memory store keeps the contract\<close>

definition mem_interrupts_inv :: "mem_interrupts \<Rightarrow> bool" where
  "mem_interrupts_inv s \<longleftrightarrow>
     (\<forall>r. distinct (map fst (dget_or (mi_requests s) r [])) \<and>
        (\<forall>(i, q) \<in> set (dget_or (mi_requests s) r []). ir_interrupt_id q = i \<and> ir_run_id q = r))"

lemma mem_interrupts_inv_empty: "mem_interrupts_inv empty_interrupts"
  by (simp add: mem_interrupts_inv_def empty_interrupts_def)

lemma set_dset_subset: "set (dset k v d) \<subseteq> insert (k, v) (set d)"
  by (induction d) auto

lemma set_ddel_subset: "set (ddel k d) \<subseteq> set d"
  by (auto simp: AList.delete_eq)

lemma mem_save_request_requests:
  "dget_or (mi_requests (mem_save_request q s)) r [] =
     (if r = ir_run_id q then dset (ir_interrupt_id q) q (dget_or (mi_requests s) r [])
      else dget_or (mi_requests s) r [])"
  by (simp add: mem_save_request_def Let_def)

lemma mem_delete_request_requests:
  "dget_or (mi_requests (mem_delete_request r i s)) r' [] =
     (if r' = r then ddel i (dget_or (mi_requests s) r' []) else dget_or (mi_requests s) r' [])"
proof (cases "dget (mi_requests s) r")
  case None
  then show ?thesis by (simp add: mem_delete_request_def dget_or_def)
next
  case (Some reqs)
  then show ?thesis
    by (cases "ddel i reqs = []") (simp_all add: mem_delete_request_def Let_def dget_or_Some)
qed

lemma mem_interrupts_invI:
  assumes "\<And>r. distinct (map fst (dget_or (mi_requests s) r []))"
    and "\<And>r i q. (i, q) \<in> set (dget_or (mi_requests s) r []) \<Longrightarrow> ir_interrupt_id q = i \<and> ir_run_id q = r"
  shows "mem_interrupts_inv s"
  using assms by (auto simp: mem_interrupts_inv_def)

lemma mem_interrupts_invD:
  assumes "mem_interrupts_inv s"
  shows "distinct (map fst (dget_or (mi_requests s) r []))"
    and "(i, q) \<in> set (dget_or (mi_requests s) r []) \<Longrightarrow> ir_interrupt_id q = i \<and> ir_run_id q = r"
  using assms by (auto simp: mem_interrupts_inv_def)

lemma mem_save_inv:
  assumes "mem_interrupts_inv s"
  shows "mem_interrupts_inv (mem_save_request q s)"
proof (rule mem_interrupts_invI)
  show "distinct (map fst (dget_or (mi_requests (mem_save_request q s)) r []))" for r
    using mem_interrupts_invD(1) [OF assms] by (simp add: mem_save_request_requests)
next
  fix r i q'
  assume "(i, q') \<in> set (dget_or (mi_requests (mem_save_request q s)) r [])"
  then have "(i, q') \<in> set (dget_or (mi_requests s) r []) \<or>
      (r = ir_run_id q \<and> (i, q') = (ir_interrupt_id q, q))"
    using set_dset_subset [of "ir_interrupt_id q" q "dget_or (mi_requests s) r []"]
    by (auto simp: mem_save_request_requests split: if_splits)
  then show "ir_interrupt_id q' = i \<and> ir_run_id q' = r"
    using mem_interrupts_invD(2) [OF assms] by auto
qed

lemma mem_delete_inv:
  assumes "mem_interrupts_inv s"
  shows "mem_interrupts_inv (mem_delete_request r i s)"
proof (rule mem_interrupts_invI)
  show "distinct (map fst (dget_or (mi_requests (mem_delete_request r i s)) r' []))" for r'
    using mem_interrupts_invD(1) [OF assms] by (simp add: mem_delete_request_requests)
next
  fix r' i' q
  assume "(i', q) \<in> set (dget_or (mi_requests (mem_delete_request r i s)) r' [])"
  then have "(i', q) \<in> set (dget_or (mi_requests s) r' [])"
    using set_ddel_subset [of i "dget_or (mi_requests s) r' []"]
    by (auto simp: mem_delete_request_requests split: if_splits)
  then show "ir_interrupt_id q = i' \<and> ir_run_id q = r'"
    using mem_interrupts_invD(2) [OF assms] by auto
qed

lemma mem_list_set:
  assumes "mem_interrupts_inv s"
  shows "set (fst (mem_list_requests r s)) = {q. \<exists>i. mem_get_request s r i = Some q}"
proof -
  have "distinct (map fst (dget_or (mi_requests s) r []))"
    using assms by (simp add: mem_interrupts_inv_def)
  then show ?thesis
    by (force simp: mem_list_requests_def dvalues_def mem_get_request_def)
qed

lemma mem_list_distinct:
  assumes "mem_interrupts_inv s"
  shows "distinct (map ir_interrupt_id (fst (mem_list_requests r s)))"
proof -
  let ?d = "dget_or (mi_requests s) r []"
  have "distinct (map fst ?d)" and k: "\<forall>(i, q) \<in> set ?d. ir_interrupt_id q = i"
    using assms by (auto simp: mem_interrupts_inv_def)
  moreover have "map ir_interrupt_id (map snd ?d) = map fst ?d" using k by auto
  ultimately show ?thesis unfolding mem_list_requests_def dvalues_def by (metis fst_conv)
qed

lemma mem_get_save:
  "mem_get_request (mem_save_request q s) r i =
     (if r = ir_run_id q \<and> i = ir_interrupt_id q then Some q else mem_get_request s r i)"
  by (simp add: mem_get_request_def mem_save_request_requests)

lemma mem_get_delete:
  "mem_get_request (mem_delete_request r i s) r' i' =
     (if r' = r \<and> i' = i then None else mem_get_request s r' i')"
  by (simp add: mem_get_request_def mem_delete_request_requests)

lemma mem_epochs_frame [simp]:
  "mem_get_epoch (mem_save_request q s) = mem_get_epoch s"
  "mem_get_epoch (mem_delete_request r i s) = mem_get_epoch s"
  "mem_get_epoch (snd (mem_list_requests r s)) = mem_get_epoch s"
  by (simp_all add: fun_eq_iff mem_get_epoch_def mem_save_request_def mem_delete_request_def
      mem_list_requests_def Let_def split: option.splits)

lemma mem_set_epoch_frame [simp]:
  "mem_get_request (mem_set_epoch r e s) = mem_get_request s"
  "mem_get_epoch (mem_set_epoch r e s) r' = (if r' = r then e else mem_get_epoch s r')"
  "mem_interrupts_inv (mem_set_epoch r e s) = mem_interrupts_inv s"
  by (simp_all add: fun_eq_iff mem_get_epoch_def mem_set_epoch_def mem_get_request_def
      mem_interrupts_inv_def)

lemma mem_list_state [simp]: "snd (mem_list_requests r s) = s"
  by (simp add: mem_list_requests_def)

lemma mem_get_key:
  assumes "mem_interrupts_inv s" "mem_get_request s r i = Some q"
  shows "ir_run_id q = r \<and> ir_interrupt_id q = i"
proof -
  have "(i, q) \<in> set (dget_or (mi_requests s) r [])"
    using assms(2) by (simp add: mem_get_request_def map_of_SomeD)
  with assms(1) show ?thesis by (auto simp: mem_interrupts_inv_def)
qed

lemma mem_interrupt_ops_simps [simp]:
  "io_get_epoch mem_interrupt_ops = mem_get_epoch"
  "io_set_epoch mem_interrupt_ops = mem_set_epoch"
  "io_save mem_interrupt_ops = mem_save_request"
  "io_get mem_interrupt_ops = mem_get_request"
  "io_list mem_interrupt_ops = mem_list_requests"
  "io_delete mem_interrupt_ops = mem_delete_request"
  by (simp_all add: mem_interrupt_ops_def)

interpretation memi: interrupt_store mem_interrupt_ops mem_interrupts_inv
  by unfold_locales
    (simp_all add: mem_get_key mem_save_inv mem_get_save mem_delete_inv mem_get_delete mem_list_set
      mem_list_distinct)

end
