(* ===== verification/Secrets.thy ===== *)
theory Secrets
  imports Models
begin

section \<open>Secrets and redaction (\<open>governai/runtime/secrets.py\<close>)\<close>

text \<open>
  \<open>SecretRegistry\<close> collects resolved secrets; \<open>redact\<close> replaces each of them in a text with
  \<open>str.replace\<close>. The registry is a set in the source, whose iteration order is not fixed: here it
  is the list of its elements in the order they are visited, so a lemma for every list holds for
  every order.
\<close>

subsection \<open>\<open>str.replace\<close>\<close>

text \<open>Left to right, without overlaps; the registry never holds the empty text.\<close>

function py_replace :: "string \<Rightarrow> string \<Rightarrow> string \<Rightarrow> string" where
  "py_replace old new [] = []"
| "py_replace old new (c # s) =
     (if old \<noteq> [] \<and> prefix old (c # s)
      then new @ py_replace old new (drop (length old) (c # s))
      else c # py_replace old new s)"
  by pat_completeness auto
termination
  by (relation "measure (\<lambda>(old, new, s). length s)") (auto simp: length_greater_0_conv)

subsection \<open>The registry\<close>

type_synonym secret_registry = "string list"

definition registry_add :: "secret_registry \<Rightarrow> string \<Rightarrow> secret_registry" where
  "registry_add reg value = (if value = [] \<or> value \<in> set reg then reg else reg @ [value])"

definition REDACTED :: string where
  "REDACTED = ''[REDACTED]''"

definition redact :: "secret_registry \<Rightarrow> string \<Rightarrow> string" where
  "redact reg txt = fold (\<lambda>secret t. py_replace secret REDACTED t) reg txt"

text \<open>The default provider resolves nothing.\<close>

definition null_resolve :: "string \<Rightarrow> exn + string" where
  "null_resolve key = Inl (Exn KeyError
     (''No SecretsProvider configured. Cannot resolve secret '' @ quoted key @
      ''. Inject a SecretsProvider into LocalRuntime to enable secret resolution.''))"

text \<open>\<open>RedactingAuditEmitter.emit\<close>: the event's JSON text is redacted and read back; \<open>dump\<close> and
  \<open>parse\<close> are Pydantic's \<open>model_dump_json\<close> and \<open>model_validate_json\<close>.\<close>

definition redact_event ::
  "(audit_event \<Rightarrow> string) \<Rightarrow> (string \<Rightarrow> string + audit_event) \<Rightarrow> secret_registry \<Rightarrow>
   audit_event \<Rightarrow> exn + audit_event" where
  "redact_event dump parse reg e =
     (case parse (redact reg (dump e)) of
        Inl msg \<Rightarrow> Inl (Exn ValidationError msg)
      | Inr e' \<Rightarrow> Inr e')"

subsection \<open>What redaction removes\<close>

lemma registry_add_set:
  "set (registry_add reg v) = (if v = [] then set reg else insert v (set reg))"
  by (auto simp: registry_add_def)

lemma registry_add_nonempty: "[] \<notin> set reg \<Longrightarrow> [] \<notin> set (registry_add reg v)"
  by (auto simp: registry_add_def)

lemma prefix_py_replace:
  "\<lbrakk>set u \<inter> set new = {}; new \<noteq> []; prefix u (py_replace old new t)\<rbrakk> \<Longrightarrow> prefix u t"
proof (induction old new t arbitrary: u rule: py_replace.induct)
  case (1 old new)
  then show ?case by simp
next
  case (2 old new c s)
  show ?case
  proof (cases u)
    case Nil
    then show ?thesis by simp
  next
    case (Cons d u')
    have not_new: "\<not> prefix u (new @ r)" for r
      using "2.prems"(1,2) Cons by (cases new) auto
    with "2.prems"(3) have no: "\<not> (old \<noteq> [] \<and> prefix old (c # s))" by auto
    with "2.prems"(3) have "prefix u (c # py_replace old new s)" by auto
    with Cons have d: "d = c" and p: "prefix u' (py_replace old new s)" by auto
    have "prefix u' s" using "2.IH"(2) [OF no] "2.prems"(1,2) Cons p by auto
    with d Cons show ?thesis by simp
  qed
qed

lemma sublist_after_disjoint:
  "\<lbrakk>u \<noteq> []; set u \<inter> set new = {}; sublist u (new @ r)\<rbrakk> \<Longrightarrow> sublist u r"
proof (induction new)
  case Nil
  then show ?case by simp
next
  case (Cons c new)
  then have "\<not> prefix u (c # new @ r)" by (cases u) auto
  with Cons show ?case by (auto simp: sublist_Cons_right)
qed

lemma sublist_drop_trans: "sublist u (drop n t) \<Longrightarrow> sublist u t"
  by (metis sublist_order.order.trans sublist_drop)

lemma sublist_py_replace:
  "\<lbrakk>u \<noteq> []; set u \<inter> set new = {}; new \<noteq> []; sublist u (py_replace old new t)\<rbrakk> \<Longrightarrow> sublist u t"
proof (induction old new t rule: py_replace.induct)
  case (1 old new)
  then show ?case by simp
next
  case (2 old new c s)
  show ?case
  proof (cases "old \<noteq> [] \<and> prefix old (c # s)")
    case True
    with "2.prems" have "sublist u (py_replace old new (drop (length old) (c # s)))"
      using sublist_after_disjoint by auto
    with "2.IH"(1) True "2.prems" have "sublist u (drop (length old) (c # s))" by simp
    then show ?thesis by (rule sublist_drop_trans)
  next
    case False
    with "2.prems" have "sublist u (c # py_replace old new s)" by auto
    then consider "prefix u (c # py_replace old new s)" | "sublist u (py_replace old new s)"
      by (auto simp: sublist_Cons_right)
    then show ?thesis
    proof cases
      case 1
      with "2.prems" False have "prefix u (py_replace old new (c # s))" by auto
      with "2.prems" have "prefix u (c # s)" by (blast intro: prefix_py_replace)
      then show ?thesis by (rule prefix_imp_sublist)
    next
      case 2
      with "2.IH"(2) False "2.prems" have "sublist u s" by simp
      then show ?thesis by (simp add: sublist_Cons_right)
    qed
  qed
qed

lemma py_replace_removes:
  "\<lbrakk>old \<noteq> []; set old \<inter> set new = {}; new \<noteq> []\<rbrakk> \<Longrightarrow> \<not> sublist old (py_replace old new t)"
proof (induction old new t rule: py_replace.induct)
  case (1 old new)
  then show ?case by simp
next
  case (2 old new c s)
  show ?case
  proof (cases "prefix old (c # s)")
    case True
    with 2 show ?thesis using sublist_after_disjoint by auto
  next
    case False
    have "\<not> prefix old (c # py_replace old new s)"
    proof
      assume "prefix old (c # py_replace old new s)"
      with False have "prefix old (py_replace old new (c # s))" by simp
      with "2.prems" False show False by (blast dest: prefix_py_replace)
    qed
    with 2 False show ?thesis by (auto simp: sublist_Cons_right)
  qed
qed

lemma redact_keeps_absent:
  "\<lbrakk>u \<noteq> []; set u \<inter> set REDACTED = {}; \<not> sublist u t\<rbrakk> \<Longrightarrow> \<not> sublist u (redact reg t)"
proof (induction reg arbitrary: t)
  case Nil
  then show ?case by (simp add: redact_def)
next
  case (Cons s reg)
  have "REDACTED \<noteq> []" by (simp add: REDACTED_def)
  with Cons.prems have "\<not> sublist u (py_replace s REDACTED t)"
    by (blast dest: sublist_py_replace)
  with Cons show ?case by (simp add: redact_def)
qed

lemma redact_removes:
  "\<lbrakk>u \<in> set reg; u \<noteq> []; set u \<inter> set REDACTED = {}\<rbrakk> \<Longrightarrow> \<not> sublist u (redact reg t)"
proof (induction reg arbitrary: t)
  case Nil
  then show ?case by simp
next
  case (Cons s reg)
  have ne: "REDACTED \<noteq> []" by (simp add: REDACTED_def)
  have step: "redact (s # reg) t = redact reg (py_replace s REDACTED t)"
    by (simp add: redact_def)
  show ?case
  proof (cases "u = s")
    case True
    with Cons.prems ne have "\<not> sublist u (py_replace s REDACTED t)"
      by (simp add: py_replace_removes)
    with Cons.prems show ?thesis by (simp add: step redact_keeps_absent)
  next
    case False
    with Cons show ?thesis by (simp add: step)
  qed
qed

end
