(* ===== verification/Policies.thy ===== *)
theory Policies
  imports Models
begin

section \<open>Policies (\<open>governai/policies\<close>)\<close>

text \<open>
  A policy is a function of its context that returns a decision or raises. One whose result is
  awaitable may suspend; \<open>pol_suspended\<close> is the time it is suspended (0 for a plain function), the
  only time \<open>asyncio.wait_for\<close> can interrupt. Timeouts are whole seconds.
\<close>

datatype policy_outcome = Decides policy_decision | Raises exn

record policy =
  pol_run :: "policy_context \<Rightarrow> policy_outcome"
  pol_suspended :: "policy_context \<Rightarrow> nat"
  pol_timeout :: "int option"

definition run_policy :: "policy \<Rightarrow> policy_context \<Rightarrow> exn + policy_decision" where
  "run_policy p ctx = (case pol_run p ctx of Decides d \<Rightarrow> Inr d | Raises e \<Rightarrow> Inl e)"

text \<open>\<open>asyncio.wait_for\<close>: with a limit of zero or less the coroutine is cancelled before it runs.\<close>

definition wait_for :: "int \<Rightarrow> nat \<Rightarrow> exn + 'a \<Rightarrow> exn + 'a" where
  "wait_for limit suspended r =
     (if limit \<le> 0 \<or> limit < int suspended then Inl (Exn TimeoutError []) else r)"

definition deny :: "string \<Rightarrow> policy_decision" where
  "deny why = \<lparr>pd_allow = False, pd_reason = Some why, pd_requires_approval = False\<rparr>"

definition timeout_text :: "int option \<Rightarrow> string" where
  "timeout_text t = (case t of None \<Rightarrow> ''None'' | Some s \<Rightarrow> int_str s)"

definition run_policy_isolated :: "policy \<Rightarrow> policy_context \<Rightarrow> string \<Rightarrow> policy_decision" where
  "run_policy_isolated p ctx name =
     (case (case pol_timeout p of
              None \<Rightarrow> run_policy p ctx
            | Some t \<Rightarrow> wait_for t (pol_suspended p ctx) (run_policy p ctx)) of
        Inr d \<Rightarrow> d
      | Inl e \<Rightarrow>
          if eclass e = TimeoutError
          then deny (''Policy '' @ quoted name @ '' timed out after '' @ timeout_text (pol_timeout p) @ ''s'')
          else deny (''Policy '' @ quoted name @ '' raised '' @ exn_name (eclass e) @ '': '' @ exn_str e))"

subsection \<open>PolicyEngine\<close>

record policy_engine =
  pe_global :: "(string \<times> policy) list"
  pe_workflow :: "(string \<times> policy) list dict"

definition empty_policy_engine :: policy_engine where
  "empty_policy_engine = \<lparr>pe_global = [], pe_workflow = []\<rparr>"

definition register_policy ::
  "string \<Rightarrow> policy \<Rightarrow> string option \<Rightarrow> policy_engine \<Rightarrow> policy_engine" where
  "register_policy name p workflow_name e =
     (case workflow_name of
        None \<Rightarrow> e\<lparr>pe_global := pe_global e @ [(name, p)]\<rparr>
      | Some w \<Rightarrow>
          e\<lparr>pe_workflow := dset w (dget_or (pe_workflow e) w [] @ [(name, p)]) (pe_workflow e)\<rparr>)"

definition policies_for :: "policy_engine \<Rightarrow> string \<Rightarrow> (string \<times> policy) list" where
  "policies_for e workflow_name = pe_global e @ dget_or (pe_workflow e) workflow_name []"

definition denied :: "string \<Rightarrow> policy_decision \<Rightarrow> exn" where
  "denied name d = Exn PolicyDeniedError (or_else (pd_reason d) (''Policy denied: '' @ name))"

fun evaluate ::
  "(string \<times> policy) list \<Rightarrow> policy_context \<Rightarrow> exn + (string \<times> policy_decision) list" where
  "evaluate [] ctx = Inr []"
| "evaluate ((name, p) # ps) ctx =
     (case run_policy p ctx of
        Inl e \<Rightarrow> Inl e
      | Inr d \<Rightarrow>
          if \<not> pd_allow d then Inl (denied name d)
          else map_sum id (\<lambda>rs. (name, d) # rs) (evaluate ps ctx))"

lemma policies_for_register:
  "policies_for (register_policy n p target e) w =
     (case target of
        None \<Rightarrow> pe_global e @ [(n, p)] @ dget_or (pe_workflow e) w []
      | Some t \<Rightarrow> if t = w then policies_for e w @ [(n, p)] else policies_for e w)"
  by (simp add: policies_for_def register_policy_def split: option.splits)

lemma evaluate_Inr:
  "evaluate ps ctx = Inr rs \<longleftrightarrow>
     map fst rs = map fst ps \<and>
     list_all2 (\<lambda>(_, p) (_, d). run_policy p ctx = Inr d \<and> pd_allow d) ps rs"
proof (induction ps arbitrary: rs)
  case Nil
  then show ?case by auto
next
  case (Cons a ps)
  obtain n p where a: "a = (n, p)" by (cases a)
  show ?case
  proof (cases "run_policy p ctx")
    case (Inl e)
    then show ?thesis by (auto simp: a list_all2_Cons1)
  next
    case (Inr d)
    show ?thesis
    proof (cases rs)
      case Nil
      then show ?thesis using Inr by (cases "evaluate ps ctx") (auto simp: a)
    next
      case (Cons r rs')
      with Inr Cons.IH [of rs'] show ?thesis
        by (cases "evaluate ps ctx"; cases r) (auto simp: a map_sum_def)
    qed
  qed
qed

text \<open>Isolation: whatever a policy does, the result is a decision, and an allowing one only if the
  policy itself returned it in time.\<close>

lemma isolated_allows_iff:
  "pd_allow (run_policy_isolated p ctx name) \<longleftrightarrow>
     (\<exists>d. pol_run p ctx = Decides d \<and> pd_allow d \<and>
        (\<forall>t. pol_timeout p = Some t \<longrightarrow> 0 < t \<and> int (pol_suspended p ctx) \<le> t))"
  by (auto simp: run_policy_isolated_def run_policy_def wait_for_def deny_def
      split: option.splits sum.splits policy_outcome.splits if_splits)

subsection \<open>Capability grants\<close>

datatype grant_scope = GlobalScope | WorkflowScope | StepScope

record capability_grant =
  cg_capability :: string
  cg_scope :: grant_scope
  cg_target :: "string option"

definition grant_applies :: "policy_context \<Rightarrow> capability_grant \<Rightarrow> bool" where
  "grant_applies ctx g =
     (case cg_scope g of
        GlobalScope \<Rightarrow> True
      | WorkflowScope \<Rightarrow> cg_target g = Some (pc_workflow_name ctx)
      | StepScope \<Rightarrow> cg_target g = Some (pc_step_name ctx))"

definition granted_capabilities :: "capability_grant list \<Rightarrow> policy_context \<Rightarrow> string list" where
  "granted_capabilities grants ctx = map cg_capability (filter (grant_applies ctx) grants)"

text \<open>A Python set shown with \<open>sorted\<close>.\<close>

definition sorted_set :: "string list \<Rightarrow> string list" where
  "sorted_set xs = sort (remdups xs)"

definition capability_decision ::
  "capability_grant list \<Rightarrow> policy_context \<Rightarrow> policy_decision" where
  "capability_decision grants ctx =
     (if pc_capabilities ctx = []
      then \<lparr>pd_allow = True, pd_reason = None, pd_requires_approval = False\<rparr>
      else
        (let granted = granted_capabilities grants ctx;
             required = pc_capabilities ctx;
             missing = filter (\<lambda>c. c \<notin> set granted) required
         in if missing \<noteq> []
            then deny (''Missing capability: '' @ join '', '' (sorted_set missing) @
                       ''. Required: ['' @ join '', '' (sorted_set required) @
                       '']. Granted: ['' @ join '', '' (sorted_set granted) @ ''].'')
            else \<lparr>pd_allow = True, pd_reason = None, pd_requires_approval = False\<rparr>))"

definition make_capability_policy :: "capability_grant list \<Rightarrow> policy" where
  "make_capability_policy grants =
     \<lparr>pol_run = (\<lambda>ctx. Decides (capability_decision grants ctx)), pol_suspended = (\<lambda>_. 0),
      pol_timeout = None\<rparr>"

lemma capability_decision_allow:
  "pd_allow (capability_decision grants ctx) \<longleftrightarrow>
     (\<forall>c \<in> set (pc_capabilities ctx). \<exists>g \<in> set grants. cg_capability g = c \<and> grant_applies ctx g)"
proof -
  have granted: "c \<in> set (granted_capabilities grants ctx) \<longleftrightarrow>
      (\<exists>g \<in> set grants. cg_capability g = c \<and> grant_applies ctx g)" for c
    by (auto simp: granted_capabilities_def)
  show ?thesis
    unfolding granted [symmetric]
    by (auto simp: capability_decision_def Let_def deny_def filter_empty_conv)
qed

lemma capability_policy_isolated:
  "run_policy_isolated (make_capability_policy grants) ctx name = capability_decision grants ctx"
  by (simp add: run_policy_isolated_def make_capability_policy_def run_policy_def)

lemma capability_monotone:
  "pd_allow (capability_decision grants ctx) \<Longrightarrow> set grants \<subseteq> set grants' \<Longrightarrow>
   pd_allow (capability_decision grants' ctx)"
  unfolding capability_decision_allow by blast

end
