(* ===== verification/Reducers.thy ===== *)
theory Reducers
  imports Models
begin

section \<open>Channel reducers (\<open>governai/runtime/reducers.py\<close>)\<close>

text \<open>
  A reducer combines the current value of a channel with an update; an absent channel is \<open>None\<close>.
  \<open>bool\<close> is a subclass of \<open>int\<close>, so \<open>True\<close> is the index 1. \<open>int(v)\<close> of a text is the parameter
  \<open>parse_int\<close> of \<open>prune\<close>.
\<close>

type_synonym reducer = "json \<Rightarrow> json \<Rightarrow> exn + json"

definition replace_reducer :: reducer where
  "replace_reducer _ update = Inr update"

definition merge_reducer :: reducer where
  "merge_reducer current update =
     (let base = (case current of JObj d \<Rightarrow> d | _ \<Rightarrow> [])
      in case update of
           JObj u \<Rightarrow> Inr (JObj (dmerge base u))
         | _ \<Rightarrow> Inl (Exn TypeError ''merge reducer requires dict update payload''))"

definition append_reducer :: reducer where
  "append_reducer current update =
     (case (case current of
              JNull \<Rightarrow> Inr []
            | JList xs \<Rightarrow> Inr xs
            | _ \<Rightarrow> Inl (Exn TypeError ''append reducer requires list current value'')) of
        Inl e \<Rightarrow> Inl e
      | Inr base \<Rightarrow> Inr (JList (case update of JList ys \<Rightarrow> base @ ys | v \<Rightarrow> base @ [v])))"

definition clear_reducer :: reducer where
  "clear_reducer _ _ = Inr JNull"

definition drop_indexes :: "int set \<Rightarrow> 'a list \<Rightarrow> 'a list" where
  "drop_indexes idxs xs = map snd (filter (\<lambda>(i, _). int i \<notin> idxs) (enumerate 0 xs))"

definition to_int :: "(string \<Rightarrow> exn + int) \<Rightarrow> json \<Rightarrow> exn + int" where
  "to_int parse_int v =
     (case v of
        JInt i \<Rightarrow> Inr i
      | JBool b \<Rightarrow> Inr (if b then 1 else 0)
      | JStr s \<Rightarrow> parse_int s
      | _ \<Rightarrow> Inl (Exn TypeError
               (''int() argument must be a string, a bytes-like object or a real number, not '' @
                quoted (type_name v))))"

fun to_ints :: "(string \<Rightarrow> exn + int) \<Rightarrow> json list \<Rightarrow> exn + int list" where
  "to_ints parse_int [] = Inr []"
| "to_ints parse_int (v # vs) =
     (case to_int parse_int v of
        Inl e \<Rightarrow> Inl e
      | Inr i \<Rightarrow> map_sum id (\<lambda>is. i # is) (to_ints parse_int vs))"

definition prune_reducer :: "(string \<Rightarrow> exn + int) \<Rightarrow> reducer" where
  "prune_reducer parse_int current update =
     (case current of
        JObj d \<Rightarrow>
          (case update of
             JStr k \<Rightarrow> Inr (JObj (ddel k d))
           | JList ks \<Rightarrow> Inr (JObj (fold (\<lambda>k. ddel (py_str k)) ks d))
           | _ \<Rightarrow> Inl (Exn TypeError ''prune reducer on dict requires string or list[str] update''))
      | JList xs \<Rightarrow>
          (case update of
             JInt i \<Rightarrow> Inr (JList (drop_indexes {i} xs))
           | JBool b \<Rightarrow> Inr (JList (drop_indexes {if b then 1 else 0} xs))
           | JList vs \<Rightarrow> map_sum id (\<lambda>is. JList (drop_indexes (set is) xs)) (to_ints parse_int vs)
           | _ \<Rightarrow> Inl (Exn TypeError ''prune reducer on list requires int or list[int] update''))
      | _ \<Rightarrow> Inr current)"

subsection \<open>ReducerRegistry\<close>

type_synonym reducer_registry = "reducer dict"

definition default_reducers :: "(string \<Rightarrow> exn + int) \<Rightarrow> reducer_registry" where
  "default_reducers parse_int =
     [(''replace'', replace_reducer), (''merge'', merge_reducer), (''append'', append_reducer),
      (''clear'', clear_reducer), (''prune'', prune_reducer parse_int)]"

definition register_reducer :: "string \<Rightarrow> reducer \<Rightarrow> (reducer_registry, unit) py" where
  "register_reducer name r =
     (if name = [] then raise (Exn ValueError ''Reducer name must be non-empty'')
      else modify (dset name r))"

definition resolve_reducer :: "reducer_registry \<Rightarrow> string \<Rightarrow> exn + reducer" where
  "resolve_reducer g name =
     (case dget g name of
        None \<Rightarrow> Inl (Exn KeyError (''Unknown reducer: '' @ name))
      | Some r \<Rightarrow> Inr r)"

definition reducer_names :: "reducer_registry \<Rightarrow> string list" where
  "reducer_names g = sort (dkeys g)"

subsection \<open>What the reducers compute\<close>

lemma merge_reducer_get:
  assumes "merge_reducer current (JObj u) = Inr v" "distinct (map fst u)"
  shows "\<exists>d. v = JObj d \<and>
    (\<forall>k. dget d k = (case dget u k of
        Some x \<Rightarrow> Some x
      | None \<Rightarrow> (case current of JObj c \<Rightarrow> dget c k | _ \<Rightarrow> None)))"
  using assms
  by (auto simp: merge_reducer_def Let_def map_of_dmerge map_add_def split: json.splits option.splits)

lemma append_reducer_Inr:
  "append_reducer current update = Inr v \<longleftrightarrow>
     (\<exists>base. (current = JNull \<and> base = [] \<or> current = JList base) \<and>
        v = JList (base @ (case update of JList ys \<Rightarrow> ys | u \<Rightarrow> [u])))"
  by (cases current; cases update) (auto simp: append_reducer_def)

lemma drop_indexes_Nil [simp]: "drop_indexes I [] = []"
  by (simp add: drop_indexes_def)

lemma nth_filter_enumerate:
  "map snd (filter (\<lambda>(i, _). int i \<notin> I) (enumerate n xs)) =
     nths xs {i. int (n + i) \<notin> I}"
proof (induction xs arbitrary: n)
  case Nil
  then show ?case by simp
next
  case (Cons x xs)
  have "{j. Suc j \<in> {i. int (n + i) \<notin> I}} = {i. int (Suc n + i) \<notin> I}"
    by (simp add: algebra_simps)
  with Cons [of "Suc n"] show ?case by (simp add: nths_Cons)
qed

text \<open>Pruning a list keeps exactly the elements at the other positions, in order.\<close>

lemma drop_indexes_nths: "drop_indexes I xs = nths xs {i. int i \<notin> I}"
  using nth_filter_enumerate [of I 0 xs] by (simp add: drop_indexes_def)

lemma fold_ddel_get: "dget (fold (\<lambda>k. ddel (f k)) ks d) k = (if k \<in> f ` set ks then None else dget d k)"
  by (induction ks arbitrary: d) auto

lemma prune_dict_get:
  "prune_reducer p (JObj d) (JList ks) = Inr v \<Longrightarrow>
   \<exists>d'. v = JObj d' \<and> (\<forall>k. dget d' k = (if k \<in> py_str ` set ks then None else dget d k))"
  by (auto simp: prune_reducer_def fold_ddel_get)

end
