(* ===== verification/Memory.thy ===== *)
theory Memory
  imports Models
begin

section \<open>Scoped memory (\<open>governai/memory\<close>)\<close>

text \<open>
  \<open>DictMemoryConnector\<close> keeps \<open>_store[scope.value][target][key] = MemoryEntry\<close>;
  \<open>AuditingMemoryConnector\<close> wraps a connector and emits one event per operation;
  \<open>ScopedMemoryConnector\<close> fills the target in from the execution context. The wrappers take any
  connector, given as a record of its four operations; the locale \<open>memory_connector\<close> states what
  they rely on and is interpreted on the dictionary connector.
\<close>

subsection \<open>Scopes and entries\<close>

datatype memory_scope = RUN | THREAD | SHARED

fun scope_value :: "memory_scope \<Rightarrow> string" where
  "scope_value RUN = ''run''"
| "scope_value THREAD = ''thread''"
| "scope_value SHARED = ''shared''"

lemma scope_value_inj [simp]: "scope_value a = scope_value b \<longleftrightarrow> a = b"
  by (cases a; cases b) simp_all

record memory_entry =
  me_key :: string
  me_value :: json
  me_scope :: memory_scope
  me_scope_target :: string
  me_created_at :: int
  me_updated_at :: int
  me_metadata :: "json dict"

type_synonym bucket = "memory_entry dict"
type_synonym mem_store = "bucket dict dict"

record 'w memory_ops =
  mo_read :: "string \<Rightarrow> memory_scope \<Rightarrow> string option \<Rightarrow> ('w, memory_entry option) py"
  mo_write :: "string \<Rightarrow> json \<Rightarrow> memory_scope \<Rightarrow> string option \<Rightarrow> ('w, unit) py"
  mo_delete :: "string \<Rightarrow> memory_scope \<Rightarrow> string option \<Rightarrow> ('w, unit) py"
  mo_search :: "json dict \<Rightarrow> memory_scope \<Rightarrow> string option \<Rightarrow> ('w, memory_entry list) py"

subsection \<open>DictMemoryConnector\<close>

definition target_key :: "string option \<Rightarrow> string" where
  "target_key target = or_else target []"

definition bucket_of :: "mem_store \<Rightarrow> memory_scope \<Rightarrow> string option \<Rightarrow> bucket" where
  "bucket_of s scope target = dget_or (dget_or s (scope_value scope) []) (target_key target) []"

definition put_bucket :: "memory_scope \<Rightarrow> string option \<Rightarrow> bucket \<Rightarrow> mem_store \<Rightarrow> mem_store" where
  "put_bucket scope target b s =
     dset (scope_value scope) (dset (target_key target) b (dget_or s (scope_value scope) [])) s"

definition dict_read ::
  "string \<Rightarrow> memory_scope \<Rightarrow> string option \<Rightarrow> (mem_store, memory_entry option) py" where
  "dict_read key scope target = gets (\<lambda>s. dget (bucket_of s scope target) key)"

definition dict_write ::
  "int \<Rightarrow> string \<Rightarrow> json \<Rightarrow> memory_scope \<Rightarrow> string option \<Rightarrow> (mem_store, unit) py" where
  "dict_write now key value scope target = modify (\<lambda>s.
     let bucket = bucket_of s scope target;
         entry =
           (case dget bucket key of
              Some existing \<Rightarrow> existing\<lparr>me_value := value, me_updated_at := now\<rparr>
            | None \<Rightarrow> \<lparr>me_key = key, me_value = value, me_scope = scope,
                       me_scope_target = target_key target, me_created_at = now,
                       me_updated_at = now, me_metadata = []\<rparr>)
     in put_bucket scope target (dset key entry bucket) s)"

definition dict_delete ::
  "string \<Rightarrow> memory_scope \<Rightarrow> string option \<Rightarrow> (mem_store, unit) py" where
  "dict_delete key scope target =
     bnd (gets (\<lambda>s. bucket_of s scope target)) (\<lambda>bucket.
     if \<not> dhas bucket key then raise (Exn KeyError key)
     else modify (put_bucket scope target (ddel key bucket)))"

definition entry_matches :: "string \<Rightarrow> memory_entry \<Rightarrow> bool" where
  "entry_matches txt e \<longleftrightarrow>
     txt = [] \<or> sublist txt (lower (me_key e)) \<or> sublist txt (lower (py_str (me_value e)))"

definition dict_search ::
  "json dict \<Rightarrow> memory_scope \<Rightarrow> string option \<Rightarrow> (mem_store, memory_entry list) py" where
  "dict_search query scope target =
     bnd (gets (\<lambda>s. bucket_of s scope target)) (\<lambda>bucket.
     case dget_or query ''text'' (JStr []) of
       JStr t \<Rightarrow> ret (filter (entry_matches (lower t)) (dvalues bucket))
     | v \<Rightarrow> raise (Exn AttributeError
               (quoted (type_name v) @ '' object has no attribute '' @ quoted ''lower'')))"

definition dict_ops :: "int \<Rightarrow> mem_store memory_ops" where
  "dict_ops now =
     \<lparr>mo_read = dict_read, mo_write = dict_write now, mo_delete = dict_delete,
      mo_search = dict_search\<rparr>"

subsection \<open>AuditingMemoryConnector\<close>

text \<open>\<open>emit\<close> is the emitter call with run, thread and workflow filled in.\<close>

definition audit_read ::
  "'w memory_ops \<Rightarrow> (event_type \<Rightarrow> json dict \<Rightarrow> ('w, unit) py) \<Rightarrow>
   string \<Rightarrow> memory_scope \<Rightarrow> string option \<Rightarrow> ('w, memory_entry option) py" where
  "audit_read inner emit key scope target =
     bnd (mo_read inner key scope target) (\<lambda>result.
     sq (emit MEMORY_READ
           [(''key'', JStr key), (''scope'', JStr (scope_value scope)),
            (''found'', JBool (result \<noteq> None))])
        (ret result))"

definition audit_write ::
  "'w memory_ops \<Rightarrow> (event_type \<Rightarrow> json dict \<Rightarrow> ('w, unit) py) \<Rightarrow>
   string \<Rightarrow> json \<Rightarrow> memory_scope \<Rightarrow> string option \<Rightarrow> ('w, unit) py" where
  "audit_write inner emit key value scope target =
     bnd (mo_read inner key scope target) (\<lambda>existing.
     sq (mo_write inner key value scope target)
        (emit MEMORY_WRITE
           [(''key'', JStr key), (''scope'', JStr (scope_value scope)),
            (''created'', JBool (existing = None))]))"

text \<open>\<open>try/except KeyError/finally\<close>: the event is emitted on every outcome; \<open>found\<close> is false only
  after a \<open>KeyError\<close>; an exception of the emitter replaces the pending one.\<close>

definition audit_delete ::
  "'w memory_ops \<Rightarrow> (event_type \<Rightarrow> json dict \<Rightarrow> ('w, unit) py) \<Rightarrow>
   string \<Rightarrow> memory_scope \<Rightarrow> string option \<Rightarrow> ('w, unit) py" where
  "audit_delete inner emit key scope target =
     (let event = (\<lambda>found. emit MEMORY_DELETE
           [(''key'', JStr key), (''scope'', JStr (scope_value scope)), (''found'', JBool found)])
      in sq (on_error (mo_delete inner key scope target) (\<lambda>e. event (eclass e \<noteq> KeyError)))
            (event True))"

definition audit_search ::
  "'w memory_ops \<Rightarrow> (event_type \<Rightarrow> json dict \<Rightarrow> ('w, unit) py) \<Rightarrow>
   json dict \<Rightarrow> memory_scope \<Rightarrow> string option \<Rightarrow> ('w, memory_entry list) py" where
  "audit_search inner emit query scope target =
     bnd (mo_search inner query scope target) (\<lambda>results.
     sq (emit MEMORY_SEARCH
           [(''query'', JObj query), (''scope'', JStr (scope_value scope)),
            (''result_count'', JInt (int (length results)))])
        (ret results))"

definition auditing_ops ::
  "'w memory_ops \<Rightarrow> (event_type \<Rightarrow> json dict \<Rightarrow> ('w, unit) py) \<Rightarrow> 'w memory_ops" where
  "auditing_ops inner emit =
     \<lparr>mo_read = audit_read inner emit, mo_write = audit_write inner emit,
      mo_delete = audit_delete inner emit, mo_search = audit_search inner emit\<rparr>"

subsection \<open>ScopedMemoryConnector\<close>

definition resolve_target ::
  "string \<Rightarrow> string option \<Rightarrow> memory_scope \<Rightarrow> string option \<Rightarrow> string" where
  "resolve_target run_id thread_id scope target =
     (case target of
        Some t \<Rightarrow> t
      | None \<Rightarrow>
          (case scope of
             RUN \<Rightarrow> run_id
           | THREAD \<Rightarrow> or_else thread_id run_id
           | SHARED \<Rightarrow> ''__shared__''))"

definition scoped_ops :: "'w memory_ops \<Rightarrow> string \<Rightarrow> string option \<Rightarrow> 'w memory_ops" where
  "scoped_ops inner run_id thread_id =
     (let t = (\<lambda>scope target. Some (resolve_target run_id thread_id scope target))
      in \<lparr>mo_read = (\<lambda>key scope target. mo_read inner key scope (t scope target)),
          mo_write = (\<lambda>key value scope target. mo_write inner key value scope (t scope target)),
          mo_delete = (\<lambda>key scope target. mo_delete inner key scope (t scope target)),
          mo_search = (\<lambda>query scope target. mo_search inner query scope (t scope target))\<rparr>)"

subsection \<open>The contract of a connector\<close>

definition upd_view ::
  "memory_scope \<Rightarrow> string \<Rightarrow> string \<Rightarrow> json option \<Rightarrow>
   (memory_scope \<Rightarrow> string \<Rightarrow> string \<Rightarrow> json option) \<Rightarrow>
   memory_scope \<Rightarrow> string \<Rightarrow> string \<Rightarrow> json option" where
  "upd_view sc t k x v = (\<lambda>sc' t' k'. if sc' = sc \<and> t' = t \<and> k' = k then x else v sc' t' k')"

locale memory_connector =
  fixes ops :: "'w memory_ops"
    and view :: "'w \<Rightarrow> memory_scope \<Rightarrow> string \<Rightarrow> string \<Rightarrow> json option"
  assumes read_ok:
      "\<exists>e w'. mo_read ops k sc t w = (Inr e, w') \<and> view w' = view w \<and>
         map_option me_value e = view w sc (target_key t) k"
    and write_ok:
      "\<exists>w'. mo_write ops k v sc t w = (Inr (), w') \<and>
         view w' = upd_view sc (target_key t) k (Some v) (view w)"
    and delete_ok:
      "view w sc (target_key t) k \<noteq> None \<Longrightarrow>
         \<exists>w'. mo_delete ops k sc t w = (Inr (), w') \<and>
           view w' = upd_view sc (target_key t) k None (view w)"
    and delete_missing:
      "view w sc (target_key t) k = None \<Longrightarrow>
         \<exists>w'. mo_delete ops k sc t w = (Inl (Exn KeyError k), w') \<and> view w' = view w"
    and search_frame: "view (snd (mo_search ops q sc t w)) = view w"
begin

lemma read_after_write:
  assumes "mo_write ops k v sc t w = (Inr (), w1)"
  shows "\<exists>e w2. mo_read ops k' sc' t' w1 = (Inr e, w2) \<and>
    map_option me_value e =
      (if k' = k \<and> sc' = sc \<and> target_key t' = target_key t then Some v
       else view w sc' (target_key t') k')"
proof -
  from write_ok [of k v sc t w] assms
  have "view w1 = upd_view sc (target_key t) k (Some v) (view w)" by auto
  moreover obtain e w2 where "mo_read ops k' sc' t' w1 = (Inr e, w2)"
    and "map_option me_value e = view w1 sc' (target_key t') k'"
    using read_ok [of k' sc' t' w1] by auto
  ultimately show ?thesis by (auto simp: upd_view_def)
qed

lemma delete_twice:
  assumes "mo_delete ops k sc t w = (Inr (), w1)"
  shows "fst (mo_delete ops k sc t w1) = Inl (Exn KeyError k)"
proof -
  have "view w sc (target_key t) k \<noteq> None"
    using assms delete_missing [of w sc t k] by auto
  then have "view w1 = upd_view sc (target_key t) k None (view w)"
    using assms delete_ok [of w sc t k] by auto
  then have "view w1 sc (target_key t) k = None" by (simp add: upd_view_def)
  then show ?thesis by (metis delete_missing fst_conv)
qed

end

text \<open>With an emitter that always accepts the event and leaves the memory alone, the auditing
  wrapper is again a connector on the same memory.\<close>

locale audited_memory = memory_connector +
  fixes emit :: "event_type \<Rightarrow> json dict \<Rightarrow> ('a, unit) py"
  assumes emit_ok: "\<exists>w'. emit ev p w = (Inr (), w') \<and> view w' = view w"
begin

lemma audit_read_ok:
  "\<exists>e w'. mo_read (auditing_ops ops emit) k sc t w = (Inr e, w') \<and> view w' = view w \<and>
     map_option me_value e = view w sc (target_key t) k"
proof -
  obtain e w1 where 1: "mo_read ops k sc t w = (Inr e, w1)" "view w1 = view w"
    "map_option me_value e = view w sc (target_key t) k"
    using read_ok by blast
  let ?p = "[(''key'', JStr k), (''scope'', JStr (scope_value sc)), (''found'', JBool (e \<noteq> None))]"
  obtain w2 where "emit MEMORY_READ ?p w1 = (Inr (), w2)" "view w2 = view w1"
    using emit_ok by blast
  with 1 show ?thesis by (simp add: auditing_ops_def audit_read_def py_simps)
qed

lemma audit_write_ok:
  "\<exists>w'. mo_write (auditing_ops ops emit) k v sc t w = (Inr (), w') \<and>
     view w' = upd_view sc (target_key t) k (Some v) (view w)"
proof -
  obtain e w1 where 1: "mo_read ops k sc t w = (Inr e, w1)" "view w1 = view w"
    using read_ok by blast
  obtain w2 where 2: "mo_write ops k v sc t w1 = (Inr (), w2)"
    "view w2 = upd_view sc (target_key t) k (Some v) (view w1)"
    using write_ok by blast
  let ?p = "[(''key'', JStr k), (''scope'', JStr (scope_value sc)), (''created'', JBool (e = None))]"
  obtain w3 where "emit MEMORY_WRITE ?p w2 = (Inr (), w3)" "view w3 = view w2"
    using emit_ok by blast
  with 1 2 show ?thesis by (simp add: auditing_ops_def audit_write_def py_simps)
qed

lemma audit_delete_run:
  "mo_delete ops k sc t w = (r, w1) \<Longrightarrow>
   \<exists>w2. mo_delete (auditing_ops ops emit) k sc t w = (r, w2) \<and> view w2 = view w1"
proof -
  assume d: "mo_delete ops k sc t w = (r, w1)"
  define p where "p b = [(''key'', JStr k), (''scope'', JStr (scope_value sc)), (''found'', JBool b)]"
    for b
  obtain w2 where e: "emit MEMORY_DELETE (p True) w1 = (Inr (), w2)" "view w2 = view w1"
    using emit_ok by blast
  obtain w3 where f: "emit MEMORY_DELETE (p False) w1 = (Inr (), w3)" "view w3 = view w1"
    using emit_ok by blast
  show ?thesis
  proof (cases r)
    case (Inl x)
    with d e f show ?thesis
      by (cases "eclass x = KeyError") (simp_all add: auditing_ops_def audit_delete_def py_simps p_def)
  next
    case (Inr x)
    with d e show ?thesis by (simp add: auditing_ops_def audit_delete_def py_simps p_def)
  qed
qed

lemma audit_search_frame: "view (snd (mo_search (auditing_ops ops emit) q sc t w)) = view w"
proof -
  obtain r w1 where 1: "mo_search ops q sc t w = (r, w1)" by (cases "mo_search ops q sc t w")
  with search_frame [of q sc t w] have v: "view w1 = view w" by simp
  show ?thesis
  proof (cases r)
    case (Inl x)
    with 1 v show ?thesis by (simp add: auditing_ops_def audit_search_def py_simps)
  next
    case (Inr rs)
    let ?p = "[(''query'', JObj q), (''scope'', JStr (scope_value sc)),
      (''result_count'', JInt (int (length rs)))]"
    obtain w2 where "emit MEMORY_SEARCH ?p w1 = (Inr (), w2)" "view w2 = view w1"
      using emit_ok by blast
    with 1 v Inr show ?thesis by (simp add: auditing_ops_def audit_search_def py_simps)
  qed
qed

end

sublocale audited_memory \<subseteq> audited: memory_connector "auditing_ops ops emit" view
proof
  show "\<exists>e w'. mo_read (auditing_ops ops emit) k sc t w = (Inr e, w') \<and> view w' = view w \<and>
      map_option me_value e = view w sc (target_key t) k" for k sc t w
    by (rule audit_read_ok)
  show "\<exists>w'. mo_write (auditing_ops ops emit) k v sc t w = (Inr (), w') \<and>
      view w' = upd_view sc (target_key t) k (Some v) (view w)" for k v sc t w
    by (rule audit_write_ok)
  show "view w sc (target_key t) k \<noteq> None \<Longrightarrow>
      \<exists>w'. mo_delete (auditing_ops ops emit) k sc t w = (Inr (), w') \<and>
        view w' = upd_view sc (target_key t) k None (view w)" for w sc t k
    using delete_ok [of w sc t k] by (metis audit_delete_run)
  show "view w sc (target_key t) k = None \<Longrightarrow>
      \<exists>w'. mo_delete (auditing_ops ops emit) k sc t w = (Inl (Exn KeyError k), w') \<and>
        view w' = view w" for w sc t k
    using delete_missing [of w sc t k] by (metis audit_delete_run)
  show "view (snd (mo_search (auditing_ops ops emit) q sc t w)) = view w" for q sc t w
    by (rule audit_search_frame)
qed

subsection \<open>The dictionary connector keeps the contract\<close>

definition dict_view :: "mem_store \<Rightarrow> memory_scope \<Rightarrow> string \<Rightarrow> string \<Rightarrow> json option" where
  "dict_view s sc t k =
     map_option me_value (dget (dget_or (dget_or s (scope_value sc) []) t []) k)"

lemma dict_view_bucket: "dict_view s sc (target_key t) k = map_option me_value (dget (bucket_of s sc t) k)"
  by (simp add: dict_view_def bucket_of_def)

lemma dict_view_put_bucket:
  "dict_view (put_bucket sc t b s) =
     (\<lambda>sc' t' k'. if sc' = sc \<and> t' = target_key t then map_option me_value (dget b k')
        else dict_view s sc' t' k')"
  by (auto simp: dict_view_def put_bucket_def dget_or_def fun_eq_iff split: option.splits)

interpretation dict: memory_connector "dict_ops now" dict_view
proof
  show "\<exists>e w'. mo_read (dict_ops now) k sc t w = (Inr e, w') \<and> dict_view w' = dict_view w \<and>
      map_option me_value e = dict_view w sc (target_key t) k" for k sc t w
    by (simp add: dict_ops_def dict_read_def py_simps dict_view_bucket)
  show "\<exists>w'. mo_write (dict_ops now) k v sc t w = (Inr (), w') \<and>
      dict_view w' = upd_view sc (target_key t) k (Some v) (dict_view w)" for k v sc t w
    by (auto simp: dict_ops_def dict_write_def py_simps Let_def dict_view_put_bucket upd_view_def
        fun_eq_iff dict_view_bucket split: option.splits)
  show "\<exists>w'. mo_delete (dict_ops now) k sc t w = (Inr (), w') \<and>
      dict_view w' = upd_view sc (target_key t) k None (dict_view w)"
    if "dict_view w sc (target_key t) k \<noteq> None" for w sc t k
    using that
    by (auto simp: dict_ops_def dict_delete_def py_simps dict_view_bucket dict_view_put_bucket
        upd_view_def fun_eq_iff dhas_def)
  show "\<exists>w'. mo_delete (dict_ops now) k sc t w = (Inl (Exn KeyError k), w') \<and>
      dict_view w' = dict_view w" if "dict_view w sc (target_key t) k = None" for w sc t k
    using that by (auto simp: dict_ops_def dict_delete_def py_simps dict_view_bucket dhas_def)
  show "dict_view (snd (mo_search (dict_ops now) q sc t w)) = dict_view w" for q sc t w
    by (auto simp: dict_ops_def dict_search_def py_simps split: json.splits)
qed

subsection \<open>Scopes isolate\<close>

lemma scoped_read_after_write:
  fixes s :: mem_store
  defines "target r th sc \<equiv> resolve_target r th sc None"
  shows "\<exists>e. mo_read (scoped_ops (dict_ops now') r2 th2) k' sc' None
               (snd (mo_write (scoped_ops (dict_ops now) r1 th1) k v sc None s)) =
             (Inr e, snd (mo_write (scoped_ops (dict_ops now) r1 th1) k v sc None s)) \<and>
           map_option me_value e =
             (if k' = k \<and> sc' = sc \<and> target r2 th2 sc = target r1 th1 sc then Some v
              else dict_view s sc' (target r2 th2 sc') k')"
proof -
  have tk: "target_key (Some t) = t" for t
    by (simp add: target_key_def or_else_def)
  obtain s1 where w: "mo_write (dict_ops now) k v sc (Some (target r1 th1 sc)) s = (Inr (), s1)"
    by (metis dict.write_ok)
  from dict.read_after_write [OF w, of k' sc' "Some (target r2 th2 sc')", unfolded tk]
  obtain e where
    "mo_read (dict_ops now') k' sc' (Some (target r2 th2 sc')) s1 = (Inr e, s1)"
    "map_option me_value e = (if k' = k \<and> sc' = sc \<and> target r2 th2 sc' = target r1 th1 sc then Some v
       else dict_view s sc' (target r2 th2 sc') k')"
    by (auto simp: dict_ops_def dict_read_def py_simps)
  then show ?thesis using w by (auto simp: scoped_ops_def target_def Let_def)
qed

end
