(* ===== verification/Tools.thy ===== *)
theory Tools
  imports Memory
begin

section \<open>Tools and registries (\<open>governai/tools\<close>, \<open>governai/skills\<close>)\<close>

text \<open>
  User code (tool and agent handlers) is a program over the calls its context offers: the datatype
  \<open>prog\<close>, whose constructors are the context methods with their continuations. A continuation of a
  call that can raise takes the outcome, so user code may catch the exception. What a call does is
  the interpreter's business (theory \<open>Context\<close>). \<open>Elapse\<close> lets time pass in user code.

  A Pydantic model class is its \<open>model_validate\<close>: a function from the data to Pydantic's error text or
  the validated value. A tool's \<open>execution_placement\<close> is an enumeration here.
\<close>

subsection \<open>Values of user code\<close>

text \<open>Plain data, a model instance (by its \<open>model_dump(mode="json")\<close>), or a \<open>Command\<close>.\<close>

datatype py_value = Plain json | Instance json | CommandObj command

definition to_payload :: "py_value \<Rightarrow> json" where
  "to_payload data =
     (case data of Plain j \<Rightarrow> j | Instance dump \<Rightarrow> dump | CommandObj c \<Rightarrow> command_dump c)"

subsection \<open>Programs over a context\<close>

datatype 'r prog =
    Return 'r
  | Throw exn
  | Elapse nat "'r prog"
  | GetArtifact string json "exn + json \<Rightarrow> 'r prog"
  | RequireArtifact string "exn + json \<Rightarrow> 'r prog"
  | ArtifactsSnapshot "exn + json dict \<Rightarrow> 'r prog"
  | GetChannel string json "exn + json \<Rightarrow> 'r prog"
  | ChannelsSnapshot "exn + json dict \<Rightarrow> 'r prog"
  | SetMetadata string json "exn + unit \<Rightarrow> 'r prog"
  | GetMetadata string json "exn + json \<Rightarrow> 'r prog"
  | ResolveSecret string "exn + string \<Rightarrow> 'r prog"
  | MemoryRead string memory_scope "string option" "exn + memory_entry option \<Rightarrow> 'r prog"
  | MemoryWrite string json memory_scope "string option" "exn + unit \<Rightarrow> 'r prog"
  | MemoryDelete string memory_scope "string option" "exn + unit \<Rightarrow> 'r prog"
  | MemorySearch "json dict" memory_scope "string option" "exn + memory_entry list \<Rightarrow> 'r prog"
  | UseTool string json "exn + json \<Rightarrow> 'r prog"
  | ToolCallsUsed "exn + nat \<Rightarrow> 'r prog"

subsection \<open>Tools\<close>

datatype placement = LocalOnly | RemoteOnly | LocalOrRemote

record tool =
  t_name :: string
  t_version :: string
  t_capabilities :: "string list"
  t_side_effect :: bool
  t_timeout_seconds :: "int option"
  t_requires_approval :: bool
  t_executor_type :: string
  t_placement :: placement
  t_remote_name :: string
  t_command :: "string list option"
  t_input_model :: "json \<Rightarrow> string + json"
  t_output_model :: "py_value \<Rightarrow> string + py_value"
  t_handler :: "json \<Rightarrow> py_value prog"

subsection \<open>The CLI tool\<close>

text \<open>What the operating system answers to running the command on the input: it cannot be started, nothing
  within the time limit, or exit code, standard output and standard error. \<open>json.loads\<close> is a parameter.\<close>

datatype process_result = ProcessFailed exn | ProcessTimeout | ProcessExit int string string

definition cli_result :: "(string \<Rightarrow> json option) \<Rightarrow> string \<Rightarrow> process_result \<Rightarrow> exn + json" where
  "cli_result loads name p =
     (case p of
        ProcessFailed e \<Rightarrow> Inl e
      | ProcessTimeout \<Rightarrow> Inl (Exn CLIToolTimeoutError (''CLI tool timed out for '' @ name))
      | ProcessExit returncode stdout stderr \<Rightarrow>
          (let stdout_text = strip stdout; stderr_text = strip stderr
           in if returncode \<noteq> 0
              then Inl (Exn (CLIToolProcessError returncode stderr_text stdout_text)
                     (''CLI tool failed for '' @ name))
              else
                (case loads (if stdout_text = [] then ''{}'' else stdout_text) of
                   None \<Rightarrow> Inl (Exn CLIToolOutputError
                     (''CLI tool returned invalid JSON for '' @ name @ '': '' @ take 200 stdout_text))
                 | Some j \<Rightarrow> Inr j)))"

definition cli_handler ::
  "(string \<Rightarrow> json option) \<Rightarrow> (string list \<Rightarrow> json \<Rightarrow> process_result) \<Rightarrow> string \<Rightarrow> string list \<Rightarrow>
   json \<Rightarrow> py_value prog" where
  "cli_handler loads spawn name command data =
     (case cli_result loads name (spawn command data) of
        Inl e \<Rightarrow> Throw e
      | Inr j \<Rightarrow> Return (Plain j))"

definition cli_tool_check :: "string list \<Rightarrow> string \<Rightarrow> string \<Rightarrow> exn + unit" where
  "cli_tool_check command input_mode output_mode =
     (if command = [] then Inl (Exn ValueError ''command must not be empty'')
      else if input_mode \<noteq> ''json-stdin''
      then Inl (Exn ValueError ''Only json-stdin input_mode is supported in MVP'')
      else if output_mode \<noteq> ''json-stdout''
      then Inl (Exn ValueError ''Only json-stdout output_mode is supported in MVP'')
      else Inr ())"

lemma cli_result_tool_error: "cli_result loads name p = Inl e \<Longrightarrow> is_tool_error (eclass e) \<or> p = ProcessFailed e"
  by (auto simp: cli_result_def Let_def split: process_result.splits if_splits option.splits)

lemma cli_result_Inr:
  "cli_result loads name p = Inr j \<longleftrightarrow>
     (\<exists>out err. p = ProcessExit 0 out err \<and>
        loads (if strip out = [] then ''{}'' else strip out) = Some j)"
  by (auto simp: cli_result_def Let_def split: process_result.splits if_splits option.splits)

subsection \<open>Building tools\<close>

text \<open>\<open>Tool.__init__\<close>; the record holds the optional keyword arguments (a description and tags have no
  effect on execution, see theory \<open>Descriptions\<close>).\<close>

record tool_args =
  ta_capabilities :: "string list option"
  ta_side_effect :: bool
  ta_timeout_seconds :: "int option"
  ta_requires_approval :: bool
  ta_placement :: placement
  ta_remote_name :: "string option"

definition no_tool_args :: tool_args where
  "no_tool_args =
     \<lparr>ta_capabilities = None, ta_side_effect = False, ta_timeout_seconds = None,
      ta_requires_approval = False, ta_placement = LocalOnly, ta_remote_name = None\<rparr>"

definition DEFAULT_VERSION :: string where
  "DEFAULT_VERSION = ''0.0.0''"

definition new_tool ::
  "string \<Rightarrow> string \<Rightarrow> (json \<Rightarrow> string + json) \<Rightarrow> (py_value \<Rightarrow> string + py_value) \<Rightarrow> tool_args \<Rightarrow>
   string list option \<Rightarrow> (json \<Rightarrow> py_value prog) \<Rightarrow> tool" where
  "new_tool executor_type name input_model output_model args command handler =
     \<lparr>t_name = name, t_version = DEFAULT_VERSION,
      t_capabilities = (case ta_capabilities args of None \<Rightarrow> [] | Some cs \<Rightarrow> cs),
      t_side_effect = ta_side_effect args, t_timeout_seconds = ta_timeout_seconds args,
      t_requires_approval = ta_requires_approval args, t_executor_type = executor_type,
      t_placement = ta_placement args, t_remote_name = or_else (ta_remote_name args) name,
      t_command = command, t_input_model = input_model, t_output_model = output_model,
      t_handler = handler\<rparr>"

text \<open>The decorator \<open>tool\<close> and \<open>PythonTool\<close>; neither takes a version.\<close>

definition python_tool ::
  "string \<Rightarrow> (json \<Rightarrow> string + json) \<Rightarrow> (py_value \<Rightarrow> string + py_value) \<Rightarrow> tool_args \<Rightarrow>
   (json \<Rightarrow> py_value prog) \<Rightarrow> tool" where
  "python_tool name input_model output_model args handler =
     new_tool ''python'' name input_model output_model args None handler"

definition cli_tool ::
  "(string \<Rightarrow> json option) \<Rightarrow> (string list \<Rightarrow> json \<Rightarrow> process_result) \<Rightarrow> string \<Rightarrow> string list \<Rightarrow>
   (json \<Rightarrow> string + json) \<Rightarrow> (py_value \<Rightarrow> string + py_value) \<Rightarrow> string \<Rightarrow> string \<Rightarrow> tool_args \<Rightarrow> exn + tool" where
  "cli_tool loads spawn name command input_model output_model input_mode output_mode args =
     (case cli_tool_check command input_mode output_mode of
        Inl e \<Rightarrow> Inl e
      | Inr _ \<Rightarrow> Inr (new_tool ''cli'' name input_model output_model args (Some command)
                  (cli_handler loads spawn name command)))"

subsection \<open>ToolRegistry\<close>

record tool_registry =
  tg_tools :: "((string \<times> string) \<times> tool) list"
  tg_remote :: "tool dict"

definition empty_tool_registry :: tool_registry where
  "empty_tool_registry = \<lparr>tg_tools = [], tg_remote = []\<rparr>"

definition register_tool :: "tool \<Rightarrow> (tool_registry, unit) py" where
  "register_tool tool =
     (let key = (t_name tool, t_version tool)
      in bnd (gets (\<lambda>g. dhas (tg_tools g) key)) (\<lambda>known.
         if known
         then raise (Exn ValueError
                (''Tool already registered: '' @ t_name tool @ ''@'' @ t_version tool))
         else bnd (gets (\<lambda>g. dhas (tg_remote g) (t_remote_name tool))) (\<lambda>taken.
         if taken
         then raise (Exn ValueError (''Tool remote_name already registered: '' @ t_remote_name tool))
         else modify (\<lambda>g. g\<lparr>tg_tools := dset key tool (tg_tools g),
                            tg_remote := dset (t_remote_name tool) tool (tg_remote g)\<rparr>))))"

definition get_tool_version :: "tool_registry \<Rightarrow> string \<Rightarrow> string \<Rightarrow> exn + tool" where
  "get_tool_version g name version =
     (case dget (tg_tools g) (name, version) of
        None \<Rightarrow> Inl (Exn KeyError (''Unknown tool: '' @ name @ ''@'' @ version))
      | Some t \<Rightarrow> Inr t)"

definition get_tool :: "tool_registry \<Rightarrow> string \<Rightarrow> exn + tool" where
  "get_tool g name = get_tool_version g name DEFAULT_VERSION"

definition has_tool :: "tool_registry \<Rightarrow> string \<Rightarrow> bool" where
  "has_tool g name = dhas (tg_tools g) (name, DEFAULT_VERSION)"

definition get_remote_tool :: "tool_registry \<Rightarrow> string \<Rightarrow> exn + tool" where
  "get_remote_tool g remote_name =
     (case dget (tg_remote g) remote_name of
        None \<Rightarrow> Inl (Exn KeyError (''Unknown tool remote_name: '' @ remote_name))
      | Some t \<Rightarrow> Inr t)"

definition has_remote_tool :: "tool_registry \<Rightarrow> string \<Rightarrow> bool" where
  "has_remote_tool g remote_name = dhas (tg_remote g) remote_name"

definition list_tools :: "tool_registry \<Rightarrow> tool list" where
  "list_tools g = dvalues (tg_tools g)"

text \<open>Both indexes hold the same tools, each under its own key.\<close>

definition tool_registry_ok :: "tool_registry \<Rightarrow> bool" where
  "tool_registry_ok g \<longleftrightarrow>
     (\<forall>n v t. dget (tg_tools g) (n, v) = Some t \<longrightarrow>
        t_name t = n \<and> t_version t = v \<and> dget (tg_remote g) (t_remote_name t) = Some t) \<and>
     (\<forall>r t. dget (tg_remote g) r = Some t \<longrightarrow>
        t_remote_name t = r \<and> dget (tg_tools g) (t_name t, t_version t) = Some t)"

lemma tool_registry_ok_empty: "tool_registry_ok empty_tool_registry"
  by (simp add: tool_registry_ok_def empty_tool_registry_def)

lemma register_tool_cases:
  "register_tool t g =
     (if dhas (tg_tools g) (t_name t, t_version t)
      then (Inl (Exn ValueError (''Tool already registered: '' @ t_name t @ ''@'' @ t_version t)), g)
      else if dhas (tg_remote g) (t_remote_name t)
      then (Inl (Exn ValueError (''Tool remote_name already registered: '' @ t_remote_name t)), g)
      else (Inr (), g\<lparr>tg_tools := dset (t_name t, t_version t) t (tg_tools g),
                      tg_remote := dset (t_remote_name t) t (tg_remote g)\<rparr>))"
  by (simp add: register_tool_def py_simps Let_def)

lemma register_tool_ok:
  assumes "tool_registry_ok g"
  shows "tool_registry_ok (snd (register_tool t g))"
proof (cases "dhas (tg_tools g) (t_name t, t_version t) \<or> dhas (tg_remote g) (t_remote_name t)")
  case True
  with assms show ?thesis by (auto simp: register_tool_cases)
next
  case False
  then have "dget (tg_tools g) (t_name t, t_version t) = None"
    and "dget (tg_remote g) (t_remote_name t) = None"
    by (auto simp: dhas_def)
  with assms False show ?thesis
    unfolding register_tool_cases tool_registry_ok_def
    by (auto split: if_splits) (metis option.distinct(1))+
qed

lemma register_then_get:
  "register_tool t g = (Inr (), g') \<Longrightarrow>
   get_tool_version g' n v = (if n = t_name t \<and> v = t_version t then Inr t else get_tool_version g n v)"
  by (auto simp: register_tool_cases get_tool_version_def split: if_splits)

lemma register_keeps:
  "has_tool g n \<Longrightarrow> has_tool (snd (register_tool t g)) n"
  by (auto simp: register_tool_cases has_tool_def)

subsection \<open>Skills\<close>

record skill =
  sk_name :: string
  sk_tools :: "tool dict"

definition new_skill :: "string \<Rightarrow> tool list \<Rightarrow> exn + skill" where
  "new_skill name tools =
     map_sum id (\<lambda>d. \<lparr>sk_name = name, sk_tools = d\<rparr>)
       (fold (\<lambda>t acc. case acc of
                Inl e \<Rightarrow> Inl e
              | Inr d \<Rightarrow>
                  if dhas d (t_name t)
                  then Inl (Exn ValueError (''Duplicate tool name in skill '' @ name @ '': '' @ t_name t))
                  else Inr (dset (t_name t) t d))
          tools (Inr []))"

definition skill_tool :: "skill \<Rightarrow> string \<Rightarrow> exn + tool" where
  "skill_tool s name =
     (case dget (sk_tools s) name of
        None \<Rightarrow> Inl (Exn KeyError (''Unknown tool in skill '' @ sk_name s @ '': '' @ name))
      | Some t \<Rightarrow> Inr t)"

definition skill_list :: "skill \<Rightarrow> tool list" where
  "skill_list s = dvalues (sk_tools s)"

definition register_skill :: "skill \<Rightarrow> (skill dict, unit) py" where
  "register_skill s =
     bnd (gets (\<lambda>d. dhas d (sk_name s))) (\<lambda>known.
     if known then raise (Exn ValueError (''Skill already registered: '' @ sk_name s))
     else modify (dset (sk_name s) s))"

definition get_skill :: "skill dict \<Rightarrow> string \<Rightarrow> exn + skill" where
  "get_skill d name =
     (case dget d name of None \<Rightarrow> Inl (Exn KeyError (''Unknown skill: '' @ name)) | Some s \<Rightarrow> Inr s)"

lemma skill_fold_Inl [simp]:
  "fold (\<lambda>t acc. case acc of Inl e \<Rightarrow> Inl e
      | Inr d \<Rightarrow> if dhas d (t_name t) then Inl (f t) else Inr (dset (t_name t) t d)) ts (Inl e) = Inl e"
  by (induction ts) simp_all

lemma dvalues_dset_new: "\<not> dhas d k \<Longrightarrow> dvalues (dset k v d) = dvalues d @ [v]"
  by (induction d) (auto simp: dvalues_def dhas_def)

lemma skill_fold_Inr:
  "fold (\<lambda>t acc. case acc of Inl e \<Rightarrow> Inl e
      | Inr d \<Rightarrow> if dhas d (t_name t) then Inl (f t) else Inr (dset (t_name t) t d)) ts (Inr d) = Inr d' \<Longrightarrow>
   dvalues d' = dvalues d @ ts \<and> distinct (map t_name ts) \<and> (\<forall>t \<in> set ts. \<not> dhas d (t_name t))"
proof (induction ts arbitrary: d)
  case Nil
  then show ?case by simp
next
  case (Cons t ts)
  show ?case
  proof (cases "dhas d (t_name t)")
    case True
    with Cons.prems show ?thesis by simp
  next
    case False
    with Cons.prems have "fold (\<lambda>t acc. case acc of Inl e \<Rightarrow> Inl e
      | Inr d \<Rightarrow> if dhas d (t_name t) then Inl (f t) else Inr (dset (t_name t) t d)) ts
        (Inr (dset (t_name t) t d)) = Inr d'" by simp
    from Cons.IH [OF this] False show ?thesis by (auto simp: dvalues_dset_new)
  qed
qed

lemma new_skill_tools:
  "new_skill name tools = Inr s \<Longrightarrow> skill_list s = tools \<and> distinct (map t_name tools)"
  unfolding new_skill_def skill_list_def map_sum_def
  by (auto split: sum.splits dest!: skill_fold_Inr simp: dvalues_def)

end
