(* ===== verification/Agents.thy ===== *)
theory Agents
  imports Tools
begin

section \<open>Agents and their registry (\<open>governai/agents\<close>)\<close>

text \<open>
  An agent's handler is a program over the restricted context of \<open>agents/context.py\<close>. It returns an
  \<open>AgentResult\<close> or a dictionary validated into one: \<open>Fields\<close> holds the fields of either (the shape
  check \<open>validate_result\<close> is the source's), \<open>Malformed\<close> is a return value Pydantic rejects before
  that, with its error text.
\<close>

datatype agent_status = Final | Handoff | NeedsApproval | Failed

fun agent_status_value :: "agent_status \<Rightarrow> string" where
  "agent_status_value Final = ''final''"
| "agent_status_value Handoff = ''handoff''"
| "agent_status_value NeedsApproval = ''needs_approval''"
| "agent_status_value Failed = ''failed''"

record agent_task =
  at_task_id :: string
  at_goal :: string
  at_input_payload :: json
  at_context_artifacts :: "json dict"

record agent_result =
  ag_status :: agent_status
  ag_output_payload :: "json option"
  ag_next_agent :: "string option"
  ag_reason :: "string option"

datatype agent_return = Fields agent_result | Malformed string

definition absent :: "string option \<Rightarrow> bool" where
  "absent x \<longleftrightarrow> x = None \<or> x = Some []"

definition validate_result :: "agent_result \<Rightarrow> string + agent_result" where
  "validate_result r =
     (if ag_status r = Handoff \<and> absent (ag_next_agent r)
      then Inl ''handoff status requires next_agent''
      else if ag_status r = Final \<and> ag_output_payload r = None
      then Inl ''final status requires output_payload''
      else if ag_status r \<in> {Failed, NeedsApproval} \<and> absent (ag_reason r)
      then Inl (agent_status_value (ag_status r) @ '' status requires reason'')
      else Inr r)"

definition result_model :: "(string \<Rightarrow> string) \<Rightarrow> agent_return \<Rightarrow> string + agent_result" where
  "result_model show_error raw =
     (case raw of
        Malformed txt \<Rightarrow> Inl txt
      | Fields r \<Rightarrow>
          (case validate_result r of Inl msg \<Rightarrow> Inl (show_error msg) | Inr r' \<Rightarrow> Inr r'))"

lemma validate_result_Inr:
  "validate_result r = Inr r' \<longleftrightarrow>
     r' = r \<and>
     (case ag_status r of
        Handoff \<Rightarrow> \<not> absent (ag_next_agent r)
      | Final \<Rightarrow> ag_output_payload r \<noteq> None
      | _ \<Rightarrow> \<not> absent (ag_reason r))"
  by (cases "ag_status r") (auto simp: validate_result_def)

lemma result_model_Inr:
  "result_model f raw = Inr r \<longleftrightarrow> raw = Fields r \<and> validate_result r = Inr r"
  by (auto simp: result_model_def validate_result_Inr split: agent_return.splits sum.splits)
    (auto simp: validate_result_def split: if_splits)

record agent =
  a_name :: string
  a_instruction :: string
  a_input_model :: "json \<Rightarrow> string + json"
  a_output_model :: "json \<Rightarrow> string + json"
  a_allowed_tools :: "string list"
  a_allowed_handoffs :: "string list"
  a_max_turns :: int
  a_max_tool_calls :: int
  a_requires_approval :: bool
  a_capabilities :: "string list"
  a_side_effect :: bool
  a_placement :: placement
  a_remote_name :: string
  a_handler :: "agent_task \<Rightarrow> agent_return prog"

definition agent_check :: "int \<Rightarrow> int \<Rightarrow> exn + unit" where
  "agent_check max_turns max_tool_calls =
     (if max_turns < 1 then Inl (Exn ValueError ''max_turns must be >= 1'')
      else if max_tool_calls < 0 then Inl (Exn ValueError ''max_tool_calls must be >= 0'')
      else Inr ())"

text \<open>\<open>Agent.__init__\<close>; the record holds the keyword arguments that have a default.\<close>

record agent_args =
  aa_max_turns :: int
  aa_max_tool_calls :: int
  aa_requires_approval :: bool
  aa_capabilities :: "string list option"
  aa_side_effect :: bool
  aa_placement :: placement
  aa_remote_name :: "string option"

definition no_agent_args :: agent_args where
  "no_agent_args =
     \<lparr>aa_max_turns = 1, aa_max_tool_calls = 1, aa_requires_approval = False, aa_capabilities = None,
      aa_side_effect = False, aa_placement = LocalOnly, aa_remote_name = None\<rparr>"

definition new_agent ::
  "string \<Rightarrow> string \<Rightarrow> (agent_task \<Rightarrow> agent_return prog) \<Rightarrow> (json \<Rightarrow> string + json) \<Rightarrow> (json \<Rightarrow> string + json) \<Rightarrow>
   string list \<Rightarrow> string list \<Rightarrow> agent_args \<Rightarrow> exn + agent" where
  "new_agent name instruction handler input_model output_model allowed_tools allowed_handoffs args =
     (case agent_check (aa_max_turns args) (aa_max_tool_calls args) of
        Inl e \<Rightarrow> Inl e
      | Inr _ \<Rightarrow> Inr
          \<lparr>a_name = name, a_instruction = instruction, a_input_model = input_model, a_output_model = output_model,
           a_allowed_tools = allowed_tools, a_allowed_handoffs = allowed_handoffs, a_max_turns = aa_max_turns args,
           a_max_tool_calls = aa_max_tool_calls args, a_requires_approval = aa_requires_approval args,
           a_capabilities = (case aa_capabilities args of None \<Rightarrow> [] | Some cs \<Rightarrow> cs),
           a_side_effect = aa_side_effect args, a_placement = aa_placement args,
           a_remote_name = or_else (aa_remote_name args) name, a_handler = handler\<rparr>)"

subsection \<open>AgentRegistry\<close>

record agent_registry =
  ar_agents :: "agent dict"
  ar_remote :: "agent dict"

definition empty_agent_registry :: agent_registry where
  "empty_agent_registry = \<lparr>ar_agents = [], ar_remote = []\<rparr>"

definition register_agent :: "agent \<Rightarrow> (agent_registry, unit) py" where
  "register_agent agent =
     bnd (gets (\<lambda>g. dhas (ar_agents g) (a_name agent))) (\<lambda>known.
     if known then raise (Exn ValueError (''Agent already registered: '' @ a_name agent))
     else bnd (gets (\<lambda>g. dhas (ar_remote g) (a_remote_name agent))) (\<lambda>taken.
     if taken
     then raise (Exn ValueError (''Agent remote_name already registered: '' @ a_remote_name agent))
     else modify (\<lambda>g. g\<lparr>ar_agents := dset (a_name agent) agent (ar_agents g),
                        ar_remote := dset (a_remote_name agent) agent (ar_remote g)\<rparr>)))"

definition get_agent :: "agent_registry \<Rightarrow> string \<Rightarrow> exn + agent" where
  "get_agent g name =
     (case dget (ar_agents g) name of
        None \<Rightarrow> Inl (Exn KeyError (''Unknown agent: '' @ name))
      | Some a \<Rightarrow> Inr a)"

definition has_agent :: "agent_registry \<Rightarrow> string \<Rightarrow> bool" where
  "has_agent g name = dhas (ar_agents g) name"

definition get_remote_agent :: "agent_registry \<Rightarrow> string \<Rightarrow> exn + agent" where
  "get_remote_agent g remote_name =
     (case dget (ar_remote g) remote_name of
        None \<Rightarrow> Inl (Exn KeyError (''Unknown agent remote_name: '' @ remote_name))
      | Some a \<Rightarrow> Inr a)"

definition has_remote_agent :: "agent_registry \<Rightarrow> string \<Rightarrow> bool" where
  "has_remote_agent g remote_name = dhas (ar_remote g) remote_name"

definition list_agents :: "agent_registry \<Rightarrow> agent list" where
  "list_agents g = dvalues (ar_agents g)"

definition agent_registry_ok :: "agent_registry \<Rightarrow> bool" where
  "agent_registry_ok g \<longleftrightarrow>
     (\<forall>n a. dget (ar_agents g) n = Some a \<longrightarrow>
        a_name a = n \<and> dget (ar_remote g) (a_remote_name a) = Some a) \<and>
     (\<forall>r a. dget (ar_remote g) r = Some a \<longrightarrow>
        a_remote_name a = r \<and> dget (ar_agents g) (a_name a) = Some a)"

lemma agent_registry_ok_empty: "agent_registry_ok empty_agent_registry"
  by (simp add: agent_registry_ok_def empty_agent_registry_def)

lemma register_agent_cases:
  "register_agent a g =
     (if dhas (ar_agents g) (a_name a)
      then (Inl (Exn ValueError (''Agent already registered: '' @ a_name a)), g)
      else if dhas (ar_remote g) (a_remote_name a)
      then (Inl (Exn ValueError (''Agent remote_name already registered: '' @ a_remote_name a)), g)
      else (Inr (), g\<lparr>ar_agents := dset (a_name a) a (ar_agents g),
                      ar_remote := dset (a_remote_name a) a (ar_remote g)\<rparr>))"
  by (simp add: register_agent_def py_simps)

lemma register_agent_ok:
  assumes "agent_registry_ok g"
  shows "agent_registry_ok (snd (register_agent a g))"
proof (cases "dhas (ar_agents g) (a_name a) \<or> dhas (ar_remote g) (a_remote_name a)")
  case True
  with assms show ?thesis by (auto simp: register_agent_cases)
next
  case False
  then have "dget (ar_agents g) (a_name a) = None" "dget (ar_remote g) (a_remote_name a) = None"
    by (auto simp: dhas_def)
  with assms False show ?thesis
    unfolding register_agent_cases agent_registry_ok_def
    by (auto split: if_splits) (metis option.distinct(1))+
qed

end
