(* ===== verification/Workflows.thy ===== *)
theory Workflows
  imports Agents
begin

section \<open>Workflow definitions and transitions (\<open>governai/workflows\<close>)\<close>

text \<open>
  Step definitions with their builder methods, the checks \<open>WorkflowMeta\<close> makes when a workflow class
  is created, the registration of executors by the constructor, and the resolution of the next step
  (\<open>runner.py\<close>, and \<open>_validate_goto\<close> of the runtime for commands).
\<close>

subsection \<open>Transitions and steps\<close>

datatype transition =
    StrictTransition string
  | RuleBasedTransition string "string dict"
  | BoundedRoutingTransition "string list"

text \<open>The dataclass constructors normalise the step references.\<close>

definition strict_transition :: "string \<Rightarrow> transition" where
  "strict_transition next_step = StrictTransition (normalize_step_ref next_step)"

definition rule_based_transition :: "string \<Rightarrow> string dict \<Rightarrow> transition" where
  "rule_based_transition router mapping =
     RuleBasedTransition router (map (\<lambda>(key, value). (key, normalize_step_ref value)) mapping)"

definition bounded_routing_transition :: "string list \<Rightarrow> transition" where
  "bounded_routing_transition allowed = BoundedRoutingTransition (map normalize_step_ref allowed)"

definition mode_of :: "transition \<Rightarrow> determinism_mode" where
  "mode_of t =
     (case t of
        StrictTransition _ \<Rightarrow> STRICT
      | RuleBasedTransition _ _ \<Rightarrow> RULE_BASED
      | BoundedRoutingTransition _ \<Rightarrow> BOUNDED_ROUTING)"

datatype executor = ToolExec tool | AgentExec agent

record step =
  sd_name :: string
  sd_executor :: executor
  sd_required_artifacts :: "string list"
  sd_emitted_artifact :: "string option"
  sd_approval_override :: "bool option"
  sd_transition :: "transition option"
  sd_mode :: "determinism_mode option"

definition new_step ::
  "string \<Rightarrow> tool option \<Rightarrow> agent option \<Rightarrow> string list \<Rightarrow> string option \<Rightarrow> bool option \<Rightarrow> exn + step" where
  "new_step name tool agent required emitted override =
     (let make = (\<lambda>x. \<lparr>sd_name = name, sd_executor = x, sd_required_artifacts = required,
                        sd_emitted_artifact = emitted, sd_approval_override = override,
                        sd_transition = None, sd_mode = None\<rparr>)
      in case (tool, agent) of
           (Some t, None) \<Rightarrow> Inr (make (ToolExec t))
         | (None, Some a) \<Rightarrow> Inr (make (AgentExec a))
         | _ \<Rightarrow> Inl (Exn ValueError ''Step must have exactly one of tool or agent''))"

definition then_step :: "string \<Rightarrow> step \<Rightarrow> step" where
  "then_step next_step s =
     s\<lparr>sd_transition := Some (strict_transition next_step), sd_mode := Some STRICT\<rparr>"

definition then_end :: "step \<Rightarrow> step" where
  "then_end s = s\<lparr>sd_transition := Some (strict_transition END_STEP), sd_mode := Some STRICT\<rparr>"

definition branch :: "string \<Rightarrow> string dict \<Rightarrow> step \<Rightarrow> step" where
  "branch router mapping s =
     s\<lparr>sd_transition := Some (rule_based_transition router mapping), sd_mode := Some RULE_BASED\<rparr>"

definition route_to :: "string list \<Rightarrow> step \<Rightarrow> step" where
  "route_to allowed s =
     s\<lparr>sd_transition := Some (bounded_routing_transition allowed), sd_mode := Some BOUNDED_ROUTING\<rparr>"

definition executor_name :: "executor \<Rightarrow> string" where
  "executor_name x = (case x of ToolExec t \<Rightarrow> t_name t | AgentExec a \<Rightarrow> a_name a)"

definition executor_capabilities :: "executor \<Rightarrow> string list" where
  "executor_capabilities x = (case x of ToolExec t \<Rightarrow> t_capabilities t | AgentExec a \<Rightarrow> a_capabilities a)"

definition executor_side_effect :: "executor \<Rightarrow> bool" where
  "executor_side_effect x = (case x of ToolExec t \<Rightarrow> t_side_effect t | AgentExec a \<Rightarrow> a_side_effect a)"

definition executor_requires_approval :: "executor \<Rightarrow> bool" where
  "executor_requires_approval x =
     (case x of ToolExec t \<Rightarrow> t_requires_approval t | AgentExec a \<Rightarrow> a_requires_approval a)"

definition executor_placement :: "executor \<Rightarrow> placement" where
  "executor_placement x = (case x of ToolExec t \<Rightarrow> t_placement t | AgentExec a \<Rightarrow> a_placement a)"

text \<open>\<open>candidate.agent is not None and candidate.agent.name == name\<close>\<close>

definition runs_agent :: "step \<Rightarrow> string \<Rightarrow> bool" where
  "runs_agent s name = (case sd_executor s of AgentExec a \<Rightarrow> a_name a = name | ToolExec _ \<Rightarrow> False)"

subsection \<open>WorkflowMeta\<close>

record workflow_class =
  wc_name :: string
  wc_steps :: "step dict"
  wc_entry :: "string option"

fun add_declared :: "step dict \<Rightarrow> step dict \<Rightarrow> exn + step dict" where
  "add_declared [] steps = Inr steps"
| "add_declared ((step_name, s) # declared) steps =
     (if dhas steps step_name
      then Inl (Exn WorkflowDefinitionError (''Duplicate step name: '' @ step_name))
      else add_declared declared (dset step_name s steps))"

fun check_configured :: "step dict \<Rightarrow> exn + unit" where
  "check_configured [] = Inr ()"
| "check_configured ((step_name, s) # rest) =
     (if sd_transition s = None
      then Inl (Exn WorkflowDefinitionError
             (''Step '' @ step_name @ '' missing transition configuration''))
      else if sd_mode s = None
      then Inl (Exn WorkflowDefinitionError (''Step '' @ step_name @ '' missing determinism mode''))
      else check_configured rest)"

definition unknown_ref :: "string list \<Rightarrow> string list \<Rightarrow> string option" where
  "unknown_ref names refs = List.find (\<lambda>r. r \<noteq> END_STEP \<and> r \<notin> set names) refs"

definition check_transition :: "string list \<Rightarrow> string \<Rightarrow> transition option \<Rightarrow> exn + unit" where
  "check_transition names step_name t =
     (let bad = (\<lambda>msg r. Inl (Exn WorkflowDefinitionError (''Step '' @ step_name @ msg @ r)))
      in case t of
           None \<Rightarrow> Inr ()
         | Some (StrictTransition next_step) \<Rightarrow>
             (case unknown_ref names [next_step] of
                None \<Rightarrow> Inr () | Some r \<Rightarrow> bad '' references unknown next step '' r)
         | Some (RuleBasedTransition _ mapping) \<Rightarrow>
             (case unknown_ref names (dvalues mapping) of
                None \<Rightarrow> Inr () | Some r \<Rightarrow> bad '' branch maps to unknown step '' r)
         | Some (BoundedRoutingTransition allowed) \<Rightarrow>
             (case unknown_ref names allowed of
                None \<Rightarrow> Inr () | Some r \<Rightarrow> bad '' routing allows unknown step '' r))"

fun check_transitions :: "string list \<Rightarrow> step dict \<Rightarrow> exn + unit" where
  "check_transitions names [] = Inr ()"
| "check_transitions names ((step_name, s) # rest) =
     (case check_transition names step_name (sd_transition s) of
        Inl e \<Rightarrow> Inl e
      | Inr _ \<Rightarrow> check_transitions names rest)"

text \<open>\<open>bases\<close> are the step tables of the base classes, \<open>declared\<close> the step attributes of the class
  body in order, \<open>entry_step\<close> its attribute of that name.\<close>

definition define_workflow ::
  "string \<Rightarrow> step dict list \<Rightarrow> step list \<Rightarrow> string option \<Rightarrow> exn + workflow_class" where
  "define_workflow name bases declared entry_step =
     (let inherited = fold (\<lambda>b d. dmerge d b) bases [];
          declared_steps = fold (\<lambda>s. dset (sd_name s) s) declared []
      in if declared_steps = [] \<and> inherited = []
         then Inr \<lparr>wc_name = name, wc_steps = [], wc_entry = None\<rparr>
         else
           (case add_declared declared_steps inherited of
              Inl e \<Rightarrow> Inl e
            | Inr steps \<Rightarrow>
           (case check_configured steps of
              Inl e \<Rightarrow> Inl e
            | Inr _ \<Rightarrow>
           (case check_transitions (dkeys steps) steps of
              Inl e \<Rightarrow> Inl e
            | Inr _ \<Rightarrow>
                (let entry = (case entry_step of None \<Rightarrow> hd (dkeys steps) | Some e \<Rightarrow> e)
                 in if \<not> dhas steps entry
                    then Inl (Exn WorkflowDefinitionError (''Entry step '' @ entry @ '' not found''))
                    else Inr \<lparr>wc_name = name, wc_steps = steps, wc_entry = Some entry\<rparr>)))))"

subsection \<open>Workflow instances\<close>

record workflow =
  wf_name :: string
  wf_steps :: "step dict"
  wf_entry :: "string option"
  wf_tools :: tool_registry
  wf_agents :: agent_registry

definition entry_step_name :: "workflow \<Rightarrow> exn + string" where
  "entry_step_name w =
     (case wf_entry w of
        None \<Rightarrow> Inl (Exn WorkflowDefinitionError ''Workflow has no entry step'')
      | Some e \<Rightarrow> Inr e)"

definition get_step :: "workflow \<Rightarrow> string \<Rightarrow> exn + step" where
  "get_step w name =
     (case dget (wf_steps w) name of
        None \<Rightarrow> Inl (Exn StepNotFoundError (''Step not found: '' @ name))
      | Some s \<Rightarrow> Inr s)"

definition register_executor :: "step \<Rightarrow> (tool_registry \<times> agent_registry, unit) py" where
  "register_executor s =
     (case sd_executor s of
        ToolExec t \<Rightarrow>
          bnd (gets (\<lambda>(g, _). has_tool g (t_name t))) (\<lambda>known.
          perform (\<not> known) (zoom fst (\<lambda>g (_, h). (g, h)) (register_tool t)))
      | AgentExec a \<Rightarrow>
          bnd (gets (\<lambda>(_, h). has_agent h (a_name a))) (\<lambda>known.
          perform (\<not> known) (zoom snd (\<lambda>h (g, _). (g, h)) (register_agent a))))"

definition register_step_executors :: "step dict \<Rightarrow> (tool_registry \<times> agent_registry, unit) py" where
  "register_step_executors steps = each register_executor (dvalues steps)"

definition register_skill_tool :: "tool \<Rightarrow> (tool_registry, unit) py" where
  "register_skill_tool t =
     bnd (gets (\<lambda>g. has_tool g (t_name t))) (\<lambda>known. perform (\<not> known) (register_tool t))"

text \<open>The constructor up to the containment check, which the runtime makes.\<close>

definition new_workflow ::
  "workflow_class \<Rightarrow> tool_registry \<Rightarrow> agent_registry \<Rightarrow> skill list \<Rightarrow> exn + workflow" where
  "new_workflow c tools agents skills =
     (case sq (register_step_executors (wc_steps c))
              (zoom fst (\<lambda>g (_, h). (g, h))
                 (each (\<lambda>s. each register_skill_tool (skill_list s)) skills)) (tools, agents) of
        (Inl e, _) \<Rightarrow> Inl e
      | (Inr _, (tools', agents')) \<Rightarrow>
          Inr \<lparr>wf_name = wc_name c, wf_steps = wc_steps c, wf_entry = wc_entry c,
               wf_tools = tools', wf_agents = agents'\<rparr>)"

subsection \<open>Resolution of the next step\<close>

definition illegal :: "string \<Rightarrow> exn + 'a" where
  "illegal txt = Inl (Exn IllegalTransitionError txt)"

definition no_get :: "json \<Rightarrow> exn + 'a" where
  "no_get v = Inl (Exn AttributeError
     (quoted (type_name v) @ '' object has no attribute '' @ quoted ''get''))"

definition payload_get :: "json \<Rightarrow> string \<Rightarrow> exn + json" where
  "payload_get payload key = (case payload of JObj d \<Rightarrow> Inr (dget_or d key JNull) | v \<Rightarrow> no_get v)"

definition check_handoff :: "step \<Rightarrow> step dict \<Rightarrow> string option \<Rightarrow> string \<Rightarrow> exn + string" where
  "check_handoff s steps handoff next_step =
     (case handoff of
        None \<Rightarrow> Inr next_step
      | Some agent \<Rightarrow>
          if next_step = END_STEP
          then illegal (''Agent step '' @ sd_name s @ '' proposed handoff to '' @ agent @
                 '' but transition ended'')
          else
            (case dget steps next_step of
               Some candidate \<Rightarrow>
                 if runs_agent candidate agent then Inr next_step
                 else illegal (''Agent handoff target '' @ agent @
                        '' does not match workflow next step '' @ next_step)
             | None \<Rightarrow> Inl (Exn KeyError next_step)))"

definition proposed_step :: "step \<Rightarrow> json \<Rightarrow> exn + string" where
  "proposed_step s output_payload =
     (case (sd_transition s, sd_mode s) of
        (Some t, Some mode) \<Rightarrow>
          (case (mode, t) of
             (STRICT, StrictTransition next_step) \<Rightarrow> Inr next_step
           | (RULE_BASED, RuleBasedTransition router mapping) \<Rightarrow>
               (case payload_get output_payload router of
                  Inl e \<Rightarrow> Inl e
                | Inr JNull \<Rightarrow> Inl (Exn BranchResolutionError
                    (''Step '' @ sd_name s @ '' missing router field '' @ quoted router))
                | Inr v \<Rightarrow>
                    (case dget mapping (py_str v) of
                       None \<Rightarrow> Inl (Exn BranchResolutionError
                         (''Step '' @ sd_name s @ '' has no branch mapping for value '' @ quoted (py_str v)))
                     | Some mapped \<Rightarrow> Inr mapped))
           | (BOUNDED_ROUTING, BoundedRoutingTransition allowed) \<Rightarrow>
               (case payload_get output_payload ''next_step'' of
                  Inl e \<Rightarrow> Inl e
                | Inr (JStr p) \<Rightarrow>
                    (let proposed = normalize_step_ref p
                     in if proposed \<in> set allowed then Inr proposed
                        else Inl (Exn RoutingResolutionError
                          (''Step '' @ sd_name s @ '' proposed illegal next step '' @ quoted proposed)))
                | Inr _ \<Rightarrow> Inl (Exn RoutingResolutionError
                    (''Step '' @ sd_name s @ '' requires '' @ quoted ''next_step'' @
                     '' string for bounded routing'')))
           | _ \<Rightarrow> Inl (Exn AssertionError []))
      | _ \<Rightarrow> illegal (''Step '' @ sd_name s @ '' has no transition configured''))"

definition resolve_next_step :: "step \<Rightarrow> json \<Rightarrow> step dict \<Rightarrow> string option \<Rightarrow> exn + string" where
  "resolve_next_step s output_payload steps handoff =
     (case proposed_step s output_payload of
        Inl e \<Rightarrow> Inl e
      | Inr next_step \<Rightarrow>
          if next_step \<noteq> END_STEP \<and> \<not> dhas steps next_step
          then illegal (''Step '' @ sd_name s @ '' resolved unknown next step '' @ next_step)
          else check_handoff s steps handoff next_step)"

definition goto_targets :: "step \<Rightarrow> exn + string list" where
  "goto_targets s =
     (case (sd_transition s, sd_mode s) of
        (Some t, Some mode) \<Rightarrow>
          (case (mode, t) of
             (STRICT, StrictTransition next_step) \<Rightarrow> Inr [next_step]
           | (RULE_BASED, RuleBasedTransition _ mapping) \<Rightarrow> Inr (dvalues mapping)
           | (BOUNDED_ROUTING, BoundedRoutingTransition allowed) \<Rightarrow> Inr allowed
           | _ \<Rightarrow> Inl (Exn AssertionError []))
      | _ \<Rightarrow> illegal (''Step '' @ sd_name s @ '' has no transition configured''))"

definition validate_goto :: "workflow \<Rightarrow> step \<Rightarrow> string \<Rightarrow> string option \<Rightarrow> exn + string" where
  "validate_goto w s proposed_next handoff =
     (let next_step = normalize_step_ref proposed_next
      in case goto_targets s of
           Inl e \<Rightarrow> Inl e
         | Inr allowed \<Rightarrow>
             if next_step \<notin> set allowed
             then illegal (''Step '' @ sd_name s @ '' command goto '' @ quoted next_step @
                    '' violates determinism constraints'')
             else if next_step \<noteq> END_STEP \<and> \<not> dhas (wf_steps w) next_step
             then illegal (''Step '' @ sd_name s @ '' goto resolved unknown step '' @ next_step)
             else check_handoff s (wf_steps w) handoff next_step)"

definition resolve_next_step_for_step ::
  "workflow \<Rightarrow> step \<Rightarrow> json \<Rightarrow> string option \<Rightarrow> command option \<Rightarrow> exn + string" where
  "resolve_next_step_for_step w s output_payload handoff cmd =
     (case cmd of
        Some c \<Rightarrow>
          (case cmd_goto c of
             Some target \<Rightarrow> validate_goto w s target handoff
           | None \<Rightarrow> resolve_next_step s output_payload (wf_steps w) handoff)
      | None \<Rightarrow> resolve_next_step s output_payload (wf_steps w) handoff)"

subsection \<open>Every resolved step is a declared one\<close>

definition declared_targets :: "step \<Rightarrow> string list" where
  "declared_targets s =
     (case sd_transition s of
        None \<Rightarrow> []
      | Some (StrictTransition next_step) \<Rightarrow> [next_step]
      | Some (RuleBasedTransition _ mapping) \<Rightarrow> dvalues mapping
      | Some (BoundedRoutingTransition allowed) \<Rightarrow> allowed)"

definition legal_target :: "workflow \<Rightarrow> step \<Rightarrow> string option \<Rightarrow> string \<Rightarrow> bool" where
  "legal_target w s handoff n \<longleftrightarrow>
     n \<in> set (declared_targets s) \<and> (n = END_STEP \<or> dhas (wf_steps w) n) \<and>
     (\<forall>agent. handoff = Some agent \<longrightarrow>
        n \<noteq> END_STEP \<and> (\<exists>c. dget (wf_steps w) n = Some c \<and> runs_agent c agent))"

lemma check_handoff_Inr:
  "check_handoff s steps handoff n = Inr m \<longleftrightarrow>
     m = n \<and> (\<forall>agent. handoff = Some agent \<longrightarrow>
        n \<noteq> END_STEP \<and> (\<exists>c. dget steps n = Some c \<and> runs_agent c agent))"
  by (auto simp: check_handoff_def illegal_def split: option.splits)

lemma dget_dvalues: "dget d k = Some v \<Longrightarrow> v \<in> set (dvalues d)"
  by (force simp: dvalues_def dest: map_of_SomeD)

lemma proposed_step_declared: "proposed_step s out = Inr n \<Longrightarrow> n \<in> set (declared_targets s)"
  by (auto simp: proposed_step_def declared_targets_def illegal_def Let_def
      intro: dget_dvalues
      split: option.splits determinism_mode.splits transition.splits sum.splits json.splits if_splits)

lemma goto_targets_declared: "goto_targets s = Inr ts \<Longrightarrow> ts = declared_targets s"
  by (auto simp: goto_targets_def declared_targets_def illegal_def
      split: option.splits determinism_mode.splits transition.splits)

lemma resolved_legal:
  "resolve_next_step_for_step w s out handoff cmd = Inr n \<Longrightarrow> legal_target w s handoff n"
  by (auto simp: resolve_next_step_for_step_def resolve_next_step_def validate_goto_def legal_target_def
      check_handoff_Inr illegal_def Let_def dest: proposed_step_declared goto_targets_declared
      split: option.splits sum.splits if_splits)

subsection \<open>What a created workflow class satisfies\<close>

definition class_ok :: "workflow_class \<Rightarrow> bool" where
  "class_ok c \<longleftrightarrow>
     (wc_steps c = [] \<longleftrightarrow> wc_entry c = None) \<and>
     (\<forall>e. wc_entry c = Some e \<longrightarrow> dhas (wc_steps c) e) \<and>
     (\<forall>(n, s) \<in> set (wc_steps c).
        sd_transition s \<noteq> None \<and> sd_mode s \<noteq> None \<and>
        (\<forall>t \<in> set (declared_targets s). t = END_STEP \<or> dhas (wc_steps c) t))"

lemma unknown_ref_None:
  "unknown_ref names refs = None \<longleftrightarrow> (\<forall>r \<in> set refs. r = END_STEP \<or> r \<in> set names)"
  by (auto simp: unknown_ref_def find_None_iff)

lemma check_configured_Inr:
  "check_configured steps = Inr u \<longleftrightarrow>
     (\<forall>(n, s) \<in> set steps. sd_transition s \<noteq> None \<and> sd_mode s \<noteq> None)"
  by (induction steps rule: check_configured.induct) auto

lemma check_transition_Inr:
  "check_transition names n (sd_transition s) = Inr u \<longleftrightarrow>
     (\<forall>t \<in> set (declared_targets s). t = END_STEP \<or> t \<in> set names)"
proof -
  have "check_transition names n (sd_transition s) = Inr u \<longleftrightarrow> unknown_ref names (declared_targets s) = None"
    by (auto simp: check_transition_def declared_targets_def Let_def unknown_ref_def [of names "[]"]
        split: option.splits transition.splits)
  then show ?thesis by (simp add: unknown_ref_None)
qed

lemma check_transitions_Inr:
  "check_transitions names steps = Inr u \<longleftrightarrow>
     (\<forall>(n, s) \<in> set steps. \<forall>t \<in> set (declared_targets s). t = END_STEP \<or> t \<in> set names)"
proof (induction names steps rule: check_transitions.induct)
  case (2 names n s rest)
  then show ?case
    using check_transition_Inr [of names n s "()"]
    by (cases "check_transition names n (sd_transition s)") auto
qed simp

lemma define_workflow_ok:
  assumes "define_workflow name bases declared entry_step = Inr c"
  shows "class_ok c"
proof -
  let ?inh = "fold (\<lambda>b d. dmerge d b) bases []" and ?decl = "fold (\<lambda>s. dset (sd_name s) s) declared []"
  consider (empty) "c = \<lparr>wc_name = name, wc_steps = [], wc_entry = None\<rparr>"
    | (steps) steps e where "c = \<lparr>wc_name = name, wc_steps = steps, wc_entry = Some e\<rparr>"
        "dhas steps e" "check_configured steps = Inr ()"
        "check_transitions (dkeys steps) steps = Inr ()"
    using assms unfolding define_workflow_def Let_def
    by (auto split: if_splits sum.splits option.splits)
  then show ?thesis
  proof cases
    case empty
    then show ?thesis by (simp add: class_ok_def)
  next
    case steps
    then have "steps \<noteq> []" by (auto simp: dhas_def)
    with steps show ?thesis
      by (auto simp: class_ok_def check_configured_Inr check_transitions_Inr dhas_iff dkeys_def)
  qed
qed

end
