(* ===== verification/Remote.thy ===== *)
theory Remote
  imports Agents
begin

section \<open>Remote execution (\<open>governai/extensions/remote.py\<close>)\<close>

text \<open>
  The requests and responses of the remote execution boundary, with the shape checks of their
  Pydantic models. The adapter itself is the deployment's: a parameter, whose answer to a call may
  depend on the number of calls made before.
\<close>

record remote_failure =
  rf_code :: string
  rf_message :: string
  rf_details :: "json dict"

record remote_tool_request =
  tq_run_id :: string
  tq_workflow_name :: string
  tq_step_name :: string
  tq_executor_name :: string
  tq_executor_type :: string
  tq_input_payload :: json
  tq_artifacts :: "json dict"
  tq_channels :: "json dict"
  tq_metadata :: "json dict"
  tq_tool_kind :: string
  tq_command :: "string list option"
  tq_timeout_seconds :: "int option"
  tq_capabilities :: "string list"
  tq_side_effect :: bool
  tq_requires_approval :: bool

record remote_tool_response =
  ts_output_payload :: "json option"
  ts_error :: "remote_failure option"

record remote_agent_request =
  aq_run_id :: string
  aq_workflow_name :: string
  aq_step_name :: string
  aq_executor_name :: string
  aq_input_payload :: json
  aq_artifacts :: "json dict"
  aq_channels :: "json dict"
  aq_metadata :: "json dict"
  aq_instruction :: string
  aq_allowed_tools :: "string list"
  aq_allowed_handoffs :: "string list"
  aq_max_tool_calls :: int
  aq_tool_calls_used :: int
  aq_resume_tool_name :: "string option"
  aq_resume_tool_result :: "json option"

datatype remote_status = RFinal | RHandoff | RNeedsApproval | RFailed | RToolCall

fun remote_status_value :: "remote_status \<Rightarrow> string" where
  "remote_status_value RFinal = ''final''"
| "remote_status_value RHandoff = ''handoff''"
| "remote_status_value RNeedsApproval = ''needs_approval''"
| "remote_status_value RFailed = ''failed''"
| "remote_status_value RToolCall = ''tool_call''"

record remote_agent_response =
  rr_status :: remote_status
  rr_output_payload :: "json option"
  rr_next_agent :: "string option"
  rr_reason :: "string option"
  rr_tool_call :: "(string \<times> json) option"
  rr_error :: "remote_failure option"

subsection \<open>Shape checks\<close>

definition check_tool_response :: "remote_tool_response \<Rightarrow> string + remote_tool_response" where
  "check_tool_response r =
     (if ts_error r = None \<and> ts_output_payload r = None
      then Inl ''successful remote tool response requires output_payload''
      else if ts_error r \<noteq> None \<and> ts_output_payload r \<noteq> None
      then Inl ''remote tool response cannot contain both output_payload and error''
      else Inr r)"

definition check_agent_request :: "remote_agent_request \<Rightarrow> string + remote_agent_request" where
  "check_agent_request q =
     (if (aq_resume_tool_name q = None) \<noteq> (aq_resume_tool_result q = None)
      then Inl ''resume_tool_name and resume_tool_result must be provided together''
      else Inr q)"

definition check_agent_response :: "remote_agent_response \<Rightarrow> string + remote_agent_response" where
  "check_agent_response r =
     (if rr_error r \<noteq> None \<and> rr_status r \<noteq> RFailed
      then Inl ''remote agent error payload requires failed status''
      else if rr_status r = RFinal \<and> rr_output_payload r = None
      then Inl ''final remote agent response requires output_payload''
      else if rr_status r = RHandoff \<and> absent (rr_next_agent r)
      then Inl ''handoff remote agent response requires next_agent''
      else if rr_status r \<in> {RFailed, RNeedsApproval} \<and> absent (rr_reason r) \<and> rr_error r = None
      then Inl (remote_status_value (rr_status r) @ '' remote agent response requires reason'')
      else if rr_status r = RToolCall \<and> rr_tool_call r = None
      then Inl ''tool_call remote agent response requires requested_tool_call''
      else Inr r)"

lemma check_tool_response_Inr:
  "check_tool_response r = Inr r' \<longleftrightarrow> r' = r \<and> (ts_error r = None) \<noteq> (ts_output_payload r = None)"
  by (auto simp: check_tool_response_def)

lemma check_agent_response_Inr:
  "check_agent_response r = Inr r' \<longleftrightarrow>
     r' = r \<and> (rr_error r = None \<or> rr_status r = RFailed) \<and>
     (case rr_status r of
        RFinal \<Rightarrow> rr_output_payload r \<noteq> None
      | RHandoff \<Rightarrow> \<not> absent (rr_next_agent r)
      | RNeedsApproval \<Rightarrow> \<not> absent (rr_reason r)
      | RFailed \<Rightarrow> \<not> absent (rr_reason r) \<or> rr_error r \<noteq> None
      | RToolCall \<Rightarrow> rr_tool_call r \<noteq> None)"
  by (cases "rr_status r") (auto simp: check_agent_response_def)

subsection \<open>The adapter\<close>

record adapter =
  ax_tool :: "nat \<Rightarrow> remote_tool_request \<Rightarrow> exn + remote_tool_response"
  ax_agent :: "nat \<Rightarrow> remote_agent_request \<Rightarrow> exn + remote_agent_response"

subsection \<open>The HTTP adapter\<close>

text \<open>
  \<open>HTTPSandboxExecutionAdapter\<close>. The HTTP client is a parameter: method, URL, body and headers to a
  failure (message, status code, body) or the body of an accepted response; so are \<open>json.loads\<close> and
  the decoding of a response object into the fields of its model (the shape checks above are then
  applied). The dumps of the two requests are the parameters \<open>tool_body\<close> and \<open>agent_body\<close>.
\<close>

type_synonym http = "string \<Rightarrow> string \<Rightarrow> json option \<Rightarrow> string dict \<Rightarrow> string + string"

definition rstrip_slash :: "string \<Rightarrow> string" where
  "rstrip_slash s = rev (dropWhile (\<lambda>c. c = CHR ''/'') (rev s))"

definition new_http_adapter :: "string \<Rightarrow> string \<Rightarrow> exn + (string \<times> string)" where
  "new_http_adapter base_url token =
     (let url = rstrip_slash base_url
      in if url = [] then Inl (Exn ValueError ''base_url must not be empty'')
         else if token = [] then Inl (Exn ValueError ''bearer_token must not be empty'')
         else Inr (url, token))"

definition auth_headers :: "string \<Rightarrow> string dict" where
  "auth_headers token = [(''Authorization'', ''Bearer '' @ token)]"

definition post_json ::
  "http \<Rightarrow> (string \<Rightarrow> json option) \<Rightarrow> string \<Rightarrow> string \<Rightarrow> string \<Rightarrow> json \<Rightarrow> exn + json dict" where
  "post_json http loads base_url token path body =
     (case http ''POST'' (base_url @ path) (Some body) (auth_headers token) of
        Inl msg \<Rightarrow> Inl (Exn (RemoteExecutionError ''http_error'')
          (''Sandbox HTTP request failed for '' @ path @ '': '' @ msg))
      | Inr txt \<Rightarrow>
          (case loads txt of
             None \<Rightarrow> Inl (Exn (RemoteExecutionError ''invalid_json'')
               (''Sandbox returned invalid JSON for '' @ path))
           | Some (JObj d) \<Rightarrow> Inr d
           | Some _ \<Rightarrow> Inl (Exn (RemoteExecutionError ''invalid_payload'')
               (''Sandbox returned non-object JSON for '' @ path))))"

definition http_execute_tool ::
  "http \<Rightarrow> (string \<Rightarrow> json option) \<Rightarrow> (json dict \<Rightarrow> string + remote_tool_response) \<Rightarrow>
   (remote_tool_request \<Rightarrow> json) \<Rightarrow> string \<Rightarrow> string \<Rightarrow> remote_tool_request \<Rightarrow>
   exn + remote_tool_response" where
  "http_execute_tool http loads decode tool_body base_url token request =
     (case post_json http loads base_url token ''/execute/tool'' (tool_body request) of
        Inl e \<Rightarrow> Inl e
      | Inr d \<Rightarrow>
          (case (case decode d of Inl msg \<Rightarrow> Inl msg | Inr r \<Rightarrow> check_tool_response r) of
             Inl _ \<Rightarrow> Inl (Exn (RemoteExecutionError ''invalid_tool_response'')
               ''Sandbox tool response failed validation'')
           | Inr r \<Rightarrow> Inr r))"

definition http_execute_agent ::
  "http \<Rightarrow> (string \<Rightarrow> json option) \<Rightarrow> (json dict \<Rightarrow> string + remote_agent_response) \<Rightarrow>
   (remote_agent_request \<Rightarrow> json) \<Rightarrow> string \<Rightarrow> string \<Rightarrow> remote_agent_request \<Rightarrow>
   exn + remote_agent_response" where
  "http_execute_agent http loads decode agent_body base_url token request =
     (case post_json http loads base_url token ''/execute/agent'' (agent_body request) of
        Inl e \<Rightarrow> Inl e
      | Inr d \<Rightarrow>
          (case (case decode d of Inl msg \<Rightarrow> Inl msg | Inr r \<Rightarrow> check_agent_response r) of
             Inl _ \<Rightarrow> Inl (Exn (RemoteExecutionError ''invalid_agent_response'')
               ''Sandbox agent response failed validation'')
           | Inr r \<Rightarrow> Inr r))"

definition http_health ::
  "http \<Rightarrow> (string \<Rightarrow> json option) \<Rightarrow> string \<Rightarrow> string \<Rightarrow> exn + json dict" where
  "http_health http loads base_url token =
     (case http ''GET'' (base_url @ ''/health'') None (auth_headers token) of
        Inl msg \<Rightarrow> Inl (Exn (RemoteExecutionError ''http_error'') (''Sandbox health check failed: '' @ msg))
      | Inr txt \<Rightarrow>
          (case loads txt of
             None \<Rightarrow> Inl (Exn (RemoteExecutionError ''invalid_json'')
               ''Sandbox health response failed JSON decoding'')
           | Some (JObj d) \<Rightarrow> Inr d
           | Some _ \<Rightarrow> Inl (Exn (RemoteExecutionError ''invalid_payload'')
               ''Sandbox health response must be an object'')))"

lemma http_execute_tool_shape:
  "http_execute_tool http loads decode body url token q = Inr r \<Longrightarrow>
   (ts_error r = None) \<noteq> (ts_output_payload r = None)"
  by (auto simp: http_execute_tool_def check_tool_response_Inr split: sum.splits)

lemma http_execute_agent_shape:
  "http_execute_agent http loads decode body url token q = Inr r \<Longrightarrow> check_agent_response r = Inr r"
  by (auto simp: http_execute_agent_def check_agent_response_Inr split: sum.splits)

end
