(* ===== verification/World.thy ===== *)
theory World
  imports Run_Store Thread_Store Interrupts Secrets Policies Reducers Workflows Remote
begin

section \<open>The runtime's configuration and state\<close>

text \<open>
  \<open>config\<close> holds what \<open>LocalRuntime.__init__\<close> fixes: the policy engine, reducers, containment
  mode, remote adapter, interrupt limits, secrets provider, and the Pydantic functions the runtime
  calls. \<open>world\<close> holds what changes: the cache of run states, the run, interrupt, thread and memory
  stores, the secret registry, the events emitted so far, and the sources of time and of fresh
  identifiers. A run state is one object shared by the cache and the runtime, so the model reads and
  writes it in the cache under its run id.
\<close>

subsection \<open>Configuration\<close>

datatype containment_mode = LocalDev | StrictRemote

datatype channel_reducer = NamedReducer string | CallableReducer reducer

record config =
  cfg_policy_engine :: policy_engine
  cfg_reducer_registry :: reducer_registry
  cfg_channel_reducers :: "channel_reducer dict"
  cfg_channel_defaults :: "json dict"
  cfg_containment :: containment_mode
  cfg_adapter :: "adapter option"
  cfg_max_pending :: int
  cfg_default_ttl :: int
  cfg_secrets_provider :: "(string \<Rightarrow> exn + string) option"
  cfg_event_dump :: "audit_event \<Rightarrow> string"
  cfg_event_parse :: "string \<Rightarrow> string + audit_event"
  cfg_command_model :: "json \<Rightarrow> string + command"
  cfg_resume_approval_model :: "json \<Rightarrow> string + resume_payload"
  cfg_resume_interrupt_model :: "json \<Rightarrow> string + resume_payload"
  cfg_show_error :: "string \<Rightarrow> string"

text \<open>What the constructor derives from its arguments: the limit is clipped at zero, and grants
  register the capability policy after the policies the engine already has.\<close>

definition init_config :: "int \<Rightarrow> capability_grant list option \<Rightarrow> config \<Rightarrow> config" where
  "init_config interrupt_max_pending grants c =
     (let c1 = c\<lparr>cfg_max_pending := max 0 interrupt_max_pending\<rparr>
      in case grants of
           None \<Rightarrow> c1
         | Some gs \<Rightarrow>
             c1\<lparr>cfg_policy_engine :=
                  register_policy ''capability_policy'' (make_capability_policy gs) None
                    (cfg_policy_engine c1)\<rparr>)"

subsection \<open>State\<close>

record world =
  w_runs :: "run_state dict"
  w_store :: mem_run_store
  w_intr :: mem_interrupts
  w_threads :: thread_store
  w_memory :: mem_store
  w_secrets :: secret_registry
  w_audit :: "audit_event list"
  w_now :: int
  w_fresh :: nat
  w_calls :: nat

definition init_world :: "int \<Rightarrow> world" where
  "init_world now =
     \<lparr>w_runs = [], w_store = empty_run_store, w_intr = empty_interrupts, w_threads = [],
      w_memory = [], w_secrets = [], w_audit = [], w_now = now, w_fresh = 0, w_calls = 0\<rparr>"

type_synonym 'a rt = "(world, 'a) py"

definition run_of :: "world \<Rightarrow> string \<Rightarrow> run_state" where
  "run_of w run_id = the (dget (w_runs w) run_id)"

definition set_run :: "string \<Rightarrow> run_state \<Rightarrow> world \<Rightarrow> world" where
  "set_run run_id s w = w\<lparr>w_runs := dset run_id s (w_runs w)\<rparr>"

text \<open>\<open>str(uuid.uuid4())\<close>: the identifiers drawn are pairwise distinct.\<close>

definition uuid_of :: "nat \<Rightarrow> string" where
  "uuid_of n = ''uuid-'' @ nat_str n"

definition fresh_uuid :: "string rt" where
  "fresh_uuid = (\<lambda>w. (Inr (uuid_of (w_fresh w)), w\<lparr>w_fresh := Suc (w_fresh w)\<rparr>))"

definition now_of :: "int rt" where
  "now_of = gets w_now"

definition state_of :: "string \<Rightarrow> run_state rt" where
  "state_of run_id = gets (\<lambda>w. run_of w run_id)"

text \<open>Every entry point caches the run before it changes it, and nothing removes a run from the cache.\<close>

definition update_state :: "string \<Rightarrow> (run_state \<Rightarrow> run_state) \<Rightarrow> unit rt" where
  "update_state run_id f = modify (\<lambda>w.
     case dget (w_runs w) run_id of None \<Rightarrow> w | Some s \<Rightarrow> set_run run_id (f s) w)"

text \<open>\<open>state.touch()\<close>\<close>

definition touch_state :: "string \<Rightarrow> unit rt" where
  "touch_state run_id = bnd now_of (\<lambda>now. update_state run_id (touch now))"

lemma uuid_inj [simp]: "uuid_of m = uuid_of n \<longleftrightarrow> m = n"
  by (auto simp: uuid_of_def dest: nat_str_inj)

lemma run_of_set_run [simp]: "run_of (set_run r s w) r' = (if r' = r then s else run_of w r')"
  by (simp add: run_of_def set_run_def)

lemma set_run_frame [simp]:
  "w_store (set_run r s w) = w_store w" "w_intr (set_run r s w) = w_intr w"
  "w_threads (set_run r s w) = w_threads w" "w_memory (set_run r s w) = w_memory w"
  "w_secrets (set_run r s w) = w_secrets w" "w_audit (set_run r s w) = w_audit w"
  "w_now (set_run r s w) = w_now w" "w_fresh (set_run r s w) = w_fresh w"
  "w_calls (set_run r s w) = w_calls w"
  by (simp_all add: set_run_def)

subsection \<open>Audit emission (\<open>governai/audit\<close>)\<close>

text \<open>\<open>InMemoryAuditEmitter\<close>, behind \<open>RedactingAuditEmitter\<close> when a secrets provider is given.\<close>

definition append_event :: "audit_event \<Rightarrow> unit rt" where
  "append_event e = modify (\<lambda>w. w\<lparr>w_audit := w_audit w @ [e]\<rparr>)"

definition emitter :: "config \<Rightarrow> audit_event \<Rightarrow> unit rt" where
  "emitter cfg e =
     (if cfg_secrets_provider cfg = None then append_event e
      else bnd (gets w_secrets) (\<lambda>reg.
           bnd (lift_res (redact_event (cfg_event_dump cfg) (cfg_event_parse cfg) reg e)) append_event))"

definition emit_event ::
  "config \<Rightarrow> string \<Rightarrow> string option \<Rightarrow> string \<Rightarrow> event_type \<Rightarrow> string option \<Rightarrow> json dict \<Rightarrow> unit rt" where
  "emit_event cfg run_id thread_id workflow_name ev step_name payload =
     bnd fresh_uuid (\<lambda>event_id.
     bnd now_of (\<lambda>now.
     emitter cfg
       \<lparr>ev_event_id = event_id, ev_timestamp = now, ev_run_id = run_id, ev_thread_id = thread_id,
        ev_workflow_name = workflow_name, ev_step_name = step_name, ev_event_type = ev,
        ev_payload = payload, ev_extensions = []\<rparr>))"

text \<open>The cached state, or the stored one, which is then cached.\<close>

definition known_run :: "string \<Rightarrow> run_state option rt" where
  "known_run run_id = (\<lambda>w.
     case dget (w_runs w) run_id of
       Some s \<Rightarrow> (Inr (Some s), w)
     | None \<Rightarrow>
         (case get (w_store w) run_id of
            None \<Rightarrow> (Inr None, w)
          | Some s \<Rightarrow> (Inr (Some s), set_run run_id s w)))"

text \<open>\<open>LocalRuntime._emit_audit_event\<close>\<close>

definition emit_audit ::
  "config \<Rightarrow> string \<Rightarrow> string \<Rightarrow> event_type \<Rightarrow> string option \<Rightarrow> json dict \<Rightarrow> unit rt" where
  "emit_audit cfg run_id workflow_name ev step_name payload =
     bnd (known_run run_id) (\<lambda>known.
     emit_event cfg run_id (map_option rs_thread_id known) workflow_name ev step_name payload)"

subsection \<open>Relations on worlds\<close>

text \<open>The event log only grows, and every event of the source emitter stays where it is.\<close>

definition audit_grows :: "world \<Rightarrow> world \<Rightarrow> bool" where
  "audit_grows w w' \<longleftrightarrow> prefix (w_audit w) (w_audit w')"

interpretation log_step: step_relation audit_grows
  by unfold_locales (auto simp: audit_grows_def)

text \<open>Fresh identifiers and time never go back.\<close>

definition clock_grows :: "world \<Rightarrow> world \<Rightarrow> bool" where
  "clock_grows w w' \<longleftrightarrow> w_now w \<le> w_now w' \<and> w_fresh w \<le> w_fresh w' \<and> w_calls w \<le> w_calls w'"

interpretation clock_step: step_relation clock_grows
  by unfold_locales (auto simp: clock_grows_def)

end
