(* ===== verification/Context.thy ===== *)
theory Context
  imports World
begin

section \<open>Execution contexts (\<open>runtime/context.py\<close>, \<open>agents/context.py\<close>) and executors\<close>

text \<open>
  What the calls of user code do. \<open>ExecutionContext\<close> copies artifacts and channels when it is
  built; its metadata is the run state's own dictionary, so \<open>set_metadata\<close> writes into the run. A
  tool handler runs under \<open>tool_prog\<close>; an agent handler runs under \<open>agent_prog\<close>, whose context offers
  fewer calls and counts and limits tool calls. \<open>execute_tool\<close> and \<open>execute_agent\<close> are
  \<open>Tool.execute\<close> and \<open>Agent.execute\<close>.
\<close>

subsection \<open>Memory and secrets as the context wires them\<close>

definition put_memory :: "mem_store \<Rightarrow> world \<Rightarrow> world" where
  "put_memory s w = w\<lparr>w_memory := s\<rparr>"

text \<open>The runtime's connector on the whole state; a write reads the clock.\<close>

definition world_memory :: "world memory_ops" where
  "world_memory =
     \<lparr>mo_read = (\<lambda>key scope target. zoom w_memory put_memory (dict_read key scope target)),
      mo_write = (\<lambda>key value scope target.
        bnd now_of (\<lambda>now. zoom w_memory put_memory (dict_write now key value scope target))),
      mo_delete = (\<lambda>key scope target. zoom w_memory put_memory (dict_delete key scope target)),
      mo_search = (\<lambda>query scope target. zoom w_memory put_memory (dict_search query scope target))\<rparr>"

definition emit_memory ::
  "config \<Rightarrow> string \<Rightarrow> string option \<Rightarrow> string \<Rightarrow> event_type \<Rightarrow> json dict \<Rightarrow> unit rt" where
  "emit_memory cfg run_id thread_id workflow_name ev payload =
     emit_event cfg run_id thread_id workflow_name ev None payload"

text \<open>\<open>cx_metadata\<close> names the run whose metadata dictionary the context shares; artifacts and channels
  are copies.\<close>

record exec_context =
  cx_run_id :: string
  cx_workflow_name :: string
  cx_step_name :: string
  cx_artifacts :: "json dict"
  cx_channels :: "json dict"
  cx_thread_id :: "string option"
  cx_metadata :: string

definition context_memory :: "config \<Rightarrow> exec_context \<Rightarrow> world memory_ops" where
  "context_memory cfg cx =
     scoped_ops
       (auditing_ops world_memory
          (emit_memory cfg (cx_run_id cx) (cx_thread_id cx) (cx_workflow_name cx)))
       (cx_run_id cx) (cx_thread_id cx)"

definition resolve_secret :: "config \<Rightarrow> string \<Rightarrow> string rt" where
  "resolve_secret cfg key =
     bnd (lift_res (case cfg_secrets_provider cfg of
            None \<Rightarrow> null_resolve key
          | Some resolve \<Rightarrow> resolve key)) (\<lambda>value.
     sq (modify (\<lambda>w. w\<lparr>w_secrets := registry_add (w_secrets w) value\<rparr>)) (ret value))"

definition require_artifact :: "exec_context \<Rightarrow> string \<Rightarrow> exn + json" where
  "require_artifact cx key =
     (case dget (cx_artifacts cx) key of
        None \<Rightarrow> Inl (Exn KeyError (''Missing artifact: '' @ key))
      | Some v \<Rightarrow> Inr v)"

definition set_metadata :: "string \<Rightarrow> string \<Rightarrow> json \<Rightarrow> unit rt" where
  "set_metadata run_id key value =
     update_state run_id (\<lambda>s. s\<lparr>rs_metadata := dset key value (rs_metadata s)\<rparr>)"

definition get_metadata :: "string \<Rightarrow> string \<Rightarrow> json \<Rightarrow> json rt" where
  "get_metadata run_id key dflt = gets (\<lambda>w. dget_or (rs_metadata (run_of w run_id)) key dflt)"

definition no_attribute :: "string \<Rightarrow> string \<Rightarrow> exn" where
  "no_attribute cls name =
     Exn AttributeError (quoted cls @ '' object has no attribute '' @ quoted name)"

definition elapse :: "nat \<Rightarrow> unit rt" where
  "elapse n = modify (\<lambda>w. w\<lparr>w_now := w_now w + int n\<rparr>)"

subsection \<open>Tool handlers\<close>

primrec tool_prog :: "config \<Rightarrow> exec_context \<Rightarrow> 'r prog \<Rightarrow> 'r rt" where
  "tool_prog cfg cx (Return r) = ret r"
| "tool_prog cfg cx (Throw e) = raise e"
| "tool_prog cfg cx (Elapse n p) = sq (elapse n) (tool_prog cfg cx p)"
| "tool_prog cfg cx (GetArtifact key dflt f) =
     tool_prog cfg cx (f (Inr (artifacts_get (cx_artifacts cx) key dflt)))"
| "tool_prog cfg cx (RequireArtifact key f) = tool_prog cfg cx (f (require_artifact cx key))"
| "tool_prog cfg cx (ArtifactsSnapshot f) = tool_prog cfg cx (f (Inr (cx_artifacts cx)))"
| "tool_prog cfg cx (GetChannel key dflt f) =
     tool_prog cfg cx (f (Inr (dget_or (cx_channels cx) key dflt)))"
| "tool_prog cfg cx (ChannelsSnapshot f) = tool_prog cfg cx (f (Inr (cx_channels cx)))"
| "tool_prog cfg cx (SetMetadata key value f) =
     attempt (set_metadata (cx_metadata cx) key value) (\<lambda>r. tool_prog cfg cx (f r))"
| "tool_prog cfg cx (GetMetadata key dflt f) =
     attempt (get_metadata (cx_metadata cx) key dflt) (\<lambda>r. tool_prog cfg cx (f r))"
| "tool_prog cfg cx (ResolveSecret key f) =
     attempt (resolve_secret cfg key) (\<lambda>r. tool_prog cfg cx (f r))"
| "tool_prog cfg cx (MemoryRead key scope target f) =
     attempt (mo_read (context_memory cfg cx) key scope target) (\<lambda>r. tool_prog cfg cx (f r))"
| "tool_prog cfg cx (MemoryWrite key value scope target f) =
     attempt (mo_write (context_memory cfg cx) key value scope target) (\<lambda>r. tool_prog cfg cx (f r))"
| "tool_prog cfg cx (MemoryDelete key scope target f) =
     attempt (mo_delete (context_memory cfg cx) key scope target) (\<lambda>r. tool_prog cfg cx (f r))"
| "tool_prog cfg cx (MemorySearch query scope target f) =
     attempt (mo_search (context_memory cfg cx) query scope target) (\<lambda>r. tool_prog cfg cx (f r))"
| "tool_prog cfg cx (UseTool name payload f) =
     tool_prog cfg cx (f (Inl (no_attribute ''ExecutionContext'' ''use_tool'')))"
| "tool_prog cfg cx (ToolCallsUsed f) =
     tool_prog cfg cx (f (Inl (no_attribute ''ExecutionContext'' ''tool_calls_used'')))"

text \<open>\<open>Tool.execute\<close>\<close>

definition execute_tool :: "config \<Rightarrow> exec_context \<Rightarrow> tool \<Rightarrow> json \<Rightarrow> py_value rt" where
  "execute_tool cfg cx t data =
     (case t_input_model t data of
        Inl msg \<Rightarrow> raise (Exn ToolValidationError
          (''Input validation failed for '' @ t_name t @ '': '' @ msg))
      | Inr validated_input \<Rightarrow>
          bnd (tryc (tool_prog cfg cx (t_handler t validated_input))
                 (\<lambda>e. if is_tool_error (eclass e) then raise e
                      else raise (Exn ToolExecutionError
                        (''Execution failed for '' @ t_name t @ '': '' @ exn_str e)))) (\<lambda>output.
          case t_output_model t output of
            Inl msg \<Rightarrow> raise (Exn ToolValidationError
              (''Output validation failed for '' @ t_name t @ '': '' @ msg))
          | Inr v \<Rightarrow> ret v))"

subsection \<open>Agent handlers\<close>

record agent_context =
  acx_base :: exec_context
  acx_allowed_tools :: "string list"
  acx_max_tool_calls :: int

definition use_tool_check :: "agent_context \<Rightarrow> nat \<Rightarrow> string \<Rightarrow> exn + unit" where
  "use_tool_check acx used name =
     (if name \<notin> set (acx_allowed_tools acx)
      then Inl (Exn AgentToolNotAllowedError
             (''Agent step '' @ cx_step_name (acx_base acx) @ '' cannot call tool '' @ name))
      else if int used \<ge> acx_max_tool_calls acx
      then Inl (Exn AgentLimitExceededError
             (''Agent step '' @ cx_step_name (acx_base acx) @ '' exceeded max_tool_calls='' @
              int_str (acx_max_tool_calls acx)))
      else Inr ())"

definition no_agent_attribute :: "string \<Rightarrow> exn + 'a" where
  "no_agent_attribute name = Inl (no_attribute ''AgentExecutionContext'' name)"

text \<open>\<open>used\<close> is the number of tool calls made so far; it goes up before the call is made. The result
  comes with the final count.\<close>

primrec agent_prog ::
  "agent_context \<Rightarrow> (string \<Rightarrow> json \<Rightarrow> json rt) \<Rightarrow> 'r prog \<Rightarrow> nat \<Rightarrow> ('r \<times> nat) rt" where
  "agent_prog acx call (Return r) used = ret (r, used)"
| "agent_prog acx call (Throw e) used = raise e"
| "agent_prog acx call (Elapse n p) used = sq (elapse n) (agent_prog acx call p used)"
| "agent_prog acx call (GetArtifact key dflt f) used =
     agent_prog acx call (f (Inr (artifacts_get (cx_artifacts (acx_base acx)) key dflt))) used"
| "agent_prog acx call (RequireArtifact key f) used =
     agent_prog acx call (f (no_agent_attribute ''require_artifact'')) used"
| "agent_prog acx call (ArtifactsSnapshot f) used =
     agent_prog acx call (f (Inr (cx_artifacts (acx_base acx)))) used"
| "agent_prog acx call (GetChannel key dflt f) used =
     agent_prog acx call (f (no_agent_attribute ''get_channel'')) used"
| "agent_prog acx call (ChannelsSnapshot f) used =
     agent_prog acx call (f (no_agent_attribute ''channels_snapshot'')) used"
| "agent_prog acx call (SetMetadata key value f) used =
     attempt (set_metadata (cx_metadata (acx_base acx)) key value)
       (\<lambda>r. agent_prog acx call (f r) used)"
| "agent_prog acx call (GetMetadata key dflt f) used =
     agent_prog acx call (f (no_agent_attribute ''get_metadata'')) used"
| "agent_prog acx call (ResolveSecret key f) used =
     agent_prog acx call (f (no_agent_attribute ''resolve_secret'')) used"
| "agent_prog acx call (MemoryRead key scope target f) used =
     agent_prog acx call (f (no_agent_attribute ''memory'')) used"
| "agent_prog acx call (MemoryWrite key value scope target f) used =
     agent_prog acx call (f (no_agent_attribute ''memory'')) used"
| "agent_prog acx call (MemoryDelete key scope target f) used =
     agent_prog acx call (f (no_agent_attribute ''memory'')) used"
| "agent_prog acx call (MemorySearch query scope target f) used =
     agent_prog acx call (f (no_agent_attribute ''memory'')) used"
| "agent_prog acx call (UseTool name payload f) used =
     (case use_tool_check acx used name of
        Inl e \<Rightarrow> agent_prog acx call (f (Inl e)) used
      | Inr _ \<Rightarrow> attempt (call name payload) (\<lambda>r. agent_prog acx call (f r) (Suc used)))"
| "agent_prog acx call (ToolCallsUsed f) used = agent_prog acx call (f (Inr used)) used"

text \<open>\<open>Agent.execute\<close>\<close>

definition execute_agent ::
  "config \<Rightarrow> agent_context \<Rightarrow> (string \<Rightarrow> json \<Rightarrow> json rt) \<Rightarrow> agent \<Rightarrow> json \<Rightarrow> agent_result rt" where
  "execute_agent cfg acx call a data =
     (case a_input_model a data of
        Inl msg \<Rightarrow> raise (Exn AgentExecutionError
          (''Agent input validation failed for '' @ a_name a @ '': '' @ msg))
      | Inr validated_input \<Rightarrow>
          bnd fresh_uuid (\<lambda>task_id.
          let task = \<lparr>at_task_id = task_id, at_goal = a_instruction a,
                      at_input_payload = validated_input,
                      at_context_artifacts = cx_artifacts (acx_base acx)\<rparr>
          in bnd (agent_prog acx call (a_handler a task) 0) (\<lambda>(raw, used).
          case result_model (cfg_show_error cfg) raw of
            Inl msg \<Rightarrow> raise (Exn AgentExecutionError
              (''Agent returned invalid AgentResult for '' @ a_name a @ '': '' @ msg))
          | Inr r \<Rightarrow>
              bnd (if ag_status r = Final
                   then (case a_output_model a (case ag_output_payload r of None \<Rightarrow> JNull | Some p \<Rightarrow> p) of
                           Inl msg \<Rightarrow> raise (Exn AgentExecutionError
                             (''Agent output validation failed for '' @ a_name a @ '': '' @ msg))
                         | Inr out \<Rightarrow> ret (r\<lparr>ag_output_payload := Some out\<rparr>))
                   else ret r) (\<lambda>result.
              if ag_status result = Handoff \<and> ag_next_agent result \<notin> Some ` set (a_allowed_handoffs a)
              then raise (Exn AgentExecutionError
                (''Agent '' @ a_name a @ '' attempted disallowed handoff to '' @
                 (case ag_next_agent result of None \<Rightarrow> ''None'' | Some n \<Rightarrow> n)))
              else if int used > a_max_tool_calls a
              then raise (Exn AgentExecutionError
                (''Agent '' @ a_name a @ '' exceeded max_tool_calls='' @ int_str (a_max_tool_calls a)))
              else ret result))))"

subsection \<open>The memory of a context keeps the connector's contract\<close>

definition world_view :: "world \<Rightarrow> memory_scope \<Rightarrow> string \<Rightarrow> string \<Rightarrow> json option" where
  "world_view w = dict_view (w_memory w)"

lemma put_memory_memory [simp]: "w_memory (put_memory s w) = s"
  by (simp add: put_memory_def)

text \<open>Without redaction an event is always accepted: it is appended, and nothing else changes but
  the identifier source.\<close>

lemma emit_event_plain:
  "cfg_secrets_provider cfg = None \<Longrightarrow>
   emit_event cfg r th wn ev st p w =
     (Inr (), w\<lparr>w_fresh := Suc (w_fresh w),
        w_audit := w_audit w @
          [\<lparr>ev_event_id = uuid_of (w_fresh w), ev_timestamp = w_now w, ev_run_id = r,
            ev_thread_id = th, ev_workflow_name = wn, ev_step_name = st, ev_event_type = ev,
            ev_payload = p, ev_extensions = []\<rparr>]\<rparr>)"
  by (simp add: emit_event_def emitter_def append_event_def fresh_uuid_def now_of_def py_simps)

interpretation wmem: memory_connector world_memory world_view
proof
  fix k sc t w q v
  show "\<exists>e w'. mo_read world_memory k sc t w = (Inr e, w') \<and> world_view w' = world_view w \<and>
      map_option me_value e = world_view w sc (target_key t) k"
    using dict.read_ok [where k = k and sc = sc and t = t and w = "w_memory w"]
    by (auto simp: world_memory_def world_view_def dict_ops_def py_simps)
  show "\<exists>w'. mo_write world_memory k v sc t w = (Inr (), w') \<and>
      world_view w' = upd_view sc (target_key t) k (Some v) (world_view w)"
    using dict.write_ok [where now = "w_now w" and k = k and v = v and sc = sc and t = t and w = "w_memory w"]
    by (auto simp: world_memory_def world_view_def dict_ops_def py_simps now_of_def)
  show "\<exists>w'. mo_delete world_memory k sc t w = (Inr (), w') \<and>
      world_view w' = upd_view sc (target_key t) k None (world_view w)"
    if "world_view w sc (target_key t) k \<noteq> None"
    using that dict.delete_ok [where w = "w_memory w" and sc = sc and t = t and k = k]
    by (auto simp: world_memory_def world_view_def dict_ops_def py_simps)
  show "\<exists>w'. mo_delete world_memory k sc t w = (Inl (Exn KeyError k), w') \<and>
      world_view w' = world_view w"
    if "world_view w sc (target_key t) k = None"
    using that dict.delete_missing [where w = "w_memory w" and sc = sc and t = t and k = k]
    by (auto simp: world_memory_def world_view_def dict_ops_def py_simps)
  show "world_view (snd (mo_search world_memory q sc t w)) = world_view w"
    using dict.search_frame [where q = q and sc = sc and t = t and w = "w_memory w"]
    by (simp add: world_memory_def world_view_def dict_ops_def py_simps split_beta)
qed

text \<open>The emitter of a runtime without redaction, as a total function of the configuration: with a
  redacting one an operation can fail after it took effect.\<close>

definition without_redaction :: "config \<Rightarrow> config" where
  "without_redaction cfg = cfg\<lparr>cfg_secrets_provider := None\<rparr>"

interpretation amem: audited_memory world_memory world_view
  "emit_memory (without_redaction cfg) run_id thread_id workflow_name"
  for cfg run_id thread_id workflow_name
  by unfold_locales
    (simp add: emit_memory_def emit_event_plain without_redaction_def world_view_def)

end
