(* ===== verification/Runtime.thy ===== *)
theory Runtime
  imports Context
begin

section \<open>The runtime's building blocks (\<open>runtime/local.py\<close>, \<open>approvals/engine.py\<close>)\<close>

text \<open>
  The private methods of \<open>LocalRuntime\<close> below the execution loop: loading and persisting a run
  state, approvals, policy evaluation, execution of tools and agents here or through the remote
  adapter, channel updates, transition events. A run is named by its id; its state object is the one
  in the cache.
\<close>

subsection \<open>Approvals\<close>

definition create_request ::
  "string \<Rightarrow> string \<Rightarrow> string \<Rightarrow> string \<Rightarrow> string option \<Rightarrow> approval_request rt" where
  "create_request run_id workflow_name step_name name reason =
     bnd fresh_uuid (\<lambda>request_id.
     bnd now_of (\<lambda>now.
     ret \<lparr>ar_request_id = request_id, ar_run_id = run_id, ar_workflow_name = workflow_name,
          ar_step_name = step_name, ar_executor_name = name, ar_reason = reason,
          ar_created_at = now, ar_metadata = []\<rparr>))"

definition normalize_decision :: "int \<Rightarrow> decision_input \<Rightarrow> exn + approval_decision" where
  "normalize_decision now d =
     (let plain = (\<lambda>t. \<lparr>ad_decision = t, ad_decided_by = None, ad_reason = None, ad_decided_at = now\<rparr>)
      in case d of
           Decided x \<Rightarrow> Inr x
         | DecisionText s \<Rightarrow>
             (let lowered = strip (lower s)
              in if lowered = ''approve'' then Inr (plain APPROVE)
                 else if lowered = ''reject'' then Inr (plain REJECT)
                 else Inl (Exn ValueError
                   (''Approval decision must be '' @ quoted ''approve'' @ '' or '' @ quoted ''reject''))))"

subsection \<open>Loading and persisting\<close>

definition load_state :: "string \<Rightarrow> unit rt" where
  "load_state run_id =
     bnd (known_run run_id) (\<lambda>known.
     case known of
       None \<Rightarrow> raise (Exn KeyError (''Unknown run_id: '' @ run_id))
     | Some _ \<Rightarrow> ret ())"

definition emit_run :: "config \<Rightarrow> string \<Rightarrow> event_type \<Rightarrow> string option \<Rightarrow> json dict \<Rightarrow> unit rt" where
  "emit_run cfg r ev step_name payload =
     bnd (state_of r) (\<lambda>s. emit_audit cfg r (rs_workflow_name s) ev step_name payload)"

definition put_store :: "mem_run_store \<Rightarrow> world \<Rightarrow> world" where
  "put_store st w = w\<lparr>w_store := st\<rparr>"

text \<open>\<open>run_store.put(state)\<close>: the store numbers the write in the state object itself.\<close>

definition store_put :: "string \<Rightarrow> unit rt" where
  "store_put r = (\<lambda>w.
     case dget (w_runs w) r of
       None \<Rightarrow> (Inr (), w)
     | Some state \<Rightarrow>
         (case put (uuid_of (w_fresh w)) state (w_store w) of
            Inl e \<Rightarrow> (Inl e, w)
          | Inr (s, st) \<Rightarrow> (Inr (), (set_run r s (put_store st w))\<lparr>w_fresh := Suc (w_fresh w)\<rparr>)))"

definition register_active_run :: "string \<Rightarrow> unit rt" where
  "register_active_run r =
     bnd (state_of r) (\<lambda>s. modify (\<lambda>w. put_store (set_active_run_id (rs_thread_id s) r (w_store w)) w))"

definition clear_active_run :: "string \<Rightarrow> unit rt" where
  "clear_active_run r =
     bnd (state_of r) (\<lambda>s. modify (\<lambda>w. put_store (clear_active_run_id (rs_thread_id s) r (w_store w)) w))"

definition terminal :: "run_status \<Rightarrow> bool" where
  "terminal st \<longleftrightarrow> st \<in> {COMPLETED, FAILED}"

definition checkpoint_payload :: "run_state \<Rightarrow> json dict" where
  "checkpoint_payload s =
     [(''checkpoint_id'', opt_json (rs_checkpoint_id s)),
      (''parent_checkpoint_id'', opt_json (rs_parent_checkpoint_id s)),
      (''thread_id'', JStr (rs_thread_id s))]"

text \<open>The checkpoint of the previous write becomes the parent of the new one.\<close>

definition write_state :: "string \<Rightarrow> unit rt" where
  "write_state r =
     sq (update_state r (\<lambda>s. s\<lparr>rs_parent_checkpoint_id := rs_checkpoint_id s, rs_checkpoint_id := None\<rparr>))
        (store_put r)"

definition persist_state :: "config \<Rightarrow> string \<Rightarrow> unit rt" where
  "persist_state cfg r =
     sq (write_state r)
    (bnd (state_of r) (\<lambda>s.
     sq (emit_run cfg r CHECKPOINT_WRITTEN (rs_current_step s) (checkpoint_payload s))
        (bnd (state_of r) (\<lambda>s'. perform (terminal (rs_status s')) (clear_active_run r)))))"

subsection \<open>Approved steps\<close>

definition hashable :: "json \<Rightarrow> bool" where
  "hashable v = (case v of JList _ \<Rightarrow> False | JObj _ \<Rightarrow> False | _ \<Rightarrow> True)"

text \<open>\<open>set(v)\<close>, as a list of its elements.\<close>

fun py_set :: "json \<Rightarrow> exn + json list" where
  "py_set (JList xs) =
     (case List.find (\<lambda>x. \<not> hashable x) xs of
        Some x \<Rightarrow> Inl (Exn TypeError (''unhashable type: '' @ quoted (type_name x)))
      | None \<Rightarrow> Inr xs)"
| "py_set (JStr t) = Inr (map (\<lambda>c. JStr [c]) t)"
| "py_set (JObj d) = Inr (map JStr (dkeys d))"
| "py_set v = Inl (Exn TypeError (quoted (type_name v) @ '' object is not iterable''))"

text \<open>\<open>set(state.metadata.get("approved_steps", []))\<close>; user code can store anything there.\<close>

definition approved_steps :: "run_state \<Rightarrow> exn + json list" where
  "approved_steps s = py_set (dget_or (rs_metadata s) ''approved_steps'' (JList []))"

fun json_texts :: "json list \<Rightarrow> string list option" where
  "json_texts [] = Some []"
| "json_texts (JStr s # xs) = map_option (\<lambda>ss. s # ss) (json_texts xs)"
| "json_texts (_ # xs) = None"

text \<open>\<open>sorted\<close> of a set with a text in it.\<close>

definition sorted_steps :: "json list \<Rightarrow> exn + json" where
  "sorted_steps xs =
     (case json_texts xs of
        Some ss \<Rightarrow> Inr (JList (map JStr (sorted_set ss)))
      | None \<Rightarrow> Inl (Exn TypeError (quoted ''<'' @ '' not supported between instances'')))"

definition requires_approval :: "step \<Rightarrow> run_state \<Rightarrow> exn + bool" where
  "requires_approval st s =
     (case approved_steps s of
        Inl e \<Rightarrow> Inl e
      | Inr approved \<Rightarrow>
          Inr (if JStr (sd_name st) \<in> set approved then False
               else case sd_approval_override st of
                      Some b \<Rightarrow> b
                    | None \<Rightarrow> executor_requires_approval (sd_executor st)))"

subsection \<open>Policies\<close>

definition policy_ctx ::
  "workflow \<Rightarrow> string \<Rightarrow> string \<Rightarrow> string list \<Rightarrow> bool \<Rightarrow> bool \<Rightarrow> run_state \<Rightarrow> policy_context" where
  "policy_ctx wk step_name name capabilities side_effect nested s =
     \<lparr>pc_workflow_name = wf_name wk, pc_step_name = step_name, pc_tool_name = name,
      pc_capabilities = capabilities, pc_side_effect = side_effect,
      pc_artifacts = rs_artifacts s, pc_pending_approval = rs_pending_approval s \<noteq> None,
      pc_metadata = (if nested then dset ''nested'' (JBool True) (rs_metadata s) else rs_metadata s)\<rparr>"

definition evaluate_policy ::
  "config \<Rightarrow> string \<Rightarrow> string \<Rightarrow> policy_context \<Rightarrow> string \<times> policy \<Rightarrow> unit rt" where
  "evaluate_policy cfg r step_name ctx np =
     (case np of (name, p) \<Rightarrow>
        (let d = run_policy_isolated p ctx name
         in sq (emit_run cfg r POLICY_CHECKED (Some step_name)
                  [(''policy'', JStr name), (''allow'', JBool (pd_allow d)),
                   (''reason'', opt_json (pd_reason d)),
                   (''requires_approval'', JBool (pd_requires_approval d))])
               (perform (\<not> pd_allow d)
                  (sq (emit_run cfg r POLICY_DENIED (Some step_name)
                         [(''policy'', JStr name), (''reason'', opt_json (pd_reason d))])
                      (raise (denied name d))))))"

definition evaluate_policies ::
  "config \<Rightarrow> workflow \<Rightarrow> string \<Rightarrow> string \<Rightarrow> policy_context \<Rightarrow> unit rt" where
  "evaluate_policies cfg wk r step_name ctx =
     each (evaluate_policy cfg r step_name ctx) (policies_for (cfg_policy_engine cfg) (wf_name wk))"

subsection \<open>Commands and channels\<close>

definition extract_command :: "config \<Rightarrow> py_value \<Rightarrow> exn + (json \<times> command option)" where
  "extract_command cfg output =
     (let or_empty = (\<lambda>v. if v = JNull then JObj [] else v)
      in case output of
           Plain JNull \<Rightarrow> Inr (JObj [], None)
         | CommandObj c \<Rightarrow> Inr (or_empty (cmd_output c), Some c)
         | Plain (JObj d) \<Rightarrow>
             (if dget d ''__command__'' = Some (JBool True)
              then (case cfg_command_model cfg (dget_or d ''command'' (JObj [])) of
                      Inl msg \<Rightarrow> Inl (Exn ValidationError msg)
                    | Inr c \<Rightarrow> Inr (or_empty (dget_or d ''output'' (cmd_output c)), Some c))
              else Inr (JObj d, None))
         | v \<Rightarrow> Inr (to_payload v, None))"

definition channel_reducer_of :: "config \<Rightarrow> string \<Rightarrow> exn + reducer" where
  "channel_reducer_of cfg channel =
     (case dget_or (cfg_channel_reducers cfg) channel (NamedReducer ''replace'') of
        CallableReducer red \<Rightarrow> Inr red
      | NamedReducer name \<Rightarrow> resolve_reducer (cfg_reducer_registry cfg) name)"

definition update_channel :: "config \<Rightarrow> string \<Rightarrow> string \<times> json \<Rightarrow> unit rt" where
  "update_channel cfg r kv =
     (case kv of (channel, value) \<Rightarrow>
        bnd (lift_res (channel_reducer_of cfg channel)) (\<lambda>red.
        bnd (state_of r) (\<lambda>s.
        bnd (lift_res (red (dget_or (rs_channels s) channel JNull) value)) (\<lambda>v.
        update_state r (\<lambda>s. s\<lparr>rs_channels := dset channel v (rs_channels s)\<rparr>)))))"

definition apply_state_update :: "config \<Rightarrow> string \<Rightarrow> json dict \<Rightarrow> unit rt" where
  "apply_state_update cfg r update = each (update_channel cfg r) update"

subsection \<open>Tools\<close>

definition should_execute_remotely :: "config \<Rightarrow> string \<Rightarrow> placement \<Rightarrow> exn + bool" where
  "should_execute_remotely cfg name p =
     (case p of
        RemoteOnly \<Rightarrow> Inr True
      | LocalOrRemote \<Rightarrow> Inr (cfg_containment cfg = StrictRemote)
      | LocalOnly \<Rightarrow>
          if cfg_containment cfg = StrictRemote
          then Inl (Exn ContainmentPolicyError
                 (''Executable '' @ name @ '' is local_only in strict_remote mode''))
          else Inr False)"

definition require_adapter :: "config \<Rightarrow> exn + adapter" where
  "require_adapter cfg =
     (case cfg_adapter cfg of
        None \<Rightarrow> Inl (Exn ContainmentPolicyError ''remote_execution_adapter is required for remote execution'')
      | Some a \<Rightarrow> Inr a)"

text \<open>A call of the adapter: it counts, and the response object it builds is shape-checked.\<close>

definition count_call :: "nat rt" where
  "count_call = (\<lambda>w. (Inr (w_calls w), w\<lparr>w_calls := Suc (w_calls w)\<rparr>))"

definition remote_call ::
  "config \<Rightarrow> (nat \<Rightarrow> 'q \<Rightarrow> exn + 'a) \<Rightarrow> ('a \<Rightarrow> string + 'a) \<Rightarrow> 'q \<Rightarrow> 'a rt" where
  "remote_call cfg f check q =
     bnd count_call (\<lambda>n.
     lift_res (case f n q of
       Inl e \<Rightarrow> Inl e
     | Inr resp \<Rightarrow>
         (case check resp of
            Inl msg \<Rightarrow> Inl (Exn ValidationError (cfg_show_error cfg msg))
          | Inr resp' \<Rightarrow> Inr resp')))"

definition tool_request :: "run_state \<Rightarrow> string \<Rightarrow> tool \<Rightarrow> json \<Rightarrow> remote_tool_request" where
  "tool_request s step_name t input =
     \<lparr>tq_run_id = rs_run_id s, tq_workflow_name = rs_workflow_name s, tq_step_name = step_name,
      tq_executor_name = t_remote_name t, tq_executor_type = t_executor_type t,
      tq_input_payload = input, tq_artifacts = rs_artifacts s, tq_channels = rs_channels s,
      tq_metadata = rs_metadata s, tq_tool_kind = t_executor_type t, tq_command = t_command t,
      tq_timeout_seconds = t_timeout_seconds t, tq_capabilities = t_capabilities t,
      tq_side_effect = t_side_effect t, tq_requires_approval = t_requires_approval t\<rparr>"

definition or_empty_payload :: "json option \<Rightarrow> json" where
  "or_empty_payload p = (case p of None \<Rightarrow> JObj [] | Some v \<Rightarrow> if truthy v then v else JObj [])"

definition execute_tool_remote :: "config \<Rightarrow> string \<Rightarrow> string \<Rightarrow> tool \<Rightarrow> json \<Rightarrow> py_value rt" where
  "execute_tool_remote cfg r step_name t payload =
     bnd (lift_res (require_adapter cfg)) (\<lambda>adapter.
     case t_input_model t payload of
       Inl msg \<Rightarrow> raise (Exn ToolValidationError
         (''Input validation failed for '' @ t_name t @ '': '' @ msg))
     | Inr validated_input \<Rightarrow>
         bnd (state_of r) (\<lambda>s.
         if t_executor_type t \<notin> {''python'', ''cli''}
         then raise (Exn ValidationError
                (cfg_show_error cfg (''Input should be '' @ quoted ''python'' @ '' or '' @ quoted ''cli'')))
         else
         bnd (remote_call cfg (ax_tool adapter) check_tool_response
                (tool_request s step_name t validated_input)) (\<lambda>response.
         case ts_error response of
           Some err \<Rightarrow> raise (Exn (RemoteExecutionError (rf_code err))
             (''Remote tool execution failed for '' @ t_name t @ '': '' @ rf_message err))
         | None \<Rightarrow>
             (case t_output_model t (Plain (or_empty_payload (ts_output_payload response))) of
                Inl msg \<Rightarrow> raise (Exn ToolValidationError
                  (''Output validation failed for '' @ t_name t @ '': '' @ msg))
              | Inr v \<Rightarrow> ret v))))"

definition make_context :: "string \<Rightarrow> string \<Rightarrow> exec_context rt" where
  "make_context r step_name =
     bnd (state_of r) (\<lambda>s.
     ret \<lparr>cx_run_id = rs_run_id s, cx_workflow_name = rs_workflow_name s, cx_step_name = step_name,
          cx_artifacts = rs_artifacts s, cx_channels = rs_channels s,
          cx_thread_id = Some (rs_thread_id s), cx_metadata = r\<rparr>)"

text \<open>\<open>_execute_tool\<close>; \<open>nested\<close> is \<open>event_prefix == "agent_tool"\<close>.\<close>

definition run_tool ::
  "config \<Rightarrow> string \<Rightarrow> string \<Rightarrow> bool \<Rightarrow> tool \<Rightarrow> json \<Rightarrow> (json \<times> command option) rt" where
  "run_tool cfg r step_name nested t payload =
     (let event = (\<lambda>tool_ev agent_ev.
            emit_run cfg r (if nested then agent_ev else tool_ev) (Some step_name)
              [(''tool_name'', JStr (t_name t))])
      in sq (event TOOL_EXECUTION_STARTED AGENT_TOOL_CALL_STARTED)
        (bnd (make_context r step_name) (\<lambda>cx.
         bnd (on_error
               (bnd (lift_res (should_execute_remotely cfg (t_name t) (t_placement t))) (\<lambda>remote.
                if remote then execute_tool_remote cfg r step_name t payload
                else execute_tool cfg cx t payload))
               (\<lambda>_. event TOOL_EXECUTION_FAILED AGENT_TOOL_CALL_FAILED)) (\<lambda>output.
         bnd (lift_res (extract_command cfg output)) (\<lambda>(payload_out, cmd).
         sq (event TOOL_EXECUTION_COMPLETED AGENT_TOOL_CALL_COMPLETED)
            (ret (payload_out, cmd)))))))"

definition execute_named_tool ::
  "config \<Rightarrow> workflow \<Rightarrow> string \<Rightarrow> string \<Rightarrow> string \<Rightarrow> json \<Rightarrow> json rt" where
  "execute_named_tool cfg wk r step_name name payload =
     bnd (lift_res (get_tool (wf_tools wk) name)) (\<lambda>t.
     bnd (state_of r) (\<lambda>s.
     sq (evaluate_policies cfg wk r step_name
           (policy_ctx wk step_name (t_name t) (t_capabilities t) (t_side_effect t) True s))
        (if t_requires_approval t
         then raise (Exn ApprovalRequiredError (''Approval required for nested tool call '' @ t_name t))
         else bnd (run_tool cfg r step_name True t payload) (\<lambda>(payload_out, cmd).
              if cmd \<noteq> None
              then raise (Exn AgentExecutionError
                     (''Nested tool call '' @ t_name t @ '' cannot return runtime command''))
              else ret payload_out))))"

subsection \<open>Agents\<close>

definition agent_request ::
  "run_state \<Rightarrow> string \<Rightarrow> agent \<Rightarrow> json \<Rightarrow> int \<Rightarrow> (string \<times> json) option \<Rightarrow> remote_agent_request" where
  "agent_request s step_name a input used resume =
     \<lparr>aq_run_id = rs_run_id s, aq_workflow_name = rs_workflow_name s, aq_step_name = step_name,
      aq_executor_name = a_remote_name a, aq_input_payload = input, aq_artifacts = rs_artifacts s,
      aq_channels = rs_channels s, aq_metadata = rs_metadata s, aq_instruction = a_instruction a,
      aq_allowed_tools = a_allowed_tools a, aq_allowed_handoffs = a_allowed_handoffs a,
      aq_max_tool_calls = a_max_tool_calls a, aq_tool_calls_used = used,
      aq_resume_tool_name = map_option fst resume, aq_resume_tool_result = map_option snd resume\<rparr>"

type_synonym agent_outcome = "json \<times> string option \<times> command option"

text \<open>The part of a remote turn after the tool-call, approval and failure responses.\<close>

definition finish_remote_agent ::
  "config \<Rightarrow> workflow \<Rightarrow> string \<Rightarrow> string \<Rightarrow> agent \<Rightarrow> remote_agent_response \<Rightarrow> agent_outcome rt" where
  "finish_remote_agent cfg wk r step_name a response =
     bnd (let payload_out = or_empty_payload (rr_output_payload response)
          in if rr_status response = RFinal
             then (case a_output_model a payload_out of
                     Inl msg \<Rightarrow> raise (Exn AgentExecutionError
                       (''Agent output validation failed for '' @ a_name a @ '': '' @ msg))
                   | Inr out \<Rightarrow> ret out)
             else ret payload_out) (\<lambda>payload_out.
     bnd (lift_res (extract_command cfg (Plain payload_out))) (\<lambda>(output_payload, cmd).
     case (if rr_status response = RHandoff then rr_next_agent response else None) of
       None \<Rightarrow> ret (output_payload, None, cmd)
     | Some target \<Rightarrow>
         if target \<notin> set (a_allowed_handoffs a)
         then raise (Exn AgentExecutionError
                (''Remote agent '' @ a_name a @ '' attempted disallowed handoff to '' @ target))
         else
           sq (emit_run cfg r AGENT_HANDOFF_PROPOSED (Some step_name)
                 [(''agent_name'', JStr (a_name a)), (''next_agent'', JStr target)])
           (if \<not> has_agent (wf_agents wk) target
            then sq (emit_run cfg r AGENT_HANDOFF_REJECTED (Some step_name)
                       [(''next_agent'', JStr target), (''reason'', JStr ''unknown agent'')])
                    (raise (Exn AgentExecutionError (''Unknown handoff target agent: '' @ target)))
            else ret (output_payload, Some target, cmd))))"

text \<open>One turn; \<open>call\<close> is what an allowlisted tool call does.\<close>

definition remote_agent_turn ::
  "config \<Rightarrow> workflow \<Rightarrow> string \<Rightarrow> string \<Rightarrow> agent \<Rightarrow> adapter \<Rightarrow> json \<Rightarrow> int \<Rightarrow> (string \<times> json) option \<Rightarrow>
   (string \<Rightarrow> json \<Rightarrow> agent_outcome rt) \<Rightarrow> agent_outcome rt" where
  "remote_agent_turn cfg wk r step_name a adapter input used resume call =
     bnd (state_of r) (\<lambda>s.
     bnd (remote_call cfg (ax_agent adapter) check_agent_response
            (agent_request s step_name a input used resume)) (\<lambda>response.
     case rr_error response of
       Some err \<Rightarrow> raise (Exn AgentExecutionError
         (''Remote agent execution failed for '' @ a_name a @ '': '' @ rf_message err))
     | None \<Rightarrow>
         (case rr_status response of
            RToolCall \<Rightarrow>
              (case rr_tool_call response of
                 None \<Rightarrow> raise (Exn AssertionError [])
               | Some (name, payload) \<Rightarrow>
                   if name \<notin> set (a_allowed_tools a)
                   then raise (Exn AgentExecutionError
                          (''Remote agent '' @ a_name a @ '' requested disallowed tool '' @ name))
                   else call name payload)
          | RNeedsApproval \<Rightarrow> raise (Exn ApprovalRequiredError
              (or_else (rr_reason response) (''Agent '' @ a_name a @ '' requested approval'')))
          | RFailed \<Rightarrow> raise (Exn AgentExecutionError
              (or_else (rr_reason response) (''Agent '' @ a_name a @ '' failed'')))
          | _ \<Rightarrow> finish_remote_agent cfg wk r step_name a response)))"

text \<open>The loop. Its first argument is the number of tool calls left,
  \<open>max_tool_calls - tool_calls_used\<close>: the test \<open>tool_calls_used >= max_tool_calls\<close> holds when it
  is zero.\<close>

primrec remote_agent_turns ::
  "nat \<Rightarrow> config \<Rightarrow> workflow \<Rightarrow> string \<Rightarrow> string \<Rightarrow> agent \<Rightarrow> adapter \<Rightarrow> json \<Rightarrow> int \<Rightarrow>
   (string \<times> json) option \<Rightarrow> agent_outcome rt" where
  "remote_agent_turns 0 cfg wk r step_name a adapter input used resume =
     remote_agent_turn cfg wk r step_name a adapter input used resume
       (\<lambda>_ _. raise (Exn AgentExecutionError
          (''Remote agent '' @ a_name a @ '' exceeded max_tool_calls='' @ int_str (a_max_tool_calls a))))"
| "remote_agent_turns (Suc left) cfg wk r step_name a adapter input used resume =
     remote_agent_turn cfg wk r step_name a adapter input used resume
       (\<lambda>name payload.
          bnd (execute_named_tool cfg wk r step_name name payload) (\<lambda>result.
          remote_agent_turns left cfg wk r step_name a adapter input (used + 1)
            (Some (name, result))))"

definition execute_agent_remote ::
  "config \<Rightarrow> workflow \<Rightarrow> string \<Rightarrow> string \<Rightarrow> agent \<Rightarrow> json \<Rightarrow> agent_outcome rt" where
  "execute_agent_remote cfg wk r step_name a payload =
     bnd (lift_res (require_adapter cfg)) (\<lambda>adapter.
     case a_input_model a payload of
       Inl msg \<Rightarrow> raise (Exn AgentExecutionError
         (''Agent input validation failed for '' @ a_name a @ '': '' @ msg))
     | Inr input \<Rightarrow>
         remote_agent_turns (nat (a_max_tool_calls a)) cfg wk r step_name a adapter input 0 None)"

text \<open>The part of \<open>_execute_agent\<close> after a local agent has returned.\<close>

definition finish_agent ::
  "config \<Rightarrow> workflow \<Rightarrow> string \<Rightarrow> string \<Rightarrow> agent \<Rightarrow> agent_result \<Rightarrow> agent_outcome rt" where
  "finish_agent cfg wk r step_name a result =
     (if ag_status result = NeedsApproval
      then raise (Exn ApprovalRequiredError
             (or_else (ag_reason result) (''Agent '' @ a_name a @ '' requested approval'')))
      else if ag_status result = Failed
      then raise (Exn AgentExecutionError
             (or_else (ag_reason result) (''Agent '' @ a_name a @ '' failed'')))
      else
        bnd (lift_res (extract_command cfg (Plain (or_empty_payload (ag_output_payload result)))))
          (\<lambda>(output_payload, cmd).
        let target = (if ag_status result = Handoff then ag_next_agent result else None)
        in sq (perform (ag_status result = Handoff)
                (sq (emit_run cfg r AGENT_HANDOFF_PROPOSED (Some step_name)
                       [(''agent_name'', JStr (a_name a)), (''next_agent'', opt_json target)])
                    (case target of
                       None \<Rightarrow> ret ()
                     | Some n \<Rightarrow>
                         perform (n \<noteq> [] \<and> \<not> has_agent (wf_agents wk) n)
                           (sq (emit_run cfg r AGENT_HANDOFF_REJECTED (Some step_name)
                                  [(''next_agent'', JStr n), (''reason'', JStr ''unknown agent'')])
                               (raise (Exn AgentExecutionError
                                  (''Unknown handoff target agent: '' @ n)))))))
          (sq (emit_run cfg r AGENT_COMPLETED (Some step_name)
                 [(''agent_name'', JStr (a_name a)),
                  (''status'', JStr (agent_status_value (ag_status result)))])
              (ret (output_payload, target, cmd)))))"

definition run_agent ::
  "config \<Rightarrow> workflow \<Rightarrow> string \<Rightarrow> string \<Rightarrow> agent \<Rightarrow> json \<Rightarrow> agent_outcome rt" where
  "run_agent cfg wk r step_name a payload =
     (let event = (\<lambda>ev extra. emit_run cfg r ev (Some step_name)
                     ((''agent_name'', JStr (a_name a)) # extra))
      in sq (event AGENT_ENTERED [])
        (bnd (make_context r step_name) (\<lambda>cx.
         let acx = \<lparr>acx_base = cx, acx_allowed_tools = a_allowed_tools a,
                    acx_max_tool_calls = a_max_tool_calls a\<rparr>
         in bnd (on_error
                  (bnd (lift_res (should_execute_remotely cfg (a_name a) (a_placement a))) (\<lambda>remote.
                   if remote
                   then bnd (execute_agent_remote cfg wk r step_name a payload) (\<lambda>out.
                        sq (event AGENT_COMPLETED [(''status'', JStr ''remote'')]) (ret (Inl out)))
                   else bnd (execute_agent cfg acx (execute_named_tool cfg wk r step_name) a payload)
                          (\<lambda>result. ret (Inr result))))
                  (\<lambda>_. event AGENT_FAILED [])) (\<lambda>done.
            case done of
              Inl out \<Rightarrow> ret out
            | Inr result \<Rightarrow> finish_agent cfg wk r step_name a result))))"

subsection \<open>Transition events and containment\<close>

definition emit_transition_events :: "config \<Rightarrow> string \<Rightarrow> string \<Rightarrow> string \<Rightarrow> string option \<Rightarrow> unit rt" where
  "emit_transition_events cfg r step_name next_step handoff =
     sq (case handoff of
           None \<Rightarrow> ret ()
         | Some agent \<Rightarrow> emit_run cfg r AGENT_HANDOFF_ACCEPTED (Some step_name)
             [(''next_agent'', JStr agent), (''next_step'', JStr next_step)])
        (emit_run cfg r TRANSITION_CHOSEN (Some step_name) [(''next_step'', JStr next_step)])"

text \<open>\<open>validate_workflow\<close>: the result of the loops is whether anything may run remotely.\<close>

fun check_allowed_tools :: "config \<Rightarrow> tool_registry \<Rightarrow> string \<Rightarrow> string list \<Rightarrow> exn + bool" where
  "check_allowed_tools cfg g agent_name [] = Inr False"
| "check_allowed_tools cfg g agent_name (name # names) =
     (case get_tool g name of
        Inl e \<Rightarrow> Inl e
      | Inr t \<Rightarrow>
          if cfg_containment cfg = StrictRemote \<and> t_placement t = LocalOnly
          then Inl (Exn ContainmentPolicyError (''Agent '' @ agent_name @
                 '' allowlists local_only tool '' @ t_name t @ '' in strict_remote mode''))
          else map_sum id (\<lambda>rest. t_placement t \<noteq> LocalOnly \<or> rest)
                 (check_allowed_tools cfg g agent_name names))"

fun check_placements :: "config \<Rightarrow> tool_registry \<Rightarrow> step list \<Rightarrow> exn + bool" where
  "check_placements cfg g [] = Inr False"
| "check_placements cfg g (s # rest) =
     (let x = sd_executor s
      in if cfg_containment cfg = StrictRemote \<and> executor_placement x = LocalOnly
         then Inl (Exn ContainmentPolicyError (''Step '' @ sd_name s @ '' executor '' @
                executor_name x @ '' is local_only in strict_remote mode''))
         else
           (case (case x of
                    AgentExec a \<Rightarrow> check_allowed_tools cfg g (a_name a) (a_allowed_tools a)
                  | ToolExec _ \<Rightarrow> Inr False) of
              Inl e \<Rightarrow> Inl e
            | Inr b \<Rightarrow> map_sum id (\<lambda>c. executor_placement x \<noteq> LocalOnly \<or> b \<or> c)
                         (check_placements cfg g rest)))"

definition validate_workflow :: "config \<Rightarrow> workflow \<Rightarrow> exn + unit" where
  "validate_workflow cfg wk =
     (case check_placements cfg (wf_tools wk) (dvalues (wf_steps wk)) of
        Inl e \<Rightarrow> Inl e
      | Inr remote_capable \<Rightarrow>
          if remote_capable \<and> cfg_adapter cfg = None
          then Inl (Exn ContainmentPolicyError
                 ''Remote-capable executors require remote_execution_adapter to be configured'')
          else Inr ())"

definition create_workflow ::
  "config \<Rightarrow> workflow_class \<Rightarrow> tool_registry \<Rightarrow> agent_registry \<Rightarrow> skill list \<Rightarrow> exn + workflow" where
  "create_workflow cfg c tools agents skills =
     (case new_workflow c tools agents skills of
        Inl e \<Rightarrow> Inl e
      | Inr wk \<Rightarrow> map_sum id (\<lambda>_. wk) (validate_workflow cfg wk))"

end
