(* ===== verification/Advance.thy ===== *)
theory Advance
  imports Runtime
begin

section \<open>The execution loop and the entry points (\<open>runtime/local.py\<close>)\<close>

text \<open>
  \<open>advance_step\<close> is the body of the loop of \<open>_advance\<close>: its result is the payload of the next
  iteration, or nothing when the run state is returned. \<open>advance\<close> is the loop; it may run for ever (a
  cyclic workflow), so its value is optional. The entry points follow; each consists of what it does
  before the loop and the loop.
\<close>

subsection \<open>Pieces of the loop body\<close>

definition fail_run :: "config \<Rightarrow> string \<Rightarrow> string \<Rightarrow> exn \<Rightarrow> unit rt" where
  "fail_run cfg r step_name e =
     sq (update_state r (\<lambda>s. s\<lparr>rs_status := FAILED, rs_error := Some (exn_str e)\<rparr>))
    (sq (touch_state r)
    (sq (persist_state cfg r)
        (emit_run cfg r RUN_FAILED (Some step_name) [(''error'', JStr (exn_str e))])))"

definition completed_payload :: "run_state \<Rightarrow> json dict" where
  "completed_payload s = [(''completed_steps'', JList (map JStr (rs_completed_steps s)))]"

definition complete_run :: "config \<Rightarrow> string \<Rightarrow> unit rt" where
  "complete_run cfg r =
     sq (update_state r (\<lambda>s. s\<lparr>rs_current_step := None, rs_status := COMPLETED\<rparr>))
    (sq (touch_state r)
    (sq (persist_state cfg r)
        (bnd (state_of r) (\<lambda>s. emit_run cfg r RUN_COMPLETED None (completed_payload s)))))"

definition await_approval :: "config \<Rightarrow> string \<Rightarrow> step \<Rightarrow> string \<Rightarrow> json \<Rightarrow> unit rt" where
  "await_approval cfg r st reason payload =
     bnd (state_of r) (\<lambda>s.
     bnd (create_request r (rs_workflow_name s) (sd_name st) (executor_name (sd_executor st))
            (Some reason)) (\<lambda>request.
     sq (update_state r (\<lambda>s. s\<lparr>rs_pending_approval := Some request, rs_status := WAITING_APPROVAL,
           rs_metadata := dset ''pending_input'' payload (rs_metadata s)\<rparr>))
    (sq (touch_state r)
    (sq (persist_state cfg r)
        (emit_run cfg r APPROVAL_REQUESTED (Some (sd_name st)) (approval_request_dump request))))))"

fun check_artifacts :: "string \<Rightarrow> json dict \<Rightarrow> string list \<Rightarrow> exn + unit" where
  "check_artifacts step_name artifacts [] = Inr ()"
| "check_artifacts step_name artifacts (required # rest) =
     (if \<not> artifacts_has artifacts required
      then Inl (Exn KeyError
             (''Step '' @ step_name @ '' requires missing artifact '' @ quoted required))
      else check_artifacts step_name artifacts rest)"

text \<open>Approval is used up when the step has run.\<close>

definition consume_approval :: "string \<Rightarrow> string \<Rightarrow> unit rt" where
  "consume_approval r step_name =
     bnd (state_of r) (\<lambda>s.
     bnd (lift_res (approved_steps s)) (\<lambda>approved.
     perform (JStr step_name \<in> set approved)
       (bnd (lift_res (sorted_steps (removeAll (JStr step_name) approved))) (\<lambda>left.
        update_state r (\<lambda>s. s\<lparr>rs_metadata := dset ''approved_steps'' left (rs_metadata s)\<rparr>)))))"

text \<open>The output of the executor, its command, the channels it updates, the recorded artifact.\<close>

definition record_output :: "config \<Rightarrow> string \<Rightarrow> step \<Rightarrow> json \<Rightarrow> command option \<Rightarrow> json rt" where
  "record_output cfg r st output_payload cmd =
     bnd (case cmd of
            None \<Rightarrow> ret output_payload
          | Some c \<Rightarrow>
              sq (apply_state_update cfg r (cmd_state_update c))
                 (ret (if cmd_output c \<noteq> JNull then cmd_output c else output_payload))) (\<lambda>state_output.
     sq (update_state r (\<lambda>s. s\<lparr>rs_artifacts :=
             artifacts_set (rs_artifacts s) (or_else (sd_emitted_artifact st) (sd_name st)) state_output,
           rs_completed_steps :=
             (if sd_name st \<in> set (rs_completed_steps s) then rs_completed_steps s
              else rs_completed_steps s @ [sd_name st])\<rparr>))
    (sq (touch_state r)
    (sq (persist_state cfg r)
    (sq (consume_approval r (sd_name st))
        (ret state_output)))))"

definition put_intr :: "mem_interrupts \<Rightarrow> world \<Rightarrow> world" where
  "put_intr s w = w\<lparr>w_intr := s\<rparr>"

definition create_interrupt_request ::
  "config \<Rightarrow> string \<Rightarrow> string \<Rightarrow> interrupt_instruction \<Rightarrow> interrupt_request rt" where
  "create_interrupt_request cfg r step_name i =
     bnd (state_of r) (\<lambda>s.
     bnd now_of (\<lambda>now.
     bnd fresh_uuid (\<lambda>interrupt_id.
     zoom w_intr put_intr
       (create_interrupt mem_interrupt_ops (cfg_default_ttl cfg) now interrupt_id r step_name
          (ii_message i) (ii_context i) (ii_ttl_seconds i) (Some (rs_epoch s))
          (Some (cfg_max_pending cfg))))))"

definition pending_resume :: "string \<Rightarrow> json \<Rightarrow> string option \<Rightarrow> command \<Rightarrow> json" where
  "pending_resume step_name state_output handoff c =
     JObj [(''step_name'', JStr step_name), (''output_payload'', state_output),
           (''handoff_agent'', opt_json handoff), (''command'', command_dump c)]"

definition interrupt_payload :: "interrupt_request \<Rightarrow> json dict" where
  "interrupt_payload q =
     [(''interrupt_id'', JStr (ir_interrupt_id q)), (''message'', JStr (ir_message q)),
      (''context'', JObj (ir_context q)), (''epoch'', JInt (ir_epoch q)),
      (''expires_at'', JInt (ir_expires_at q))]"

definition await_interrupt ::
  "config \<Rightarrow> string \<Rightarrow> step \<Rightarrow> json \<Rightarrow> string option \<Rightarrow> command \<Rightarrow> interrupt_instruction \<Rightarrow> unit rt" where
  "await_interrupt cfg r st state_output handoff c i =
     bnd (create_interrupt_request cfg r (sd_name st) i) (\<lambda>request.
     sq (update_state r (\<lambda>s. s\<lparr>rs_pending_interrupt_id := Some (ir_interrupt_id request),
           rs_status := WAITING_INTERRUPT,
           rs_metadata := dset ''pending_interrupt_resume''
             (pending_resume (sd_name st) state_output handoff c) (rs_metadata s)\<rparr>))
    (sq (touch_state r)
    (sq (persist_state cfg r)
    (bnd (state_of r) (\<lambda>s.
     let request' = request\<lparr>ir_epoch := rs_epoch s\<rparr>
     in sq (perform (ir_epoch request \<noteq> rs_epoch s)
             (modify (\<lambda>w. put_intr (mem_save_request request' (w_intr w)) w)))
          (emit_run cfg r INTERRUPT_REQUESTED (Some (sd_name st)) (interrupt_payload request')))))))"

definition run_executor :: "config \<Rightarrow> workflow \<Rightarrow> string \<Rightarrow> step \<Rightarrow> json \<Rightarrow> agent_outcome rt" where
  "run_executor cfg wk r st payload =
     (case sd_executor st of
        ToolExec t \<Rightarrow>
          bnd (run_tool cfg r (sd_name st) False t payload)
            (\<lambda>(output_payload, cmd). ret (output_payload, None, cmd))
      | AgentExec a \<Rightarrow> run_agent cfg wk r (sd_name st) a payload)"

text \<open>Policies and executor of one step; no outcome when the run now waits for approval.\<close>

definition guarded_execution ::
  "config \<Rightarrow> workflow \<Rightarrow> string \<Rightarrow> step \<Rightarrow> json \<Rightarrow> agent_outcome option rt" where
  "guarded_execution cfg wk r st payload =
     bnd (state_of r) (\<lambda>s.
     let x = sd_executor st;
         ctx = policy_ctx wk (sd_name st) (executor_name x) (executor_capabilities x)
                 (executor_side_effect x) False s
     in sq (on_error (evaluate_policies cfg wk r (sd_name st) ctx) (fail_run cfg r (sd_name st)))
          (tryc
            (bnd (run_executor cfg wk r st payload) (\<lambda>out. ret (Some out)))
            (\<lambda>e. if eclass e = ApprovalRequiredError
                 then sq (await_approval cfg r st (exn_str e) payload) (ret None)
                 else sq (fail_run cfg r (sd_name st) e) (raise e))))"

definition choose_next ::
  "config \<Rightarrow> workflow \<Rightarrow> string \<Rightarrow> step \<Rightarrow> json \<Rightarrow> string option \<Rightarrow> command option \<Rightarrow> string rt" where
  "choose_next cfg wk r st state_output handoff cmd =
     on_error (lift_res (resolve_next_step_for_step wk st state_output handoff cmd))
       (\<lambda>e. sq (case handoff of
                  None \<Rightarrow> ret ()
                | Some agent \<Rightarrow> emit_run cfg r AGENT_HANDOFF_REJECTED (Some (sd_name st))
                    [(''next_agent'', JStr agent)])
               (fail_run cfg r (sd_name st) e))"

definition move_to :: "config \<Rightarrow> string \<Rightarrow> string \<Rightarrow> unit rt" where
  "move_to cfg r next_step =
     sq (update_state r (\<lambda>s. s\<lparr>rs_current_step := Some next_step\<rparr>)) (persist_state cfg r)"

text \<open>After the output is recorded: interrupt, or the chosen transition.\<close>

definition leave_step ::
  "config \<Rightarrow> workflow \<Rightarrow> string \<Rightarrow> step \<Rightarrow> json \<Rightarrow> string option \<Rightarrow> command option \<Rightarrow> json option rt" where
  "leave_step cfg wk r st state_output handoff cmd =
     (case (case cmd of None \<Rightarrow> None | Some c \<Rightarrow> map_option (\<lambda>i. (c, i)) (cmd_interrupt c)) of
        Some (c, i) \<Rightarrow> sq (await_interrupt cfg r st state_output handoff c i) (ret None)
      | None \<Rightarrow>
          bnd (choose_next cfg wk r st state_output handoff cmd) (\<lambda>next_step.
          sq (emit_transition_events cfg r (sd_name st) next_step handoff)
             (if next_step = END_STEP then sq (complete_run cfg r) (ret None)
              else sq (move_to cfg r next_step) (ret (Some state_output)))))"

definition execute_step :: "config \<Rightarrow> workflow \<Rightarrow> string \<Rightarrow> step \<Rightarrow> json \<Rightarrow> json option rt" where
  "execute_step cfg wk r st payload =
     bnd (guarded_execution cfg wk r st payload) (\<lambda>outcome.
     case outcome of
       None \<Rightarrow> ret None
     | Some (output_payload, handoff, cmd) \<Rightarrow>
         bnd (record_output cfg r st output_payload cmd) (\<lambda>state_output.
         leave_step cfg wk r st state_output handoff cmd))"

subsection \<open>The loop\<close>

definition advance_step :: "config \<Rightarrow> workflow \<Rightarrow> string \<Rightarrow> json \<Rightarrow> json option rt" where
  "advance_step cfg wk r payload =
     bnd (state_of r) (\<lambda>s.
     case rs_current_step s of
       None \<Rightarrow> sq (complete_run cfg r) (ret None)
     | Some step_name \<Rightarrow>
         bnd (lift_res (get_step wk step_name)) (\<lambda>st.
         sq (emit_run cfg r STEP_ENTERED (Some (sd_name st)) [])
        (bnd (state_of r) (\<lambda>s.
         sq (lift_res (check_artifacts (sd_name st) (rs_artifacts s) (sd_required_artifacts st)))
        (bnd (lift_res (requires_approval st s)) (\<lambda>gate.
         if gate
         then sq (await_approval cfg r st
                    (''Approval required for '' @ executor_name (sd_executor st)) payload)
                 (ret None)
         else execute_step cfg wk r st payload))))))"

type_synonym loop_state = "(exn + json option) \<times> world"

definition looping :: "string \<Rightarrow> loop_state \<Rightarrow> bool" where
  "looping r c =
     (case c of
        (Inr (Some _), w) \<Rightarrow> rs_status (run_of w r) = RUNNING
      | _ \<Rightarrow> False)"

definition loop_body :: "config \<Rightarrow> workflow \<Rightarrow> string \<Rightarrow> loop_state \<Rightarrow> loop_state" where
  "loop_body cfg wk r c =
     (case c of
        (Inr (Some payload), w) \<Rightarrow> advance_step cfg wk r payload w
      | _ \<Rightarrow> c)"

definition advance ::
  "config \<Rightarrow> workflow \<Rightarrow> string \<Rightarrow> json \<Rightarrow> world \<Rightarrow> ((exn + run_state) \<times> world) option" where
  "advance cfg wk r payload w =
     map_option (\<lambda>(res, w'). (map_sum id (\<lambda>_. run_of w' r) res, w'))
       (while_option (looping r) (loop_body cfg wk r) (Inr (Some payload), w))"

text \<open>The preparation of an entry point hands over a run and a payload, or is done already.\<close>

definition then_advance ::
  "config \<Rightarrow> workflow \<Rightarrow> (string \<times> json option) rt \<Rightarrow> world \<Rightarrow> ((exn + run_state) \<times> world) option" where
  "then_advance cfg wk m w =
     (case m w of
        (Inl e, w') \<Rightarrow> Some (Inl e, w')
      | (Inr (r, None), w') \<Rightarrow> Some (Inr (run_of w' r), w')
      | (Inr (r, Some payload), w') \<Rightarrow> advance cfg wk r payload w')"

subsection \<open>\<open>run_workflow\<close>\<close>

definition bump_interrupt_epoch :: "string \<Rightarrow> unit rt" where
  "bump_interrupt_epoch r =
     modify (\<lambda>w. put_intr (snd (bump_epoch mem_interrupt_ops r (w_intr w))) w)"

text \<open>The new run, up to its first write.\<close>

definition open_run :: "config \<Rightarrow> workflow \<Rightarrow> string option \<Rightarrow> (string \<times> string) rt" where
  "open_run cfg wk thread_id =
     bnd fresh_uuid (\<lambda>r.
     sq (bump_interrupt_epoch r)
    (bnd (lift_res (entry_step_name wk)) (\<lambda>entry.
     bnd now_of (\<lambda>now.
     sq (modify (set_run r
           (new_run_state r thread_id (wf_name wk) (Some entry) (cfg_channel_defaults cfg) now)))
        (ret (r, entry))))))"

definition begin_run ::
  "config \<Rightarrow> workflow \<Rightarrow> py_value \<Rightarrow> string \<Rightarrow> string \<Rightarrow> (string \<times> json option) rt" where
  "begin_run cfg wk data r entry =
     sq (persist_state cfg r)
    (sq (register_active_run r)
    (sq (emit_audit cfg r (wf_name wk) RUN_STARTED None [(''entry_step'', JStr entry)])
    (sq (update_state r (\<lambda>s. s\<lparr>rs_status := RUNNING\<rparr>))
    (sq (touch_state r)
    (sq (persist_state cfg r)
        (ret (r, Some (to_payload data))))))))"

definition start_run ::
  "config \<Rightarrow> workflow \<Rightarrow> py_value \<Rightarrow> string option \<Rightarrow> (string \<times> json option) rt" where
  "start_run cfg wk data thread_id =
     bnd (open_run cfg wk thread_id) (\<lambda>(r, entry). begin_run cfg wk data r entry)"

definition run_workflow ::
  "config \<Rightarrow> workflow \<Rightarrow> py_value \<Rightarrow> string option \<Rightarrow> world \<Rightarrow> ((exn + run_state) \<times> world) option" where
  "run_workflow cfg wk data thread_id = then_advance cfg wk (start_run cfg wk data thread_id)"

subsection \<open>\<open>resume_workflow\<close>\<close>

text \<open>What a caller may pass: a resume payload, a decision, a text, a dictionary, or other data.\<close>

datatype resume_input =
    GivenPayload resume_payload
  | GivenDecision approval_decision
  | GivenText string
  | GivenData json

definition normalize_resume_payload :: "config \<Rightarrow> resume_input \<Rightarrow> exn + resume_payload" where
  "normalize_resume_payload cfg p =
     (let strict = (\<lambda>model v. case model v of Inl msg \<Rightarrow> Inl (Exn ValidationError msg) | Inr x \<Rightarrow> Inr x);
          either = (\<lambda>v. case cfg_resume_approval_model cfg v of
             Inr x \<Rightarrow> Inr x
           | Inl _ \<Rightarrow>
               (case cfg_resume_interrupt_model cfg v of
                  Inr x \<Rightarrow> Inr x
                | Inl _ \<Rightarrow> Inl (Exn TypeError
                    (''Unsupported resume payload type: <class '' @ quoted (type_name v) @ ''>''))))
      in case p of
           GivenPayload x \<Rightarrow> Inr x
         | GivenDecision d \<Rightarrow> Inr (ResumeApproval (Decided d))
         | GivenText s \<Rightarrow> Inr (ResumeApproval (DecisionText s))
         | GivenData (JStr s) \<Rightarrow> Inr (ResumeApproval (DecisionText s))
         | GivenData (JObj d) \<Rightarrow>
             (if dhas d ''interrupt_id'' then strict (cfg_resume_interrupt_model cfg) (JObj d)
              else if dhas d ''decision'' then strict (cfg_resume_approval_model cfg) (JObj d)
              else either (JObj d))
         | GivenData v \<Rightarrow> either v)"

definition reject_run :: "config \<Rightarrow> string \<Rightarrow> approval_decision \<Rightarrow> (string \<times> json option) rt" where
  "reject_run cfg r d =
     bnd (state_of r) (\<lambda>s.
     sq (emit_run cfg r APPROVAL_REJECTED (rs_current_step s)
           [(''reason'', JStr (or_else (ad_reason d) ''rejected''))])
    (let err = or_else (ad_reason d) ''approval rejected''
     in sq (update_state r (\<lambda>s. s\<lparr>rs_status := FAILED, rs_error := Some err, rs_pending_approval := None\<rparr>))
       (sq (touch_state r)
       (sq (persist_state cfg r)
       (sq (emit_run cfg r RUN_FAILED None [(''error'', JStr err)])
           (raise (Exn ApprovalRejectedError err)))))))"

definition grant_run ::
  "config \<Rightarrow> string \<Rightarrow> approval_request \<Rightarrow> approval_decision \<Rightarrow> (string \<times> json option) rt" where
  "grant_run cfg r request d =
     bnd (state_of r) (\<lambda>s.
     bnd (lift_res (approved_steps s)) (\<lambda>approved.
     bnd (lift_res (sorted_steps (JStr (ar_step_name request) # approved))) (\<lambda>steps.
     let pending = dget_or (rs_metadata s) ''pending_input'' JNull
     in sq (update_state r (\<lambda>s. s\<lparr>rs_metadata :=
              ddel ''pending_input'' (dset ''approved_steps'' steps (rs_metadata s))\<rparr>))
       (sq (emit_run cfg r APPROVAL_GRANTED (rs_current_step s)
              [(''decided_by'', opt_json (ad_decided_by d)), (''reason'', opt_json (ad_reason d))])
       (sq (update_state r (\<lambda>s. s\<lparr>rs_pending_approval := None, rs_status := RUNNING\<rparr>))
       (sq (touch_state r)
       (sq (persist_state cfg r)
           (ret (r, Some pending)))))))))"

definition resume_approval :: "config \<Rightarrow> string \<Rightarrow> resume_payload \<Rightarrow> (string \<times> json option) rt" where
  "resume_approval cfg r p =
     bnd (state_of r) (\<lambda>s.
     case rs_pending_approval s of
       None \<Rightarrow> raise (Exn ApprovalRequiredError (''Run '' @ r @ '' is not waiting for approval''))
     | Some request \<Rightarrow>
         (case p of
            ResumeInterrupt _ _ _ \<Rightarrow>
              raise (Exn ApprovalRequiredError ''Approval resume requires ResumeApproval payload'')
          | ResumeApproval decision \<Rightarrow>
              bnd now_of (\<lambda>now.
              bnd (lift_res (normalize_decision now decision)) (\<lambda>d.
              if ad_decision d = REJECT then reject_run cfg r d else grant_run cfg r request d))))"

text \<open>What an interrupted step left behind for the resumption. Only \<open>await_interrupt\<close> writes the key,
  after the user code of the step has run, so the names in it are texts.\<close>

record resume_plan =
  rp_step_name :: json
  rp_output_payload :: json
  rp_handoff :: json
  rp_command :: json

definition read_plan :: "json \<Rightarrow> exn + resume_plan" where
  "read_plan v =
     (case (if truthy v then v else JObj []) of
        JObj d \<Rightarrow> Inr
          \<lparr>rp_step_name = dget_or d ''step_name'' JNull,
           rp_output_payload = dget_or d ''output_payload'' (JObj []),
           rp_handoff = dget_or d ''handoff_agent'' JNull,
           rp_command = dget_or d ''command'' JNull\<rparr>
      | u \<Rightarrow> no_get u)"

definition plan_command :: "config \<Rightarrow> resume_plan \<Rightarrow> exn + command option" where
  "plan_command cfg p =
     (case rp_command p of
        JObj d \<Rightarrow>
          (case cfg_command_model cfg (JObj d) of
             Inl msg \<Rightarrow> Inl (Exn ValidationError msg)
           | Inr c \<Rightarrow> Inr (Some c))
      | _ \<Rightarrow> Inr None)"

definition json_text :: "json \<Rightarrow> string option" where
  "json_text v = (case v of JStr s \<Rightarrow> Some s | _ \<Rightarrow> None)"

text \<open>The transition of the interrupted step, made when its interrupt is resolved.\<close>

definition resume_transition ::
  "config \<Rightarrow> workflow \<Rightarrow> string \<Rightarrow> json \<Rightarrow> (string \<times> json option) rt" where
  "resume_transition cfg wk r response =
     bnd (state_of r) (\<lambda>s.
     sq (update_state r (\<lambda>s. s\<lparr>rs_metadata := ddel ''pending_interrupt_resume'' (rs_metadata s)\<rparr>))
    (bnd (lift_res (read_plan (dget_or (rs_metadata s) ''pending_interrupt_resume'' JNull))) (\<lambda>plan.
     bnd (lift_res (plan_command cfg plan)) (\<lambda>cmd.
     if \<not> truthy (rp_step_name plan) then ret (r, Some response)
     else
       let step_name = py_str (rp_step_name plan); handoff = json_text (rp_handoff plan)
       in bnd (lift_res (get_step wk step_name)) (\<lambda>st.
          bnd (lift_res (resolve_next_step_for_step wk st (rp_output_payload plan) handoff cmd)) (\<lambda>next_step.
          sq (emit_transition_events cfg r step_name next_step handoff)
             (if next_step = END_STEP then sq (complete_run cfg r) (ret (r, None))
              else
                sq (update_state r (\<lambda>s. s\<lparr>rs_current_step := Some next_step\<rparr>))
               (sq (touch_state r)
               (sq (persist_state cfg r)
                   (ret (r, Some (if response \<noteq> JNull then response else rp_output_payload plan))))))))))))"

definition report_unresolved :: "config \<Rightarrow> string \<Rightarrow> string \<Rightarrow> exn \<Rightarrow> unit rt" where
  "report_unresolved cfg r interrupt_id e =
     bnd (state_of r) (\<lambda>s.
     case eclass e of
       InterruptExpiredError expires_at \<Rightarrow>
         emit_run cfg r INTERRUPT_EXPIRED (rs_current_step s)
           [(''interrupt_id'', JStr interrupt_id), (''error'', JStr (exn_str e)),
            (''expires_at'', JInt expires_at)]
     | c \<Rightarrow>
         perform (is_value_or_key_error c)
           (emit_run cfg r INTERRUPT_REJECTED_EPOCH (rs_current_step s)
              [(''interrupt_id'', JStr interrupt_id), (''error'', JStr (exn_str e))]))"

definition resume_interrupt ::
  "config \<Rightarrow> workflow \<Rightarrow> string \<Rightarrow> resume_payload \<Rightarrow> (string \<times> json option) rt" where
  "resume_interrupt cfg wk r p =
     bnd (state_of r) (\<lambda>s.
     case rs_pending_interrupt_id s of
       None \<Rightarrow> raise (Exn ApprovalRequiredError (''Run '' @ r @ '' is not waiting for interrupt input''))
     | Some _ \<Rightarrow>
         (case p of
            ResumeApproval _ \<Rightarrow>
              raise (Exn ApprovalRequiredError ''Interrupt resume requires ResumeInterrupt payload'')
          | ResumeInterrupt interrupt_id response epoch \<Rightarrow>
              bnd now_of (\<lambda>now.
              bnd (on_error
                    (zoom w_intr put_intr
                      (resolve_interrupt mem_interrupt_ops now r interrupt_id response
                         (Some (case epoch of None \<Rightarrow> rs_epoch s | Some e \<Rightarrow> e))))
                    (report_unresolved cfg r interrupt_id)) (\<lambda>resolution.
              sq (update_state r (\<lambda>s. s\<lparr>rs_pending_interrupt_id := None, rs_status := RUNNING\<rparr>))
             (sq (bump_interrupt_epoch r)
             (sq (touch_state r)
             (sq (persist_state cfg r)
             (bnd (state_of r) (\<lambda>s.
              sq (emit_run cfg r INTERRUPT_RESOLVED (rs_current_step s)
                    [(''interrupt_id'', JStr interrupt_id), (''response'', ires_response resolution)])
                 (resume_transition cfg wk r (ires_response resolution)))))))))))"

definition prepare_resume ::
  "config \<Rightarrow> workflow \<Rightarrow> string \<Rightarrow> resume_input \<Rightarrow> (string \<times> json option) rt" where
  "prepare_resume cfg wk r p =
     sq (load_state r)
    (bnd (lift_res (normalize_resume_payload cfg p)) (\<lambda>normalized.
     bnd (state_of r) (\<lambda>s.
     if rs_status s = WAITING_APPROVAL then resume_approval cfg r normalized
     else if rs_status s = WAITING_INTERRUPT then resume_interrupt cfg wk r normalized
     else raise (Exn ApprovalRequiredError
            (''Run '' @ r @ '' is not resumable (status='' @ status_value (rs_status s) @ '')'')))))"

definition resume_workflow ::
  "config \<Rightarrow> workflow \<Rightarrow> string \<Rightarrow> resume_input \<Rightarrow> world \<Rightarrow> ((exn + run_state) \<times> world) option" where
  "resume_workflow cfg wk r p = then_advance cfg wk (prepare_resume cfg wk r p)"

subsection \<open>\<open>resume_from_checkpoint\<close>\<close>

definition restored_state :: "string \<Rightarrow> run_state \<Rightarrow> run_state" where
  "restored_state r snapshot =
     snapshot\<lparr>rs_run_id := r, rs_pending_approval := None, rs_pending_interrupt_id := None,
       rs_error := None, rs_status := RUNNING,
       rs_metadata := ddel ''pending_interrupt_resume'' (ddel ''pending_input'' (rs_metadata snapshot))\<rparr>"

definition open_restored :: "string \<Rightarrow> string rt" where
  "open_restored checkpoint_id =
     bnd (gets (\<lambda>w. get_checkpoint (w_store w) checkpoint_id)) (\<lambda>found.
     case found of
       None \<Rightarrow> raise (Exn KeyError (''Unknown checkpoint_id: '' @ checkpoint_id))
     | Some snapshot \<Rightarrow>
         bnd fresh_uuid (\<lambda>r.
         sq (modify (set_run r (restored_state r snapshot)))
        (sq (bump_interrupt_epoch r)
            (ret r))))"

definition begin_restored :: "config \<Rightarrow> string \<Rightarrow> json \<Rightarrow> string \<Rightarrow> (string \<times> json option) rt" where
  "begin_restored cfg checkpoint_id payload r =
     sq (touch_state r)
    (sq (persist_state cfg r)
    (sq (register_active_run r)
    (bnd (state_of r) (\<lambda>s.
     sq (emit_run cfg r CHECKPOINT_RESTORED None
           [(''source_checkpoint_id'', JStr checkpoint_id), (''thread_id'', JStr (rs_thread_id s))])
    (sq (emit_run cfg r RUN_STARTED None
           [(''entry_step'', opt_json (rs_current_step s)),
            (''resumed_from_checkpoint'', JStr checkpoint_id)])
    (bnd (state_of r) (\<lambda>s.
     if payload = JNull
     then sq (update_state r (\<lambda>s. s\<lparr>rs_metadata := ddel ''pending_input'' (rs_metadata s)\<rparr>))
             (ret (r, Some (dget_or (rs_metadata s) ''pending_input'' JNull)))
     else ret (r, Some payload))))))))"

definition restore_checkpoint :: "config \<Rightarrow> string \<Rightarrow> json \<Rightarrow> (string \<times> json option) rt" where
  "restore_checkpoint cfg checkpoint_id payload =
     bnd (open_restored checkpoint_id) (begin_restored cfg checkpoint_id payload)"

definition resume_from_checkpoint ::
  "config \<Rightarrow> workflow \<Rightarrow> string \<Rightarrow> json \<Rightarrow> world \<Rightarrow> ((exn + run_state) \<times> world) option" where
  "resume_from_checkpoint cfg wk checkpoint_id payload =
     then_advance cfg wk (restore_checkpoint cfg checkpoint_id payload)"

end
