(* ===== verification/Queries.thy ===== *)
theory Queries
  imports Advance
begin

section \<open>Queries and thread-level operations (\<open>runtime/local.py\<close>)\<close>

text \<open>
  The public methods of \<open>LocalRuntime\<close> that look runs and interrupts up, resume the latest run of a
  thread, and archive a thread.
\<close>

definition get_run_state :: "string \<Rightarrow> run_state rt" where
  "get_run_state run_id =
     bnd (gets (\<lambda>w. dget (w_runs w) run_id)) (\<lambda>found.
     case found of
       None \<Rightarrow> raise (Exn KeyError (''Unknown run_id: '' @ run_id))
     | Some s \<Rightarrow> ret s)"

definition aget_run_state :: "string \<Rightarrow> run_state rt" where
  "aget_run_state run_id = sq (load_state run_id) (state_of run_id)"

definition on_store :: "(mem_run_store \<Rightarrow> 'a \<times> mem_run_store) \<Rightarrow> 'a rt" where
  "on_store f = zoom w_store put_store (\<lambda>st. case f st of (x, st') \<Rightarrow> (Inr x, st'))"

definition thread_target_run_id :: "string \<Rightarrow> string rt" where
  "thread_target_run_id thread_id =
     bnd (on_store (get_active_run_id thread_id)) (\<lambda>active.
     case active of
       Some run_id \<Rightarrow> ret run_id
     | None \<Rightarrow>
         bnd (on_store (get_latest_run_id thread_id)) (\<lambda>latest.
         case latest of
           Some run_id \<Rightarrow> ret run_id
         | None \<Rightarrow> raise (Exn KeyError (''Unknown thread_id: '' @ thread_id))))"

definition get_latest_run_state :: "string \<Rightarrow> run_state rt" where
  "get_latest_run_state thread_id = bnd (thread_target_run_id thread_id) aget_run_state"

fun load_all :: "string list \<Rightarrow> run_state list rt" where
  "load_all [] = ret []"
| "load_all (r # rs) =
     bnd (aget_run_state r) (\<lambda>s. bnd (load_all rs) (\<lambda>ss. ret (s # ss)))"

definition list_thread_runs :: "string \<Rightarrow> run_state list rt" where
  "list_thread_runs thread_id = bnd (on_store (list_run_ids thread_id)) load_all"

definition resume_latest_workflow ::
  "config \<Rightarrow> workflow \<Rightarrow> string \<Rightarrow> resume_input \<Rightarrow> world \<Rightarrow> ((exn + run_state) \<times> world) option" where
  "resume_latest_workflow cfg wk thread_id p =
     then_advance cfg wk
       (bnd (get_latest_run_state thread_id) (\<lambda>s. prepare_resume cfg wk (rs_run_id s) p))"

definition on_interrupts :: "(int \<Rightarrow> mem_interrupts \<Rightarrow> 'a \<times> mem_interrupts) \<Rightarrow> 'a rt" where
  "on_interrupts f =
     bnd now_of (\<lambda>now. zoom w_intr put_intr (\<lambda>s. case f now s of (x, s') \<Rightarrow> (Inr x, s')))"

definition list_pending_interrupts :: "string \<Rightarrow> interrupt_request list rt" where
  "list_pending_interrupts run_id =
     on_interrupts (\<lambda>now. list_pending mem_interrupt_ops now run_id None)"

definition get_pending_interrupt :: "string \<Rightarrow> string \<Rightarrow> interrupt_request option rt" where
  "get_pending_interrupt run_id interrupt_id =
     on_interrupts (\<lambda>now. get_pending mem_interrupt_ops now run_id interrupt_id)"

definition get_latest_pending_interrupt :: "string \<Rightarrow> interrupt_request option rt" where
  "get_latest_pending_interrupt run_id =
     on_interrupts (\<lambda>now. get_latest_pending mem_interrupt_ops now run_id None)"

fun pending_of_all :: "string list \<Rightarrow> interrupt_request list rt" where
  "pending_of_all [] = ret []"
| "pending_of_all (r # rs) =
     bnd (list_pending_interrupts r) (\<lambda>qs. bnd (pending_of_all rs) (\<lambda>qs'. ret (qs @ qs')))"

definition list_thread_pending_interrupts :: "string \<Rightarrow> interrupt_request list rt" where
  "list_thread_pending_interrupts thread_id =
     bnd (on_store (list_run_ids thread_id)) (\<lambda>ids.
     bnd (pending_of_all ids) (\<lambda>pending.
     ret (sort_key (\<lambda>item. (ir_created_at item, ir_interrupt_id item)) pending)))"

definition put_threads :: "thread_store \<Rightarrow> world \<Rightarrow> world" where
  "put_threads s w = w\<lparr>w_threads := s\<rparr>"

definition archive_thread ::
  "config \<Rightarrow> string \<Rightarrow> string option \<Rightarrow> string \<Rightarrow> thread_record rt" where
  "archive_thread cfg thread_id run_id workflow_name =
     bnd now_of (\<lambda>now.
     bnd (zoom w_threads put_threads (thread_archive now thread_id)) (\<lambda>record.
     sq (emit_event cfg (or_else run_id []) (Some thread_id) workflow_name THREAD_ARCHIVED None
           [(''thread_id'', JStr thread_id), (''run_ids'', JList (map JStr (tr_run_ids record)))])
        (ret record)))"

end
