(* ===== verification/Runtime_Laws.thy ===== *)
theory Runtime_Laws
  imports Queries
begin

section \<open>Relations every runtime operation keeps\<close>

text \<open>
  A hierarchy of locales lists what a relation between worlds must satisfy for the atomic changes that
  operations on one run \<open>r\<close> make, and carries the relation through the operations. \<open>local_relation\<close>:
  an identifier is drawn, an event appended, the metadata of \<open>r\<close> changed, time passes, memory and
  secrets change; that is enough for user code. \<open>exec_relation\<close>: a remote call is counted; enough for
  policies and executors. \<open>state_relation\<close>: the state of \<open>r\<close> is changed and written to the run store;
  enough for what a step leaves behind. \<open>loop_relation\<close>: interrupts are filed and answered; enough for the execution loop and for resuming \<open>r\<close>.
  \<open>runtime_relation\<close>: all of it for every run, and runs are opened and restored; enough for the entry
  points. It is interpreted on the growth of the event log, on the clock, on the invariants of the
  stores and on the thread records; the others on what a step, a run or a remote call may change.
\<close>

locale local_relation = step_relation R for R :: "world \<Rightarrow> world \<Rightarrow> bool" +
  fixes r :: string
  assumes R_fresh: "R w (w\<lparr>w_fresh := Suc (w_fresh w)\<rparr>)"
    and R_event: "R w (w\<lparr>w_audit := w_audit w @ [e]\<rparr>)"
    and R_load: "\<lbrakk>dget (w_runs w) r = None; get (w_store w) r = Some s\<rbrakk> \<Longrightarrow> R w (set_run r s w)"
    and R_metadata: "dget (w_runs w) r = Some s \<Longrightarrow> R w (set_run r (s\<lparr>rs_metadata := md\<rparr>) w)"
    and R_now: "R w (w\<lparr>w_now := w_now w + int n\<rparr>)"
    and R_memory: "R w (put_memory m w)"
    and R_secrets: "R w (w\<lparr>w_secrets := registry_add (w_secrets w) v\<rparr>)"
begin

lemma pres_fresh [pres_intros]: "pres R fresh_uuid"
  by (simp add: pres_def fresh_uuid_def R_fresh)

lemma pres_now [pres_intros]: "pres R now_of"
  unfolding now_of_def by (rule pres_gets)

lemma pres_state_of [pres_intros]: "pres R (state_of q)"
  unfolding state_of_def by (rule pres_gets)

lemma pres_known_run [pres_intros]: "pres R (known_run r)"
  by (simp add: pres_def known_run_def R_load R_refl split: option.splits)

lemma pres_emit_event [pres_intros]: "pres R (emit_event cfg q th wn ev st p)"
proof -
  have "pres R (append_event e)" for e
    unfolding append_event_def by (rule pres_modify) (rule R_event)
  then show ?thesis unfolding emit_event_def emitter_def by (intro pres_intros)
qed

lemma pres_emit_audit [pres_intros]: "pres R (emit_audit cfg r wn ev st p)"
  unfolding emit_audit_def by (intro pres_intros)

lemma pres_emit_run [pres_intros]: "pres R (emit_run cfg r ev st p)"
  unfolding emit_run_def by (intro pres_intros)

lemma pres_load_state [pres_intros]: "pres R (load_state r)"
  unfolding load_state_def by (intro pres_intros)

subsection \<open>User code\<close>

lemma pres_zoom_memory [pres_intros]: "pres R (zoom w_memory put_memory m)"
  by (simp add: pres_def zoom_def R_memory split_beta)

lemma pres_context_memory [pres_intros]:
  "pres R (mo_read (context_memory cfg cx) k sc t)"
  "pres R (mo_write (context_memory cfg cx) k v sc t)"
  "pres R (mo_delete (context_memory cfg cx) k sc t)"
  "pres R (mo_search (context_memory cfg cx) q sc t)"
  unfolding context_memory_def scoped_ops_def auditing_ops_def world_memory_def Let_def
    audit_read_def audit_write_def audit_delete_def audit_search_def emit_memory_def
  by (simp_all, (intro pres_intros)+)

lemma pres_resolve_secret [pres_intros]: "pres R (resolve_secret cfg key)"
  unfolding resolve_secret_def by (intro pres_intros pres_modify R_secrets)

lemma pres_set_metadata [pres_intros]: "q = r \<Longrightarrow> pres R (set_metadata q k v)"
  unfolding set_metadata_def update_state_def
  by (rule pres_modify) (simp add: R_refl R_metadata split: option.splits)

lemma pres_get_metadata [pres_intros]: "pres R (get_metadata q k v)"
  unfolding get_metadata_def by (intro pres_intros)

lemma pres_elapse [pres_intros]: "pres R (elapse n)"
  unfolding elapse_def by (intro pres_modify R_now)

lemma pres_tool_prog [pres_intros]: "cx_metadata cx = r \<Longrightarrow> pres R (tool_prog cfg cx p)"
  by (induction p) (auto intro!: pres_intros)

lemma pres_agent_prog [pres_intros]:
  assumes call: "\<And>name payload. pres R (call name payload)" and cx: "cx_metadata (acx_base acx) = r"
  shows "pres R (agent_prog acx call p used)"
  using cx
  by (induction p arbitrary: used) (auto intro!: pres_intros call simp del: attempt_run split: sum.split)

lemma pres_execute_tool [pres_intros]: "cx_metadata cx = r \<Longrightarrow> pres R (execute_tool cfg cx t data)"
  unfolding execute_tool_def by (intro pres_intros)

lemma pres_execute_agent [pres_intros]:
  "(\<And>name payload. pres R (call name payload)) \<Longrightarrow> cx_metadata (acx_base acx) = r \<Longrightarrow>
   pres R (execute_agent cfg acx call a data)"
  unfolding execute_agent_def by (intro pres_intros)

lemma pres_evaluate_policies [pres_intros]: "pres R (evaluate_policies cfg wk r step_name ctx)"
  unfolding evaluate_policies_def evaluate_policy_def by (intro pres_intros)

text \<open>The contexts of the runtime share the metadata of the run they are made for.\<close>

lemma pres_with_context [pres_intros]:
  assumes "\<And>cx. cx_metadata cx = r \<Longrightarrow> pres R (f cx)"
  shows "pres R (bnd (make_context r step_name) f)"
  using assms by (simp add: pres_def make_context_def py_simps state_of_def)

lemma pres_emit_transition_events [pres_intros]:
  "pres R (emit_transition_events cfg r step_name next_step handoff)"
  unfolding emit_transition_events_def by (intro pres_intros)

lemma pres_finish_agent [pres_intros]: "pres R (finish_agent cfg wk r step_name a result)"
  unfolding finish_agent_def by (intro pres_intros)

lemma pres_finish_remote_agent [pres_intros]: "pres R (finish_remote_agent cfg wk r step_name a resp)"
  unfolding finish_remote_agent_def by (intro pres_intros)

end

subsection \<open>Executors\<close>

locale exec_relation = local_relation R r for R :: "world \<Rightarrow> world \<Rightarrow> bool" and r :: string +
  assumes R_calls: "R w (w\<lparr>w_calls := Suc (w_calls w)\<rparr>)"
begin

lemma pres_remote_call [pres_intros]: "pres R (remote_call cfg f check q)"
proof -
  have "pres R count_call" by (simp add: pres_def count_call_def R_calls)
  then show ?thesis unfolding remote_call_def by (intro pres_intros)
qed

lemma pres_execute_tool_remote [pres_intros]: "pres R (execute_tool_remote cfg r step_name t p)"
  unfolding execute_tool_remote_def by (intro pres_intros)

lemma pres_run_tool [pres_intros]: "pres R (run_tool cfg r step_name nested t p)"
  unfolding run_tool_def Let_def
  by (rule pres_sq, rule pres_emit_run, rule pres_with_context) (intro pres_intros)

lemma pres_execute_named_tool [pres_intros]: "pres R (execute_named_tool cfg wk r step_name name p)"
  unfolding execute_named_tool_def by (intro pres_intros)

lemma pres_case_remote_status [pres_intros]:
  "pres R m1 \<Longrightarrow> pres R m2 \<Longrightarrow> pres R m3 \<Longrightarrow> pres R m4 \<Longrightarrow> pres R m5 \<Longrightarrow>
   pres R (case st of RFinal \<Rightarrow> m1 | RHandoff \<Rightarrow> m2 | RNeedsApproval \<Rightarrow> m3 | RFailed \<Rightarrow> m4 | RToolCall \<Rightarrow> m5)"
  by (cases st) simp_all

lemma pres_remote_agent_turn [pres_intros]:
  "(\<And>name payload. pres R (call name payload)) \<Longrightarrow>
   pres R (remote_agent_turn cfg wk r step_name a ad input used resume call)"
  unfolding remote_agent_turn_def by (intro pres_intros)

lemma pres_remote_agent_turns [pres_intros]:
  "pres R (remote_agent_turns left cfg wk r step_name a ad input used resume)"
  by (induction left arbitrary: used resume) (auto intro!: pres_intros)

lemma pres_execute_agent_remote [pres_intros]: "pres R (execute_agent_remote cfg wk r step_name a p)"
  unfolding execute_agent_remote_def by (intro pres_intros)

lemma pres_run_agent [pres_intros]: "pres R (run_agent cfg wk r step_name a p)"
  unfolding run_agent_def Let_def
  by (rule pres_sq, rule pres_emit_run, rule pres_with_context) (intro pres_intros, simp)

lemma pres_case_executor [pres_intros]:
  "(\<And>t. pres R (f t)) \<Longrightarrow> (\<And>a. pres R (g a)) \<Longrightarrow>
   pres R (case x of ToolExec t \<Rightarrow> f t | AgentExec a \<Rightarrow> g a)"
  by (cases x) simp_all

lemma pres_run_executor [pres_intros]: "pres R (run_executor cfg wk r st payload)"
  unfolding run_executor_def by (intro pres_intros)

end

text \<open>What an update of a run state leaves alone: the fields the run store keys and numbers by.\<close>

definition same_identity :: "run_state \<Rightarrow> run_state \<Rightarrow> bool" where
  "same_identity s s' \<longleftrightarrow>
     rs_run_id s' = rs_run_id s \<and> rs_thread_id s' = rs_thread_id s \<and> rs_epoch s' = rs_epoch s \<and>
     rs_workflow_name s' = rs_workflow_name s \<and> rs_checkpoint_id s' = rs_checkpoint_id s \<and>
     rs_parent_checkpoint_id s' = rs_parent_checkpoint_id s"

lemma same_identity_metadata [simp]: "same_identity s (s\<lparr>rs_metadata := md\<rparr>)"
  by (simp add: same_identity_def)

locale state_relation = exec_relation R r for R :: "world \<Rightarrow> world \<Rightarrow> bool" and r :: string +
  assumes R_run: "\<lbrakk>dget (w_runs w) r = Some s; same_identity s s'\<rbrakk> \<Longrightarrow> R w (set_run r s' w)"
    and R_write: "pres R (write_state r)"
    and R_set_active: "R w (put_store (set_active_run_id t r (w_store w)) w)"
    and R_clear_active: "R w (put_store (clear_active_run_id t r (w_store w)) w)"
begin

lemma pres_update_state [pres_intros]: "(\<And>s. same_identity s (f s)) \<Longrightarrow> pres R (update_state r f)"
  unfolding update_state_def by (rule pres_modify) (auto simp: R_refl R_run split: option.splits)

lemma pres_touch [pres_intros]: "pres R (touch_state r)"
  unfolding touch_state_def by (intro pres_intros) (simp add: same_identity_def touch_def)

lemma pres_clear_active [pres_intros]: "pres R (clear_active_run r)"
  unfolding clear_active_run_def by (intro pres_intros pres_modify R_clear_active)

lemma pres_register_active [pres_intros]: "pres R (register_active_run r)"
  unfolding register_active_run_def by (intro pres_intros pres_modify R_set_active)

lemma pres_persist [pres_intros]: "pres R (persist_state cfg r)"
  unfolding persist_state_def by (intro pres_intros R_write)

lemma pres_apply_state_update [pres_intros]: "pres R (apply_state_update cfg r u)"
  unfolding apply_state_update_def update_channel_def by (intro pres_intros) (simp_all add: same_identity_def)

lemma pres_fail_run [pres_intros]: "pres R (fail_run cfg r step_name e)"
  unfolding fail_run_def by (intro pres_intros) (simp_all add: same_identity_def)

lemma pres_complete_run [pres_intros]: "pres R (complete_run cfg r)"
  unfolding complete_run_def by (intro pres_intros) (simp_all add: same_identity_def)

lemma pres_create_request [pres_intros]: "pres R (create_request r wn st name reason)"
  unfolding create_request_def by (intro pres_intros)

lemma pres_await_approval [pres_intros]: "pres R (await_approval cfg r st reason payload)"
  unfolding await_approval_def by (intro pres_intros) (simp_all add: same_identity_def)

lemma pres_record_output [pres_intros]: "pres R (record_output cfg r st out cmd)"
  unfolding record_output_def consume_approval_def by (intro pres_intros) (simp_all add: same_identity_def)

lemma pres_guarded_execution [pres_intros]: "pres R (guarded_execution cfg wk r st payload)"
  unfolding guarded_execution_def by (intro pres_intros)

lemma pres_choose_next [pres_intros]: "pres R (choose_next cfg wk r st out handoff cmd)"
  unfolding choose_next_def by (intro pres_intros)

lemma pres_move_to [pres_intros]: "pres R (move_to cfg r n)"
  unfolding move_to_def by (intro pres_intros) (simp_all add: same_identity_def)

lemma pres_case_resume_payload [pres_intros]:
  "(\<And>d. pres R (f d)) \<Longrightarrow> (\<And>i x e. pres R (g i x e)) \<Longrightarrow>
   pres R (case p of ResumeApproval d \<Rightarrow> f d | ResumeInterrupt i x e \<Rightarrow> g i x e)"
  by (cases p) simp_all

lemma pres_grant_run [pres_intros]: "pres R (grant_run cfg r q d)"
  unfolding grant_run_def by (intro pres_intros) (simp_all add: same_identity_def)

lemma pres_resume_approval [pres_intros]: "pres R (resume_approval cfg r p)"
  unfolding resume_approval_def reject_run_def by (intro pres_intros) (simp_all add: same_identity_def)

end

subsection \<open>The loop\<close>

locale loop_relation = state_relation R r for R :: "world \<Rightarrow> world \<Rightarrow> bool" and r :: string +
  assumes R_create: "pres R (zoom w_intr put_intr
          (create_interrupt mem_interrupt_ops d now u r st msg c ttl ep mx))"
    and R_resolve: "pres R (zoom w_intr put_intr (resolve_interrupt mem_interrupt_ops now r i x ep))"
    and R_save: "ir_run_id q = r \<Longrightarrow> R w (put_intr (mem_save_request q (w_intr w)) w)"
    and R_bump: "R w (put_intr (snd (bump_epoch mem_interrupt_ops r (w_intr w))) w)"
begin

text \<open>A filed request belongs to the run that filed it.\<close>

lemma pres_with_request:
  assumes "\<And>q. ir_run_id q = r \<Longrightarrow> pres R (f q)"
  shows "pres R (bnd (create_interrupt_request cfg r st i) f)"
proof (rule presI)
  fix w res w'
  assume x: "bnd (create_interrupt_request cfg r st i) f w = (res, w')"
  obtain y w1 where y: "create_interrupt_request cfg r st i w = (y, w1)" by (rule prod.exhaust)
  have "pres R (create_interrupt_request cfg r st i)"
    unfolding create_interrupt_request_def by (intro pres_intros R_create)
  then have R1: "R w w1" using y by (rule presD)
  show "R w w'"
  proof (cases y)
    case (Inl e)
    with x y R1 show ?thesis by (simp add: py_simps)
  next
    case (Inr q)
    then have "ir_run_id q = r" using y
      by (auto simp: create_interrupt_request_def create_interrupt_def py_simps Let_def split_beta
          fresh_uuid_def now_of_def state_of_def split: option.splits if_splits)
    from assms [OF this] have "R w1 w'" using x y Inr by (auto simp: py_simps dest: presD)
    with R1 show ?thesis by (rule R_trans)
  qed
qed

lemma pres_await_interrupt [pres_intros]: "pres R (await_interrupt cfg r st out handoff c i)"
  unfolding await_interrupt_def Let_def
  by (rule pres_with_request, intro pres_intros pres_modify R_save) (simp_all add: same_identity_def)

lemma pres_leave_step [pres_intros]: "pres R (leave_step cfg wk r st out handoff cmd)"
  unfolding leave_step_def move_to_def by (intro pres_intros) (simp_all add: same_identity_def)

lemma pres_execute_step [pres_intros]: "pres R (execute_step cfg wk r st payload)"
  unfolding execute_step_def by (intro pres_intros)

lemma pres_advance_step [pres_intros]: "pres R (advance_step cfg wk r payload)"
  unfolding advance_step_def by (intro pres_intros)

lemma advance_keeps: "advance cfg wk r payload w = Some (res, w') \<Longrightarrow> R w w'"
proof -
  assume "advance cfg wk r payload w = Some (res, w')"
  then obtain c where c: "while_option (looping r) (loop_body cfg wk r) (Inr (Some payload), w) = Some c"
    and w': "w' = snd c" by (auto simp: advance_def split: prod.splits)
  have step: "R w (snd (loop_body cfg wk r s))" if i: "R w (snd s)" and l: "looping r s" for s
  proof -
    obtain p w1 where s: "s = (Inr (Some p), w1)"
      using l by (auto simp: looping_def split: prod.splits sum.splits option.splits)
    have "R w1 (snd (advance_step cfg wk r p w1))"
      using pres_advance_step [of cfg wk p] by (simp add: pres_def)
    with i R_trans s show ?thesis by (auto simp: loop_body_def)
  qed
  have "R w (snd c)" by (rule while_option_rule [where P = "\<lambda>s. R w (snd s)", OF step c]) (simp_all add: R_refl)
  with w' show ?thesis by simp
qed

subsection \<open>Resuming\<close>

lemma pres_bump [pres_intros]: "pres R (bump_interrupt_epoch r)"
  unfolding bump_interrupt_epoch_def by (intro pres_modify R_bump)

lemma pres_resume_transition [pres_intros]: "pres R (resume_transition cfg wk r x)"
  unfolding resume_transition_def by (intro pres_intros) (simp_all add: same_identity_def)

lemma pres_report_unresolved [pres_intros]: "pres R (report_unresolved cfg r i e)"
  unfolding report_unresolved_def
  by (intro pres_intros) (cases "eclass e"; auto intro!: pres_intros)

lemma pres_resume_interrupt [pres_intros]: "pres R (resume_interrupt cfg wk r p)"
  unfolding resume_interrupt_def by (intro pres_intros R_resolve) (simp_all add: same_identity_def)

lemma pres_prepare_resume [pres_intros]: "pres R (prepare_resume cfg wk r p)"
  unfolding prepare_resume_def by (intro pres_intros)

lemma pres_begin_run [pres_intros]: "pres R (begin_run cfg wk data r entry)"
  unfolding begin_run_def by (intro pres_intros) (simp_all add: same_identity_def)

lemma pres_begin_restored [pres_intros]: "pres R (begin_restored cfg c payload r)"
  unfolding begin_restored_def by (intro pres_intros) (simp_all add: same_identity_def)

end

subsection \<open>Entry points\<close>

locale runtime_relation =
  fixes R :: "world \<Rightarrow> world \<Rightarrow> bool"
  assumes R_loop: "loop_relation R r"
    and R_open: "pres R (open_run cfg wk th)"
    and R_restore: "pres R (open_restored ckpt)"

sublocale runtime_relation \<subseteq> loop_relation R r for r
  by (rule R_loop)

context runtime_relation
begin

lemma then_advance_keeps:
  assumes "pres R m" "then_advance cfg wk m w = Some (res, w')"
  shows "R w w'"
proof -
  obtain x w1 where m: "m w = (x, w1)" by (cases "m w")
  with assms(1) have "R w w1" by (auto dest: presD)
  with assms(2) m advance_keeps R_trans show ?thesis
    by (auto simp: then_advance_def split: sum.splits prod.splits option.splits)
qed

lemma pres_start_run [pres_intros]: "pres R (start_run cfg wk data th)"
  unfolding start_run_def by (intro pres_intros R_open)

lemma pres_restore_checkpoint [pres_intros]: "pres R (restore_checkpoint cfg c payload)"
  unfolding restore_checkpoint_def by (intro pres_intros R_restore)

lemma run_workflow_keeps: "run_workflow cfg wk data th w = Some (res, w') \<Longrightarrow> R w w'"
  unfolding run_workflow_def by (erule then_advance_keeps [rotated]) (rule pres_start_run)

lemma resume_workflow_keeps: "resume_workflow cfg wk r p w = Some (res, w') \<Longrightarrow> R w w'"
  unfolding resume_workflow_def by (erule then_advance_keeps [rotated]) (rule pres_prepare_resume)

lemma resume_from_checkpoint_keeps: "resume_from_checkpoint cfg wk c payload w = Some (res, w') \<Longrightarrow> R w w'"
  unfolding resume_from_checkpoint_def by (erule then_advance_keeps [rotated]) (rule pres_restore_checkpoint)

end

subsection \<open>The relations of the runtime\<close>

text \<open>\<open>write_state\<close> as one change of the world.\<close>

definition cleared :: "run_state \<Rightarrow> run_state" where
  "cleared s = s\<lparr>rs_parent_checkpoint_id := rs_checkpoint_id s, rs_checkpoint_id := None\<rparr>"

lemma cleared_fields [simp]:
  "rs_run_id (cleared s) = rs_run_id s" "rs_thread_id (cleared s) = rs_thread_id s"
  "rs_status (cleared s) = rs_status s" "rs_current_step (cleared s) = rs_current_step s"
  "rs_pending_approval (cleared s) = rs_pending_approval s"
  "rs_pending_interrupt_id (cleared s) = rs_pending_interrupt_id s"
  "rs_epoch (cleared s) = rs_epoch s" "rs_checkpoint_id (cleared s) = None"
  "rs_parent_checkpoint_id (cleared s) = rs_checkpoint_id s"
  "rs_artifacts (cleared s) = rs_artifacts s" "rs_channels (cleared s) = rs_channels s"
  "rs_metadata (cleared s) = rs_metadata s" "rs_error (cleared s) = rs_error s"
  "rs_completed_steps (cleared s) = rs_completed_steps s"
  "rs_workflow_name (cleared s) = rs_workflow_name s"
  "rs_updated_at (cleared s) = rs_updated_at s" "rs_started_at (cleared s) = rs_started_at s"
  "state_consistent (cleared s) = state_consistent s"
  by (simp_all add: cleared_def state_consistent_def)

lemma write_state_run:
  "write_state r w =
     (case dget (w_runs w) r of
        None \<Rightarrow> (Inr (), w)
      | Some s0 \<Rightarrow>
          (case put (uuid_of (w_fresh w)) (cleared s0) (w_store w) of
             Inl e \<Rightarrow> (Inl e, set_run r (cleared s0) w)
           | Inr (s, st) \<Rightarrow>
               (Inr (), (set_run r s (put_store st w))\<lparr>w_fresh := Suc (w_fresh w)\<rparr>)))"
  by (simp add: write_state_def store_put_def update_state_def py_simps cleared_def set_run_def put_store_def
      split: option.splits sum.splits prod.splits)

lemma world_frames [simp]:
  "w_store (put_store st w) = st" "w_audit (put_store st w) = w_audit w"
  "w_intr (put_store st w) = w_intr w" "w_now (put_store st w) = w_now w"
  "w_fresh (put_store st w) = w_fresh w" "w_calls (put_store st w) = w_calls w"
  "w_threads (put_store st w) = w_threads w" "w_runs (put_store st w) = w_runs w"
  "w_memory (put_store st w) = w_memory w" "w_secrets (put_store st w) = w_secrets w"
  "w_memory (put_intr i w) = w_memory w" "w_secrets (put_intr i w) = w_secrets w"
  "w_secrets (put_memory m w) = w_secrets w"
  "w_intr (put_intr i w) = i" "w_audit (put_intr i w) = w_audit w"
  "w_store (put_intr i w) = w_store w" "w_now (put_intr i w) = w_now w"
  "w_fresh (put_intr i w) = w_fresh w" "w_calls (put_intr i w) = w_calls w"
  "w_threads (put_intr i w) = w_threads w" "w_runs (put_intr i w) = w_runs w"
  "w_audit (put_memory m w) = w_audit w" "w_store (put_memory m w) = w_store w"
  "w_intr (put_memory m w) = w_intr w" "w_now (put_memory m w) = w_now w"
  "w_fresh (put_memory m w) = w_fresh w" "w_calls (put_memory m w) = w_calls w"
  "w_threads (put_memory m w) = w_threads w" "w_runs (put_memory m w) = w_runs w"
  by (simp_all add: put_store_def put_intr_def put_memory_def)

lemma run_of_put [simp]:
  "run_of (put_store st w) = run_of w" "run_of (put_intr i w) = run_of w"
  "run_of (put_memory m w) = run_of w"
  by (simp_all add: run_of_def fun_eq_iff)


end
