(* ===== verification/Runtime_Relations.thy ===== *)
theory Runtime_Relations
  imports Runtime_Laws
begin

section \<open>What no operation of the runtime can break\<close>

text \<open>
  The interpretations of \<open>runtime_relation\<close>: the event log and the clock only grow, thread records
  are not touched, the run and interrupt stores keep their invariants, checkpoints are never
  overwritten and stored epochs never go back.
\<close>

lemma open_run_run:
  "open_run cfg wk th w =
     (let r = uuid_of (w_fresh w);
          w1 = put_intr (snd (bump_epoch mem_interrupt_ops r (w_intr w))) (w\<lparr>w_fresh := Suc (w_fresh w)\<rparr>)
      in case entry_step_name wk of
           Inl e \<Rightarrow> (Inl e, w1)
         | Inr entry \<Rightarrow>
             (Inr (r, entry),
              set_run r (new_run_state r th (wf_name wk) (Some entry) (cfg_channel_defaults cfg) (w_now w)) w1))"
  by (simp add: open_run_def fresh_uuid_def bump_interrupt_epoch_def now_of_def py_simps Let_def put_intr_def
      split: sum.splits)

lemma open_restored_run:
  "open_restored c w =
     (case get_checkpoint (w_store w) c of
        None \<Rightarrow> (Inl (Exn KeyError (''Unknown checkpoint_id: '' @ c)), w)
      | Some snapshot \<Rightarrow>
          (let r = uuid_of (w_fresh w);
               w1 = set_run r (restored_state r snapshot) (w\<lparr>w_fresh := Suc (w_fresh w)\<rparr>)
           in (Inr r, put_intr (snd (bump_epoch mem_interrupt_ops r (w_intr w1))) w1)))"
  by (simp add: open_restored_def fresh_uuid_def bump_interrupt_epoch_def py_simps Let_def split: option.splits)

lemmas relation_simps =
  pres_def zoom_def split_beta write_state_run open_run_run open_restored_run Let_def

interpretation log: runtime_relation audit_grows
  by unfold_locales (auto simp: audit_grows_def relation_simps split: sum.splits option.splits)

interpretation clock: runtime_relation clock_grows
  by unfold_locales (auto simp: clock_grows_def relation_simps split: sum.splits option.splits)

text \<open>Thread records are never touched by a run: only \<open>archive_thread\<close> changes them.\<close>

definition threads_same :: "world \<Rightarrow> world \<Rightarrow> bool" where
  "threads_same w w' \<longleftrightarrow> w_threads w' = w_threads w"

interpretation threads: runtime_relation threads_same
  by unfold_locales (auto simp: threads_same_def relation_simps split: sum.splits option.splits)

text \<open>The stores keep their invariants.\<close>

definition stores_ok :: "world \<Rightarrow> bool" where
  "stores_ok w \<longleftrightarrow> store_inv (w_store w) \<and> mem_interrupts_inv (w_intr w)"

lemma stores_ok_init: "stores_ok (init_world now)"
  by (simp add: stores_ok_def init_world_def store_inv_empty mem_interrupts_inv_empty)

lemma write_state_stores_ok: "stores_ok w \<Longrightarrow> stores_ok (snd (write_state r w))"
  by (auto simp: stores_ok_def write_state_run dest: put_inv split: sum.splits option.splits)

lemma resolve_interrupt_inv:
  "mem_interrupts_inv s \<Longrightarrow>
   mem_interrupts_inv (snd (resolve_interrupt mem_interrupt_ops now r i x ep s))"
  by (auto simp: resolve_interrupt_def py_simps Let_def mem_save_inv split: option.splits)

lemma pres_keepsI: "(\<And>w. P w \<Longrightarrow> P (snd (m w))) \<Longrightarrow> pres (keeps P) m"
  by (simp add: pres_def keeps_def)

interpretation stores: runtime_relation "keeps stores_ok"
proof (unfold_locales, goal_cases)
  case (12 r)
  show ?case by (rule pres_keepsI) (rule write_state_stores_ok)
next
  case (19 cfg wk th)
  show ?case by (rule pres_keepsI) (auto simp: open_run_run Let_def stores_ok_def memi.bump_epoch_inv split: sum.splits)
next
  case (20 c)
  show ?case
    by (rule pres_keepsI) (auto simp: open_restored_run Let_def stores_ok_def memi.bump_epoch_inv split: option.splits)
qed (auto simp: keeps_def stores_ok_def pres_def zoom_def split_beta memi.create_inv resolve_interrupt_inv
    mem_save_inv memi.bump_epoch_inv set_active_run_id_inv clear_active_run_id_inv)

text \<open>Every checkpoint id was drawn before. From such a state on, checkpoints stay as written, the
  list of a thread's checkpoints only grows, and the epoch of a stored run does not go back.\<close>

definition ids_drawn :: "world \<Rightarrow> bool" where
  "ids_drawn w \<longleftrightarrow>
     (\<forall>c. get_checkpoint (w_store w) c \<noteq> None \<longrightarrow> (\<exists>n < w_fresh w. c = uuid_of n))"

definition store_extends :: "mem_run_store \<Rightarrow> mem_run_store \<Rightarrow> bool" where
  "store_extends st st' \<longleftrightarrow>
     (\<forall>c s. get_checkpoint st c = Some s \<longrightarrow> get_checkpoint st' c = Some s) \<and>
     (\<forall>t. prefix (dget_or (st_thread_checkpoints st) t []) (dget_or (st_thread_checkpoints st') t [])) \<and>
     (\<forall>r s. get st r = Some s \<longrightarrow> (\<exists>s'. get st' r = Some s' \<and> rs_epoch s \<le> rs_epoch s'))"

definition store_grows :: "world \<Rightarrow> world \<Rightarrow> bool" where
  "store_grows w w' \<longleftrightarrow>
     (ids_drawn w \<longrightarrow> ids_drawn w' \<and> store_extends (w_store w) (w_store w'))"

lemma store_extends_refl [simp]: "store_extends st st"
  by (auto simp: store_extends_def)

lemma store_extends_trans:
  assumes "store_extends s1 s2" "store_extends s2 s3"
  shows "store_extends s1 s3"
  unfolding store_extends_def
proof (intro conjI allI impI)
  show "get_checkpoint s3 c = Some s" if "get_checkpoint s1 c = Some s" for c s
    using that assms unfolding store_extends_def by metis
  show "prefix (dget_or (st_thread_checkpoints s1) t []) (dget_or (st_thread_checkpoints s3) t [])" for t
    using assms unfolding store_extends_def by (meson prefix_order.order_trans)
  show "\<exists>s'. get s3 r = Some s' \<and> rs_epoch s \<le> rs_epoch s'" if "get s1 r = Some s" for r s
    using that assms unfolding store_extends_def by (meson order.trans)
qed

lemma put_extends:
  assumes p: "put u s st = Inr (s', st')" and new: "rs_checkpoint_id s = None" "get_checkpoint st u = None"
  shows "store_extends st st'" and "get_checkpoint st' = (get_checkpoint st)(u \<mapsto> s')"
proof -
  show c: "get_checkpoint st' = (get_checkpoint st)(u \<mapsto> s')"
    using put_get_checkpoint [OF p] new by (simp add: or_else_def)
  have g: "get st' = (get st)(rs_run_id s \<mapsto> s')" using p by (rule put_get)
  have e: "rs_epoch s' = next_epoch (get st (rs_run_id s))" using p by (rule put_InrE) simp
  have i: "prefix (dget_or (st_thread_checkpoints st) t []) (dget_or (st_thread_checkpoints st') t [])" for t
    using p by (rule put_InrE) (simp add: write_checkpoint_index Let_def)
  show "store_extends st st'"
    unfolding store_extends_def using c g e i new(2) by auto
qed

lemma write_state_grows: "store_grows w (snd (write_state r w))"
proof (cases "dget (w_runs w) r")
  case None
  then show ?thesis by (simp add: store_grows_def write_state_run)
next
  case (Some s0)
  show ?thesis
  proof (cases "put (uuid_of (w_fresh w)) (cleared s0) (w_store w)")
    case (Inl e)
    with Some show ?thesis by (simp add: store_grows_def write_state_run ids_drawn_def)
  next
    case (Inr x)
    obtain s st where x: "x = (s, st)" by (cases x)
    show ?thesis
      unfolding store_grows_def
    proof (intro impI)
      assume d: "ids_drawn w"
      then have new: "get_checkpoint (w_store w) (uuid_of (w_fresh w)) = None"
        unfolding ids_drawn_def by auto
      note ext = put_extends [OF Inr [unfolded x] _ new, simplified]
      from ext(2) d show "ids_drawn (snd (write_state r w)) \<and>
          store_extends (w_store w) (w_store (snd (write_state r w)))"
        using ext(1) by (auto simp: write_state_run Some Inr x ids_drawn_def less_Suc_eq split: if_splits)
    qed
  qed
qed

lemma active_extends [simp]:
  "store_extends st (set_active_run_id t r st)" "store_extends st (clear_active_run_id t r st)"
  "get_checkpoint (set_active_run_id t r st) = get_checkpoint st"
  "get_checkpoint (clear_active_run_id t r st) = get_checkpoint st"
  by (auto simp: store_extends_def set_active_run_id_def clear_active_run_id_def Let_def get_checkpoint_def
      get_def fun_eq_iff)

lemma ids_drawn_mono:
  "\<lbrakk>ids_drawn w; w_store w' = w_store w; w_fresh w \<le> w_fresh w'\<rbrakk> \<Longrightarrow> ids_drawn w'"
  unfolding ids_drawn_def by (metis order.strict_trans2)

interpretation growth: runtime_relation store_grows
proof (unfold_locales, goal_cases)
  case (2 r u v w)
  then show ?case using store_extends_trans by (auto simp: store_grows_def)
next
  case (12 r)
  show ?case by (simp add: pres_def write_state_grows)
next
  case (19 cfg wk th)
  show ?case
    by (auto simp: store_grows_def relation_simps elim!: ids_drawn_mono split: sum.splits)
next
  case (20 c)
  show ?case
    by (auto simp: store_grows_def relation_simps elim!: ids_drawn_mono split: option.splits)
qed (auto simp: store_grows_def ids_drawn_def pres_def zoom_def split_beta less_Suc_eq)

subsection \<open>Cache and store agree\<close>

text \<open>A cached run is filed under its own id, which was drawn before; the store, where it has the run,
  has it at the same epoch and on the same thread. Such a cache loses no run, and no run changes its
  thread or its workflow.\<close>

definition agrees :: "run_state \<Rightarrow> run_state \<Rightarrow> bool" where
  "agrees old s \<longleftrightarrow>
     rs_epoch old = rs_epoch s \<and> rs_thread_id old = rs_thread_id s \<and>
     rs_workflow_name old = rs_workflow_name s"

definition drawn :: "world \<Rightarrow> string \<Rightarrow> bool" where
  "drawn w r \<longleftrightarrow> (\<exists>n < w_fresh w. r = uuid_of n)"

definition cached_ok :: "world \<Rightarrow> bool" where
  "cached_ok w \<longleftrightarrow>
     (\<forall>r s. dget (w_runs w) r = Some s \<longrightarrow>
        rs_run_id s = r \<and> drawn w r \<and> (\<forall>old. get (w_store w) r = Some old \<longrightarrow> agrees old s))"

definition stored_ok :: "world \<Rightarrow> bool" where
  "stored_ok w \<longleftrightarrow> (\<forall>r s. get (w_store w) r = Some s \<longrightarrow> rs_run_id s = r \<and> drawn w r)"

definition world_ok :: "world \<Rightarrow> bool" where
  "world_ok w \<longleftrightarrow> stores_ok w \<and> ids_drawn w \<and> cached_ok w \<and> stored_ok w"

definition runs_kept :: "world \<Rightarrow> world \<Rightarrow> bool" where
  "runs_kept w w' \<longleftrightarrow>
     (\<forall>r s. dget (w_runs w) r = Some s \<longrightarrow>
        (\<exists>s'. dget (w_runs w') r = Some s' \<and> rs_thread_id s' = rs_thread_id s \<and>
           rs_workflow_name s' = rs_workflow_name s))"

definition cache_evolves :: "world \<Rightarrow> world \<Rightarrow> bool" where
  "cache_evolves w w' \<longleftrightarrow>
     (cached_ok w \<and> stored_ok w \<longrightarrow> cached_ok w' \<and> stored_ok w' \<and> runs_kept w w')"

lemma world_ok_init: "world_ok (init_world now)"
  using stores_ok_init [of now]
  by (auto simp: world_ok_def ids_drawn_def cached_ok_def stored_ok_def init_world_def empty_run_store_def
      get_checkpoint_def get_def)

lemma runs_kept_refl [simp]: "runs_kept w w"
  by (simp add: runs_kept_def)

lemma runs_kept_trans:
  assumes "runs_kept u v" "runs_kept v w"
  shows "runs_kept u w"
  unfolding runs_kept_def
proof (intro allI impI)
  fix r s assume "dget (w_runs u) r = Some s"
  then obtain s1 where s1: "dget (w_runs v) r = Some s1" "rs_thread_id s1 = rs_thread_id s"
    "rs_workflow_name s1 = rs_workflow_name s"
    using assms(1) unfolding runs_kept_def by blast
  then obtain s2 where "dget (w_runs w) r = Some s2" "rs_thread_id s2 = rs_thread_id s1"
    "rs_workflow_name s2 = rs_workflow_name s1"
    using assms(2) unfolding runs_kept_def by blast
  with s1 show "\<exists>s'. dget (w_runs w) r = Some s' \<and> rs_thread_id s' = rs_thread_id s \<and>
      rs_workflow_name s' = rs_workflow_name s" by simp
qed

lemma not_drawn_fresh [simp]: "\<not> drawn w (uuid_of (w_fresh w))"
  by (simp add: drawn_def)

lemma drawn_mono: "drawn w r \<Longrightarrow> w_fresh w \<le> w_fresh w' \<Longrightarrow> drawn w' r"
  unfolding drawn_def by (metis order.strict_trans2)

text \<open>A change that touches neither the cache nor the stored states.\<close>

lemma cache_evolves_frame:
  assumes "w_runs w' = w_runs w" "get (w_store w') = get (w_store w)" "w_fresh w \<le> w_fresh w'"
  shows "cache_evolves w w'"
proof -
  have "drawn w r \<Longrightarrow> drawn w' r" for r using assms(3) by (rule drawn_mono [rotated])
  then show ?thesis
    using assms(1,2) unfolding cache_evolves_def cached_ok_def stored_ok_def runs_kept_def by auto
qed

text \<open>A cached run replaced by one that agrees with what is stored.\<close>

lemma cache_evolves_set:
  assumes s': "rs_run_id s' = r" "\<And>old. get (w_store w') r = Some old \<Longrightarrow> agrees old s'"
    and old: "\<And>s. cached_ok w \<Longrightarrow> stored_ok w \<Longrightarrow> dget (w_runs w) r = Some s \<Longrightarrow> rs_thread_id s' = rs_thread_id s \<and>
      rs_workflow_name s' = rs_workflow_name s"
    and w': "w_runs w' = dset r s' (w_runs w)" "\<And>q. q \<noteq> r \<Longrightarrow> get (w_store w') q = get (w_store w) q"
      "w_fresh w \<le> w_fresh w'"
    and st: "\<And>old. get (w_store w') r = Some old \<Longrightarrow> rs_run_id old = r"
    and dr: "cached_ok w \<Longrightarrow> stored_ok w \<Longrightarrow> drawn w' r"
  shows "cache_evolves w w'"
  unfolding cache_evolves_def
proof (intro impI, elim conjE, intro conjI)
  assume c: "cached_ok w" and o: "stored_ok w"
  note dm = drawn_mono [OF _ w'(3)]
  show "cached_ok w'"
    using c s' w'(1,2) dm dr [OF c o] unfolding cached_ok_def by auto
  show "stored_ok w'"
    unfolding stored_ok_def
  proof (intro allI impI)
    fix q s assume q: "get (w_store w') q = Some s"
    show "rs_run_id s = q \<and> drawn w' q"
    proof (cases "q = r")
      case True
      with q st dr [OF c o] show ?thesis by simp
    next
      case False
      with q w'(2) o dm show ?thesis unfolding stored_ok_def by metis
    qed
  qed
  show "runs_kept w w'"
    using old [OF c o] w'(1) unfolding runs_kept_def by auto
qed

lemma agrees_same_identity: "agrees old s \<Longrightarrow> same_identity s s' \<Longrightarrow> agrees old s'"
  by (simp add: agrees_def same_identity_def)

lemma cache_evolves_run:
  assumes s: "dget (w_runs w) r = Some s" and i: "same_identity s s'"
  shows "cache_evolves w (set_run r s' w)"
proof -
  have ?thesis if c: "cached_ok w" "stored_ok w"
  proof (rule cache_evolves_set [where r = r and s' = s'])
    from s c(1) have k: "rs_run_id s = r" "drawn w r" "\<And>old. get (w_store w) r = Some old \<Longrightarrow> agrees old s"
      by (auto simp: cached_ok_def)
    then show "rs_run_id s' = r" using i by (simp add: same_identity_def)
    show "agrees old s'" if "get (w_store (set_run r s' w)) r = Some old" for old
      using that k(3) i agrees_same_identity by auto
    show "drawn (set_run r s' w) r" using k(2) by (simp add: drawn_def)
    show "rs_run_id old = r" if "get (w_store (set_run r s' w)) r = Some old" for old
      using that c(2) by (simp add: stored_ok_def)
  qed (use s i in \<open>auto simp: set_run_def same_identity_def\<close>)
  then show ?thesis unfolding cache_evolves_def by blast
qed

lemma cache_evolves_load:
  assumes s: "get (w_store w) r = Some s"
  shows "cache_evolves w (set_run r s w)"
proof -
  have ?thesis if c: "cached_ok w" "stored_ok w"
  proof (rule cache_evolves_set [where r = r and s' = s])
    from s c(2) have k: "rs_run_id s = r" "drawn w r" by (auto simp: stored_ok_def)
    then show "rs_run_id s = r" "drawn (set_run r s w) r" by (simp_all add: drawn_def)
    show "rs_run_id old = r" if "get (w_store (set_run r s w)) r = Some old" for old
      using that c(2) by (simp add: stored_ok_def)
    show "rs_thread_id s = rs_thread_id s0 \<and> rs_workflow_name s = rs_workflow_name s0"
      if "dget (w_runs w) r = Some s0" for s0
      using that c(1) s by (auto simp: cached_ok_def agrees_def)
  qed (use s in \<open>auto simp: set_run_def agrees_def\<close>)
  then show ?thesis unfolding cache_evolves_def by blast
qed

lemma cache_evolves_write: "cache_evolves w (snd (write_state r w))"
proof (cases "dget (w_runs w) r")
  case None
  then show ?thesis by (simp add: write_state_run cache_evolves_def)
next
  case (Some s0)
  show ?thesis
  proof (cases "put (uuid_of (w_fresh w)) (cleared s0) (w_store w)")
    case (Inl e)
    have run: "snd (write_state r w) = set_run r (cleared s0) w"
      by (simp add: write_state_run Some Inl)
    have ?thesis if c: "cached_ok w" "stored_ok w"
      unfolding run
    proof (rule cache_evolves_set [where r = r and s' = "cleared s0"])
      show "rs_run_id (cleared s0) = r" using Some c by (auto simp: cached_ok_def)
      show "agrees old (cleared s0)" if "get (w_store (set_run r (cleared s0) w)) r = Some old" for old
        using that Some c by (auto simp: cached_ok_def agrees_def)
      show "drawn (set_run r (cleared s0) w) r" using Some c by (auto simp: cached_ok_def drawn_def)
      show "rs_run_id old = r" if "get (w_store (set_run r (cleared s0) w)) r = Some old" for old
        using that c(2) by (simp add: stored_ok_def)
    qed (use Some in \<open>auto simp: set_run_def\<close>)
    then show ?thesis unfolding cache_evolves_def by blast
  next
    case (Inr x)
    obtain s st where x: "x = (s, st)" by (cases x)
    let ?w = "(set_run r s (put_store st w))\<lparr>w_fresh := Suc (w_fresh w)\<rparr>"
    have run: "snd (write_state r w) = ?w" by (simp add: write_state_run Some Inr x)
    from Inr x have p: "put (uuid_of (w_fresh w)) (cleared s0) (w_store w) = Inr (s, st)" by simp
    have s: "s = written (uuid_of (w_fresh w)) (get (w_store w) (rs_run_id s0)) (cleared s0)"
      using p by (rule put_InrE) simp
    have g: "get st = (get (w_store w))(rs_run_id s0 \<mapsto> s)" using put_get [OF p] by simp
    have ?thesis if c: "cached_ok w" "stored_ok w"
      unfolding run
    proof (rule cache_evolves_set [where r = r and s' = s])
      have r: "rs_run_id s0 = r" using Some c by (auto simp: cached_ok_def)
      then show "rs_run_id s = r" by (simp add: s)
      show "agrees old s" if "get (w_store ?w) r = Some old" for old
        using that g r by (simp add: agrees_def)
      show "get (w_store ?w) q = get (w_store w) q" if "q \<noteq> r" for q
        using that g r by simp
      show "rs_run_id old = r" if "get (w_store ?w) r = Some old" for old
        using that g r by (auto simp: s)
      have "drawn w r" using Some c by (auto simp: cached_ok_def)
      then show "drawn ?w r" by (rule drawn_mono) simp
      show "rs_thread_id s = rs_thread_id s1 \<and> rs_workflow_name s = rs_workflow_name s1"
        if "dget (w_runs w) r = Some s1" for s1
        using that Some c r by (auto simp: s written_def cached_ok_def agrees_def next_epoch_def split: option.splits)
    qed (auto simp: set_run_def)
    then show ?thesis unfolding cache_evolves_def by blast
  qed
qed

lemma cache_evolves_trans:
  "cache_evolves u v \<Longrightarrow> cache_evolves v w \<Longrightarrow> cache_evolves u w"
  unfolding cache_evolves_def using runs_kept_trans by blast

lemma cache_evolves_open:
  assumes s: "rs_run_id s = uuid_of (w_fresh w)"
    and w': "w_runs w' = dset (uuid_of (w_fresh w)) s (w_runs w)" "w_store w' = w_store w"
      "w_fresh w' = Suc (w_fresh w)"
  shows "cache_evolves w w'"
proof -
  let ?r = "uuid_of (w_fresh w)"
  have ?thesis if c: "cached_ok w" "stored_ok w"
  proof (rule cache_evolves_set [where r = ?r and s' = s])
    have n: "get (w_store w) ?r = None" "dget (w_runs w) ?r = None"
      using c not_drawn_fresh unfolding cached_ok_def stored_ok_def by (metis option.exhaust)+
    show "agrees old s" if "get (w_store w') ?r = Some old" for old using that n w' by simp
    show "rs_run_id old = ?r" if "get (w_store w') ?r = Some old" for old using that n w' by simp
    show "rs_thread_id s = rs_thread_id s0 \<and> rs_workflow_name s = rs_workflow_name s0"
      if "dget (w_runs w) ?r = Some s0" for s0 using that n by simp
    show "drawn w' ?r" using w' by (auto simp: drawn_def)
  qed (use s w' in auto)
  then show ?thesis unfolding cache_evolves_def by blast
qed

lemma set_active_get [simp]:
  "get (set_active_run_id t r st) = get st" "get (clear_active_run_id t r st) = get st"
  by (simp_all add: fun_eq_iff get_def set_active_run_id_def clear_active_run_id_def Let_def)

interpretation cache: runtime_relation cache_evolves
proof (unfold_locales, goal_cases)
  case (2 r u v w)
  then show ?case by (rule cache_evolves_trans)
next
  case (5 r w s)
  then show ?case by (intro cache_evolves_load)
next
  case (6 r w s md)
  then show ?case by (rule cache_evolves_run) simp
next
  case (11 r w s s')
  then show ?case by (rule cache_evolves_run)
next
  case (19 cfg wk th)
  show ?case
    unfolding pres_def
  proof
    fix w
    show "cache_evolves w (snd (open_run cfg wk th w))"
    proof (cases "entry_step_name wk")
      case (Inl e)
      then show ?thesis by (simp add: open_run_run Let_def cache_evolves_frame)
    next
      case (Inr entry)
      let ?s = "new_run_state (uuid_of (w_fresh w)) th (wf_name wk) (Some entry) (cfg_channel_defaults cfg) (w_now w)"
      show ?thesis
        by (rule cache_evolves_open [where s = ?s])
          (simp_all add: open_run_run Let_def Inr set_run_def, simp add: new_run_state_def)
    qed
  qed
next
  case (20 c)
  show ?case
    unfolding pres_def
  proof
    fix w
    show "cache_evolves w (snd (open_restored c w))"
    proof (cases "get_checkpoint (w_store w) c")
      case None
      then show ?thesis by (simp add: open_restored_run cache_evolves_frame)
    next
      case (Some snapshot)
      show ?thesis
        by (rule cache_evolves_open [where s = "restored_state (uuid_of (w_fresh w)) snapshot"])
          (simp_all add: open_restored_run Let_def Some set_run_def, simp add: restored_state_def)
    qed
  qed
next
  case (12 r)
  show ?case by (simp add: pres_def cache_evolves_write)
qed (auto simp: pres_def zoom_def split_beta intro!: cache_evolves_frame)

subsection \<open>All of it together\<close>

definition evolves :: "world \<Rightarrow> world \<Rightarrow> bool" where
  "evolves w w' \<longleftrightarrow> keeps stores_ok w w' \<and> store_grows w w' \<and> cache_evolves w w'"

lemma evolvesI: "keeps stores_ok w w' \<Longrightarrow> store_grows w w' \<Longrightarrow> cache_evolves w w' \<Longrightarrow> evolves w w'"
  by (simp add: evolves_def)

lemma pres_evolvesI:
  "pres (keeps stores_ok) m \<Longrightarrow> pres store_grows m \<Longrightarrow> pres cache_evolves m \<Longrightarrow> pres evolves m"
  by (simp add: pres_def evolves_def)

lemmas atomic_changes =
  stores.R_refl growth.R_refl cache.R_refl
  stores.R_fresh growth.R_fresh cache.R_fresh
  stores.R_event growth.R_event cache.R_event
  stores.R_run growth.R_run cache.R_run
  stores.R_load growth.R_load cache.R_load
  stores.R_metadata growth.R_metadata cache.R_metadata
  stores.R_open growth.R_open cache.R_open
  stores.R_restore growth.R_restore cache.R_restore
  stores.R_write growth.R_write cache.R_write
  stores.R_now growth.R_now cache.R_now
  stores.R_memory growth.R_memory cache.R_memory
  stores.R_secrets growth.R_secrets cache.R_secrets
  stores.R_calls growth.R_calls cache.R_calls
  stores.R_set_active growth.R_set_active cache.R_set_active
  stores.R_clear_active growth.R_clear_active cache.R_clear_active
  stores.R_create growth.R_create cache.R_create
  stores.R_resolve growth.R_resolve cache.R_resolve
  stores.R_save growth.R_save cache.R_save
  stores.R_bump growth.R_bump cache.R_bump

interpretation ev: runtime_relation evolves
proof (unfold_locales, goal_cases)
  case (2 r u v w)
  then show ?case
    unfolding evolves_def using stores.R_trans growth.R_trans cache.R_trans by blast
qed (assumption | rule evolvesI pres_evolvesI atomic_changes)+

lemma evolves_ok:
  "evolves w w' \<Longrightarrow> world_ok w \<Longrightarrow> world_ok w' \<and> runs_kept w w' \<and> store_extends (w_store w) (w_store w')"
  by (simp add: evolves_def world_ok_def keeps_def store_grows_def cache_evolves_def)

lemma world_ok_step: "pres evolves m \<Longrightarrow> world_ok w \<Longrightarrow> m w = (x, w') \<Longrightarrow> world_ok w'"
  using presD [of evolves m w x w'] evolves_ok [of w w'] by simp

end
