(* ===== verification/Runtime_Facts.thy ===== *)
theory Runtime_Facts
  imports Runtime_Relations
begin

section \<open>What the building blocks do, one outcome at a time\<close>

text \<open>
  With an emitter that does not redact, on a cached run of a well-formed world: events are appended,
  a consistent state is persisted, a failing run is marked and stored. \<open>only_events\<close> bounds the kinds
  of events an operation may emit.
\<close>

abbreviation plain :: "config \<Rightarrow> bool" where
  "plain cfg \<equiv> cfg_secrets_provider cfg = None"

subsection \<open>Events\<close>

definition log_event ::
  "string \<Rightarrow> event_type \<Rightarrow> string option \<Rightarrow> json dict \<Rightarrow> world \<Rightarrow> world" where
  "log_event r ev st p w =
     w\<lparr>w_fresh := Suc (w_fresh w),
       w_audit := w_audit w @
         [\<lparr>ev_event_id = uuid_of (w_fresh w), ev_timestamp = w_now w, ev_run_id = r,
           ev_thread_id = Some (rs_thread_id (run_of w r)),
           ev_workflow_name = rs_workflow_name (run_of w r), ev_step_name = st, ev_event_type = ev,
           ev_payload = p, ev_extensions = []\<rparr>]\<rparr>"

lemma log_event_frame [simp]:
  "w_runs (log_event r ev st p w) = w_runs w" "w_store (log_event r ev st p w) = w_store w"
  "w_intr (log_event r ev st p w) = w_intr w" "w_memory (log_event r ev st p w) = w_memory w"
  "w_secrets (log_event r ev st p w) = w_secrets w" "w_threads (log_event r ev st p w) = w_threads w"
  "w_now (log_event r ev st p w) = w_now w" "w_calls (log_event r ev st p w) = w_calls w"
  "run_of (log_event r ev st p w) = run_of w"
  by (simp_all add: log_event_def run_of_def fun_eq_iff)

lemma log_event_audit:
  "map ev_event_type (w_audit (log_event r ev st p w)) = map ev_event_type (w_audit w) @ [ev]"
  by (simp add: log_event_def)

lemma emit_run_plain:
  "\<lbrakk>plain cfg; dget (w_runs w) r = Some s\<rbrakk> \<Longrightarrow> emit_run cfg r ev st p w = (Inr (), log_event r ev st p w)"
  by (simp add: emit_run_def emit_audit_def known_run_def state_of_def run_of_def py_simps emit_event_plain log_event_def)

lemma emit_audit_plain:
  "\<lbrakk>plain cfg; dget (w_runs w) r = Some s; rs_workflow_name s = wn\<rbrakk> \<Longrightarrow>
   emit_audit cfg r wn ev st p w = (Inr (), log_event r ev st p w)"
  by (simp add: emit_audit_def known_run_def run_of_def py_simps emit_event_plain log_event_def)

text \<open>The kinds of events an operation adds to the log.\<close>

definition only_events :: "event_type set \<Rightarrow> world \<Rightarrow> world \<Rightarrow> bool" where
  "only_events K w w' \<longleftrightarrow>
     (\<exists>es. w_audit w' = w_audit w @ es \<and> ev_event_type ` set es \<subseteq> K)"

lemma only_events_same: "w_audit w' = w_audit w \<Longrightarrow> only_events K w w'"
  by (simp add: only_events_def)

interpretation only: step_relation "only_events K" for K
proof
  show "only_events K w w" for w by (simp add: only_events_same)
  show "only_events K u w" if uv: "only_events K u v" and vw: "only_events K v w" for u v w
  proof -
    from uv obtain es where es: "w_audit v = w_audit u @ es" "ev_event_type ` set es \<subseteq> K"
      unfolding only_events_def by blast
    from vw obtain fs where fs: "w_audit w = w_audit v @ fs" "ev_event_type ` set fs \<subseteq> K"
      unfolding only_events_def by blast
    from es fs have "w_audit w = w_audit u @ es @ fs" "ev_event_type ` set (es @ fs) \<subseteq> K"
      by auto
    then show ?thesis unfolding only_events_def by blast
  qed
qed

lemma only_events_log: "ev \<in> K \<Longrightarrow> only_events K w (log_event r ev st p w)"
  by (auto simp: only_events_def log_event_def)

lemma only_emit_audit:
  assumes "plain cfg" "ev \<in> K"
  shows "pres (only_events K) (emit_audit cfg r wn ev st p)"
  using assms
  by (auto simp: pres_def emit_audit_def py_simps known_run_def emit_event_plain only_events_def
      split: option.splits)

lemma only_emit: "plain cfg \<Longrightarrow> ev \<in> K \<Longrightarrow> pres (only_events K) (emit_run cfg r ev st p)"
  unfolding emit_run_def state_of_def by (intro pres_intros only_emit_audit)

lemma only_update [pres_intros]: "pres (only_events K) (update_state r f)"
  by (auto simp: pres_def update_state_def py_simps only_events_same split: option.splits)

lemma only_state_of [pres_intros]: "pres (only_events K) (state_of r)"
  unfolding state_of_def by (rule only.pres_gets)

lemma only_touch [pres_intros]: "pres (only_events K) (touch_state r)"
  unfolding touch_state_def now_of_def by (intro pres_intros)

lemma only_write [pres_intros]: "pres (only_events K) (write_state r)"
  by (auto simp: pres_def write_state_run only_events_same split: option.splits sum.splits)

lemma only_clear [pres_intros]: "pres (only_events K) (clear_active_run r)"
  unfolding clear_active_run_def
  by (intro pres_intros only.pres_modify) (simp add: only_events_same)

lemma only_persist: "plain cfg \<Longrightarrow> CHECKPOINT_WRITTEN \<in> K \<Longrightarrow> pres (only_events K) (persist_state cfg r)"
  unfolding persist_state_def by (intro pres_intros only_emit)

lemma only_fail_run:
  "plain cfg \<Longrightarrow> {CHECKPOINT_WRITTEN, RUN_FAILED} \<subseteq> K \<Longrightarrow> pres (only_events K) (fail_run cfg r st e)"
  unfolding fail_run_def by (intro pres_intros only_persist only_emit) auto

lemma only_evaluate_policies:
  "plain cfg \<Longrightarrow> {POLICY_CHECKED, POLICY_DENIED} \<subseteq> K \<Longrightarrow>
   pres (only_events K) (evaluate_policies cfg wk r st ctx)"
  unfolding evaluate_policies_def evaluate_policy_def Let_def by (intro pres_intros only_emit) auto

lemma only_await_approval:
  "plain cfg \<Longrightarrow> {CHECKPOINT_WRITTEN, APPROVAL_REQUESTED} \<subseteq> K \<Longrightarrow>
   pres (only_events K) (await_approval cfg r st reason payload)"
  unfolding await_approval_def create_request_def now_of_def
  by (intro pres_intros only_persist only_emit)
    (auto simp: pres_def fresh_uuid_def only_events_same)

subsection \<open>Persisting\<close>

lemma world_ok_drawn:
  assumes "world_ok w" "dget (w_runs w) r = Some s"
  shows "rs_run_id s = r" "\<And>old. get (w_store w) r = Some old \<Longrightarrow> rs_epoch old = rs_epoch s"
  using assms by (auto simp: world_ok_def cached_ok_def agrees_def)

lemma write_state_ok:
  assumes w: "world_ok w" and s: "dget (w_runs w) r = Some s" and c: "state_consistent s"
  defines "s' \<equiv> written (uuid_of (w_fresh w)) (get (w_store w) r) (cleared s)"
  shows "\<exists>st. write_state r w = (Inr (), (set_run r s' (put_store st w))\<lparr>w_fresh := Suc (w_fresh w)\<rparr>) \<and>
    get st r = Some s' \<and> get_checkpoint st (uuid_of (w_fresh w)) = Some s' \<and>
    st_thread_active st = st_thread_active (w_store w)"
proof -
  have r: "rs_run_id s = r" using world_ok_drawn(1) [OF w s] .
  have "\<exists>st. put (uuid_of (w_fresh w)) (cleared s) (w_store w) = Inr (s', st)"
    using put_OK [of "cleared s" "w_store w" "uuid_of (w_fresh w)"] world_ok_drawn(2) [OF w s] c r
    by (simp add: s'_def)
  then obtain st where st: "put (uuid_of (w_fresh w)) (cleared s) (w_store w) = Inr (s', st)" ..
  moreover have "st_thread_active st = st_thread_active (w_store w)"
    using st by (rule put_InrE) simp
  ultimately show ?thesis
    using put_get [OF st] put_get_checkpoint [OF st] r s
    by (auto simp: write_state_run or_else_def)
qed

text \<open>A persisted run: the state that was written, and what else the world keeps.\<close>

definition persisted :: "string \<Rightarrow> run_state \<Rightarrow> world \<Rightarrow> world \<Rightarrow> bool" where
  "persisted r s w w' \<longleftrightarrow>
     (let s' = written (uuid_of (w_fresh w)) (get (w_store w) r) (cleared s)
      in dget (w_runs w') r = Some s' \<and> (\<forall>q. q \<noteq> r \<longrightarrow> dget (w_runs w') q = dget (w_runs w) q) \<and>
         get (w_store w') r = Some s' \<and> get_checkpoint (w_store w') (uuid_of (w_fresh w)) = Some s' \<and>
         (terminal (rs_status s) \<longrightarrow> dget (st_thread_active (w_store w')) (rs_thread_id s) \<noteq> Some r) \<and>
         (\<not> terminal (rs_status s) \<longrightarrow> st_thread_active (w_store w') = st_thread_active (w_store w)) \<and>
         w_intr w' = w_intr w \<and> w_memory w' = w_memory w \<and> w_secrets w' = w_secrets w \<and>
         w_threads w' = w_threads w \<and> w_now w' = w_now w \<and> w_calls w' = w_calls w)"

lemma clear_active_removes: "dget (st_thread_active (clear_active_run_id t r st)) t \<noteq> Some r"
  by (simp add: clear_active_run_id_def)

lemma persist_ok:
  assumes cfg: "plain cfg" and w: "world_ok w" and s: "dget (w_runs w) r = Some s" and c: "state_consistent s"
  shows "\<exists>w'. persist_state cfg r w = (Inr (), w') \<and> persisted r s w w' \<and> world_ok w'"
proof -
  define s' where "s' = written (uuid_of (w_fresh w)) (get (w_store w) r) (cleared s)"
  obtain st where wr: "write_state r w = (Inr (), (set_run r s' (put_store st w))\<lparr>w_fresh := Suc (w_fresh w)\<rparr>)"
    and st: "get st r = Some s'" "get_checkpoint st (uuid_of (w_fresh w)) = Some s'"
      "st_thread_active st = st_thread_active (w_store w)"
    using write_state_ok [OF w s c] unfolding s'_def by blast
  let ?w1 = "(set_run r s' (put_store st w))\<lparr>w_fresh := Suc (w_fresh w)\<rparr>"
  let ?w2 = "log_event r CHECKPOINT_WRITTEN (rs_current_step s') (checkpoint_payload s') ?w1"
  have runs: "dget (w_runs ?w1) r = Some s'" "\<And>q. q \<noteq> r \<Longrightarrow> dget (w_runs ?w1) q = dget (w_runs w) q"
    by (simp_all add: set_run_def)
  have of1: "run_of ?w1 r = s'" using runs by (simp add: run_of_def)
  have em: "emit_run cfg r CHECKPOINT_WRITTEN (rs_current_step s') (checkpoint_payload s') ?w1 = (Inr (), ?w2)"
    using emit_run_plain [OF cfg runs(1)] .
  let ?w3 = "if terminal (rs_status s') then put_store (clear_active_run_id (rs_thread_id s') r (w_store ?w2)) ?w2 else ?w2"
  have run: "persist_state cfg r w = (Inr (), ?w3)"
    using wr em of1
    by (simp add: persist_state_def py_simps state_of_def clear_active_run_def)
  have "rs_status s' = rs_status s" "rs_thread_id s' = rs_thread_id s" by (simp_all add: s'_def)
  then have "persisted r s w ?w3"
    using runs st clear_active_removes
    by (simp add: persisted_def Let_def s'_def [symmetric])
  moreover have "world_ok ?w3"
    using world_ok_step [OF ev.pres_persist w run] .
  ultimately show ?thesis using run by blast
qed

lemma persisted_state:
  assumes "persisted r s w w'"
  defines "s' \<equiv> written (uuid_of (w_fresh w)) (get (w_store w) r) (cleared s)"
  shows "dget (w_runs w') r = Some s'" "run_of w' r = s'" "get (w_store w') r = Some s'"
    "w_memory w' = w_memory w" "w_calls w' = w_calls w" "w_intr w' = w_intr w" "w_now w' = w_now w"
    "w_secrets w' = w_secrets w" "w_threads w' = w_threads w"
    "terminal (rs_status s) \<Longrightarrow> dget (st_thread_active (w_store w')) (rs_thread_id s) \<noteq> Some r"
    "\<not> terminal (rs_status s) \<Longrightarrow> st_thread_active (w_store w') = st_thread_active (w_store w)"
  using assms by (simp_all add: persisted_def Let_def run_of_def)

lemma update_state_run:
  "dget (w_runs w) r = Some s \<Longrightarrow> update_state r f w = (Inr (), set_run r (f s) w)"
  by (simp add: update_state_def py_simps)

lemma touch_state_run:
  "dget (w_runs w) r = Some s \<Longrightarrow> touch_state r w = (Inr (), set_run r (touch (w_now w) s) w)"
  by (simp add: touch_state_def now_of_def py_simps update_state_run)

lemma runs_set_run [simp]: "dget (w_runs (set_run r s w)) q = (if q = r then Some s else dget (w_runs w) q)"
  by (simp add: set_run_def)

lemma world_ok_set_run:
  assumes "world_ok w" "dget (w_runs w) r = Some s" "same_identity s s'"
  shows "world_ok (set_run r s' w)"
  using ev.R_run [OF assms(2,3)] assms(1) evolves_ok by blast

lemma touch_fields [simp]:
  "rs_status (touch n s) = rs_status s" "state_consistent (touch n s) = state_consistent s"
  "rs_error (touch n s) = rs_error s" "rs_artifacts (touch n s) = rs_artifacts s"
  "rs_completed_steps (touch n s) = rs_completed_steps s" "rs_current_step (touch n s) = rs_current_step s"
  "rs_thread_id (touch n s) = rs_thread_id s" "rs_run_id (touch n s) = rs_run_id s"
  "rs_pending_approval (touch n s) = rs_pending_approval s"
  "rs_pending_interrupt_id (touch n s) = rs_pending_interrupt_id s"
  "rs_metadata (touch n s) = rs_metadata s" "rs_channels (touch n s) = rs_channels s"
  "rs_workflow_name (touch n s) = rs_workflow_name s" "rs_epoch (touch n s) = rs_epoch s"
  "rs_checkpoint_id (touch n s) = rs_checkpoint_id s"
  by (simp_all add: touch_def state_consistent_def)

lemma same_identity_touch [simp]: "same_identity s (touch n s)"
  by (simp add: same_identity_def touch_def)

text \<open>Change the state, touch it, persist it: the pattern of every status change.\<close>

lemma change_persist:
  assumes cfg: "plain cfg" and w: "world_ok w" and s: "dget (w_runs w) r = Some s"
    and f: "same_identity s (f s)" "state_consistent (f s)"
  obtains w' where "sq (update_state r f) (sq (touch_state r) (sq (persist_state cfg r) k)) w = k w'"
    and "dget (w_runs w') r = Some (run_of w' r)" and "get (w_store w') r = Some (run_of w' r)"
    and "run_of w' r = written (uuid_of (w_fresh w)) (get (w_store w) r) (cleared (touch (w_now w) (f s)))"
    and "terminal (rs_status (f s)) \<Longrightarrow> dget (st_thread_active (w_store w')) (rs_thread_id s) \<noteq> Some r"
    and "w_memory w' = w_memory w" "w_calls w' = w_calls w" "w_intr w' = w_intr w" "w_now w' = w_now w"
      "w_secrets w' = w_secrets w" "w_threads w' = w_threads w"
    and "world_ok w'"
    and "\<not> terminal (rs_status (f s)) \<Longrightarrow> st_thread_active (w_store w') = st_thread_active (w_store w)"
proof -
  let ?t = "touch (w_now w) (f s)"
  let ?w1 = "set_run r ?t (set_run r (f s) w)"
  have ok1: "world_ok (set_run r (f s) w)" using world_ok_set_run [OF w s f(1)] .
  have ok2: "world_ok ?w1"
    by (rule world_ok_set_run [OF ok1, where s = "f s"]) simp_all
  have "\<exists>w'. persist_state cfg r ?w1 = (Inr (), w') \<and> persisted r ?t ?w1 w' \<and> world_ok w'"
    by (rule persist_ok [OF cfg ok2]) (simp_all add: f(2))
  then obtain w' where p: "persist_state cfg r ?w1 = (Inr (), w')" and ps: "persisted r ?t ?w1 w'"
    and ok: "world_ok w'" by blast
  have run: "sq (update_state r f) (sq (touch_state r) (sq (persist_state cfg r) k)) w = k w'"
    using p by (simp add: py_simps update_state_run [OF s] touch_state_run [where s = "f s"])
  have th: "rs_thread_id (f s) = rs_thread_id s" using f(1) by (simp add: same_identity_def)
  show ?thesis
    by (rule that [OF run]) (use persisted_state [OF ps] ok th in simp_all)
qed

lemma fail_run_ok:
  assumes cfg: "plain cfg" and w: "world_ok w" and s: "dget (w_runs w) r = Some s"
    and c: "rs_status s = RUNNING"
  obtains w' where "fail_run cfg r st e w = (Inr (), w')"
    and "rs_status (run_of w' r) = FAILED" "rs_error (run_of w' r) = Some (exn_str e)"
    and "rs_artifacts (run_of w' r) = rs_artifacts s"
    and "rs_completed_steps (run_of w' r) = rs_completed_steps s"
    and "get (w_store w') r = Some (run_of w' r)"
    and "dget (w_runs w') r = Some (run_of w' r)"
    and "dget (st_thread_active (w_store w')) (rs_thread_id s) \<noteq> Some r"
    and "w_memory w' = w_memory w" "w_calls w' = w_calls w" and "world_ok w'"
proof -
  let ?f = "\<lambda>s. s\<lparr>rs_status := FAILED, rs_error := Some (exn_str e)\<rparr>"
  have f: "same_identity s (?f s)" "state_consistent (?f s)"
    by (simp_all add: same_identity_def state_consistent_def)
  let ?k = "emit_run cfg r RUN_FAILED (Some st) [(''error'', JStr (exn_str e))]"
  obtain w1 where w1: "fail_run cfg r st e w = ?k w1"
    "dget (w_runs w1) r = Some (run_of w1 r)" "get (w_store w1) r = Some (run_of w1 r)"
    "run_of w1 r = written (uuid_of (w_fresh w)) (get (w_store w) r) (cleared (touch (w_now w) (?f s)))"
    "terminal (rs_status (?f s)) \<Longrightarrow> dget (st_thread_active (w_store w1)) (rs_thread_id s) \<noteq> Some r"
    "w_memory w1 = w_memory w" "w_calls w1 = w_calls w" "world_ok w1"
    unfolding fail_run_def by (rule change_persist [where f = ?f and k = ?k, OF cfg w s f]) blast
  have k: "?k w1 = (Inr (), log_event r RUN_FAILED (Some st) [(''error'', JStr (exn_str e))] w1)"
    using emit_run_plain [OF cfg w1(2)] .
  show ?thesis
    by (rule that [OF w1(1) [unfolded k]])
      (use w1 k world_ok_step [OF ev.pres_emit_run w1(8) k] in \<open>simp_all add: terminal_def\<close>)
qed

text \<open>The request a waiting step files, and the run state that waits for it.\<close>

definition approval_for :: "world \<Rightarrow> string \<Rightarrow> run_state \<Rightarrow> step \<Rightarrow> string \<Rightarrow> approval_request" where
  "approval_for w r s st reason =
     \<lparr>ar_request_id = uuid_of (w_fresh w), ar_run_id = r, ar_workflow_name = rs_workflow_name s,
      ar_step_name = sd_name st, ar_executor_name = executor_name (sd_executor st),
      ar_reason = Some reason, ar_created_at = w_now w, ar_metadata = []\<rparr>"

definition wait_approval :: "approval_request \<Rightarrow> json \<Rightarrow> run_state \<Rightarrow> run_state" where
  "wait_approval q payload s =
     s\<lparr>rs_pending_approval := Some q, rs_status := WAITING_APPROVAL,
       rs_metadata := dset ''pending_input'' payload (rs_metadata s)\<rparr>"

lemma await_approval_run:
  fixes st :: step and reason :: string
  assumes "dget (w_runs w) r = Some s"
  defines "q \<equiv> approval_for w r s st reason"
  shows "await_approval cfg r st reason payload w =
    sq (update_state r (wait_approval q payload)) (sq (touch_state r) (sq (persist_state cfg r)
      (emit_run cfg r APPROVAL_REQUESTED (Some (sd_name st)) (approval_request_dump q))))
      (w\<lparr>w_fresh := Suc (w_fresh w)\<rparr>)"
  using assms(1)
  by (simp add: await_approval_def create_request_def py_simps state_of_def run_of_def
      fresh_uuid_def now_of_def q_def approval_for_def wait_approval_def [abs_def])

end
