(* ===== verification/Governance.thy ===== *)
theory Governance
  imports Runtime_Facts
begin

section \<open>Policies and approvals guard every step\<close>

text \<open>
  The properties of the execution loop that the library is for: a denying policy stops a step before
  its executor, a step that needs approval waits for it, an approval lets exactly that step run once,
  a rejection ends the run.
\<close>

subsection \<open>A small world for the witnesses\<close>

definition no_adapter_config :: config where
  "no_adapter_config =
     \<lparr>cfg_policy_engine = empty_policy_engine, cfg_reducer_registry = [], cfg_channel_reducers = [],
      cfg_channel_defaults = [], cfg_containment = LocalDev, cfg_adapter = None, cfg_max_pending = 1,
      cfg_default_ttl = 1800, cfg_secrets_provider = None, cfg_event_dump = (\<lambda>_. []),
      cfg_event_parse = Inl, cfg_command_model = (\<lambda>_. Inl []),
      cfg_resume_approval_model = (\<lambda>_. Inl []), cfg_resume_interrupt_model = (\<lambda>_. Inl []),
      cfg_show_error = id\<rparr>"

definition echo_tool :: tool where
  "echo_tool =
     \<lparr>t_name = ''echo'', t_version = ''0.0.0'', t_capabilities = [''net''], t_side_effect = False,
      t_timeout_seconds = None, t_requires_approval = False, t_executor_type = ''python'',
      t_placement = LocalOnly, t_remote_name = ''echo'', t_command = None, t_input_model = Inr,
      t_output_model = Inr, t_handler = (\<lambda>data. Return (Instance data))\<rparr>"

definition echo_step :: step where
  "echo_step =
     \<lparr>sd_name = ''a'', sd_executor = ToolExec echo_tool, sd_required_artifacts = [],
      sd_emitted_artifact = None, sd_approval_override = None,
      sd_transition = Some (StrictTransition END_STEP), sd_mode = Some STRICT\<rparr>"

definition echo_workflow :: "step \<Rightarrow> workflow" where
  "echo_workflow st =
     \<lparr>wf_name = ''wf'', wf_steps = [(''a'', st)], wf_entry = Some ''a'',
      wf_tools = empty_tool_registry, wf_agents = empty_agent_registry\<rparr>"

definition running_state :: run_state where
  "running_state =
     (new_run_state (uuid_of 0) None ''wf'' (Some ''a'') [] 0)\<lparr>rs_status := RUNNING\<rparr>"

definition world_with :: "run_state \<Rightarrow> world" where
  "world_with s = (init_world 0)\<lparr>w_runs := [(uuid_of 0, s)], w_fresh := 1\<rparr>"

lemma world_with_ok: "rs_run_id s = uuid_of 0 \<Longrightarrow> world_ok (world_with s)"
  using stores_ok_init [of 0]
  by (auto simp: world_ok_def world_with_def stores_ok_def ids_drawn_def cached_ok_def stored_ok_def
      drawn_def init_world_def empty_run_store_def get_checkpoint_def get_def split: if_splits)

lemma running_state_simps [simp]:
  "rs_run_id running_state = uuid_of 0" "rs_status running_state = RUNNING"
  "rs_current_step running_state = Some ''a''" "rs_artifacts running_state = []"
  "rs_metadata running_state = []" "rs_thread_id running_state = uuid_of 0"
  "rs_workflow_name running_state = ''wf''"
  by (simp_all add: running_state_def new_run_state_def)

lemma world_with_runs [simp]: "dget (w_runs (world_with s)) (uuid_of 0) = Some s"
  "w_now (world_with s) = 0" "run_of (world_with s) (uuid_of 0) = s"
  by (simp_all add: world_with_def init_world_def run_of_def)

subsection \<open>The verdict of the policies\<close>

definition verdict :: "(string \<times> policy) list \<Rightarrow> policy_context \<Rightarrow> exn + unit" where
  "verdict ps ctx =
     (case List.find (\<lambda>(name, p). \<not> pd_allow (run_policy_isolated p ctx name)) ps of
        None \<Rightarrow> Inr ()
      | Some (name, p) \<Rightarrow> Inl (denied name (run_policy_isolated p ctx name)))"

definition quiet :: "world \<Rightarrow> world \<Rightarrow> bool" where
  "quiet w w' \<longleftrightarrow>
     w_runs w' = w_runs w \<and> w_store w' = w_store w \<and> w_intr w' = w_intr w \<and>
     w_memory w' = w_memory w \<and> w_secrets w' = w_secrets w \<and> w_threads w' = w_threads w \<and>
     w_now w' = w_now w \<and> w_calls w' = w_calls w"

lemma quiet_refl [simp]: "quiet w w"
  by (simp add: quiet_def)

lemma quiet_trans: "quiet u v \<Longrightarrow> quiet v w \<Longrightarrow> quiet u w"
  by (simp add: quiet_def)

lemma quiet_log [simp]: "quiet w (log_event r ev st p w)"
  by (simp add: quiet_def)

lemma quiet_run_of: "quiet w w' \<Longrightarrow> run_of w' = run_of w"
  by (simp add: quiet_def run_of_def fun_eq_iff)

lemma evaluate_policies_verdict:
  assumes cfg: "plain cfg" and s: "dget (w_runs w) r = Some s"
  obtains w' where "evaluate_policies cfg wk r st ctx w =
      (verdict (policies_for (cfg_policy_engine cfg) (wf_name wk)) ctx, w')" and "quiet w w'"
proof -
  have "\<exists>w'. each (evaluate_policy cfg r st ctx) ps w = (verdict ps ctx, w') \<and> quiet w w'" for ps
    using s
  proof (induction ps arbitrary: w)
    case Nil
    then show ?case by (simp add: verdict_def py_simps)
  next
    case (Cons np ps)
    obtain name p where np: "np = (name, p)" by (cases np)
    let ?d = "run_policy_isolated p ctx name"
    define w1 where "w1 = log_event r POLICY_CHECKED (Some st)
          [(''policy'', JStr name), (''allow'', JBool (pd_allow ?d)),
           (''reason'', opt_json (pd_reason ?d)),
           (''requires_approval'', JBool (pd_requires_approval ?d))] w"
    have s1: "dget (w_runs w1) r = Some s" and q1: "quiet w w1" using Cons.prems by (simp_all add: w1_def)
    note emit = emit_run_plain [OF cfg Cons.prems] emit_run_plain [OF cfg s1]
    show ?case
    proof (cases "pd_allow ?d")
      case True
      have "each (evaluate_policy cfg r st ctx) (np # ps) w = each (evaluate_policy cfg r st ctx) ps w1"
        using True emit by (simp add: np evaluate_policy_def Let_def py_simps w1_def)
      moreover have "verdict (np # ps) ctx = verdict ps ctx" using True by (simp add: np verdict_def)
      ultimately show ?thesis using Cons.IH [OF s1] q1 quiet_trans by fastforce
    next
      case False
      let ?w2 = "log_event r POLICY_DENIED (Some st)
          [(''policy'', JStr name), (''reason'', opt_json (pd_reason ?d))] w1"
      have "each (evaluate_policy cfg r st ctx) (np # ps) w = (Inl (denied name ?d), ?w2)"
        using False emit by (simp add: np evaluate_policy_def Let_def py_simps w1_def)
      moreover have "verdict (np # ps) ctx = Inl (denied name ?d)" using False by (simp add: np verdict_def)
      moreover have "quiet w ?w2" using q1 quiet_trans by fastforce
      ultimately show ?thesis by simp
    qed
  qed
  then show ?thesis using that unfolding evaluate_policies_def by blast
qed

lemma verdict_Inl: "verdict ps ctx = Inl e \<Longrightarrow> eclass e = PolicyDeniedError"
  by (auto simp: verdict_def denied_def split: option.splits)

subsection \<open>One step up to its gate\<close>

definition gate_ctx :: "workflow \<Rightarrow> step \<Rightarrow> run_state \<Rightarrow> policy_context" where
  "gate_ctx wk st s =
     policy_ctx wk (sd_name st) (executor_name (sd_executor st)) (executor_capabilities (sd_executor st))
       (executor_side_effect (sd_executor st)) False s"

text \<open>A running step whose definition and required artifacts are there.\<close>

definition ready :: "workflow \<Rightarrow> string \<Rightarrow> step \<Rightarrow> run_state \<Rightarrow> world \<Rightarrow> bool" where
  "ready wk r st s w \<longleftrightarrow>
     world_ok w \<and> dget (w_runs w) r = Some s \<and> rs_status s = RUNNING \<and>
     (\<exists>n. rs_current_step s = Some n \<and> get_step wk n = Inr st) \<and>
     check_artifacts (sd_name st) (rs_artifacts s) (sd_required_artifacts st) = Inr ()"

lemma advance_step_ready:
  assumes cfg: "plain cfg" and rd: "ready wk r st s w" and g: "requires_approval st s = Inr gate"
  defines "w1 \<equiv> log_event r STEP_ENTERED (Some (sd_name st)) [] w"
  shows "advance_step cfg wk r payload w =
      (if gate
       then sq (await_approval cfg r st (''Approval required for '' @ executor_name (sd_executor st)) payload)
              (ret None) w1
       else execute_step cfg wk r st payload w1)"
    and "quiet w w1" "world_ok w1" "dget (w_runs w1) r = Some s"
proof -
  from rd have s: "dget (w_runs w) r = Some s" and ok: "world_ok w" by (simp_all add: ready_def)
  then have of: "run_of w r = s" by (simp add: run_of_def)
  show "advance_step cfg wk r payload w =
      (if gate
       then sq (await_approval cfg r st (''Approval required for '' @ executor_name (sd_executor st)) payload)
              (ret None) w1
       else execute_step cfg wk r st payload w1)"
    using rd g emit_run_plain [OF cfg s, of STEP_ENTERED "Some (sd_name st)" "[]"]
    by (auto simp: advance_step_def ready_def py_simps state_of_def of w1_def)
  show "quiet w w1" by (simp add: w1_def)
  show "world_ok w1"
    using world_ok_step [OF ev.pres_emit_run ok emit_run_plain [OF cfg s]] by (simp add: w1_def)
  show "dget (w_runs w1) r = Some s" using s by (simp add: w1_def)
qed

text \<open>C1: when a policy denies a step that is about to run, the step's executor is never entered. The
  denial is raised, the run is FAILED with the denial as its error, stored as such and no longer the
  active run of its thread; artifacts, completed steps and memory are as before, no remote call was
  made, and the only events are the step's entry, the policy events, the checkpoint and the
  failure.\<close>

theorem denied_step_never_executes:
  assumes cfg: "plain cfg" and rd: "ready wk r st s w" and g: "requires_approval st s = Inr False"
    and v: "verdict (policies_for (cfg_policy_engine cfg) (wf_name wk)) (gate_ctx wk st s) = Inl e"
  shows "\<exists>w'. advance_step cfg wk r payload w = (Inl e, w') \<and> eclass e = PolicyDeniedError \<and>
    rs_status (run_of w' r) = FAILED \<and> rs_error (run_of w' r) = Some (exn_str e) \<and>
    rs_artifacts (run_of w' r) = rs_artifacts s \<and>
    rs_completed_steps (run_of w' r) = rs_completed_steps s \<and>
    get (w_store w') r = Some (run_of w' r) \<and>
    dget (st_thread_active (w_store w')) (rs_thread_id s) \<noteq> Some r \<and>
    w_memory w' = w_memory w \<and> w_calls w' = w_calls w \<and>
    only_events {STEP_ENTERED, POLICY_CHECKED, POLICY_DENIED, CHECKPOINT_WRITTEN, RUN_FAILED} w w'"
proof -
  let ?K = "{STEP_ENTERED, POLICY_CHECKED, POLICY_DENIED, CHECKPOINT_WRITTEN, RUN_FAILED}"
  define w1 where "w1 = log_event r STEP_ENTERED (Some (sd_name st)) [] w"
  note step = advance_step_ready [OF cfg rd g, folded w1_def]
  have of1: "run_of w1 r = s" using step(4) by (simp add: run_of_def)
  obtain w2 where w2: "evaluate_policies cfg wk r (sd_name st) (gate_ctx wk st s) w1 = (Inl e, w2)"
    and q2: "quiet w1 w2"
    using evaluate_policies_verdict [OF cfg step(4), of wk "sd_name st" "gate_ctx wk st s"] v by metis
  have s2: "dget (w_runs w2) r = Some s" using q2 step(4) by (simp add: quiet_def)
  have ok2: "world_ok w2" using world_ok_step [OF ev.pres_evaluate_policies step(3) w2] .
  have run: "rs_status s = RUNNING" using rd by (simp add: ready_def)
  obtain w3 where w3: "fail_run cfg r (sd_name st) e w2 = (Inr (), w3)"
    and f3: "rs_status (run_of w3 r) = FAILED" "rs_error (run_of w3 r) = Some (exn_str e)"
      "rs_artifacts (run_of w3 r) = rs_artifacts s" "rs_completed_steps (run_of w3 r) = rs_completed_steps s"
      "get (w_store w3) r = Some (run_of w3 r)"
      "dget (st_thread_active (w_store w3)) (rs_thread_id s) \<noteq> Some r"
      "w_memory w3 = w_memory w2" "w_calls w3 = w_calls w2"
    by (rule fail_run_ok [OF cfg ok2 s2 run])
  have "advance_step cfg wk r payload w = (Inl e, w3)"
    using step(1) w2 w3 of1
    by (simp add: execute_step_def guarded_execution_def py_simps state_of_def gate_ctx_def Let_def)
  moreover have "only_events ?K w w3"
  proof -
    have "only_events ?K w w1" unfolding w1_def by (rule only_events_log) simp
    moreover have "only_events ?K w1 w2"
      by (rule presD [OF only_evaluate_policies [OF cfg] w2]) auto
    moreover have "only_events ?K w2 w3"
      by (rule presD [OF only_fail_run [OF cfg] w3]) auto
    ultimately show ?thesis using only.R_trans by blast
  qed
  ultimately show ?thesis
    using f3 q2 step(2) verdict_Inl [OF v] by (auto simp: quiet_def)
qed

theorem denied_step_never_executes_witness:
  "\<exists>e w'. advance_step (init_config 1 (Some []) no_adapter_config) (echo_workflow echo_step) (uuid_of 0)
       JNull (world_with running_state) = (Inl e, w') \<and> rs_status (run_of w' (uuid_of 0)) = FAILED"
proof -
  let ?cfg = "init_config 1 (Some []) no_adapter_config"
  have "ready (echo_workflow echo_step) (uuid_of 0) echo_step running_state (world_with running_state)"
    by (simp add: ready_def world_with_ok echo_workflow_def get_step_def echo_step_def)
  moreover have "requires_approval echo_step running_state = Inr False"
    by (simp add: requires_approval_def approved_steps_def echo_step_def echo_tool_def
        executor_requires_approval_def)
  moreover have "plain ?cfg" by (simp add: init_config_def no_adapter_config_def)
  moreover have "\<exists>e. verdict (policies_for (cfg_policy_engine ?cfg) (wf_name (echo_workflow echo_step)))
      (gate_ctx (echo_workflow echo_step) echo_step running_state) = Inl e"
    by (simp add: init_config_def no_adapter_config_def register_policy_def policies_for_def
        empty_policy_engine_def verdict_def capability_policy_isolated gate_ctx_def policy_ctx_def
        echo_step_def echo_tool_def executor_capabilities_def capability_decision_def
        granted_capabilities_def deny_def Let_def)
  ultimately show ?thesis
    using denied_step_never_executes [of ?cfg "echo_workflow echo_step" "uuid_of 0" echo_step running_state
        "world_with running_state"] by blast
qed

subsection \<open>The approval gate\<close>

lemma await_approval_ok:
  assumes cfg: "plain cfg" and w: "world_ok w" and s: "dget (w_runs w) r = Some s"
  obtains w' q where "await_approval cfg r st reason payload w = (Inr (), w')"
    and "rs_status (run_of w' r) = WAITING_APPROVAL"
    and "rs_pending_approval (run_of w' r) = Some q" "ar_step_name q = sd_name st" "ar_run_id q = r"
      "ar_executor_name q = executor_name (sd_executor st)"
    and "rs_metadata (run_of w' r) = dset ''pending_input'' payload (rs_metadata s)"
    and "rs_current_step (run_of w' r) = rs_current_step s"
    and "rs_artifacts (run_of w' r) = rs_artifacts s"
    and "get (w_store w') r = Some (run_of w' r)" "dget (w_runs w') r = Some (run_of w' r)"
    and "w_memory w' = w_memory w" "w_calls w' = w_calls w" "world_ok w'"
    and "rs_thread_id (run_of w' r) = rs_thread_id s" "st_thread_active (w_store w') = st_thread_active (w_store w)"
proof -
  define q where "q = approval_for w r s st reason"
  let ?f = "wait_approval q payload"
  let ?k = "emit_run cfg r APPROVAL_REQUESTED (Some (sd_name st)) (approval_request_dump q)"
  let ?w1 = "w\<lparr>w_fresh := Suc (w_fresh w)\<rparr>"
  have ok1: "world_ok ?w1" using ev.R_fresh evolves_ok w by blast
  have s1: "dget (w_runs ?w1) r = Some s" using s by simp
  have f: "same_identity s (?f s)" "state_consistent (?f s)"
    by (simp_all add: wait_approval_def same_identity_def state_consistent_def)
  have start: "await_approval cfg r st reason payload w =
      sq (update_state r ?f) (sq (touch_state r) (sq (persist_state cfg r) ?k)) ?w1"
    using await_approval_run [OF s] by (simp add: q_def)
  obtain w2 where w2: "await_approval cfg r st reason payload w = ?k w2"
    "dget (w_runs w2) r = Some (run_of w2 r)" "get (w_store w2) r = Some (run_of w2 r)"
    "run_of w2 r = written (uuid_of (w_fresh ?w1)) (get (w_store ?w1) r) (cleared (touch (w_now ?w1) (?f s)))"
    "w_memory w2 = w_memory ?w1" "w_calls w2 = w_calls ?w1" "world_ok w2"
    "\<not> terminal (rs_status (?f s)) \<Longrightarrow> st_thread_active (w_store w2) = st_thread_active (w_store ?w1)"
    unfolding start by (rule change_persist [where f = ?f and k = ?k, OF cfg ok1 s1 f]) blast
  have k: "?k w2 = (Inr (), log_event r APPROVAL_REQUESTED (Some (sd_name st)) (approval_request_dump q) w2)"
    using emit_run_plain [OF cfg w2(2)] .
  show ?thesis
    by (rule that [OF w2(1) [unfolded k], of q])
      (use w2 k world_ok_step [OF ev.pres_emit_run w2(7) k] in
        \<open>simp_all add: q_def approval_for_def wait_approval_def terminal_def\<close>)
qed

text \<open>C2: a step that requires approval and has none is not run: the iteration ends the loop with
  the run WAITING_APPROVAL, stored, with a pending request for this step and executor and the
  payload kept as the pending input. No policy was asked, no executor entered; current step,
  artifacts and memory are as before.\<close>

theorem approval_gate_blocks:
  assumes cfg: "plain cfg" and rd: "ready wk r st s w" and g: "requires_approval st s = Inr True"
  shows "\<exists>w' q. advance_step cfg wk r payload w = (Inr None, w') \<and>
    rs_status (run_of w' r) = WAITING_APPROVAL \<and>
    rs_pending_approval (run_of w' r) = Some q \<and> ar_step_name q = sd_name st \<and>
    ar_executor_name q = executor_name (sd_executor st) \<and>
    dget (rs_metadata (run_of w' r)) ''pending_input'' = Some payload \<and>
    rs_current_step (run_of w' r) = rs_current_step s \<and>
    rs_artifacts (run_of w' r) = rs_artifacts s \<and> get (w_store w') r = Some (run_of w' r) \<and>
    w_memory w' = w_memory w \<and> w_calls w' = w_calls w \<and>
    only_events {STEP_ENTERED, CHECKPOINT_WRITTEN, APPROVAL_REQUESTED} w w'"
proof -
  let ?K = "{STEP_ENTERED, CHECKPOINT_WRITTEN, APPROVAL_REQUESTED}"
  let ?why = "''Approval required for '' @ executor_name (sd_executor st)"
  define w1 where "w1 = log_event r STEP_ENTERED (Some (sd_name st)) [] w"
  note step = advance_step_ready [OF cfg rd g, folded w1_def]
  obtain w2 q where a: "await_approval cfg r st ?why payload w1 = (Inr (), w2)"
    and f: "rs_status (run_of w2 r) = WAITING_APPROVAL" "rs_pending_approval (run_of w2 r) = Some q"
      "ar_step_name q = sd_name st" "ar_executor_name q = executor_name (sd_executor st)"
      "rs_metadata (run_of w2 r) = dset ''pending_input'' payload (rs_metadata s)"
      "rs_current_step (run_of w2 r) = rs_current_step s" "rs_artifacts (run_of w2 r) = rs_artifacts s"
      "get (w_store w2) r = Some (run_of w2 r)" "w_memory w2 = w_memory w1" "w_calls w2 = w_calls w1"
    by (rule await_approval_ok [OF cfg step(3,4)])
  have "advance_step cfg wk r payload w = (Inr None, w2)"
    using step(1) a by (simp add: py_simps)
  moreover have "only_events ?K w w2"
  proof -
    have "only_events ?K w w1" unfolding w1_def by (rule only_events_log) simp
    moreover have "only_events ?K w1 w2"
      by (rule presD [OF only_await_approval [OF cfg] a]) auto
    ultimately show ?thesis using only.R_trans by blast
  qed
  ultimately show ?thesis using f step(2) by (auto simp: quiet_def)
qed

theorem approval_gate_blocks_witness:
  "\<exists>w'. advance_step no_adapter_config (echo_workflow (echo_step\<lparr>sd_approval_override := Some True\<rparr>))
      (uuid_of 0) (JInt 5) (world_with running_state) = (Inr None, w') \<and>
    rs_status (run_of w' (uuid_of 0)) = WAITING_APPROVAL"
proof -
  let ?st = "echo_step\<lparr>sd_approval_override := Some True\<rparr>"
  have "ready (echo_workflow ?st) (uuid_of 0) ?st running_state (world_with running_state)"
    by (simp add: ready_def world_with_ok echo_workflow_def get_step_def echo_step_def)
  moreover have "requires_approval ?st running_state = Inr True"
    by (simp add: requires_approval_def approved_steps_def echo_step_def)
  moreover have "plain no_adapter_config" by (simp add: no_adapter_config_def)
  ultimately show ?thesis
    using approval_gate_blocks [of no_adapter_config "echo_workflow ?st" "uuid_of 0" ?st running_state
        "world_with running_state" "JInt 5"] by blast
qed

subsection \<open>Resuming an approval\<close>

lemma json_texts_map [simp]: "json_texts (map JStr ss) = Some ss"
  by (induction ss) simp_all

lemma json_texts_Some: "json_texts xs = Some ss \<Longrightarrow> xs = map JStr ss"
  by (induction xs arbitrary: ss rule: json_texts.induct) (auto split: option.splits)

lemma sorted_steps_Inr:
  "sorted_steps xs = Inr v \<longleftrightarrow> (\<exists>ss. xs = map JStr ss \<and> v = JList (map JStr (sorted_set ss)))"
  by (auto simp: sorted_steps_def dest: json_texts_Some split: option.splits)

lemma set_sorted_set [simp]: "set (sorted_set xs) = set xs"
  by (simp add: sorted_set_def)

lemma find_hashable_texts [simp]: "List.find (\<lambda>x. \<not> hashable x) (map JStr ss) = None"
  by (induction ss) (simp_all add: hashable_def)

text \<open>The approval pending in a run, with the approvals given so far.\<close>

definition waiting_for :: "string \<Rightarrow> approval_request \<Rightarrow> string list \<Rightarrow> run_state \<Rightarrow> world \<Rightarrow> bool" where
  "waiting_for r q given s w \<longleftrightarrow>
     world_ok w \<and> dget (w_runs w) r = Some s \<and> rs_status s = WAITING_APPROVAL \<and>
     rs_pending_approval s = Some q \<and> approved_steps s = Inr (map JStr given)"

lemma prepare_resume_waiting:
  assumes wf: "waiting_for r q given s w"
    and d: "normalize_resume_payload cfg p = Inr (ResumeApproval inp)"
      "normalize_decision (w_now w) inp = Inr d"
  shows "prepare_resume cfg wk r p w =
    (if ad_decision d = REJECT then reject_run cfg r d else grant_run cfg r q d) w"
  using wf d
  by (simp add: waiting_for_def prepare_resume_def load_state_def known_run_def py_simps state_of_def run_of_def
      resume_approval_def now_of_def)

text \<open>C3: approving a waiting run hands the loop the same run with the payload that was pending, makes
  it RUNNING and stored as such, clears the request and the pending input, keeps its current step,
  artifacts and completed steps, and opens the gate for the approved step: whatever its override or
  its executor say, it no longer requires approval.\<close>

theorem approval_opens_gate:
  assumes cfg: "plain cfg" and wf: "waiting_for r q given s w"
    and d: "normalize_resume_payload cfg p = Inr (ResumeApproval inp)"
      "normalize_decision (w_now w) inp = Inr d" "ad_decision d = APPROVE"
    and st: "sd_name st = ar_step_name q"
  shows "\<exists>w'. prepare_resume cfg wk r p w =
      (Inr (r, Some (dget_or (rs_metadata s) ''pending_input'' JNull)), w') \<and>
    rs_status (run_of w' r) = RUNNING \<and> rs_pending_approval (run_of w' r) = None \<and>
    dget (rs_metadata (run_of w' r)) ''pending_input'' = None \<and>
    rs_current_step (run_of w' r) = rs_current_step s \<and>
    rs_artifacts (run_of w' r) = rs_artifacts s \<and>
    rs_completed_steps (run_of w' r) = rs_completed_steps s \<and>
    get (w_store w') r = Some (run_of w' r) \<and>
    requires_approval st (run_of w' r) = Inr False"
proof -
  from wf have s: "dget (w_runs w) r = Some s" and ok: "world_ok w"
    and a: "approved_steps s = Inr (map JStr given)" by (simp_all add: waiting_for_def)
  have of: "run_of w r = s" using s by (simp add: run_of_def)
  define steps where "steps = JList (map JStr (sorted_set (ar_step_name q # given)))"
  define s1 where "s1 = s\<lparr>rs_metadata := ddel ''pending_input'' (dset ''approved_steps'' steps (rs_metadata s))\<rparr>"
  let ?f = "\<lambda>s. s\<lparr>rs_pending_approval := None, rs_status := RUNNING\<rparr>"
  let ?pending = "dget_or (rs_metadata s) ''pending_input'' JNull"
  let ?ev = "[(''decided_by'', opt_json (ad_decided_by d)), (''reason'', opt_json (ad_reason d))]"
  let ?w1 = "set_run r s1 w"
  let ?w2 = "log_event r APPROVAL_GRANTED (rs_current_step s) ?ev ?w1"
  have id1: "same_identity s s1" by (simp add: s1_def same_identity_def)
  have s1: "dget (w_runs ?w1) r = Some s1" "dget (w_runs ?w2) r = Some s1" by simp_all
  have ok1: "world_ok ?w1" by (rule world_ok_set_run [OF ok s id1])
  have ok2: "world_ok ?w2"
    using world_ok_step [OF ev.pres_emit_run ok1 emit_run_plain [OF cfg s1(1)]] .
  have f: "same_identity s1 (?f s1)" "state_consistent (?f s1)"
    by (simp_all add: same_identity_def state_consistent_def)
  have sorted: "sorted_steps (JStr (ar_step_name q) # map JStr given) = Inr steps"
    using json_texts_map [of "ar_step_name q # given"] by (simp add: sorted_steps_def steps_def)
  have start: "prepare_resume cfg wk r p w =
      sq (update_state r ?f) (sq (touch_state r) (sq (persist_state cfg r) (ret (r, Some ?pending)))) ?w2"
    using prepare_resume_waiting [OF wf d(1,2)] d(3) a sorted emit_run_plain [OF cfg s1(1)]
    by (simp add: grant_run_def py_simps state_of_def of Let_def update_state_run [OF s] s1_def)
  obtain w3 where w3: "prepare_resume cfg wk r p w = ret (r, Some ?pending) w3"
    "get (w_store w3) r = Some (run_of w3 r)"
    "run_of w3 r = written (uuid_of (w_fresh ?w2)) (get (w_store ?w2) r) (cleared (touch (w_now ?w2) (?f s1)))"
    unfolding start
    by (rule change_persist [where f = ?f and k = "ret (r, Some ?pending)", OF cfg ok2 s1(2) f]) blast
  have "requires_approval st (run_of w3 r) = Inr False"
    by (simp add: requires_approval_def approved_steps_def w3(3) s1_def steps_def st)
  with w3 show ?thesis by (auto simp: ret_run s1_def)
qed

theorem approval_opens_gate_witness:
  "\<exists>w'. prepare_resume no_adapter_config (echo_workflow echo_step) (uuid_of 0) (GivenText ''approve'')
      (world_with (running_state\<lparr>rs_status := WAITING_APPROVAL, rs_pending_approval := Some
         \<lparr>ar_request_id = ''q'', ar_run_id = uuid_of 0, ar_workflow_name = ''wf'', ar_step_name = ''a'',
          ar_executor_name = ''echo'', ar_reason = None, ar_created_at = 0, ar_metadata = []\<rparr>\<rparr>)) =
      (Inr (uuid_of 0, Some JNull), w')"
proof -
  let ?q = "\<lparr>ar_request_id = ''q'', ar_run_id = uuid_of 0, ar_workflow_name = ''wf'', ar_step_name = ''a'',
          ar_executor_name = ''echo'', ar_reason = None, ar_created_at = 0, ar_metadata = []\<rparr>"
  let ?s = "running_state\<lparr>rs_status := WAITING_APPROVAL, rs_pending_approval := Some ?q\<rparr>"
  have "waiting_for (uuid_of 0) ?q [] ?s (world_with ?s)"
    by (simp add: waiting_for_def world_with_ok approved_steps_def)
  moreover have "normalize_resume_payload no_adapter_config (GivenText ''approve'') =
      Inr (ResumeApproval (DecisionText ''approve''))"
    by (simp add: normalize_resume_payload_def)
  moreover have "strip (lower ''approve'') = ''approve''" by code_simp
  then have "normalize_decision (w_now (world_with ?s)) (DecisionText ''approve'') =
      Inr \<lparr>ad_decision = APPROVE, ad_decided_by = None, ad_reason = None, ad_decided_at = 0\<rparr>"
    by (simp add: normalize_decision_def Let_def)
  moreover have "plain no_adapter_config" by (simp add: no_adapter_config_def)
  moreover have "sd_name echo_step = ar_step_name ?q" by (simp add: echo_step_def)
  ultimately show ?thesis
    using approval_opens_gate [where cfg = no_adapter_config and wk = "echo_workflow echo_step"
        and r = "uuid_of 0" and q = ?q and s = ?s and w = "world_with ?s"
        and given = "[]" and st = echo_step and p = "GivenText ''approve''"
        and inp = "DecisionText ''approve''"
        and d = "\<lparr>ad_decision = APPROVE, ad_decided_by = None, ad_reason = None, ad_decided_at = 0\<rparr>"]
    by auto
qed

text \<open>C4: rejecting a waiting run ends it: the rejection is raised with the decision's reason (or
  "approval rejected"), the run is FAILED with that error, stored as such, without a pending request,
  and no longer active on its thread; no step was run and nothing was remembered.\<close>

theorem rejection_fails_run:
  assumes cfg: "plain cfg" and wf: "waiting_for r q given s w"
    and d: "normalize_resume_payload cfg p = Inr (ResumeApproval inp)"
      "normalize_decision (w_now w) inp = Inr d" "ad_decision d = REJECT"
  defines "err \<equiv> or_else (ad_reason d) ''approval rejected''"
  shows "\<exists>w'. resume_workflow cfg wk r p w = Some (Inl (Exn ApprovalRejectedError err), w') \<and>
    rs_status (run_of w' r) = FAILED \<and> rs_error (run_of w' r) = Some err \<and>
    rs_pending_approval (run_of w' r) = None \<and> rs_artifacts (run_of w' r) = rs_artifacts s \<and>
    get (w_store w') r = Some (run_of w' r) \<and>
    dget (st_thread_active (w_store w')) (rs_thread_id s) \<noteq> Some r \<and>
    w_memory w' = w_memory w \<and> w_calls w' = w_calls w"
proof -
  from wf have s: "dget (w_runs w) r = Some s" and ok: "world_ok w" by (simp_all add: waiting_for_def)
  have of: "run_of w r = s" using s by (simp add: run_of_def)
  let ?f = "\<lambda>s. s\<lparr>rs_status := FAILED, rs_error := Some err, rs_pending_approval := None\<rparr>"
  let ?k = "sq (emit_run cfg r RUN_FAILED None [(''error'', JStr err)])
       (raise (Exn ApprovalRejectedError err)) :: (string \<times> json option) rt"
  let ?w1 = "log_event r APPROVAL_REJECTED (rs_current_step s)
       [(''reason'', JStr (or_else (ad_reason d) ''rejected''))] w"
  have s1: "dget (w_runs ?w1) r = Some s" using s by simp
  have ok1: "world_ok ?w1" using world_ok_step [OF ev.pres_emit_run ok emit_run_plain [OF cfg s]] .
  have f: "same_identity s (?f s)" "state_consistent (?f s)"
    by (simp_all add: same_identity_def state_consistent_def)
  have start: "prepare_resume cfg wk r p w =
      sq (update_state r ?f) (sq (touch_state r) (sq (persist_state cfg r) ?k)) ?w1"
    using prepare_resume_waiting [OF wf d(1,2)] d(3) emit_run_plain [OF cfg s]
    by (simp add: reject_run_def py_simps state_of_def of Let_def err_def)
  obtain w2 where w2: "prepare_resume cfg wk r p w = ?k w2"
    "dget (w_runs w2) r = Some (run_of w2 r)" "get (w_store w2) r = Some (run_of w2 r)"
    "run_of w2 r = written (uuid_of (w_fresh ?w1)) (get (w_store ?w1) r) (cleared (touch (w_now ?w1) (?f s)))"
    "terminal (rs_status (?f s)) \<Longrightarrow> dget (st_thread_active (w_store w2)) (rs_thread_id s) \<noteq> Some r"
    "w_memory w2 = w_memory ?w1" "w_calls w2 = w_calls ?w1"
    unfolding start by (rule change_persist [where f = ?f and k = ?k, OF cfg ok1 s1 f]) blast
  then have "prepare_resume cfg wk r p w =
      (Inl (Exn ApprovalRejectedError err), log_event r RUN_FAILED None [(''error'', JStr err)] w2)"
    using emit_run_plain [OF cfg w2(2)] by (simp add: py_simps)
  then show ?thesis
    using w2(2-) by (auto simp: resume_workflow_def then_advance_def terminal_def)
qed

theorem rejection_fails_run_witness:
  "\<exists>w'. resume_workflow no_adapter_config (echo_workflow echo_step) (uuid_of 0)
      (GivenDecision \<lparr>ad_decision = REJECT, ad_decided_by = None, ad_reason = Some ''no'', ad_decided_at = 0\<rparr>)
      (world_with (running_state\<lparr>rs_status := WAITING_APPROVAL, rs_pending_approval := Some
         \<lparr>ar_request_id = ''q'', ar_run_id = uuid_of 0, ar_workflow_name = ''wf'', ar_step_name = ''a'',
          ar_executor_name = ''echo'', ar_reason = None, ar_created_at = 0, ar_metadata = []\<rparr>\<rparr>)) =
      Some (Inl (Exn ApprovalRejectedError ''no''), w')"
proof -
  let ?d = "\<lparr>ad_decision = REJECT, ad_decided_by = None, ad_reason = Some ''no'', ad_decided_at = 0\<rparr>"
  let ?q = "\<lparr>ar_request_id = ''q'', ar_run_id = uuid_of 0, ar_workflow_name = ''wf'', ar_step_name = ''a'',
          ar_executor_name = ''echo'', ar_reason = None, ar_created_at = 0, ar_metadata = []\<rparr>"
  let ?s = "running_state\<lparr>rs_status := WAITING_APPROVAL, rs_pending_approval := Some ?q\<rparr>"
  have "waiting_for (uuid_of 0) ?q [] ?s (world_with ?s)"
    by (simp add: waiting_for_def world_with_ok approved_steps_def)
  moreover have "normalize_resume_payload no_adapter_config (GivenDecision ?d) =
      Inr (ResumeApproval (Decided ?d))"
    by (simp add: normalize_resume_payload_def)
  moreover have "normalize_decision (w_now (world_with ?s)) (Decided ?d) = Inr ?d"
    by (simp add: normalize_decision_def Let_def)
  moreover have "plain no_adapter_config" by (simp add: no_adapter_config_def)
  ultimately show ?thesis
    using rejection_fails_run [where cfg = no_adapter_config and wk = "echo_workflow echo_step"
        and r = "uuid_of 0" and q = ?q and s = ?s and w = "world_with ?s"
        and given = "[]" and p = "GivenDecision ?d" and inp = "Decided ?d" and d = ?d]
    by (auto simp: or_else_def)
qed

end
