(* ===== verification/Execution.thy ===== *)
theory Execution
  imports Governance
begin

section \<open>Where a run can go\<close>

text \<open>
  The control flow of the loop: every move follows a declared transition, a run never leaves its
  workflow, the loop returns only in a resting status, and it ends on workflows without cycles.
  These hold for every configuration, redacting or not.
\<close>

subsection \<open>Fields of a run an operation leaves alone\<close>

definition field_kept :: "string \<Rightarrow> (run_state \<Rightarrow> 'a) \<Rightarrow> world \<Rightarrow> world \<Rightarrow> bool" where
  "field_kept r f w w' \<longleftrightarrow>
     (\<forall>s. dget (w_runs w) r = Some s \<longrightarrow> (\<exists>s'. dget (w_runs w') r = Some s' \<and> f s' = f s))"

interpretation field: step_relation "field_kept r f" for r f
proof
  show "field_kept r f w w" for w by (simp add: field_kept_def)
  show "field_kept r f u w" if "field_kept r f u v" "field_kept r f v w" for u v w
    using that unfolding field_kept_def by (metis (no_types))
qed

lemma field_kept_same: "w_runs w' = w_runs w \<Longrightarrow> field_kept r f w w'"
  by (simp add: field_kept_def)

lemma field_keptD:
  "field_kept r f w w' \<Longrightarrow> dget (w_runs w) r = Some s \<Longrightarrow>
   dget (w_runs w') r = Some (run_of w' r) \<and> f (run_of w' r) = f s"
  by (auto simp: field_kept_def run_of_def)

text \<open>A field that neither user code nor the numbering of a write can change.\<close>

definition write_stable :: "(run_state \<Rightarrow> 'a) \<Rightarrow> bool" where
  "write_stable f \<longleftrightarrow> (\<forall>s u old n. f (written u old (cleared s)) = f s \<and> f (cleared s) = f s \<and> f (touch n s) = f s)"

lemma write_stable_fields [simp]:
  "write_stable rs_status" "write_stable rs_current_step" "write_stable rs_artifacts"
  "write_stable rs_completed_steps" "write_stable rs_channels" "write_stable rs_metadata"
  "write_stable rs_pending_approval" "write_stable rs_pending_interrupt_id" "write_stable rs_error"
  "write_stable rs_thread_id" "write_stable rs_workflow_name" "write_stable rs_run_id"
  by (simp_all add: write_stable_def)

lemma field_modify [pres_intros]:
  "(\<And>w. w_runs (g w) = w_runs w) \<Longrightarrow> pres (field_kept r f) (modify g)"
  by (simp add: pres_def py_simps field_kept_same)

lemma field_update: "(\<And>s. f (g s) = f s) \<Longrightarrow> pres (field_kept r f) (update_state q g)"
  by (auto simp: pres_def update_state_def py_simps field_kept_def split: option.splits)

lemma field_state_of [pres_intros]: "pres (field_kept r f) (state_of q)"
  unfolding state_of_def by (rule field.pres_gets)

lemma field_now [pres_intros]: "pres (field_kept r f) now_of"
  unfolding now_of_def by (rule field.pres_gets)

lemma field_fresh [pres_intros]: "pres (field_kept r f) fresh_uuid"
  by (simp add: pres_def fresh_uuid_def field_kept_same)

lemma field_known_run [pres_intros]: "pres (field_kept r f) (known_run q)"
  by (auto simp: pres_def known_run_def field_kept_def split: option.splits)

lemma field_emit_event [pres_intros]: "pres (field_kept r f) (emit_event cfg q th wn ev st p)"
  unfolding emit_event_def emitter_def append_event_def by (intro pres_intros) simp_all

lemma field_emit_audit [pres_intros]: "pres (field_kept r f) (emit_audit cfg q wn ev st p)"
  unfolding emit_audit_def by (intro pres_intros)

lemma field_emit_run [pres_intros]: "pres (field_kept r f) (emit_run cfg q ev st p)"
  unfolding emit_run_def by (intro pres_intros)

lemma field_touch [pres_intros]: "write_stable f \<Longrightarrow> pres (field_kept r f) (touch_state q)"
  unfolding touch_state_def by (intro pres_intros field_update) (simp add: write_stable_def)

lemma field_write [pres_intros]: "write_stable f \<Longrightarrow> pres (field_kept r f) (write_state q)"
  by (auto simp: pres_def write_state_run field_kept_def write_stable_def elim!: put_InrE
      split: option.splits sum.splits)

lemma field_clear [pres_intros]: "pres (field_kept r f) (clear_active_run q)"
  unfolding clear_active_run_def by (intro pres_intros) simp

lemma field_persist [pres_intros]: "write_stable f \<Longrightarrow> pres (field_kept r f) (persist_state cfg q)"
  unfolding persist_state_def by (intro pres_intros)

lemma field_transition_events [pres_intros]: "pres (field_kept r f) (emit_transition_events cfg q st n h)"
  unfolding emit_transition_events_def by (intro pres_intros)

subsection \<open>Moves follow declared transitions\<close>

lemma choose_next_Inr:
  "choose_next cfg wk r st out handoff cmd w = (Inr n, w') \<Longrightarrow>
   legal_target wk st handoff n \<and> w' = w"
  by (auto simp: choose_next_def py_simps split: sum.splits prod.splits dest: resolved_legal)

lemma move_to_Inr:
  assumes "move_to cfg r n w = (Inr u, w')" and "dget (w_runs w) r = Some s"
  shows "dget (w_runs w') r = Some (run_of w' r)" "rs_current_step (run_of w' r) = Some n"
    "rs_status (run_of w' r) = rs_status s"
proof -
  let ?w1 = "set_run r (s\<lparr>rs_current_step := Some n\<rparr>) w"
  have p: "persist_state cfg r ?w1 = (Inr u, w')"
    using assms by (simp add: move_to_def py_simps update_state_run)
  have k: "dget (w_runs ?w1) r = Some (s\<lparr>rs_current_step := Some n\<rparr>)" by simp
  have "field_kept r rs_current_step ?w1 w'" "field_kept r rs_status ?w1 w'"
    by (rule presD [OF field_persist p], simp)+
  then show "dget (w_runs w') r = Some (run_of w' r)" "rs_current_step (run_of w' r) = Some n"
    "rs_status (run_of w' r) = rs_status s"
    using field_keptD [OF _ k] by fastforce+
qed

lemma leave_step_Some:
  assumes l: "leave_step cfg wk r st out handoff cmd w = (Inr (Some p), w')"
    and s: "dget (w_runs w) r = Some s"
  obtains n where "legal_target wk st handoff n" "n \<noteq> END_STEP"
    "dget (w_runs w') r = Some (run_of w' r)" "rs_current_step (run_of w' r) = Some n"
    "rs_status (run_of w' r) = rs_status s" "p = out"
proof -
  obtain n w1 where n: "choose_next cfg wk r st out handoff cmd w = (Inr n, w1)"
    and k: "sq (emit_transition_events cfg r (sd_name st) n handoff)
       (if n = END_STEP then sq (complete_run cfg r) (ret None)
        else sq (move_to cfg r n) (ret (Some out))) w1 = (Inr (Some p), w')"
    using l by (auto simp: leave_step_def py_simps split: option.splits prod.splits sum.splits elim!: bnd_InrE sq_InrE)
  from choose_next_Inr [OF n] have leg: "legal_target wk st handoff n" and w1: "w1 = w" by auto
  from k obtain w2 where e: "emit_transition_events cfg r (sd_name st) n handoff w1 = (Inr (), w2)"
    and m: "(if n = END_STEP then sq (complete_run cfg r) (ret None)
        else sq (move_to cfg r n) (ret (Some out))) w2 = (Inr (Some p), w')"
    by (elim sq_InrE) auto
  have nend: "n \<noteq> END_STEP" using m by (auto simp: py_simps split: prod.splits sum.splits if_splits)
  with m obtain u where mv: "move_to cfg r n w2 = (Inr u, w')" and p: "p = out"
    by (auto simp: py_simps split: prod.splits sum.splits)
  have "field_kept r rs_status w1 w2" using e by (rule presD [OF field_transition_events])
  from field_keptD [OF this s [folded w1]]
  have s2: "dget (w_runs w2) r = Some (run_of w2 r)" "rs_status (run_of w2 r) = rs_status s" by auto
  show ?thesis
    using that [OF leg nend] move_to_Inr [OF mv s2(1)] s2(2) p by simp
qed

subsection \<open>Executors change nothing of the run but its metadata\<close>

definition body :: "run_state \<Rightarrow> run_state" where
  "body s = s\<lparr>rs_metadata := []\<rparr>"

lemma body_fields:
  assumes "body s' = body s"
  shows "rs_status s' = rs_status s" "rs_current_step s' = rs_current_step s"
    "rs_artifacts s' = rs_artifacts s" "rs_channels s' = rs_channels s"
    "rs_completed_steps s' = rs_completed_steps s" "rs_pending_approval s' = rs_pending_approval s"
    "rs_epoch s' = rs_epoch s" "rs_thread_id s' = rs_thread_id s" "rs_run_id s' = rs_run_id s"
  using assms by (cases s; cases s'; simp add: body_def)+

interpretation exec: exec_relation "field_kept q body" r for q r
  by unfold_locales (auto simp: field_kept_def body_def)

lemma execution_keeps_run:
  "pres (field_kept r body) (evaluate_policies cfg wk q st ctx)"
  "pres (field_kept r body) (run_executor cfg wk q sd payload)"
  by (rule exec.pres_evaluate_policies exec.pres_run_executor)+

lemma guarded_execution_Some:
  assumes g: "guarded_execution cfg wk r st payload w = (Inr (Some out), w')"
    and s: "dget (w_runs w) r = Some s"
  shows "dget (w_runs w') r = Some (run_of w' r)" "body (run_of w' r) = body s"
proof -
  let ?x = "sd_executor st"
  let ?ctx = "policy_ctx wk (sd_name st) (executor_name ?x) (executor_capabilities ?x) (executor_side_effect ?x) False"
  obtain u w1 where e: "evaluate_policies cfg wk r (sd_name st) (?ctx s) w = (Inr u, w1)"
    and t: "run_executor cfg wk r st payload w1 = (Inr out, w')"
    using g s
    by (auto simp: guarded_execution_def state_of_def run_of_def py_simps Let_def
        split: sum.splits prod.splits if_splits)
  have "field_kept r body w w1" using e by (rule presD [OF execution_keeps_run(1)])
  moreover have "field_kept r body w1 w'" using t by (rule presD [OF execution_keeps_run(2)])
  ultimately have "field_kept r body w w'" by (rule field.R_trans)
  from field_keptD [OF this s] show "dget (w_runs w') r = Some (run_of w' r)" "body (run_of w' r) = body s"
    by auto
qed

subsection \<open>What is cached is what is stored\<close>

text \<open>A run state that stays as it is, in the cache and in the store.\<close>

definition frozen :: "string \<Rightarrow> world \<Rightarrow> world \<Rightarrow> bool" where
  "frozen r w w' \<longleftrightarrow>
     (dget (w_runs w) r \<noteq> None \<longrightarrow> dget (w_runs w') r = dget (w_runs w) r) \<and>
     get (w_store w') = get (w_store w)"

interpretation frozen: step_relation "frozen r" for r
  by unfold_locales (auto simp: frozen_def)

lemma frozen_modify:
  "(\<And>w. w_runs (g w) = w_runs w \<and> get (w_store (g w)) = get (w_store w)) \<Longrightarrow> pres (frozen r) (modify g)"
  by (simp add: pres_def py_simps frozen_def)

lemma frozen_state_of [pres_intros]: "pres (frozen r) (state_of q)"
  unfolding state_of_def by (rule frozen.pres_gets)

lemma frozen_emit_run [pres_intros]: "pres (frozen r) (emit_run cfg q ev st p)"
proof -
  have "pres (frozen r) fresh_uuid" by (simp add: pres_def fresh_uuid_def frozen_def)
  moreover have "pres (frozen r) now_of" unfolding now_of_def by (rule frozen.pres_gets)
  moreover have "pres (frozen r) (append_event e)" for e
    unfolding append_event_def by (rule frozen_modify) simp
  moreover have "pres (frozen r) (known_run q)"
    by (auto simp: pres_def known_run_def frozen_def split: option.splits)
  ultimately show ?thesis
    unfolding emit_run_def emit_audit_def emit_event_def emitter_def by (intro pres_intros)
qed

lemma frozen_clear [pres_intros]: "pres (frozen r) (clear_active_run q)"
  unfolding clear_active_run_def by (intro pres_intros frozen_modify) simp

lemma persist_saved:
  assumes p: "persist_state cfg r w = (Inr u, w')" and s: "dget (w_runs w) r = Some s" "rs_run_id s = r"
  shows "get (w_store w') r = Some (run_of w' r)" "dget (w_runs w') r = Some (run_of w' r)"
proof -
  obtain v w1 where wr: "write_state r w = (Inr v, w1)"
    and k: "bnd (state_of r) (\<lambda>s. sq (emit_run cfg r CHECKPOINT_WRITTEN (rs_current_step s) (checkpoint_payload s))
        (bnd (state_of r) (\<lambda>s'. perform (terminal (rs_status s')) (clear_active_run r)))) w1 = (Inr u, w')"
    using p unfolding persist_state_def by (rule sq_InrE)
  have w1: "get (w_store w1) r = dget (w_runs w1) r" "dget (w_runs w1) r \<noteq> None"
    using wr s by (auto simp: write_state_run dest!: put_get split: sum.splits)
  have "pres (frozen r) (bnd (state_of r) (\<lambda>s. sq (emit_run cfg r CHECKPOINT_WRITTEN (rs_current_step s) (checkpoint_payload s))
        (bnd (state_of r) (\<lambda>s'. perform (terminal (rs_status s')) (clear_active_run r)))))"
    by (intro pres_intros)
  from presD [OF this k] w1
  have "get (w_store w') r = dget (w_runs w') r" "dget (w_runs w') r \<noteq> None"
    by (auto simp: frozen_def)
  then show "get (w_store w') r = Some (run_of w' r)" "dget (w_runs w') r = Some (run_of w' r)"
    by (auto simp: run_of_def)
qed

text \<open>The pattern of every status change, for a continuation that only emits.\<close>

lemma change_saved:
  assumes c: "sq (update_state r g) (sq (touch_state r) (sq (persist_state cfg r) k)) w = (Inr x, w')"
    and s: "dget (w_runs w) r = Some s" "rs_run_id (g s) = r"
    and k: "pres (frozen r) k"
  shows "get (w_store w') r = Some (run_of w' r)" "dget (w_runs w') r = Some (run_of w' r)"
    and "write_stable f \<Longrightarrow> f (run_of w' r) = f (g s)"
proof -
  let ?s = "touch (w_now w) (g s)"
  let ?w1 = "set_run r ?s (set_run r (g s) w)"
  obtain u w2 where p: "persist_state cfg r ?w1 = (Inr u, w2)" and k2: "k w2 = (Inr x, w')"
    using c by (auto simp: py_simps update_state_run [OF s(1)] touch_state_run [where s = "g s"]
        split: sum.splits prod.splits)
  have s1: "dget (w_runs ?w1) r = Some ?s" by simp
  have sv: "get (w_store w2) r = Some (run_of w2 r)" "dget (w_runs w2) r = Some (run_of w2 r)"
    using persist_saved [OF p s1] s(2) by simp_all
  have fr: "dget (w_runs w') r = dget (w_runs w2) r" "get (w_store w') = get (w_store w2)"
    using presD [OF k k2] sv by (simp_all add: frozen_def)
  from fr(1) have eq: "run_of w' r = run_of w2 r" by (simp add: run_of_def)
  with fr sv show "get (w_store w') r = Some (run_of w' r)" "dget (w_runs w') r = Some (run_of w' r)"
    by simp_all
  show "f (run_of w' r) = f (g s)" if "write_stable f"
  proof -
    have "field_kept r f ?w1 w2" by (rule presD [OF field_persist p]) (rule that)
    from field_keptD [OF this s1] that eq show ?thesis by (simp add: write_stable_def)
  qed
qed

lemma complete_run_Inr:
  assumes "complete_run cfg r w = (Inr u, w')" "dget (w_runs w) r = Some s" "rs_run_id s = r"
  shows "rs_status (run_of w' r) = COMPLETED" "rs_current_step (run_of w' r) = None"
    "get (w_store w') r = Some (run_of w' r)" "dget (w_runs w') r = Some (run_of w' r)"
proof -
  have k: "pres (frozen r) (bnd (state_of r) (\<lambda>s. emit_run cfg r RUN_COMPLETED None (completed_payload s)))"
    by (intro pres_intros)
  note c = change_saved [OF assms(1) [unfolded complete_run_def] assms(2) _ k]
  show "rs_status (run_of w' r) = COMPLETED" "rs_current_step (run_of w' r) = None"
    "get (w_store w') r = Some (run_of w' r)" "dget (w_runs w') r = Some (run_of w' r)"
    using c(1,2) c(3) [of rs_status] c(3) [of rs_current_step] assms(3) by simp_all
qed

lemma await_approval_Inr:
  assumes a: "await_approval cfg r st reason payload w = (Inr u, w')"
    and s: "dget (w_runs w) r = Some s" "rs_run_id s = r"
  shows "rs_status (run_of w' r) = WAITING_APPROVAL" "rs_current_step (run_of w' r) = rs_current_step s"
    "get (w_store w') r = Some (run_of w' r)" "dget (w_runs w') r = Some (run_of w' r)"
proof -
  note q = a [unfolded await_approval_run [OF s(1)]]
  note c = change_saved [OF q _ _ frozen_emit_run, where s = s]
  show "rs_status (run_of w' r) = WAITING_APPROVAL" "rs_current_step (run_of w' r) = rs_current_step s"
    "get (w_store w') r = Some (run_of w' r)" "dget (w_runs w') r = Some (run_of w' r)"
    using c(1,2) c(3) [of rs_status] c(3) [of rs_current_step] s by (simp_all add: wait_approval_def)
qed


lemma frozen_zoom_intr [pres_intros]: "pres (frozen r) (zoom w_intr put_intr m)"
  by (simp add: pres_def zoom_def frozen_def split_beta)

lemma create_interrupt_request_keeps:
  assumes "create_interrupt_request cfg r n i w = (x, w')"
  shows "w_runs w' = w_runs w"
  using assms
  by (auto simp: create_interrupt_request_def state_of_def now_of_def fresh_uuid_def py_simps
      split: prod.splits)

lemma await_interrupt_Inr:
  assumes a: "await_interrupt cfg r st out handoff c i w = (Inr u, w')"
    and s: "dget (w_runs w) r = Some s" "rs_run_id s = r"
  shows "rs_status (run_of w' r) = WAITING_INTERRUPT" "rs_current_step (run_of w' r) = rs_current_step s"
    "get (w_store w') r = Some (run_of w' r)" "dget (w_runs w') r = Some (run_of w' r)"
proof -
  obtain q w1 where c: "create_interrupt_request cfg r (sd_name st) i w = (Inr q, w1)"
    and k: "sq (update_state r (\<lambda>s. s\<lparr>rs_pending_interrupt_id := Some (ir_interrupt_id q),
           rs_status := WAITING_INTERRUPT,
           rs_metadata := dset ''pending_interrupt_resume''
             (pending_resume (sd_name st) out handoff c) (rs_metadata s)\<rparr>))
    (sq (touch_state r)
    (sq (persist_state cfg r)
    (bnd (state_of r) (\<lambda>s.
     let request' = q\<lparr>ir_epoch := rs_epoch s\<rparr>
     in sq (perform (ir_epoch q \<noteq> rs_epoch s)
             (modify (\<lambda>w. put_intr (mem_save_request request' (w_intr w)) w)))
          (emit_run cfg r INTERRUPT_REQUESTED (Some (sd_name st)) (interrupt_payload request')))))) w1 = (Inr u, w')"
    using a unfolding await_interrupt_def by (rule bnd_InrE)
  have s1: "dget (w_runs w1) r = Some s" using create_interrupt_request_keeps [OF c] s(1) by simp
  have fr: "pres (frozen r) (bnd (state_of r) (\<lambda>s.
     let request' = q\<lparr>ir_epoch := rs_epoch s\<rparr>
     in sq (perform (ir_epoch q \<noteq> rs_epoch s)
             (modify (\<lambda>w. put_intr (mem_save_request request' (w_intr w)) w)))
          (emit_run cfg r INTERRUPT_REQUESTED (Some (sd_name st)) (interrupt_payload request'))))"
    by (intro pres_intros frozen_modify) simp
  note ch = change_saved [OF k s1 _ fr]
  show "rs_status (run_of w' r) = WAITING_INTERRUPT" "rs_current_step (run_of w' r) = rs_current_step s"
    "get (w_store w') r = Some (run_of w' r)" "dget (w_runs w') r = Some (run_of w' r)"
    using ch(1,2) ch(3) [of rs_status] ch(3) [of rs_current_step] s(2) by simp_all
qed

subsection \<open>One iteration of the loop\<close>

text \<open>A field that recording an output does not touch.\<close>

definition control_field :: "(run_state \<Rightarrow> 'a) \<Rightarrow> bool" where
  "control_field f \<longleftrightarrow> write_stable f \<and>
     (\<forall>s a c h m. f (s\<lparr>rs_artifacts := a, rs_completed_steps := c\<rparr>) = f s \<and>
        f (s\<lparr>rs_channels := h\<rparr>) = f s \<and> f (s\<lparr>rs_metadata := m\<rparr>) = f s)"

lemma control_fields [simp]:
  "control_field rs_status" "control_field rs_current_step" "control_field rs_run_id"
  "control_field rs_pending_interrupt_id" "control_field rs_pending_approval"
  by (simp_all add: control_field_def)

lemma field_record_output: "control_field f \<Longrightarrow> pres (field_kept r f) (record_output cfg q st out cmd)"
  unfolding record_output_def apply_state_update_def update_channel_def consume_approval_def
  by (intro pres_intros field_update) (simp_all add: control_field_def)

text \<open>What an iteration that raises nothing has done: the run rests, stored as it is cached, or it has
  moved to a legal target of the step it was at.\<close>

definition saved :: "string \<Rightarrow> world \<Rightarrow> bool" where
  "saved r w \<longleftrightarrow> dget (w_runs w) r = Some (run_of w r) \<and> get (w_store w) r = Some (run_of w r)"

definition rested :: "string \<Rightarrow> string option \<Rightarrow> world \<Rightarrow> bool" where
  "rested r here w \<longleftrightarrow> saved r w \<and>
     (rs_status (run_of w r) = COMPLETED \<and> rs_current_step (run_of w r) = None \<or>
      rs_status (run_of w r) \<in> {WAITING_APPROVAL, WAITING_INTERRUPT} \<and>
        rs_current_step (run_of w r) = here)"

lemma leave_step_None:
  assumes l: "leave_step cfg wk r st out handoff cmd w = (Inr None, w')"
    and s: "dget (w_runs w) r = Some s" "rs_run_id s = r"
  shows "rested r (rs_current_step s) w'"
proof -
  show ?thesis
  proof (cases "case cmd of None \<Rightarrow> None | Some c \<Rightarrow> map_option (\<lambda>i. (c, i)) (cmd_interrupt c)")
    case (Some ci)
    obtain c i where ci: "ci = (c, i)" by (cases ci)
    from l Some obtain u where "await_interrupt cfg r st out handoff c i w = (Inr u, w')"
      unfolding leave_step_def ci by (auto simp: py_simps split: sum.splits prod.splits)
    from await_interrupt_Inr [OF this s] show ?thesis by (simp add: rested_def saved_def)
  next
    case None
    from l None obtain n w1 w2 where n: "choose_next cfg wk r st out handoff cmd w = (Inr n, w1)"
      and e: "emit_transition_events cfg r (sd_name st) n handoff w1 = (Inr (), w2)"
      and m: "(if n = END_STEP then sq (complete_run cfg r) (ret None)
        else sq (move_to cfg r n) (ret (Some out))) w2 = (Inr None, w')"
      unfolding leave_step_def by (auto elim!: bnd_InrE sq_InrE)
    have "n = END_STEP" using m by (auto simp: py_simps split: prod.splits sum.splits if_splits)
    with m obtain u where c: "complete_run cfg r w2 = (Inr u, w')"
      by (auto simp: py_simps split: prod.splits sum.splits)
    from choose_next_Inr [OF n] s have "dget (w_runs w1) r = Some s" by simp
    moreover have "field_kept r rs_run_id w1 w2" using e by (rule presD [OF field_transition_events])
    ultimately have "dget (w_runs w2) r = Some (run_of w2 r)" "rs_run_id (run_of w2 r) = r"
      using field_keptD [of r rs_run_id w1 w2 s] s(2) by auto
    from complete_run_Inr [OF c this] show ?thesis by (simp add: rested_def saved_def)
  qed
qed


lemma move_to_saved:
  assumes m: "move_to cfg r n w = (Inr u, w')" and s: "dget (w_runs w) r = Some s" "rs_run_id s = r"
  shows "saved r w'"
proof -
  let ?w1 = "set_run r (s\<lparr>rs_current_step := Some n\<rparr>) w"
  have "persist_state cfg r ?w1 = (Inr u, w')"
    using m s by (simp add: move_to_def py_simps update_state_run)
  from persist_saved [OF this] s(2) show ?thesis by (simp add: saved_def)
qed

text \<open>A move of the loop from one step to the next.\<close>

definition moved :: "workflow \<Rightarrow> string \<Rightarrow> step \<Rightarrow> world \<Rightarrow> bool" where
  "moved wk r st w \<longleftrightarrow>
     saved r w \<and> rs_status (run_of w r) = RUNNING \<and>
     (\<exists>n handoff. legal_target wk st handoff n \<and> n \<noteq> END_STEP \<and> rs_current_step (run_of w r) = Some n)"

lemma leave_step_moved:
  assumes l: "leave_step cfg wk r st out handoff cmd w = (Inr (Some p), w')"
    and s: "dget (w_runs w) r = Some s" "rs_run_id s = r" "rs_status s = RUNNING"
  shows "moved wk r st w'"
proof -
  obtain n w1 w2 where n: "choose_next cfg wk r st out handoff cmd w = (Inr n, w1)"
    and e: "emit_transition_events cfg r (sd_name st) n handoff w1 = (Inr (), w2)"
    and m: "(if n = END_STEP then sq (complete_run cfg r) (ret None)
        else sq (move_to cfg r n) (ret (Some out))) w2 = (Inr (Some p), w')"
    using l unfolding leave_step_def
    by (auto simp: py_simps split: option.splits prod.splits sum.splits elim!: bnd_InrE sq_InrE)
  have nend: "n \<noteq> END_STEP" using m by (auto simp: py_simps split: prod.splits sum.splits if_splits)
  with m obtain u where mv: "move_to cfg r n w2 = (Inr u, w')"
    by (auto simp: py_simps split: prod.splits sum.splits)
  from choose_next_Inr [OF n] have leg: "legal_target wk st handoff n" and s1: "dget (w_runs w1) r = Some s"
    using s(1) by auto
  have "field_kept r rs_run_id w1 w2" "field_kept r rs_status w1 w2"
    using e by (auto intro: presD [OF field_transition_events])
  then have s2: "dget (w_runs w2) r = Some (run_of w2 r)" "rs_run_id (run_of w2 r) = r"
    "rs_status (run_of w2 r) = RUNNING"
    using field_keptD [OF _ s1] s(2,3) by fastforce+
  show ?thesis
    using leg nend move_to_Inr [OF mv s2(1)] move_to_saved [OF mv s2(1,2)] s2(3)
    by (auto simp: moved_def)
qed

lemma guarded_execution_None:
  assumes g: "guarded_execution cfg wk r st payload w = (Inr None, w')"
    and s: "dget (w_runs w) r = Some s" "rs_run_id s = r"
  shows "rested r (rs_current_step s) w'"
proof -
  let ?x = "sd_executor st"
  let ?ctx = "policy_ctx wk (sd_name st) (executor_name ?x) (executor_capabilities ?x) (executor_side_effect ?x) False"
  obtain u w1 e w2 v where e: "evaluate_policies cfg wk r (sd_name st) (?ctx s) w = (Inr u, w1)"
    and t: "run_executor cfg wk r st payload w1 = (Inl e, w2)"
    and a: "await_approval cfg r st (exn_str e) payload w2 = (Inr v, w')"
    using g s(1)
    by (auto simp: guarded_execution_def state_of_def run_of_def py_simps Let_def
        split: sum.splits prod.splits if_splits)
  have "field_kept r body w w1" using e by (rule presD [OF execution_keeps_run(1)])
  moreover have "field_kept r body w1 w2" using t by (rule presD [OF execution_keeps_run(2)])
  ultimately have "field_kept r body w w2" by (rule field.R_trans)
  from field_keptD [OF this s(1)] have k: "dget (w_runs w2) r = Some (run_of w2 r)"
    and b: "body (run_of w2 r) = body s" by auto
  have "rs_run_id (run_of w2 r) = r" using body_fields(9) [OF b] s(2) by simp
  from await_approval_Inr [OF a k this] body_fields(2) [OF b]
  show ?thesis by (simp add: rested_def saved_def)
qed

lemma execute_step_Inr:
  assumes x: "execute_step cfg wk r st payload w = (Inr res, w')"
    and s: "dget (w_runs w) r = Some s" "rs_run_id s = r" "rs_status s = RUNNING"
  shows "(case res of
      None \<Rightarrow> rested r (rs_current_step s) w'
    | Some _ \<Rightarrow> moved wk r st w')"
proof -
  obtain outcome w1 where g: "guarded_execution cfg wk r st payload w = (Inr outcome, w1)"
    and k: "(case outcome of
       None \<Rightarrow> ret None
     | Some (output_payload, handoff, cmd) \<Rightarrow>
         bnd (record_output cfg r st output_payload cmd) (\<lambda>state_output.
         leave_step cfg wk r st state_output handoff cmd)) w1 = (Inr res, w')"
    using x unfolding execute_step_def by (rule bnd_InrE)
  show ?thesis
  proof (cases outcome)
    case None
    with k have "res = None" "w1 = w'" by (simp_all add: py_simps)
    with guarded_execution_None [OF g [unfolded None] s(1,2)] show ?thesis by simp
  next
    case (Some o3)
    obtain out handoff cmd where o3: "o3 = (out, handoff, cmd)" by (cases o3)
    note g1 = guarded_execution_Some [OF g [unfolded Some] s(1)]
    have i1: "rs_run_id (run_of w1 r) = r" "rs_status (run_of w1 r) = RUNNING"
      "rs_current_step (run_of w1 r) = rs_current_step s"
      using body_fields(1,2,9) [OF g1(2)] s by simp_all
    from k Some o3 obtain so w2 where ro: "record_output cfg r st out cmd w1 = (Inr so, w2)"
      and l: "leave_step cfg wk r st so handoff cmd w2 = (Inr res, w')"
      by (auto elim!: bnd_InrE)
    have "field_kept r rs_run_id w1 w2" "field_kept r rs_status w1 w2" "field_kept r rs_current_step w1 w2"
      using ro by (auto intro: presD [OF field_record_output])
    then have s2: "dget (w_runs w2) r = Some (run_of w2 r)" "rs_run_id (run_of w2 r) = r"
      "rs_status (run_of w2 r) = RUNNING"
      and cur: "rs_current_step (run_of w2 r) = rs_current_step s"
      using field_keptD [OF _ g1(1)] i1 by fastforce+
    show ?thesis
      using leave_step_None [OF _ s2(1,2)] leave_step_moved [OF _ s2] l cur by (cases res) auto
  qed
qed

lemma advance_step_Inr:
  assumes x: "advance_step cfg wk r payload w = (Inr res, w')"
    and s: "dget (w_runs w) r = Some s" "rs_run_id s = r" "rs_status s = RUNNING"
  shows "(case res of
      None \<Rightarrow> rested r (rs_current_step s) w'
    | Some _ \<Rightarrow> (\<exists>n st. rs_current_step s = Some n \<and> get_step wk n = Inr st \<and> moved wk r st w'))"
proof (cases "rs_current_step s")
  case None
  have "sq (complete_run cfg r) (ret None) w = (Inr res, w')"
    using x s(1) None by (simp add: advance_step_def state_of_def run_of_def py_simps)
  then obtain u where c: "complete_run cfg r w = (Inr u, w')" and "res = None"
    by (auto simp: py_simps split: sum.splits prod.splits)
  then show ?thesis using complete_run_Inr [OF c s(1,2)] by (simp add: rested_def saved_def)
next
  case (Some n)
  obtain st w1 gate where st: "get_step wk n = Inr st"
    and e: "emit_run cfg r STEP_ENTERED (Some (sd_name st)) [] w = (Inr (), w1)"
    and k: "(if gate
         then sq (await_approval cfg r st
                    (''Approval required for '' @ executor_name (sd_executor st)) payload)
                 (ret None)
         else execute_step cfg wk r st payload) w1 = (Inr res, w')"
    using x s(1) Some
    by (auto simp: advance_step_def state_of_def run_of_def bnd_run sq_run gets_run lift_res_run
        split: sum.splits prod.splits if_splits)
  have "field_kept r rs_run_id w w1" "field_kept r rs_status w w1" "field_kept r rs_current_step w w1"
    using e by (auto intro: presD [OF field_emit_run])
  then have s1: "dget (w_runs w1) r = Some (run_of w1 r)" "rs_run_id (run_of w1 r) = r"
    "rs_status (run_of w1 r) = RUNNING"
    and cur: "rs_current_step (run_of w1 r) = rs_current_step s"
    using field_keptD [OF _ s(1)] s(2,3) by fastforce+
  show ?thesis
  proof (cases gate)
    case True
    with k obtain u where a: "await_approval cfg r st
        (''Approval required for '' @ executor_name (sd_executor st)) payload w1 = (Inr u, w')"
      and "res = None" by (auto simp: py_simps split: sum.splits prod.splits)
    then show ?thesis using await_approval_Inr [OF a s1(1,2)] cur by (simp add: rested_def saved_def)
  next
    case False
    with k have "execute_step cfg wk r st payload w1 = (Inr res, w')" by simp
    from execute_step_Inr [OF this s1] Some st cur show ?thesis by (cases res) auto
  qed
qed


subsection \<open>The loop\<close>

text \<open>\<open>wf_edge wk n m\<close>: the workflow declares a transition from step \<open>n\<close> to step \<open>m\<close>.\<close>

definition wf_edge :: "workflow \<Rightarrow> string \<Rightarrow> string \<Rightarrow> bool" where
  "wf_edge wk n m \<longleftrightarrow>
     (\<exists>st. dget (wf_steps wk) n = Some st \<and> m \<in> set (declared_targets st) \<and> m \<noteq> END_STEP \<and>
        dhas (wf_steps wk) m)"

lemma get_step_dget: "get_step wk n = Inr st \<Longrightarrow> dget (wf_steps wk) n = Some st"
  by (auto simp: get_step_def split: option.splits)

lemma moved_edge:
  "get_step wk n = Inr st \<Longrightarrow> moved wk r st w \<Longrightarrow>
   \<exists>m. wf_edge wk n m \<and> rs_current_step (run_of w r) = Some m"
  by (auto simp: moved_def legal_target_def wf_edge_def dest: get_step_dget)

text \<open>The loop's invariant: the run is cached under its id and its step was reached along declared
  transitions from the step \<open>n0\<close>; a result that is not a payload is that of a resting run.\<close>

definition on_path :: "workflow \<Rightarrow> string option \<Rightarrow> string option \<Rightarrow> bool" where
  "on_path wk a b \<longleftrightarrow> a = b \<or> (\<exists>n m. a = Some n \<and> b = Some m \<and> (wf_edge wk)\<^sup>*\<^sup>* n m)"

definition loop_inv :: "workflow \<Rightarrow> string \<Rightarrow> string option \<Rightarrow> loop_state \<Rightarrow> bool" where
  "loop_inv wk r a c \<longleftrightarrow> cached_ok (snd c) \<and> stored_ok (snd c) \<and>
     (case c of
        (Inl e, w) \<Rightarrow> True
      | (Inr (Some p), w) \<Rightarrow> dget (w_runs w) r = Some (run_of w r) \<and>
          rs_status (run_of w r) = RUNNING \<and> on_path wk a (rs_current_step (run_of w r))
      | (Inr None, w) \<Rightarrow> (\<exists>b. rested r b w \<and> on_path wk a b))"

lemma looping_cases:
  assumes "looping r c"
  obtains p w where "c = (Inr (Some p), w)" "rs_status (run_of w r) = RUNNING"
  using assms by (auto simp: looping_def split: prod.splits sum.splits option.splits)

lemma on_path_step: "on_path wk a (Some n) \<Longrightarrow> wf_edge wk n m \<Longrightarrow> on_path wk a (Some m)"
  unfolding on_path_def by (auto intro: rtranclp.rtrancl_into_rtrancl)

lemma cached_run_id: "cached_ok w \<Longrightarrow> dget (w_runs w) r = Some s \<Longrightarrow> rs_run_id s = r"
  by (simp add: cached_ok_def)

lemma advance_step_caches:
  assumes "advance_step cfg wk r p w = (x, w')" "cached_ok w" "stored_ok w"
  shows "cached_ok w'" "stored_ok w'"
  using presD [OF cache.pres_advance_step assms(1)] assms(2,3) by (simp_all add: cache_evolves_def)

lemma loop_body_inv:
  assumes i: "loop_inv wk r a c" and l: "looping r c"
  shows "loop_inv wk r a (loop_body cfg wk r c)"
proof -
  obtain p w where c: "c = (Inr (Some p), w)" using l by (rule looping_cases)
  from i c have s: "dget (w_runs w) r = Some (run_of w r)" "rs_status (run_of w r) = RUNNING"
    and path: "on_path wk a (rs_current_step (run_of w r))" and ok: "cached_ok w" "stored_ok w"
    by (simp_all add: loop_inv_def)
  obtain res w' where x: "advance_step cfg wk r p w = (res, w')" by (cases "advance_step cfg wk r p w")
  note ok' = advance_step_caches [OF x ok]
  show ?thesis
  proof (cases res)
    case (Inl e)
    then show ?thesis using c x ok' by (simp add: loop_body_def loop_inv_def)
  next
    case (Inr out)
    note step = advance_step_Inr [OF x [unfolded Inr] s(1) cached_run_id [OF ok(1) s(1)] s(2)]
    show ?thesis
    proof (cases out)
      case None
      with step Inr c x ok' path show ?thesis by (auto simp: loop_body_def loop_inv_def)
    next
      case (Some q)
      with step obtain n st where n: "rs_current_step (run_of w r) = Some n" "get_step wk n = Inr st"
        and m: "moved wk r st w'" by auto
      from moved_edge [OF n(2) m] obtain k where "wf_edge wk n k" "rs_current_step (run_of w' r) = Some k"
        by auto
      with path n have "on_path wk a (rs_current_step (run_of w' r))" by (auto intro: on_path_step)
      with m Some Inr c x ok' show ?thesis by (simp add: loop_body_def loop_inv_def moved_def saved_def)
    qed
  qed
qed

lemma advance_result:
  assumes x: "advance cfg wk r payload w = Some (Inr s', w')"
    and s: "dget (w_runs w) r = Some s" "rs_status s = RUNNING" and ok: "cached_ok w" "stored_ok w"
  shows "s' = run_of w' r" "\<exists>b. rested r b w' \<and> on_path wk (rs_current_step s) b"
proof -
  obtain c where c: "while_option (looping r) (loop_body cfg wk r) (Inr (Some payload), w) = Some c"
    and r: "map_sum id (\<lambda>_. run_of (snd c) r) (fst c) = Inr s'" "w' = snd c"
    using x by (auto simp: advance_def split: prod.splits)
  have start: "loop_inv wk r (rs_current_step s) (Inr (Some payload), w)"
    using s ok by (simp add: loop_inv_def run_of_def on_path_def)
  have inv: "loop_inv wk r (rs_current_step s) c"
    using while_option_rule [where P = "loop_inv wk r (rs_current_step s)", OF loop_body_inv c start] .
  have stop: "\<not> looping r c" using while_option_stop [OF c] .
  from r obtain o1 where fc: "fst c = Inr o1" by (cases "fst c") auto
  then have o1: "c = (Inr o1, w')" using r by (cases c) simp
  have "o1 = None" using inv stop o1 by (cases o1) (auto simp: loop_inv_def looping_def)
  with inv o1 show "\<exists>b. rested r b w' \<and> on_path wk (rs_current_step s) b" by (simp add: loop_inv_def)
  show "s' = run_of w' r" using r fc by simp
qed

subsection \<open>Acyclic workflows end\<close>

text \<open>A workflow without cycles has a rank that every declared transition lowers.\<close>

definition acyclic_workflow :: "(string \<Rightarrow> nat) \<Rightarrow> workflow \<Rightarrow> bool" where
  "acyclic_workflow rank wk \<longleftrightarrow> (\<forall>n m. wf_edge wk n m \<longrightarrow> rank m < rank n)"

definition loop_rank :: "(string \<Rightarrow> nat) \<Rightarrow> string \<Rightarrow> loop_state \<Rightarrow> nat" where
  "loop_rank rank r c =
     (case c of
        (Inr (Some _), w) \<Rightarrow>
          Suc (case rs_current_step (run_of w r) of None \<Rightarrow> 0 | Some n \<Rightarrow> Suc (rank n))
      | _ \<Rightarrow> 0)"

lemma advance_ends:
  assumes rank: "acyclic_workflow rank wk"
    and s: "dget (w_runs w) r = Some s" "rs_status s = RUNNING" and ok: "cached_ok w" "stored_ok w"
  shows "\<exists>res w'. advance cfg wk r payload w = Some (res, w')"
proof -
  let ?a = "rs_current_step s" and ?b = "loop_body cfg wk r"
  have start: "loop_inv wk r ?a (Inr (Some payload), w)"
    using s ok by (simp add: loop_inv_def run_of_def on_path_def)
  have less: "loop_rank rank r (?b c) < loop_rank rank r c" if i: "loop_inv wk r ?a c" and l: "looping r c" for c
  proof -
    obtain p u where c: "c = (Inr (Some p), u)" using l by (rule looping_cases)
    from i c have s: "dget (w_runs u) r = Some (run_of u r)" "rs_status (run_of u r) = RUNNING"
      and ok: "cached_ok u" by (simp_all add: loop_inv_def)
    obtain res u' where x: "advance_step cfg wk r p u = (res, u')" by (cases "advance_step cfg wk r p u")
    show ?thesis
    proof (cases res)
      case (Inl e)
      then show ?thesis using c x by (simp add: loop_body_def loop_rank_def)
    next
      case (Inr out)
      note step = advance_step_Inr [OF x [unfolded Inr] s(1) cached_run_id [OF ok s(1)] s(2)]
      show ?thesis
      proof (cases out)
        case None
        then show ?thesis using Inr c x by (simp add: loop_body_def loop_rank_def)
      next
        case (Some q)
        with step obtain n st where n: "rs_current_step (run_of u r) = Some n" "get_step wk n = Inr st"
          and m: "moved wk r st u'" by auto
        from moved_edge [OF n(2) m] obtain k where "wf_edge wk n k" "rs_current_step (run_of u' r) = Some k"
          by auto
        with rank n Some Inr c x show ?thesis by (simp add: loop_body_def loop_rank_def acyclic_workflow_def)
      qed
    qed
  qed
  obtain c where "while_option (looping r) ?b (Inr (Some payload), w) = Some c"
    using measure_while_option_Some [where P = "loop_inv wk r ?a" and b = "looping r" and c = ?b
        and f = "loop_rank rank r" and s = "(Inr (Some payload), w)"] start less loop_body_inv
    by blast
  then show ?thesis by (auto simp: advance_def split: prod.splits)
qed


subsection \<open>The entry points hand the loop a running run\<close>

lemma field_register_active [pres_intros]: "pres (field_kept r f) (register_active_run q)"
  unfolding register_active_run_def by (intro pres_intros) simp

lemma field_bump [pres_intros]: "pres (field_kept r f) (bump_interrupt_epoch q)"
  unfolding bump_interrupt_epoch_def by (intro pres_intros) simp

lemma start_run_Inr:
  assumes x: "start_run cfg wk data th w = (Inr (r, p), w')"
  obtains entry where "wf_entry wk = Some entry" "p = Some (to_payload data)" "r = uuid_of (w_fresh w)"
    "dget (w_runs w') r = Some (run_of w' r)" "rs_status (run_of w' r) = RUNNING"
    "rs_current_step (run_of w' r) = Some entry" "rs_workflow_name (run_of w' r) = wf_name wk"
    "rs_thread_id (run_of w' r) = (case th of None \<Rightarrow> r | Some t \<Rightarrow> t)"
proof -
  obtain r1 entry w1 where o: "open_run cfg wk th w = (Inr (r1, entry), w1)"
    and k: "sq (persist_state cfg r1)
    (sq (register_active_run r1)
    (sq (emit_audit cfg r1 (wf_name wk) RUN_STARTED None [(''entry_step'', JStr entry)])
    (sq (update_state r1 (\<lambda>s. s\<lparr>rs_status := RUNNING\<rparr>))
    (sq (touch_state r1)
    (sq (persist_state cfg r1)
        (ret (r1, Some (to_payload data)))))))) w1 = (Inr (r, p), w')"
    using x unfolding start_run_def begin_run_def by (auto elim!: bnd_InrE)
  let ?s0 = "new_run_state r1 th (wf_name wk) (Some entry) (cfg_channel_defaults cfg) (w_now w)"
  from o have r1: "r1 = uuid_of (w_fresh w)" and e: "wf_entry wk = Some entry"
    and s1: "dget (w_runs w1) r1 = Some ?s0"
    by (auto simp: open_run_run Let_def entry_step_name_def split: sum.splits option.splits)
  from k obtain u1 w2 u2 w3 u3 w4 where
    steps: "persist_state cfg r1 w1 = (Inr u1, w2)" "register_active_run r1 w2 = (Inr u2, w3)"
      "emit_audit cfg r1 (wf_name wk) RUN_STARTED None [(''entry_step'', JStr entry)] w3 = (Inr u3, w4)"
    and k2: "sq (update_state r1 (\<lambda>s. s\<lparr>rs_status := RUNNING\<rparr>))
    (sq (touch_state r1) (sq (persist_state cfg r1) (ret (r1, Some (to_payload data))))) w4 = (Inr (r, p), w')"
    by - (erule sq_InrE, erule sq_InrE, erule sq_InrE, blast)
  have kept: "field_kept r1 f w1 w4" if "write_stable f" for f :: "run_state \<Rightarrow> 'b"
    using that steps by (blast intro: field.R_trans presD [OF field_persist] presD [OF field_register_active]
        presD [OF field_emit_audit])
  have s4: "dget (w_runs w4) r1 = Some (run_of w4 r1)"
    and f4: "rs_current_step (run_of w4 r1) = Some entry" "rs_workflow_name (run_of w4 r1) = wf_name wk"
      "rs_thread_id (run_of w4 r1) = (case th of None \<Rightarrow> r1 | Some t \<Rightarrow> t)" "rs_run_id (run_of w4 r1) = r1"
    using field_keptD [OF kept s1, of rs_current_step] field_keptD [OF kept s1, of rs_workflow_name]
      field_keptD [OF kept s1, of rs_thread_id] field_keptD [OF kept s1, of rs_run_id]
    by (simp_all add: new_run_state_def)
  have rr: "r = r1" "p = Some (to_payload data)" using k2 by (auto simp: py_simps split: sum.splits prod.splits)
  note ch = change_saved [OF k2 s4 _ frozen.pres_ret]
  show ?thesis
    using that [OF e rr(2)] ch(2) ch(3) [of rs_status] ch(3) [of rs_current_step] ch(3) [of rs_workflow_name]
      ch(3) [of rs_thread_id] f4 r1 rr(1) by (simp cong: option.case_cong)
qed


lemma field_load_state [pres_intros]: "pres (field_kept r f) (load_state q)"
  unfolding load_state_def by (intro pres_intros)

lemma grant_run_Inr:
  assumes x: "grant_run cfg r q d w = (Inr (r', p), w')" and s: "dget (w_runs w) r = Some s" "rs_run_id s = r"
  shows "r' = r" "\<exists>v. p = Some v" "rs_status (run_of w' r) = RUNNING" "dget (w_runs w') r = Some (run_of w' r)"
    "rs_current_step (run_of w' r) = rs_current_step s"
proof -
  obtain md w2 pending where e: "emit_run cfg r APPROVAL_GRANTED (rs_current_step s)
        [(''decided_by'', opt_json (ad_decided_by d)), (''reason'', opt_json (ad_reason d))]
        (set_run r (s\<lparr>rs_metadata := md\<rparr>) w) = (Inr (), w2)"
    and k: "sq (update_state r (\<lambda>s. s\<lparr>rs_pending_approval := None, rs_status := RUNNING\<rparr>))
       (sq (touch_state r) (sq (persist_state cfg r) (ret (r, Some pending)))) w2 = (Inr (r', p), w')"
    using x s(1)
    by (auto simp: grant_run_def state_of_def run_of_def Let_def bnd_run sq_run gets_run lift_res_run
        update_state_run split: sum.splits prod.splits)
  have "field_kept r f (set_run r (s\<lparr>rs_metadata := md\<rparr>) w) w2" for f :: "run_state \<Rightarrow> 'b"
    using e by (rule presD [OF field_emit_run])
  note fk = field_keptD [OF this, of "s\<lparr>rs_metadata := md\<rparr>"]
  have s2: "dget (w_runs w2) r = Some (run_of w2 r)" "rs_run_id (run_of w2 r) = r"
    "rs_current_step (run_of w2 r) = rs_current_step s"
    using fk [of rs_run_id] fk [of rs_current_step] s(2) by simp_all
  note ch = change_saved [OF k s2(1) _ frozen.pres_ret]
  show "r' = r" "\<exists>v. p = Some v" using k by (auto simp: py_simps split: sum.splits prod.splits)
  show "rs_status (run_of w' r) = RUNNING" "dget (w_runs w') r = Some (run_of w' r)"
    "rs_current_step (run_of w' r) = rs_current_step s"
    using ch(2) ch(3) [of rs_status] ch(3) [of rs_current_step] s2 by simp_all
qed


text \<open>A run the loop can be entered with.\<close>

lemma state_of_run: "state_of r w = (Inr (run_of w r), w)"
  by (simp add: state_of_def gets_run)

definition runnable :: "string \<Rightarrow> world \<Rightarrow> bool" where
  "runnable r w \<longleftrightarrow> dget (w_runs w) r = Some (run_of w r) \<and> rs_status (run_of w r) = RUNNING"

lemma resume_transition_Inr:
  assumes x: "resume_transition cfg wk r v w = (Inr (r', p), w')"
    and s: "dget (w_runs w) r = Some s" "rs_run_id s = r" "rs_status s = RUNNING"
  shows "r' = r \<and> (case p of None \<Rightarrow> rested r None w' | Some _ \<Rightarrow> runnable r w')"
proof -
  let ?s = "s\<lparr>rs_metadata := ddel ''pending_interrupt_resume'' (rs_metadata s)\<rparr>"
  let ?w = "set_run r ?s w"
  have s0: "dget (w_runs ?w) r = Some ?s" by simp
  from x s consider (plain) "r' = r" "p = Some v" "w' = ?w"
    | (step) n h m w1 y where
      "emit_transition_events cfg r n m h ?w = (Inr (), w1)"
      "(if m = END_STEP then sq (complete_run cfg r) (ret (r, None))
        else sq (update_state r (\<lambda>s. s\<lparr>rs_current_step := Some m\<rparr>))
               (sq (touch_state r) (sq (persist_state cfg r) (ret (r, Some y))))) w1 = (Inr (r', p), w')"
    by (auto simp: resume_transition_def state_of_def run_of_def Let_def bnd_run sq_run gets_run lift_res_run
        ret_run update_state_run split: sum.splits prod.splits if_splits)
  then show ?thesis
  proof cases
    case plain
    then show ?thesis using s by (simp add: runnable_def)
  next
    case step
    have "field_kept r f ?w w1" for f :: "run_state \<Rightarrow> 'b"
      using step(1) by (rule presD [OF field_transition_events])
    note fk = field_keptD [OF this s0]
    have s1: "dget (w_runs w1) r = Some (run_of w1 r)" "rs_run_id (run_of w1 r) = r"
      "rs_status (run_of w1 r) = RUNNING"
      using fk [of rs_run_id] fk [of rs_status] s by simp_all
    show ?thesis
    proof (cases "m = END_STEP")
      case True
      with step(2) obtain u where "complete_run cfg r w1 = (Inr u, w')" "r' = r" "p = None"
        by (auto simp: py_simps split: sum.splits prod.splits)
      with complete_run_Inr [OF this(1) s1(1,2)] show ?thesis by (simp add: rested_def saved_def)
    next
      case False
      with step(2) have k: "sq (update_state r (\<lambda>s. s\<lparr>rs_current_step := Some m\<rparr>))
               (sq (touch_state r) (sq (persist_state cfg r) (ret (r, Some y)))) w1 = (Inr (r', p), w')"
        by simp
      have "r' = r" "p = Some y" using k by (auto simp: py_simps split: sum.splits prod.splits)
      moreover note ch = change_saved [OF k s1(1) _ frozen.pres_ret]
      ultimately show ?thesis using ch(2) ch(3) [of rs_status] s1 by (simp add: runnable_def)
    qed
  qed
qed

lemma resume_interrupt_Inr:
  assumes x: "resume_interrupt cfg wk r rp w = (Inr (r', p), w')"
    and s: "dget (w_runs w) r = Some s" "rs_run_id s = r"
  shows "r' = r \<and> (case p of None \<Rightarrow> rested r None w' | Some _ \<Rightarrow> runnable r w')"
proof -
  obtain i v ep where rp: "rp = ResumeInterrupt i v ep"
    using x s(1) by (cases rp) (auto simp: resume_interrupt_def state_of_def run_of_def py_simps split: option.splits)
  obtain res :: interrupt_resolution and i2 where k: "sq (update_state r (\<lambda>s. s\<lparr>rs_pending_interrupt_id := None, rs_status := RUNNING\<rparr>))
             (sq (bump_interrupt_epoch r)
             (sq (touch_state r)
             (sq (persist_state cfg r)
             (bnd (state_of r) (\<lambda>s.
              sq (emit_run cfg r INTERRUPT_RESOLVED (rs_current_step s)
                    [(''interrupt_id'', JStr i), (''response'', ires_response res)])
                 (resume_transition cfg wk r (ires_response res))))))) (put_intr i2 w) = (Inr (r', p), w')"
    using x s(1) unfolding resume_interrupt_def rp
    by (auto simp: bnd_run [of "state_of r"] state_of_run run_of_def now_of_def zoom_run on_error_run
        bnd_run [of "gets w_now"] bnd_run [of "on_error m h" for m h] gets_run raise_run
        split: option.splits sum.splits prod.splits)
  let ?w2 = "set_run r (s\<lparr>rs_pending_interrupt_id := None, rs_status := RUNNING\<rparr>) (put_intr i2 w)"
  have s1: "dget (w_runs (put_intr i2 w)) r = Some s" using s(1) by simp
  let ?pre = "sq (bump_interrupt_epoch r) (sq (touch_state r) (sq (persist_state cfg r)
        (bnd (state_of r) (\<lambda>s. emit_run cfg r INTERRUPT_RESOLVED (rs_current_step s)
                    [(''interrupt_id'', JStr i), (''response'', ires_response res)]))))"
  obtain y3 y4 where pre: "?pre ?w2 = (Inr y3, y4)"
    and t: "resume_transition cfg wk r (ires_response res) y4 = (Inr (r', p), w')"
    using k by (auto simp: update_state_run [OF s1] sq_run bnd_run gets_run state_of_def
        split: sum.splits prod.splits)
  have "field_kept r f ?w2 y4" if "write_stable f" for f :: "run_state \<Rightarrow> 'b"
    by (rule presD [where m = ?pre, OF _ pre]) (intro pres_intros that)
  note fk = field_keptD [OF this, of _ "s\<lparr>rs_pending_interrupt_id := None, rs_status := RUNNING\<rparr>"]
  have "dget (w_runs y4) r = Some (run_of y4 r)" "rs_run_id (run_of y4 r) = r" "rs_status (run_of y4 r) = RUNNING"
    using fk [of rs_run_id] fk [of rs_status] s by simp_all
  from resume_transition_Inr [OF t this] show ?thesis .
qed


lemma load_state_Inr:
  assumes "load_state r w = (Inr u, w1)" "cached_ok w" "stored_ok w"
  shows "dget (w_runs w1) r = Some (run_of w1 r)" "rs_run_id (run_of w1 r) = r" "cached_ok w1" "stored_ok w1"
proof -
  show k: "cached_ok w1" "stored_ok w1"
    using presD [OF cache.pres_load_state assms(1)] assms(2,3) by (simp_all add: cache_evolves_def)
  show s: "dget (w_runs w1) r = Some (run_of w1 r)"
    using assms(1) by (auto simp: load_state_def known_run_def py_simps run_of_def split: option.splits)
  show "rs_run_id (run_of w1 r) = r" using cached_run_id [OF k(1) s] .
qed

lemma reject_run_raises: "reject_run cfg r d w = (Inr x, w') \<Longrightarrow> False"
  by (auto simp: reject_run_def Let_def raise_run elim!: bnd_InrE sq_InrE)

lemma prepare_resume_Inr:
  assumes x: "prepare_resume cfg wk r p w = (Inr (r', v), w')" and ok: "cached_ok w" "stored_ok w"
  shows "r' = r \<and> (case v of None \<Rightarrow> rested r None w' | Some _ \<Rightarrow> runnable r w')"
proof -
  obtain u w1 where l: "load_state r w = (Inr u, w1)"
    and k: "bnd (lift_res (normalize_resume_payload cfg p)) (\<lambda>normalized.
     bnd (state_of r) (\<lambda>s.
     if rs_status s = WAITING_APPROVAL then resume_approval cfg r normalized
     else if rs_status s = WAITING_INTERRUPT then resume_interrupt cfg wk r normalized
     else raise (Exn ApprovalRequiredError
            (''Run '' @ r @ '' is not resumable (status='' @ status_value (rs_status s) @ '')'')))) w1 = (Inr (r', v), w')"
    using x unfolding prepare_resume_def by (rule sq_InrE)
  note s = load_state_Inr [OF l ok]
  from k consider (approval) n where "resume_approval cfg r n w1 = (Inr (r', v), w')"
    | (interrupt) n where "resume_interrupt cfg wk r n w1 = (Inr (r', v), w')"
    by (auto simp: bnd_run [of "lift_res x" for x] bnd_run [of "state_of r"] state_of_run lift_res_run raise_run
        split: sum.splits if_splits)
  then show ?thesis
  proof cases
    case approval
    then obtain q d where "grant_run cfg r q d w1 = (Inr (r', v), w')"
      using s(1)
      by (auto simp: resume_approval_def bnd_run [of "state_of r"] bnd_run [of "gets w_now"] bnd_run [of "lift_res x" for x]
          state_of_run lift_res_run raise_run now_of_def gets_run dest: reject_run_raises
          split: option.splits resume_payload.splits sum.splits if_splits)
    from grant_run_Inr [OF this s(1,2)] show ?thesis by (auto simp: runnable_def)
  next
    case interrupt
    from resume_interrupt_Inr [OF this s(1,2)] show ?thesis .
  qed
qed

lemma restore_checkpoint_Inr:
  assumes x: "restore_checkpoint cfg c payload w = (Inr (r, v), w')"
  shows "r = uuid_of (w_fresh w) \<and> (\<exists>p. v = Some p) \<and> runnable r w'"
proof -
  let ?rest = "\<lambda>r. sq (touch_state r) (sq (persist_state cfg r) (sq (register_active_run r)
    (bnd (state_of r) (\<lambda>s.
     sq (emit_run cfg r CHECKPOINT_RESTORED None
           [(''source_checkpoint_id'', JStr c), (''thread_id'', JStr (rs_thread_id s))])
    (sq (emit_run cfg r RUN_STARTED None
           [(''entry_step'', opt_json (rs_current_step s)), (''resumed_from_checkpoint'', JStr c)])
    (bnd (state_of r) (\<lambda>s.
     if payload = JNull
     then sq (update_state r (\<lambda>s. s\<lparr>rs_metadata := ddel ''pending_input'' (rs_metadata s)\<rparr>))
             (ret (r, Some (dget_or (rs_metadata s) ''pending_input'' JNull)))
     else ret (r, Some payload))))))))"
  obtain q w1 where o: "open_restored c w = (Inr q, w1)" and k: "?rest q w1 = (Inr (r, v), w')"
    using x unfolding restore_checkpoint_def begin_restored_def by (rule bnd_InrE)
  from o obtain snap where q: "q = uuid_of (w_fresh w)"
    and s1: "dget (w_runs w1) q = Some (restored_state q snap)"
    by (auto simp: open_restored_run Let_def split: option.splits)
  from k have v: "r = q \<and> (\<exists>p. v = Some p)"
    by (auto simp: ret_run split: if_splits elim!: sq_InrE bnd_InrE)
  have "pres (field_kept q rs_status) (?rest q)"
    by (intro pres_intros field_update) simp_all
  then have "field_kept q rs_status w1 w'" using k by (rule presD [where m = "?rest q"])
  from field_keptD [OF this s1] show ?thesis
    using v q by (simp add: runnable_def restored_state_def)
qed

subsection \<open>The properties of the loop\<close>

text \<open>The entry points, from what they do before the loop to what they return.\<close>

lemma then_advance_rested:
  assumes m: "m w = (Inr (r, v), w1)" and x: "then_advance cfg wk m w = Some (Inr s, w')"
    and r: "case v of None \<Rightarrow> rested r b w1 | Some _ \<Rightarrow> runnable r w1" and ok: "cached_ok w1" "stored_ok w1"
  shows "\<exists>b. rested r b w' \<and> s = run_of w' r"
proof (cases v)
  case None
  with m x r show ?thesis by (auto simp: then_advance_def)
next
  case (Some p)
  with m x r have "advance cfg wk r p w1 = Some (Inr s, w')" by (simp add: then_advance_def)
  from advance_result [OF this _ _ ok] r Some show ?thesis by (auto simp: runnable_def)
qed

end
