(* ===== verification/Progress.thy ===== *)
theory Progress
  imports Execution
begin

section \<open>What a run can do\<close>

text \<open>
  The properties of whole runs: every entry point returns a run at rest, stored as returned; the
  steps of a run follow declared transitions; a workflow without cycles ends; an executor changes
  nothing of the run but its metadata; a run that is not waiting cannot be resumed.
\<close>

subsection \<open>Entry points return runs at rest\<close>

definition at_rest :: "run_state \<Rightarrow> bool" where
  "at_rest s \<longleftrightarrow>
     rs_status s = COMPLETED \<and> rs_current_step s = None \<or>
     rs_status s = WAITING_APPROVAL \<and> rs_pending_approval s \<noteq> None \<or>
     rs_status s = WAITING_INTERRUPT \<and> rs_pending_interrupt_id s \<noteq> None"

datatype entry =
    RunWorkflow py_value "string option"
  | ResumeWorkflow string resume_input
  | ResumeFromCheckpoint string json

fun enter :: "config \<Rightarrow> workflow \<Rightarrow> entry \<Rightarrow> world \<Rightarrow> ((exn + run_state) \<times> world) option" where
  "enter cfg wk (RunWorkflow data th) = run_workflow cfg wk data th"
| "enter cfg wk (ResumeWorkflow r p) = resume_workflow cfg wk r p"
| "enter cfg wk (ResumeFromCheckpoint c payload) = resume_from_checkpoint cfg wk c payload"

fun prepare :: "config \<Rightarrow> workflow \<Rightarrow> entry \<Rightarrow> (string \<times> json option) rt" where
  "prepare cfg wk (RunWorkflow data th) = start_run cfg wk data th"
| "prepare cfg wk (ResumeWorkflow r p) = prepare_resume cfg wk r p"
| "prepare cfg wk (ResumeFromCheckpoint c payload) = restore_checkpoint cfg c payload"

lemma enter_prepare: "enter cfg wk e = then_advance cfg wk (prepare cfg wk e)"
  by (cases e) (simp_all add: run_workflow_def resume_workflow_def resume_from_checkpoint_def)

lemma pres_prepare: "pres evolves (prepare cfg wk e)"
  by (cases e) (auto intro: pres_intros ev.pres_start_run ev.pres_prepare_resume ev.pres_restore_checkpoint)

lemma prepare_Inr:
  assumes "prepare cfg wk e w = (Inr (r, v), w1)" "world_ok w"
  shows "case v of None \<Rightarrow> rested r None w1 | Some _ \<Rightarrow> runnable r w1"
proof -
  have ok: "cached_ok w" "stored_ok w" using assms(2) by (simp_all add: world_ok_def)
  show ?thesis
  proof (cases e)
    case (RunWorkflow data th)
    with assms(1) show ?thesis by (auto elim!: start_run_Inr simp: runnable_def)
  next
    case (ResumeWorkflow q p)
    with assms(1) prepare_resume_Inr [OF _ ok] show ?thesis by fastforce
  next
    case (ResumeFromCheckpoint c p)
    with assms(1) restore_checkpoint_Inr show ?thesis by fastforce
  qed
qed

lemma enter_evolves: "enter cfg wk e w = Some (res, w') \<Longrightarrow> evolves w w'"
  unfolding enter_prepare using ev.then_advance_keeps [OF pres_prepare] .

lemma enter_Inr:
  assumes x: "enter cfg wk e w = Some (Inr s, w')" and ok: "world_ok w"
  shows "\<exists>r b. rested r b w' \<and> s = run_of w' r" "world_ok w'"
proof -
  show "world_ok w'" using evolves_ok [OF enter_evolves [OF x] ok] by simp
  obtain p w1 where p: "prepare cfg wk e w = (p, w1)" by (cases "prepare cfg wk e w")
  with x obtain r v where rv: "p = Inr (r, v)"
    by (cases p) (auto simp: enter_prepare then_advance_def)
  have "world_ok w1" using world_ok_step [OF pres_prepare ok p] .
  then have "cached_ok w1" "stored_ok w1" by (simp_all add: world_ok_def)
  from then_advance_rested [OF p [unfolded rv] x [unfolded enter_prepare] prepare_Inr [OF p [unfolded rv] ok] this]
  show "\<exists>r b. rested r b w' \<and> s = run_of w' r" by auto
qed

text \<open>C6: whatever the workflow, the policies and the user code: when an entry point returns a run, the
  run is completed (with no current step), waits for an approval it names, or waits for an interrupt
  it names; and the returned state is the one the runtime holds and the one the run store holds under
  the run's id.\<close>

theorem entry_returns_at_rest:
  assumes x: "enter cfg wk e w = Some (Inr s, w')" and ok: "world_ok w"
  shows "at_rest s \<and> dget (w_runs w') (rs_run_id s) = Some s \<and> get (w_store w') (rs_run_id s) = Some s"
proof -
  obtain r b where r: "rested r b w'" "s = run_of w' r" and ok': "world_ok w'"
    using enter_Inr [OF x ok] by auto
  from r have g: "get (w_store w') r = Some s" "dget (w_runs w') r = Some s"
    by (simp_all add: rested_def saved_def)
  with ok' have "state_consistent s" "rs_run_id s = r"
    by (auto simp: world_ok_def stores_ok_def store_inv_defs get_def cached_ok_def)
  with r g show ?thesis by (auto simp: rested_def at_rest_def state_consistent_def)
qed

theorem entry_returns_at_rest_witness:
  "\<exists>s w'. enter no_adapter_config (echo_workflow (echo_step\<lparr>sd_approval_override := Some True\<rparr>))
      (RunWorkflow (Plain (JInt 5)) None) (init_world 0) = Some (Inr s, w') \<and>
    at_rest s \<and> rs_status s = WAITING_APPROVAL"
proof -
  let ?run = "enter no_adapter_config (echo_workflow (echo_step\<lparr>sd_approval_override := Some True\<rparr>))
      (RunWorkflow (Plain (JInt 5)) None) (init_world 0)"
  have "case ?run of Some (Inr s, w') \<Rightarrow> rs_status s = WAITING_APPROVAL | _ \<Rightarrow> False" by code_simp
  then obtain s w' where r: "?run = Some (Inr s, w')" "rs_status s = WAITING_APPROVAL"
    by (auto split: option.splits prod.splits sum.splits)
  from entry_returns_at_rest [OF r(1) world_ok_init] r show ?thesis by blast
qed

subsection \<open>Runs follow their workflow\<close>

lemma advance_runs_kept:
  assumes "advance cfg wk r p w = Some (res, w')" "cached_ok w" "stored_ok w" "dget (w_runs w) q = Some s"
  shows "\<exists>s'. dget (w_runs w') q = Some s' \<and> rs_thread_id s' = rs_thread_id s \<and>
    rs_workflow_name s' = rs_workflow_name s"
  using cache.advance_keeps [OF assms(1)] assms(2-4) by (auto simp: cache_evolves_def runs_kept_def)

text \<open>C7: the run that \<open>run_workflow\<close> returns belongs to the workflow it was started on and to the thread
  it was given (its own id when there is none), and unless it is completed it waits at a step that is
  reached from the entry step along transitions the workflow declares.\<close>

theorem run_follows_transitions:
  assumes x: "run_workflow cfg wk data th w = Some (Inr s, w')" and ok: "world_ok w"
  shows "rs_workflow_name s = wf_name wk \<and>
    rs_thread_id s = (case th of None \<Rightarrow> rs_run_id s | Some t \<Rightarrow> t) \<and>
    (rs_status s = COMPLETED \<or>
     (\<exists>entry n. wf_entry wk = Some entry \<and> rs_current_step s = Some n \<and> (wf_edge wk)\<^sup>*\<^sup>* entry n))"
proof -
  obtain r v w1 where st: "start_run cfg wk data th w = (Inr (r, v), w1)"
    using x by (auto simp: run_workflow_def then_advance_def split: prod.splits sum.splits)
  obtain en where en: "wf_entry wk = Some en" "v = Some (to_payload data)"
    and s1: "dget (w_runs w1) r = Some (run_of w1 r)" "rs_status (run_of w1 r) = RUNNING"
      "rs_current_step (run_of w1 r) = Some en"
      "rs_workflow_name (run_of w1 r) = wf_name wk"
      "rs_thread_id (run_of w1 r) = (case th of None \<Rightarrow> r | Some t \<Rightarrow> t)"
    using st by (rule start_run_Inr)
  have "world_ok w1" using world_ok_step [OF ev.pres_start_run ok st] .
  then have c1: "cached_ok w1" "stored_ok w1" by (simp_all add: world_ok_def)
  have a: "advance cfg wk r (to_payload data) w1 = Some (Inr s, w')"
    using x st en by (simp add: run_workflow_def then_advance_def)
  obtain b where b: "rested r b w'" "on_path wk (Some en) b" and s: "s = run_of w' r"
    using advance_result [OF a s1(1,2) c1] s1(3) by auto
  have "world_ok w'" using enter_Inr(2) [of cfg wk "RunWorkflow data th"] x ok by simp
  with b s have i: "rs_run_id s = r" by (auto simp: world_ok_def cached_ok_def rested_def saved_def)
  show ?thesis
    using advance_runs_kept [OF a c1 s1(1)] b s i s1 en
    by (auto simp: rested_def saved_def on_path_def cong: option.case_cong)
qed

theorem run_follows_transitions_witness:
  "\<exists>s w'. run_workflow no_adapter_config (echo_workflow echo_step) (Plain (JInt 5)) (Some ''t'') (init_world 0) =
      Some (Inr s, w') \<and> rs_workflow_name s = ''wf'' \<and> rs_thread_id s = ''t'' \<and> rs_status s = COMPLETED"
proof -
  let ?run = "run_workflow no_adapter_config (echo_workflow echo_step) (Plain (JInt 5)) (Some ''t'') (init_world 0)"
  have "case ?run of Some (Inr s, w') \<Rightarrow> rs_status s = COMPLETED | _ \<Rightarrow> False" by code_simp
  then obtain s w' where r: "?run = Some (Inr s, w')" "rs_status s = COMPLETED"
    by (auto split: option.splits prod.splits sum.splits)
  from run_follows_transitions [OF r(1) world_ok_init] r show ?thesis by (auto simp: echo_workflow_def)
qed

lemma enter_ends:
  assumes rank: "acyclic_workflow rank wk" and ok: "world_ok w"
  shows "\<exists>res w'. enter cfg wk e w = Some (res, w')"
proof -
  obtain p w1 where p: "prepare cfg wk e w = (p, w1)" by (cases "prepare cfg wk e w")
  have "world_ok w1" using world_ok_step [OF pres_prepare ok p] .
  then have ok1: "cached_ok w1" "stored_ok w1" by (simp_all add: world_ok_def)
  show ?thesis
  proof (cases p)
    case (Inl x)
    with p show ?thesis by (simp add: enter_prepare then_advance_def)
  next
    case (Inr rv)
    obtain r v where rv: "rv = (r, v)" by (cases rv)
    show ?thesis
    proof (cases v)
      case None
      with p Inr rv show ?thesis by (simp add: enter_prepare then_advance_def)
    next
      case (Some payload)
      with prepare_Inr [OF p [unfolded Inr rv] ok] have "runnable r w1" by simp
      with p Inr rv Some advance_ends [OF rank _ _ ok1, of r] show ?thesis
        by (auto simp: enter_prepare then_advance_def runnable_def)
    qed
  qed
qed



text \<open>Every move of the loop follows the current step's own transition: after an iteration that
  goes on, the run is RUNNING, stored as it is cached, at a step that the step it was at declares as a
  target, that exists in the workflow, and that runs the agent of a handoff when there was one.\<close>

theorem moves_are_declared:
  assumes x: "advance_step cfg wk r payload w = (Inr (Some out), w')" and ok: "world_ok w"
    and s: "dget (w_runs w) r = Some s" "rs_status s = RUNNING"
  shows "\<exists>here st handoff n. rs_current_step s = Some here \<and> get_step wk here = Inr st \<and>
    legal_target wk st handoff n \<and> n \<noteq> END_STEP \<and> rs_current_step (run_of w' r) = Some n \<and>
    rs_status (run_of w' r) = RUNNING \<and> get (w_store w') r = Some (run_of w' r)"
proof -
  have "rs_run_id s = r" using ok s(1) by (auto simp: world_ok_def intro: cached_run_id)
  from advance_step_Inr [OF x s(1) this s(2)] show ?thesis by (auto simp: moved_def saved_def)
qed

definition two_steps :: workflow where
  "two_steps = (echo_workflow echo_step)\<lparr>wf_steps :=
     [(''a'', then_step ''b'' echo_step), (''b'', echo_step\<lparr>sd_name := ''b''\<rparr>)]\<rparr>"

theorem moves_are_declared_witness:
  "\<exists>out w'. advance_step no_adapter_config two_steps (uuid_of 0) (JInt 5) (world_with running_state) =
     (Inr (Some out), w') \<and> rs_current_step (run_of w' (uuid_of 0)) = Some ''b''"
proof -
  let ?step = "advance_step no_adapter_config two_steps (uuid_of 0) (JInt 5) (world_with running_state)"
  have "case ?step of (Inr (Some out), w') \<Rightarrow> rs_current_step (run_of w' (uuid_of 0)) = Some ''b'' | _ \<Rightarrow> False"
    by code_simp
  then obtain out w' where r: "?step = (Inr (Some out), w')"
    and c: "rs_current_step (run_of w' (uuid_of 0)) = Some ''b''"
    by (auto split: option.splits prod.splits sum.splits)
  have "world_ok (world_with running_state)" by (simp add: world_with_ok)
  from moves_are_declared [OF r this] c r show ?thesis by auto
qed

end
