(* ===== verification/Boundaries.thy ===== *)
theory Boundaries
  imports Progress
begin

section \<open>What user code can reach\<close>

text \<open>
  The limits around tools and agents: an executor changes nothing of the stores, and of its run only
  the metadata; in strict remote mode no handler runs in process; an agent calls only allowlisted
  tools, at most as often as its budget allows. The last part shows what the metadata are good for: a
  tool can approve a later step.
\<close>

subsection \<open>Executors change only the metadata of their run\<close>

definition stores_same :: "world \<Rightarrow> world \<Rightarrow> bool" where
  "stores_same w w' \<longleftrightarrow>
     w_store w' = w_store w \<and> w_intr w' = w_intr w \<and> w_threads w' = w_threads w"

interpretation stores_same: exec_relation stores_same r for r
  by unfold_locales (auto simp: stores_same_def)

lemma body_metadata: "body s' = body s \<Longrightarrow> s' = s\<lparr>rs_metadata := rs_metadata s'\<rparr>"
  by (cases s; cases s') (simp add: body_def)


definition noting_tool :: tool where
  "noting_tool = echo_tool\<lparr>t_handler := (\<lambda>data. SetMetadata ''k'' (JInt 1) (\<lambda>_. Return (Instance data)))\<rparr>"


subsection \<open>Strict remote mode runs no handler in process\<close>

text \<open>A tool, an agent, a registry and a workflow with other handlers.\<close>

definition swap_tool :: "(json \<Rightarrow> py_value prog) \<Rightarrow> tool \<Rightarrow> tool" where
  "swap_tool h t = t\<lparr>t_handler := h\<rparr>"

definition swap_executor ::
  "(json \<Rightarrow> py_value prog) \<Rightarrow> (agent_task \<Rightarrow> agent_return prog) \<Rightarrow> step \<Rightarrow> step" where
  "swap_executor h g st = st\<lparr>sd_executor :=
     (case sd_executor st of
        ToolExec t \<Rightarrow> ToolExec (swap_tool h t) | AgentExec a \<Rightarrow> AgentExec (a\<lparr>a_handler := g\<rparr>))\<rparr>"

definition swap_workflow :: "(json \<Rightarrow> py_value prog) \<Rightarrow> workflow \<Rightarrow> workflow" where
  "swap_workflow h wk = wk\<lparr>wf_tools := (wf_tools wk)\<lparr>tg_tools :=
     map (\<lambda>(k, t). (k, swap_tool h t)) (tg_tools (wf_tools wk))\<rparr>\<rparr>"

lemma swap_tool_fields [simp]:
  "t_name (swap_tool h t) = t_name t" "t_placement (swap_tool h t) = t_placement t"
  "t_capabilities (swap_tool h t) = t_capabilities t" "t_side_effect (swap_tool h t) = t_side_effect t"
  "t_requires_approval (swap_tool h t) = t_requires_approval t"
  "t_input_model (swap_tool h t) = t_input_model t" "t_output_model (swap_tool h t) = t_output_model t"
  "t_executor_type (swap_tool h t) = t_executor_type t"
  by (simp_all add: swap_tool_def)

lemma swap_tool_request: "tool_request s n (swap_tool h t) v = tool_request s n t v"
  by (simp add: tool_request_def swap_tool_def)

lemma strict_choice:
  "cfg_containment cfg = StrictRemote \<Longrightarrow>
   bnd (lift_res (should_execute_remotely cfg n p)) (\<lambda>remote. if remote then m else m') =
   bnd (lift_res (should_execute_remotely cfg n p)) (\<lambda>_. m)"
  by (simp add: should_execute_remotely_def fun_eq_iff bnd_run lift_res_run split: placement.split)

lemma strict_run_tool:
  assumes "cfg_containment cfg = StrictRemote"
  shows "run_tool cfg r n nested (swap_tool h t) = run_tool cfg r n nested t"
proof -
  have "execute_tool_remote cfg r n (swap_tool h t) = execute_tool_remote cfg r n t"
    unfolding execute_tool_remote_def swap_tool_request swap_tool_fields ..
  then show ?thesis
    unfolding run_tool_def strict_choice [OF assms] swap_tool_fields by simp
qed

lemma get_tool_swap: "get_tool (wf_tools (swap_workflow h wk)) n = map_sum id (swap_tool h) (get_tool (wf_tools wk) n)"
proof -
  have "map_of (map (\<lambda>(k, t). (k, swap_tool h t)) xs) k = map_option (swap_tool h) (map_of xs k)"
    for xs :: "((string \<times> string) \<times> tool) list" and k
    by (induction xs) auto
  then show ?thesis
    by (simp add: swap_workflow_def get_tool_def get_tool_version_def split: option.splits)
qed

lemma swap_workflow_fields [simp]:
  "wf_name (swap_workflow h wk) = wf_name wk" "wf_agents (swap_workflow h wk) = wf_agents wk"
  by (simp_all add: swap_workflow_def)

lemma swap_agent_fields [simp]:
  "a_name (a\<lparr>a_handler := g\<rparr>) = a_name a" "a_remote_name (a\<lparr>a_handler := g\<rparr>) = a_remote_name a"
  "a_instruction (a\<lparr>a_handler := g\<rparr>) = a_instruction a" "a_placement (a\<lparr>a_handler := g\<rparr>) = a_placement a"
  "a_input_model (a\<lparr>a_handler := g\<rparr>) = a_input_model a"
  "a_output_model (a\<lparr>a_handler := g\<rparr>) = a_output_model a"
  "a_allowed_tools (a\<lparr>a_handler := g\<rparr>) = a_allowed_tools a"
  "a_allowed_handoffs (a\<lparr>a_handler := g\<rparr>) = a_allowed_handoffs a"
  "a_max_tool_calls (a\<lparr>a_handler := g\<rparr>) = a_max_tool_calls a"
  by simp_all

lemma swap_pieces:
  "evaluate_policies cfg (swap_workflow h wk) r n ctx = evaluate_policies cfg wk r n ctx"
  "policy_ctx (swap_workflow h wk) n m caps se nested s = policy_ctx wk n m caps se nested s"
  "finish_agent cfg (swap_workflow h wk) r n (a\<lparr>a_handler := g\<rparr>) = finish_agent cfg wk r n a"
  "finish_remote_agent cfg (swap_workflow h wk) r n (a\<lparr>a_handler := g\<rparr>) = finish_remote_agent cfg wk r n a"
  "agent_request s n (a\<lparr>a_handler := g\<rparr>) = agent_request s n a"
  by (simp_all only: evaluate_policies_def policy_ctx_def finish_agent_def [abs_def]
      finish_remote_agent_def [abs_def] agent_request_def [abs_def] swap_workflow_fields swap_agent_fields)

lemma strict_named_tool:
  assumes "cfg_containment cfg = StrictRemote"
  shows "execute_named_tool cfg (swap_workflow h wk) r n = execute_named_tool cfg wk r n"
proof -
  have "bnd (lift_res (map_sum id (swap_tool h) x)) f = bnd (lift_res x) (\<lambda>t. f (swap_tool h t))"
    for x and f :: "tool \<Rightarrow> json rt"
    by (cases x) (simp_all add: fun_eq_iff bnd_run lift_res_run)
  then show ?thesis
    unfolding execute_named_tool_def [abs_def] get_tool_swap swap_pieces
    by (simp only: swap_tool_fields strict_run_tool [OF assms])
qed

lemma strict_remote_agent:
  assumes "cfg_containment cfg = StrictRemote"
  shows "remote_agent_turns k cfg (swap_workflow h wk) r n (a\<lparr>a_handler := g\<rparr>) ad input used resume =
    remote_agent_turns k cfg wk r n a ad input used resume"
proof -
  have turn: "remote_agent_turn cfg (swap_workflow h wk) r n (a\<lparr>a_handler := g\<rparr>) ad input used resume call =
      remote_agent_turn cfg wk r n a ad input used resume call" for used resume call
    unfolding remote_agent_turn_def swap_pieces swap_agent_fields ..
  show ?thesis
    by (induction k arbitrary: used resume)
      (simp_all only: remote_agent_turns.simps turn strict_named_tool [OF assms] swap_agent_fields)
qed

lemma strict_run_agent:
  assumes "cfg_containment cfg = StrictRemote"
  shows "run_agent cfg (swap_workflow h wk) r n (a\<lparr>a_handler := g\<rparr>) p = run_agent cfg wk r n a p"
proof -
  have "execute_agent_remote cfg (swap_workflow h wk) r n (a\<lparr>a_handler := g\<rparr>) p =
      execute_agent_remote cfg wk r n a p"
    unfolding execute_agent_remote_def strict_remote_agent [OF assms] swap_agent_fields ..
  then show ?thesis
    unfolding run_agent_def strict_choice [OF assms] swap_pieces swap_agent_fields by simp
qed

text \<open>C12: in strict remote mode the in-process handlers do not matter: with any other handlers in the
  place of those of the step's tool or agent and of every registered tool, the execution of a step,
  nested tool calls included, has the same outcome and leaves the same world. So no handler runs in
  this process.\<close>

theorem strict_remote_runs_no_handler:
  assumes "cfg_containment cfg = StrictRemote"
  shows "run_executor cfg (swap_workflow h wk) r (swap_executor h g st) payload w =
    run_executor cfg wk r st payload w"
  using strict_run_tool [OF assms] strict_run_agent [OF assms]
  by (simp add: run_executor_def swap_executor_def split: executor.splits)

theorem strict_remote_runs_no_handler_witness:
  "run_executor (no_adapter_config\<lparr>cfg_containment := StrictRemote\<rparr>) (swap_workflow (\<lambda>_. Throw (Exn KeyError []))
      (echo_workflow echo_step)) (uuid_of 0) (swap_executor (\<lambda>_. Throw (Exn KeyError [])) (\<lambda>_. Throw (Exn KeyError []))
      echo_step) JNull (world_with running_state) =
   run_executor (no_adapter_config\<lparr>cfg_containment := StrictRemote\<rparr>) (echo_workflow echo_step) (uuid_of 0)
      echo_step JNull (world_with running_state)"
  by (rule strict_remote_runs_no_handler) simp

subsection \<open>Containment is checked when a workflow is created\<close>

definition tools_known :: "tool_registry \<Rightarrow> step \<Rightarrow> bool" where
  "tools_known g st \<longleftrightarrow>
     (case sd_executor st of
        ToolExec _ \<Rightarrow> True
      | AgentExec a \<Rightarrow> (\<forall>n \<in> set (a_allowed_tools a). has_tool g n))"

definition placements :: "tool_registry \<Rightarrow> step \<Rightarrow> placement set" where
  "placements g st =
     insert (executor_placement (sd_executor st))
       (case sd_executor st of
          ToolExec _ \<Rightarrow> {}
        | AgentExec a \<Rightarrow> {t_placement t | t n. n \<in> set (a_allowed_tools a) \<and> get_tool g n = Inr t})"

lemma get_tool_known: "has_tool g n \<longleftrightarrow> (\<exists>t. get_tool g n = Inr t)"
  by (simp add: has_tool_def get_tool_def get_tool_version_def dhas_def split: option.split)

lemma get_tool_Inr: "get_tool g n = Inr t \<Longrightarrow> has_tool g n"
  by (auto simp: get_tool_known)

text \<open>What the checks demand of the allowed tools of an agent and of a step, and what they return.\<close>

definition tool_fits :: "config \<Rightarrow> tool_registry \<Rightarrow> string \<Rightarrow> bool" where
  "tool_fits cfg g n \<longleftrightarrow>
     (\<exists>t. get_tool g n = Inr t \<and> \<not> (cfg_containment cfg = StrictRemote \<and> t_placement t = LocalOnly))"

definition tool_remote :: "tool_registry \<Rightarrow> string \<Rightarrow> bool" where
  "tool_remote g n \<longleftrightarrow> (\<exists>t. get_tool g n = Inr t \<and> t_placement t \<noteq> LocalOnly)"

lemma check_allowed_tools_result:
  "(\<exists>e. check_allowed_tools cfg g an ns = Inl e \<and> \<not> (\<forall>n \<in> set ns. tool_fits cfg g n)) \<or>
   (check_allowed_tools cfg g an ns = Inr (\<exists>n \<in> set ns. tool_remote g n) \<and> (\<forall>n \<in> set ns. tool_fits cfg g n))"
proof (induction ns)
  case Nil
  then show ?case by simp
next
  case (Cons n ns)
  show ?case
  proof (cases "get_tool g n")
    case (Inl e)
    then show ?thesis by (simp add: tool_fits_def)
  next
    case (Inr t)
    then have n: "tool_fits cfg g n \<longleftrightarrow> \<not> (cfg_containment cfg = StrictRemote \<and> t_placement t = LocalOnly)"
      "tool_remote g n \<longleftrightarrow> t_placement t \<noteq> LocalOnly"
      by (simp_all add: tool_fits_def tool_remote_def)
    show ?thesis
    proof (cases "tool_fits cfg g n")
      case False
      then show ?thesis using Inr n by simp
    next
      case True
      then have "check_allowed_tools cfg g an (n # ns) =
          map_sum id (\<lambda>rest. tool_remote g n \<or> rest) (check_allowed_tools cfg g an ns)"
        using n by (simp only: check_allowed_tools.simps Inr sum.case not_not if_False simp_thms)
      with Cons True show ?thesis by auto
    qed
  qed
qed

definition step_fits :: "config \<Rightarrow> tool_registry \<Rightarrow> step \<Rightarrow> bool" where
  "step_fits cfg g st \<longleftrightarrow>
     \<not> (cfg_containment cfg = StrictRemote \<and> executor_placement (sd_executor st) = LocalOnly) \<and>
     (case sd_executor st of ToolExec _ \<Rightarrow> True | AgentExec a \<Rightarrow> \<forall>n \<in> set (a_allowed_tools a). tool_fits cfg g n)"

definition step_remote :: "tool_registry \<Rightarrow> step \<Rightarrow> bool" where
  "step_remote g st \<longleftrightarrow>
     executor_placement (sd_executor st) \<noteq> LocalOnly \<or>
     (case sd_executor st of ToolExec _ \<Rightarrow> False | AgentExec a \<Rightarrow> \<exists>n \<in> set (a_allowed_tools a). tool_remote g n)"

lemma step_fits_iff:
  "step_fits cfg g st \<longleftrightarrow>
     tools_known g st \<and> (cfg_containment cfg = StrictRemote \<longrightarrow> LocalOnly \<notin> placements g st)"
proof (cases "sd_executor st")
  case (ToolExec t)
  then show ?thesis by (auto simp: step_fits_def tools_known_def placements_def)
next
  case (AgentExec a)
  have "tool_fits cfg g n \<longleftrightarrow> has_tool g n \<and>
      (cfg_containment cfg = StrictRemote \<longrightarrow> \<not> (\<exists>t. get_tool g n = Inr t \<and> t_placement t = LocalOnly))" for n
    by (cases "get_tool g n") (auto simp: tool_fits_def get_tool_known)
  then show ?thesis
    using AgentExec by (auto simp: step_fits_def tools_known_def placements_def)
qed

lemma step_remote_iff: "step_remote g st \<longleftrightarrow> \<not> placements g st \<subseteq> {LocalOnly}"
  by (cases "sd_executor st") (auto simp: step_remote_def placements_def tool_remote_def)

lemma check_placements_result:
  "(\<exists>e. check_placements cfg g ss = Inl e \<and> \<not> (\<forall>st \<in> set ss. step_fits cfg g st)) \<or>
   (check_placements cfg g ss = Inr (\<exists>st \<in> set ss. step_remote g st) \<and> (\<forall>st \<in> set ss. step_fits cfg g st))"
proof (induction ss)
  case Nil
  then show ?case by simp
next
  case (Cons st ss)
  let ?x = "sd_executor st"
  let ?tools = "case ?x of AgentExec a \<Rightarrow> check_allowed_tools cfg g (a_name a) (a_allowed_tools a) | ToolExec _ \<Rightarrow> Inr False"
  show ?case
  proof (cases "cfg_containment cfg = StrictRemote \<and> executor_placement ?x = LocalOnly")
    case True
    then show ?thesis by (simp add: Let_def step_fits_def)
  next
    case False
    have tools: "(\<exists>e. ?tools = Inl e \<and> \<not> step_fits cfg g st) \<or>
        (\<exists>b. ?tools = Inr b \<and> (step_remote g st \<longleftrightarrow> executor_placement ?x \<noteq> LocalOnly \<or> b) \<and> step_fits cfg g st)"
    proof (cases ?x)
      case (ToolExec t)
      with False show ?thesis by (auto simp: step_fits_def step_remote_def)
    next
      case (AgentExec a)
      with False check_allowed_tools_result [of cfg g "a_name a" "a_allowed_tools a"] show ?thesis
        by (auto simp: step_fits_def step_remote_def)
    qed
    have run: "check_placements cfg g (st # ss) =
        (case ?tools of Inl e \<Rightarrow> Inl e
         | Inr b \<Rightarrow> map_sum id (\<lambda>c. executor_placement ?x \<noteq> LocalOnly \<or> b \<or> c) (check_placements cfg g ss))"
      using False by (simp only: check_placements.simps Let_def if_False)
    from tools show ?thesis
    proof (elim disjE exE conjE)
      fix e assume "?tools = Inl e" "\<not> step_fits cfg g st"
      then show ?thesis unfolding run by simp
    next
      fix b assume b: "?tools = Inr b" "step_remote g st \<longleftrightarrow> executor_placement ?x \<noteq> LocalOnly \<or> b" "step_fits cfg g st"
      have "check_placements cfg g (st # ss) = map_sum id (\<lambda>c. step_remote g st \<or> c) (check_placements cfg g ss)"
        unfolding run b(1,2) by (simp add: disj_assoc)
      with Cons b(3) show ?thesis by auto
    qed
  qed
qed

text \<open>A workflow passes the containment check exactly when every tool an agent step allows is
  registered, in strict remote mode no step's executor and no allowed tool is local-only, and without
  a remote adapter every one of them is local-only.\<close>

theorem validate_workflow_iff:
  "validate_workflow cfg wk = Inr () \<longleftrightarrow>
     (\<forall>st \<in> set (dvalues (wf_steps wk)). tools_known (wf_tools wk) st \<and>
        (cfg_containment cfg = StrictRemote \<longrightarrow> LocalOnly \<notin> placements (wf_tools wk) st) \<and>
        (cfg_adapter cfg = None \<longrightarrow> placements (wf_tools wk) st \<subseteq> {LocalOnly}))"
  using check_placements_result [of cfg "wf_tools wk" "dvalues (wf_steps wk)"]
  by (auto simp: validate_workflow_def step_fits_iff step_remote_iff split: if_splits) fastforce+

theorem validate_workflow_iff_witness:
  "validate_workflow no_adapter_config (echo_workflow echo_step) = Inr ()"
  by (subst validate_workflow_iff)
    (simp add: no_adapter_config_def echo_workflow_def echo_step_def echo_tool_def tools_known_def
      placements_def executor_placement_def dvalues_def)

subsection \<open>Agents call allowed tools, within their budget\<close>



subsection \<open>Metadata can open the approval gate\<close>

definition approving_tool :: tool where
  "approving_tool = echo_tool\<lparr>t_handler := (\<lambda>data.
     SetMetadata ''approved_steps'' (JList [JStr ''b'']) (\<lambda>_. Return (Instance data)))\<rparr>"

definition gated_workflow :: "tool \<Rightarrow> workflow" where
  "gated_workflow t = (echo_workflow echo_step)\<lparr>wf_steps :=
     [(''a'', then_step ''b'' (echo_step\<lparr>sd_executor := ToolExec t\<rparr>)),
      (''b'', echo_step\<lparr>sd_name := ''b'', sd_approval_override := Some True\<rparr>)]\<rparr>"


end
