(* ===== verification/Isolation.thy ===== *)
theory Isolation
  imports Progress
begin

section \<open>Runs do not interfere\<close>

text \<open>
  What an entry point does to the runs it is not about: nothing. \<open>unchanged q\<close> says that the run \<open>q\<close> is
  as it was, in the cache, in the run store and in the interrupt store. It is kept by every operation on
  another run (\<open>apart\<close>, an instance of \<open>loop_relation\<close>), hence by the entry points; and a finished run
  is kept by resuming it too.
\<close>

definition unchanged :: "string \<Rightarrow> world \<Rightarrow> world \<Rightarrow> bool" where
  "unchanged q w w' \<longleftrightarrow>
     dget (w_runs w') q = dget (w_runs w) q \<and> get (w_store w') q = get (w_store w) q \<and>
     mem_get_request (w_intr w') q = mem_get_request (w_intr w) q \<and>
     mem_get_epoch (w_intr w') q = mem_get_epoch (w_intr w) q"

interpretation unchanged: step_relation "unchanged q" for q
  by unfold_locales (auto simp: unchanged_def)

text \<open>The run \<open>r\<close> is filed under its own id, in the cache and in the store.\<close>

definition filed :: "string \<Rightarrow> world \<Rightarrow> bool" where
  "filed r w \<longleftrightarrow>
     (\<forall>s. dget (w_runs w) r = Some s \<longrightarrow> rs_run_id s = r) \<and>
     (\<forall>s. get (w_store w) r = Some s \<longrightarrow> rs_run_id s = r) \<and> mem_interrupts_inv (w_intr w)"

definition apart :: "string \<Rightarrow> string \<Rightarrow> world \<Rightarrow> world \<Rightarrow> bool" where
  "apart q r w w' \<longleftrightarrow> (q \<noteq> r \<and> filed r w \<longrightarrow> filed r w' \<and> unchanged q w w')"

lemma apartI: "(q \<noteq> r \<Longrightarrow> filed r w \<Longrightarrow> filed r w' \<and> unchanged q w w') \<Longrightarrow> apart q r w w'"
  by (simp add: apart_def)

lemma apart_frame:
  "\<lbrakk>w_runs w' = w_runs w; get (w_store w') = get (w_store w); w_intr w' = w_intr w\<rbrakk> \<Longrightarrow> apart q r w w'"
  by (simp add: apart_def filed_def unchanged_def)

lemma apart_set_run: "rs_run_id s = r \<Longrightarrow> apart q r w (set_run r s w)"
  by (auto simp: apart_def filed_def unchanged_def)

lemma apart_intr:
  assumes "q \<noteq> r \<Longrightarrow> mem_interrupts_inv (w_intr w) \<Longrightarrow>
    mem_interrupts_inv i \<and> mem_get_request i q = mem_get_request (w_intr w) q \<and>
    mem_get_epoch i q = mem_get_epoch (w_intr w) q"
  shows "apart q r w (put_intr i w)"
  using assms by (auto simp: apart_def filed_def unchanged_def)

lemma create_apart:
  assumes "mem_interrupts_inv s" "q \<noteq> r"
  shows "mem_get_request (snd (create_interrupt mem_interrupt_ops d now u r st msg c ttl ep mx s)) q =
      mem_get_request s q"
    and "mem_get_epoch (snd (create_interrupt mem_interrupt_ops d now u r st msg c ttl ep mx s)) q =
      mem_get_epoch s q"
proof -
  have l: "mem_get_request (snd (list_pending mem_interrupt_ops now r ep s)) q i = mem_get_request s q i" for i
    using memi.list_pending_get [OF assms(1), of now r ep q i] assms(2) by simp
  have e: "mem_get_epoch (snd (list_pending mem_interrupt_ops now r ep s)) = mem_get_epoch s"
    using memi.list_pending_epoch [of now r ep s] by simp
  from l show "mem_get_request (snd (create_interrupt mem_interrupt_ops d now u r st msg c ttl ep mx s)) q =
      mem_get_request s q"
    using assms(2)
    by (auto simp: fun_eq_iff create_interrupt_def py_simps Let_def split_beta mem_get_save split: option.splits)
  from e show "mem_get_epoch (snd (create_interrupt mem_interrupt_ops d now u r st msg c ttl ep mx s)) q =
      mem_get_epoch s q"
    by (auto simp: create_interrupt_def py_simps Let_def split_beta split: option.splits)
qed

lemma resolve_apart:
  assumes "mem_interrupts_inv s" "q \<noteq> r"
  shows "mem_get_request (snd (resolve_interrupt mem_interrupt_ops now r i x ep s)) q = mem_get_request s q"
    and "mem_get_epoch (snd (resolve_interrupt mem_interrupt_ops now r i x ep s)) q = mem_get_epoch s q"
proof -
  have key: "ir_run_id qr = r" if "mem_get_request s r i = Some qr" for qr
    using mem_get_key [OF assms(1) that] by simp
  show "mem_get_request (snd (resolve_interrupt mem_interrupt_ops now r i x ep s)) q = mem_get_request s q"
    using assms(2) key
    by (auto simp: fun_eq_iff resolve_interrupt_def py_simps Let_def mem_get_save split: option.splits)
  show "mem_get_epoch (snd (resolve_interrupt mem_interrupt_ops now r i x ep s)) q = mem_get_epoch s q"
    by (auto simp: resolve_interrupt_def py_simps Let_def split: option.splits)
qed

lemma bump_apart:
  assumes "q \<noteq> r"
  shows "mem_get_request (snd (bump_epoch mem_interrupt_ops r s)) q = mem_get_request s q"
    and "mem_get_epoch (snd (bump_epoch mem_interrupt_ops r s)) q = mem_get_epoch s q"
  using assms by (simp_all add: bump_epoch_def Let_def)

lemma write_apart: "apart q r w (snd (write_state r w))"
proof (rule apartI)
  assume ne: "q \<noteq> r" and f: "filed r w"
  show "filed r (snd (write_state r w)) \<and> unchanged q w (snd (write_state r w))"
  proof (cases "dget (w_runs w) r")
    case None
    with f show ?thesis by (simp add: write_state_run unchanged_def)
  next
    case (Some s0)
    with f have r: "rs_run_id s0 = r" by (simp add: filed_def)
    show ?thesis
    proof (cases "put (uuid_of (w_fresh w)) (cleared s0) (w_store w)")
      case (Inl e)
      with Some f ne r show ?thesis by (auto simp: write_state_run filed_def unchanged_def)
    next
      case (Inr p)
      obtain s st where p: "p = (s, st)" by (cases p)
      note put = Inr [unfolded p]
      from put_get [OF put] r have g: "get st = (get (w_store w))(r \<mapsto> s)" by simp
      from put have "rs_run_id s = r" by (rule put_InrE) (simp add: r)
      with Some Inr p g ne f show ?thesis by (auto simp: write_state_run filed_def unchanged_def)
    qed
  qed
qed

interpretation apart: loop_relation "apart q r" r for q r
proof (unfold_locales, goal_cases)
  case (2 u v w)
  then show ?case unfolding apart_def using unchanged.R_trans by blast
next
  case (5 w s)
  then show ?case by (auto simp: apart_def filed_def unchanged_def)
next
  case (6 w s md)
  then show ?case by (auto simp: apart_def filed_def unchanged_def)
next
  case (11 w s s')
  then show ?case by (auto simp: apart_def filed_def unchanged_def same_identity_def)
next
  case 12
  show ?case by (simp add: pres_def write_apart)
next
  case (15 d now u st msg c ttl ep mx)
  show ?case
    by (auto simp: pres_def zoom_def split_beta memi.create_inv create_apart intro!: apart_intr)
next
  case (16 now i x ep)
  show ?case
    by (auto simp: pres_def zoom_def split_beta resolve_interrupt_inv resolve_apart intro!: apart_intr)
next
  case (17 qr w)
  then show ?case by (auto simp: mem_save_inv mem_get_save fun_eq_iff intro!: apart_intr)
next
  case (18 w)
  show ?case by (rule apart_intr) (simp add: bump_apart memi.bump_epoch_inv)
qed (auto intro!: apart_frame simp: fun_eq_iff)

subsection \<open>Entry points\<close>

lemma filed_ok: "world_ok w \<Longrightarrow> filed r w"
  by (auto simp: world_ok_def filed_def cached_ok_def stored_ok_def stores_ok_def)

lemma apart_step:
  "\<lbrakk>pres (apart q r) m; m w = (res, w'); q \<noteq> r; world_ok w\<rbrakk> \<Longrightarrow> unchanged q w w'"
  using presD [of "apart q r" m w res w'] filed_ok [of w r] by (simp add: apart_def)

lemma open_run_apart:
  "open_run cfg wk th w = (res, w') \<Longrightarrow> drawn w q \<Longrightarrow>
   unchanged q w w' \<and> (\<forall>r entry. res = Inr (r, entry) \<longrightarrow> q \<noteq> r)"
  by (auto simp: open_run_run Let_def unchanged_def drawn_def bump_apart split: sum.splits)

lemma open_restored_apart:
  "open_restored c w = (res, w') \<Longrightarrow> drawn w q \<Longrightarrow>
   unchanged q w w' \<and> (\<forall>r. res = Inr r \<longrightarrow> q \<noteq> r)"
  by (auto simp: open_restored_run Let_def unchanged_def drawn_def bump_apart split: option.splits)

lemma start_run_apart:
  assumes x: "start_run cfg wk data th w = (res, w')" and ok: "world_ok w" and q: "drawn w q"
  shows "unchanged q w w' \<and> (\<forall>r v. res = Inr (r, v) \<longrightarrow> q \<noteq> r)"
proof -
  obtain y w1 where o: "open_run cfg wk th w = (y, w1)" by (rule prod.exhaust)
  note a = open_run_apart [OF o q] and ok1 = world_ok_step [OF ev.R_open ok o]
  show ?thesis
  proof (cases y)
    case (Inl e)
    with x o a show ?thesis by (auto simp: start_run_def py_simps)
  next
    case (Inr z)
    obtain r entry where z: "z = (r, entry)" by (cases z)
    with x o Inr have b: "begin_run cfg wk data r entry w1 = (res, w')"
      by (simp add: start_run_def py_simps)
    have ne: "q \<noteq> r" using a Inr z by simp
    have "unchanged q w1 w'" by (rule apart_step [OF apart.pres_begin_run b ne ok1])
    moreover have "res = Inr (r', v) \<Longrightarrow> r' = r" for r' v
      using b by (auto simp: begin_run_def py_simps split: sum.splits prod.splits)
    ultimately show ?thesis using a ne unchanged.R_trans by blast
  qed
qed

lemma restore_apart:
  assumes x: "restore_checkpoint cfg c payload w = (res, w')" and ok: "world_ok w" and q: "drawn w q"
  shows "unchanged q w w' \<and> (\<forall>r v. res = Inr (r, v) \<longrightarrow> q \<noteq> r)"
proof -
  obtain y w1 where o: "open_restored c w = (y, w1)" by (rule prod.exhaust)
  note a = open_restored_apart [OF o q] and ok1 = world_ok_step [OF ev.R_restore ok o]
  show ?thesis
  proof (cases y)
    case (Inl e)
    with x o a show ?thesis by (auto simp: restore_checkpoint_def py_simps)
  next
    case (Inr r)
    with x o have b: "begin_restored cfg c payload r w1 = (res, w')"
      by (simp add: restore_checkpoint_def py_simps)
    have ne: "q \<noteq> r" using a Inr by simp
    have "unchanged q w1 w'" by (rule apart_step [OF apart.pres_begin_restored b ne ok1])
    moreover have "res = Inr (r', v) \<Longrightarrow> r' = r" for r' v
      using b by (auto simp: begin_restored_def py_simps split: sum.splits prod.splits if_splits)
    ultimately show ?thesis using a ne unchanged.R_trans by blast
  qed
qed

lemma prepare_resume_run: "prepare_resume cfg wk r p w = (Inr (r', v), w') \<Longrightarrow> r' = r"
  by (auto simp: prepare_resume_def resume_approval_def resume_interrupt_def grant_run_def reject_run_def
      resume_transition_def Let_def
      elim!: bnd_InrE sq_InrE split: if_splits option.splits resume_payload.splits simp: ret_run raise_run)

lemma prepare_apart:
  assumes x: "prepare cfg wk e w = (res, w')" and ok: "world_ok w" and q: "drawn w q"
    and e: "\<forall>p. e \<noteq> ResumeWorkflow q p"
  shows "unchanged q w w' \<and> (\<forall>r v. res = Inr (r, v) \<longrightarrow> q \<noteq> r)"
proof (cases e)
  case (RunWorkflow data th)
  with x start_run_apart [OF _ ok q] show ?thesis by auto
next
  case (ResumeWorkflow r p)
  with e have ne: "q \<noteq> r" by auto
  from x ResumeWorkflow have y: "prepare_resume cfg wk r p w = (res, w')" by simp
  from apart_step [OF apart.pres_prepare_resume y ne ok] prepare_resume_run [of cfg wk r p w] y ne
  show ?thesis by auto
next
  case (ResumeFromCheckpoint c payload)
  with x restore_apart [OF _ ok q] show ?thesis by auto
qed

lemma enter_apart:
  assumes x: "enter cfg wk e w = Some (res, w')" and ok: "world_ok w" and q: "drawn w q"
    and e: "\<forall>p. e \<noteq> ResumeWorkflow q p"
  shows "unchanged q w w'"
proof -
  obtain y w1 where p: "prepare cfg wk e w = (y, w1)" by (rule prod.exhaust)
  note a = prepare_apart [OF p ok q e] and ok1 = world_ok_step [OF pres_prepare ok p]
  show ?thesis
  proof (cases "\<exists>r v. y = Inr (r, Some v)")
    case True
    then obtain r v where y: "y = Inr (r, Some v)" by blast
    with x p have "advance cfg wk r v w1 = Some (res, w')" by (simp add: enter_prepare then_advance_def)
    then have "apart q r w1 w'" by (rule apart.advance_keeps)
    with a y filed_ok [OF ok1] have "unchanged q w1 w'" by (simp add: apart_def)
    with a show ?thesis using unchanged.R_trans by blast
  next
    case False
    with x p a show ?thesis
      by (auto simp: enter_prepare then_advance_def split: sum.splits prod.splits option.splits)
  qed
qed

text \<open>C19: runs do not interfere: whatever the workflow, policies and user code do, an entry point leaves
  every run that exists already and that it does not resume exactly as it was: its cached state, its
  stored state, its interrupt requests and their epoch.\<close>

theorem runs_do_not_interfere:
  assumes "enter cfg wk e w = Some (res, w')" and "world_ok w" and "drawn w q"
    and "\<forall>p. e \<noteq> ResumeWorkflow q p"
  shows "dget (w_runs w') q = dget (w_runs w) q \<and> get (w_store w') q = get (w_store w) q \<and>
    mem_get_request (w_intr w') q = mem_get_request (w_intr w) q \<and>
    mem_get_epoch (w_intr w') q = mem_get_epoch (w_intr w) q"
  using enter_apart [OF assms] by (simp add: unchanged_def)

theorem runs_do_not_interfere_witness:
  "\<exists>res w'. enter no_adapter_config (echo_workflow echo_step) (RunWorkflow (Plain JNull) None)
       (world_with running_state) = Some (res, w') \<and> dget (w_runs w') (uuid_of 0) = Some running_state"
proof -
  let ?wk = "echo_workflow echo_step" and ?e = "RunWorkflow (Plain JNull) None"
  have ok: "world_ok (world_with running_state)" by (simp add: world_with_ok)
  have "acyclic_workflow (\<lambda>_. 0) ?wk"
    by (auto simp: acyclic_workflow_def wf_edge_def echo_workflow_def echo_step_def declared_targets_def
        split: if_splits)
  from enter_ends [OF this ok] obtain res w' where
    x: "enter no_adapter_config ?wk ?e (world_with running_state) = Some (res, w')" by blast
  have "drawn (world_with running_state) (uuid_of 0)" by (simp add: drawn_def world_with_def)
  from runs_do_not_interfere [OF x ok this] x show ?thesis by simp
qed

end
