(* ===== verification/Histories.thy ===== *)
theory Histories
  imports Isolation
begin

section \<open>Histories of a runtime\<close>

text \<open>
  What an application can do with one runtime, in any order: enter a run (start, resume, restore), look
  runs and interrupts up or archive a thread (\<open>ask\<close>), manage thread records, let time pass. \<open>rt_step\<close>
  is one such step, a history is a sequence of them. \<open>lookup_relation\<close> and \<open>query_relation\<close> list what a relation must
  satisfy for the queries, which purge stale index entries and mark overdue interrupts expired.
\<close>

subsection \<open>Queries\<close>

datatype query =
    GetRunState string
  | LoadRunState string
  | GetLatestRunState string
  | ListThreadRuns string
  | ListPendingInterrupts string
  | GetPendingInterrupt string string
  | GetLatestPendingInterrupt string
  | ListThreadPendingInterrupts string
  | ArchiveThread string "string option" string

fun ask :: "config \<Rightarrow> query \<Rightarrow> unit rt" where
  "ask cfg (GetRunState r) = bnd (get_run_state r) (\<lambda>_. ret ())"
| "ask cfg (LoadRunState r) = bnd (aget_run_state r) (\<lambda>_. ret ())"
| "ask cfg (GetLatestRunState t) = bnd (get_latest_run_state t) (\<lambda>_. ret ())"
| "ask cfg (ListThreadRuns t) = bnd (list_thread_runs t) (\<lambda>_. ret ())"
| "ask cfg (ListPendingInterrupts r) = bnd (list_pending_interrupts r) (\<lambda>_. ret ())"
| "ask cfg (GetPendingInterrupt r i) = bnd (get_pending_interrupt r i) (\<lambda>_. ret ())"
| "ask cfg (GetLatestPendingInterrupt r) = bnd (get_latest_pending_interrupt r) (\<lambda>_. ret ())"
| "ask cfg (ListThreadPendingInterrupts t) = bnd (list_thread_pending_interrupts t) (\<lambda>_. ret ())"
| "ask cfg (ArchiveThread t r wn) = bnd (archive_thread cfg t r wn) (\<lambda>_. ret ())"

text \<open>The lookups need less of a relation than archiving, which changes a thread record and is recorded.\<close>

locale lookup_relation = step_relation R for R :: "world \<Rightarrow> world \<Rightarrow> bool" +
  assumes Q_load: "\<lbrakk>dget (w_runs w) r = None; get (w_store w) r = Some s\<rbrakk> \<Longrightarrow> R w (set_run r s w)"
    and Q_active: "R w (put_store (snd (get_active_run_id t (w_store w))) w)"
    and Q_runs: "R w (put_store (snd (list_run_ids t (w_store w))) w)"
    and Q_list: "R w (put_intr (snd (list_pending mem_interrupt_ops now r None (w_intr w))) w)"
    and Q_pending: "R w (put_intr (snd (get_pending mem_interrupt_ops now r i (w_intr w))) w)"
begin

lemma ask_pres_load [pres_intros]: "pres R (load_state r)"
proof -
  have "pres R (known_run r)" by (simp add: pres_def known_run_def Q_load R_refl split: option.splits)
  then show ?thesis unfolding load_state_def by (intro pres_intros)
qed

lemma ask_pres_run [pres_intros]: "pres R (aget_run_state r)"
  unfolding aget_run_state_def state_of_def by (intro pres_intros)

lemma ask_pres_active [pres_intros]: "pres R (on_store (get_active_run_id t))"
  by (simp add: pres_def on_store_def zoom_def split_beta Q_active)

lemma ask_pres_runs [pres_intros]: "pres R (on_store (list_run_ids t))"
  by (simp add: pres_def on_store_def zoom_def split_beta Q_runs)

lemma ask_pres_latest [pres_intros]: "pres R (on_store (get_latest_run_id t))"
  by (simp add: pres_def on_store_def zoom_def split_beta get_latest_run_id_def Q_runs)

lemma ask_pres_target [pres_intros]: "pres R (thread_target_run_id t)"
  unfolding thread_target_run_id_def by (intro pres_intros)

lemma ask_pres_latest_state [pres_intros]: "pres R (get_latest_run_state t)"
  unfolding get_latest_run_state_def by (intro pres_intros)

lemma ask_pres_load_all [pres_intros]: "pres R (load_all rs)"
  by (induction rs) (auto intro!: pres_intros)

lemma ask_pres_interrupts:
  assumes "\<And>now w. R w (put_intr (snd (f now (w_intr w))) w)"
  shows "pres R (on_interrupts f)"
  unfolding on_interrupts_def now_of_def
  by (intro pres_intros) (simp add: pres_def zoom_def split_beta assms)

lemma ask_pres_list [pres_intros]: "pres R (list_pending_interrupts r)"
  unfolding list_pending_interrupts_def by (rule ask_pres_interrupts) (rule Q_list)

lemma ask_pres_pending_of_all [pres_intros]: "pres R (pending_of_all rs)"
  by (induction rs) (auto intro!: pres_intros)

lemma pres_lookup: "(\<And>t r wn. q \<noteq> ArchiveThread t r wn) \<Longrightarrow> pres R (ask cfg q)"
proof (cases q)
  case (GetPendingInterrupt r i)
  show ?thesis unfolding GetPendingInterrupt ask.simps get_pending_interrupt_def
    by (intro pres_intros ask_pres_interrupts Q_pending)
next
  case (GetLatestPendingInterrupt r)
  have "R w (put_intr (snd (get_latest_pending mem_interrupt_ops now r None (w_intr w))) w)" for now w
    using Q_list [of w now r] by (simp add: get_latest_pending_def Let_def split_beta)
  then show ?thesis unfolding GetLatestPendingInterrupt ask.simps get_latest_pending_interrupt_def
    by (intro pres_intros ask_pres_interrupts)
qed (auto simp: get_run_state_def list_thread_runs_def list_thread_pending_interrupts_def intro!: pres_intros)

end

locale query_relation = lookup_relation R for R :: "world \<Rightarrow> world \<Rightarrow> bool" +
  assumes Q_fresh: "R w (w\<lparr>w_fresh := Suc (w_fresh w)\<rparr>)"
    and Q_event: "R w (w\<lparr>w_audit := w_audit w @ [e]\<rparr>)"
    and Q_threads: "R w (put_threads (snd (thread_apply x (w_threads w))) w)"
begin

lemma ask_pres_event [pres_intros]: "pres R (emit_event cfg r th wn ev st p)"
proof -
  have "pres R (append_event e)" for e
    unfolding append_event_def by (rule pres_modify) (rule Q_event)
  moreover have "pres R fresh_uuid" by (simp add: pres_def fresh_uuid_def Q_fresh)
  ultimately show ?thesis unfolding emit_event_def emitter_def now_of_def by (intro pres_intros)
qed

lemma pres_ask: "pres R (ask cfg q)"
proof (cases "\<exists>t r wn. q = ArchiveThread t r wn")
  case True
  then obtain t r wn where q: "q = ArchiveThread t r wn" by blast
  have "pres R (zoom w_threads put_threads (thread_archive now t))" for now
    using Q_threads [of _ "OpArchive now t"] by (simp add: pres_def zoom_def split_beta)
  then show ?thesis unfolding q ask.simps archive_thread_def now_of_def
    by (intro pres_intros)
qed (auto intro: pres_lookup)

end

subsection \<open>Steps\<close>

inductive rt_step :: "config \<Rightarrow> world \<Rightarrow> world \<Rightarrow> bool" for cfg where
  rt_enter: "enter cfg wk e w = Some (res, w') \<Longrightarrow> rt_step cfg w w'"
| rt_ask: "ask cfg q w = (res, w') \<Longrightarrow> rt_step cfg w w'"
| rt_threads: "rt_step cfg w (put_threads (snd (thread_apply x (w_threads w))) w)"
| rt_wait: "rt_step cfg w (w\<lparr>w_now := w_now w + int n\<rparr>)"

text \<open>\<open>resume_latest_workflow\<close> is a query followed by a resumption.\<close>

lemma resume_latest_is_steps:
  assumes "resume_latest_workflow cfg wk t p w = Some (res, w')"
  shows "(rt_step cfg)\<^sup>*\<^sup>* w w'"
proof -
  obtain y w1 where y: "get_latest_run_state t w = (y, w1)" by (rule prod.exhaust)
  have "ask cfg (GetLatestRunState t) w = (map_sum id (\<lambda>_. ()) y, w1)"
    by (simp add: y py_simps split: sum.split)
  then have 1: "rt_step cfg w w1" by (rule rt_ask)
  show ?thesis
  proof (cases y)
    case (Inl x)
    with assms y 1 show ?thesis by (auto simp: resume_latest_workflow_def then_advance_def py_simps)
  next
    case (Inr s)
    with assms y have "enter cfg wk (ResumeWorkflow (rs_run_id s) p) w1 = Some (res, w')"
      by (simp add: resume_latest_workflow_def resume_workflow_def then_advance_def py_simps)
    then have "rt_step cfg w1 w'" by (rule rt_enter)
    with 1 show ?thesis by (meson converse_rtranclp_into_rtranclp r_into_rtranclp)
  qed
qed

subsection \<open>What every step keeps\<close>

lemma put_threads_frame [simp]:
  "w_runs (put_threads s w) = w_runs w" "w_store (put_threads s w) = w_store w"
  "w_intr (put_threads s w) = w_intr w" "w_audit (put_threads s w) = w_audit w"
  "w_fresh (put_threads s w) = w_fresh w" "w_threads (put_threads s w) = s"
  by (simp_all add: put_threads_def)

lemma lookup_frame [simp]:
  "get (snd (get_active_run_id t st)) = get st" "get (snd (list_run_ids t st)) = get st"
  "get_checkpoint (snd (get_active_run_id t st)) = get_checkpoint st"
  "get_checkpoint (snd (list_run_ids t st)) = get_checkpoint st"
  "st_thread_checkpoints (snd (get_active_run_id t st)) = st_thread_checkpoints st"
  by (auto simp: fun_eq_iff get_def get_checkpoint_def get_active_run_id_def split: option.splits)

lemma get_pending_inv:
  "mem_interrupts_inv s \<Longrightarrow> mem_interrupts_inv (snd (get_pending mem_interrupt_ops now r i s))"
  by (auto simp: get_pending_def mem_save_inv split: option.splits)

text \<open>A change of the indexes and of the interrupt store alone.\<close>

lemma evolves_frame:
  assumes "w_runs w' = w_runs w" "w_fresh w' = w_fresh w"
    and "get (w_store w') = get (w_store w)" "get_checkpoint (w_store w') = get_checkpoint (w_store w)"
    and "st_thread_checkpoints (w_store w') = st_thread_checkpoints (w_store w)"
    and "stores_ok w \<Longrightarrow> stores_ok w'"
  shows "evolves w w'"
proof (rule evolvesI)
  show "keeps stores_ok w w'" using assms(6) by (simp add: keeps_def)
  show "store_grows w w'" using assms(2-5) by (auto simp: store_grows_def ids_drawn_def store_extends_def)
  show "cache_evolves w w'" by (rule cache_evolves_frame) (simp_all add: assms)
qed

interpretation qev: query_relation evolves
proof (unfold_locales, goal_cases)
  case (1 w r s)
  then show ?case by (rule ev.R_load)
next
  case (6 w)
  show ?case by (rule ev.R_fresh)
next
  case (7 w e)
  show ?case by (rule ev.R_event)
qed (auto intro!: evolves_frame simp: stores_ok_def ev.R_refl get_active_run_id_inv list_run_ids_inv
      memi.list_pending_inv get_pending_inv)

interpretation qlog: query_relation audit_grows
  by unfold_locales (auto simp: audit_grows_def)

text \<open>Thread records move along their transition table.\<close>

definition threads_move :: "world \<Rightarrow> world \<Rightarrow> bool" where
  "threads_move w w' \<longleftrightarrow>
     (\<forall>t a. thread_status_of (w_threads w) t = Some a \<longrightarrow>
        (\<exists>b. thread_status_of (w_threads w') t = Some b \<and> thread_step\<^sup>*\<^sup>* a b))"

lemma threads_move_same: "w_threads w' = w_threads w \<Longrightarrow> threads_move w w'"
  by (auto simp: threads_move_def)

lemma threads_move_apply: "threads_move w (put_threads (snd (thread_apply x (w_threads w))) w)"
  using thread_run_status [of "w_threads w" _ _ "[x]"] by (simp add: threads_move_def)

interpretation threads_move: step_relation threads_move
proof
  show "threads_move u w" if "threads_move u v" "threads_move v w" for u v w
    using that unfolding threads_move_def by (metis (no_types, lifting) rtranclp_trans)
qed (simp add: threads_move_same)

interpretation qthreads: query_relation threads_move
  by unfold_locales (simp_all add: threads_move_same threads_move_apply)

text \<open>A finished run stays as it is.\<close>

definition final_kept :: "string \<Rightarrow> world \<Rightarrow> world \<Rightarrow> bool" where
  "final_kept q w w' \<longleftrightarrow>
     (\<forall>s. dget (w_runs w) q = Some s \<and> terminal (rs_status s) \<longrightarrow>
        dget (w_runs w') q = Some s \<and> get (w_store w') q = get (w_store w) q)"

interpretation qfinal: query_relation "final_kept q" for q
  by unfold_locales (auto simp: final_kept_def)

lemma resume_finished:
  assumes s: "dget (w_runs w) q = Some s" "terminal (rs_status s)"
  shows "\<exists>e. resume_workflow cfg wk q p w = Some (Inl e, w)"
  using s
  by (cases "normalize_resume_payload cfg p")
    (auto simp: resume_workflow_def then_advance_def prepare_resume_def load_state_def known_run_def py_simps
      state_of_def run_of_def terminal_def)

lemma enter_final:
  assumes x: "enter cfg wk e w = Some (res, w')" and ok: "world_ok w"
  shows "final_kept q w w'"
  unfolding final_kept_def
proof (intro allI impI, elim conjE)
  fix s assume s: "dget (w_runs w) q = Some s" "terminal (rs_status s)"
  show "dget (w_runs w') q = Some s \<and> get (w_store w') q = get (w_store w) q"
  proof (cases "\<exists>p. e = ResumeWorkflow q p")
    case True
    then obtain p where e: "e = ResumeWorkflow q p" by blast
    with resume_finished [OF s, of cfg wk p] x have "w' = w" by auto
    with s show ?thesis by simp
  next
    case False
    have "drawn w q" using ok s(1) by (auto simp: world_ok_def cached_ok_def)
    with enter_apart [OF x ok] False s show ?thesis by (simp add: unchanged_def)
  qed
qed

subsection \<open>Histories\<close>

lemma rt_step_evolves: "rt_step cfg w w' \<Longrightarrow> evolves w w'"
proof (induction rule: rt_step.cases)
  case (rt_enter wk e w res w')
  then show ?case using enter_evolves by blast
next
  case (rt_ask q w res w')
  then show ?case using presD [OF qev.pres_ask] by blast
next
  case (rt_threads w x)
  then show ?case using qev.Q_threads by blast
next
  case (rt_wait w n)
  then show ?case using ev.R_now by blast
qed

lemma enter_keeps_log: "enter cfg wk e w = Some (res, w') \<Longrightarrow> audit_grows w w'"
  using log.run_workflow_keeps log.resume_workflow_keeps log.resume_from_checkpoint_keeps by (cases e) auto

lemma enter_keeps_threads: "enter cfg wk e w = Some (res, w') \<Longrightarrow> threads_same w w'"
  using threads.run_workflow_keeps threads.resume_workflow_keeps threads.resume_from_checkpoint_keeps
  by (cases e) auto

lemma rt_step_log: "rt_step cfg w w' \<Longrightarrow> audit_grows w w'"
proof (induction rule: rt_step.cases)
  case (rt_enter wk e w res w')
  then show ?case using enter_keeps_log by blast
next
  case (rt_ask q w res w')
  then show ?case using presD [OF qlog.pres_ask] by blast
qed (simp_all add: audit_grows_def)

lemma rt_step_threads: "rt_step cfg w w' \<Longrightarrow> threads_move w w'"
proof (induction rule: rt_step.cases)
  case (rt_enter wk e w res w')
  then show ?case using enter_keeps_threads threads_move_same by (auto simp: threads_same_def)
next
  case (rt_ask q w res w')
  then show ?case using presD [OF qthreads.pres_ask] by blast
next
  case (rt_threads w x)
  then show ?case using threads_move_apply by blast
qed (simp add: threads_move_same)

lemma rt_step_final: "rt_step cfg w w' \<Longrightarrow> world_ok w \<Longrightarrow> final_kept q w w'"
proof (induction rule: rt_step.cases)
  case (rt_enter wk e w res w')
  then show ?case using enter_final by blast
next
  case (rt_ask q w res w')
  then show ?case using presD [OF qfinal.pres_ask] by blast
qed (simp_all add: final_kept_def)

lemma history_evolves: "(rt_step cfg)\<^sup>*\<^sup>* w w' \<Longrightarrow> evolves w w'"
  by (induction rule: rtranclp_induct) (auto intro: ev.R_refl ev.R_trans rt_step_evolves)

lemma history_log: "(rt_step cfg)\<^sup>*\<^sup>* w w' \<Longrightarrow> audit_grows w w'"
  by (induction rule: rtranclp_induct) (auto intro: log_step.R_refl log_step.R_trans rt_step_log)

lemma history_threads: "(rt_step cfg)\<^sup>*\<^sup>* w w' \<Longrightarrow> threads_move w w'"
  by (induction rule: rtranclp_induct) (auto intro: threads_move.R_refl threads_move.R_trans rt_step_threads)

lemma history_final: "(rt_step cfg)\<^sup>*\<^sup>* w w' \<Longrightarrow> world_ok w \<Longrightarrow> final_kept q w w'"
proof (induction rule: rtranclp_induct)
  case base
  show ?case by (rule qfinal.R_refl)
next
  case (step u v)
  then have "world_ok u" using evolves_ok [OF history_evolves] by blast
  with step rt_step_final qfinal.R_trans show ?case by blast
qed

text \<open>C20: whatever is done with a runtime, in whatever order: audit events are never removed or changed;
  a checkpoint, once written, is never changed or removed, and a thread's list of checkpoints only grows;
  no run is lost, and none changes its workflow or its thread; the stored epoch of a run never goes
  back; a thread record moves along its transition table.\<close>

theorem history_is_kept:
  assumes h: "(rt_step cfg)\<^sup>*\<^sup>* w w'" and ok: "world_ok w"
  shows "world_ok w' \<and> prefix (w_audit w) (w_audit w') \<and>
    (\<forall>c s. get_checkpoint (w_store w) c = Some s \<longrightarrow> get_checkpoint (w_store w') c = Some s) \<and>
    (\<forall>t. prefix (dget_or (st_thread_checkpoints (w_store w)) t [])
       (dget_or (st_thread_checkpoints (w_store w')) t [])) \<and>
    (\<forall>r s. get (w_store w) r = Some s \<longrightarrow> (\<exists>s'. get (w_store w') r = Some s' \<and> rs_epoch s \<le> rs_epoch s')) \<and>
    (\<forall>r s. dget (w_runs w) r = Some s \<longrightarrow> (\<exists>s'. dget (w_runs w') r = Some s' \<and>
       rs_thread_id s' = rs_thread_id s \<and> rs_workflow_name s' = rs_workflow_name s)) \<and>
    (\<forall>t a. thread_status_of (w_threads w) t = Some a \<longrightarrow>
       (\<exists>b. thread_status_of (w_threads w') t = Some b \<and> thread_step\<^sup>*\<^sup>* a b))"
  using evolves_ok [OF history_evolves [OF h] ok] history_log [OF h] history_threads [OF h]
  by (simp add: audit_grows_def store_extends_def runs_kept_def threads_move_def)

theorem history_is_kept_witness:
  "\<exists>w'. (rt_step no_adapter_config)\<^sup>*\<^sup>* (world_with running_state) w' \<and> w_now w' = 7 \<and> world_ok w' \<and>
    (\<exists>s. dget (w_runs w') (uuid_of 0) = Some s \<and> rs_workflow_name s = ''wf'')"
proof -
  let ?w = "world_with running_state"
  have ok: "world_ok ?w" by (simp add: world_with_ok)
  have "(rt_step no_adapter_config)\<^sup>*\<^sup>* ?w (?w\<lparr>w_now := w_now ?w + int 7\<rparr>)"
    by (intro r_into_rtranclp rt_wait)
  from history_is_kept [OF this ok] this show ?thesis by auto
qed

text \<open>C21: a run that is COMPLETED or FAILED is final: nothing that is done with the runtime afterwards,
  not even resuming it, changes its state, cached or stored.\<close>

theorem finished_runs_are_final:
  assumes h: "(rt_step cfg)\<^sup>*\<^sup>* w w'" and ok: "world_ok w"
    and s: "dget (w_runs w) q = Some s" "rs_status s \<in> {COMPLETED, FAILED}"
  shows "dget (w_runs w') q = Some s \<and> get (w_store w') q = get (w_store w) q \<and>
    (\<exists>e. resume_workflow cfg wk q p w' = Some (Inl e, w'))"
proof -
  have t: "terminal (rs_status s)" using s(2) by (simp add: terminal_def)
  have k: "dget (w_runs w') q = Some s" "get (w_store w') q = get (w_store w) q"
    using history_final [OF h ok, of q] s(1) t by (simp_all add: final_kept_def)
  with resume_finished [OF k(1) t] show ?thesis by blast
qed

theorem finished_runs_are_final_witness:
  "\<exists>w'. (rt_step no_adapter_config)\<^sup>*\<^sup>* (world_with (running_state\<lparr>rs_status := FAILED\<rparr>)) w' \<and> w_now w' = 7 \<and>
    dget (w_runs w') (uuid_of 0) = Some (running_state\<lparr>rs_status := FAILED\<rparr>)"
proof -
  let ?s = "running_state\<lparr>rs_status := FAILED\<rparr>"
  let ?w = "world_with ?s"
  have ok: "world_ok ?w" by (simp add: world_with_ok)
  have "(rt_step no_adapter_config)\<^sup>*\<^sup>* ?w (?w\<lparr>w_now := w_now ?w + int 7\<rparr>)"
    by (intro r_into_rtranclp rt_wait)
  from finished_runs_are_final [OF this ok world_with_runs(1)] this show ?thesis by auto
qed

end
