(* ===== verification/Races.thy ===== *)
theory Races
  imports Boundaries
begin

section \<open>Two approvals at once\<close>

text \<open>
  \<open>resume_workflow\<close> is a coroutine. With an emitter that waits for the network (\<open>RedisAuditEmitter\<close>) an approval
  is suspended while \<open>APPROVAL_GRANTED\<close> is written, before the run is marked RUNNING. This theory cuts the
  approval there (\<open>approve_first\<close>, \<open>grant_rest\<close>) and lets a second approval of the same run come in between.
\<close>

text \<open>The steps a run has approvals for.\<close>

definition approvals :: "run_state \<Rightarrow> string set" where
  "approvals s = {n. case approved_steps s of Inl _ \<Rightarrow> False | Inr given \<Rightarrow> JStr n \<in> set given}"

lemma approvals_texts: "approved_steps s = Inr (map JStr given) \<Longrightarrow> approvals s = set given"
  by (auto simp: approvals_def)

lemma approved_steps_metadata: "rs_metadata s' = rs_metadata s \<Longrightarrow> approved_steps s' = approved_steps s"
  by (simp add: approved_steps_def)

definition grant_first :: "config \<Rightarrow> string \<Rightarrow> approval_request \<Rightarrow> approval_decision \<Rightarrow> json rt" where
  "grant_first cfg r request d =
     bnd (state_of r) (\<lambda>s.
     bnd (lift_res (approved_steps s)) (\<lambda>approved.
     bnd (lift_res (sorted_steps (JStr (ar_step_name request) # approved))) (\<lambda>steps.
     sq (update_state r (\<lambda>s. s\<lparr>rs_metadata :=
              ddel ''pending_input'' (dset ''approved_steps'' steps (rs_metadata s))\<rparr>))
    (sq (emit_run cfg r APPROVAL_GRANTED (rs_current_step s)
              [(''decided_by'', opt_json (ad_decided_by d)), (''reason'', opt_json (ad_reason d))])
        (ret (dget_or (rs_metadata s) ''pending_input'' JNull))))))"

definition grant_rest :: "config \<Rightarrow> string \<Rightarrow> json \<Rightarrow> (string \<times> json option) rt" where
  "grant_rest cfg r pending =
     sq (update_state r (\<lambda>s. s\<lparr>rs_pending_approval := None, rs_status := RUNNING\<rparr>))
    (sq (touch_state r)
    (sq (persist_state cfg r)
        (ret (r, Some pending))))"

text \<open>\<open>resume_workflow\<close> with a decision, up to there: its result is the pending payload.\<close>

definition approve_first :: "config \<Rightarrow> string \<Rightarrow> resume_input \<Rightarrow> json rt" where
  "approve_first cfg r p =
     sq (load_state r)
    (bnd (lift_res (normalize_resume_payload cfg p)) (\<lambda>normalized.
     bnd (state_of r) (\<lambda>s.
     if rs_status s \<noteq> WAITING_APPROVAL
     then raise (Exn ApprovalRequiredError
            (''Run '' @ r @ '' is not resumable (status='' @ status_value (rs_status s) @ '')''))
     else
       case (rs_pending_approval s, normalized) of
         (Some request, ResumeApproval decision) \<Rightarrow>
           bnd now_of (\<lambda>now.
           bnd (lift_res (normalize_decision now decision)) (\<lambda>d.
           if ad_decision d = REJECT then bnd (reject_run cfg r d) (\<lambda>_. ret JNull)
           else grant_first cfg r request d))
       | (None, _) \<Rightarrow> raise (Exn ApprovalRequiredError (''Run '' @ r @ '' is not waiting for approval''))
       | _ \<Rightarrow> raise (Exn ApprovalRequiredError ''Approval resume requires ResumeApproval payload''))))"

lemma grant_run_cut: "grant_run cfg r q d w = bnd (grant_first cfg r q d) (grant_rest cfg r) w"
  by (simp add: grant_run_def grant_first_def grant_rest_def py_simps Let_def split: sum.split prod.split)

text \<open>A decision that approves at the time \<open>now\<close>.\<close>

definition approves :: "config \<Rightarrow> int \<Rightarrow> resume_input \<Rightarrow> approval_decision \<Rightarrow> bool" where
  "approves cfg now p d \<longleftrightarrow>
     (\<exists>inp. normalize_resume_payload cfg p = Inr (ResumeApproval inp) \<and> normalize_decision now inp = Inr d) \<and>
     ad_decision d = APPROVE"

lemma approve_first_waiting:
  assumes "waiting_for r q given s w" "approves cfg (w_now w) p d"
  shows "approve_first cfg r p w = grant_first cfg r q d w"
    and "prepare_resume cfg wk r p w = bnd (approve_first cfg r p) (grant_rest cfg r) w"
proof -
  show eq: "approve_first cfg r p w = grant_first cfg r q d w"
    using assms
    by (auto simp: approves_def waiting_for_def approve_first_def load_state_def known_run_def py_simps state_of_def
        run_of_def now_of_def)
  have "prepare_resume cfg wk r p w = grant_run cfg r q d w"
    using assms prepare_resume_waiting [OF assms(1)] by (auto simp: approves_def)
  then show "prepare_resume cfg wk r p w = bnd (approve_first cfg r p) (grant_rest cfg r) w"
    by (simp add: grant_run_cut bnd_def eq)
qed

lemma grant_first_ok:
  assumes cfg: "plain cfg" and wf: "waiting_for r q given s w"
  obtains w' s' given' where "grant_first cfg r q d w = (Inr (dget_or (rs_metadata s) ''pending_input'' JNull), w')"
    "waiting_for r q given' s' w'" "dget (rs_metadata s') ''pending_input'' = None" "w_now w' = w_now w"
    "rs_current_step s' = rs_current_step s" "rs_artifacts s' = rs_artifacts s"
    "approvals s' = insert (ar_step_name q) (approvals s)" "rs_thread_id s' = rs_thread_id s" "w_store w' = w_store w"
proof -
  from wf have s: "dget (w_runs w) r = Some s" and ok: "world_ok w"
    and a: "approved_steps s = Inr (map JStr given)" by (simp_all add: waiting_for_def)
  define steps where "steps = JList (map JStr (sorted_set (ar_step_name q # given)))"
  define s1 where "s1 = s\<lparr>rs_metadata := ddel ''pending_input'' (dset ''approved_steps'' steps (rs_metadata s))\<rparr>"
  let ?ev = "[(''decided_by'', opt_json (ad_decided_by d)), (''reason'', opt_json (ad_reason d))]"
  let ?w1 = "set_run r s1 w"
  let ?w2 = "log_event r APPROVAL_GRANTED (rs_current_step s) ?ev ?w1"
  have s1: "dget (w_runs ?w1) r = Some s1" by simp
  have ok1: "world_ok ?w1" by (rule world_ok_set_run [OF ok s]) (simp add: s1_def same_identity_def)
  have ok2: "world_ok ?w2" using world_ok_step [OF ev.pres_emit_run ok1 emit_run_plain [OF cfg s1]] .
  have "sorted_steps (JStr (ar_step_name q) # map JStr given) = Inr steps"
    using json_texts_map [of "ar_step_name q # given"] by (simp add: sorted_steps_def steps_def)
  then have run: "grant_first cfg r q d w = (Inr (dget_or (rs_metadata s) ''pending_input'' JNull), ?w2)"
    using a emit_run_plain [OF cfg s1]
    by (simp add: grant_first_def py_simps state_of_def run_of_def s update_state_run [OF s] s1_def)
  have wf1: "waiting_for r q (sorted_set (ar_step_name q # given)) s1 ?w2"
    using wf ok2 by (simp add: waiting_for_def s1_def approved_steps_def steps_def dget_or_def)
  then have "approvals s1 = insert (ar_step_name q) (approvals s)"
    using approvals_texts [of s1] approvals_texts [OF a] by (simp add: waiting_for_def)
  with wf1 show ?thesis using that [OF run] by (simp add: s1_def set_run_def)
qed

lemma grant_rest_ok:
  assumes cfg: "plain cfg" and ok: "world_ok w" and s: "dget (w_runs w) r = Some s"
  obtains w' where "grant_rest cfg r pending w = (Inr (r, Some pending), w')"
    "dget (w_runs w') r = Some (run_of w' r)" "rs_status (run_of w' r) = RUNNING"
    "rs_current_step (run_of w' r) = rs_current_step s" "get (w_store w') r = Some (run_of w' r)"
    "rs_artifacts (run_of w' r) = rs_artifacts s" "rs_metadata (run_of w' r) = rs_metadata s" "world_ok w'"
    "rs_thread_id (run_of w' r) = rs_thread_id s" "st_thread_active (w_store w') = st_thread_active (w_store w)"
proof -
  let ?f = "\<lambda>s. s\<lparr>rs_pending_approval := None, rs_status := RUNNING\<rparr>"
  let ?k = "ret (r, Some pending) :: (string \<times> json option) rt"
  have f: "same_identity s (?f s)" "state_consistent (?f s)"
    by (simp_all add: same_identity_def state_consistent_def)
  obtain w1 where w1: "grant_rest cfg r pending w = ?k w1" "dget (w_runs w1) r = Some (run_of w1 r)"
    "get (w_store w1) r = Some (run_of w1 r)"
    "run_of w1 r = written (uuid_of (w_fresh w)) (get (w_store w) r) (cleared (touch (w_now w) (?f s)))"
    "world_ok w1" "\<not> terminal (rs_status (?f s)) \<Longrightarrow> st_thread_active (w_store w1) = st_thread_active (w_store w)"
    unfolding grant_rest_def by (rule change_persist [where f = ?f and k = ?k, OF cfg ok s f]) blast
  show ?thesis by (rule that [OF w1(1) [unfolded ret_run]]) (use w1 in \<open>simp_all add: terminal_def\<close>)
qed

text \<open>C15: a run that waits for approval can be approved twice when the second approval comes in while the first
  is being recorded. Both pass the checks; the first goes on with the pending payload, the second with
  nothing. Whatever has become of the run in the meantime, completed or failed, the second approval makes it
  RUNNING again, stored as such, and hands it to the loop. One after the other, the second is refused.\<close>

theorem run_approved_twice:
  assumes cfg: "plain cfg" and wf: "waiting_for r q given s w"
    and d: "approves cfg (w_now w) p d" "approves cfg (w_now w) p' d'"
  shows "(\<exists>w1 w2. approve_first cfg r p w = (Inr (dget_or (rs_metadata s) ''pending_input'' JNull), w1) \<and>
      approve_first cfg r p' w1 = (Inr JNull, w2) \<and>
      (\<forall>w3 s3. world_ok w3 \<and> dget (w_runs w3) r = Some s3 \<longrightarrow>
        (\<exists>w4. grant_rest cfg r JNull w3 = (Inr (r, Some JNull), w4) \<and> rs_status (run_of w4 r) = RUNNING \<and>
           rs_current_step (run_of w4 r) = rs_current_step s3 \<and> get (w_store w4) r = Some (run_of w4 r)))) \<and>
    (\<exists>w1 e. prepare_resume cfg wk r p w = (Inr (r, Some (dget_or (rs_metadata s) ''pending_input'' JNull)), w1) \<and>
      prepare_resume cfg wk r p' w1 = (Inl e, w1) \<and> eclass e = ApprovalRequiredError)"
proof (intro conjI)
  obtain w1 s1 given1 where g1: "grant_first cfg r q d w = (Inr (dget_or (rs_metadata s) ''pending_input'' JNull), w1)"
    and wf1: "waiting_for r q given1 s1 w1" and gone: "dget (rs_metadata s1) ''pending_input'' = None"
    and now: "w_now w1 = w_now w"
    by (rule grant_first_ok [OF cfg wf])
  have a1: "approve_first cfg r p w = (Inr (dget_or (rs_metadata s) ''pending_input'' JNull), w1)"
    using approve_first_waiting(1) [OF wf d(1)] g1 by simp
  obtain w2 where "grant_first cfg r q d' w1 = (Inr (dget_or (rs_metadata s1) ''pending_input'' JNull), w2)"
    by (rule grant_first_ok [OF cfg wf1])
  then have a2: "approve_first cfg r p' w1 = (Inr JNull, w2)"
    using approve_first_waiting(1) [OF wf1 d(2) [folded now]] gone by (simp add: dget_or_def)
  have rest: "\<exists>w4. grant_rest cfg r JNull w3 = (Inr (r, Some JNull), w4) \<and> rs_status (run_of w4 r) = RUNNING \<and>
      rs_current_step (run_of w4 r) = rs_current_step s3 \<and> get (w_store w4) r = Some (run_of w4 r)"
    if "world_ok w3" "dget (w_runs w3) r = Some s3" for w3 s3
    by (rule grant_rest_ok [OF cfg that, of JNull]) blast
  from a1 a2 rest show "\<exists>w1 w2. approve_first cfg r p w = (Inr (dget_or (rs_metadata s) ''pending_input'' JNull), w1) \<and>
      approve_first cfg r p' w1 = (Inr JNull, w2) \<and>
      (\<forall>w3 s3. world_ok w3 \<and> dget (w_runs w3) r = Some s3 \<longrightarrow>
        (\<exists>w4. grant_rest cfg r JNull w3 = (Inr (r, Some JNull), w4) \<and> rs_status (run_of w4 r) = RUNNING \<and>
           rs_current_step (run_of w4 r) = rs_current_step s3 \<and> get (w_store w4) r = Some (run_of w4 r)))"
    by blast
  have s1: "dget (w_runs w1) r = Some s1" "world_ok w1" using wf1 by (simp_all add: waiting_for_def)
  obtain w3 where w3: "grant_rest cfg r (dget_or (rs_metadata s) ''pending_input'' JNull) w1 =
      (Inr (r, Some (dget_or (rs_metadata s) ''pending_input'' JNull)), w3)"
    "dget (w_runs w3) r = Some (run_of w3 r)" "rs_status (run_of w3 r) = RUNNING"
    by (rule grant_rest_ok [OF cfg s1(2,1)])
  have "prepare_resume cfg wk r p w = (Inr (r, Some (dget_or (rs_metadata s) ''pending_input'' JNull)), w3)"
    using approve_first_waiting(2) [OF wf d(1)] a1 w3(1) by (simp add: py_simps)
  moreover from d(2) obtain n where "normalize_resume_payload cfg p' = Inr n" by (auto simp: approves_def)
  then have "\<exists>e. prepare_resume cfg wk r p' w3 = (Inl e, w3) \<and> eclass e = ApprovalRequiredError"
    using w3(2,3) by (simp add: prepare_resume_def load_state_def known_run_def py_simps state_of_def)
  ultimately show "\<exists>w1 e. prepare_resume cfg wk r p w = (Inr (r, Some (dget_or (rs_metadata s) ''pending_input'' JNull)), w1) \<and>
      prepare_resume cfg wk r p' w1 = (Inl e, w1) \<and> eclass e = ApprovalRequiredError" by blast
qed

definition waiting_state :: run_state where
  "waiting_state =
     running_state\<lparr>rs_status := WAITING_APPROVAL, rs_metadata := [(''pending_input'', JInt 5)],
       rs_pending_approval := Some
         \<lparr>ar_request_id = ''q'', ar_run_id = uuid_of 0, ar_workflow_name = ''wf'', ar_step_name = ''a'',
          ar_executor_name = ''echo'', ar_reason = None, ar_created_at = 0, ar_metadata = []\<rparr>\<rparr>"

theorem run_approved_twice_witness:
  "\<exists>w1 w2 w4. approve_first no_adapter_config (uuid_of 0) (GivenText ''approve'') (world_with waiting_state) = (Inr (JInt 5), w1) \<and>
     approve_first no_adapter_config (uuid_of 0) (GivenText ''approve'') w1 = (Inr JNull, w2) \<and>
     grant_rest no_adapter_config (uuid_of 0) JNull (world_with (running_state\<lparr>rs_status := COMPLETED, rs_current_step := None\<rparr>)) =
       (Inr (uuid_of 0, Some JNull), w4) \<and>
     rs_status (run_of w4 (uuid_of 0)) = RUNNING"
proof -
  let ?q = "the (rs_pending_approval waiting_state)"
  let ?done = "running_state\<lparr>rs_status := COMPLETED, rs_current_step := None\<rparr>"
  have wf: "waiting_for (uuid_of 0) ?q [] waiting_state (world_with waiting_state)"
    by (simp add: waiting_for_def world_with_ok approved_steps_def waiting_state_def dget_or_def)
  have "strip (lower ''approve'') = ''approve''" by code_simp
  then have d: "approves no_adapter_config (w_now (world_with waiting_state)) (GivenText ''approve'')
      \<lparr>ad_decision = APPROVE, ad_decided_by = None, ad_reason = None, ad_decided_at = 0\<rparr>"
    by (simp add: approves_def normalize_resume_payload_def normalize_decision_def Let_def)
  have cfg: "plain no_adapter_config" by (simp add: no_adapter_config_def)
  have pend: "dget_or (rs_metadata waiting_state) ''pending_input'' JNull = JInt 5"
    by (simp add: waiting_state_def dget_or_def)
  have "world_ok (world_with ?done) \<and> dget (w_runs (world_with ?done)) (uuid_of 0) = Some ?done"
    by (simp add: world_with_ok)
  with run_approved_twice [OF cfg wf d d, of "echo_workflow echo_step", unfolded pend] show ?thesis by blast
qed

end
