(* ===== verification/Step_Outcomes.thy ===== *)
theory Step_Outcomes
  imports Races
begin

section \<open>What the pieces of a step leave behind\<close>

text \<open>
  The outcome of each piece of an iteration on a run that is \<open>loaded\<close>: the output recorded, the approval used up,
  the events of a transition, the move to the next step, the end of the run. \<open>Interruptions\<close> adds the
  questions, \<open>Completion\<close> puts the pieces together.
\<close>

text \<open>Approvals as the runtime leaves them: a list of step names. User code could store anything there.\<close>

definition tidy :: "run_state \<Rightarrow> bool" where
  "tidy s \<longleftrightarrow> (\<exists>given. approved_steps s = Inr (map JStr given))"

definition loaded :: "string \<Rightarrow> run_state \<Rightarrow> world \<Rightarrow> bool" where
  "loaded r s w \<longleftrightarrow> world_ok w \<and> dget (w_runs w) r = Some s \<and> rs_status s = RUNNING \<and> tidy s"

type_synonym annotation = "string option \<Rightarrow> json \<Rightarrow> json dict \<Rightarrow> string set \<Rightarrow> bool"

definition finished :: "annotation \<Rightarrow> string \<Rightarrow> world \<Rightarrow> bool" where
  "finished fits r w \<longleftrightarrow>
     world_ok w \<and> dget (w_runs w) r = Some (run_of w r) \<and> rs_run_id (run_of w r) = r \<and> rs_status (run_of w r) = COMPLETED \<and>
     rs_current_step (run_of w r) = None \<and>
     get (w_store w) r = Some (run_of w r) \<and>
     dget (st_thread_active (w_store w)) (rs_thread_id (run_of w r)) \<noteq> Some r \<and>
     (\<exists>out. fits None out (rs_artifacts (run_of w r)) (approvals (run_of w r)))"

text \<open>The thread of the run, and the run every thread is at.\<close>

definition place :: "run_state \<Rightarrow> world \<Rightarrow> string \<times> string dict" where
  "place s w = (rs_thread_id s, st_thread_active (w_store w))"

lemma loaded_run_of: "loaded r s w \<Longrightarrow> run_of w r = s"
  by (simp add: loaded_def run_of_def)

lemma tidy_metadata: "rs_metadata s' = rs_metadata s \<Longrightarrow> tidy s' = tidy s"
  by (simp add: tidy_def approved_steps_def)

lemma approvals_metadata: "rs_metadata s' = rs_metadata s \<Longrightarrow> approvals s' = approvals s"
  by (simp add: approvals_def approved_steps_def)

lemma tidy_texts: "tidy s \<Longrightarrow> \<exists>given. approved_steps s = Inr (map JStr given) \<and> approvals s = set given"
  by (auto simp: tidy_def approvals_texts)

lemma requires_approval_tidy:
  assumes "tidy s"
  shows "requires_approval st s =
     Inr (sd_name st \<notin> approvals s \<and>
          (case sd_approval_override st of Some b \<Rightarrow> b | None \<Rightarrow> executor_requires_approval (sd_executor st)))"
proof -
  obtain given where "approved_steps s = Inr (map JStr given)" "approvals s = set given"
    using tidy_texts [OF assms] by blast
  moreover have "JStr (sd_name st) \<in> JStr ` set given \<longleftrightarrow> sd_name st \<in> set given" by auto
  ultimately show ?thesis by (simp add: requires_approval_def)
qed

lemma quiet_loaded: "quiet w w' \<Longrightarrow> world_ok w' \<Longrightarrow> loaded r s w \<Longrightarrow> loaded r s w'"
  by (simp add: loaded_def quiet_def)

subsection \<open>A step that works\<close>

abbreviation output_key :: "step \<Rightarrow> string" where
  "output_key st \<equiv> or_else (sd_emitted_artifact st) (sd_name st)"

text \<open>Where an annotation speaks of: a step, or the end.\<close>

definition next_point :: "string \<Rightarrow> string option" where
  "next_point m = (if m = END_STEP then None else Some m)"

text \<open>A command goes through when the reducers accept the updates of its channels.\<close>

fun channels_after :: "config \<Rightarrow> json dict \<Rightarrow> json dict \<Rightarrow> exn + json dict" where
  "channels_after cfg [] chs = Inr chs"
| "channels_after cfg ((k, v) # us) chs =
     (case channel_reducer_of cfg k of
        Inl e \<Rightarrow> Inl e
      | Inr red \<Rightarrow>
          (case red (dget_or chs k JNull) v of
             Inl e \<Rightarrow> Inl e
           | Inr x \<Rightarrow> channels_after cfg us (dset k x chs)))"

definition goes_through :: "config \<Rightarrow> command option \<Rightarrow> json dict \<Rightarrow> bool" where
  "goes_through cfg cmd chs \<longleftrightarrow>
     (\<forall>c. cmd = Some c \<longrightarrow> (\<exists>chs'. channels_after cfg (cmd_state_update c) chs = Inr chs'))"

definition handed_on :: "json \<Rightarrow> command option \<Rightarrow> json" where
  "handed_on out cmd =
     (case cmd of None \<Rightarrow> out | Some c \<Rightarrow> if cmd_output c \<noteq> JNull then cmd_output c else out)"

lemma consume_approval_ok:
  assumes l: "loaded r s w"
  obtains w' s' left where "consume_approval r n w = (Inr (), w')" "loaded r s' w'" "w_store w' = w_store w"
    "approved_steps s' = Inr left" "JStr n \<notin> set left"
    "rs_artifacts s' = rs_artifacts s" "approvals s' = approvals s - {n}" "rs_thread_id s' = rs_thread_id s"
proof -
  from l have s: "dget (w_runs w) r = Some s" and ok: "world_ok w" by (simp_all add: loaded_def)
  have of: "run_of w r = s" by (rule loaded_run_of [OF l])
  from l obtain given where g: "approved_steps s = Inr (map JStr given)" by (auto simp: loaded_def tidy_def)
  show ?thesis
  proof (cases "JStr n \<in> set (map JStr given)")
    case False
    then have "consume_approval r n w = (Inr (), w)"
      using g by (simp add: consume_approval_def py_simps state_of_def of)
    moreover have "approvals s = approvals s - {n}" using False approvals_texts [OF g] by auto
    ultimately show ?thesis using l g False that by blast
  next
    case True
    have rm: "removeAll (JStr n) (map JStr given) = map JStr (removeAll n given)"
      by (induction given) auto
    define xs where "xs = map JStr (sorted_set (removeAll n given))"
    let ?s = "s\<lparr>rs_metadata := dset ''approved_steps'' (JList xs) (rs_metadata s)\<rparr>"
    have "sorted_steps (removeAll (JStr n) (map JStr given)) = Inr (JList xs)"
      unfolding sorted_steps_Inr rm xs_def by blast
    then have run: "consume_approval r n w = (Inr (), set_run r ?s w)"
      using True g by (simp add: consume_approval_def py_simps state_of_def of update_state_run [OF s])
    have left: "approved_steps ?s = Inr xs" "JStr n \<notin> set xs" by (auto simp: approved_steps_def xs_def dget_or_def)
    then have "loaded r ?s (set_run r ?s w)"
      using l world_ok_set_run [OF ok s] by (auto simp: loaded_def same_identity_def tidy_def xs_def)
    moreover have "approvals ?s = set (sorted_set (removeAll n given))"
      by (rule approvals_texts) (use left(1) in \<open>simp add: xs_def\<close>)
    then have "approvals ?s = approvals s - {n}" using approvals_texts [OF g] by simp
    ultimately show ?thesis using run left that [of "set_run r ?s w" ?s xs] by (simp add: set_run_def)
  qed
qed

lemma apply_state_update_ok:
  "loaded r s w \<Longrightarrow> channels_after cfg us (rs_channels s) = Inr chs \<Longrightarrow>
   \<exists>w'. apply_state_update cfg r us w = (Inr (), w') \<and> loaded r (s\<lparr>rs_channels := chs\<rparr>) w' \<and> w_store w' = w_store w"
proof (induction us arbitrary: s w)
  case Nil
  then show ?case by (auto simp: apply_state_update_def py_simps)
next
  case (Cons kv us)
  obtain k v where kv: "kv = (k, v)" by (cases kv)
  from Cons.prems(2) obtain red y where red: "channel_reducer_of cfg k = Inr red" "red (dget_or (rs_channels s) k JNull) v = Inr y"
    and more: "channels_after cfg us (rs_channels (s\<lparr>rs_channels := dset k y (rs_channels s)\<rparr>)) = Inr chs"
    by (auto simp: kv split: sum.splits)
  let ?s = "s\<lparr>rs_channels := dset k y (rs_channels s)\<rparr>"
  from Cons.prems(1) have s: "dget (w_runs w) r = Some s" and ok: "world_ok w" by (simp_all add: loaded_def)
  have up: "update_channel cfg r kv w = (Inr (), set_run r ?s w)"
    using red loaded_run_of [OF Cons.prems(1)]
    by (simp add: update_channel_def kv bnd_run lift_res_run state_of_run update_state_run [OF s])
  have "world_ok (set_run r ?s w)" by (rule world_ok_set_run [OF ok s]) (simp add: same_identity_def)
  moreover have "tidy ?s = tidy s" by (rule tidy_metadata) simp
  ultimately have "loaded r ?s (set_run r ?s w)" using Cons.prems(1) by (simp add: loaded_def)
  from Cons.IH [OF this more] up show ?case by (auto simp: apply_state_update_def sq_run set_run_def)
qed

lemma command_applied:
  assumes l: "loaded r s w" and c: "goes_through cfg cmd (rs_channels s)"
  obtains w' s' where "(case cmd of None \<Rightarrow> ret x | Some c \<Rightarrow>
      sq (apply_state_update cfg r (cmd_state_update c)) (ret (if cmd_output c \<noteq> JNull then cmd_output c else x))) w =
        (Inr (handed_on x cmd), w')" "loaded r s' w'"
    "rs_artifacts s' = rs_artifacts s" "approvals s' = approvals s" "place s' w' = place s w"
proof (cases cmd)
  case None
  show ?thesis by (rule that [OF _ l]) (simp_all add: None handed_on_def ret_run)
next
  case (Some c)
  with assms(2) obtain chs where "channels_after cfg (cmd_state_update c) (rs_channels s) = Inr chs"
    by (auto simp: goes_through_def)
  then obtain w' where w': "apply_state_update cfg r (cmd_state_update c) w = (Inr (), w')"
    "loaded r (s\<lparr>rs_channels := chs\<rparr>) w'" "w_store w' = w_store w"
    using apply_state_update_ok [OF l] by blast
  have "approvals (s\<lparr>rs_channels := chs\<rparr>) = approvals s" by (rule approvals_metadata) simp
  with w' show ?thesis
    by (intro that [OF _ w'(2)]) (simp_all add: Some handed_on_def sq_run ret_run place_def)
qed

lemma record_output_ok:
  assumes cfg: "plain cfg" and l0: "loaded r s0 w0" and c: "goes_through cfg cmd (rs_channels s0)"
    and out: "out = handed_on x cmd"
  obtains w' s' where "record_output cfg r st x cmd w0 = (Inr out, w')" "loaded r s' w'"
    "rs_artifacts s' = artifacts_set (rs_artifacts s0) (output_key st) out"
    "approvals s' = approvals s0 - {sd_name st}" "place s' w' = place s0 w0"
proof -
  obtain w s where cmd: "(case cmd of None \<Rightarrow> ret x | Some c \<Rightarrow>
      sq (apply_state_update cfg r (cmd_state_update c)) (ret (if cmd_output c \<noteq> JNull then cmd_output c else x))) w0 =
        (Inr out, w)"
    and l: "loaded r s w" and same: "rs_artifacts s = rs_artifacts s0" "approvals s = approvals s0" "place s w = place s0 w0"
    unfolding out by (rule command_applied [OF l0 c, of x])
  from l have s: "dget (w_runs w) r = Some s" and ok: "world_ok w" by (simp_all add: loaded_def)
  let ?f = "\<lambda>s. s\<lparr>rs_artifacts :=
             artifacts_set (rs_artifacts s) (output_key st) out,
           rs_completed_steps :=
             (if sd_name st \<in> set (rs_completed_steps s) then rs_completed_steps s
              else rs_completed_steps s @ [sd_name st])\<rparr>"
  let ?k = "sq (consume_approval r (sd_name st)) (ret out)"
  have f: "same_identity s (?f s)" "state_consistent (?f s)"
    using l by (simp_all add: same_identity_def state_consistent_def loaded_def)
  have start: "record_output cfg r st x cmd w0 =
      sq (update_state r ?f) (sq (touch_state r) (sq (persist_state cfg r) ?k)) w"
    using cmd by (simp add: record_output_def bnd_run)
  obtain w1 where w1: "record_output cfg r st x cmd w0 = ?k w1" "dget (w_runs w1) r = Some (run_of w1 r)"
    "run_of w1 r = written (uuid_of (w_fresh w)) (get (w_store w) r) (cleared (touch (w_now w) (?f s)))"
    "world_ok w1" "\<not> terminal (rs_status (?f s)) \<Longrightarrow> st_thread_active (w_store w1) = st_thread_active (w_store w)"
    unfolding start by (rule change_persist [where f = ?f and k = ?k, OF cfg ok s f]) blast
  have "loaded r (run_of w1 r) w1"
    using l w1(2-4) tidy_metadata [of "run_of w1 r" s] by (simp add: loaded_def)
  then obtain w' s' where c: "consume_approval r (sd_name st) w1 = (Inr (), w')" "loaded r s' w'"
    "rs_artifacts s' = rs_artifacts (run_of w1 r)" "approvals s' = approvals (run_of w1 r) - {sd_name st}"
    "rs_thread_id s' = rs_thread_id (run_of w1 r)" "w_store w' = w_store w1"
    by (rule consume_approval_ok)
  moreover have "approvals (run_of w1 r) = approvals s" by (rule approvals_metadata) (simp add: w1(3))
  moreover have "rs_artifacts (run_of w1 r) = artifacts_set (rs_artifacts s) (output_key st) out" by (simp add: w1(3))
  moreover have "place s' w' = place s w" using c(5,6) w1(3,5) l by (simp add: place_def loaded_def terminal_def)
  ultimately show ?thesis using that w1(1) same by (simp add: py_simps)
qed

lemma complete_run_ok:
  assumes cfg: "plain cfg" and l: "loaded r s w" and fits: "fits None out (rs_artifacts s) (approvals s)"
  obtains w' where "complete_run cfg r w = (Inr (), w')" "finished fits r w'"
    "rs_thread_id (run_of w' r) = rs_thread_id s"
proof -
  from l have s: "dget (w_runs w) r = Some s" and ok: "world_ok w" by (simp_all add: loaded_def)
  let ?f = "\<lambda>s. s\<lparr>rs_current_step := None, rs_status := COMPLETED\<rparr>"
  let ?k = "bnd (state_of r) (\<lambda>s. emit_run cfg r RUN_COMPLETED None (completed_payload s))"
  have f: "same_identity s (?f s)" "state_consistent (?f s)"
    by (simp_all add: same_identity_def state_consistent_def)
  obtain w1 where w1: "complete_run cfg r w = ?k w1" "dget (w_runs w1) r = Some (run_of w1 r)"
    "get (w_store w1) r = Some (run_of w1 r)"
    "run_of w1 r = written (uuid_of (w_fresh w)) (get (w_store w) r) (cleared (touch (w_now w) (?f s)))"
    "terminal (rs_status (?f s)) \<Longrightarrow> dget (st_thread_active (w_store w1)) (rs_thread_id s) \<noteq> Some r"
    "world_ok w1"
    unfolding complete_run_def by (rule change_persist [where f = ?f and k = ?k, OF cfg ok s f]) blast
  let ?w2 = "log_event r RUN_COMPLETED None (completed_payload (run_of w1 r)) w1"
  note e = emit_run_plain [OF cfg w1(2), of RUN_COMPLETED None "completed_payload (run_of w1 r)"]
  have "approvals (run_of w1 r) = approvals s" by (rule approvals_metadata) (simp add: w1(4))
  then have "finished fits r ?w2"
    using w1(2-5) fits world_ok_drawn(1) [OF ok s] world_ok_step [OF ev.pres_emit_run w1(6) e]
    by (auto simp: finished_def terminal_def)
  moreover have "rs_thread_id (run_of ?w2 r) = rs_thread_id s" by (simp add: w1(4))
  ultimately show ?thesis using that w1(1) e by (simp add: py_simps state_of_def)
qed

lemma move_to_ok:
  assumes cfg: "plain cfg" and l: "loaded r s w"
  obtains w' s' where "move_to cfg r n w = (Inr (), w')" "loaded r s' w'" "rs_current_step s' = Some n"
    "rs_artifacts s' = rs_artifacts s" "approvals s' = approvals s" "place s' w' = place s w"
proof -
  from l have s: "dget (w_runs w) r = Some s" and ok: "world_ok w" by (simp_all add: loaded_def)
  let ?s = "s\<lparr>rs_current_step := Some n\<rparr>"
  have ok1: "world_ok (set_run r ?s w)" by (rule world_ok_set_run [OF ok s]) (simp add: same_identity_def)
  obtain w' where p: "persist_state cfg r (set_run r ?s w) = (Inr (), w')"
    and st: "persisted r ?s (set_run r ?s w) w'" and ok': "world_ok w'"
    using persist_ok [OF cfg ok1, of r ?s] l by (auto simp: loaded_def state_consistent_def)
  note ps = persisted_state [OF st]
  have "loaded r (run_of w' r) w'"
    using l ok' ps(1,2) tidy_metadata [of "run_of w' r" s] by (simp add: loaded_def)
  moreover have "move_to cfg r n w = (Inr (), w')" using p by (simp add: move_to_def py_simps update_state_run [OF s])
  moreover have "approvals (run_of w' r) = approvals s" by (rule approvals_metadata) (simp add: ps(2))
  moreover have "place (run_of w' r) w' = place s w"
    using ps(2) ps(11) l by (simp add: place_def loaded_def terminal_def)
  ultimately show ?thesis using that ps(2) by simp
qed

lemma emit_transition_events_quiet:
  assumes cfg: "plain cfg" and l: "loaded r s w"
  obtains w' where "emit_transition_events cfg r n m h w = (Inr (), w')" "loaded r s w'" "quiet w w'"
proof -
  let ?hop = "case h of None \<Rightarrow> w | Some agent \<Rightarrow>
      log_event r AGENT_HANDOFF_ACCEPTED (Some n) [(''next_agent'', JStr agent), (''next_step'', JStr m)] w"
  let ?w' = "log_event r TRANSITION_CHOSEN (Some n) [(''next_step'', JStr m)] ?hop"
  have s: "dget (w_runs w) r = Some s" "dget (w_runs ?hop) r = Some s"
    using l by (auto simp: loaded_def split: option.splits)
  have run: "emit_transition_events cfg r n m h w = (Inr (), ?w')"
    using emit_run_plain [OF cfg s(1)] emit_run_plain [OF cfg s(2)]
    by (cases h) (simp_all add: emit_transition_events_def py_simps)
  have "quiet w ?hop" by (cases h) simp_all
  then have q: "quiet w ?w'" using quiet_log by (rule quiet_trans)
  have "world_ok w" using l by (simp add: loaded_def)
  then have "loaded r s ?w'"
    by (rule quiet_loaded [OF q world_ok_step [OF ev.pres_emit_transition_events _ run] l])
  then show ?thesis using q by (rule that [OF run])
qed

lemma emit_transition_events_ok:
  assumes cfg: "plain cfg" and l: "loaded r s w"
  obtains w' where "emit_transition_events cfg r n m h w = (Inr (), w')" "loaded r s w'" "place s w' = place s w"
proof (rule emit_transition_events_quiet [OF assms])
  fix w' assume e: "emit_transition_events cfg r n m h w = (Inr (), w')" "loaded r s w'" and q: "quiet w w'"
  show thesis by (rule that [OF e]) (use q in \<open>simp add: place_def quiet_def\<close>)
qed

subsection \<open>The requests of the interrupt store\<close>

text \<open>What a step does before it asks a question leaves the interrupt store alone.\<close>

definition requests_same :: "world \<Rightarrow> world \<Rightarrow> bool" where
  "requests_same w w' \<longleftrightarrow> w_intr w' = w_intr w"

interpretation req: state_relation requests_same r for r
  by unfold_locales
    (auto simp: requests_same_def pres_def write_state_run split: sum.splits option.splits)

text \<open>No request of the run is pending, or at most the one named.\<close>

definition calm :: "string \<Rightarrow> world \<Rightarrow> bool" where
  "calm r w \<longleftrightarrow> (\<forall>i q. mem_get_request (w_intr w) r i = Some q \<longrightarrow> ir_status q \<noteq> ''pending'')"

definition calm_but :: "string \<Rightarrow> string \<Rightarrow> world \<Rightarrow> bool" where
  "calm_but r j w \<longleftrightarrow>
     (\<forall>i q. mem_get_request (w_intr w) r i = Some q \<longrightarrow> i \<noteq> j \<longrightarrow> ir_status q \<noteq> ''pending'')"

lemma calm_same: "requests_same w w' \<Longrightarrow> calm r w' = calm r w"
  by (simp add: calm_def requests_same_def)

lemma quiet_requests: "quiet w w' \<Longrightarrow> requests_same w w'"
  by (simp add: quiet_def requests_same_def)

lemma plain_no_adapter: "plain no_adapter_config"
  by (simp add: no_adapter_config_def)

end
