(* ===== verification/Gate_Accounts.thy ===== *)
theory Gate_Accounts
  imports Histories Step_Outcomes
begin

section \<open>Executions and approvals on account\<close>

text \<open>
  The event log tells how often a step of a run was executed and how often it was approved. The account of a
  run relates the two to the approvals it holds; \<open>mild\<close> operations, those that record neither and gain no
  approval, keep it, whatever their outcome. \<open>Gatekeeping\<close> carries it through the loop and the entry points.
\<close>

subsection \<open>Counting executions and approvals\<close>

definition starts :: "string \<Rightarrow> string \<Rightarrow> audit_event \<Rightarrow> bool" where
  "starts r n e \<longleftrightarrow> ev_run_id e = r \<and> ev_step_name e = Some n \<and>
     ev_event_type e \<in> {TOOL_EXECUTION_STARTED, AGENT_ENTERED}"

definition grants :: "string \<Rightarrow> string \<Rightarrow> audit_event \<Rightarrow> bool" where
  "grants r n e \<longleftrightarrow> ev_run_id e = r \<and> ev_step_name e = Some n \<and> ev_event_type e = APPROVAL_GRANTED"

definition executions :: "string \<Rightarrow> string \<Rightarrow> audit_event list \<Rightarrow> nat" where
  "executions r n es = length (filter (starts r n) es)"

definition approvals_given :: "string \<Rightarrow> string \<Rightarrow> audit_event list \<Rightarrow> nat" where
  "approvals_given r n es = length (filter (grants r n) es)"

definition metered :: "string set \<Rightarrow> audit_event list \<Rightarrow> bool" where
  "metered G es \<longleftrightarrow> (\<forall>fs r n. prefix fs es \<and> n \<in> G \<longrightarrow> executions r n fs \<le> approvals_given r n fs)"

abbreviation loud :: "event_type set" where
  "loud \<equiv> {TOOL_EXECUTION_STARTED, AGENT_ENTERED, APPROVAL_GRANTED}"

lemma count_snoc [simp]:
  "executions r n (es @ [e]) = executions r n es + of_bool (starts r n e)"
  "approvals_given r n (es @ [e]) = approvals_given r n es + of_bool (grants r n e)"
  by (simp_all add: executions_def approvals_given_def)

lemma quiet_counts:
  assumes "ev_event_type ` set fs \<subseteq> - loud"
  shows "executions r n (es @ fs) = executions r n es" "approvals_given r n (es @ fs) = approvals_given r n es"
proof -
  have "filter (starts r n) fs = []" "filter (grants r n) fs = []"
    using assms by (auto simp: filter_empty_conv starts_def grants_def)
  then show "executions r n (es @ fs) = executions r n es" "approvals_given r n (es @ fs) = approvals_given r n es"
    by (simp_all add: executions_def approvals_given_def)
qed

lemma metered_snoc:
  "metered G (es @ [e]) \<longleftrightarrow>
   metered G es \<and> (\<forall>r n. n \<in> G \<longrightarrow> executions r n (es @ [e]) \<le> approvals_given r n (es @ [e]))"
  unfolding metered_def prefix_snoc by (auto simp del: count_snoc)

lemma metered_whole: "metered G es \<Longrightarrow> n \<in> G \<Longrightarrow> executions r n es \<le> approvals_given r n es"
  by (simp add: metered_def)

lemma metered_quiet:
  assumes "metered G es" "ev_event_type ` set fs \<subseteq> - loud"
  shows "metered G (es @ fs)"
  using assms(2)
proof (induction fs rule: rev_induct)
  case (snoc e fs)
  then have fs: "metered G (es @ fs)" and q: "ev_event_type ` set (fs @ [e]) \<subseteq> - loud" by auto
  have "executions r n ((es @ fs) @ [e]) \<le> approvals_given r n ((es @ fs) @ [e])" if "n \<in> G" for r n
    using quiet_counts [OF q, of r n es] metered_whole [OF assms(1) that] by (simp del: count_snoc)
  with fs have "metered G ((es @ fs) @ [e])" unfolding metered_snoc by blast
  then show ?case by simp
qed (simp add: assms(1))

text \<open>The account of run \<open>r\<close> covers the steps in \<open>A\<close> once more.\<close>

definition covered :: "string set \<Rightarrow> audit_event list \<Rightarrow> string \<Rightarrow> string set \<Rightarrow> bool" where
  "covered G es r A \<longleftrightarrow> (\<forall>n \<in> G. executions r n es + of_bool (n \<in> A) \<le> approvals_given r n es)"

lemma covered_mono: "covered G es r A \<Longrightarrow> B \<subseteq> A \<Longrightarrow> covered G es r B"
  unfolding covered_def by (meson in_mono le_trans add_left_mono of_bool_eq_iff of_bool_less_eq_iff)

lemma covered_quiet: "ev_event_type ` set fs \<subseteq> - loud \<Longrightarrow> covered G (es @ fs) r A = covered G es r A"
  by (simp add: covered_def quiet_counts)

lemma covered_other: "ev_run_id e \<noteq> r \<Longrightarrow> covered G (es @ [e]) r A = covered G es r A"
  by (simp add: covered_def starts_def grants_def)

lemma covered_none: "metered G es \<Longrightarrow> covered G es r {}"
  by (simp add: covered_def metered_whole)

subsection \<open>The account of a runtime\<close>

abbreviation waiting :: "run_status set" where
  "waiting \<equiv> {WAITING_APPROVAL, WAITING_INTERRUPT}"

text \<open>What a run that can be resumed owes. A run that waits for approval may still hold the approval of the
  step it waits at: its executor has run and asked for another one.\<close>

definition settled :: "string set \<Rightarrow> audit_event list \<Rightarrow> string \<Rightarrow> run_state \<Rightarrow> bool" where
  "settled G es q s \<longleftrightarrow>
     (rs_status s = WAITING_INTERRUPT \<longrightarrow> covered G es q (approvals s)) \<and>
     (rs_status s = WAITING_APPROVAL \<longrightarrow>
        (\<exists>p. rs_pending_approval s = Some p \<and> rs_current_step s = Some (ar_step_name p) \<and>
           covered G es q (approvals s - {ar_step_name p})))"

text \<open>A stored run is cached, under its own id.\<close>

definition backed :: "world \<Rightarrow> bool" where
  "backed w \<longleftrightarrow>
     (\<forall>q. get (w_store w) q \<noteq> None \<longrightarrow> dget (w_runs w) q \<noteq> None) \<and>
     (\<forall>q s. dget (w_runs w) q = Some s \<longrightarrow> rs_run_id s = q)"

definition others_settled :: "string set \<Rightarrow> string set \<Rightarrow> world \<Rightarrow> bool" where
  "others_settled G Q w \<longleftrightarrow> backed w \<and> metered G (w_audit w) \<and>
     (\<forall>q s. q \<notin> Q \<longrightarrow> dget (w_runs w) q = Some s \<longrightarrow> settled G (w_audit w) q s)"

definition ledger :: "string set \<Rightarrow> world \<Rightarrow> bool" where
  "ledger G = others_settled G {}"

text \<open>The account of run \<open>r\<close> while an operation works on it: its status is none of \<open>F\<close>; of the approvals
  it holds those of \<open>X\<close> are used, and those of \<open>Y\<close> will be.\<close>

definition account ::
  "string set \<Rightarrow> string \<Rightarrow> run_status set \<Rightarrow> string set \<Rightarrow> string set \<Rightarrow> world \<Rightarrow> bool" where
  "account G r F X Y w \<longleftrightarrow> others_settled G {r} w \<and>
     (\<exists>s. dget (w_runs w) r = Some s \<and> rs_status s \<notin> F \<and>
        covered G (w_audit w) r (approvals s - X \<union> Y))"

lemma account_weaken:
  "account G r F X Y w \<Longrightarrow> F' \<subseteq> F \<Longrightarrow> X \<subseteq> X' \<Longrightarrow> Y' \<subseteq> Y \<Longrightarrow> account G r F' X' Y' w"
  unfolding account_def by (blast intro: covered_mono)

lemma ledgerI:
  assumes "others_settled G {r} w" "\<And>s. dget (w_runs w) r = Some s \<Longrightarrow> settled G (w_audit w) r s"
  shows "ledger G w"
  unfolding ledger_def others_settled_def
proof (intro conjI allI impI)
  show "settled G (w_audit w) q s" if "dget (w_runs w) q = Some s" for q s
    using assms that by (cases "q = r") (auto simp: others_settled_def)
qed (use assms in \<open>simp_all add: others_settled_def\<close>)

text \<open>At rest: a run that does not wait owes nothing; one that waits for no approval owes nothing that it
  has not an approval for.\<close>

lemma account_ledger:
  assumes "account G r F X Y w" "waiting \<subseteq> F \<or> F = {WAITING_APPROVAL} \<and> X = {}"
  shows "ledger G w"
proof (rule ledgerI)
  show "others_settled G {r} w" using assms(1) by (simp add: account_def)
  show "settled G (w_audit w) r s" if "dget (w_runs w) r = Some s" for s
    using assms that by (auto simp: account_def settled_def intro: covered_mono)
qed

text \<open>A run state put in the place of another, or of none.\<close>

lemma account_set_run:
  assumes "others_settled G {r} w" "rs_run_id s = r" "rs_status s \<notin> F" "covered G (w_audit w) r (approvals s - X \<union> Y)"
  shows "account G r F X Y (set_run r s w)"
proof -
  have "others_settled G {r} (set_run r s w)"
    using assms(1,2) by (auto simp: others_settled_def backed_def)
  with assms(3,4) show ?thesis by (simp add: account_def)
qed

subsection \<open>Operations that start nothing and approve nothing\<close>

text \<open>\<open>mild K r\<close>: only run \<open>r\<close> is changed, it gains no approval, starts to wait at most with a status of \<open>K\<close>, and
  neither an execution nor an approval is recorded.\<close>

definition mild :: "run_status set \<Rightarrow> string \<Rightarrow> world \<Rightarrow> world \<Rightarrow> bool" where
  "mild K r w w' \<longleftrightarrow> only_events (- loud) w w' \<and> (backed w \<longrightarrow> backed w') \<and>
     (\<forall>q. q \<noteq> r \<longrightarrow> dget (w_runs w') q = dget (w_runs w) q) \<and>
     (\<forall>s. dget (w_runs w) r = Some s \<longrightarrow> (\<exists>s'. dget (w_runs w') r = Some s' \<and> approvals s' \<subseteq> approvals s \<and>
        (rs_status s' \<in> K \<or> rs_status s' \<notin> waiting \<or> rs_status s' = rs_status s)))"

interpretation mild: step_relation "mild K r" for K r
proof
  show "mild K r w w" for w by (auto simp: mild_def only.R_refl)
  show "mild K r u w" if "mild K r u v" "mild K r v w" for u v w
  proof -
    have "only_events (- loud) u w" using that only.R_trans unfolding mild_def by blast
    moreover have "\<exists>s''. dget (w_runs w) r = Some s'' \<and> approvals s'' \<subseteq> approvals s \<and>
        (rs_status s'' \<in> K \<or> rs_status s'' \<notin> waiting \<or> rs_status s'' = rs_status s)"
      if s: "dget (w_runs u) r = Some s" for s
    proof -
      obtain s' where s': "dget (w_runs v) r = Some s'" "approvals s' \<subseteq> approvals s"
        "rs_status s' \<in> K \<or> rs_status s' \<notin> waiting \<or> rs_status s' = rs_status s"
        using \<open>mild K r u v\<close> s unfolding mild_def by blast
      obtain s'' where "dget (w_runs w) r = Some s''" "approvals s'' \<subseteq> approvals s'"
        "rs_status s'' \<in> K \<or> rs_status s'' \<notin> waiting \<or> rs_status s'' = rs_status s'"
        using \<open>mild K r v w\<close> s'(1) unfolding mild_def by blast
      with s'(2,3) show ?thesis by (intro exI [of _ s'']) auto
    qed
    ultimately show ?thesis using that unfolding mild_def by simp
  qed
qed

text \<open>What a mild operation does to the account.\<close>

lemma mild_account:
  assumes m: "mild K r w w'" and a: "account G r F X Y w" and F: "F \<subseteq> waiting" "F \<inter> K = {}"
  shows "account G r F X Y w'"
proof -
  obtain fs where fs: "w_audit w' = w_audit w @ fs" "ev_event_type ` set fs \<subseteq> - loud"
    using m unfolding mild_def only_events_def by blast
  obtain s where s: "dget (w_runs w) r = Some s" "rs_status s \<notin> F" "covered G (w_audit w) r (approvals s - X \<union> Y)"
    and o: "others_settled G {r} w" using a unfolding account_def by blast
  obtain s' where s': "dget (w_runs w') r = Some s'" "approvals s' \<subseteq> approvals s"
    "rs_status s' \<in> K \<or> rs_status s' \<notin> waiting \<or> rs_status s' = rs_status s"
    using m s(1) unfolding mild_def by blast
  have "settled G (w_audit w') q = settled G (w_audit w) q" for q
    by (simp add: fun_eq_iff settled_def fs(1) covered_quiet [OF fs(2)])
  with o m have "others_settled G {r} w'"
    by (simp add: others_settled_def mild_def fs(1) metered_quiet [OF _ fs(2)])
  moreover have "covered G (w_audit w') r (approvals s' - X \<union> Y)"
    unfolding fs(1) covered_quiet [OF fs(2)] using s(3) s'(2) by (blast intro: covered_mono)
  moreover have "rs_status s' \<notin> F" using s(2) s'(3) F by auto
  ultimately show ?thesis using s'(1) unfolding account_def by blast
qed

lemma mild_step: "pres (mild K r) m \<Longrightarrow> m w = (x, w') \<Longrightarrow> account G r F X Y w \<Longrightarrow> F \<subseteq> waiting \<Longrightarrow> F \<inter> K = {} \<Longrightarrow>
    account G r F X Y w'"
  using mild_account [of K r w w' G F X Y] presD [of "mild K r" m w x w'] by simp

lemma mild_more: "pres (mild {} r) m \<Longrightarrow> pres (mild K r) m"
  unfolding pres_def mild_def by blast

text \<open>The approvals are one entry of the metadata.\<close>

lemma approvals_key:
  "dget (rs_metadata s') ''approved_steps'' = dget (rs_metadata s) ''approved_steps'' \<Longrightarrow> approvals s' = approvals s"
  by (simp add: approvals_def approved_steps_def dget_or_def)

lemma mild_update:
  assumes "\<And>s. rs_run_id (f s) = rs_run_id s" "\<And>s. approvals (f s) \<subseteq> approvals s"
    and "\<And>s. rs_status (f s) \<in> K \<or> rs_status (f s) \<notin> waiting \<or> rs_status (f s) = rs_status s"
  shows "pres (mild K r) (update_state r f)"
  using assms
  by (auto simp: pres_def update_state_def py_simps mild_def only_events_same backed_def only.R_refl split: option.splits)

lemma mild_update_key:
  assumes "\<And>s. rs_run_id (f s) = rs_run_id s"
    and "\<And>s. dget (rs_metadata (f s)) ''approved_steps'' = dget (rs_metadata s) ''approved_steps''"
    and "\<And>s. rs_status (f s) \<in> K \<or> rs_status (f s) \<notin> waiting \<or> rs_status (f s) = rs_status s"
  shows "pres (mild K r) (update_state r f)"
  using assms by (intro mild_update) (auto dest: approvals_key)

lemma mild_modify:
  "(\<And>w. w_runs (g w) = w_runs w \<and> get (w_store (g w)) = get (w_store w) \<and> w_audit (g w) = w_audit w) \<Longrightarrow>
   pres (mild K r) (modify g)"
  by (auto simp: pres_def py_simps mild_def only_events_same backed_def)

lemma mild_emit_event: "plain cfg \<Longrightarrow> ev \<notin> loud \<Longrightarrow> pres (mild K r) (emit_event cfg q th wn ev st p)"
  by (auto simp: pres_def emit_event_plain mild_def only_events_def backed_def)

lemma mild_known_run [pres_intros]: "pres (mild K r) (known_run r)"
  by (auto simp: pres_def known_run_def mild_def only_events_same backed_def split: option.splits)

lemma mild_emit_audit: "plain cfg \<Longrightarrow> ev \<notin> loud \<Longrightarrow> pres (mild K r) (emit_audit cfg r wn ev st p)"
  unfolding emit_audit_def by (intro pres_intros mild_emit_event)

lemma mild_emit: "plain cfg \<Longrightarrow> ev \<notin> loud \<Longrightarrow> pres (mild K r) (emit_run cfg r ev st p)"
  unfolding emit_run_def state_of_def by (intro pres_intros mild_emit_audit)

lemma mild_state_of [pres_intros]: "pres (mild K r) (state_of q)"
  unfolding state_of_def by (rule mild.pres_gets)

lemma mild_now [pres_intros]: "pres (mild K r) now_of"
  unfolding now_of_def by (rule mild.pres_gets)

lemma mild_fresh [pres_intros]: "pres (mild K r) fresh_uuid"
  by (auto simp: pres_def fresh_uuid_def mild_def only_events_same backed_def)

lemma mild_touch [pres_intros]: "pres (mild K r) (touch_state r)"
  unfolding touch_state_def by (intro pres_intros mild_update_key) simp_all

lemma mild_write [pres_intros]: "pres (mild K r) (write_state r)"
proof -
  have a: "approvals (cleared s) = approvals s" "approvals (written u old (cleared s)) = approvals s" for s u old
    by (rule approvals_key; simp)+
  have p: "get st' = (get st)(rs_run_id s \<mapsto> s') \<and> s' = written u (get st (rs_run_id s)) s"
    if "put u s st = Inr (s', st')" for u s st s' st'
    using put_get [OF that] by (auto intro: put_InrE [OF that])
  show ?thesis
    by (auto simp: pres_def write_state_run mild_def only_events_same backed_def a dest!: p
        split: option.splits sum.splits)
qed

lemma mild_clear [pres_intros]: "pres (mild K r) (clear_active_run q)"
  unfolding clear_active_run_def by (intro pres_intros mild_modify) simp

lemma mild_register [pres_intros]: "pres (mild K r) (register_active_run q)"
  unfolding register_active_run_def by (intro pres_intros mild_modify) simp

lemma mild_persist: "plain cfg \<Longrightarrow> pres (mild K r) (persist_state cfg r)"
  unfolding persist_state_def by (intro pres_intros mild_emit) simp_all

lemma mild_evaluate_policies: "plain cfg \<Longrightarrow> pres (mild K r) (evaluate_policies cfg wk r st ctx)"
  unfolding evaluate_policies_def evaluate_policy_def Let_def by (intro pres_intros mild_emit) simp_all

lemma mild_lift_bnd: "(\<And>x. a = Inr x \<Longrightarrow> pres (mild K r) (f x)) \<Longrightarrow> pres (mild K r) (bnd (lift_res a) f)"
  by (cases a) (simp_all add: pres_def py_simps mild.R_refl)

subsection \<open>User code that leaves the approvals alone\<close>

primrec spares :: "string \<Rightarrow> 'r prog \<Rightarrow> bool" where
  "spares k (Return x) \<longleftrightarrow> True"
| "spares k (Throw e) \<longleftrightarrow> True"
| "spares k (Elapse n p) \<longleftrightarrow> spares k p"
| "spares k (GetArtifact a d f) \<longleftrightarrow> (\<forall>x. spares k (f x))"
| "spares k (RequireArtifact a f) \<longleftrightarrow> (\<forall>x. spares k (f x))"
| "spares k (ArtifactsSnapshot f) \<longleftrightarrow> (\<forall>x. spares k (f x))"
| "spares k (GetChannel c d f) \<longleftrightarrow> (\<forall>x. spares k (f x))"
| "spares k (ChannelsSnapshot f) \<longleftrightarrow> (\<forall>x. spares k (f x))"
| "spares k (SetMetadata key v f) \<longleftrightarrow> key \<noteq> k \<and> (\<forall>x. spares k (f x))"
| "spares k (GetMetadata key d f) \<longleftrightarrow> (\<forall>x. spares k (f x))"
| "spares k (ResolveSecret key f) \<longleftrightarrow> (\<forall>x. spares k (f x))"
| "spares k (MemoryRead key sc t f) \<longleftrightarrow> (\<forall>x. spares k (f x))"
| "spares k (MemoryWrite key v sc t f) \<longleftrightarrow> (\<forall>x. spares k (f x))"
| "spares k (MemoryDelete key sc t f) \<longleftrightarrow> (\<forall>x. spares k (f x))"
| "spares k (MemorySearch q sc t f) \<longleftrightarrow> (\<forall>x. spares k (f x))"
| "spares k (UseTool n p f) \<longleftrightarrow> (\<forall>x. spares k (f x))"
| "spares k (ToolCallsUsed f) \<longleftrightarrow> (\<forall>x. spares k (f x))"

definition honest_tool :: "tool \<Rightarrow> bool" where
  "honest_tool t \<longleftrightarrow> (\<forall>d. spares ''approved_steps'' (t_handler t d))"

definition honest_executor :: "executor \<Rightarrow> bool" where
  "honest_executor x \<longleftrightarrow>
     (case x of
        ToolExec t \<Rightarrow> honest_tool t
      | AgentExec a \<Rightarrow> (\<forall>task. spares ''approved_steps'' (a_handler a task)))"

definition honest_tools :: "tool_registry \<Rightarrow> bool" where
  "honest_tools g \<longleftrightarrow> (\<forall>t \<in> set (dvalues (tg_tools g)). honest_tool t)"

lemma honest_get_tool: "honest_tools g \<Longrightarrow> get_tool g n = Inr t \<Longrightarrow> honest_tool t"
  by (auto simp: honest_tools_def get_tool_def get_tool_version_def dvalues_def split: option.splits
      dest!: map_of_SomeD)

lemma mild_set_metadata: "k \<noteq> ''approved_steps'' \<Longrightarrow> pres (mild K r) (set_metadata r k v)"
  unfolding set_metadata_def by (intro mild_update_key) simp_all

lemma mild_get_metadata [pres_intros]: "pres (mild K r) (get_metadata q k v)"
  unfolding get_metadata_def by (rule mild.pres_gets)

lemma mild_elapse [pres_intros]: "pres (mild K r) (elapse n)"
  unfolding elapse_def by (intro mild_modify) simp

lemma mild_resolve_secret [pres_intros]: "pres (mild K r) (resolve_secret cfg key)"
  unfolding resolve_secret_def by (intro pres_intros mild_modify) simp

lemma mild_zoom [pres_intros]:
  "pres (mild K r) (zoom w_memory put_memory m)" "pres (mild K r) (zoom w_intr put_intr n)"
  by (auto simp: pres_def zoom_def split_beta mild_def only_events_same backed_def)

lemma mild_context_memory:
  assumes "plain cfg"
  shows "pres (mild K r) (mo_read (context_memory cfg cx) k sc t)"
    "pres (mild K r) (mo_write (context_memory cfg cx) k v sc t)"
    "pres (mild K r) (mo_delete (context_memory cfg cx) k sc t)"
    "pres (mild K r) (mo_search (context_memory cfg cx) q sc t)"
  using assms
  unfolding context_memory_def scoped_ops_def auditing_ops_def world_memory_def Let_def
    audit_read_def audit_write_def audit_delete_def audit_search_def emit_memory_def
  by (simp_all, (intro pres_intros mild_emit_event; simp)+)

lemma mild_tool_prog:
  assumes "plain cfg" "cx_metadata cx = r"
  shows "spares ''approved_steps'' p \<Longrightarrow> pres (mild K r) (tool_prog cfg cx p)"
  by (induction p) (auto simp: assms intro!: pres_intros mild_set_metadata mild_context_memory)

lemma mild_agent_prog:
  assumes call: "\<And>name payload. pres (mild K r) (call name payload)" and cx: "cx_metadata (acx_base acx) = r"
  shows "spares ''approved_steps'' p \<Longrightarrow> pres (mild K r) (agent_prog acx call p used)"
  by (induction p arbitrary: used)
    (auto simp: cx intro!: pres_intros call mild_set_metadata simp del: attempt_run split: sum.split)

subsection \<open>Executors\<close>

text \<open>Under an honest workflow only the first event of an executor counts.\<close>

lemma mild_with_context:
  assumes "\<And>cx. cx_metadata cx = r \<Longrightarrow> pres (mild K r) (f cx)"
  shows "pres (mild K r) (bnd (make_context r step_name) f)"
  using assms by (simp add: pres_def make_context_def py_simps state_of_def)

lemma mild_remote_call [pres_intros]: "pres (mild K r) (remote_call cfg f check q)"
proof -
  have "pres (mild K r) count_call" by (auto simp: pres_def count_call_def mild_def only_events_same backed_def)
  then show ?thesis unfolding remote_call_def by (intro pres_intros)
qed

lemma mild_execute_tool_remote [pres_intros]: "pres (mild K r) (execute_tool_remote cfg q n t p)"
  unfolding execute_tool_remote_def by (intro pres_intros)

lemma mild_execute_tool:
  "plain cfg \<Longrightarrow> honest_tool t \<Longrightarrow> cx_metadata cx = r \<Longrightarrow> pres (mild K r) (execute_tool cfg cx t d)"
  unfolding execute_tool_def by (intro pres_intros mild_tool_prog) (auto simp: honest_tool_def)

text \<open>What follows the first event of \<open>run_tool\<close>, and a nested call altogether.\<close>

lemma mild_tool_rest:
  assumes "plain cfg" "honest_tool t" "\<And>pl. pres (mild K r) (done pl)"
    and "\<And>e. pres (mild K r) (failed e)"
  shows "pres (mild K r) (bnd (make_context r n) (\<lambda>cx.
         bnd (on_error
               (bnd (lift_res (should_execute_remotely cfg (t_name t) (t_placement t))) (\<lambda>remote.
                if remote then execute_tool_remote cfg r n t payload else execute_tool cfg cx t payload))
               failed) (\<lambda>output.
         bnd (lift_res (extract_command cfg output)) done)))"
  using assms by (intro mild_with_context pres_intros mild_execute_tool)

lemma mild_run_tool_nested: "plain cfg \<Longrightarrow> honest_tool t \<Longrightarrow> pres (mild K r) (run_tool cfg r n True t payload)"
  unfolding run_tool_def Let_def
  by (intro mild.pres_sq mild_tool_rest mild_emit pres_intros) simp_all

lemma mild_named_tool:
  "plain cfg \<Longrightarrow> honest_tools (wf_tools wk) \<Longrightarrow> pres (mild K r) (execute_named_tool cfg wk r n name payload)"
  unfolding execute_named_tool_def
  by (intro mild_lift_bnd pres_intros mild_evaluate_policies mild_run_tool_nested) (auto dest: honest_get_tool)

lemma mild_execute_agent:
  assumes "plain cfg" "\<And>name payload. pres (mild K r) (call name payload)" "cx_metadata (acx_base acx) = r"
    and "\<And>task. spares ''approved_steps'' (a_handler a task)"
  shows "pres (mild K r) (execute_agent cfg acx call a data)"
  unfolding execute_agent_def by (intro pres_intros mild_agent_prog assms)

lemma mild_finish_agent: "plain cfg \<Longrightarrow> pres (mild K r) (finish_agent cfg wk r n a result)"
  unfolding finish_agent_def by (intro pres_intros mild_emit) simp_all

lemma mild_finish_remote_agent: "plain cfg \<Longrightarrow> pres (mild K r) (finish_remote_agent cfg wk r n a resp)"
  unfolding finish_remote_agent_def by (intro pres_intros mild_emit) simp_all

lemma mild_case_remote_status:
  "pres (mild K r) m1 \<Longrightarrow> pres (mild K r) m2 \<Longrightarrow> pres (mild K r) m3 \<Longrightarrow> pres (mild K r) m4 \<Longrightarrow> pres (mild K r) m5 \<Longrightarrow>
   pres (mild K r) (case st of RFinal \<Rightarrow> m1 | RHandoff \<Rightarrow> m2 | RNeedsApproval \<Rightarrow> m3 | RFailed \<Rightarrow> m4 | RToolCall \<Rightarrow> m5)"
  by (cases st) simp_all

lemma mild_remote_agent_turn:
  "plain cfg \<Longrightarrow> (\<And>name payload. pres (mild K r) (call name payload)) \<Longrightarrow>
   pres (mild K r) (remote_agent_turn cfg wk r n a ad input used resume call)"
  unfolding remote_agent_turn_def by (intro pres_intros mild_case_remote_status mild_finish_remote_agent)

lemma mild_remote_agent_turns:
  assumes "plain cfg" "honest_tools (wf_tools wk)"
  shows "pres (mild K r) (remote_agent_turns left cfg wk r n a ad input used resume)"
  by (induction left arbitrary: used resume)
    (auto intro!: pres_intros mild_remote_agent_turn mild_named_tool simp: assms)

lemma mild_execute_agent_remote:
  "plain cfg \<Longrightarrow> honest_tools (wf_tools wk) \<Longrightarrow> pres (mild K r) (execute_agent_remote cfg wk r n a p)"
  unfolding execute_agent_remote_def by (intro pres_intros mild_remote_agent_turns)

text \<open>An execution uses an approval up, a grant adds one; the other runs are not concerned.\<close>

lemma event_appended: "\<exists>e. w_audit (log_event r ev st p w) = w_audit w @ [e] \<and>
    ev_run_id e = r \<and> ev_step_name e = st \<and> ev_event_type e = ev"
  by (simp add: log_event_def)

lemma start_covered:
  assumes "ev \<in> {TOOL_EXECUTION_STARTED, AGENT_ENTERED}" "covered G (w_audit w) r (A \<union> {n})"
  shows "covered G (w_audit (log_event r ev (Some n) p w)) r (A - {n})"
proof -
  obtain e where e: "w_audit (log_event r ev (Some n) p w) = w_audit w @ [e]" "ev_run_id e = r" "ev_step_name e = Some n"
    "ev_event_type e = ev" using event_appended by blast
  have "starts r m e \<longleftrightarrow> m = n" "\<not> grants r m e" for m using e assms(1) by (auto simp: starts_def grants_def)
  with assms(2) show ?thesis unfolding covered_def e(1) by (auto split: if_splits)
qed

lemma grant_covered:
  assumes "covered G (w_audit w) r (A - {n})"
  shows "covered G (w_audit (log_event r APPROVAL_GRANTED (Some n) p w)) r (A \<union> {n})"
proof -
  obtain e where e: "w_audit (log_event r APPROVAL_GRANTED (Some n) p w) = w_audit w @ [e]" "ev_run_id e = r"
    "ev_step_name e = Some n" "ev_event_type e = APPROVAL_GRANTED" using event_appended by blast
  have "grants r m e \<longleftrightarrow> m = n" "\<not> starts r m e" for m using e by (auto simp: grants_def starts_def)
  with assms show ?thesis unfolding covered_def e(1) by auto
qed

lemma others_event:
  assumes o: "others_settled G {r} w" and c: "covered G (w_audit (log_event r ev st p w)) r A"
  shows "others_settled G {r} (log_event r ev st p w)"
proof -
  let ?w1 = "log_event r ev st p w"
  obtain e where e: "w_audit ?w1 = w_audit w @ [e]" "ev_run_id e = r" using event_appended by blast
  have "metered G (w_audit ?w1)"
    unfolding e(1) metered_snoc
  proof (intro conjI allI impI)
    show "metered G (w_audit w)" using o by (simp add: others_settled_def)
    show "executions q m (w_audit w @ [e]) \<le> approvals_given q m (w_audit w @ [e])" if m: "m \<in> G" for q m
    proof (cases "q = r")
      case True
      with c m show ?thesis unfolding covered_def e(1) by (meson add_leE)
    next
      case False
      with e(2) metered_whole [OF \<open>metered G (w_audit w)\<close> m] show ?thesis by (simp add: starts_def grants_def)
    qed
  qed
  moreover have "settled G (w_audit ?w1) q = settled G (w_audit w) q" if "q \<noteq> r" for q
    using that covered_other [of e q G "w_audit w"] e(2) by (simp add: fun_eq_iff settled_def e(1))
  ultimately show ?thesis using o by (simp add: others_settled_def backed_def)
qed

lemma start_account:
  assumes cfg: "plain cfg" and a: "account G r F {} {n} w" and ev: "ev \<in> {TOOL_EXECUTION_STARTED, AGENT_ENTERED}"
  shows "\<exists>w1. emit_run cfg r ev (Some n) p w = (Inr (), w1) \<and> account G r F {n} {} w1"
proof -
  obtain s where s: "dget (w_runs w) r = Some s" "rs_status s \<notin> F" "covered G (w_audit w) r (approvals s \<union> {n})"
    and o: "others_settled G {r} w" using a unfolding account_def by auto
  note c = start_covered [OF ev s(3), of p]
  have "account G r F {n} {} (log_event r ev (Some n) p w)"
    unfolding account_def using others_event [OF o c] s c by auto
  with emit_run_plain [OF cfg s(1)] show ?thesis by blast
qed

lemma run_tool_opens:
  assumes "plain cfg" "honest_tool t"
  shows "\<exists>p rest. run_tool cfg r n False t payload = sq (emit_run cfg r TOOL_EXECUTION_STARTED (Some n) p) rest \<and>
    pres (mild K r) rest"
  unfolding run_tool_def Let_def if_False
  by (rule exI, rule exI, rule conjI, rule refl, intro mild_tool_rest mild_emit pres_intros) (simp_all add: assms)

lemma run_agent_opens:
  assumes "plain cfg" "honest_executor (AgentExec a)" "honest_tools (wf_tools wk)"
  shows "\<exists>p rest. run_agent cfg wk r n a payload = sq (emit_run cfg r AGENT_ENTERED (Some n) p) rest \<and>
    pres (mild K r) rest"
  unfolding run_agent_def Let_def
  by (rule exI, rule exI, rule conjI, rule refl,
      intro mild_with_context pres_intros mild_emit mild_finish_agent mild_execute_agent mild_execute_agent_remote mild_named_tool)
    (use assms in \<open>simp_all add: honest_executor_def\<close>)

lemma opens_account:
  assumes cfg: "plain cfg" and a: "account G r F {} {n} w" and F: "F \<subseteq> waiting"
    and ev: "ev \<in> {TOOL_EXECUTION_STARTED, AGENT_ENTERED}"
    and m: "\<exists>p rest. m = sq (emit_run cfg r ev (Some n) p) rest \<and> pres (mild {} r) rest" and x: "m w = (res, w')"
  shows "account G r F {n} {} w'"
proof -
  obtain p rest where m: "m = sq (emit_run cfg r ev (Some n) p) rest" "pres (mild {} r) rest" using m by blast
  obtain w1 where w1: "emit_run cfg r ev (Some n) p w = (Inr (), w1)" "account G r F {n} {} w1"
    using start_account [OF cfg a ev] by blast
  from x w1(1) have "rest w1 = (res, w')" by (simp add: m(1) sq_run)
  from mild_step [OF m(2) this w1(2) F] show ?thesis by simp
qed

lemma executor_account:
  assumes cfg: "plain cfg" and h: "honest_executor (sd_executor st)" "honest_tools (wf_tools wk)"
    and a: "account G r F {} {sd_name st} w" and F: "F \<subseteq> waiting"
    and x: "run_executor cfg wk r st payload w = (res, w')"
  shows "account G r F {sd_name st} {} w'"
proof (cases "sd_executor st")
  case (ToolExec t)
  obtain y where y: "run_tool cfg r (sd_name st) False t payload w = (y, w')"
    using x ToolExec by (auto simp: run_executor_def py_simps split: prod.splits sum.splits)
  have "honest_tool t" using h(1) by (simp add: ToolExec honest_executor_def)
  from opens_account [OF cfg a F _ run_tool_opens [OF cfg this] y] show ?thesis by simp
next
  case (AgentExec ag)
  have y: "run_agent cfg wk r (sd_name st) ag payload w = (res, w')"
    using x AgentExec by (simp add: run_executor_def)
  from opens_account [OF cfg a F _ run_agent_opens [OF cfg h(1) [unfolded AgentExec] h(2)] y] show ?thesis by simp
qed

subsection \<open>One iteration\<close>

lemma mild_fail_run: "plain cfg \<Longrightarrow> pres (mild K r) (fail_run cfg r n e)"
  unfolding fail_run_def by (intro pres_intros mild_update_key mild_persist mild_emit) simp_all

lemma mild_complete_run: "plain cfg \<Longrightarrow> pres (mild K r) (complete_run cfg r)"
  unfolding complete_run_def by (intro pres_intros mild_update_key mild_persist mild_emit) simp_all

lemma consume_approval_cases:
  assumes x: "consume_approval r n w = (res, w')" and s: "dget (w_runs w) r = Some s"
  obtains "w' = w" "res = Inr () \<Longrightarrow> n \<notin> approvals s"
  | md where "w' = set_run r (s\<lparr>rs_metadata := md\<rparr>) w" "approvals (s\<lparr>rs_metadata := md\<rparr>) = approvals s - {n}"
proof (cases "approved_steps s")
  case (Inl e)
  with x s show ?thesis using that(1) by (auto simp: consume_approval_def py_simps state_of_def run_of_def)
next
  case (Inr given)
  have ap: "approvals s = {m. JStr m \<in> set given}" by (simp add: approvals_def Inr)
  show ?thesis
  proof (cases "JStr n \<in> set given \<and> (\<exists>left. sorted_steps (removeAll (JStr n) given) = Inr left)")
    case True
    then obtain ss where ss: "removeAll (JStr n) given = map JStr ss"
      and left: "sorted_steps (removeAll (JStr n) given) = Inr (JList (map JStr (sorted_set ss)))"
      by (auto simp: sorted_steps_Inr)
    let ?s = "s\<lparr>rs_metadata := dset ''approved_steps'' (JList (map JStr (sorted_set ss))) (rs_metadata s)\<rparr>"
    have "w' = set_run r ?s w"
      using x s Inr True left by (simp add: consume_approval_def py_simps state_of_def run_of_def update_state_run)
    moreover have "approvals ?s = set (sorted_set ss)"
      by (rule approvals_texts) (simp add: approved_steps_def dget_or_def)
    moreover have "m \<in> set ss \<longleftrightarrow> JStr m \<in> set (removeAll (JStr n) given)" for m unfolding ss by auto
    then have "set ss = approvals s - {n}" by (auto simp: ap)
    ultimately show ?thesis using that(2) by simp
  next
    case False
    then have "w' = w \<and> (res = Inr () \<longrightarrow> n \<notin> approvals s)"
      using x s Inr by (auto simp: consume_approval_def py_simps state_of_def run_of_def ap split: sum.splits if_splits)
    with that(1) show ?thesis by blast
  qed
qed

lemma mild_consume: "pres (mild K r) (consume_approval r n)"
proof (rule presI)
  fix w res w' assume x: "consume_approval r n w = (res, w')"
  show "mild K r w w'"
  proof (cases "dget (w_runs w) r")
    case None
    with x have "w' = w"
      by (auto simp: consume_approval_def py_simps state_of_def update_state_def split: sum.splits if_splits)
    then show ?thesis by (simp add: mild.R_refl)
  next
    case (Some s)
    from x Some show ?thesis
      by (rule consume_approval_cases) (auto simp: mild.R_refl mild_def only_events_same backed_def Some)
  qed
qed

text \<open>An output that is recorded has used its approval up.\<close>

lemma record_output_account:
  assumes cfg: "plain cfg" and a: "account G r F {sd_name st} {} w" and F: "F \<subseteq> waiting"
    and x: "record_output cfg r st out cmd w = (res, w')"
  shows "account G r F {sd_name st} {} w'" and "res = Inr y \<Longrightarrow> account G r F {} {} w'"
proof -
  have "pres (mild {} r) (record_output cfg r st out cmd)"
    unfolding record_output_def apply_state_update_def update_channel_def
    by (intro pres_intros mild_update_key mild_persist mild_consume) (simp_all add: cfg)
  from mild_step [OF this x a F] show a': "account G r F {sd_name st} {} w'" by simp
  assume "res = Inr y"
  with x obtain w1 where c: "consume_approval r (sd_name st) w1 = (Inr (), w')"
    unfolding record_output_def by (auto simp: ret_run elim!: bnd_InrE sq_InrE)
  obtain s where s: "dget (w_runs w') r = Some s" using a' unfolding account_def by blast
  have "sd_name st \<notin> approvals s"
  proof (cases "dget (w_runs w1) r")
    case None
    with c s show ?thesis
      by (auto simp: consume_approval_def py_simps state_of_def update_state_def split: sum.splits if_splits)
  next
    case (Some s1)
    from c Some show ?thesis by (rule consume_approval_cases) (use s Some in auto)
  qed
  with a' s show "account G r F {} {} w'" unfolding account_def by auto
qed

lemma mild_leave_step: "plain cfg \<Longrightarrow> pres (mild {WAITING_INTERRUPT} r) (leave_step cfg wk r st out handoff cmd)"
  unfolding leave_step_def await_interrupt_def create_interrupt_request_def choose_next_def move_to_def emit_transition_events_def Let_def
  by (intro pres_intros mild_update_key mild_persist mild_emit mild_fail_run mild_complete_run mild_modify) simp_all

text \<open>A step that asks for approval keeps at most the one approval it holds itself.\<close>

lemma await_settles:
  assumes cfg: "plain cfg" and a: "account G r F {n} {} w" and n: "rs_current_step (run_of w r) = Some n" "sd_name st = n"
    and x: "await_approval cfg r st reason payload w = (res, w')"
  shows "ledger G w'"
proof -
  obtain s where s: "dget (w_runs w) r = Some s" and c: "covered G (w_audit w) r (approvals s - {n})"
    and o: "others_settled G {r} w" using a unfolding account_def by auto
  define q where "q = approval_for w r s st reason"
  let ?s = "wait_approval q payload s"
  let ?w1 = "set_run r ?s (w\<lparr>w_fresh := Suc (w_fresh w)\<rparr>)"
  let ?k = "sq (touch_state r) (sq (persist_state cfg r)
      (emit_run cfg r APPROVAL_REQUESTED (Some (sd_name st)) (approval_request_dump q)))"
  have k: "?k ?w1 = (res, w')"
    using x unfolding await_approval_run [OF s]
    by (simp add: q_def sq_run update_state_run s)
  have "approvals ?s = approvals s" by (rule approvals_key) (simp add: wait_approval_def)
  moreover have "others_settled G {r} ?w1"
    using o s by (auto simp: others_settled_def backed_def wait_approval_def)
  ultimately have a1: "account G r {} {n} {} ?w1" using c by (simp add: account_def)
  have p: "pres (mild {} r) ?k" by (intro pres_intros mild_persist mild_emit) (simp_all add: cfg)
  have a': "account G r {} {n} {} w'" by (rule mild_step [OF p k a1]) simp_all
  have f: "field_kept r f ?w1 w'" if "write_stable f" for f :: "run_state \<Rightarrow> 'b"
  proof -
    have "pres (field_kept r f) ?k" by (intro pres_intros that)
    then show ?thesis using k by (rule presD)
  qed
  have s1: "dget (w_runs ?w1) r = Some ?s" by simp
  have "rs_current_step s = Some n" using n(1) s by (simp add: run_of_def)
  then have "rs_status (run_of w' r) = WAITING_APPROVAL" "rs_pending_approval (run_of w' r) = Some q"
    "rs_current_step (run_of w' r) = Some n" "ar_step_name q = n"
    using field_keptD [OF f [of rs_status] s1] field_keptD [OF f [of rs_pending_approval] s1]
      field_keptD [OF f [of rs_current_step] s1] n(2)
    by (simp_all add: wait_approval_def q_def approval_for_def)
  moreover obtain s' where "dget (w_runs w') r = Some s'" "covered G (w_audit w') r (approvals s' - {n})"
    "others_settled G {r} w'" using a' unfolding account_def by auto
  ultimately show ?thesis
    by (intro ledgerI [of G r]) (simp_all add: settled_def run_of_def)
qed

end
