(* ===== verification/Gatekeeping.thy ===== *)
theory Gatekeeping
  imports Gate_Accounts
begin

section \<open>Every execution of a gated step has its own approval\<close>

text \<open>
  The promise of the approval gate over the whole life of a runtime: however many runs of however many
  workflows are started and resumed, in whatever order, a step that its workflow gates is never executed more
  often in a run than it was approved in that run, at any moment of the log. The exceptions are those of
  \<open>Boundaries\<close>, \<open>Races\<close> and \<open>Failures\<close>: user code that writes approvals itself (excluded by \<open>honest_tool\<close>), two
  approvals at once, and restored checkpoints (not steps of \<open>governed\<close>). The invariant is an account: executions
  so far and approvals in hand never exceed approvals given.
\<close>

subsection \<open>Guarded workflows\<close>

definition always_gated :: "step \<Rightarrow> bool" where
  "always_gated st \<longleftrightarrow>
     (case sd_approval_override st of Some b \<Rightarrow> b | None \<Rightarrow> executor_requires_approval (sd_executor st))"

definition guarded :: "string set \<Rightarrow> workflow \<Rightarrow> bool" where
  "guarded G wk \<longleftrightarrow> honest_tools (wf_tools wk) \<and>
     (\<forall>(n, st) \<in> set (wf_steps wk). sd_name st = n \<and> honest_executor (sd_executor st) \<and> (n \<in> G \<longrightarrow> always_gated st))"

lemma guarded_step:
  assumes "guarded G wk" "get_step wk n = Inr st"
  shows "sd_name st = n" "honest_executor (sd_executor st)" "honest_tools (wf_tools wk)" "n \<in> G \<Longrightarrow> always_gated st"
  using assms map_of_SomeD [OF get_step_dget [OF assms(2)]] by (auto simp: guarded_def)

lemma gate_account:
  assumes "account G r F {} {} w" "requires_approval st (run_of w r) = Inr False" "sd_name st \<in> G \<Longrightarrow> always_gated st"
  shows "account G r F {} {sd_name st} w"
proof -
  have n: "sd_name st \<in> approvals (run_of w r)" if "sd_name st \<in> G"
    using assms(2,3) that by (auto simp: requires_approval_def always_gated_def approvals_def split: sum.splits if_splits)
  have "covered G es r (A \<union> {sd_name st})" if "covered G es r A" "sd_name st \<in> G \<longrightarrow> sd_name st \<in> A" for es A
    using that by (auto simp: covered_def)
  with n assms(1) show ?thesis unfolding account_def by (auto simp: run_of_def)
qed

lemma guarded_execution_run:
  "guarded_execution cfg wk r st payload w =
     (case on_error (evaluate_policies cfg wk r (sd_name st) (gate_ctx wk st (run_of w r))) (fail_run cfg r (sd_name st)) w of
        (Inl e, w1) \<Rightarrow> (Inl e, w1)
      | (Inr _, w1) \<Rightarrow>
          (case run_executor cfg wk r st payload w1 of
             (Inr out, w2) \<Rightarrow> (Inr (Some out), w2)
           | (Inl e, w2) \<Rightarrow>
               if eclass e = ApprovalRequiredError then sq (await_approval cfg r st (exn_str e) payload) (ret None) w2
               else sq (fail_run cfg r (sd_name st) e) (raise e) w2))"
  by (simp add: guarded_execution_def gate_ctx_def Let_def bnd_run sq_run state_of_run tryc_run ret_run
      split: sum.split prod.split)

text \<open>An executor that raises: the run fails, or waits at the step for another approval.\<close>

lemma raised_ledger:
  assumes cfg: "plain cfg" and a: "account G r waiting {sd_name st} {} w"
    and n: "rs_current_step (run_of w r) = Some (sd_name st)"
    and x: "(if eclass e = ApprovalRequiredError then sq (await_approval cfg r st (exn_str e) payload) (ret None) w
        else sq (fail_run cfg r (sd_name st) e) (raise e) w) = (res :: exn + agent_outcome option, w')"
  shows "ledger G w' \<and> (\<forall>out. res \<noteq> Inr (Some out))"
proof (cases "eclass e = ApprovalRequiredError")
  case True
  then obtain v where v: "await_approval cfg r st (exn_str e) payload w = (v, w')" and res: "\<forall>out. res \<noteq> Inr (Some out)"
    using x by (auto simp: sq_run ret_run split: sum.splits prod.splits)
  with await_settles [OF cfg a n refl v] show ?thesis by simp
next
  case False
  let ?m = "sq (fail_run cfg r (sd_name st) e) (raise e) :: agent_outcome option rt"
  have m: "?m w = (res, w')" using x False by simp
  have "pres (mild {} r) ?m" by (intro pres_intros mild_fail_run cfg)
  from account_ledger [OF mild_step [OF this m a]] m show ?thesis
    by (auto simp: sq_run raise_run split: sum.splits prod.splits)
qed

lemma execution_account:
  assumes cfg: "plain cfg" and h: "honest_executor (sd_executor st)" "honest_tools (wf_tools wk)"
    and a: "account G r waiting {} {sd_name st} w" and n: "rs_current_step (run_of w r) = Some (sd_name st)"
    and x: "guarded_execution cfg wk r st payload w = (res, w')"
  shows "case res of Inr (Some out) \<Rightarrow> account G r waiting {sd_name st} {} w' | _ \<Rightarrow> ledger G w'"
proof -
  let ?p = "on_error (evaluate_policies cfg wk r (sd_name st) (gate_ctx wk st (run_of w r))) (fail_run cfg r (sd_name st))"
  obtain y w1 where p: "?p w = (y, w1)" by (rule prod.exhaust)
  have "pres (mild {} r) ?p" by (intro pres_intros mild_evaluate_policies mild_fail_run cfg)
  from mild_step [OF this p a] have a1: "account G r waiting {} {sd_name st} w1" by simp
  show ?thesis
  proof (cases y)
    case (Inl e)
    with x p have "res = Inl e" "w' = w1" by (simp_all add: guarded_execution_run)
    with account_ledger [OF a1] show ?thesis by simp
  next
    case (Inr u)
    obtain z w2 where z: "run_executor cfg wk r st payload w1 = (z, w2)" by (rule prod.exhaust)
    note a2 = executor_account [OF cfg h a1 order.refl z]
    note x2 = x [unfolded guarded_execution_run p Inr prod.case sum.case z]
    obtain s where s: "dget (w_runs w) r = Some s" using a unfolding account_def by blast
    have "evaluate_policies cfg wk r (sd_name st) (gate_ctx wk st (run_of w r)) w = (Inr u, w1)"
      using p \<open>y = Inr u\<close> by (auto simp: on_error_run split: sum.splits prod.splits)
    from presD [OF execution_keeps_run(1) this] presD [OF execution_keeps_run(2) z]
    have "body (run_of w2 r) = body s" using field_keptD [OF field.R_trans s] by blast
    from body_fields(2) [OF this] n s have n2: "rs_current_step (run_of w2 r) = Some (sd_name st)"
      by (simp add: run_of_def)
    show ?thesis
    proof (cases z)
      case (Inr out)
      with x2 a2 show ?thesis by (cases out) auto
    next
      case (Inl e)
      from raised_ledger [OF cfg a2 n2, of e payload res w'] x2 Inl show ?thesis
        by (auto split: sum.splits option.splits)
    qed
  qed
qed

text \<open>After a step: an account that can be worked on, or a runtime at rest.\<close>

definition goes_well :: "string set \<Rightarrow> string \<Rightarrow> loop_state \<Rightarrow> bool" where
  "goes_well G r c \<longleftrightarrow>
     (case c of
        (Inr (Some p), w) \<Rightarrow> account G r {WAITING_APPROVAL} {} {} w
      | (_, w) \<Rightarrow> ledger G w)"

lemma account_goes_well: "account G r {WAITING_APPROVAL} {} {} w \<Longrightarrow> goes_well G r (res, w)"
  using account_ledger [of G r "{WAITING_APPROVAL}" "{}" "{}" w]
  by (simp add: goes_well_def split: sum.split option.split)

lemma rests_well: "ledger G w \<Longrightarrow> (\<And>p. res \<noteq> Inr (Some p)) \<Longrightarrow> goes_well G r (res, w)"
  by (auto simp: goes_well_def split: sum.split option.split)

lemma execute_step_account:
  assumes cfg: "plain cfg" and h: "honest_executor (sd_executor st)" "honest_tools (wf_tools wk)"
    and a: "account G r waiting {} {sd_name st} w" and n: "rs_current_step (run_of w r) = Some (sd_name st)"
    and x: "execute_step cfg wk r st payload w = (res, w')"
  shows "goes_well G r (res, w')"
proof -
  obtain y w1 where y: "guarded_execution cfg wk r st payload w = (y, w1)" by (rule prod.exhaust)
  note e = execution_account [OF cfg h a n y]
  show ?thesis
  proof (cases "\<exists>out handoff cmd. y = Inr (Some (out, handoff, cmd))")
    case False
    then consider (raised) err where "y = Inl err" | (stopped) "y = Inr None" by (cases y; cases "projr y") auto
    then show ?thesis
    proof cases
      case raised
      with x y e show ?thesis by (intro rests_well) (auto simp: execute_step_def bnd_run)
    next
      case stopped
      with x y e show ?thesis by (intro rests_well) (auto simp: execute_step_def bnd_run ret_run)
    qed
  next
    case True
    then obtain out handoff cmd where out: "y = Inr (Some (out, handoff, cmd))" by blast
    with e have a1: "account G r waiting {sd_name st} {} w1" by simp
    obtain z w2 where z: "record_output cfg r st out cmd w1 = (z, w2)" by (rule prod.exhaust)
    note ro = record_output_account [OF cfg a1 order.refl z]
    show ?thesis
    proof (cases z)
      case (Inl e)
      with x y z out account_ledger [OF ro(1)] show ?thesis
        by (intro rests_well) (auto simp: execute_step_def bnd_run)
    next
      case (Inr so)
      with x y z out have l: "leave_step cfg wk r st so handoff cmd w2 = (res, w')" by (simp add: execute_step_def bnd_run)
      have "account G r {WAITING_APPROVAL} {} {} w2" by (rule account_weaken [OF ro(2) [OF Inr]]) auto
      from mild_step [OF mild_leave_step [OF cfg] l this] show ?thesis by (intro account_goes_well) simp
    qed
  qed
qed

text \<open>From the gate on: the artifacts are missing, the run waits, or the step is executed.\<close>

lemma gate_goes_well:
  assumes cfg: "plain cfg" and st: "get_step wk n = Inr st" "guarded G wk"
    and a: "account G r waiting {} {} w" and n: "rs_current_step (run_of w r) = Some n"
    and x: "sq (lift_res (check_artifacts (sd_name st) (rs_artifacts (run_of w r)) (sd_required_artifacts st)))
      (bnd (lift_res (requires_approval st (run_of w r))) (\<lambda>gate.
         if gate
         then sq (await_approval cfg r st
                    (''Approval required for '' @ executor_name (sd_executor st)) payload)
                 (ret None)
         else execute_step cfg wk r st payload)) w = (res, w')"
  shows "goes_well G r (res, w')"
proof -
  note g = guarded_step [OF st(2,1)]
  from x consider (raised) "w' = w"
    | (asked) v where "await_approval cfg r st (''Approval required for '' @ executor_name (sd_executor st)) payload w = (v, w')"
        "\<And>p. res \<noteq> Inr (Some p)"
    | (ran) "requires_approval st (run_of w r) = Inr False" "execute_step cfg wk r st payload w = (res, w')"
    by (auto simp: sq_run bnd_run lift_res_run ret_run split: sum.splits prod.splits if_splits)
  then show ?thesis
  proof cases
    case raised
    have "account G r {WAITING_APPROVAL} {} {} w" by (rule account_weaken [OF a]) auto
    with raised account_goes_well show ?thesis by blast
  next
    case asked
    have "account G r {} {n} {} w" by (rule account_weaken [OF a]) auto
    from await_settles [OF cfg this n g(1) asked(1)] asked(2) show ?thesis by (intro rests_well)
  next
    case ran
    have "account G r waiting {} {sd_name st} w" using gate_account [OF a ran(1)] g(1,4) by blast
    from execute_step_account [OF cfg g(2,3) this _ ran(2)] n g(1) show ?thesis by simp
  qed
qed

lemma advance_step_account:
  assumes cfg: "plain cfg" and g: "guarded G wk" and a: "account G r waiting {} {} w"
    and x: "advance_step cfg wk r payload w = (res, w')"
  shows "goes_well G r (res, w')"
proof -
  have a0: "account G r {WAITING_APPROVAL} {} {} w" by (rule account_weaken [OF a]) auto
  obtain s where s: "dget (w_runs w) r = Some s" using a unfolding account_def by blast
  then have of0: "run_of w r = s" by (simp add: run_of_def)
  consider (over) "rs_current_step s = None" | (lost) n e where "rs_current_step s = Some n" "get_step wk n = Inl e"
    | (step) n st where "rs_current_step s = Some n" "get_step wk n = Inr st"
    by (cases "rs_current_step s"; cases "get_step wk (the (rs_current_step s))") auto
  then show ?thesis
  proof cases
    case over
    then have m: "sq (complete_run cfg r) (ret None) w = (res, w')"
      using x by (simp add: advance_step_def state_of_run of0 bnd_run)
    have "pres (mild {} r) (sq (complete_run cfg r) (ret None))" by (intro pres_intros mild_complete_run cfg)
    from mild_step [OF this m a0] show ?thesis by (intro account_goes_well) simp
  next
    case lost
    with x have "w' = w" by (simp add: advance_step_def state_of_run of0 bnd_run lift_res_run)
    with a0 account_goes_well show ?thesis by blast
  next
    case step
    define w1 where "w1 = log_event r STEP_ENTERED (Some (sd_name st)) [] w"
    have e: "emit_run cfg r STEP_ENTERED (Some (sd_name st)) [] w = (Inr (), w1)"
      unfolding w1_def by (rule emit_run_plain [OF cfg s])
    have a1: "account G r waiting {} {} w1" by (rule mild_step [OF mild_emit [OF cfg, where K = "{}"] e a]) simp_all
    have n: "rs_current_step (run_of w1 r) = Some n" using step(1) of0 by (simp add: w1_def)
    show ?thesis
      by (rule gate_goes_well [OF cfg step(2) g a1 n, of payload])
        (use x step e in \<open>simp add: advance_step_def state_of_run of0 bnd_run lift_res_run sq_run\<close>)
  qed
qed

lemma advance_ledger:
  assumes cfg: "plain cfg" and g: "guarded G wk" and a: "account G r {WAITING_APPROVAL} {} {} w"
    and x: "advance cfg wk r payload w = Some (res, w')"
  shows "ledger G w'"
proof -
  obtain c where c: "while_option (looping r) (loop_body cfg wk r) (Inr (Some payload), w) = Some c"
    and w': "w' = snd c" using x by (auto simp: advance_def split: prod.splits)
  have "goes_well G r c"
  proof (rule while_option_rule [where P = "goes_well G r", OF _ c])
    show "goes_well G r (Inr (Some payload), w)" using a by (rule account_goes_well)
    show "goes_well G r (loop_body cfg wk r d)" if d: "goes_well G r d" "looping r d" for d
    proof -
      obtain p w1 where p: "d = (Inr (Some p), w1)" and l: "rs_status (run_of w1 r) = RUNNING"
        using d(2) by (auto simp: looping_def split: prod.splits sum.splits option.splits)
      have "account G r waiting {} {} w1"
        using d(1) l by (auto simp: goes_well_def p account_def run_of_def)
      from advance_step_account [OF cfg g this] show ?thesis
        by (cases "advance_step cfg wk r p w1") (simp add: loop_body_def p)
    qed
  qed
  then show ?thesis
    by (cases c) (auto simp: goes_well_def w' split: sum.splits option.splits intro: account_ledger)
qed

subsection \<open>Entry points\<close>

text \<open>What an entry point hands to the loop.\<close>

definition starts_well :: "string set \<Rightarrow> (exn + string \<times> json option) \<times> world \<Rightarrow> bool" where
  "starts_well G c \<longleftrightarrow>
     (case c of
        (Inr (r, Some p), w) \<Rightarrow> account G r {WAITING_APPROVAL} {} {} w
      | (_, w) \<Rightarrow> ledger G w)"

lemma starts_well_account:
  "account G r {WAITING_APPROVAL} {} {} w \<Longrightarrow> (\<And>r' v. res = Inr (r', v) \<Longrightarrow> r' = r) \<Longrightarrow> starts_well G (res, w)"
  using account_ledger [of G r "{WAITING_APPROVAL}" "{}" "{}" w]
  by (auto simp: starts_well_def split: sum.split option.split)

lemma starts_well_rests: "ledger G w \<Longrightarrow> (\<And>r' v. res \<noteq> Inr (r', Some v)) \<Longrightarrow> starts_well G (res, w)"
  by (auto simp: starts_well_def split: sum.split option.split)

lemma then_advance_ledger:
  assumes "plain cfg" "guarded G wk" "starts_well G (m w)" "then_advance cfg wk m w = Some (res, w')"
  shows "ledger G w'"
  using assms advance_ledger [OF assms(1,2)]
  by (auto simp: then_advance_def starts_well_def split: sum.splits prod.splits option.splits)

lemma ledger_frame:
  assumes "ledger G w" "w_runs w' = w_runs w" "get (w_store w') = get (w_store w)" "only_events (- loud) w w'"
  shows "ledger G w'"
proof -
  obtain fs where fs: "w_audit w' = w_audit w @ fs" "ev_event_type ` set fs \<subseteq> - loud"
    using assms(4) unfolding only_events_def by blast
  then show ?thesis
    using assms(1-3) metered_quiet [OF _ fs(2)]
    by (simp add: ledger_def others_settled_def backed_def settled_def covered_quiet [OF fs(2)])
qed

lemma ledger_others: "ledger G w \<Longrightarrow> others_settled G {r} w"
  by (simp add: ledger_def others_settled_def)

lemma start_run_account:
  assumes cfg: "plain cfg" and l: "ledger G w"
  shows "starts_well G (start_run cfg wk data th w)"
proof -
  define r where "r = uuid_of (w_fresh w)"
  define w1 where "w1 = put_intr (snd (bump_epoch mem_interrupt_ops r (w_intr w))) (w\<lparr>w_fresh := Suc (w_fresh w)\<rparr>)"
  have l1: "ledger G w1" by (rule ledger_frame [OF l]) (simp_all add: w1_def only_events_same)
  show ?thesis
  proof (cases "entry_step_name wk")
    case (Inl e)
    then have "start_run cfg wk data th w = (Inl e, w1)"
      by (simp add: start_run_def bnd_run open_run_run Let_def r_def w1_def)
    with l1 show ?thesis by (simp add: starts_well_def)
  next
    case (Inr entry)
    define s where "s = new_run_state r th (wf_name wk) (Some entry) (cfg_channel_defaults cfg) (w_now w)"
    have run: "start_run cfg wk data th w = begin_run cfg wk data r entry (set_run r s w1)"
      by (simp add: start_run_def bnd_run open_run_run Let_def Inr r_def [symmetric] w1_def [symmetric] s_def [symmetric])
    have "approvals s = {}" by (rule approvals_texts [of s "[]", simplified]) (simp add: s_def new_run_state_def approved_steps_def dget_or_def)
    then have a: "account G r {WAITING_APPROVAL} {} {} (set_run r s w1)"
      using l1 ledger_others [OF l1, of r] covered_none [of G "w_audit w1" r]
      by (intro account_set_run) (simp_all add: s_def new_run_state_def others_settled_def)
    obtain res w' where b: "begin_run cfg wk data r entry (set_run r s w1) = (res, w')" by (rule prod.exhaust)
    have p: "pres (mild {} r) (begin_run cfg wk data r entry)" unfolding begin_run_def
      by (intro pres_intros mild_update_key mild_persist mild_emit_audit) (simp_all add: cfg)
    have "account G r {WAITING_APPROVAL} {} {} w'" by (rule mild_step [OF p b a]) simp_all
    moreover have "res = Inr (r', v) \<Longrightarrow> r' = r" for r' v
      using b by (auto simp: begin_run_def py_simps split: sum.splits prod.splits)
    ultimately show ?thesis unfolding run b by (rule starts_well_account)
  qed
qed

text \<open>A rejected run waits no more.\<close>

lemma reject_run_ledger:
  assumes cfg: "plain cfg" and a: "account G r {} X {} w" and x: "reject_run cfg r d w = (res, w')"
  shows "ledger G w'"
proof -
  obtain s where s: "dget (w_runs w) r = Some s" using a unfolding account_def by blast
  define w1 where "w1 = log_event r APPROVAL_REJECTED (rs_current_step s) [(''reason'', JStr (or_else (ad_reason d) ''rejected''))] w"
  have e: "emit_run cfg r APPROVAL_REJECTED (rs_current_step s) [(''reason'', JStr (or_else (ad_reason d) ''rejected''))] w = (Inr (), w1)"
    unfolding w1_def by (rule emit_run_plain [OF cfg s])
  have a1: "account G r {} X {} w1" by (rule mild_step [OF mild_emit [OF cfg, where K = "{}"] e a]) simp_all
  have s1: "dget (w_runs w1) r = Some s" using s by (simp add: w1_def)
  let ?err = "or_else (ad_reason d) ''approval rejected''"
  let ?s = "s\<lparr>rs_status := FAILED, rs_error := Some ?err, rs_pending_approval := None\<rparr>"
  let ?k = "sq (touch_state r) (sq (persist_state cfg r) (sq (emit_run cfg r RUN_FAILED None [(''error'', JStr ?err)])
      (raise (Exn ApprovalRejectedError ?err)))) :: (string \<times> json option) rt"
  have k: "?k (set_run r ?s w1) = (res, w')"
    using x e s by (simp add: reject_run_def Let_def bnd_run sq_run state_of_run run_of_def update_state_run [OF s1])
  have "approvals ?s = approvals s" by (rule approvals_key) simp
  then have a2: "account G r waiting X {} (set_run r ?s w1)"
    using a1 s1 by (intro account_set_run) (auto simp: account_def others_settled_def backed_def)
  have p: "pres (mild {} r) ?k" by (intro pres_intros mild_persist mild_emit) (simp_all add: cfg)
  have "account G r waiting X {} w'" by (rule mild_step [OF p k a2]) simp_all
  then show ?thesis by (rule account_ledger) simp
qed

text \<open>An approval pays for one execution.\<close>

definition with_approved :: "json \<Rightarrow> run_state \<Rightarrow> run_state" where
  "with_approved steps s = s\<lparr>rs_metadata := ddel ''pending_input'' (dset ''approved_steps'' steps (rs_metadata s))\<rparr>"

lemma approvals_with_approved:
  assumes given: "approved_steps s = Inr given" and v: "sorted_steps (JStr n # given) = Inr v"
  shows "approvals (with_approved v s) = approvals s \<union> {n}"
proof -
  obtain ss where ss: "JStr n # given = map JStr ss" and v: "v = JList (map JStr (sorted_set ss))"
    using v unfolding sorted_steps_Inr by (elim exE conjE)
  have "approvals (with_approved v s) = set (sorted_set ss)"
    by (rule approvals_texts) (simp add: with_approved_def approved_steps_def dget_or_def v)
  moreover have "m \<in> set ss \<longleftrightarrow> JStr m \<in> set (JStr n # given)" for m unfolding ss by auto
  ultimately show ?thesis by (auto simp: approvals_def given)
qed

lemma grant_run_account:
  assumes cfg: "plain cfg" and l: "ledger G w" and s: "dget (w_runs w) r = Some s"
    and n: "rs_current_step s = Some (ar_step_name q)" and c: "covered G (w_audit w) r (approvals s - {ar_step_name q})"
    and x: "grant_run cfg r q d w = (res, w')"
  shows "starts_well G (res, w')"
proof (cases "\<exists>given steps. approved_steps s = Inr given \<and> sorted_steps (JStr (ar_step_name q) # given) = Inr steps")
  case False
  with x s have "w' = w" "\<forall>y. res \<noteq> Inr y"
    by (auto simp: grant_run_def bnd_run state_of_run run_of_def lift_res_run split: sum.splits)
  with l show ?thesis by (intro starts_well_rests) auto
next
  case True
  then obtain given v where given: "approved_steps s = Inr given"
    and v: "sorted_steps (JStr (ar_step_name q) # given) = Inr v" by blast
  let ?n = "ar_step_name q"
  let ?ev = "[(''decided_by'', opt_json (ad_decided_by d)), (''reason'', opt_json (ad_reason d))]"
  let ?k = "sq (touch_state r) (sq (persist_state cfg r) (ret (r, Some (dget_or (rs_metadata s) ''pending_input'' JNull))))"
  define s1 where "s1 = with_approved v s"
  define s2 where "s2 = s1\<lparr>rs_pending_approval := None, rs_status := RUNNING\<rparr>"
  define w0 where "w0 = set_run r s1 w"
  define w1 where "w1 = log_event r APPROVAL_GRANTED (Some ?n) ?ev w0"
  have r0: "dget (w_runs w0) r = Some s1" "dget (w_runs w1) r = Some s1" by (simp_all add: w0_def w1_def)
  have k: "?k (set_run r s2 w1) = (res, w')"
    using x n emit_run_plain [OF cfg r0(1), of APPROVAL_GRANTED "Some ?n" ?ev]
    by (simp add: grant_run_def Let_def bnd_run sq_run state_of_run run_of_def s lift_res_run given v
        update_state_run [OF s] with_approved_def [symmetric] s1_def [symmetric] w0_def [symmetric] w1_def [symmetric]
        update_state_run [OF r0(2)] s2_def)
  have "approvals s2 = approvals s1" by (rule approvals_key) (simp add: s2_def)
  then have c2: "covered G (w_audit w1) r (approvals s2)"
    using grant_covered [of G w0 r "approvals s" ?n ?ev] c approvals_with_approved [OF given v]
    by (simp add: w1_def w0_def s1_def)
  have id: "rs_run_id s1 = r" using l s by (simp add: ledger_def others_settled_def backed_def s1_def with_approved_def)
  then have "others_settled G {r} w0"
    using ledger_others [OF l, of r] by (auto simp: w0_def others_settled_def backed_def)
  from others_event [OF this c2 [unfolded w1_def]] id have a: "account G r {WAITING_APPROVAL} {} {} (set_run r s2 w1)"
    using c2 by (intro account_set_run) (simp_all add: s2_def w1_def)
  have p: "pres (mild {} r) ?k" by (intro pres_intros mild_persist cfg)
  have "account G r {WAITING_APPROVAL} {} {} w'" by (rule mild_step [OF p k a]) simp_all
  moreover have "res = Inr (r', u) \<Longrightarrow> r' = r" for r' u
    using k by (auto simp: sq_run ret_run split: sum.splits prod.splits)
  ultimately show ?thesis by (rule starts_well_account)
qed

lemma mild_resume_interrupt: "plain cfg \<Longrightarrow> pres (mild K r) (resume_interrupt cfg wk r p)"
proof -
  assume cfg: "plain cfg"
  have b: "pres (mild K r) (bump_interrupt_epoch r)"
    unfolding bump_interrupt_epoch_def by (intro mild_modify) simp
  have u: "pres (mild K r) (report_unresolved cfg r i e)" for i e
    unfolding report_unresolved_def
    by (intro pres_intros mild_emit) (cases "eclass e"; auto intro!: pres_intros mild_emit simp: cfg)
  have t: "pres (mild K r) (resume_transition cfg wk r v)" for v
    unfolding resume_transition_def emit_transition_events_def Let_def
    by (intro pres_intros mild_update_key mild_persist mild_emit mild_complete_run) (simp_all add: cfg)
  show ?thesis
    by (cases p) (simp_all add: resume_interrupt_def,
      (intro pres_intros mild_update_key mild_persist mild_emit b u t; simp add: cfg)+)
qed

lemma resume_approval_account:
  assumes cfg: "plain cfg" and l: "ledger G w" and s: "dget (w_runs w) r = Some s" "rs_status s = WAITING_APPROVAL"
    and x: "resume_approval cfg r n w = (res, w')"
  shows "starts_well G (res, w')"
proof -
  have "settled G (w_audit w) r s" using l s(1) by (simp add: ledger_def others_settled_def)
  with s(2) obtain q where q: "rs_pending_approval s = Some q" "rs_current_step s = Some (ar_step_name q)"
    "covered G (w_audit w) r (approvals s - {ar_step_name q})" by (auto simp: settled_def)
  from s have of: "run_of w r = s" by (simp add: run_of_def)
  from x q(1) consider (kept) err where "res = Inl err" "w' = w"
    | (rejected) d where "reject_run cfg r d w = (res, w')"
    | (granted) d where "grant_run cfg r q d w = (res, w')"
    by (auto simp: resume_approval_def bnd_run state_of_run of now_of_def gets_run lift_res_run raise_run
        split: resume_payload.splits sum.splits if_splits)
  then show ?thesis
  proof cases
    case kept
    with l show ?thesis by (simp add: starts_well_def)
  next
    case rejected
    have "account G r {} {ar_step_name q} {} w"
      using q(3) s ledger_others [OF l] by (simp add: account_def)
    from reject_run_ledger [OF cfg this rejected] rejected reject_run_raises show ?thesis
      by (auto intro!: starts_well_rests)
  next
    case granted
    from grant_run_account [OF cfg l s(1) q(2,3) granted] show ?thesis .
  qed
qed

lemma prepare_resume_account:
  assumes cfg: "plain cfg" and l: "ledger G w"
  shows "starts_well G (prepare_resume cfg wk r p w)"
proof (cases "dget (w_runs w) r")
  case None
  with l have "get (w_store w) r = None" by (auto simp: ledger_def others_settled_def backed_def)
  with None have "\<exists>e. prepare_resume cfg wk r p w = (Inl e, w)"
    by (simp add: prepare_resume_def load_state_def known_run_def sq_run bnd_run raise_run)
  with l show ?thesis by (auto simp: starts_well_def)
next
  case (Some s)
  then have of: "run_of w r = s" by (simp add: run_of_def)
  have ld: "load_state r w = (Inr (), w)" by (simp add: load_state_def known_run_def bnd_run ret_run Some)
  obtain res w' where x: "prepare_resume cfg wk r p w = (res, w')" by (rule prod.exhaust)
  consider (refused) err where "res = Inl err" "w' = w"
    | (approval) n where "rs_status s = WAITING_APPROVAL" "resume_approval cfg r n w = (res, w')"
    | (interrupt) n where "rs_status s = WAITING_INTERRUPT" "resume_interrupt cfg wk r n w = (res, w')"
    using x
    by (auto simp: prepare_resume_def sq_run bnd_run ld lift_res_run state_of_run of raise_run
        split: sum.splits if_splits)
  then show ?thesis
  proof cases
    case refused
    with l x show ?thesis by (simp add: starts_well_def)
  next
    case approval
    from resume_approval_account [OF cfg l Some approval] x show ?thesis by simp
  next
    case interrupt
    have a: "account G r {WAITING_APPROVAL} {} {} w"
      using l interrupt(1) Some ledger_others [OF l, of r] by (auto simp: account_def ledger_def others_settled_def settled_def)
    have "account G r {WAITING_APPROVAL} {} {} w'"
      by (rule mild_step [OF mild_resume_interrupt [OF cfg, where K = "{}"] interrupt(2) a]) simp_all
    with prepare_resume_run [of cfg wk r p w] x show ?thesis by (auto intro: starts_well_account)
  qed
qed

subsection \<open>Histories\<close>

text \<open>What an application does with a runtime whose workflows are guarded, but for restoring checkpoints.\<close>

inductive governed :: "config \<Rightarrow> string set \<Rightarrow> world \<Rightarrow> world \<Rightarrow> bool" for cfg G where
  governed_run: "guarded G wk \<Longrightarrow> run_workflow cfg wk data th w = Some (res, w') \<Longrightarrow> governed cfg G w w'"
| governed_resume: "guarded G wk \<Longrightarrow> resume_workflow cfg wk r p w = Some (res, w') \<Longrightarrow> governed cfg G w w'"
| governed_ask: "ask cfg q w = (res, w') \<Longrightarrow> governed cfg G w w'"
| governed_threads: "governed cfg G w (put_threads (snd (thread_apply x (w_threads w))) w)"
| governed_wait: "governed cfg G w (w\<lparr>w_now := w_now w + int n\<rparr>)"

lemma governed_is_step: "governed cfg G w w' \<Longrightarrow> rt_step cfg w w'"
proof (induction rule: governed.cases)
  case (governed_run wk data th w res w')
  then show ?case using rt_enter [of cfg wk "RunWorkflow data th"] by simp
next
  case (governed_resume wk r p w res w')
  then show ?case using rt_enter [of cfg wk "ResumeWorkflow r p"] by simp
next
  case (governed_ask q w res w')
  then show ?case using rt_ask by simp
next
  case (governed_threads w x)
  then show ?case using rt_threads by simp
next
  case (governed_wait w n)
  then show ?case using rt_wait by simp
qed

text \<open>A lookup loads nothing that is not cached.\<close>

definition looked_up :: "world \<Rightarrow> world \<Rightarrow> bool" where
  "looked_up w w' \<longleftrightarrow>
     w_audit w' = w_audit w \<and> (backed w \<longrightarrow> w_runs w' = w_runs w \<and> get (w_store w') = get (w_store w))"

lemma backed_frame: "w_runs w' = w_runs w \<Longrightarrow> get (w_store w') = get (w_store w) \<Longrightarrow> backed w' = backed w"
  by (simp add: backed_def)

interpretation looked_up: lookup_relation looked_up
proof
  show "looked_up u w" if "looked_up u v" "looked_up v w" for u v w
    using that backed_frame [of v u] by (simp add: looked_up_def)
  show "looked_up w (set_run r s w)" if "dget (w_runs w) r = None" "get (w_store w) r = Some s" for w r s
    using that by (auto simp: looked_up_def backed_def)
qed (simp_all add: looked_up_def)

lemma ask_ledger:
  assumes cfg: "plain cfg" and l: "ledger G w" and x: "ask cfg q w = (res, w')"
  shows "ledger G w'"
proof (cases "\<exists>t r wn. q = ArchiveThread t r wn")
  case True
  have "only_events (- loud) w w'" "w_runs w' = w_runs w" "w_store w' = w_store w"
    using x True cfg
    by (auto simp: archive_thread_def bnd_run sq_run now_of_def gets_run zoom_run emit_event_plain ret_run only_events_def
        split: sum.splits prod.splits)
  with ledger_frame [OF l] show ?thesis by simp
next
  case False
  then have "looked_up w w'" by (intro presD [OF looked_up.pres_lookup x]) blast
  moreover have "backed w" using l by (simp add: ledger_def others_settled_def)
  ultimately show ?thesis using ledger_frame [OF l] by (simp add: looked_up_def only_events_same)
qed

lemma governed_ledger: "governed cfg G w w' \<Longrightarrow> plain cfg \<Longrightarrow> ledger G w \<Longrightarrow> ledger G w'"
proof (induction rule: governed.cases)
  case (governed_run wk data th w res w')
  then show ?case
    using then_advance_ledger [of cfg G wk "start_run cfg wk data th" w] start_run_account
    by (auto simp: run_workflow_def)
next
  case (governed_resume wk r p w res w')
  then show ?case
    using then_advance_ledger [of cfg G wk "prepare_resume cfg wk r p" w] prepare_resume_account
    by (auto simp: resume_workflow_def)
next
  case (governed_ask q w res w')
  then show ?case using ask_ledger by blast
next
  case (governed_threads w x)
  then show ?case by (auto elim!: ledger_frame simp: only_events_same)
next
  case (governed_wait w n)
  then show ?case by (auto elim!: ledger_frame simp: only_events_same)
qed

lemma ledger_init: "ledger G (init_world now)"
  by (simp add: ledger_def others_settled_def backed_def init_world_def empty_run_store_def get_def metered_def
      executions_def)

lemma history_ledger: "(governed cfg G)\<^sup>*\<^sup>* w w' \<Longrightarrow> plain cfg \<Longrightarrow> ledger G w \<Longrightarrow> ledger G w'"
  by (induction rule: rtranclp_induct) (auto intro: governed_ledger)

text \<open>C5: whatever is done with a runtime from its start on, checkpoints apart: when every workflow that is run gates
  the steps named in \<open>G\<close> and no tool or agent writes approvals itself, then at every moment of the event log,
  in every run, each step of \<open>G\<close> has been executed at most as often as it was approved.\<close>

theorem gated_steps_are_paid_for:
  assumes cfg: "cfg_secrets_provider cfg = None" and h: "(governed cfg G)\<^sup>*\<^sup>* (init_world now) w"
    and fs: "prefix fs (w_audit w)" and n: "n \<in> G"
  shows "executions r n fs \<le> approvals_given r n fs"
  using history_ledger [OF h cfg ledger_init] fs n
  by (auto simp: ledger_def others_settled_def metered_def)

theorem gated_steps_are_paid_for_witness:
  "\<exists>w. (governed no_adapter_config {''b''})\<^sup>*\<^sup>* (init_world 0) w \<and>
     executions (uuid_of 0) ''b'' (w_audit w) = 1 \<and> approvals_given (uuid_of 0) ''b'' (w_audit w) = 1"
proof -
  let ?cfg = no_adapter_config and ?wk = "gated_workflow echo_tool"
  have run: "(case run_workflow ?cfg ?wk (Plain JNull) None (init_world 0) of
      Some (x, w1) \<Rightarrow>
        (case resume_workflow ?cfg ?wk (uuid_of 0) (GivenText ''approve'') w1 of
           Some (y, w) \<Rightarrow> executions (uuid_of 0) ''b'' (w_audit w) = 1 \<and> approvals_given (uuid_of 0) ''b'' (w_audit w) \<le> 1
         | None \<Rightarrow> False)
    | None \<Rightarrow> False)" by code_simp
  then obtain x w1 y w where w: "run_workflow ?cfg ?wk (Plain JNull) None (init_world 0) = Some (x, w1)"
    "resume_workflow ?cfg ?wk (uuid_of 0) (GivenText ''approve'') w1 = Some (y, w)"
    "executions (uuid_of 0) ''b'' (w_audit w) = 1" "approvals_given (uuid_of 0) ''b'' (w_audit w) \<le> 1"
    by (auto split: option.splits)
  have g: "guarded {''b''} ?wk"
    by (simp add: guarded_def gated_workflow_def echo_workflow_def echo_step_def then_step_def honest_executor_def
        honest_tool_def honest_tools_def echo_tool_def always_gated_def empty_tool_registry_def dvalues_def)
  from governed_run [OF g w(1)] governed_resume [OF g w(2)]
  have h: "(governed ?cfg {''b''})\<^sup>*\<^sup>* (init_world 0) w" by (meson converse_rtranclp_into_rtranclp r_into_rtranclp)
  have "cfg_secrets_provider ?cfg = None" by (simp add: no_adapter_config_def)
  from gated_steps_are_paid_for [OF this h prefix_order.refl, of "''b''" "uuid_of 0"] w(3,4) h show ?thesis by auto
qed

end
