(* ===== verification/Interruptions.thy ===== *)
theory Interruptions
  imports Step_Outcomes
begin

section \<open>Interrupts of a run\<close>

text \<open>
  A command can stop the run at its step with a question (\<open>_advance\<close>, \<open>_resume_interrupt\<close> in
  \<open>runtime/local.py\<close>): the request is filed in the interrupt store, the transition of the step is kept for
  later in the run's metadata, and the answer makes that transition. The theory follows a run from the question
  to the answer: in time, too late, and with a transition that turns out not to be allowed.
\<close>

lemma world_ok_put_intr: "world_ok w \<Longrightarrow> mem_interrupts_inv i \<Longrightarrow> world_ok (put_intr i w)"
  by (simp add: world_ok_def stores_ok_def ids_drawn_def cached_ok_def stored_ok_def drawn_def put_intr_def)

lemma world_ok_at [simp]: "world_ok (w\<lparr>w_now := t\<rparr>) = world_ok w"
  by (simp add: world_ok_def stores_ok_def ids_drawn_def cached_ok_def stored_ok_def drawn_def)

lemma run_of_at [simp]: "run_of (w\<lparr>w_now := t\<rparr>) r = run_of w r" "run_of (put_intr i w) r = run_of w r"
  by (simp_all add: run_of_def)

lemma put_intr_now [simp]: "w_now (put_intr i w) = w_now w"
  by (simp add: put_intr_def)

lemma world_ok_requests: "world_ok w \<Longrightarrow> mem_interrupts_inv (w_intr w)"
  by (simp add: world_ok_def stores_ok_def)

subsection \<open>The question\<close>

text \<open>A run that waits for the answer to \<open>q\<close>: the request is filed as pending under the epoch of the run.\<close>

definition asked :: "string \<Rightarrow> interrupt_request \<Rightarrow> run_state \<Rightarrow> world \<Rightarrow> bool" where
  "asked r q s w \<longleftrightarrow>
     world_ok w \<and> dget (w_runs w) r = Some s \<and> rs_status s = WAITING_INTERRUPT \<and> tidy s \<and>
     rs_pending_interrupt_id s = Some (ir_interrupt_id q) \<and>
     mem_get_request (w_intr w) r (ir_interrupt_id q) = Some q \<and>
     ir_status q = ''pending'' \<and> ir_epoch q = rs_epoch s"

text \<open>The store takes one more request of the run.\<close>

definition has_room :: "config \<Rightarrow> string \<Rightarrow> run_state \<Rightarrow> world \<Rightarrow> bool" where
  "has_room cfg r s w \<longleftrightarrow>
     int (length (fst (list_pending mem_interrupt_ops (w_now w) r (Some (rs_epoch s)) (w_intr w))))
       < cfg_max_pending cfg"

definition request_for :: "config \<Rightarrow> string \<Rightarrow> string \<Rightarrow> interrupt_instruction \<Rightarrow> world \<Rightarrow> int \<Rightarrow> interrupt_request" where
  "request_for cfg r n i w e =
     \<lparr>ir_interrupt_id = uuid_of (w_fresh w), ir_run_id = r, ir_step_name = n, ir_message = ii_message i,
      ir_context = ii_context i, ir_epoch = e, ir_created_at = w_now w,
      ir_expires_at = w_now w + (case ii_ttl_seconds i of None \<Rightarrow> cfg_default_ttl cfg | Some t \<Rightarrow> t),
      ir_status = ''pending''\<rparr>"

lemma create_interrupt_request_ok:
  assumes s: "dget (w_runs w) r = Some s" and ok: "world_ok w" and room: "has_room cfg r s w"
  obtains w' where "create_interrupt_request cfg r n i w = (Inr (request_for cfg r n i w (rs_epoch s)), w')"
    "mem_get_request (w_intr w') r (uuid_of (w_fresh w)) = Some (request_for cfg r n i w (rs_epoch s))"
    "world_ok w'" "dget (w_runs w') r = Some s" "w_now w' = w_now w" "w_store w' = w_store w"
    "calm r w \<longrightarrow> calm_but r (uuid_of (w_fresh w)) w'"
proof -
  let ?q = "request_for cfg r n i w (rs_epoch s)"
  let ?i1 = "snd (list_pending mem_interrupt_ops (w_now w) r (Some (rs_epoch s)) (w_intr w))"
  let ?i2 = "mem_save_request ?q ?i1"
  let ?w' = "put_intr ?i2 (w\<lparr>w_fresh := Suc (w_fresh w)\<rparr>)"
  have m: "0 \<le> cfg_max_pending cfg" using room by (simp add: has_room_def)
  have of: "run_of w r = s" using s by (simp add: run_of_def)
  have run: "create_interrupt_request cfg r n i w = (Inr ?q, ?w')"
    using memi.create_below_limit [OF m room [unfolded has_room_def]]
    by (simp add: create_interrupt_request_def py_simps state_of_def of now_of_def fresh_uuid_def request_for_def Let_def)
  have inv: "mem_interrupts_inv ?i1" by (rule memi.list_pending_inv [OF world_ok_requests [OF ok]])
  have ok1: "world_ok (w\<lparr>w_fresh := Suc (w_fresh w)\<rparr>)" using ev.R_fresh evolves_ok ok by blast
  have "mem_get_request ?i1 r j = map_option (mark_expired (w_now w)) (mem_get_request (w_intr w) r j)" for j
    using memi.list_pending_get [OF world_ok_requests [OF ok]] by simp
  then have "calm_but r (uuid_of (w_fresh w)) ?w'" if "calm r w"
    using that by (auto simp: calm_def calm_but_def mem_get_save request_for_def put_intr_def mark_expired_def)
  then show ?thesis
    by (intro that [OF run])
      (use world_ok_put_intr [OF ok1 mem_save_inv [OF inv]] s
        in \<open>simp_all add: mem_get_save request_for_def put_intr_def\<close>)
qed

text \<open>A run with no pending request may file one.\<close>

lemma calm_room:
  assumes "calm r w" "world_ok w" "1 \<le> cfg_max_pending cfg"
  shows "has_room cfg r s w"
proof -
  have "set (fst (list_pending mem_interrupt_ops (w_now w) r (Some (rs_epoch s)) (w_intr w))) = {}"
    using memi.list_pending_set [OF world_ok_requests [OF assms(2)]] assms(1) by (auto simp: calm_def live_def)
  with assms(3) show ?thesis by (simp add: has_room_def)
qed

lemma tidy_dset: "k \<noteq> ''approved_steps'' \<Longrightarrow> rs_metadata s' = dset k v (rs_metadata s) \<Longrightarrow> tidy s' = tidy s"
  by (simp add: tidy_def approved_steps_def dget_or_def)

lemma await_interrupt_ok:
  assumes cfg: "plain cfg" and l: "loaded r s w" and room: "has_room cfg r s w"
  obtains w' q where "await_interrupt cfg r st out h c i w = (Inr (), w')" "asked r q (run_of w' r) w'"
    "q = request_for cfg r (sd_name st) i w (rs_epoch (run_of w' r))"
    "get (w_store w') r = Some (run_of w' r)"
    "rs_metadata (run_of w' r) = dset ''pending_interrupt_resume'' (pending_resume (sd_name st) out h c) (rs_metadata s)"
    "rs_current_step (run_of w' r) = rs_current_step s" "rs_artifacts (run_of w' r) = rs_artifacts s"
    "place (run_of w' r) w' = place s w" "calm r w \<longrightarrow> calm_but r (ir_interrupt_id q) w'" "w_now w' = w_now w"
proof -
  from l have s: "dget (w_runs w) r = Some s" and ok: "world_ok w" and t: "tidy s" by (simp_all add: loaded_def)
  let ?q0 = "request_for cfg r (sd_name st) i w (rs_epoch s)"
  obtain w1 where c: "create_interrupt_request cfg r (sd_name st) i w = (Inr ?q0, w1)"
    "mem_get_request (w_intr w1) r (uuid_of (w_fresh w)) = Some ?q0"
    "world_ok w1" "dget (w_runs w1) r = Some s" "w_now w1 = w_now w" "w_store w1 = w_store w"
    "calm r w \<longrightarrow> calm_but r (uuid_of (w_fresh w)) w1"
    by (rule create_interrupt_request_ok [OF s ok room])
  let ?f = "\<lambda>s. s\<lparr>rs_pending_interrupt_id := Some (ir_interrupt_id ?q0), rs_status := WAITING_INTERRUPT,
           rs_metadata := dset ''pending_interrupt_resume''
             (pending_resume (sd_name st) out h c) (rs_metadata s)\<rparr>"
  let ?k = "bnd (state_of r) (\<lambda>s.
     let request' = ?q0\<lparr>ir_epoch := rs_epoch s\<rparr>
     in sq (perform (ir_epoch ?q0 \<noteq> rs_epoch s)
             (modify (\<lambda>w. put_intr (mem_save_request request' (w_intr w)) w)))
          (emit_run cfg r INTERRUPT_REQUESTED (Some (sd_name st)) (interrupt_payload request')))"
  have f: "same_identity s (?f s)" "state_consistent (?f s)"
    by (simp_all add: same_identity_def state_consistent_def)
  have start: "await_interrupt cfg r st out h c i w =
      sq (update_state r ?f) (sq (touch_state r) (sq (persist_state cfg r) ?k)) w1"
    using c(1) by (simp add: await_interrupt_def bnd_run [of "create_interrupt_request cfg r (sd_name st) i"])
  obtain w2 where w2: "await_interrupt cfg r st out h c i w = ?k w2"
    "dget (w_runs w2) r = Some (run_of w2 r)" "get (w_store w2) r = Some (run_of w2 r)"
    "run_of w2 r = written (uuid_of (w_fresh w1)) (get (w_store w1) r) (cleared (touch (w_now w1) (?f s)))"
    "w_intr w2 = w_intr w1" "world_ok w2"
    "\<not> terminal (rs_status (?f s)) \<Longrightarrow> st_thread_active (w_store w2) = st_thread_active (w_store w1)" "w_now w2 = w_now w1"
    unfolding start by (rule change_persist [where f = ?f and k = ?k, OF cfg c(3,4) f]) blast
  define q where "q = request_for cfg r (sd_name st) i w (rs_epoch (run_of w2 r))"
  let ?w3 = "if rs_epoch s \<noteq> rs_epoch (run_of w2 r) then put_intr (mem_save_request q (w_intr w2)) w2 else w2"
  let ?w4 = "log_event r INTERRUPT_REQUESTED (Some (sd_name st)) (interrupt_payload q) ?w3"
  have fields: "rs_status (run_of w2 r) = WAITING_INTERRUPT" "rs_pending_interrupt_id (run_of w2 r) = Some (ir_interrupt_id q)"
    "rs_metadata (run_of w2 r) = dset ''pending_interrupt_resume'' (pending_resume (sd_name st) out h c) (rs_metadata s)"
    "rs_current_step (run_of w2 r) = rs_current_step s" "rs_artifacts (run_of w2 r) = rs_artifacts s"
    "place (run_of w2 r) w2 = place s w"
    using w2(7) c(6) by (simp_all add: w2(4) q_def request_for_def place_def terminal_def)
  have t2: "tidy (run_of w2 r)" using t tidy_dset [OF _ fields(3)] by simp
  have s3: "dget (w_runs ?w3) r = Some (run_of w2 r)" using w2(2) by simp
  have ok3: "world_ok ?w3"
    using w2(6) world_ok_put_intr [OF w2(6) mem_save_inv [OF world_ok_requests [OF w2(6)]]] by simp
  note e = emit_run_plain [OF cfg s3, of INTERRUPT_REQUESTED "Some (sd_name st)" "interrupt_payload q"]
  have q: "?q0\<lparr>ir_epoch := rs_epoch (run_of w2 r)\<rparr> = q" "ir_epoch ?q0 = rs_epoch s" "ir_status q = ''pending''"
    "ir_epoch q = rs_epoch (run_of w2 r)" "ir_run_id q = r" "ir_interrupt_id q = uuid_of (w_fresh w)"
    by (simp_all add: request_for_def q_def)
  have run: "?k w2 = (Inr (), ?w4)"
    using e by (auto simp: py_simps state_of_def q Let_def perform_def)
  have "rs_epoch s = rs_epoch (run_of w2 r) \<Longrightarrow> ?q0 = q" by (simp add: q_def)
  then have "mem_get_request (w_intr ?w3) r (ir_interrupt_id q) = Some q"
    using c(2) w2(5) by (simp add: mem_get_save q)
  moreover have of: "run_of ?w3 r = run_of w2 r" by simp
  ultimately have asked: "asked r q (run_of ?w4 r) ?w4"
    using w2(2) fields(1,2) t2 q(3,4) world_ok_step [OF ev.pres_emit_run ok3 e] by (simp add: asked_def)
  have same: "q = request_for cfg r (sd_name st) i w (rs_epoch (run_of ?w4 r))" by (simp add: q_def)
  have calm: "calm r w \<longrightarrow> calm_but r (ir_interrupt_id q) ?w4"
    using c(7) w2(5) by (auto simp: calm_but_def mem_get_save q put_intr_def)
  show ?thesis
    by (rule that [OF w2(1) [unfolded run] asked same _ _ _ _ _ calm])
      (use w2(3,8) c(5) fields in \<open>simp_all add: place_def\<close>)
qed

subsection \<open>The answer\<close>

lemma prepare_resume_asked:
  assumes a: "asked r q s w" and p: "normalize_resume_payload cfg p = Inr pl"
  shows "prepare_resume cfg wk r p w = resume_interrupt cfg wk r pl w"
  using a p
  by (simp add: asked_def prepare_resume_def load_state_def known_run_def py_simps state_of_def run_of_def)

text \<open>Once resolved, the request is resolved for good and the run is RUNNING again, at the step it was at.\<close>

definition answered :: "string \<Rightarrow> interrupt_request \<Rightarrow> run_state \<Rightarrow> run_state \<Rightarrow> world \<Rightarrow> bool" where
  "answered r q s s' w \<longleftrightarrow>
     loaded r s' w \<and> get (w_store w) r = Some s' \<and> rs_pending_interrupt_id s' = None \<and>
     rs_metadata s' = rs_metadata s \<and> rs_current_step s' = rs_current_step s \<and>
     rs_artifacts s' = rs_artifacts s \<and> rs_completed_steps s' = rs_completed_steps s \<and>
     mem_get_request (w_intr w) r (ir_interrupt_id q) = Some (q\<lparr>ir_status := ''resolved''\<rparr>)"

lemma answer_ok:
  assumes cfg: "plain cfg" and a: "asked r q s w" and t: "w_now w < ir_expires_at q"
    and p: "normalize_resume_payload cfg p = Inr (ResumeInterrupt (ir_interrupt_id q) v ep)"
    and ep: "ep = None \<or> ep = Some (rs_epoch s)"
  obtains w' where "prepare_resume cfg wk r p w = resume_transition cfg wk r v w'"
    "answered r q s (run_of w' r) w'" "place (run_of w' r) w' = place s w"
    "calm_but r (ir_interrupt_id q) w \<longrightarrow> calm r w'"
proof -
  from a have s: "dget (w_runs w) r = Some s" and ok: "world_ok w" and q: "rs_pending_interrupt_id s = Some (ir_interrupt_id q)"
    "mem_get_request (w_intr w) r (ir_interrupt_id q) = Some q" and lv: "live (w_now w) (Some (rs_epoch s)) q"
    using t by (simp_all add: asked_def live_def)
  have of: "run_of w r = s" using s by (simp add: run_of_def)
  have rid: "ir_run_id q = r" using mem_get_key [OF world_ok_requests [OF ok] q(2)] by simp
  let ?i = "mem_save_request (q\<lparr>ir_status := ''resolved''\<rparr>) (w_intr w)"
  let ?f = "\<lambda>s. s\<lparr>rs_pending_interrupt_id := None, rs_status := RUNNING\<rparr>"
  let ?w1 = "put_intr ?i w"
  let ?w2 = "put_intr (snd (bump_epoch mem_interrupt_ops r ?i)) (set_run r (?f s) ?w1)"
  let ?ev = "\<lambda>s. emit_run cfg r INTERRUPT_RESOLVED (rs_current_step s)
        [(''interrupt_id'', JStr (ir_interrupt_id q)), (''response'', v)]"
  let ?k = "bnd (state_of r) (\<lambda>s. sq (?ev s) (resume_transition cfg wk r v))"
  have ok1: "world_ok ?w1"
    by (rule world_ok_put_intr [OF ok mem_save_inv [OF world_ok_requests [OF ok]]])
  have s1: "dget (w_runs ?w1) r = Some s" using s by simp
  have "world_ok (set_run r (?f s) ?w1)" by (rule world_ok_set_run [OF ok1 s1]) (simp add: same_identity_def)
  then have ok2: "world_ok ?w2"
    by (rule world_ok_put_intr) (rule memi.bump_epoch_inv [OF mem_save_inv [OF world_ok_requests [OF ok]]])
  have s2: "dget (w_runs ?w2) r = Some (?f s)" by simp
  have same: "same_identity (?f s) (?f s)" "state_consistent (?f s)"
    by (simp_all add: same_identity_def state_consistent_def)
  have e: "(case ep of None \<Rightarrow> rs_epoch s | Some e \<Rightarrow> e) = rs_epoch s" using ep by auto
  have res: "resolve_interrupt mem_interrupt_ops (w_now w) r (ir_interrupt_id q) v (Some (rs_epoch s)) (w_intr w) =
      (Inr \<lparr>ires_request = q\<lparr>ir_status := ''resolved''\<rparr>, ires_response = v, ires_resolved_at = w_now w\<rparr>, ?i)"
    using memi.resolve_live [of "w_intr w" r "ir_interrupt_id q" q, OF _ lv] q(2) by simp
  have idle: "set_run r (?f s) ?w2 = ?w2" by (simp add: set_run_def put_intr_def)
  have "prepare_resume cfg wk r p w = sq (touch_state r) (sq (persist_state cfg r) ?k) ?w2"
    using q(1) res
    by (simp add: prepare_resume_asked [OF a p] resume_interrupt_def state_of_def of now_of_def py_simps e
        update_state_run [OF s1] bump_interrupt_epoch_def)
  then have start: "prepare_resume cfg wk r p w =
      sq (update_state r (\<lambda>_. ?f s)) (sq (touch_state r) (sq (persist_state cfg r) ?k)) ?w2"
    using idle by (simp add: sq_run update_state_run [OF s2])
  obtain w3 where w3: "prepare_resume cfg wk r p w = ?k w3"
    "dget (w_runs w3) r = Some (run_of w3 r)" "get (w_store w3) r = Some (run_of w3 r)"
    "run_of w3 r = written (uuid_of (w_fresh ?w2)) (get (w_store ?w2) r) (cleared (touch (w_now ?w2) (?f s)))"
    "w_intr w3 = w_intr ?w2" "world_ok w3"
    "\<not> terminal (rs_status (?f s)) \<Longrightarrow> st_thread_active (w_store w3) = st_thread_active (w_store ?w2)"
    unfolding start by (rule change_persist [where f = "\<lambda>_. ?f s" and k = ?k, OF cfg ok2 s2 same]) blast
  let ?w4 = "log_event r INTERRUPT_RESOLVED (rs_current_step (run_of w3 r))
      [(''interrupt_id'', JStr (ir_interrupt_id q)), (''response'', v)] w3"
  note em = emit_run_plain [OF cfg w3(2), of INTERRUPT_RESOLVED "rs_current_step (run_of w3 r)"
      "[(''interrupt_id'', JStr (ir_interrupt_id q)), (''response'', v)]"]
  have run: "prepare_resume cfg wk r p w = resume_transition cfg wk r v ?w4"
    using w3(1) em by (simp add: py_simps state_of_def)
  have fields: "rs_status (run_of w3 r) = RUNNING" "rs_pending_interrupt_id (run_of w3 r) = None"
    "rs_metadata (run_of w3 r) = rs_metadata s" "rs_current_step (run_of w3 r) = rs_current_step s"
    "rs_artifacts (run_of w3 r) = rs_artifacts s" "rs_completed_steps (run_of w3 r) = rs_completed_steps s"
    "place (run_of w3 r) w3 = place s w"
    using w3(7) by (simp_all add: w3(4) place_def terminal_def put_intr_def)
  have "tidy (run_of w3 r)" using a tidy_metadata [OF fields(3)] by (simp add: asked_def)
  moreover have "mem_get_request (w_intr w3) r (ir_interrupt_id q) = Some (q\<lparr>ir_status := ''resolved''\<rparr>)"
    using w3(5) rid by (simp add: put_intr_def bump_epoch_def Let_def mem_get_save)
  ultimately have "answered r q s (run_of ?w4 r) ?w4"
    using w3(2,3) fields world_ok_step [OF ev.pres_emit_run w3(6) em] by (simp add: answered_def loaded_def)
  moreover have "calm r ?w4" if "calm_but r (ir_interrupt_id q) w"
    using that w3(5) rid
    by (auto simp: calm_def calm_but_def put_intr_def bump_epoch_def Let_def mem_get_save split: if_splits)
  ultimately show ?thesis by (intro that [OF run]) (use fields(7) in \<open>simp_all add: place_def\<close>)
qed

subsection \<open>The transition that was kept\<close>

text \<open>Where the transition of the interrupted step leads: to \<open>m\<close>, with the answer or, without one, the output.\<close>

definition moved_on :: "string \<Rightarrow> string \<Rightarrow> run_state \<Rightarrow> world \<Rightarrow> world \<Rightarrow> bool" where
  "moved_on r m s w w' \<longleftrightarrow>
     dget (w_runs w') r = Some (run_of w' r) \<and> get (w_store w') r = Some (run_of w' r) \<and> world_ok w' \<and>
     rs_status (run_of w' r) = (if m = END_STEP then COMPLETED else RUNNING) \<and>
     rs_current_step (run_of w' r) = next_point m \<and>
     rs_artifacts (run_of w' r) = rs_artifacts s \<and> rs_completed_steps (run_of w' r) = rs_completed_steps s \<and>
     rs_pending_interrupt_id (run_of w' r) = rs_pending_interrupt_id s \<and>
     rs_metadata (run_of w' r) = ddel ''pending_interrupt_resume'' (rs_metadata s) \<and> w_intr w' = w_intr w \<and>
     rs_run_id (run_of w' r) = r \<and> rs_thread_id (run_of w' r) = rs_thread_id s \<and>
     (if m = END_STEP then dget (st_thread_active (w_store w')) (rs_thread_id s) \<noteq> Some r
      else st_thread_active (w_store w') = st_thread_active (w_store w))"

lemma read_pending_resume:
  assumes "cfg_command_model cfg (command_dump c) = Inr c"
  shows "\<exists>plan. read_plan (pending_resume n out h c) = Inr plan \<and> rp_step_name plan = JStr n \<and>
    rp_output_payload plan = out \<and> json_text (rp_handoff plan) = h \<and> plan_command cfg plan = Inr (Some c)"
  using assms
  by (cases h) (simp_all add: read_plan_def pending_resume_def dget_or_def json_text_def opt_json_def plan_command_def
      command_dump_def)

lemma tidy_ddel: "k \<noteq> ''approved_steps'' \<Longrightarrow> rs_metadata s' = ddel k (rs_metadata s) \<Longrightarrow> tidy s' = tidy s"
  by (simp add: tidy_def approved_steps_def dget_or_def)

text \<open>Up to the choice of the target.\<close>

lemma resume_transition_plan:
  assumes l: "loaded r s w" and k: "dget (rs_metadata s) ''pending_interrupt_resume'' = Some (pending_resume n out h c)"
    and n: "n \<noteq> []" and c: "cfg_command_model cfg (command_dump c) = Inr c"
    and st: "get_step wk n = Inr st"
  obtains w1 s1 where "loaded r s1 w1" "s1 = s\<lparr>rs_metadata := ddel ''pending_interrupt_resume'' (rs_metadata s)\<rparr>"
    "w_intr w1 = w_intr w" "w_store w1 = w_store w" "resume_transition cfg wk r v w =
      (case resolve_next_step_for_step wk st out h (Some c) of
         Inl e \<Rightarrow> (Inl e, w1)
       | Inr m \<Rightarrow>
           sq (emit_transition_events cfg r n m h)
            (if m = END_STEP then sq (complete_run cfg r) (ret (r, None))
             else sq (update_state r (\<lambda>s. s\<lparr>rs_current_step := Some m\<rparr>))
                 (sq (touch_state r) (sq (persist_state cfg r) (ret (r, Some (if v \<noteq> JNull then v else out)))))) w1)"
proof -
  from l have s: "dget (w_runs w) r = Some s" and ok: "world_ok w" by (simp_all add: loaded_def)
  let ?s1 = "s\<lparr>rs_metadata := ddel ''pending_interrupt_resume'' (rs_metadata s)\<rparr>"
  let ?w1 = "set_run r ?s1 w"
  obtain plan where plan: "read_plan (pending_resume n out h c) = Inr plan" "rp_step_name plan = JStr n"
    "rp_output_payload plan = out" "json_text (rp_handoff plan) = h" "plan_command cfg plan = Inr (Some c)"
    using read_pending_resume [OF c] by blast
  have "world_ok ?w1" by (rule world_ok_set_run [OF ok s]) (simp add: same_identity_def)
  then have "loaded r ?s1 ?w1" using l tidy_ddel [of "''pending_interrupt_resume''" ?s1 s] by (simp add: loaded_def)
  then show ?thesis
    by (rule that)
      (use plan k n st s loaded_run_of [OF l] in
        \<open>auto simp: resume_transition_def bnd_run [of "state_of r"] state_of_run sq_run [of "update_state r f" for f]
          update_state_run [OF s] bnd_run [of "lift_res x" for x] lift_res_run dget_or_def
          set_run_def split: sum.split\<close>)
qed

lemma transition_ok:
  assumes cfg: "plain cfg"
    and l: "loaded r s w" and k: "dget (rs_metadata s) ''pending_interrupt_resume'' = Some (pending_resume n out h c)"
    and n: "n \<noteq> []" and c: "cfg_command_model cfg (command_dump c) = Inr c"
    and st: "get_step wk n = Inr st" and m: "resolve_next_step_for_step wk st out h (Some c) = Inr m"
  obtains w' where "resume_transition cfg wk r v w =
      (Inr (r, if m = END_STEP then None else Some (if v \<noteq> JNull then v else out)), w')" "moved_on r m s w w'"
proof -
  obtain w1 s1 where w1: "loaded r s1 w1" "s1 = s\<lparr>rs_metadata := ddel ''pending_interrupt_resume'' (rs_metadata s)\<rparr>"
    "w_intr w1 = w_intr w" "w_store w1 = w_store w" and run1: "resume_transition cfg wk r v w =
      sq (emit_transition_events cfg r n m h)
       (if m = END_STEP then sq (complete_run cfg r) (ret (r, None))
        else sq (update_state r (\<lambda>s. s\<lparr>rs_current_step := Some m\<rparr>))
            (sq (touch_state r) (sq (persist_state cfg r) (ret (r, Some (if v \<noteq> JNull then v else out)))))) w1"
    using resume_transition_plan [OF l k n c st, of v] m by (metis (no_types, lifting) sum.simps(6))
  obtain w2 where e: "emit_transition_events cfg r n m h w1 = (Inr (), w2)" "loaded r s1 w2" "quiet w1 w2"
    by (rule emit_transition_events_quiet [OF cfg w1(1)])
  from e(2) have s2: "dget (w_runs w2) r = Some s1" and ok2: "world_ok w2" and run: "rs_status s1 = RUNNING"
    by (simp_all add: loaded_def)
  let ?f = "\<lambda>s. if m = END_STEP then s\<lparr>rs_current_step := None, rs_status := COMPLETED\<rparr> else s\<lparr>rs_current_step := Some m\<rparr>"
  let ?k = "if m = END_STEP
      then sq (bnd (state_of r) (\<lambda>s. emit_run cfg r RUN_COMPLETED None (completed_payload s))) (ret (r, None))
      else ret (r, Some (if v \<noteq> JNull then v else out))"
  have f: "same_identity s1 (?f s1)" "state_consistent (?f s1)"
    using run by (simp_all add: same_identity_def state_consistent_def)
  have "resume_transition cfg wk r v w = sq (update_state r ?f) (sq (touch_state r) (sq (persist_state cfg r) ?k)) w2"
    using run1 e(1) by (cases "m = END_STEP") (simp_all add: sq_run complete_run_def split: sum.splits prod.splits)
  note start = this
  obtain w3 where w3: "resume_transition cfg wk r v w = ?k w3"
    "dget (w_runs w3) r = Some (run_of w3 r)" "get (w_store w3) r = Some (run_of w3 r)"
    "run_of w3 r = written (uuid_of (w_fresh w2)) (get (w_store w2) r) (cleared (touch (w_now w2) (?f s1)))"
    "w_intr w3 = w_intr w2" "world_ok w3"
    "terminal (rs_status (?f s1)) \<Longrightarrow> dget (st_thread_active (w_store w3)) (rs_thread_id s1) \<noteq> Some r"
    "\<not> terminal (rs_status (?f s1)) \<Longrightarrow> st_thread_active (w_store w3) = st_thread_active (w_store w2)"
    unfolding start by (rule change_persist [where f = ?f and k = ?k, OF cfg ok2 s2 f]) blast
  let ?w4 = "if m = END_STEP then log_event r RUN_COMPLETED None (completed_payload (run_of w3 r)) w3 else w3"
  note em = emit_run_plain [OF cfg w3(2), of RUN_COMPLETED None "completed_payload (run_of w3 r)"]
  have "resume_transition cfg wk r v w =
      (Inr (r, if m = END_STEP then None else Some (if v \<noteq> JNull then v else out)), ?w4)"
    using w3(1) em by (simp add: py_simps state_of_def)
  moreover have "world_ok ?w4" using w3(6) world_ok_step [OF ev.pres_emit_run w3(6) em] by simp
  moreover have "run_of ?w4 r = run_of w3 r" by simp
  moreover have "rs_status (run_of w3 r) = (if m = END_STEP then COMPLETED else RUNNING)"
    "rs_current_step (run_of w3 r) = next_point m" "rs_artifacts (run_of w3 r) = rs_artifacts s"
    "rs_completed_steps (run_of w3 r) = rs_completed_steps s"
    "rs_pending_interrupt_id (run_of w3 r) = rs_pending_interrupt_id s"
    "rs_metadata (run_of w3 r) = ddel ''pending_interrupt_resume'' (rs_metadata s)"
    "rs_run_id (run_of w3 r) = r" "rs_thread_id (run_of w3 r) = rs_thread_id s"
    using run world_ok_drawn(1) [OF ok2 s2] by (auto simp: w3(4) w1(2) next_point_def)
  moreover have "m = END_STEP \<Longrightarrow> dget (st_thread_active (w_store w3)) (rs_thread_id s) \<noteq> Some r"
    "m \<noteq> END_STEP \<Longrightarrow> st_thread_active (w_store w3) = st_thread_active (w_store w2)"
    using w3(7,8) run w1(2) by (simp_all add: terminal_def)
  ultimately show ?thesis
    using that w3(2,3,5) e(3) w1(3,4) by (simp add: moved_on_def quiet_def)
qed

subsection \<open>From the question to the answer\<close>

text \<open>The answer to a question in time, with the transition that was kept for it.\<close>

definition carried_on :: "string \<Rightarrow> interrupt_request \<Rightarrow> string \<Rightarrow> run_state \<Rightarrow> world \<Rightarrow> bool" where
  "carried_on r q m s w \<longleftrightarrow>
     get (w_store w) r = Some (run_of w r) \<and>
     rs_status (run_of w r) = (if m = END_STEP then COMPLETED else RUNNING) \<and>
     rs_current_step (run_of w r) = next_point m \<and> rs_artifacts (run_of w r) = rs_artifacts s \<and>
     rs_pending_interrupt_id (run_of w r) = None \<and>
     dget (rs_metadata (run_of w r)) ''pending_interrupt_resume'' = None \<and>
     mem_get_request (w_intr w) r (ir_interrupt_id q) = Some (q\<lparr>ir_status := ''resolved''\<rparr>)"

lemma answer_moves_on:
  assumes cfg: "plain cfg" and a: "asked r q s w" and t: "w_now w < ir_expires_at q"
    and k: "dget (rs_metadata s) ''pending_interrupt_resume'' = Some (pending_resume (sd_name st) out h c)"
    and c: "cfg_command_model cfg (command_dump c) = Inr c"
    and st: "sd_name st \<noteq> []" "get_step wk (sd_name st) = Inr st"
    and m: "resolve_next_step_for_step wk st out h (Some c) = Inr m"
  shows "\<exists>w'. prepare_resume cfg wk r (GivenPayload (ResumeInterrupt (ir_interrupt_id q) v None)) w =
       (Inr (r, if m = END_STEP then None else Some (if v \<noteq> JNull then v else out)), w') \<and> carried_on r q m s w'"
proof -
  have p: "normalize_resume_payload cfg (GivenPayload (ResumeInterrupt (ir_interrupt_id q) v None)) =
      Inr (ResumeInterrupt (ir_interrupt_id q) v None)"
    by (simp add: normalize_resume_payload_def Let_def)
  obtain w1 where w1: "prepare_resume cfg wk r (GivenPayload (ResumeInterrupt (ir_interrupt_id q) v None)) w =
      resume_transition cfg wk r v w1" "answered r q s (run_of w1 r) w1"
    by (rule answer_ok [OF cfg a t p]) simp_all
  from w1(2) k have l: "loaded r (run_of w1 r) w1"
    and k1: "dget (rs_metadata (run_of w1 r)) ''pending_interrupt_resume'' = Some (pending_resume (sd_name st) out h c)"
    by (simp_all add: answered_def)
  obtain w2 where "resume_transition cfg wk r v w1 =
      (Inr (r, if m = END_STEP then None else Some (if v \<noteq> JNull then v else out)), w2)"
    "moved_on r m (run_of w1 r) w1 w2"
    by (rule transition_ok [OF cfg l k1 st(1) c st(2) m])
  with w1 show ?thesis by (auto simp: moved_on_def answered_def carried_on_def)
qed

text \<open>C10: a command's interrupt asks and waits. The step ends WAITING_INTERRUPT at the step it is at, stored,
  with one request filed as pending for this step: the instruction's message and context, the time it expires,
  under the epoch the run now has. Answered at any time before that, with anything, the run is taken to the
  target the command and the step's transition choose, RUNNING with the answer as the payload (the step's
  output when the answer is null), or COMPLETED when the target is the end; the question is closed and no trace
  of it is left in the run.\<close>

theorem answered_question_moves_on:
  assumes cfg: "plain cfg" and l: "loaded r s w" and room: "has_room cfg r s w"
    and i: "cmd_interrupt c = Some i" and c: "cfg_command_model cfg (command_dump c) = Inr c"
    and st: "sd_name st \<noteq> []" "get_step wk (sd_name st) = Inr st"
    and m: "resolve_next_step_for_step wk st out h (Some c) = Inr m"
  shows "\<exists>w1 q. leave_step cfg wk r st out h (Some c) w = (Inr None, w1) \<and>
    asked r q (run_of w1 r) w1 \<and> get (w_store w1) r = Some (run_of w1 r) \<and>
    rs_current_step (run_of w1 r) = rs_current_step s \<and> rs_artifacts (run_of w1 r) = rs_artifacts s \<and>
    ir_step_name q = sd_name st \<and> ir_message q = ii_message i \<and> ir_context q = ii_context i \<and>
    ir_expires_at q = w_now w + (case ii_ttl_seconds i of None \<Rightarrow> cfg_default_ttl cfg | Some t \<Rightarrow> t) \<and>
    (\<forall>t v. t < ir_expires_at q \<longrightarrow>
       (\<exists>w2. prepare_resume cfg wk r (GivenPayload (ResumeInterrupt (ir_interrupt_id q) v None)) (w1\<lparr>w_now := t\<rparr>) =
            (Inr (r, if m = END_STEP then None else Some (if v \<noteq> JNull then v else out)), w2) \<and>
          carried_on r q m s w2))"
proof -
  obtain w1 q where w1: "await_interrupt cfg r st out h c i w = (Inr (), w1)" "asked r q (run_of w1 r) w1"
    "q = request_for cfg r (sd_name st) i w (rs_epoch (run_of w1 r))" "get (w_store w1) r = Some (run_of w1 r)"
    "rs_metadata (run_of w1 r) = dset ''pending_interrupt_resume'' (pending_resume (sd_name st) out h c) (rs_metadata s)"
    "rs_current_step (run_of w1 r) = rs_current_step s" "rs_artifacts (run_of w1 r) = rs_artifacts s"
    by (rule await_interrupt_ok [OF cfg l room])
  have leave: "leave_step cfg wk r st out h (Some c) w = (Inr None, w1)"
    using w1(1) i by (simp add: leave_step_def py_simps)
  have q: "ir_step_name q = sd_name st" "ir_message q = ii_message i" "ir_context q = ii_context i"
    "ir_expires_at q = w_now w + (case ii_ttl_seconds i of None \<Rightarrow> cfg_default_ttl cfg | Some t \<Rightarrow> t)"
    by (subst w1(3), simp add: request_for_def)+
  have k: "dget (rs_metadata (run_of w1 r)) ''pending_interrupt_resume'' = Some (pending_resume (sd_name st) out h c)"
    by (simp add: w1(5))
  have moves: "\<exists>w2. prepare_resume cfg wk r (GivenPayload (ResumeInterrupt (ir_interrupt_id q) v None)) (w1\<lparr>w_now := t\<rparr>) =
      (Inr (r, if m = END_STEP then None else Some (if v \<noteq> JNull then v else out)), w2) \<and> carried_on r q m s w2"
    if "t < ir_expires_at q" for t v
  proof -
    have a: "asked r q (run_of w1 r) (w1\<lparr>w_now := t\<rparr>)" using w1(2) by (simp add: asked_def)
    have "w_now (w1\<lparr>w_now := t\<rparr>) < ir_expires_at q" using that by simp
    from answer_moves_on [OF cfg a this k c st m, of v] w1(7) show ?thesis by (simp add: carried_on_def)
  qed
  show ?thesis
    by (rule exI [of _ w1], rule exI [of _ q]) (use leave w1(2,4,6,7) q moves in blast)
qed

text \<open>Commands are read back from what was kept of them.\<close>

definition read_interrupt :: "json dict \<Rightarrow> interrupt_instruction" where
  "read_interrupt d =
     \<lparr>ii_message = (case dget d ''message'' of Some (JStr m) \<Rightarrow> m | _ \<Rightarrow> []),
      ii_context = (case dget d ''context'' of Some (JObj x) \<Rightarrow> x | _ \<Rightarrow> []),
      ii_ttl_seconds = (case dget d ''ttl_seconds'' of Some (JInt i) \<Rightarrow> Some i | _ \<Rightarrow> None)\<rparr>"

definition read_command :: "json \<Rightarrow> string + command" where
  "read_command v =
     (case v of
        JObj d \<Rightarrow> Inr
          \<lparr>cmd_goto = json_text (dget_or d ''goto'' JNull),
           cmd_state_update = (case dget d ''state_update'' of Some (JObj u) \<Rightarrow> u | _ \<Rightarrow> []),
           cmd_interrupt = (case dget d ''interrupt'' of Some (JObj i) \<Rightarrow> Some (read_interrupt i) | _ \<Rightarrow> None),
           cmd_output = dget_or d ''output'' JNull\<rparr>
      | _ \<Rightarrow> Inl ''Input should be a valid dictionary'')"

lemma read_command_dump: "read_command (command_dump c) = Inr c"
  by (cases c; cases "cmd_interrupt c"; cases "cmd_goto c")
    (simp_all add: read_command_def command_dump_def read_interrupt_def json_text_def opt_json_def opt_int_json_def
      dget_or_def split: option.splits)

definition asking_config :: config where
  "asking_config = no_adapter_config\<lparr>cfg_command_model := read_command\<rparr>"

definition ask_command :: "string option \<Rightarrow> command" where
  "ask_command goto =
     \<lparr>cmd_goto = goto, cmd_state_update = [],
      cmd_interrupt = Some \<lparr>ii_message = ''Which colour?'', ii_context = [], ii_ttl_seconds = Some 60\<rparr>,
      cmd_output = JNull\<rparr>"

lemma world_with_requests [simp]: "w_intr (world_with s) = empty_interrupts"
  by (simp add: world_with_def init_world_def)

lemma asking_start:
  "plain asking_config" "loaded (uuid_of 0) running_state (world_with running_state)"
  "has_room asking_config (uuid_of 0) running_state (world_with running_state)"
  "cfg_command_model asking_config (command_dump c) = Inr c"
  "sd_name echo_step \<noteq> []" "get_step (echo_workflow echo_step) (sd_name echo_step) = Inr echo_step"
  by (simp_all add: asking_config_def no_adapter_config_def read_command_dump loaded_def world_with_ok tidy_def
      approved_steps_def dget_or_def echo_step_def echo_workflow_def get_step_def has_room_def list_pending_def
      mem_list_requests_def empty_interrupts_def dvalues_def)

theorem answered_question_moves_on_witness:
  "\<exists>w1 i w2. leave_step asking_config (echo_workflow echo_step) (uuid_of 0) echo_step (JInt 5) None
       (Some (ask_command None)) (world_with running_state) = (Inr None, w1) \<and>
     rs_status (run_of w1 (uuid_of 0)) = WAITING_INTERRUPT \<and>
     prepare_resume asking_config (echo_workflow echo_step) (uuid_of 0)
       (GivenPayload (ResumeInterrupt i (JStr ''blue'') None)) (w1\<lparr>w_now := 59\<rparr>) = (Inr (uuid_of 0, None), w2) \<and>
     rs_status (run_of w2 (uuid_of 0)) = COMPLETED"
proof -
  have m: "resolve_next_step_for_step (echo_workflow echo_step) echo_step (JInt 5) None (Some (ask_command None)) =
      Inr END_STEP"
    by (simp add: resolve_next_step_for_step_def ask_command_def resolve_next_step_def proposed_step_def echo_step_def
        check_handoff_def)
  have i: "cmd_interrupt (ask_command None) = Some \<lparr>ii_message = ''Which colour?'', ii_context = [], ii_ttl_seconds = Some 60\<rparr>"
    by (simp add: ask_command_def)
  from answered_question_moves_on [OF asking_start(1-3) i asking_start(4-6) m]
  obtain w1 q where w1: "leave_step asking_config (echo_workflow echo_step) (uuid_of 0) echo_step (JInt 5) None
       (Some (ask_command None)) (world_with running_state) = (Inr None, w1)" "asked (uuid_of 0) q (run_of w1 (uuid_of 0)) w1"
    "ir_expires_at q = 60" and more: "\<forall>t v. t < ir_expires_at q \<longrightarrow>
       (\<exists>w2. prepare_resume asking_config (echo_workflow echo_step) (uuid_of 0)
            (GivenPayload (ResumeInterrupt (ir_interrupt_id q) v None)) (w1\<lparr>w_now := t\<rparr>) =
            (Inr (uuid_of 0, if END_STEP = END_STEP then None else Some (if v \<noteq> JNull then v else JInt 5)), w2) \<and>
          carried_on (uuid_of 0) q END_STEP running_state w2)" by auto
  from more w1(3) have "\<exists>w2. prepare_resume asking_config (echo_workflow echo_step) (uuid_of 0)
       (GivenPayload (ResumeInterrupt (ir_interrupt_id q) (JStr ''blue'') None)) (w1\<lparr>w_now := 59\<rparr>) =
          (Inr (uuid_of 0, None), w2) \<and> carried_on (uuid_of 0) q END_STEP running_state w2"
    by simp
  with w1 show ?thesis by (auto simp: asked_def carried_on_def)
qed

subsection \<open>No answer in time\<close>

text \<open>A run that waits for an answer while none of its requests can be answered any more.\<close>

definition lapsed :: "string \<Rightarrow> run_state \<Rightarrow> world \<Rightarrow> bool" where
  "lapsed r s w \<longleftrightarrow>
     world_ok w \<and> dget (w_runs w) r = Some s \<and> rs_status s = WAITING_INTERRUPT \<and>
     (\<forall>i q. mem_get_request (w_intr w) r i = Some q \<longrightarrow> \<not> live (w_now w) None q)"

lemma lapsed_later: "lapsed r s w \<Longrightarrow> w_now w \<le> t \<Longrightarrow> lapsed r s (w\<lparr>w_now := t\<rparr>)"
  by (fastforce simp: lapsed_def live_def)

lemma resolve_lapsed:
  assumes inv: "mem_interrupts_inv m" and none: "\<And>i q. mem_get_request m r i = Some q \<Longrightarrow> \<not> live now None q"
  obtains e m' where "resolve_interrupt mem_interrupt_ops now r i v ep m = (Inl e, m')" "mem_interrupts_inv m'"
    "\<forall>i q. mem_get_request m' r i = Some q \<longrightarrow> \<not> live now None q"
proof -
  obtain x m' where x: "resolve_interrupt mem_interrupt_ops now r i v ep m = (x, m')" by fastforce
  have "\<not> (\<exists>y. x = Inr y)"
    using memi.resolve_Inr_iff [of now r i v ep m] x none by (fastforce simp: live_def)
  then obtain e where e: "x = Inl e" by (cases x) auto
  have "mem_interrupts_inv m'" using memi.resolve_inv [OF inv, of now r i v ep] x by simp
  moreover have "\<not> live now None q" if "mem_get_request m' r j = Some q" for j q
    using x e none that
    by (auto simp: resolve_interrupt_def py_simps Let_def mem_get_save live_def split: option.splits if_splits)
  ultimately show ?thesis using x e that by blast
qed

lemma report_unresolved_quiet:
  assumes cfg: "plain cfg" and s: "dget (w_runs w) r = Some s"
  shows "\<exists>w'. report_unresolved cfg r i e w = (Inr (), w') \<and> quiet w w'"
proof -
  have of: "run_of w r = s" using s by (simp add: run_of_def)
  have em: "\<exists>w'. emit_run cfg r k n p w = (Inr (), w') \<and> quiet w w'" for k n p
    using emit_run_plain [OF cfg s] by simp
  show ?thesis
    using em by (cases "eclass e") (simp_all add: report_unresolved_def bnd_run state_of_run perform_def ret_run of)
qed

lemma lapsed_resume:
  assumes cfg: "plain cfg" and l: "lapsed r s w"
  shows "\<exists>e w'. prepare_resume cfg wk r p w = (Inl e, w') \<and> lapsed r s w' \<and> w_store w' = w_store w \<and> w_now w' = w_now w"
proof -
  from l have s: "dget (w_runs w) r = Some s" "rs_status s = WAITING_INTERRUPT" and ok: "world_ok w"
    and none: "\<And>i q. mem_get_request (w_intr w) r i = Some q \<Longrightarrow> \<not> live (w_now w) None q"
    unfolding lapsed_def by blast+
  have of: "run_of w r = s" using s by (simp add: run_of_def)
  have stop: "\<exists>e w'. m w = (Inl e, w') \<and> lapsed r s w' \<and> w_store w' = w_store w \<and> w_now w' = w_now w"
    if "\<exists>e. m w = (Inl e, w)" for m :: "(string \<times> json option) rt"
    using that l by auto
  have start: "prepare_resume cfg wk r p w =
      (case normalize_resume_payload cfg p of Inl e \<Rightarrow> (Inl e, w) | Inr pl \<Rightarrow> resume_interrupt cfg wk r pl w)"
    using s by (auto simp: prepare_resume_def load_state_def known_run_def py_simps state_of_def of split: sum.splits)
  show ?thesis
  proof (cases "\<exists>i v ep. normalize_resume_payload cfg p = Inr (ResumeInterrupt i v ep) \<and> rs_pending_interrupt_id s \<noteq> None")
    case False
    then show ?thesis
      using start
      by (intro stop)
        (auto simp: resume_interrupt_def bnd_run [of "state_of r"] state_of_run of raise_run
          split: sum.splits option.splits resume_payload.splits)
  next
    case True
    then obtain i v ep where p: "normalize_resume_payload cfg p = Inr (ResumeInterrupt i v ep)"
      and id: "rs_pending_interrupt_id s \<noteq> None" by blast
    let ?ep = "Some (case ep of None \<Rightarrow> rs_epoch s | Some e \<Rightarrow> e)"
    obtain e m' where r: "resolve_interrupt mem_interrupt_ops (w_now w) r i v ?ep (w_intr w) = (Inl e, m')"
      "mem_interrupts_inv m'" "\<forall>i q. mem_get_request m' r i = Some q \<longrightarrow> \<not> live (w_now w) None q"
      by (rule resolve_lapsed [OF world_ok_requests [OF ok] none, where i = i and v = v and ep = ?ep])
    have s1: "dget (w_runs (put_intr m' w)) r = Some s" using s by simp
    obtain w' where rep: "report_unresolved cfg r i e (put_intr m' w) = (Inr (), w')" and q: "quiet (put_intr m' w) w'"
      using report_unresolved_quiet [OF cfg s1] by blast
    have "prepare_resume cfg wk r p w = (Inl e, w')"
      using id r(1) rep
      by (auto simp: start p resume_interrupt_def bnd_run [of "state_of r"] state_of_run of now_of_def gets_run
          bnd_run [of "gets w_now"] bnd_run [of "on_error m h" for m h] on_error_run zoom_run)
    moreover have "world_ok w'"
      by (rule world_ok_step [OF ev.pres_report_unresolved world_ok_put_intr [OF ok r(2)] rep])
    ultimately show ?thesis using q r(3) s by (auto simp: lapsed_def quiet_def put_intr_def)
  qed
qed

text \<open>Attempts to resume a run, each some time after the one before, with what they return.\<close>

fun attempts ::
  "config \<Rightarrow> workflow \<Rightarrow> string \<Rightarrow> (nat \<times> resume_input) list \<Rightarrow> world \<Rightarrow> ((exn + run_state) list \<times> world) option" where
  "attempts cfg wk r [] w = Some ([], w)"
| "attempts cfg wk r ((d, p) # ps) w =
     Option.bind (resume_workflow cfg wk r p (w\<lparr>w_now := w_now w + int d\<rparr>)) (\<lambda>(x, w').
     map_option (\<lambda>(xs, w''). (x # xs, w'')) (attempts cfg wk r ps w'))"

lemma lapsed_attempts:
  assumes cfg: "plain cfg"
  shows "lapsed r s w \<Longrightarrow> \<exists>es w'. attempts cfg wk r ps w = Some (map Inl es, w') \<and> length es = length ps \<and>
    lapsed r s w' \<and> w_store w' = w_store w"
proof (induction ps arbitrary: w)
  case Nil
  then show ?case by simp
next
  case (Cons dp ps)
  obtain d p where dp: "dp = (d, p)" by (cases dp)
  let ?w = "w\<lparr>w_now := w_now w + int d\<rparr>"
  have "lapsed r s ?w" by (rule lapsed_later [OF Cons.prems]) simp
  from lapsed_resume [OF cfg this, of wk p] obtain e w1 where w1: "prepare_resume cfg wk r p ?w = (Inl e, w1)"
    "lapsed r s w1" "w_store w1 = w_store w" by auto
  from Cons.IH [OF w1(2)] obtain es w' where "attempts cfg wk r ps w1 = Some (map Inl es, w')" "length es = length ps"
    "lapsed r s w'" "w_store w' = w_store w1" by blast
  with w1 show ?case
    by (intro exI [of _ "e # es"] exI [of _ w']) (simp add: dp resume_workflow_def then_advance_def)
qed

text \<open>C17: a question that is not answered in time is never answered. A run waits for the answer to a request
  and the request has expired, as has any other the run may have filed: then every attempt to resume the run,
  whatever is tried and whenever, raises, and the run stays as it was, in the cache and in the store: waiting,
  with the request as its pending one.\<close>

theorem expired_question_waits_for_ever:
  assumes cfg: "plain cfg" and a: "asked r q s w" and t: "ir_expires_at q \<le> w_now w"
    and other: "\<And>i q'. mem_get_request (w_intr w) r i = Some q' \<Longrightarrow> i \<noteq> ir_interrupt_id q \<Longrightarrow> \<not> live (w_now w) None q'"
  shows "\<exists>es w'. attempts cfg wk r ps w = Some (map Inl es, w') \<and> length es = length ps \<and>
    run_of w' r = s \<and> rs_status s = WAITING_INTERRUPT \<and> rs_pending_interrupt_id s = Some (ir_interrupt_id q) \<and>
    w_store w' = w_store w"
proof -
  have "\<not> live (w_now w) None q'" if "mem_get_request (w_intr w) r i = Some q'" for i q'
    using other [OF that] that a t by (cases "i = ir_interrupt_id q") (auto simp: asked_def live_def)
  with a have "lapsed r s w" by (simp add: lapsed_def asked_def)
  from lapsed_attempts [OF cfg this, of wk ps] a show ?thesis by (auto simp: lapsed_def run_of_def asked_def)
qed

definition colour_request :: interrupt_request where
  "colour_request =
     \<lparr>ir_interrupt_id = ''i'', ir_run_id = uuid_of 0, ir_step_name = ''a'', ir_message = ''Which colour?'', ir_context = [],
      ir_epoch = 0, ir_created_at = 0, ir_expires_at = 60, ir_status = ''pending''\<rparr>"

definition asking_state :: run_state where
  "asking_state = running_state\<lparr>rs_status := WAITING_INTERRUPT, rs_pending_interrupt_id := Some ''i''\<rparr>"

definition asking_world :: "int \<Rightarrow> world" where
  "asking_world t = (put_intr (mem_save_request colour_request empty_interrupts) (world_with asking_state))\<lparr>w_now := t\<rparr>"

lemma asking_world_asked: "asked (uuid_of 0) colour_request asking_state (asking_world t)"
  "w_intr (asking_world t) = mem_save_request colour_request empty_interrupts" "w_now (asking_world t) = t"
proof -
  have "world_ok (put_intr (mem_save_request colour_request empty_interrupts) (world_with asking_state))"
    by (intro world_ok_put_intr world_with_ok mem_save_inv mem_interrupts_inv_empty) (simp add: asking_state_def)
  then show "asked (uuid_of 0) colour_request asking_state (asking_world t)"
    by (simp add: asked_def asking_world_def put_intr_def asking_state_def tidy_def approved_steps_def dget_or_def
        colour_request_def mem_get_save running_state_def new_run_state_def)
  show "w_intr (asking_world t) = mem_save_request colour_request empty_interrupts" "w_now (asking_world t) = t"
    by (simp_all add: asking_world_def put_intr_def)
qed

theorem expired_question_waits_for_ever_witness:
  "\<exists>e e' w. attempts no_adapter_config (echo_workflow echo_step) (uuid_of 0)
      [(0, GivenPayload (ResumeInterrupt ''i'' (JStr ''blue'') None)), (5, GivenText ''approve'')] (asking_world 60) =
        Some ([Inl e, Inl e'], w) \<and> rs_status (run_of w (uuid_of 0)) = WAITING_INTERRUPT"
proof -
  have t: "ir_expires_at colour_request \<le> w_now (asking_world 60)"
    by (simp add: colour_request_def asking_world_asked(3))
  have "mem_get_request (w_intr (asking_world 60)) (uuid_of 0) i = None" if "i \<noteq> ir_interrupt_id colour_request" for i
    using that by (simp add: asking_world_asked(2) mem_get_save) (simp add: mem_get_request_def empty_interrupts_def dget_or_def)
  then have other: "\<not> live (w_now (asking_world 60)) None q'"
    if "mem_get_request (w_intr (asking_world 60)) (uuid_of 0) i = Some q'" "i \<noteq> ir_interrupt_id colour_request" for i q'
    using that by simp
  define ps where "ps = [(0 :: nat, GivenPayload (ResumeInterrupt ''i'' (JStr ''blue'') None)), (5, GivenText ''approve'')]"
  have "\<exists>es w'. attempts no_adapter_config (echo_workflow echo_step) (uuid_of 0) ps (asking_world 60) =
      Some (map Inl es, w') \<and> length es = length ps \<and> run_of w' (uuid_of 0) = asking_state \<and>
      rs_status asking_state = WAITING_INTERRUPT \<and>
      rs_pending_interrupt_id asking_state = Some (ir_interrupt_id colour_request) \<and> w_store w' = w_store (asking_world 60)"
    by (rule expired_question_waits_for_ever [OF plain_no_adapter asking_world_asked(1) t]) (rule other)
  then obtain es w where run: "attempts no_adapter_config (echo_workflow echo_step) (uuid_of 0) ps (asking_world 60) =
        Some (map Inl es, w)" and es: "length es = 2"
    and s: "run_of w (uuid_of 0) = asking_state" "rs_status asking_state = WAITING_INTERRUPT" by (auto simp: ps_def)
  from es obtain e e' where "es = [e, e']" by (auto simp: numeral_2_eq_2 length_Suc_conv)
  then show ?thesis
    using run s unfolding ps_def by (intro exI [of _ e] exI [of _ e'] exI [of _ w]) simp
qed

subsection \<open>An answer that leads nowhere\<close>

lemma running_attempts:
  assumes s: "rs_status s = RUNNING"
  shows "dget (w_runs w) r = Some s \<Longrightarrow> \<exists>es w'. attempts cfg wk r ps w = Some (map Inl es, w') \<and> length es = length ps \<and>
    run_of w' r = s \<and> w_store w' = w_store w"
proof (induction ps arbitrary: w)
  case Nil
  then show ?case by (simp add: run_of_def)
next
  case (Cons dp ps)
  obtain d p where dp: "dp = (d, p)" by (cases dp)
  let ?w = "w\<lparr>w_now := w_now w + int d\<rparr>"
  obtain e where e: "prepare_resume cfg wk r p ?w = (Inl e, ?w)"
    using s Cons.prems
    by (cases "normalize_resume_payload cfg p")
      (auto simp: prepare_resume_def load_state_def known_run_def py_simps state_of_def run_of_def)
  obtain es w' where "attempts cfg wk r ps ?w = Some (map Inl es, w')" "length es = length ps" "run_of w' r = s"
    "w_store w' = w_store w"
    using Cons.IH [of ?w] Cons.prems by auto
  with e show ?case
    by (intro exI [of _ "e # es"] exI [of _ w']) (simp add: dp resume_workflow_def then_advance_def)
qed

definition stranded :: "config \<Rightarrow> workflow \<Rightarrow> string \<Rightarrow> interrupt_request \<Rightarrow> run_state \<Rightarrow> world \<Rightarrow> world \<Rightarrow> bool" where
  "stranded cfg wk r q s w w' \<longleftrightarrow>
     rs_status (run_of w' r) = RUNNING \<and> map_option rs_status (get (w_store w') r) = Some RUNNING \<and>
     rs_current_step (run_of w' r) = rs_current_step s \<and> rs_pending_interrupt_id (run_of w' r) = None \<and>
     st_thread_active (w_store w') = st_thread_active (w_store w) \<and>
     mem_get_request (w_intr w') r (ir_interrupt_id q) = Some (q\<lparr>ir_status := ''resolved''\<rparr>) \<and>
     (\<forall>ps. \<exists>es w''. attempts cfg wk r ps w' = Some (map Inl es, w'') \<and> length es = length ps \<and>
        run_of w'' r = run_of w' r \<and> w_store w'' = w_store w')"

lemma answer_nowhere:
  assumes cfg: "plain cfg" and a: "asked r q s w" and t: "w_now w < ir_expires_at q"
    and k: "dget (rs_metadata s) ''pending_interrupt_resume'' = Some (pending_resume (sd_name st) out h c)"
    and c: "cfg_command_model cfg (command_dump c) = Inr c"
    and st: "sd_name st \<noteq> []" "get_step wk (sd_name st) = Inr st"
    and m: "resolve_next_step_for_step wk st out h (Some c) = Inl e"
  shows "\<exists>w'. resume_workflow cfg wk r (GivenPayload (ResumeInterrupt (ir_interrupt_id q) v None)) w = Some (Inl e, w') \<and>
    stranded cfg wk r q s w w'"
proof -
  let ?p = "GivenPayload (ResumeInterrupt (ir_interrupt_id q) v None)"
  have p: "normalize_resume_payload cfg ?p = Inr (ResumeInterrupt (ir_interrupt_id q) v None)"
    by (simp add: normalize_resume_payload_def Let_def)
  obtain w2 where w2: "prepare_resume cfg wk r ?p w = resume_transition cfg wk r v w2"
    "answered r q s (run_of w2 r) w2" "place (run_of w2 r) w2 = place s w"
    by (rule answer_ok [OF cfg a t p]) simp_all
  have l2: "loaded r (run_of w2 r) w2" and k2: "dget (rs_metadata (run_of w2 r)) ''pending_interrupt_resume'' =
      Some (pending_resume (sd_name st) out h c)" using w2(2) k by (simp_all add: answered_def)
  obtain w3 s3 where w3: "loaded r s3 w3"
    "s3 = (run_of w2 r)\<lparr>rs_metadata := ddel ''pending_interrupt_resume'' (rs_metadata (run_of w2 r))\<rparr>"
    "w_intr w3 = w_intr w2" "w_store w3 = w_store w2" and tr: "resume_transition cfg wk r v w2 = (Inl e, w3)"
    using resume_transition_plan [OF l2 k2 st(1) c st(2), of v] m by (metis (no_types, lifting) sum.simps(5))
  have s3: "dget (w_runs w3) r = Some s3" "rs_status s3 = RUNNING" using w3(1) by (simp_all add: loaded_def)
  have "resume_workflow cfg wk r ?p w = Some (Inl e, w3)"
    using w2(1) tr by (simp add: resume_workflow_def then_advance_def)
  moreover have "rs_status (run_of w2 r) = RUNNING" using l2 by (simp add: loaded_def)
  moreover have "run_of w3 r = s3" by (rule loaded_run_of [OF w3(1)])
  ultimately show ?thesis
    using running_attempts [OF s3(2,1), of cfg wk] s3(2) w2(2,3) w3(2-4)
    by (intro exI [of _ w3]) (simp add: stranded_def answered_def place_def)
qed

text \<open>C18: an answer can strand its run. A command may ask a question and name a target the step does not allow
  (or the step's own transition may have none for the output): the question is asked all the same, the target
  is only looked at when the answer comes. The answer then raises, but unlike a step without a question, which
  fails its run, it leaves the run RUNNING, in the cache and in the store, at its step and active on its
  thread, with its question closed: from then on every attempt to resume it raises and changes nothing.\<close>

theorem answer_strands_run:
  assumes cfg: "plain cfg" and l: "loaded r s w" and room: "has_room cfg r s w"
    and i: "cmd_interrupt c = Some i" and c: "cfg_command_model cfg (command_dump c) = Inr c"
    and st: "sd_name st \<noteq> []" "get_step wk (sd_name st) = Inr st"
    and m: "resolve_next_step_for_step wk st out h (Some c) = Inl e"
  shows "\<exists>w1 q. leave_step cfg wk r st out h (Some c) w = (Inr None, w1) \<and> asked r q (run_of w1 r) w1 \<and>
    ir_expires_at q = w_now w + (case ii_ttl_seconds i of None \<Rightarrow> cfg_default_ttl cfg | Some t \<Rightarrow> t) \<and>
    (\<forall>t v. t < ir_expires_at q \<longrightarrow>
       (\<exists>w2. resume_workflow cfg wk r (GivenPayload (ResumeInterrupt (ir_interrupt_id q) v None)) (w1\<lparr>w_now := t\<rparr>) =
            Some (Inl e, w2) \<and> stranded cfg wk r q s w w2))"
proof -
  obtain w1 q where w1: "await_interrupt cfg r st out h c i w = (Inr (), w1)" "asked r q (run_of w1 r) w1"
    "q = request_for cfg r (sd_name st) i w (rs_epoch (run_of w1 r))"
    "rs_metadata (run_of w1 r) = dset ''pending_interrupt_resume'' (pending_resume (sd_name st) out h c) (rs_metadata s)"
    "rs_current_step (run_of w1 r) = rs_current_step s" "place (run_of w1 r) w1 = place s w"
    by (rule await_interrupt_ok [OF cfg l room])
  have leave: "leave_step cfg wk r st out h (Some c) w = (Inr None, w1)"
    using w1(1) i by (simp add: leave_step_def py_simps)
  have ex: "ir_expires_at q = w_now w + (case ii_ttl_seconds i of None \<Rightarrow> cfg_default_ttl cfg | Some t \<Rightarrow> t)"
    by (subst w1(3)) (simp add: request_for_def)
  have k: "dget (rs_metadata (run_of w1 r)) ''pending_interrupt_resume'' = Some (pending_resume (sd_name st) out h c)"
    by (simp add: w1(4))
  have strands: "\<exists>w2. resume_workflow cfg wk r (GivenPayload (ResumeInterrupt (ir_interrupt_id q) v None)) (w1\<lparr>w_now := t\<rparr>) =
      Some (Inl e, w2) \<and> stranded cfg wk r q s w w2" if "t < ir_expires_at q" for t v
  proof -
    have a: "asked r q (run_of w1 r) (w1\<lparr>w_now := t\<rparr>)" using w1(2) by (simp add: asked_def)
    have "w_now (w1\<lparr>w_now := t\<rparr>) < ir_expires_at q" using that by simp
    from answer_nowhere [OF cfg a this k c st m, of v] w1(5,6) show ?thesis by (simp add: stranded_def place_def)
  qed
  show ?thesis
    by (rule exI [of _ w1], rule exI [of _ q]) (use leave w1(2) ex strands in blast)
qed

theorem answer_strands_run_witness:
  "\<exists>w1 i e w2. leave_step asking_config (echo_workflow echo_step) (uuid_of 0) echo_step (JInt 5) None
       (Some (ask_command (Some ''b''))) (world_with running_state) = (Inr None, w1) \<and>
     resume_workflow asking_config (echo_workflow echo_step) (uuid_of 0)
       (GivenPayload (ResumeInterrupt i (JStr ''blue'') None)) (w1\<lparr>w_now := 59\<rparr>) = Some (Inl e, w2) \<and>
     eclass e = IllegalTransitionError \<and> rs_status (run_of w2 (uuid_of 0)) = RUNNING"
proof -
  have "case resolve_next_step_for_step (echo_workflow echo_step) echo_step (JInt 5) None (Some (ask_command (Some ''b''))) of
      Inl e \<Rightarrow> eclass e = IllegalTransitionError | Inr _ \<Rightarrow> False" by code_simp
  then obtain e where m: "resolve_next_step_for_step (echo_workflow echo_step) echo_step (JInt 5) None
      (Some (ask_command (Some ''b''))) = Inl e" and e: "eclass e = IllegalTransitionError" by (auto split: sum.splits)
  have i: "cmd_interrupt (ask_command (Some ''b'')) =
      Some \<lparr>ii_message = ''Which colour?'', ii_context = [], ii_ttl_seconds = Some 60\<rparr>"
    by (simp add: ask_command_def)
  from answer_strands_run [OF asking_start(1-3) i asking_start(4-6) m]
  obtain w1 q where w1: "leave_step asking_config (echo_workflow echo_step) (uuid_of 0) echo_step (JInt 5) None
       (Some (ask_command (Some ''b''))) (world_with running_state) = (Inr None, w1)" "ir_expires_at q = 60"
    and more: "\<forall>t v. t < ir_expires_at q \<longrightarrow>
       (\<exists>w2. resume_workflow asking_config (echo_workflow echo_step) (uuid_of 0)
            (GivenPayload (ResumeInterrupt (ir_interrupt_id q) v None)) (w1\<lparr>w_now := t\<rparr>) = Some (Inl e, w2) \<and>
          stranded asking_config (echo_workflow echo_step) (uuid_of 0) q running_state (world_with running_state) w2)" by auto
  from more w1(2) have "\<exists>w2. resume_workflow asking_config (echo_workflow echo_step) (uuid_of 0)
       (GivenPayload (ResumeInterrupt (ir_interrupt_id q) (JStr ''blue'') None)) (w1\<lparr>w_now := 59\<rparr>) = Some (Inl e, w2) \<and>
      stranded asking_config (echo_workflow echo_step) (uuid_of 0) q running_state (world_with running_state) w2"
    by simp
  with w1 e show ?thesis by (auto simp: stranded_def)
qed

end
