(* ===== verification/Completion.thy ===== *)
theory Completion
  imports Interruptions
begin

section \<open>Workflows whose steps work complete\<close>

text \<open>
  Total correctness of whole runs. A workflow is annotated: \<open>fits (Some n) p A G\<close> says that step \<open>n\<close> may be given the
  payload \<open>p\<close> when the run's artifacts are \<open>A\<close> and the steps it has approvals for are \<open>G\<close>; at \<open>END\<close> it is
  what the run is to end with. When each step, started as its annotation says, hands on what the annotation
  of the step its transition chooses asks for, a run of a workflow without cycles completes, provided somebody
  gives the approvals it waits for and answers the questions it asks.
\<close>

subsection \<open>A step that works\<close>

text \<open>How questions are answered, by message and context; nothing when nobody answers.\<close>

type_synonym answers = "(string \<Rightarrow> json dict \<Rightarrow> json) option"

definition asks :: "command option \<Rightarrow> interrupt_instruction option" where
  "asks cmd = Option.bind cmd cmd_interrupt"

definition time_given :: "config \<Rightarrow> interrupt_instruction \<Rightarrow> int" where
  "time_given cfg i = (case ii_ttl_seconds i of None \<Rightarrow> cfg_default_ttl cfg | Some t \<Rightarrow> t)"

definition answered_with :: "json \<Rightarrow> json \<Rightarrow> json" where
  "answered_with v out = (if v \<noteq> JNull then v else out)"

text \<open>\<open>p\<close> is the payload a step hands on: its output, or the answer to its question, which must be allowed, leave
  time and be read back from the run's metadata.\<close>

definition goes_on :: "config \<Rightarrow> workflow \<Rightarrow> answers \<Rightarrow> step \<Rightarrow> json \<Rightarrow> command option \<Rightarrow> json \<Rightarrow> bool" where
  "goes_on cfg wk ans st out cmd p \<longleftrightarrow>
     (case asks cmd of
        None \<Rightarrow> p = out
      | Some i \<Rightarrow>
          (\<exists>f. ans = Some f \<and> p = answered_with (f (ii_message i) (ii_context i)) out) \<and>
          0 < time_given cfg i \<and> 1 \<le> cfg_max_pending cfg \<and>
          sd_name st \<noteq> [] \<and> get_step wk (sd_name st) = Inr st \<and>
          (\<forall>c. cmd = Some c \<longrightarrow> cfg_command_model cfg (command_dump c) = Inr c))"

text \<open>A step works when its annotation gives it the artifacts it requires and, once it is approved if it needs
  to be, the policies let it run and its executor returns, with a command that goes through if any, and the
  next step is given what it asks for: the output, the command's own, or the answer to its question.\<close>

definition step_works_with :: "answers \<Rightarrow> config \<Rightarrow> workflow \<Rightarrow> annotation \<Rightarrow> string \<Rightarrow> step \<Rightarrow> bool" where
  "step_works_with ans cfg wk fits n st \<longleftrightarrow>
     (\<forall>p A G. fits (Some n) p A G \<longrightarrow> check_artifacts (sd_name st) A (sd_required_artifacts st) = Inr ()) \<and>
     (\<forall>r s w p. loaded r s w \<and> fits (Some n) p (rs_artifacts s) (approvals s) \<and> requires_approval st s = Inr False \<longrightarrow>
        verdict (policies_for (cfg_policy_engine cfg) (wf_name wk)) (gate_ctx wk st s) = Inr () \<and>
        (\<exists>x h cmd out m p' w'. run_executor cfg wk r st p w = (Inr (x, h, cmd), w') \<and> tidy (run_of w' r) \<and>
           goes_through cfg cmd (rs_channels s) \<and> out = handed_on x cmd \<and>
           resolve_next_step_for_step wk st out h cmd = Inr m \<and> goes_on cfg wk ans st out cmd p' \<and>
           fits (next_point m) p' (artifacts_set (rs_artifacts s) (output_key st) out)
             (approvals (run_of w' r) - {sd_name st})))"

definition works_with :: "answers \<Rightarrow> config \<Rightarrow> workflow \<Rightarrow> annotation \<Rightarrow> bool" where
  "works_with ans cfg wk fits \<longleftrightarrow> (\<forall>n st. dget (wf_steps wk) n = Some st \<longrightarrow> step_works_with ans cfg wk fits n st)"

text \<open>The usual case: no command.\<close>

lemma step_worksI:
  assumes "(\<forall>p A G. fits (Some n) p A G \<longrightarrow> check_artifacts (sd_name st) A (sd_required_artifacts st) = Inr ()) \<and>
     (\<forall>r s w p. loaded r s w \<and> fits (Some n) p (rs_artifacts s) (approvals s) \<and> requires_approval st s = Inr False \<longrightarrow>
        verdict (policies_for (cfg_policy_engine cfg) (wf_name wk)) (gate_ctx wk st s) = Inr () \<and>
        (\<exists>out h m w'. run_executor cfg wk r st p w = (Inr (out, h, None), w') \<and> tidy (run_of w' r) \<and>
           resolve_next_step_for_step wk st out h None = Inr m \<and>
           fits (next_point m) out (artifacts_set (rs_artifacts s) (output_key st) out)
             (approvals (run_of w' r) - {sd_name st})))"
  shows "step_works_with ans cfg wk fits n st"
proof -
  have "goes_through cfg None chs" "handed_on out None = out" "goes_on cfg wk ans st out None out" for chs out
    by (simp_all add: goes_through_def handed_on_def goes_on_def asks_def)
  with assms show ?thesis unfolding step_works_with_def by metis
qed

lemma step_works_runs:
  assumes "step_works_with ans cfg wk fits n st" "loaded r s w" "fits (Some n) p (rs_artifacts s) (approvals s)"
    "requires_approval st s = Inr False"
  shows "verdict (policies_for (cfg_policy_engine cfg) (wf_name wk)) (gate_ctx wk st s) = Inr ()"
    "\<exists>x h cmd out m p' w'. run_executor cfg wk r st p w = (Inr (x, h, cmd), w') \<and> tidy (run_of w' r) \<and>
       goes_through cfg cmd (rs_channels s) \<and> out = handed_on x cmd \<and>
       resolve_next_step_for_step wk st out h cmd = Inr m \<and> goes_on cfg wk ans st out cmd p' \<and>
       fits (next_point m) p' (artifacts_set (rs_artifacts s) (output_key st) out) (approvals (run_of w' r) - {sd_name st})"
  using assms unfolding step_works_with_def by blast+

subsection \<open>A run that waits\<close>

text \<open>Questions come into play only where somebody answers them.\<close>

definition unasked :: "answers \<Rightarrow> string \<Rightarrow> world \<Rightarrow> bool" where
  "unasked ans r w \<longleftrightarrow> (ans \<noteq> None \<longrightarrow> calm r w)"

text \<open>A run that waits for the approval of step \<open>n\<close>, with what the step is to be given.\<close>

definition gated_with :: "answers \<Rightarrow> workflow \<Rightarrow> annotation \<Rightarrow> string \<Rightarrow> string \<Rightarrow> world \<Rightarrow> bool" where
  "gated_with ans wk fits r n w \<longleftrightarrow> unasked ans r w \<and>
     (\<exists>s q given p st. waiting_for r q given s w \<and> get (w_store w) r = Some s \<and>
        rs_current_step s = Some n \<and> dget (wf_steps wk) n = Some st \<and> ar_step_name q = sd_name st \<and>
        dget (rs_metadata s) ''pending_input'' = Some p \<and> fits (Some n) p (rs_artifacts s) (approvals s) \<and>
        requires_approval st s = Inr True)"

text \<open>A run that waits for the answer to the question of step \<open>n\<close>: with it, it goes on as annotated.\<close>

definition asking_with :: "answers \<Rightarrow> config \<Rightarrow> workflow \<Rightarrow> annotation \<Rightarrow> string \<Rightarrow> string \<Rightarrow> world \<Rightarrow> bool" where
  "asking_with ans cfg wk fits r n w \<longleftrightarrow>
     (\<exists>f s q st out h c m. ans = Some f \<and> asked r q s w \<and> calm_but r (ir_interrupt_id q) w \<and>
        rs_current_step s = Some n \<and> dget (wf_steps wk) n = Some st \<and> w_now w < ir_expires_at q \<and>
        dget (rs_metadata s) ''pending_interrupt_resume'' = Some (pending_resume (sd_name st) out h c) \<and>
        sd_name st \<noteq> [] \<and> get_step wk (sd_name st) = Inr st \<and> cfg_command_model cfg (command_dump c) = Inr c \<and>
        resolve_next_step_for_step wk st out h (Some c) = Inr m \<and>
        fits (next_point m) (answered_with (f (ir_message q) (ir_context q)) out) (rs_artifacts s) (approvals s))"

text \<open>Where nobody answers questions.\<close>

abbreviation step_works :: "config \<Rightarrow> workflow \<Rightarrow> annotation \<Rightarrow> string \<Rightarrow> step \<Rightarrow> bool" where
  "step_works \<equiv> step_works_with None"

abbreviation works :: "config \<Rightarrow> workflow \<Rightarrow> annotation \<Rightarrow> bool" where
  "works \<equiv> works_with None"

abbreviation gated :: "workflow \<Rightarrow> annotation \<Rightarrow> string \<Rightarrow> string \<Rightarrow> world \<Rightarrow> bool" where
  "gated \<equiv> gated_with None"

lemmas step_works_def = step_works_with_def [of None]
lemmas works_def = works_with_def [of None]
lemmas gated_def = gated_with_def

lemma unasked_nobody [simp]: "unasked None r w"
  by (simp add: unasked_def)

lemma asking_nobody [simp]: "\<not> asking_with None cfg wk fits r n w"
  by (simp add: asking_with_def)

subsection \<open>One iteration\<close>

lemma unasked_same: "unasked ans r w \<Longrightarrow> requests_same w w' \<Longrightarrow> unasked ans r w'"
  by (simp add: unasked_def calm_same)

lemma gate_closes:
  assumes cfg: "plain cfg" and l: "loaded r s w" and n: "rs_current_step s = Some n" "dget (wf_steps wk) n = Some st"
    and fits: "fits (Some n) p (rs_artifacts s) (approvals s)" and g: "requires_approval st s = Inr True"
    and u: "unasked ans r w"
  obtains w' where "await_approval cfg r st why p w = (Inr (), w')" "gated_with ans wk fits r n w'"
    "place (run_of w' r) w' = place s w"
proof -
  from l have s: "dget (w_runs w) r = Some s" and ok: "world_ok w" and t: "tidy s" by (simp_all add: loaded_def)
  obtain given where given: "approved_steps s = Inr (map JStr given)" using t by (auto simp: tidy_def)
  obtain w' q where a: "await_approval cfg r st why p w = (Inr (), w')"
    "rs_status (run_of w' r) = WAITING_APPROVAL" "rs_pending_approval (run_of w' r) = Some q"
    "ar_step_name q = sd_name st" "rs_metadata (run_of w' r) = dset ''pending_input'' p (rs_metadata s)"
    "rs_current_step (run_of w' r) = rs_current_step s" "rs_artifacts (run_of w' r) = rs_artifacts s"
    "get (w_store w') r = Some (run_of w' r)" "dget (w_runs w') r = Some (run_of w' r)" "world_ok w'"
    "rs_thread_id (run_of w' r) = rs_thread_id s" "st_thread_active (w_store w') = st_thread_active (w_store w)"
    by (rule await_approval_ok [OF cfg ok s])
  have same: "approved_steps (run_of w' r) = approved_steps s" by (simp add: approved_steps_def a(5) dget_or_def)
  then have "approvals (run_of w' r) = approvals s" "requires_approval st (run_of w' r) = Inr True"
    using g by (simp_all add: approvals_def requires_approval_def)
  moreover have "dget (rs_metadata (run_of w' r)) ''pending_input'' = Some p" by (simp add: a(5))
  moreover have "waiting_for r q given (run_of w' r) w'" using a(2,3,9,10) given same by (simp add: waiting_for_def)
  moreover have "unasked ans r w'" by (rule unasked_same [OF u presD [OF req.pres_await_approval a(1)]])
  ultimately have "gated_with ans wk fits r n w'" using a(4,6-8) n fits unfolding gated_with_def by (metis (no_types))
  moreover have "place (run_of w' r) w' = place s w" using a(11,12) by (simp add: place_def)
  ultimately show ?thesis by (rule that [OF a(1)])
qed

text \<open>What an iteration ends with: the run is complete, waits, or is given to the next step.\<close>

definition gone_on :: "answers \<Rightarrow> workflow \<Rightarrow> annotation \<Rightarrow> string \<Rightarrow> string \<Rightarrow> string \<times> string dict \<Rightarrow> json \<Rightarrow> world \<Rightarrow> bool" where
  "gone_on ans wk fits r n at p w \<longleftrightarrow>
     (\<exists>s m. loaded r s w \<and> unasked ans r w \<and> rs_current_step s = Some m \<and> wf_edge wk n m \<and> place s w = at \<and>
        fits (Some m) p (rs_artifacts s) (approvals s))"

definition ended :: "annotation \<Rightarrow> string \<Rightarrow> string \<times> string dict \<Rightarrow> world \<Rightarrow> bool" where
  "ended fits r at w \<longleftrightarrow> finished fits r w \<and> rs_thread_id (run_of w r) = fst at"

lemma question_asked:
  assumes cfg: "plain cfg" and l: "loaded r s w" and u: "unasked ans r w"
    and n: "rs_current_step s = Some n" "dget (wf_steps wk) n = Some st"
    and cmd: "cmd = Some c" "cmd_interrupt c = Some i"
    and m: "resolve_next_step_for_step wk st out h cmd = Inr m" and g: "goes_on cfg wk ans st out cmd p"
    and fits: "fits (next_point m) p (rs_artifacts s) (approvals s)"
  obtains w' where "leave_step cfg wk r st out h cmd w = (Inr None, w')" "asking_with ans cfg wk fits r n w'"
    "place (run_of w' r) w' = place s w"
proof -
  from g cmd obtain f where f: "ans = Some f" "p = answered_with (f (ii_message i) (ii_context i)) out"
    and ok: "0 < time_given cfg i" "1 \<le> cfg_max_pending cfg" "sd_name st \<noteq> []" "get_step wk (sd_name st) = Inr st"
      "cfg_command_model cfg (command_dump c) = Inr c"
    by (auto simp: goes_on_def asks_def)
  have calm: "calm r w" using u f(1) by (simp add: unasked_def)
  have room: "has_room cfg r s w" using calm_room [OF calm _ ok(2)] l by (simp add: loaded_def)
  obtain w' q where w': "await_interrupt cfg r st out h c i w = (Inr (), w')" "asked r q (run_of w' r) w'"
    "q = request_for cfg r (sd_name st) i w (rs_epoch (run_of w' r))"
    "rs_metadata (run_of w' r) = dset ''pending_interrupt_resume'' (pending_resume (sd_name st) out h c) (rs_metadata s)"
    "rs_current_step (run_of w' r) = rs_current_step s" "rs_artifacts (run_of w' r) = rs_artifacts s"
    "place (run_of w' r) w' = place s w" "calm r w \<longrightarrow> calm_but r (ir_interrupt_id q) w'" "w_now w' = w_now w"
    by (rule await_interrupt_ok [OF cfg l room])
  have leave: "leave_step cfg wk r st out h cmd w = (Inr None, w')"
    using w'(1) cmd by (simp add: leave_step_def py_simps)
  have q: "ir_message q = ii_message i" "ir_context q = ii_context i" "ir_expires_at q = w_now w + time_given cfg i"
    by (subst w'(3), simp add: request_for_def time_given_def)+
  have "approved_steps (run_of w' r) = approved_steps s" by (simp add: approved_steps_def w'(4) dget_or_def)
  then have "approvals (run_of w' r) = approvals s" by (simp add: approvals_def)
  then have "asking_with ans cfg wk fits r n w'"
    unfolding asking_with_def
    by (intro exI [of _ f] exI [of _ "run_of w' r"] exI [of _ q] exI [of _ st] exI [of _ out] exI [of _ h] exI [of _ c]
        exI [of _ m])
      (use w'(2,4-6,8,9) calm n f ok q m cmd fits in simp)
  then show ?thesis using leave w'(7) by (intro that)
qed

lemma leave_step_works:
  assumes cfg: "plain cfg" and l: "loaded r s w" and u: "unasked ans r w"
    and n: "rs_current_step s = Some n" "dget (wf_steps wk) n = Some st"
    and m: "resolve_next_step_for_step wk st out h cmd = Inr m" and g: "goes_on cfg wk ans st out cmd p"
    and fits: "fits (next_point m) p (rs_artifacts s) (approvals s)"
  shows "\<exists>res w'. leave_step cfg wk r st out h cmd w = (Inr res, w') \<and>
    (case res of
       None \<Rightarrow> ended fits r (place s w) w' \<or> asking_with ans cfg wk fits r n w' \<and> place (run_of w' r) w' = place s w
     | Some v \<Rightarrow> gone_on ans wk fits r n (place s w) v w')"
proof (cases "asks cmd")
  case (Some i)
  then obtain c where c: "cmd = Some c" "cmd_interrupt c = Some i" by (auto simp: asks_def bind_eq_Some_conv)
  obtain w' where "leave_step cfg wk r st out h cmd w = (Inr None, w')" "asking_with ans cfg wk fits r n w'"
    "place (run_of w' r) w' = place s w"
    by (rule question_asked [where fits = fits and p = p, OF cfg l u n c m g fits])
  then show ?thesis by auto
next
  case None
  then have quiet: "\<And>c. cmd = Some c \<Longrightarrow> cmd_interrupt c = None" and p: "p = out"
    using g by (auto simp: asks_def goes_on_def)
  obtain w1 where e: "emit_transition_events cfg r (sd_name st) m h w = (Inr (), w1)" and l1: "loaded r s w1"
    and p1: "place s w1 = place s w"
    by (rule emit_transition_events_ok [OF cfg l])
  have u1: "unasked ans r w1" by (rule unasked_same [OF u presD [OF req.pres_emit_transition_events e]])
  have run: "leave_step cfg wk r st out h cmd w =
      (if m = END_STEP then sq (complete_run cfg r) (ret None) else sq (move_to cfg r m) (ret (Some out))) w1"
    using m e quiet by (cases cmd) (simp_all add: leave_step_def choose_next_def py_simps)
  show ?thesis
  proof (cases "m = END_STEP")
    case True
    obtain w' where "complete_run cfg r w1 = (Inr (), w')" "finished fits r w'"
      "rs_thread_id (run_of w' r) = rs_thread_id s"
      by (rule complete_run_ok [OF cfg l1, of fits p]) (use fits True in \<open>simp add: next_point_def\<close>)
    with run True show ?thesis by (auto simp: py_simps place_def ended_def)
  next
    case False
    obtain w' s' where mv: "move_to cfg r m w1 = (Inr (), w')" "loaded r s' w'" "rs_current_step s' = Some m"
      "rs_artifacts s' = rs_artifacts s" "approvals s' = approvals s" "place s' w' = place s w1"
      by (rule move_to_ok [OF cfg l1])
    have "wf_edge wk n m"
      using resolved_legal [OF m] False n(2) by (auto simp: legal_target_def wf_edge_def)
    moreover have "unasked ans r w'" by (rule unasked_same [OF u1 presD [OF req.pres_move_to mv(1)]])
    ultimately have "gone_on ans wk fits r n (place s w) out w'"
      unfolding gone_on_def
      by (intro exI [of _ s'] exI [of _ m]) (use mv(2-6) p1 fits p False in \<open>simp add: next_point_def\<close>)
    with run False mv(1) show ?thesis by (auto simp: py_simps)
  qed
qed

text \<open>The executor and what is recorded of its output.\<close>

lemma step_executed:
  assumes cfg: "plain cfg" and sw: "step_works_with ans cfg wk fits n st" and l: "loaded r s w" and u: "unasked ans r w"
    and fits: "fits (Some n) p (rs_artifacts s) (approvals s)" and g: "requires_approval st s = Inr False"
  obtains w' s' out h cmd m p' where "execute_step cfg wk r st p w = leave_step cfg wk r st out h cmd w'"
    "loaded r s' w'" "unasked ans r w'" "rs_current_step s' = rs_current_step s" "place s' w' = place s w"
    "resolve_next_step_for_step wk st out h cmd = Inr m" "goes_on cfg wk ans st out cmd p'"
    "fits (next_point m) p' (rs_artifacts s') (approvals s')"
proof -
  obtain w2 v where e: "evaluate_policies cfg wk r (sd_name st) (gate_ctx wk st s) w = (v, w2)" "quiet w w2"
    "v = verdict (policies_for (cfg_policy_engine cfg) (wf_name wk)) (gate_ctx wk st s)"
    using l by (auto simp: loaded_def intro: evaluate_policies_verdict [OF cfg, of w r s wk "sd_name st" "gate_ctx wk st s"])
  have ok: "world_ok w" using l by (simp add: loaded_def)
  have l2: "loaded r s w2" by (rule quiet_loaded [OF e(2) world_ok_step [OF ev.pres_evaluate_policies ok e(1)] l])
  obtain y h cmd out m p' w3 where x: "run_executor cfg wk r st p w2 = (Inr (y, h, cmd), w3)" and t: "tidy (run_of w3 r)"
    and c: "goes_through cfg cmd (rs_channels s)" "out = handed_on y cmd" "goes_on cfg wk ans st out cmd p'"
    and m: "resolve_next_step_for_step wk st out h cmd = Inr m"
      "fits (next_point m) p' (artifacts_set (rs_artifacts s) (output_key st) out) (approvals (run_of w3 r) - {sd_name st})"
    and v: "v = Inr ()"
    using step_works_runs [OF sw l2 fits g] e(3) by auto
  have ok3: "world_ok w3" by (rule world_ok_step [OF ev.pres_run_executor _ x]) (use l2 in \<open>simp add: loaded_def\<close>)
  have s2: "dget (w_runs w2) r = Some s" using l2 by (simp add: loaded_def)
  have kept: "dget (w_runs w3) r = Some (run_of w3 r)" "body (run_of w3 r) = body s"
    using field_keptD [OF presD [OF execution_keeps_run(2) x] s2] by auto
  then have l3: "loaded r (run_of w3 r) w3" using ok3 t l2 body_fields(1) [OF kept(2)] by (simp add: loaded_def)
  obtain w4 s4 where rec: "record_output cfg r st y cmd w3 = (Inr out, w4)" and l4: "loaded r s4 w4"
    and s4: "place s4 w4 = place (run_of w3 r) w3" "rs_artifacts s4 = artifacts_set (rs_artifacts (run_of w3 r)) (output_key st) out"
      "approvals s4 = approvals (run_of w3 r) - {sd_name st}"
    by (rule record_output_ok [OF cfg l3 _ c(2)]) (use c(1) body_fields [OF kept(2)] in simp)
  have step: "rs_current_step s4 = rs_current_step s"
    using field_keptD [OF presD [OF field_record_output rec, of rs_current_step] kept(1)] loaded_run_of [OF l4]
      body_fields(2) [OF kept(2)] by simp
  have "guarded_execution cfg wk r st p w = (Inr (Some (y, h, cmd)), w3)"
    using e(1) v x loaded_run_of [OF l] by (simp add: guarded_execution_def py_simps state_of_def Let_def gate_ctx_def)
  then have run: "execute_step cfg wk r st p w = leave_step cfg wk r st out h cmd w4"
    using rec by (simp add: execute_step_def bnd_run)
  have "stores_same w2 w3" by (rule presD [OF stores_same.pres_run_executor x])
  then have same: "place s4 w4 = place s w"
    using s4(1) body_fields(8) [OF kept(2)] e(2) by (simp add: place_def quiet_def stores_same_def)
  have "unasked ans r w2" by (rule unasked_same [OF u quiet_requests [OF e(2)]])
  then have "unasked ans r w3" using presD [OF req.pres_run_executor x] by (rule unasked_same)
  then have u4: "unasked ans r w4" using presD [OF req.pres_record_output rec] by (rule unasked_same)
  have "fits (next_point m) p' (rs_artifacts s4) (approvals s4)" using m(2) s4(2,3) body_fields(3) [OF kept(2)] by simp
  then show ?thesis by (rule that [OF run l4 u4 step same m(1) c(3)])
qed

text \<open>A step that works completes the run, makes it wait, or moves on to a step that is given what it asks for.\<close>

lemma advance_step_works:
  assumes cfg: "plain cfg" and wx: "works_with ans cfg wk fits" and l: "loaded r s w" and u: "unasked ans r w"
    and n: "rs_current_step s = Some n" "dget (wf_steps wk) n = Some st"
    and fits: "fits (Some n) p (rs_artifacts s) (approvals s)"
  shows "\<exists>res w'. advance_step cfg wk r p w = (Inr res, w') \<and>
    (case res of
       None \<Rightarrow> ended fits r (place s w) w' \<or>
         place (run_of w' r) w' = place s w \<and>
         (requires_approval st s = Inr True \<and> gated_with ans wk fits r n w' \<or> asking_with ans cfg wk fits r n w')
     | Some v \<Rightarrow> gone_on ans wk fits r n (place s w) v w')"
proof -
  from wx n(2) have sw: "step_works_with ans cfg wk fits n st" by (simp add: works_with_def)
  have "check_artifacts (sd_name st) (rs_artifacts s) (sd_required_artifacts st) = Inr ()"
    using sw fits unfolding step_works_with_def by blast
  then have rd: "ready wk r st s w" using l n by (auto simp: ready_def loaded_def get_step_def)
  obtain g where g: "requires_approval st s = Inr g" using l requires_approval_tidy by (auto simp: loaded_def)
  define w1 where "w1 = log_event r STEP_ENTERED (Some (sd_name st)) [] w"
  note step = advance_step_ready [OF cfg rd g, folded w1_def]
  have l1: "loaded r s w1" by (rule quiet_loaded [OF step(2,3) l])
  have u1: "unasked ans r w1" by (rule unasked_same [OF u quiet_requests [OF step(2)]])
  have at: "place s w1 = place s w" using step(2) by (simp add: place_def quiet_def)
  show ?thesis
  proof (cases g)
    case True
    obtain w2 where a: "await_approval cfg r st (''Approval required for '' @ executor_name (sd_executor st)) p w1 =
        (Inr (), w2)" "gated_with ans wk fits r n w2" "place (run_of w2 r) w2 = place s w1"
      by (rule gate_closes [OF cfg l1 n, where fits = fits and p = p and ans = ans]) (use g True fits u1 in simp_all)
    with step(1) at g True show ?thesis by (auto simp: py_simps)
  next
    case False
    obtain w2 s2 out h cmd m p' where x: "execute_step cfg wk r st p w1 = leave_step cfg wk r st out h cmd w2"
      "loaded r s2 w2" "unasked ans r w2" "rs_current_step s2 = rs_current_step s" "place s2 w2 = place s w1"
      "resolve_next_step_for_step wk st out h cmd = Inr m" "goes_on cfg wk ans st out cmd p'"
      "fits (next_point m) p' (rs_artifacts s2) (approvals s2)"
      by (rule step_executed [OF cfg sw l1 u1 fits]) (use g False in simp)
    have "advance_step cfg wk r p w = leave_step cfg wk r st out h cmd w2" using step(1) False x(1) by simp
    moreover have at2: "place s2 w2 = place s w" using x(5) at by simp
    have "rs_current_step s2 = Some n" using x(4) n(1) by simp
    from leave_step_works [where fits = fits, OF cfg x(2,3) this n(2) x(6-8), unfolded at2]
    obtain res w' where "leave_step cfg wk r st out h cmd w2 = (Inr res, w')"
      "case res of
         None \<Rightarrow> ended fits r (place s w) w' \<or> asking_with ans cfg wk fits r n w' \<and> place (run_of w' r) w' = place s w
       | Some v \<Rightarrow> gone_on ans wk fits r n (place s w) v w'" by blast
    ultimately show ?thesis by (cases res) auto
  qed
qed

subsection \<open>The loop, approvals, answers and the entry\<close>

text \<open>\<open>b\<close> bounds the approvals and answers a run may still wait for: two for each rank below its step, and those
  of the step itself.\<close>

definition waits_at :: "answers \<Rightarrow> config \<Rightarrow> workflow \<Rightarrow> annotation \<Rightarrow> (string \<Rightarrow> nat) \<Rightarrow> nat \<Rightarrow> string \<times> string dict \<Rightarrow>
    string \<Rightarrow> world \<Rightarrow> bool" where
  "waits_at ans cfg wk fits rank b at r w \<longleftrightarrow>
     place (run_of w r) w = at \<and>
     (\<exists>n. gated_with ans wk fits r n w \<and> 2 * rank n + 2 \<le> b \<or> asking_with ans cfg wk fits r n w \<and> 2 * rank n + 1 \<le> b)"

definition on_course :: "answers \<Rightarrow> config \<Rightarrow> workflow \<Rightarrow> annotation \<Rightarrow> (string \<Rightarrow> nat) \<Rightarrow> nat \<Rightarrow> string \<times> string dict \<Rightarrow>
    string \<Rightarrow> loop_state \<Rightarrow> bool" where
  "on_course ans cfg wk fits rank b at r c =
     (case c of
        (Inl e, w) \<Rightarrow> False
      | (Inr None, w) \<Rightarrow> ended fits r at w \<or> waits_at ans cfg wk fits rank b at r w
      | (Inr (Some p), w) \<Rightarrow>
          (\<exists>s n st. loaded r s w \<and> unasked ans r w \<and> rs_current_step s = Some n \<and> dget (wf_steps wk) n = Some st \<and>
             fits (Some n) p (rs_artifacts s) (approvals s) \<and> place s w = at \<and>
             (2 * rank n + 2 \<le> b \<or> 2 * rank n + 1 \<le> b \<and> requires_approval st s = Inr False)))"

lemma loop_body_on_course:
  assumes cfg: "plain cfg" and wx: "works_with ans cfg wk fits" and rank: "acyclic_workflow rank wk"
    and c: "on_course ans cfg wk fits rank b at r c" and l: "looping r c"
  shows "on_course ans cfg wk fits rank b at r (loop_body cfg wk r c)"
proof -
  obtain p w where cw: "c = (Inr (Some p), w)" using l by (rule looping_cases)
  with c obtain s n st where s: "loaded r s w" "unasked ans r w" "rs_current_step s = Some n" "dget (wf_steps wk) n = Some st"
      "fits (Some n) p (rs_artifacts s) (approvals s)" and at: "place s w = at"
    and b: "2 * rank n + 2 \<le> b \<or> 2 * rank n + 1 \<le> b \<and> requires_approval st s = Inr False"
    by (auto simp: on_course_def)
  obtain res w' where x: "advance_step cfg wk r p w = (Inr res, w')"
    and res: "case res of
       None \<Rightarrow> ended fits r at w' \<or>
         place (run_of w' r) w' = at \<and>
         (requires_approval st s = Inr True \<and> gated_with ans wk fits r n w' \<or> asking_with ans cfg wk fits r n w')
     | Some v \<Rightarrow> gone_on ans wk fits r n at v w'"
    using advance_step_works [where fits = fits, OF cfg wx s, unfolded at] by blast
  show ?thesis
  proof (cases res)
    case None
    with x res b show ?thesis by (auto simp: cw loop_body_def on_course_def waits_at_def)
  next
    case (Some v)
    with res obtain s' m where m: "loaded r s' w'" "unasked ans r w'" "rs_current_step s' = Some m" "wf_edge wk n m"
      "place s' w' = at" "fits (Some m) v (rs_artifacts s') (approvals s')" by (auto simp: gone_on_def)
    moreover have "rank m < rank n" using rank m(4) by (auto simp: acyclic_workflow_def)
    with b have "2 * rank m + 2 \<le> b" by auto
    moreover obtain st' where "dget (wf_steps wk) m = Some st'" using m(4) by (auto simp: wf_edge_def dhas_def)
    ultimately show ?thesis using x Some by (auto simp: cw loop_body_def on_course_def)
  qed
qed

text \<open>What the loop, and so an entry point, returns.\<close>

definition delivered :: "answers \<Rightarrow> config \<Rightarrow> workflow \<Rightarrow> annotation \<Rightarrow> (string \<Rightarrow> nat) \<Rightarrow> nat \<Rightarrow> string \<times> string dict \<Rightarrow> string \<Rightarrow>
    ((exn + run_state) \<times> world) option \<Rightarrow> bool" where
  "delivered ans cfg wk fits rank b at r x \<longleftrightarrow>
     (\<exists>w'. x = Some (Inr (run_of w' r), w') \<and> (ended fits r at w' \<or> waits_at ans cfg wk fits rank b at r w'))"

text \<open>Where nobody answers, a run that waits waits for an approval.\<close>

lemma delivered_plain:
  "delivered None cfg wk fits rank b at r x \<longleftrightarrow>
     (\<exists>w'. x = Some (Inr (run_of w' r), w') \<and>
        (finished fits r w' \<and> rs_thread_id (run_of w' r) = fst at \<or>
         (\<exists>n. gated wk fits r n w' \<and> 2 * rank n + 2 \<le> b \<and> place (run_of w' r) w' = at)))"
  by (auto simp: delivered_def ended_def waits_at_def)

lemma advance_works:
  assumes cfg: "plain cfg" and wx: "works_with ans cfg wk fits" and rank: "acyclic_workflow rank wk"
    and c: "on_course ans cfg wk fits rank b at r (Inr (Some p), w)"
  shows "delivered ans cfg wk fits rank b at r (advance cfg wk r p w)"
proof -
  from c obtain s where s: "loaded r s w" by (auto simp: on_course_def)
  then have "dget (w_runs w) r = Some s" "rs_status s = RUNNING" "cached_ok w" "stored_ok w"
    by (simp_all add: loaded_def world_ok_def)
  from advance_ends [OF rank this, of cfg p]
  obtain c' where c': "while_option (looping r) (loop_body cfg wk r) (Inr (Some p), w) = Some c'"
    by (auto simp: advance_def)
  have inv: "on_course ans cfg wk fits rank b at r c'"
    by (rule while_option_rule [where P = "on_course ans cfg wk fits rank b at r", OF _ c' c])
      (rule loop_body_on_course [OF cfg wx rank])
  have stop: "\<not> looping r c'" using while_option_stop [OF c'] .
  obtain res w' where cw: "c' = (res, w')" by (cases c')
  have "res = Inr None"
  proof (cases res)
    case (Inr q)
    with inv stop cw show ?thesis
      by (cases q) (auto simp: on_course_def looping_def loaded_def run_of_def)
  qed (use inv cw in \<open>simp add: on_course_def\<close>)
  with inv c' cw show ?thesis by (auto simp: delivered_def advance_def on_course_def)
qed

lemma gate_opens:
  assumes cfg: "plain cfg" and g: "gated_with ans wk fits r n w" and d: "approves cfg (w_now w) p d"
    and more: "\<And>q A G st. fits (Some n) q A G \<Longrightarrow> dget (wf_steps wk) n = Some st \<Longrightarrow> fits' (Some n) q A (insert (sd_name st) G)"
  obtains q w' where "prepare_resume cfg wk r p w = (Inr (r, Some q), w')"
    "on_course ans cfg wk fits' rank (2 * rank n + 1) (place (run_of w r) w) r (Inr (Some q), w')"
proof -
  from g obtain s q given v st where wf: "waiting_for r q given s w" and s: "rs_current_step s = Some n"
    "dget (wf_steps wk) n = Some st" "ar_step_name q = sd_name st"
    "dget (rs_metadata s) ''pending_input'' = Some v" "fits (Some n) v (rs_artifacts s) (approvals s)"
    and u: "unasked ans r w"
    by (auto simp: gated_with_def)
  have v: "dget_or (rs_metadata s) ''pending_input'' JNull = v" using s(4) by (simp add: dget_or_def)
  obtain w1 s1 given1 where g1: "grant_first cfg r q d w = (Inr v, w1)" and wf1: "waiting_for r q given1 s1 w1"
    and s1: "rs_current_step s1 = rs_current_step s" "rs_artifacts s1 = rs_artifacts s"
      "approvals s1 = insert (sd_name st) (approvals s)" "rs_thread_id s1 = rs_thread_id s" "w_store w1 = w_store w"
    by (rule grant_first_ok [OF cfg wf, of d, unfolded v s(3)])
  have s1': "dget (w_runs w1) r = Some s1" "world_ok w1" "approved_steps s1 = Inr (map JStr given1)"
    using wf1 by (simp_all add: waiting_for_def)
  obtain w2 where g2: "grant_rest cfg r v w1 = (Inr (r, Some v), w2)"
    and s2: "dget (w_runs w2) r = Some (run_of w2 r)" "rs_status (run_of w2 r) = RUNNING"
      "rs_current_step (run_of w2 r) = rs_current_step s1" "rs_artifacts (run_of w2 r) = rs_artifacts s1"
      "rs_metadata (run_of w2 r) = rs_metadata s1" "world_ok w2"
      "rs_thread_id (run_of w2 r) = rs_thread_id s1" "st_thread_active (w_store w2) = st_thread_active (w_store w1)"
    by (rule grant_rest_ok [OF cfg s1'(2,1)])
  have tidy: "tidy (run_of w2 r)" using s1'(3) tidy_metadata [OF s2(5)] by (auto simp: tidy_def)
  then have l: "loaded r (run_of w2 r) w2" using s2 by (simp add: loaded_def)
  have a: "approvals (run_of w2 r) = insert (sd_name st) (approvals s)" using approvals_metadata [OF s2(5)] s1(3) by simp
  have "run_of w r = s" using wf by (simp add: waiting_for_def run_of_def)
  then have at: "place (run_of w2 r) w2 = place (run_of w r) w" using s1(4,5) s2(7,8) by (simp add: place_def)
  have run: "prepare_resume cfg wk r p w = (Inr (r, Some v), w2)"
    using approve_first_waiting [OF wf d] g1 g2 by (simp add: py_simps)
  from d have "grant_run cfg r q d w = (Inr (r, Some v), w2)"
    using prepare_resume_waiting [OF wf] run by (auto simp: approves_def)
  then have "unasked ans r w2" using unasked_same [OF u presD [OF req.pres_grant_run]] by blast
  then have "on_course ans cfg wk fits' rank (2 * rank n + 1) (place (run_of w r) w) r (Inr (Some v), w2)"
    using l s s1 s2(3,4) a at more [OF s(5,2)] requires_approval_tidy [OF tidy] by (auto simp: on_course_def)
  with run show ?thesis by (rule that)
qed

lemma resume_works:
  assumes cfg: "plain cfg" and wx: "works_with ans cfg wk fits'" and rank: "acyclic_workflow rank wk"
    and g: "gated_with ans wk fits r n w" and d: "approves cfg (w_now w) p d"
    and more: "\<And>q A G st. fits (Some n) q A G \<Longrightarrow> dget (wf_steps wk) n = Some st \<Longrightarrow> fits' (Some n) q A (insert (sd_name st) G)"
  shows "delivered ans cfg wk fits' rank (2 * rank n + 1) (place (run_of w r) w) r (resume_workflow cfg wk r p w)"
proof -
  obtain q w' where q: "prepare_resume cfg wk r p w = (Inr (r, Some q), w')"
    "on_course ans cfg wk fits' rank (2 * rank n + 1) (place (run_of w r) w) r (Inr (Some q), w')"
    by (rule gate_opens [OF cfg g d, of fits' rank]) (rule more)
  with advance_works [OF cfg wx rank q(2)] show ?thesis by (simp add: resume_workflow_def then_advance_def)
qed

text \<open>The answer to the question a run waits with.\<close>

definition answer_of :: "answers \<Rightarrow> run_state \<Rightarrow> world \<Rightarrow> resume_input" where
  "answer_of ans s w =
     (case rs_pending_interrupt_id s of
        None \<Rightarrow> GivenText []
      | Some i \<Rightarrow>
          (case (mem_get_request (w_intr w) (rs_run_id s) i, ans) of
             (Some q, Some f) \<Rightarrow> GivenPayload (ResumeInterrupt i (f (ir_message q) (ir_context q)) None)
           | _ \<Rightarrow> GivenText []))"

lemma answer_works:
  assumes cfg: "plain cfg" and wx: "works_with ans cfg wk fits" and rank: "acyclic_workflow rank wk"
    and a: "asking_with ans cfg wk fits r n w"
  shows "delivered ans cfg wk fits rank (2 * rank n) (place (run_of w r) w) r
    (resume_workflow cfg wk r (answer_of ans (run_of w r) w) w)"
proof -
  from a obtain f s q st out h c m where ans: "ans = Some f" and q: "asked r q s w" "calm_but r (ir_interrupt_id q) w"
    and n: "rs_current_step s = Some n" "dget (wf_steps wk) n = Some st" and t: "w_now w < ir_expires_at q"
    and k: "dget (rs_metadata s) ''pending_interrupt_resume'' = Some (pending_resume (sd_name st) out h c)"
    and st: "sd_name st \<noteq> []" "get_step wk (sd_name st) = Inr st" and c: "cfg_command_model cfg (command_dump c) = Inr c"
    and m: "resolve_next_step_for_step wk st out h (Some c) = Inr m"
    and fits: "fits (next_point m) (answered_with (f (ir_message q) (ir_context q)) out) (rs_artifacts s) (approvals s)"
    unfolding asking_with_def by (elim exE conjE) rule
  let ?v = "f (ir_message q) (ir_context q)"
  let ?p = "GivenPayload (ResumeInterrupt (ir_interrupt_id q) ?v None)"
  have s: "run_of w r = s" "rs_run_id s = r"
    using q(1) world_ok_drawn(1) by (auto simp: asked_def run_of_def)
  have p: "answer_of ans s w = ?p" using q(1) ans s(2) by (simp add: answer_of_def asked_def)
  have norm: "normalize_resume_payload cfg ?p = Inr (ResumeInterrupt (ir_interrupt_id q) ?v None)"
    by (simp add: normalize_resume_payload_def Let_def)
  obtain w1 where w1: "prepare_resume cfg wk r ?p w = resume_transition cfg wk r ?v w1" "answered r q s (run_of w1 r) w1"
    "place (run_of w1 r) w1 = place s w" "calm_but r (ir_interrupt_id q) w \<longrightarrow> calm r w1"
    by (rule answer_ok [OF cfg q(1) t norm]) simp_all
  have l1: "loaded r (run_of w1 r) w1" and k1: "dget (rs_metadata (run_of w1 r)) ''pending_interrupt_resume'' =
      Some (pending_resume (sd_name st) out h c)" using w1(2) k by (simp_all add: answered_def)
  obtain w2 where w2: "resume_transition cfg wk r ?v w1 =
      (Inr (r, if m = END_STEP then None else Some (answered_with ?v out)), w2)" and mv: "moved_on r m (run_of w1 r) w1 w2"
    by (rule transition_ok [OF cfg l1 k1 st(1) c st(2) m, of ?v, folded answered_with_def])
  have "approved_steps (run_of w2 r) = approved_steps s"
    using mv w1(2) by (simp add: moved_on_def answered_def approved_steps_def dget_or_def)
  then have kept: "approvals (run_of w2 r) = approvals s" "tidy (run_of w2 r) = tidy s" "rs_artifacts (run_of w2 r) = rs_artifacts s"
    using mv w1(2) by (simp_all add: approvals_def tidy_def moved_on_def answered_def)
  have tidy: "tidy s" using q(1) by (simp add: asked_def)
  show ?thesis
  proof (cases "m = END_STEP")
    case True
    have "finished fits r w2" "rs_thread_id (run_of w2 r) = fst (place s w)"
      using mv kept True fits w1(3) by (auto simp: finished_def moved_on_def next_point_def place_def)
    moreover have "resume_workflow cfg wk r ?p w = Some (Inr (run_of w2 r), w2)"
      using w1(1) w2 True by (simp add: resume_workflow_def then_advance_def)
    ultimately show ?thesis unfolding s(1) p delivered_def ended_def by blast
  next
    case False
    have run: "resume_workflow cfg wk r ?p w = advance cfg wk r (answered_with ?v out) w2"
      using w1(1) w2 False by (simp add: resume_workflow_def then_advance_def)
    have "wf_edge wk n m" using resolved_legal [OF m] False n(2) by (auto simp: legal_target_def wf_edge_def)
    then have edge: "rank m < rank n" "\<exists>st'. dget (wf_steps wk) m = Some st'"
      using rank by (auto simp: acyclic_workflow_def wf_edge_def dhas_def)
    have "calm r w2" using w1(4) q(2) mv by (simp add: calm_def moved_on_def)
    moreover have "loaded r (run_of w2 r) w2" "rs_current_step (run_of w2 r) = Some m" "place (run_of w2 r) w2 = place s w"
      using mv kept(2) tidy False w1(3) by (simp_all add: moved_on_def loaded_def next_point_def place_def)
    ultimately have "on_course ans cfg wk fits rank (2 * rank n) (place s w) r (Inr (Some (answered_with ?v out)), w2)"
      using edge fits kept False by (auto simp: on_course_def unasked_def next_point_def)
    from advance_works [OF cfg wx rank this] show ?thesis unfolding s(1) p run .
  qed
qed

lemma start_run_ok:
  assumes cfg: "plain cfg" and ok: "world_ok w" and e: "wf_entry wk = Some n"
  obtains r s w' where "start_run cfg wk data th w = (Inr (r, Some (to_payload data)), w')"
    "loaded r s w'" "rs_current_step s = Some n"
    "rs_artifacts s = []" "approvals s = {}" "rs_run_id s = r"
    "rs_thread_id s = (case th of None \<Rightarrow> r | Some t \<Rightarrow> t)"
    "dget (st_thread_active (w_store w')) (rs_thread_id s) = Some r"
    "unasked ans (uuid_of (w_fresh w)) w \<longrightarrow> unasked ans r w'"
proof -
  obtain r w1 where o: "open_run cfg wk th w = (Inr (r, n), w1)"
    and s1: "dget (w_runs w1) r = Some (new_run_state r th (wf_name wk) (Some n) (cfg_channel_defaults cfg) (w_now w))"
    and r: "r = uuid_of (w_fresh w)" and i1: "mem_get_request (w_intr w1) r = mem_get_request (w_intr w) r"
    using e by (auto simp: open_run_run Let_def entry_step_name_def put_intr_def bump_epoch_def)
  let ?s = "new_run_state r th (wf_name wk) (Some n) (cfg_channel_defaults cfg) (w_now w)"
  have ok1: "world_ok w1" by (rule world_ok_step [OF ev.R_open ok o])
  obtain w2 where p2: "persist_state cfg r w1 = (Inr (), w2)" "persisted r ?s w1 w2" and ok2: "world_ok w2"
    using persist_ok [OF cfg ok1 s1] by (auto simp: state_consistent_def new_run_state_def)
  note s2 = persisted_state [OF p2(2)]
  obtain w3 where p3: "register_active_run r w2 = (Inr (), w3)" "w_runs w3 = w_runs w2"
    "w_store w3 = set_active_run_id (rs_thread_id (run_of w2 r)) r (w_store w2)"
    by (simp add: register_active_run_def py_simps state_of_def put_store_def)
  have ok3: "world_ok w3" by (rule world_ok_step [OF ev.pres_register_active ok2 p3(1)])
  have s3: "dget (w_runs w3) r = Some (run_of w2 r)" using p3(2) s2(1,2) by simp
  let ?w4 = "log_event r RUN_STARTED None [(''entry_step'', JStr n)] w3"
  have p4: "emit_audit cfg r (wf_name wk) RUN_STARTED None [(''entry_step'', JStr n)] w3 = (Inr (), ?w4)"
    by (rule emit_audit_plain [OF cfg s3]) (simp add: s2(2) new_run_state_def)
  have ok4: "world_ok ?w4" by (rule world_ok_step [OF ev.pres_emit_audit ok3 p4])
  have s4: "dget (w_runs ?w4) r = Some (run_of w2 r)" using s3 by simp
  let ?f = "\<lambda>s. s\<lparr>rs_status := RUNNING\<rparr>"
  let ?k = "ret (r, Some (to_payload data)) :: (string \<times> json option) rt"
  have f: "same_identity (run_of w2 r) (?f (run_of w2 r))" "state_consistent (?f (run_of w2 r))"
    by (simp_all add: same_identity_def state_consistent_def)
  have start: "start_run cfg wk data th w =
      sq (update_state r ?f) (sq (touch_state r) (sq (persist_state cfg r) ?k)) ?w4"
    using o p2(1) p3(1) p4 by (simp add: start_run_def begin_run_def py_simps)
  obtain w5 where w5: "start_run cfg wk data th w = ?k w5" "dget (w_runs w5) r = Some (run_of w5 r)"
    "run_of w5 r = written (uuid_of (w_fresh ?w4)) (get (w_store ?w4) r) (cleared (touch (w_now ?w4) (?f (run_of w2 r))))"
    "world_ok w5" "\<not> terminal (rs_status (?f (run_of w2 r))) \<Longrightarrow> st_thread_active (w_store w5) = st_thread_active (w_store ?w4)"
    "w_intr w5 = w_intr ?w4"
    unfolding start by (rule change_persist [where f = ?f and k = ?k, OF cfg ok4 s4 f]) blast
  have "rs_metadata (run_of w5 r) = []" by (simp add: w5(3) s2(2) new_run_state_def)
  then have "tidy (run_of w5 r)" by (simp add: tidy_def approved_steps_def dget_or_def)
  with w5(2-4) have "loaded r (run_of w5 r) w5" by (simp add: loaded_def)
  moreover have "rs_current_step (run_of w5 r) = Some n" "rs_artifacts (run_of w5 r) = []"
    by (simp_all add: w5(3) s2(2) new_run_state_def)
  moreover have "approvals (run_of w5 r) = {}"
    using \<open>rs_metadata (run_of w5 r) = []\<close> by (simp add: approvals_def approved_steps_def dget_or_def)
  moreover have "rs_run_id (run_of w5 r) = r" "rs_thread_id (run_of w5 r) = (case th of None \<Rightarrow> r | Some t \<Rightarrow> t)"
    by (simp_all add: w5(3) s2(2) new_run_state_def)
  moreover have "dget (st_thread_active (w_store w3)) (rs_thread_id (run_of w2 r)) = Some r"
    using p3(3) by (simp add: set_active_run_id_def Let_def)
  then have "dget (st_thread_active (w_store w5)) (rs_thread_id (run_of w5 r)) = Some r"
    by (simp add: w5(3) w5(5) terminal_def)
  moreover have "unasked ans r w5" if "unasked ans (uuid_of (w_fresh w)) w"
  proof -
    have "unasked ans r w1" using that by (simp add: unasked_def calm_def r [symmetric] i1)
    then have "unasked ans r w2" using presD [OF req.pres_persist p2(1)] by (rule unasked_same)
    then have "unasked ans r w3" using presD [OF req.pres_register_active p3(1)] by (rule unasked_same)
    then have "unasked ans r ?w4" using presD [OF req.pres_emit_audit p4] by (rule unasked_same)
    moreover have "w_intr w5 = w_intr ?w4" by (rule w5(6))
    ultimately show ?thesis by (simp add: unasked_def calm_def)
  qed
  ultimately show ?thesis using that w5(1) by (simp add: py_simps)
qed

lemma run_works:
  assumes cfg: "plain cfg" and ok: "world_ok w" and wx: "works_with ans cfg wk fits" and rank: "acyclic_workflow rank wk"
    and e: "wf_entry wk = Some n" "dhas (wf_steps wk) n" "fits (Some n) (to_payload data) [] {}"
    and u: "unasked ans (uuid_of (w_fresh w)) w"
  shows "\<exists>r at. delivered ans cfg wk fits rank (2 * rank n + 2) at r (run_workflow cfg wk data th w) \<and>
    fst at = (case th of None \<Rightarrow> r | Some t \<Rightarrow> t) \<and> dget (snd at) (fst at) = Some r"
proof -
  obtain r s w1 where st: "start_run cfg wk data th w = (Inr (r, Some (to_payload data)), w1)"
    and l: "loaded r s w1" "rs_current_step s = Some n" "rs_artifacts s = []" "approvals s = {}"
      "rs_thread_id s = (case th of None \<Rightarrow> r | Some t \<Rightarrow> t)" "dget (st_thread_active (w_store w1)) (rs_thread_id s) = Some r"
    and u1: "unasked ans (uuid_of (w_fresh w)) w \<longrightarrow> unasked ans r w1"
    by (rule start_run_ok [OF cfg ok e(1)])
  obtain st where "dget (wf_steps wk) n = Some st" using e(2) by (auto simp: dhas_def)
  with l e(3) u u1 have "on_course ans cfg wk fits rank (2 * rank n + 2) (place s w1) r (Inr (Some (to_payload data)), w1)"
    by (auto simp: on_course_def)
  from advance_works [OF cfg wx rank this] st l(5,6) show ?thesis
    by (intro exI [of _ r] exI [of _ "place s w1"]) (auto simp: run_workflow_def then_advance_def place_def)
qed

corollary run_works_plain:
  assumes "plain cfg" "world_ok w" "works cfg wk fits" "acyclic_workflow rank wk"
    and "wf_entry wk = Some n" "dhas (wf_steps wk) n" "fits (Some n) (to_payload data) [] {}"
  shows "\<exists>r at w'. run_workflow cfg wk data th w = Some (Inr (run_of w' r), w') \<and>
    (finished fits r w' \<or> (\<exists>n. gated wk fits r n w' \<and> place (run_of w' r) w' = at)) \<and>
    fst at = (case th of None \<Rightarrow> r | Some t \<Rightarrow> t) \<and> dget (snd at) (fst at) = Some r"
  using run_works [OF assms unasked_nobody, of th] unfolding delivered_plain by blast

text \<open>A caller that attends to a run as long as it waits, at most \<open>b\<close> times: approvals are given with \<open>p\<close>, questions
  answered with \<open>ans\<close>.\<close>

primrec attend :: "config \<Rightarrow> workflow \<Rightarrow> resume_input \<Rightarrow> answers \<Rightarrow> nat \<Rightarrow> (exn + run_state) \<times> world \<Rightarrow>
    ((exn + run_state) \<times> world) option" where
  "attend cfg wk p ans 0 c = Some c"
| "attend cfg wk p ans (Suc b) c =
     (case c of
        (Inl e, w) \<Rightarrow> Some c
      | (Inr s, w) \<Rightarrow>
          if rs_status s = WAITING_APPROVAL
          then Option.bind (resume_workflow cfg wk (rs_run_id s) p w) (attend cfg wk p ans b)
          else if rs_status s = WAITING_INTERRUPT
          then Option.bind (resume_workflow cfg wk (rs_run_id s) (answer_of ans s w) w) (attend cfg wk p ans b)
          else Some c)"

lemma gated_run: "gated_with ans wk fits r n w \<Longrightarrow> rs_status (run_of w r) = WAITING_APPROVAL \<and> rs_run_id (run_of w r) = r"
  by (auto simp: gated_with_def waiting_for_def run_of_def world_ok_drawn(1))

lemma asking_run: "asking_with ans cfg wk fits r n w \<Longrightarrow> rs_status (run_of w r) = WAITING_INTERRUPT \<and> rs_run_id (run_of w r) = r"
  by (auto simp: asking_with_def asked_def run_of_def world_ok_drawn(1))

lemma delivered_mono: "delivered ans cfg wk fits rank b at r x \<Longrightarrow> b \<le> b' \<Longrightarrow> delivered ans cfg wk fits rank b' at r x"
  unfolding delivered_def waits_at_def by (blast intro: order_trans)

lemma attended:
  assumes cfg: "plain cfg" and wx: "works_with ans cfg wk fits" and rank: "acyclic_workflow rank wk"
    and d: "\<forall>now. \<exists>d. approves cfg now p d"
    and more: "\<And>n q A G st. fits (Some n) q A G \<Longrightarrow> dget (wf_steps wk) n = Some st \<Longrightarrow>
      fits (Some n) q A (insert (sd_name st) G)"
    and x: "delivered ans cfg wk fits rank b at r x"
  shows "\<exists>w'. Option.bind x (attend cfg wk p ans b) = Some (Inr (run_of w' r), w') \<and> finished fits r w'"
  using x
proof (induction b arbitrary: x)
  case 0
  then show ?case by (auto simp: delivered_def ended_def waits_at_def)
next
  case (Suc b)
  then obtain w' where x: "x = Some (Inr (run_of w' r), w')"
    and w': "ended fits r at w' \<or> waits_at ans cfg wk fits rank (Suc b) at r w'" by (auto simp: delivered_def)
  from w' show ?case
  proof
    assume "ended fits r at w'"
    then show ?thesis using x by (auto simp: ended_def finished_def)
  next
    assume w: "waits_at ans cfg wk fits rank (Suc b) at r w'"
    then have at: "place (run_of w' r) w' = at" by (simp add: waits_at_def)
    from w obtain n where "gated_with ans wk fits r n w' \<and> 2 * rank n + 2 \<le> Suc b \<or>
        asking_with ans cfg wk fits r n w' \<and> 2 * rank n + 1 \<le> Suc b" by (auto simp: waits_at_def)
    then show ?thesis
    proof (elim disjE conjE)
      assume g: "gated_with ans wk fits r n w'" "2 * rank n + 2 \<le> Suc b"
      obtain d' where d': "approves cfg (w_now w') p d'" using d by blast
      have "delivered ans cfg wk fits rank (2 * rank n + 1) at r (resume_workflow cfg wk r p w')"
        using resume_works [OF cfg wx rank g(1) d' more] at by simp
      then have "delivered ans cfg wk fits rank b at r (resume_workflow cfg wk r p w')"
        by (rule delivered_mono) (use g in simp)
      from Suc.IH [OF this] show ?thesis using gated_run [OF g(1)] x by simp
    next
      assume a: "asking_with ans cfg wk fits r n w'" "2 * rank n + 1 \<le> Suc b"
      have "delivered ans cfg wk fits rank (2 * rank n) at r
          (resume_workflow cfg wk r (answer_of ans (run_of w' r) w') w')"
        using answer_works [OF cfg wx rank a(1)] at by simp
      then have "delivered ans cfg wk fits rank b at r (resume_workflow cfg wk r (answer_of ans (run_of w' r) w') w')"
        by (rule delivered_mono) (use a in simp)
      from Suc.IH [OF this] show ?thesis using asking_run [OF a(1)] x by simp
    qed
  qed
qed

text \<open>C9: total correctness of whole runs, approvals and questions included. A workflow without cycles is annotated so
  that each step works: started as its annotation says (payload, artifacts, approvals held) it hands on what
  the annotation of the next step asks for, its output or the answer to the question its command asks. Then
  a run started on a payload the entry step fits completes, when its approvals are given and its questions
  answered, after at most two such rounds for each rank up to the entry: it is returned COMPLETED with no current
  step, its artifacts are as the annotation of the end says, it is stored as returned, and its thread no
  longer has it as the active run.\<close>

theorem annotated_workflow_completes:
  assumes cfg: "plain cfg" and ok: "world_ok w" and wx: "works_with ans cfg wk fits" and rank: "acyclic_workflow rank wk"
    and e: "wf_entry wk = Some n" "dhas (wf_steps wk) n" "fits (Some n) (to_payload data) [] {}"
    and u: "unasked ans (uuid_of (w_fresh w)) w"
    and d: "\<forall>now. \<exists>d. approves cfg now p d"
    and more: "\<And>n q A G st. fits (Some n) q A G \<Longrightarrow> dget (wf_steps wk) n = Some st \<Longrightarrow>
      fits (Some n) q A (insert (sd_name st) G)"
  shows "\<exists>s w' out. Option.bind (run_workflow cfg wk data th w) (attend cfg wk p ans (2 * rank n + 2)) = Some (Inr s, w') \<and>
    rs_status s = COMPLETED \<and> rs_current_step s = None \<and> fits None out (rs_artifacts s) (approvals s) \<and>
    get (w_store w') (rs_run_id s) = Some s \<and>
    dget (st_thread_active (w_store w')) (rs_thread_id s) \<noteq> Some (rs_run_id s)"
proof -
  obtain r at where "delivered ans cfg wk fits rank (2 * rank n + 2) at r (run_workflow cfg wk data th w)"
    using run_works [OF cfg ok wx rank e u] by blast
  from attended [OF cfg wx rank d more this] show ?thesis by (fastforce simp: finished_def)
qed

subsection \<open>Workflows that need no approval\<close>

text \<open>The steps need no approval and the annotation speaks of payloads only: \<open>fits n p\<close>.\<close>

definition step_serves :: "config \<Rightarrow> workflow \<Rightarrow> (string \<Rightarrow> json \<Rightarrow> bool) \<Rightarrow> string \<Rightarrow> step \<Rightarrow> bool" where
  "step_serves cfg wk fits n st \<longleftrightarrow>
     sd_required_artifacts st = [] \<and>
     (sd_approval_override st = Some False \<or>
      sd_approval_override st = None \<and> \<not> executor_requires_approval (sd_executor st)) \<and>
     (\<forall>s. verdict (policies_for (cfg_policy_engine cfg) (wf_name wk)) (gate_ctx wk st s) = Inr ()) \<and>
     (\<forall>r w payload. loaded r (run_of w r) w \<and> fits n payload \<longrightarrow>
        (\<exists>out m w'. run_executor cfg wk r st payload w = (Inr (out, None, None), w') \<and>
           tidy (run_of w' r) \<and> resolve_next_step_for_step wk st out None None = Inr m \<and>
           (m = END_STEP \<or> fits m out)))"

definition serves :: "config \<Rightarrow> workflow \<Rightarrow> (string \<Rightarrow> json \<Rightarrow> bool) \<Rightarrow> bool" where
  "serves cfg wk fits \<longleftrightarrow> (\<forall>n st. dget (wf_steps wk) n = Some st \<longrightarrow> step_serves cfg wk fits n st)"

definition payload_note :: "(string \<Rightarrow> json \<Rightarrow> bool) \<Rightarrow> annotation" where
  "payload_note fits n p A G = (case n of None \<Rightarrow> True | Some m \<Rightarrow> fits m p)"

lemma serves_works: "serves cfg wk fits \<Longrightarrow> works cfg wk (payload_note fits)"
  unfolding works_def
proof (intro allI impI)
  fix n st assume "serves cfg wk fits" "dget (wf_steps wk) n = Some st"
  then have st: "step_serves cfg wk fits n st" by (simp add: serves_def)
  show "step_works cfg wk (payload_note fits) n st"
  proof (rule step_worksI, intro conjI allI impI; (elim conjE)?)
    fix r s w p
    assume l: "loaded r s w" and p: "payload_note fits (Some n) p (rs_artifacts s) (approvals s)"
    have "loaded r (run_of w r) w" using l loaded_run_of [OF l] by simp
    then obtain out m w' where "run_executor cfg wk r st p w = (Inr (out, None, None), w')" "tidy (run_of w' r)"
      "resolve_next_step_for_step wk st out None None = Inr m" "m = END_STEP \<or> fits m out"
      using st p by (fastforce simp: step_serves_def payload_note_def)
    then show "\<exists>out h m w'. run_executor cfg wk r st p w = (Inr (out, h, None), w') \<and> tidy (run_of w' r) \<and>
        resolve_next_step_for_step wk st out h None = Inr m \<and>
        payload_note fits (next_point m) out (artifacts_set (rs_artifacts s) (output_key st) out)
          (approvals (run_of w' r) - {sd_name st})"
      by (auto simp: payload_note_def next_point_def split: option.splits)
  qed (use st in \<open>simp_all add: step_serves_def\<close>)
qed

lemma serves_no_gate:
  assumes "serves cfg wk fits" "gated wk fits' r n w"
  shows False
proof -
  from assms(2) obtain s given st where s: "approved_steps s = Inr (map JStr given)" "dget (wf_steps wk) n = Some st"
    "requires_approval st s = Inr True" by (auto simp: gated_def waiting_for_def)
  with assms(1) have "step_serves cfg wk fits n st" by (simp add: serves_def)
  with s show False by (auto simp: step_serves_def requires_approval_def split: if_splits)
qed

text \<open>Such a workflow without cycles completes at once.\<close>

theorem serving_workflow_completes:
  assumes cfg: "plain cfg" and ok: "world_ok w" and sv: "serves cfg wk fits" and rank: "acyclic_workflow rank wk"
    and e: "wf_entry wk = Some n" "dhas (wf_steps wk) n" "fits n (to_payload data)"
  shows "\<exists>s w'. run_workflow cfg wk data th w = Some (Inr s, w') \<and> rs_status s = COMPLETED \<and>
    rs_current_step s = None \<and> get (w_store w') (rs_run_id s) = Some s \<and>
    dget (st_thread_active (w_store w')) (rs_thread_id s) \<noteq> Some (rs_run_id s)"
proof -
  have "payload_note fits (Some n) (to_payload data) [] {}" using e(3) by (simp add: payload_note_def)
  from run_works_plain [OF cfg ok serves_works [OF sv] rank e(1,2) this, of th]
  obtain r w' where "run_workflow cfg wk data th w = Some (Inr (run_of w' r), w')" "finished (payload_note fits) r w'"
    by (auto dest: serves_no_gate [OF sv])
  then show ?thesis by (auto simp: finished_def)
qed

lemma instance_output: "extract_command cfg (Instance d) = Inr (d, None)"
  by (simp add: extract_command_def to_payload_def Let_def)

text \<open>A tool that runs in process and whose handler changes nothing is such an executor.\<close>

lemma local_tool_answers:
  assumes cfg: "plain cfg" and s: "dget (w_runs w) r = Some s" and st: "sd_executor st = ToolExec t"
    and local: "should_execute_remotely cfg (t_name t) (t_placement t) = Inr False"
    and input: "t_input_model t payload = Inr v"
    and handler: "\<And>cx w. cx_artifacts cx = rs_artifacts s \<Longrightarrow> tool_prog cfg cx (t_handler t v) w = (Inr y, w)"
    and out: "t_output_model t y = Inr z" "extract_command cfg z = Inr (out, cmd)"
  shows "\<exists>w'. run_executor cfg wk r st payload w = (Inr (out, None, cmd), w') \<and> quiet w w'"
proof -
  let ?p = "[(''tool_name'', JStr (t_name t))]"
  let ?w1 = "log_event r TOOL_EXECUTION_STARTED (Some (sd_name st)) ?p w"
  have s1: "dget (w_runs ?w1) r = Some s" using s by simp
  have "run_of w r = s" using s by (simp add: run_of_def)
  then have "run_executor cfg wk r st payload w =
      (Inr (out, None, cmd), log_event r TOOL_EXECUTION_COMPLETED (Some (sd_name st)) ?p ?w1)"
    using emit_run_plain [OF cfg s] emit_run_plain [OF cfg s1] local input handler out
    by (simp add: run_executor_def st run_tool_def make_context_def state_of_def py_simps Let_def execute_tool_def)
  moreover have "quiet w (log_event r TOOL_EXECUTION_COMPLETED (Some (sd_name st)) ?p ?w1)"
    by (rule quiet_trans [OF quiet_log quiet_log])
  ultimately show ?thesis by blast
qed

subsection \<open>The witnesses\<close>

lemma no_adapter_verdict: "verdict (policies_for (cfg_policy_engine no_adapter_config) n) ctx = Inr ()"
  by (simp add: verdict_def no_adapter_config_def policies_for_def empty_policy_engine_def dget_or_def)

lemma echo_runs:
  assumes l: "loaded r s w" and st: "sd_executor st = ToolExec echo_tool"
  obtains w' where "run_executor no_adapter_config wk r st p w = (Inr (p, None, None), w')" "quiet w w'"
proof -
  have s: "dget (w_runs w) r = Some s" using l by (simp add: loaded_def)
  have "should_execute_remotely no_adapter_config n LocalOnly = Inr False" for n
    by (simp add: should_execute_remotely_def no_adapter_config_def)
  then have "\<exists>w'. run_executor no_adapter_config wk r st p w = (Inr (p, None, None), w') \<and> quiet w w'"
    by (intro local_tool_answers [OF plain_no_adapter s st]) (simp add: echo_tool_def | rule ret_run instance_output)+
  then show ?thesis using that by blast
qed

lemma strict_b: "strict_transition ''b'' = StrictTransition ''b''"
  by code_simp

lemma two_steps_next:
  assumes "dget [(''a'', then_step ''b'' echo_step), (''b'', echo_step\<lparr>sd_name := ''b'', sd_approval_override := a\<rparr>)] n = Some st"
    and "wf_steps wk = [(''a'', then_step ''b'' echo_step), (''b'', echo_step\<lparr>sd_name := ''b'', sd_approval_override := a\<rparr>)]"
  shows "sd_executor st = ToolExec echo_tool" "sd_required_artifacts st = []"
    "\<exists>m. resolve_next_step_for_step wk st out None None = Inr m"
  using assms
  by (auto simp: echo_step_def then_step_def resolve_next_step_for_step_def resolve_next_step_def proposed_step_def
      check_handoff_def dhas_def strict_b split: if_splits)

lemma two_steps_rank:
  assumes "wf_steps wk = [(''a'', then_step ''b'' echo_step), (''b'', echo_step\<lparr>sd_name := ''b'', sd_approval_override := a\<rparr>)]"
  shows "acyclic_workflow (\<lambda>n. if n = ''a'' then 1 else 0) wk"
  using assms
  by (auto simp: acyclic_workflow_def wf_edge_def echo_step_def then_step_def declared_targets_def strict_b split: if_splits)

lemma two_steps_table:
  "wf_steps two_steps = [(''a'', then_step ''b'' echo_step), (''b'', echo_step\<lparr>sd_name := ''b'', sd_approval_override := None\<rparr>)]"
  by (simp add: two_steps_def echo_step_def)

text \<open>Two steps, the first of which asks a question and the second of which is approved.\<close>

definition ask_tool :: tool where
  "ask_tool = echo_tool\<lparr>t_handler := (\<lambda>_. Return (CommandObj (ask_command None)))\<rparr>"

definition ask_step :: step where
  "ask_step = then_step ''b'' (echo_step\<lparr>sd_executor := ToolExec ask_tool\<rparr>)"

definition approved_step :: step where
  "approved_step = echo_step\<lparr>sd_name := ''b'', sd_approval_override := Some True\<rparr>"

definition asked_then_approved :: workflow where
  "asked_then_approved = two_steps\<lparr>wf_steps := [(''a'', ask_step), (''b'', approved_step)]\<rparr>"

text \<open>The second step is given the answer and stores it.\<close>

fun blue_note :: annotation where
  "blue_note (Some n) p A G = (n = ''b'' \<longrightarrow> p = JStr ''blue'')"
| "blue_note None p A G = (dget A ''b'' = Some (JStr ''blue''))"

abbreviation say_blue :: answers where
  "say_blue \<equiv> Some (\<lambda>m d. JStr ''blue'')"

lemma asking_tool_runs:
  assumes l: "loaded r s w" and st: "sd_executor st = ToolExec t" "t_placement t = LocalOnly" "t_input_model t = Inr"
    and h: "t_handler t p = Return y" "t_output_model t = Inr" and out: "extract_command asking_config y = Inr (out, cmd)"
  obtains w' where "run_executor asking_config wk r st p w = (Inr (out, None, cmd), w')" "tidy (run_of w' r)"
proof -
  have s: "dget (w_runs w) r = Some s" "tidy s" using l by (simp_all add: loaded_def)
  have "should_execute_remotely asking_config n LocalOnly = Inr False" for n
    by (simp add: should_execute_remotely_def asking_config_def no_adapter_config_def)
  then have "\<exists>w'. run_executor asking_config wk r st p w = (Inr (out, None, cmd), w') \<and> quiet w w'"
    using st h out by (intro local_tool_answers [OF asking_start(1) s(1) st(1)]) (auto simp: ret_run)
  then show ?thesis using that loaded_run_of [OF l] s(2) by (auto simp: quiet_run_of)
qed

lemma ask_step_works: "step_works_with say_blue asking_config asked_then_approved blue_note ''a'' ask_step"
  unfolding step_works_with_def
proof (intro conjI allI impI; (elim conjE)?)
  show "check_artifacts (sd_name ask_step) A (sd_required_artifacts ask_step) = Inr ()" for A
    by (simp add: ask_step_def then_step_def echo_step_def)
  show "verdict (policies_for (cfg_policy_engine asking_config) n) ctx = Inr ()" for n ctx
    using no_adapter_verdict by (simp add: asking_config_def)
  fix r s w p assume l: "loaded r s w"
  let ?c = "ask_command None"
  obtain w' where "run_executor asking_config asked_then_approved r ask_step p w = (Inr (JObj [], None, Some ?c), w')"
    "tidy (run_of w' r)"
    by (rule asking_tool_runs [OF l, of ask_step ask_tool p "CommandObj ?c"])
      (simp_all add: ask_step_def then_step_def ask_tool_def echo_tool_def extract_command_def ask_command_def)
  moreover have "goes_through asking_config (Some ?c) (rs_channels s)" "JObj [] = handed_on (JObj []) (Some ?c)"
    by (simp_all add: goes_through_def handed_on_def ask_command_def)
  moreover have "resolve_next_step_for_step asked_then_approved ask_step (JObj []) None (Some ?c) = Inr ''b''"
    by (simp add: resolve_next_step_for_step_def resolve_next_step_def proposed_step_def check_handoff_def ask_step_def
        then_step_def ask_command_def asked_then_approved_def dhas_def strict_b)
  moreover have "goes_on asking_config asked_then_approved say_blue ask_step (JObj []) (Some ?c) (JStr ''blue'')"
    by (simp add: goes_on_def asks_def time_given_def answered_with_def ask_command_def asking_config_def no_adapter_config_def
        read_command_dump get_step_def asked_then_approved_def ask_step_def then_step_def echo_step_def)
  ultimately show "\<exists>x h cmd out m p' w'. run_executor asking_config asked_then_approved r ask_step p w = (Inr (x, h, cmd), w') \<and>
      tidy (run_of w' r) \<and> goes_through asking_config cmd (rs_channels s) \<and> out = handed_on x cmd \<and>
      resolve_next_step_for_step asked_then_approved ask_step out h cmd = Inr m \<and>
      goes_on asking_config asked_then_approved say_blue ask_step out cmd p' \<and>
      blue_note (next_point m) p' (artifacts_set (rs_artifacts s) (output_key ask_step) out)
        (approvals (run_of w' r) - {sd_name ask_step})"
    by (intro exI [of _ "JObj []"] exI [of _ None] exI [of _ "Some ?c"] exI [of _ "JObj []"] exI [of _ "''b''"]
        exI [of _ "JStr ''blue''"] exI [of _ w']) (simp add: next_point_def END_STEP_def)
qed

lemma approved_step_works: "step_works_with say_blue asking_config asked_then_approved blue_note ''b'' approved_step"
proof (rule step_worksI, intro conjI allI impI; (elim conjE)?)
  show "check_artifacts (sd_name approved_step) A (sd_required_artifacts approved_step) = Inr ()" for A
    by (simp add: approved_step_def echo_step_def)
  show "verdict (policies_for (cfg_policy_engine asking_config) n) ctx = Inr ()" for n ctx
    using no_adapter_verdict by (simp add: asking_config_def)
  fix r s w p assume l: "loaded r s w" and p: "blue_note (Some ''b'') p (rs_artifacts s) (approvals s)"
  obtain w' where "run_executor asking_config asked_then_approved r approved_step p w = (Inr (p, None, None), w')"
    "tidy (run_of w' r)"
    by (rule asking_tool_runs [OF l, of approved_step echo_tool p "Instance p"])
      (simp_all add: approved_step_def echo_step_def echo_tool_def instance_output)
  moreover have "resolve_next_step_for_step asked_then_approved approved_step p None None = Inr END_STEP"
    by (simp add: resolve_next_step_for_step_def resolve_next_step_def proposed_step_def check_handoff_def
        approved_step_def echo_step_def)
  ultimately show "\<exists>out h m w'. run_executor asking_config asked_then_approved r approved_step p w = (Inr (out, h, None), w') \<and>
      tidy (run_of w' r) \<and> resolve_next_step_for_step asked_then_approved approved_step out h None = Inr m \<and>
      blue_note (next_point m) out (artifacts_set (rs_artifacts s) (output_key approved_step) out)
        (approvals (run_of w' r) - {sd_name approved_step})"
    using p by (auto simp: next_point_def approved_step_def echo_step_def artifacts_set_def or_else_def)
qed

theorem annotated_workflow_completes_witness:
  "\<exists>s w'. Option.bind (run_workflow asking_config asked_then_approved (Plain (JInt 5)) None (init_world 0))
      (attend asking_config asked_then_approved (GivenText ''approve'') say_blue 4) = Some (Inr s, w') \<and>
     rs_status s = COMPLETED \<and> dget (rs_artifacts s) ''b'' = Some (JStr ''blue'')"
proof -
  have "step_works_with say_blue asking_config asked_then_approved blue_note n st"
    if "dget (wf_steps asked_then_approved) n = Some st" for n st
    using that ask_step_works approved_step_works by (auto simp: asked_then_approved_def split: if_splits)
  then have wx: "works_with say_blue asking_config asked_then_approved blue_note" by (simp add: works_with_def)
  have rank: "acyclic_workflow (\<lambda>n. if n = ''a'' then 1 else 0) asked_then_approved"
    by (auto simp: acyclic_workflow_def wf_edge_def asked_then_approved_def ask_step_def approved_step_def echo_step_def
        then_step_def declared_targets_def strict_b split: if_splits)
  have "strip (lower ''approve'') = ''approve''" by code_simp
  then have d: "\<forall>now. \<exists>d. approves asking_config now (GivenText ''approve'') d"
    by (simp add: approves_def normalize_resume_payload_def normalize_decision_def Let_def)
  have e: "wf_entry asked_then_approved = Some ''a''" "dhas (wf_steps asked_then_approved) ''a''"
    by (simp_all add: asked_then_approved_def two_steps_def echo_workflow_def dhas_def)
  have fits: "blue_note (Some ''a'') (to_payload (Plain (JInt 5))) [] {}" by simp
  have u: "unasked say_blue (uuid_of (w_fresh (init_world 0))) (init_world 0)"
    by (simp add: unasked_def calm_def init_world_def empty_interrupts_def mem_get_request_def)
  have more: "blue_note (Some n) q A (insert (sd_name st) G)" if "blue_note (Some n) q A G" for n q A G and st :: step
    using that by simp
  from annotated_workflow_completes [OF asking_start(1) world_ok_init [of 0] wx rank e fits u d more, of None]
  show ?thesis by fastforce
qed

theorem serving_workflow_completes_witness:
  "\<exists>s w'. run_workflow no_adapter_config two_steps (Plain (JInt 5)) (Some ''t'') (init_world 0) = Some (Inr s, w') \<and>
     rs_status s = COMPLETED"
proof -
  have "step_serves no_adapter_config two_steps (\<lambda>_ _. True) n st"
    if "dget (wf_steps two_steps) n = Some st" for n st
    unfolding step_serves_def
  proof (intro conjI allI impI; (elim conjE)?)
    note st = two_steps_next [OF that [unfolded two_steps_table] two_steps_table]
    show "sd_required_artifacts st = []" by (rule st(2))
    show "sd_approval_override st = Some False \<or>
        sd_approval_override st = None \<and> \<not> executor_requires_approval (sd_executor st)"
      using that st(1) by (auto simp: two_steps_table echo_step_def then_step_def executor_requires_approval_def
          echo_tool_def split: if_splits)
    fix r w p assume l: "loaded r (run_of w r) w"
    obtain w' where "run_executor no_adapter_config two_steps r st p w = (Inr (p, None, None), w')" "quiet w w'"
      by (rule echo_runs [OF l st(1)])
    then show "\<exists>out m w'. run_executor no_adapter_config two_steps r st p w = (Inr (out, None, None), w') \<and>
        tidy (run_of w' r) \<and> resolve_next_step_for_step two_steps st out None None = Inr m \<and> (m = END_STEP \<or> True)"
      using st(3) [of p] l by (auto simp: quiet_run_of loaded_def)
  qed (rule no_adapter_verdict)
  then have sv: "serves no_adapter_config two_steps (\<lambda>_ _. True)" by (simp add: serves_def)
  have e: "wf_entry two_steps = Some ''a''" "dhas (wf_steps two_steps) ''a''"
    by (simp_all add: two_steps_def echo_workflow_def dhas_def)
  from serving_workflow_completes [OF plain_no_adapter world_ok_init [of 0] sv two_steps_rank [OF two_steps_table] e TrueI]
  show ?thesis by blast
qed

end
