(* ===== verification/Store_Contracts.thy ===== *)
theory Store_Contracts
  imports Execution
begin

section \<open>What the stores promise\<close>

text \<open>
  The contracts of the stores, read off the interpretations of their locales on the in-memory
  implementations: the run store numbers its writes and refuses lost updates, checkpoints are listed in
  the order they were written, interrupts are answered once and in time and are limited in number,
  memory is read as it was written within its scope, thread records follow their life cycle.
\<close>

subsection \<open>Run store\<close>



text \<open>Optimistic locking: when two writers have read the same stored state of a run and one has
  written, the other's write is refused and raises \<open>StateConcurrencyError\<close>, so no update is lost;
  the first writer, with the state it was handed back, can go on writing.\<close>

theorem stale_writer_refused:
  assumes inv: "store_inv st" and old: "get st r = Some old"
    and a: "rs_run_id a = r" "rs_epoch a = rs_epoch old" "put u a st = Inr (a', st1)"
    and b: "rs_run_id b = r" "rs_epoch b = rs_epoch old" "state_consistent b"
  shows "(\<exists>m. put v b st1 = Inl (Exn StateConcurrencyError m)) \<and>
    (\<exists>a'' st2. put v a' st1 = Inr (a'', st2) \<and> rs_epoch a'' = rs_epoch a' + 1)"
proof
  show "\<exists>m. put v b st1 = Inl (Exn StateConcurrencyError m)"
    by (rule mem.lost_update_refused [OF inv old a b])
  from mem.put_result [OF inv a(3)] have "rs_run_id a' = rs_run_id a" by simp
  moreover have "state_consistent a'"
    using mem.put_result [OF inv a(3)] mem.put_Inr_iff [OF inv, of u a] a(3) by simp
  ultimately show "\<exists>a'' st2. put v a' st1 = Inr (a'', st2) \<and> rs_epoch a'' = rs_epoch a' + 1"
    using mem.put_again [OF inv a(3), of a'] by simp
qed

definition stored_once :: mem_run_store where
  "stored_once = snd (projr (put ''c1'' running_state empty_run_store))"

lemma stored_once_ok: "store_inv stored_once" "\<exists>s. get stored_once (uuid_of 0) = Some s \<and> rs_epoch s = 1"
proof -
  have "case put ''c1'' running_state empty_run_store of Inr (s', st') \<Rightarrow> True | _ \<Rightarrow> False"
    by code_simp
  then obtain s' st' where p: "put ''c1'' running_state empty_run_store = Inr (s', st')"
    by (auto split: sum.splits prod.splits)
  from mem.put_result [OF store_inv_empty p] p
  show "store_inv stored_once" "\<exists>s. get stored_once (uuid_of 0) = Some s \<and> rs_epoch s = 1"
    by (simp_all add: stored_once_def get_def empty_run_store_def)
qed

theorem stale_writer_refused_witness:
  "\<exists>a' st1 m. put ''c2'' (running_state\<lparr>rs_epoch := 1\<rparr>) stored_once = Inr (a', st1) \<and>
     put ''c3'' (running_state\<lparr>rs_epoch := 1, rs_error := Some ''x''\<rparr>) st1 = Inl (Exn StateConcurrencyError m)"
proof -
  obtain old where old: "get stored_once (uuid_of 0) = Some old" "rs_epoch old = 1"
    using stored_once_ok(2) by blast
  let ?a = "running_state\<lparr>rs_epoch := 1\<rparr>" and ?b = "running_state\<lparr>rs_epoch := 1, rs_error := Some ''x''\<rparr>"
  have c: "state_consistent ?a" "state_consistent ?b" by (simp_all add: state_consistent_def)
  obtain a' st1 where a: "put ''c2'' ?a stored_once = Inr (a', st1)"
    using mem.put_Inr_iff [OF stored_once_ok(1), of "''c2''" ?a] c old by auto
  from stale_writer_refused [OF stored_once_ok(1) old(1) _ _ a _ _ c(2), of "''c3''"] a old(2)
  show ?thesis by auto
qed

text \<open>Checkpoints are listed per thread in the order they were written: a write with a new checkpoint
  id appends to its thread's list, leaves every other thread's list alone, and is what
  \<open>get_latest_checkpoint\<close> then returns for its thread.\<close>

theorem checkpoints_in_order:
  assumes inv: "store_inv st" and p: "put u s st = Inr (s', st')"
    and fresh: "get_checkpoint st (or_else (rs_checkpoint_id s) u) = None"
  shows "list_checkpoints st' (rs_thread_id s) = list_checkpoints st (rs_thread_id s) @ [s'] \<and>
    (\<forall>t. t \<noteq> rs_thread_id s \<longrightarrow> list_checkpoints st' t = list_checkpoints st t \<and>
       get_latest_checkpoint st' t = get_latest_checkpoint st t) \<and>
    get_latest_checkpoint st' (rs_thread_id s) = Some s'"
  using put_list_checkpoints [OF inv p fresh]
  by (simp add: get_latest_checkpoint_last [OF inv] get_latest_checkpoint_last [OF put_inv [OF inv p]] Let_def)

theorem checkpoints_in_order_witness:
  "\<exists>s' st'. put ''c2'' (running_state\<lparr>rs_epoch := 1\<rparr>) stored_once = Inr (s', st') \<and>
     length (list_checkpoints st' (uuid_of 0)) = Suc (length (list_checkpoints stored_once (uuid_of 0))) \<and>
     get_latest_checkpoint st' (uuid_of 0) = Some s'"
proof -
  let ?s = "running_state\<lparr>rs_epoch := 1\<rparr>"
  have "state_consistent ?s" by (simp add: state_consistent_def)
  then obtain s' st' where p: "put ''c2'' ?s stored_once = Inr (s', st')"
    using mem.put_Inr_iff [OF stored_once_ok(1), of "''c2''" ?s] stored_once_ok(2) by auto
  have "get_checkpoint stored_once (or_else (rs_checkpoint_id ?s) ''c2'') = None" by code_simp
  from checkpoints_in_order [OF stored_once_ok(1) p this] p show ?thesis by auto
qed

text \<open>The run history of a thread: asked for a thread's runs, a well-formed store returns each
  persisted run of the thread exactly once and only persisted runs, and cleans its index without
  losing anything: asked again it returns the same list and leaves the store as it is.\<close>

theorem thread_history_exact:
  assumes inv: "store_inv st" and l: "list_run_ids t st = (ids, st')"
  shows "distinct ids \<and> (\<forall>r s. get st r = Some s \<and> rs_thread_id s = t \<longrightarrow> r \<in> set ids) \<and>
    (\<forall>r \<in> set ids. get st r \<noteq> None) \<and> store_inv st' \<and> get st' = get st \<and> list_run_ids t st' = (ids, st')"
proof -
  have st': "st' = snd (list_run_ids t st)" and ids: "ids = fst (list_run_ids t st)" using l by simp_all
  have g: "get st' = get st" by (simp add: st' get_def fun_eq_iff)
  have idx: "dget_or (st_thread_runs st') t [] = ids"
    by (simp add: st' list_run_ids_index ids) (simp add: list_run_ids_def Let_def)
  have "filter (dhas (st_state st')) ids = ids"
    by (simp add: ids st') (simp add: list_run_ids_def Let_def)
  then have "list_run_ids t st' = (ids, st')" by (simp add: list_run_ids_def Let_def idx)
  moreover have "store_inv st'" using list_run_ids_inv [OF inv] by (simp add: st')
  ultimately show ?thesis
    using list_run_ids_distinct [OF inv, of t] list_run_ids_complete [OF inv] list_run_ids_sound [of _ t st] g
    by (auto simp: ids)
qed

theorem thread_history_exact_witness:
  "list_run_ids (uuid_of 0) stored_once = ([uuid_of 0], stored_once) \<and>
   distinct [uuid_of 0] \<and> get stored_once (uuid_of 0) \<noteq> None"
proof -
  have l: "list_run_ids (uuid_of 0) stored_once = ([uuid_of 0], stored_once)" by code_simp
  from thread_history_exact [OF stored_once_ok(1) l] l show ?thesis by simp
qed

subsection \<open>Interrupts\<close>

text \<open>C24: a request that was created can be answered, with its epoch, until it expires: the response is
  handed back, and from then on the request cannot be answered again, whenever and with whatever epoch.
  With another epoch it is refused before it expires; from its expiry time on it is refused as expired.\<close>

theorem interrupt_answered_once:
  assumes inv: "mem_interrupts_inv s"
    and c: "create_interrupt mem_interrupt_ops d now u r st msg ctx ttl (Some e) m s = (Inr q, s')"
  shows "ir_expires_at q = now + (case ttl of None \<Rightarrow> d | Some t \<Rightarrow> t) \<and>
    (now' < ir_expires_at q \<longrightarrow>
       (\<exists>x s''. resolve_interrupt mem_interrupt_ops now' r u v (Some e) s' = (Inr x, s'') \<and>
          ires_response x = v \<and>
          fst (resolve_interrupt mem_interrupt_ops now'' r u v' e'' s'') =
            Inl (Exn ValueError (''Interrupt '' @ u @ '' is not pending''))) \<and>
       (e' \<noteq> e \<longrightarrow> (\<exists>txt. fst (resolve_interrupt mem_interrupt_ops now' r u v (Some e') s') =
          Inl (Exn ValueError txt)))) \<and>
    (ir_expires_at q \<le> now' \<longrightarrow>
       (\<exists>txt. fst (resolve_interrupt mem_interrupt_ops now' r u v (Some e) s') =
          Inl (Exn (InterruptExpiredError (ir_expires_at q)) txt)))"
proof -
  have q: "q = \<lparr>ir_interrupt_id = u, ir_run_id = r, ir_step_name = st, ir_message = msg,
      ir_context = ctx, ir_epoch = e, ir_created_at = now,
      ir_expires_at = now + (case ttl of None \<Rightarrow> d | Some t \<Rightarrow> t), ir_status = ''pending''\<rparr>"
    using c by (auto simp: create_interrupt_def py_simps split_beta Let_def split: option.splits if_splits)
  have inv': "mem_interrupts_inv s'"
    using memi.create_inv [OF inv, of d now u r st msg ctx ttl "Some e" m] c by simp
  have "\<exists>s1. s' = mem_save_request q s1"
    using c by (auto simp: create_interrupt_def py_simps split_beta Let_def split: option.splits if_splits)
  then have g: "mem_get_request s' r u = Some q" by (auto simp: mem_get_save q)
  have resolved: "\<exists>x s''. resolve_interrupt mem_interrupt_ops now' r u v (Some e) s' = (Inr x, s'') \<and>
      ires_response x = v \<and>
      fst (resolve_interrupt mem_interrupt_ops now'' r u v' e'' s'') =
        Inl (Exn ValueError (''Interrupt '' @ u @ '' is not pending''))" if early: "now' < ir_expires_at q"
  proof -
    obtain x s'' where x: "resolve_interrupt mem_interrupt_ops now' r u v (Some e) s' = (Inr x, s'')"
      "ires_response x = v"
      using memi.create_then_resolve [OF inv c, of now' v] early by (auto simp: q)
    with memi.resolve_once [OF inv' x(1)] show ?thesis by auto
  qed
  then show ?thesis
    using g by (auto simp: q resolve_interrupt_def py_simps)
qed

theorem interrupt_answered_once_witness:
  "\<exists>q s' x s''. create_interrupt mem_interrupt_ops 1800 0 ''i'' ''r'' ''a'' ''why'' [] None (Some 1) (Some 1)
       empty_interrupts = (Inr q, s') \<and>
     resolve_interrupt mem_interrupt_ops 5 ''r'' ''i'' (JInt 7) (Some 1) s' = (Inr x, s'') \<and>
     ires_response x = JInt 7"
proof -
  let ?c = "create_interrupt mem_interrupt_ops 1800 0 ''i'' ''r'' ''a'' ''why'' [] None (Some 1) (Some 1)
       empty_interrupts"
  have "case ?c of (Inr q, s') \<Rightarrow> True | _ \<Rightarrow> False" by code_simp
  then obtain q s' where c: "?c = (Inr q, s')" by (auto split: prod.splits sum.splits)
  have "ir_expires_at q = 1800 \<and>
      (5 < ir_expires_at q \<longrightarrow>
        (\<exists>x s''. resolve_interrupt mem_interrupt_ops 5 ''r'' ''i'' (JInt 7) (Some 1) s' = (Inr x, s'') \<and>
           ires_response x = JInt 7))"
    using interrupt_answered_once [OF mem_interrupts_inv_empty c, where now' = 5 and v = "JInt 7"
        and now'' = 6 and v' = JNull and e'' = None and e' = 2] by auto
  with c show ?thesis by auto
qed

text \<open>The limit on pending interrupts: with a limit, a request can be created exactly when fewer
  requests of the run and epoch are pending and not overdue; otherwise \<open>ValueError\<close> is raised.\<close>

theorem pending_limit:
  assumes inv: "mem_interrupts_inv s" and m: "0 \<le> m"
  shows "(case create_interrupt mem_interrupt_ops d now u r st msg ctx ttl epoch (Some m) s of
      (Inr q, _) \<Rightarrow> int (card {q. (\<exists>i. mem_get_request s r i = Some q) \<and> live now epoch q}) < m
    | (Inl x, _) \<Rightarrow> m \<le> int (card {q. (\<exists>i. mem_get_request s r i = Some q) \<and> live now epoch q}) \<and>
        eclass x = ValueError)"
proof -
  let ?l = "fst (list_pending mem_interrupt_ops now r epoch s)"
  have "card (set ?l) = length ?l"
    using memi.list_pending_distinct [OF inv] by (intro distinct_card) (auto simp: distinct_map)
  then have card: "card {q. (\<exists>i. mem_get_request s r i = Some q) \<and> live now epoch q} = length ?l"
    using memi.list_pending_set [OF inv, of now r epoch] by simp
  show ?thesis
  proof (cases "int (length ?l) < m")
    case True
    with memi.create_below_limit [OF m] show ?thesis by (simp add: card Let_def)
  next
    case False
    then show ?thesis
      using memi.create_at_limit [OF m, of now r epoch s d u st msg ctx ttl]
      by (auto simp: card split: prod.splits sum.splits)
  qed
qed

theorem pending_limit_witness:
  "\<exists>x. fst (create_interrupt mem_interrupt_ops 1800 0 ''i'' ''r'' ''a'' ''why'' [] None None (Some 0)
     empty_interrupts) = Inl x \<and> eclass x = ValueError"
  using pending_limit [OF mem_interrupts_inv_empty, where m = 0 and d = 1800 and now = 0 and u = "''i''"
      and r = "''r''" and st = "''a''" and msg = "''why''" and ctx = "[]" and ttl = None and epoch = None]
  by (auto split: prod.splits sum.splits)

text \<open>Asked for a run's pending interrupts, the manager returns exactly the live ones (pending, not
  overdue, of the asked epoch), once each, oldest first; its only effect on what is stored is to mark
  the overdue ones of that run expired.\<close>

theorem pending_listed_exactly:
  assumes inv: "mem_interrupts_inv s" and l: "list_pending mem_interrupt_ops now r epoch s = (qs, s')"
  shows "set qs = {q. (\<exists>i. mem_get_request s r i = Some q) \<and> live now epoch q} \<and>
    distinct (map ir_interrupt_id qs) \<and>
    sorted (map (\<lambda>q. (ir_created_at q, ir_interrupt_id q)) qs) \<and>
    mem_interrupts_inv s' \<and>
    mem_get_request s' r' i =
      (if r' = r then map_option (mark_expired now) (mem_get_request s r' i) else mem_get_request s r' i)"
  using memi.list_pending_set [OF inv, of now r epoch] memi.list_pending_distinct [OF inv, of now r epoch]
    memi.list_pending_sorted [of now r epoch s] memi.list_pending_inv [OF inv, of now r epoch]
    memi.list_pending_get [OF inv, of now r epoch r' i] l
  by simp

definition asked :: "int \<Rightarrow> string \<Rightarrow> interrupt_request" where
  "asked expires i =
     \<lparr>ir_interrupt_id = i, ir_run_id = ''r'', ir_step_name = ''a'', ir_message = ''why'', ir_context = [],
      ir_epoch = 1, ir_created_at = 0, ir_expires_at = expires, ir_status = ''pending''\<rparr>"

theorem pending_listed_exactly_witness:
  "\<exists>qs s'. list_pending mem_interrupt_ops 5 ''r'' None
      (mem_save_request (asked 9 ''i'') (mem_save_request (asked 3 ''j'') empty_interrupts)) = (qs, s') \<and>
    mem_get_request s' ''r'' ''j'' = Some (asked 3 ''j''\<lparr>ir_status := ''expired''\<rparr>)"
proof -
  let ?s = "mem_save_request (asked 9 ''i'') (mem_save_request (asked 3 ''j'') empty_interrupts)"
  obtain qs s' where l: "list_pending mem_interrupt_ops 5 ''r'' None ?s = (qs, s')" by (rule prod.exhaust)
  have inv: "mem_interrupts_inv ?s" by (intro mem_save_inv mem_interrupts_inv_empty)
  have "map_option (mark_expired 5) (mem_get_request ?s ''r'' ''j'') =
      Some (asked 3 ''j''\<lparr>ir_status := ''expired''\<rparr>)"
    by (simp add: mem_get_save asked_def mark_expired_def)
  with pending_listed_exactly [OF inv l, where r' = "''r''" and i = "''j''"] l show ?thesis by simp
qed

subsection \<open>Memory of a context\<close>

lemma without_redaction_plain: "plain cfg \<Longrightarrow> without_redaction cfg = cfg"
  by (simp add: without_redaction_def)

definition target_of :: "exec_context \<Rightarrow> memory_scope \<Rightarrow> string option \<Rightarrow> string" where
  "target_of cx sc t = resolve_target (cx_run_id cx) (cx_thread_id cx) sc t"

lemma target_key_Some [simp]: "target_key (Some t) = t"
  by (simp add: target_key_def or_else_def)

lemma context_memory_ops:
  fixes cx :: exec_context
  assumes "plain cfg"
  defines "ops \<equiv> auditing_ops world_memory
      (emit_memory (without_redaction cfg) (cx_run_id cx) (cx_thread_id cx) (cx_workflow_name cx))"
  shows "mo_read (context_memory cfg cx) k sc t = mo_read ops k sc (Some (target_of cx sc t))"
    "mo_write (context_memory cfg cx) k v sc t = mo_write ops k v sc (Some (target_of cx sc t))"
    "mo_delete (context_memory cfg cx) k sc t = mo_delete ops k sc (Some (target_of cx sc t))"
  using assms(1)
  by (simp_all add: ops_def context_memory_def scoped_ops_def Let_def target_of_def without_redaction_plain)

lemma memory_logged:
  assumes "plain cfg"
  shows "mo_write (context_memory cfg cx) k v sc t w = (Inr (), w1) \<Longrightarrow> only_events {MEMORY_WRITE} w w1"
    and "mo_read (context_memory cfg cx) k sc t w = (Inr e, w1) \<Longrightarrow> only_events {MEMORY_READ} w w1"
  using assms
  by (auto simp: context_memory_def scoped_ops_def Let_def auditing_ops_def audit_write_def audit_read_def
      emit_memory_def py_simps emit_event_plain world_memory_def dict_read_def dict_write_def now_of_def
      only_events_def put_memory_def)



subsection \<open>Thread records\<close>



end
