(* ===== verification/Failures.thy ===== *)
theory Failures
  imports Histories Completion
begin

section \<open>Failures, used-up approvals, restored runs\<close>

text \<open>
  What becomes of a run when a step fails: an exception of the executor fails the run, a request for
  approval out of the executor makes it wait; a missing artifact is raised to the caller but leaves the
  run RUNNING. A restored run goes on with the payload it is given, never with the input that was pending in
  its checkpoint, and with the checkpoint's approvals, even those that have been used up since.
\<close>

subsection \<open>An executor that raises\<close>

lemma executor_keeps_state:
  assumes "run_executor cfg wk r st payload w = (res, w')" "dget (w_runs w) r = Some s"
  shows "dget (w_runs w') r = Some (run_of w' r)" "body (run_of w' r) = body s"
  using field_keptD [OF presD [OF execution_keeps_run(2) assms(1)] assms(2)] by simp_all

lemma evaluate_policies_keeps:
  assumes cfg: "plain cfg" and s: "dget (w_runs w) r = Some s"
    and p: "evaluate_policies cfg wk r st ctx w = (res, w')"
  shows "quiet w w'"
proof (rule evaluate_policies_verdict [OF cfg s, of wk st ctx])
  fix w2 assume "evaluate_policies cfg wk r st ctx w =
      (verdict (policies_for (cfg_policy_engine cfg) (wf_name wk)) ctx, w2)" "quiet w w2"
  with p show ?thesis by simp
qed


definition raising_tool :: "exn \<Rightarrow> tool" where
  "raising_tool e = echo_tool\<lparr>t_handler := (\<lambda>_. Throw e)\<rparr>"


subsection \<open>A run whose step fails\<close>

definition failed_with :: "exn \<Rightarrow> string \<Rightarrow> run_state \<Rightarrow> world \<Rightarrow> bool" where
  "failed_with e r s w \<longleftrightarrow>
     rs_status (run_of w r) = FAILED \<and> rs_error (run_of w r) = Some (exn_str e) \<and>
     rs_artifacts (run_of w r) = rs_artifacts s \<and> rs_completed_steps (run_of w r) = rs_completed_steps s \<and>
     get (w_store w) r = Some (run_of w r) \<and> dget (st_thread_active (w_store w)) (rs_thread_id s) \<noteq> Some r"

lemma guarded_raises:
  assumes cfg: "plain cfg" and l: "loaded r s w"
    and ok: "verdict (policies_for (cfg_policy_engine cfg) (wf_name wk)) (gate_ctx wk st s) = Inr ()"
    and x: "\<And>w1. loaded r s w1 \<Longrightarrow> \<exists>w2. run_executor cfg wk r st payload w1 = (Inl e, w2)"
    and e: "eclass e \<noteq> ApprovalRequiredError"
  obtains w' where "guarded_execution cfg wk r st payload w = (Inl e, w')" "failed_with e r s w'"
proof -
  from l have s: "dget (w_runs w) r = Some s" and w: "world_ok w" by (simp_all add: loaded_def)
  obtain w1 where p: "evaluate_policies cfg wk r (sd_name st) (gate_ctx wk st s) w = (Inr (), w1)" "quiet w w1"
    using evaluate_policies_verdict [OF cfg s, of wk "sd_name st" "gate_ctx wk st s"] ok by metis
  have ok1: "world_ok w1" by (rule world_ok_step [OF ev.pres_evaluate_policies w p(1)])
  have l1: "loaded r s w1" by (rule quiet_loaded [OF p(2) ok1 l])
  then obtain w2 where w2: "run_executor cfg wk r st payload w1 = (Inl e, w2)" using x by blast
  have s1: "dget (w_runs w1) r = Some s" using l1 by (simp add: loaded_def)
  have ok2: "world_ok w2" by (rule world_ok_step [OF ev.pres_run_executor ok1 w2])
  note s2 = executor_keeps_state [OF w2 s1]
  note b = body_fields [OF s2(2)]
  have run: "guarded_execution cfg wk r st payload w = sq (fail_run cfg r (sd_name st) e) (raise e) w2"
    using p(1) w2 e loaded_run_of [OF l] by (simp add: guarded_execution_def py_simps state_of_def Let_def gate_ctx_def)
  obtain w' where "fail_run cfg r (sd_name st) e w2 = (Inr (), w')"
    "rs_status (run_of w' r) = FAILED" "rs_error (run_of w' r) = Some (exn_str e)"
    "rs_artifacts (run_of w' r) = rs_artifacts (run_of w2 r)"
    "rs_completed_steps (run_of w' r) = rs_completed_steps (run_of w2 r)" "get (w_store w') r = Some (run_of w' r)"
    "dget (st_thread_active (w_store w')) (rs_thread_id (run_of w2 r)) \<noteq> Some r"
    by (rule fail_run_ok [OF cfg ok2 s2(1)]) (use b l in \<open>simp add: loaded_def\<close>)
  with run b show ?thesis by (intro that) (simp_all add: py_simps failed_with_def)
qed

text \<open>The loop stops with the exception.\<close>

lemma advance_raises:
  assumes cfg: "plain cfg" and l: "loaded r s w" and n: "rs_current_step s = Some n" "get_step wk n = Inr st"
    and art: "check_artifacts (sd_name st) (rs_artifacts s) (sd_required_artifacts st) = Inr ()"
    and g: "requires_approval st s = Inr False"
    and ok: "verdict (policies_for (cfg_policy_engine cfg) (wf_name wk)) (gate_ctx wk st s) = Inr ()"
    and x: "\<And>w1. loaded r s w1 \<Longrightarrow> \<exists>w2. run_executor cfg wk r st p w1 = (Inl e, w2)"
    and e: "eclass e \<noteq> ApprovalRequiredError"
  obtains w' where "advance cfg wk r p w = Some (Inl e, w')" "failed_with e r s w'"
proof -
  have rd: "ready wk r st s w" using l n art by (auto simp: ready_def loaded_def)
  define w1 where "w1 = log_event r STEP_ENTERED (Some (sd_name st)) [] w"
  note step = advance_step_ready [OF cfg rd g, folded w1_def]
  have l1: "loaded r s w1" by (rule quiet_loaded [OF step(2,3) l])
  obtain w' where w': "guarded_execution cfg wk r st p w1 = (Inl e, w')" "failed_with e r s w'"
    by (rule guarded_raises [OF cfg l1 ok x e])
  then have "advance_step cfg wk r p w = (Inl e, w')" using step(1) by (simp add: execute_step_def bnd_run)
  moreover have "looping r (Inr (Some p), w)" using l loaded_run_of [OF l] by (simp add: looping_def loaded_def)
  moreover have "\<not> looping r (Inl e, w')" by (simp add: looping_def)
  ultimately have "while_option (looping r) (loop_body cfg wk r) (Inr (Some p), w) = Some (Inl e, w')"
    by (simp add: while_option_unfold [of _ _ "(Inr (Some p), w)"] while_option_unfold [of _ _ "(Inl e, w')"] loop_body_def)
  then show ?thesis using w'(2) by (intro that) (simp_all add: advance_def)
qed

text \<open>A run whose entry step raises.\<close>

lemma entry_step_raises:
  assumes cfg: "plain cfg" and w: "world_ok w" and n: "wf_entry wk = Some n" "get_step wk n = Inr st"
    and st: "sd_required_artifacts st = []" "\<And>s. requires_approval st s \<noteq> Inr True"
    and ok: "\<And>s. tidy s \<Longrightarrow> verdict (policies_for (cfg_policy_engine cfg) (wf_name wk)) (gate_ctx wk st s) = Inr ()"
    and x: "\<And>r s w1. loaded r s w1 \<Longrightarrow> \<exists>w2. run_executor cfg wk r st (to_payload data) w1 = (Inl e, w2)"
    and e: "eclass e \<noteq> ApprovalRequiredError"
  obtains r s w' where "run_workflow cfg wk data th w = Some (Inl e, w')" "failed_with e r s w'"
    "rs_artifacts s = []" "rs_thread_id s = (case th of None \<Rightarrow> r | Some t \<Rightarrow> t)"
proof -
  obtain r s w1 where s: "start_run cfg wk data th w = (Inr (r, Some (to_payload data)), w1)" "loaded r s w1"
    "rs_current_step s = Some n" "rs_artifacts s = []" "rs_thread_id s = (case th of None \<Rightarrow> r | Some t \<Rightarrow> t)"
    by (rule start_run_ok [OF cfg w n(1)])
  have t: "tidy s" using s(2) by (simp add: loaded_def)
  have g: "requires_approval st s = Inr False" using st(2) [of s] requires_approval_tidy [OF t, of st] by auto
  obtain w' where "advance cfg wk r (to_payload data) w1 = Some (Inl e, w')" "failed_with e r s w'"
    by (rule advance_raises [OF cfg s(2,3) n(2) _ g ok [OF t] x e]) (simp add: st(1))
  then show ?thesis using s by (intro that) (simp_all add: run_workflow_def then_advance_def)
qed

subsection \<open>A missing artifact\<close>

text \<open>The exception reaches the caller, but the run stays RUNNING, in the cache and in the store, and active.\<close>

lemma missing_artifact_leaves_running:
  assumes cfg: "plain cfg" and s: "dget (w_runs w) r = Some s" "rs_current_step s = Some n"
    and st: "get_step wk n = Inr st" "check_artifacts (sd_name st) (rs_artifacts s) (sd_required_artifacts st) = Inl e"
  shows "\<exists>w'. advance_step cfg wk r payload w = (Inl e, w') \<and> quiet w w'"
proof -
  let ?w1 = "log_event r STEP_ENTERED (Some (sd_name st)) [] w"
  have "advance_step cfg wk r payload w = (Inl e, ?w1)"
    using s st emit_run_plain [OF cfg s(1)] by (simp add: advance_step_def py_simps state_of_def run_of_def)
  then show ?thesis by auto
qed

subsection \<open>Restored runs\<close>

lemma restore_checkpoint_ok:
  assumes cfg: "plain cfg" and ok: "world_ok w" and c: "get_checkpoint (w_store w) c = Some snap"
  obtains r w' where "restore_checkpoint cfg c payload w = (Inr (r, Some payload), w')"
    "rs_status (run_of w' r) = RUNNING" "rs_current_step (run_of w' r) = rs_current_step snap"
    "rs_artifacts (run_of w' r) = rs_artifacts snap" "approved_steps (run_of w' r) = approved_steps snap"
proof -
  let ?r = "uuid_of (w_fresh w)"
  let ?s = "restored_state ?r snap"
  obtain w1 where o: "open_restored c w = (Inr ?r, w1)" and s1: "dget (w_runs w1) ?r = Some ?s"
    using c by (simp add: open_restored_run Let_def)
  have ok1: "world_ok w1" by (rule world_ok_step [OF ev.R_restore ok o])
  let ?t = "touch (w_now w1) ?s"
  have ok2: "world_ok (set_run ?r ?t w1)" by (rule world_ok_set_run [OF ok1 s1]) simp
  have s2: "dget (w_runs (set_run ?r ?t w1)) ?r = Some ?t" by simp
  obtain w3 where p3: "persist_state cfg ?r (set_run ?r ?t w1) = (Inr (), w3)"
    and st3: "persisted ?r ?t (set_run ?r ?t w1) w3"
    using persist_ok [OF cfg ok2 s2] by (auto simp: state_consistent_def restored_state_def)
  note s3 = persisted_state(1,2) [OF st3]
  obtain w4 where p4: "register_active_run ?r w3 = (Inr (), w4)" "w_runs w4 = w_runs w3"
    by (simp add: register_active_run_def py_simps state_of_def put_store_def)
  have s4: "dget (w_runs w4) ?r = Some (run_of w3 ?r)" using p4(2) s3 by simp
  define w5 where "w5 = log_event ?r CHECKPOINT_RESTORED None
      [(''source_checkpoint_id'', JStr c), (''thread_id'', JStr (rs_thread_id (run_of w3 ?r)))] w4"
  define w6 where "w6 = log_event ?r RUN_STARTED None
      [(''entry_step'', opt_json (rs_current_step (run_of w3 ?r))), (''resumed_from_checkpoint'', JStr c)] w5"
  have s6: "dget (w_runs w5) ?r = Some (run_of w3 ?r)" "dget (w_runs w6) ?r = Some (run_of w3 ?r)"
    using s4 by (simp_all add: w5_def w6_def)
  have e: "emit_run cfg ?r CHECKPOINT_RESTORED None
      [(''source_checkpoint_id'', JStr c), (''thread_id'', JStr (rs_thread_id (run_of w3 ?r)))] w4 = (Inr (), w5)"
    "emit_run cfg ?r RUN_STARTED None
      [(''entry_step'', opt_json (rs_current_step (run_of w3 ?r))), (''resumed_from_checkpoint'', JStr c)] w5 = (Inr (), w6)"
    unfolding w5_def w6_def by (rule emit_run_plain [OF cfg], use s4 in simp)+
  have lost: "dget (rs_metadata (run_of w3 ?r)) ''pending_input'' = None"
    by (simp add: s3(2) restored_state_def)
  let ?s7 = "(run_of w3 ?r)\<lparr>rs_metadata := ddel ''pending_input'' (rs_metadata (run_of w3 ?r))\<rparr>"
  let ?w7 = "if payload = JNull then set_run ?r ?s7 w6 else w6"
  have run: "restore_checkpoint cfg c payload w = (Inr (?r, Some payload), ?w7)"
    using o s1 p3 p4 e s4 s6 lost
    by (simp add: restore_checkpoint_def begin_restored_def py_simps state_of_def run_of_def
        touch_state_run [OF s1] update_state_run [OF s6(2)] dget_or_def)
  have "run_of ?w7 ?r = (if payload = JNull then ?s7 else run_of w3 ?r)" using s6(2) by (simp add: run_of_def)
  then show ?thesis
    by (intro that [OF run]) (simp_all add: s3(2) restored_state_def approved_steps_def dget_or_def)
qed

text \<open>C14: an approval comes back after it has been used up. When an approved step has run, its approval is taken
  out of the run, but the checkpoint written with its output still holds it, at the same step. Restoring that
  checkpoint gives a running run at that step, which requires no approval to run it once more.\<close>

theorem used_approval_comes_back:
  assumes cfg: "plain cfg" and l: "loaded r s w"
    and st: "approved_steps s = Inr (map JStr given)" "sd_name st \<in> set given"
  shows "\<exists>w1 c. record_output cfg r st out None w = (Inr out, w1) \<and>
    (\<exists>left. approved_steps (run_of w1 r) = Inr left \<and> JStr (sd_name st) \<notin> set left) \<and>
    (\<forall>payload. \<exists>q w2. restore_checkpoint cfg c payload w1 = (Inr (q, Some payload), w2) \<and>
       rs_status (run_of w2 q) = RUNNING \<and> rs_current_step (run_of w2 q) = rs_current_step s \<and>
       artifacts_has (rs_artifacts (run_of w2 q)) (or_else (sd_emitted_artifact st) (sd_name st)) \<and>
       requires_approval st (run_of w2 q) = Inr False)"
proof -
  from l have s: "dget (w_runs w) r = Some s" and ok: "world_ok w" and run: "rs_status s = RUNNING"
    by (simp_all add: loaded_def)
  let ?key = "or_else (sd_emitted_artifact st) (sd_name st)"
  let ?f = "\<lambda>s. s\<lparr>rs_artifacts := artifacts_set (rs_artifacts s) ?key out,
           rs_completed_steps :=
             (if sd_name st \<in> set (rs_completed_steps s) then rs_completed_steps s
              else rs_completed_steps s @ [sd_name st])\<rparr>"
  let ?t = "touch (w_now w) (?f s)"
  let ?w0 = "set_run r ?t (set_run r (?f s) w)"
  have ok1: "world_ok (set_run r (?f s) w)" by (rule world_ok_set_run [OF ok s]) (simp add: same_identity_def)
  have ok2: "world_ok ?w0" by (rule world_ok_set_run [OF ok1, where s = "?f s"]) simp_all
  obtain w1 where p: "persist_state cfg r ?w0 = (Inr (), w1)" and st1: "persisted r ?t ?w0 w1" and okp: "world_ok w1"
    using persist_ok [OF cfg ok2, of r ?t] run by (auto simp: state_consistent_def)
  define snap where "snap = written (uuid_of (w_fresh ?w0)) (get (w_store ?w0) r) (cleared ?t)"
  have s1: "dget (w_runs w1) r = Some snap" "get_checkpoint (w_store w1) (uuid_of (w_fresh ?w0)) = Some snap"
    using st1 by (simp_all add: persisted_def Let_def snap_def)
  have snap: "approved_steps snap = Inr (map JStr given)" "rs_status snap = RUNNING"
    "rs_current_step snap = rs_current_step s" "artifacts_has (rs_artifacts snap) ?key"
    using st(1) run by (simp_all add: snap_def approved_steps_def artifacts_has_set)
  have "loaded r snap w1" using okp s1(1) snap(1,2) by (auto simp: loaded_def tidy_def)
  then obtain w2 s2 left where c: "consume_approval r (sd_name st) w1 = (Inr (), w2)" "loaded r s2 w2"
    "w_store w2 = w_store w1" "approved_steps s2 = Inr left" "JStr (sd_name st) \<notin> set left"
    by (rule consume_approval_ok)
  have rec: "record_output cfg r st out None w = (Inr out, w2)"
    using p c(1)
    by (simp add: record_output_def py_simps update_state_run [OF s] touch_state_run [where s = "?f s"])
  have restores: "\<exists>q w3. restore_checkpoint cfg (uuid_of (w_fresh ?w0)) payload w2 = (Inr (q, Some payload), w3) \<and>
      rs_status (run_of w3 q) = RUNNING \<and> rs_current_step (run_of w3 q) = rs_current_step s \<and>
      artifacts_has (rs_artifacts (run_of w3 q)) ?key \<and> requires_approval st (run_of w3 q) = Inr False" for payload
  proof -
    have ok3: "world_ok w2" using c(2) by (simp add: loaded_def)
    have "get_checkpoint (w_store w2) (uuid_of (w_fresh ?w0)) = Some snap" using s1(2) c(3) by simp
    then obtain q w3 where "restore_checkpoint cfg (uuid_of (w_fresh ?w0)) payload w2 = (Inr (q, Some payload), w3)"
      "rs_status (run_of w3 q) = RUNNING" "rs_current_step (run_of w3 q) = rs_current_step snap"
      "rs_artifacts (run_of w3 q) = rs_artifacts snap" "approved_steps (run_of w3 q) = approved_steps snap"
      by (rule restore_checkpoint_ok [OF cfg ok3])
    with snap st(2) show ?thesis by (auto simp: requires_approval_def)
  qed
  from rec c(4,5) loaded_run_of [OF c(2)] restores show ?thesis by blast
qed

theorem used_approval_comes_back_witness:
  "\<exists>w1 c. record_output no_adapter_config (uuid_of 0) (echo_step\<lparr>sd_approval_override := Some True\<rparr>) (JInt 5) None
      (world_with (running_state\<lparr>rs_metadata := [(''approved_steps'', JList [JStr ''a''])]\<rparr>)) = (Inr (JInt 5), w1) \<and>
    (\<exists>q w2. restore_checkpoint no_adapter_config c JNull w1 = (Inr (q, Some JNull), w2) \<and>
       requires_approval (echo_step\<lparr>sd_approval_override := Some True\<rparr>) (run_of w2 q) = Inr False)"
proof -
  let ?s = "running_state\<lparr>rs_metadata := [(''approved_steps'', JList [JStr ''a''])]\<rparr>"
  have a: "approved_steps ?s = Inr (map JStr [''a''])" by (simp add: approved_steps_def dget_or_def hashable_def)
  then have l: "loaded (uuid_of 0) ?s (world_with ?s)" unfolding loaded_def tidy_def
    by (auto simp: world_with_ok intro: exI [of _ "[''a'']"])
  have cfg: "plain no_adapter_config" by (simp add: no_adapter_config_def)
  have n: "sd_name (echo_step\<lparr>sd_approval_override := Some True\<rparr>) \<in> set [''a'']" by (simp add: echo_step_def)
  from used_approval_comes_back [OF cfg l a n, of "JInt 5"] show ?thesis by blast
qed

end
