(* ===== verification/Redis.thy ===== *)
theory Redis
  imports Effects
begin

section \<open>The Redis server the durable stores talk to\<close>

text \<open>
  The client of the \<open>redis\<close> package is a parameter: a record of the calls that the stores make, each an
  operation on whatever the client and the server keep (of any type). The locale \<open>redis_server\<close> states
  their documented behaviour when the server answers and nobody else writes: \<open>view\<close> is what the server
  holds under every key, a text or a list of texts; reading a list key as a text, or the other way
  round, is the error \<open>WRONGTYPE\<close>; the queued commands of a transaction are applied together; the pages
  of a scan list the keys that match. Expiry is not part of the laws: they are about calls without a time
  to live.

  \<open>does view m V r V'\<close> is the calculus the stores' lemmas are proved in: from any state that shows \<open>V\<close>,
  \<open>m\<close> ends with the outcome \<open>r\<close> in one that shows \<open>V'\<close>.

  The laws are interpreted on \<open>table_client\<close>, an executable server that keeps its keys in an association
  list; the witnesses run on it.
\<close>

subsection \<open>The client's calls\<close>

datatype rvalue = RText string | RList "string list"

datatype redis_command = QSet string string "int option" | QRpush string string

record 'd redis_client =
  rc_get :: "string \<Rightarrow> ('d, string option) py"
  rc_set :: "string \<Rightarrow> string \<Rightarrow> int option \<Rightarrow> ('d, unit) py"
  rc_delete :: "string \<Rightarrow> ('d, unit) py"
  rc_rpush :: "string \<Rightarrow> string \<Rightarrow> ('d, unit) py"
  rc_lrange :: "string \<Rightarrow> ('d, string list) py"
  rc_last :: "string \<Rightarrow> ('d, string option) py"
  rc_expire :: "string \<Rightarrow> int \<Rightarrow> ('d, unit) py"
  rc_watch :: "string \<Rightarrow> ('d, unit) py"
  rc_exec :: "redis_command list \<Rightarrow> ('d, unit) py"
  rc_scan :: "string \<Rightarrow> ('d, string list list) py"

definition wrong_type :: exn where
  "wrong_type = Exn (OtherError ''ResponseError'')
     ''WRONGTYPE Operation against a key holding the wrong kind of value''"

definition watch_error :: "string \<Rightarrow> exn" where
  "watch_error m = Exn (OtherError ''WatchError'') m"

definition is_watch_error :: "exn \<Rightarrow> bool" where
  "is_watch_error e \<longleftrightarrow> eclass e = OtherError ''WatchError''"

type_synonym keyspace = "string \<Rightarrow> rvalue option"

definition as_text :: "rvalue option \<Rightarrow> exn + string option" where
  "as_text v = (case v of None \<Rightarrow> Inr None | Some (RText t) \<Rightarrow> Inr (Some t) | Some (RList _) \<Rightarrow> Inl wrong_type)"

definition as_list :: "rvalue option \<Rightarrow> exn + string list" where
  "as_list v = (case v of None \<Rightarrow> Inr [] | Some (RText t) \<Rightarrow> Inl wrong_type | Some (RList xs) \<Rightarrow> Inr xs)"

fun apply_command :: "redis_command \<Rightarrow> keyspace \<Rightarrow> keyspace" where
  "apply_command (QSet k v ex) V = V(k \<mapsto> RText v)"
| "apply_command (QRpush k x) V =
     (case as_list (V k) of Inl _ \<Rightarrow> V | Inr xs \<Rightarrow> V(k \<mapsto> RList (xs @ [x])))"

fun command_ok :: "redis_command \<Rightarrow> keyspace \<Rightarrow> bool" where
  "command_ok (QSet k v ex) V \<longleftrightarrow> ex = None"
| "command_ok (QRpush k x) V \<longleftrightarrow> (\<exists>xs. as_list (V k) = Inr xs)"

fun commands_ok :: "redis_command list \<Rightarrow> keyspace \<Rightarrow> bool" where
  "commands_ok [] V \<longleftrightarrow> True"
| "commands_ok (q # qs) V \<longleftrightarrow> command_ok q V \<and> commands_ok qs (apply_command q V)"

text \<open>Patterns of a scan: a star stands for any text; the server's other wildcards are left out.\<close>

fun glob :: "string \<Rightarrow> string \<Rightarrow> bool" where
  "glob [] s \<longleftrightarrow> s = []"
| "glob (p # ps) s \<longleftrightarrow>
     (if p = CHR ''*'' then glob ps s \<or> (case s of [] \<Rightarrow> False | _ # s' \<Rightarrow> glob (p # ps) s')
      else (case s of [] \<Rightarrow> False | c # s' \<Rightarrow> c = p \<and> glob ps s'))"

definition plain_glob :: "string \<Rightarrow> bool" where
  "plain_glob p \<longleftrightarrow> set p \<inter> {CHR ''?'', CHR ''['', CHR '']'', CHR 0x5C} = {}"

subsection \<open>Outcomes as seen in the key space\<close>

definition does :: "('d \<Rightarrow> 'v) \<Rightarrow> ('d, 'a) py \<Rightarrow> 'v \<Rightarrow> exn + 'a \<Rightarrow> 'v \<Rightarrow> bool" where
  "does view m V r V' \<longleftrightarrow> (\<forall>d. view d = V \<longrightarrow> (\<exists>d'. m d = (r, d') \<and> view d' = V'))"

named_theorems does_intros "the outcome of composed operations on the server"

lemma doesI: "(\<And>d. view d = V \<Longrightarrow> \<exists>d'. m d = (r, d') \<and> view d' = V') \<Longrightarrow> does view m V r V'"
  by (simp add: does_def)

lemma doesE:
  assumes "does view m V r V'" and "view d = V"
  obtains d' where "m d = (r, d')" and "view d' = V'"
  using assms by (auto simp: does_def)

lemma does_ret: "does view (ret x) V (Inr x) V"
  by (simp add: does_def py_simps)

lemma does_raise: "does view (raise e) V (Inl e) V"
  by (simp add: does_def py_simps)

lemma does_lift: "does view (lift_res r) V r V"
  by (simp add: does_def py_simps)

lemma does_lift_Inr: "r = Inr x \<Longrightarrow> does view (lift_res r) V (Inr x) V"
  by (simp add: does_lift)

lemma does_bnd: "does view m V (Inr x) V1 \<Longrightarrow> does view (f x) V1 r V2 \<Longrightarrow> does view (bnd m f) V r V2"
  by (fastforce simp: does_def py_simps)

lemma does_bnd_Inl: "does view m V (Inl e) V1 \<Longrightarrow> does view (bnd m f) V (Inl e) V1"
  by (fastforce simp: does_def py_simps)

lemma does_sq: "does view m V (Inr x) V1 \<Longrightarrow> does view n V1 r V2 \<Longrightarrow> does view (sq m n) V r V2"
  unfolding sq_def by (rule does_bnd)

lemma does_perform: "(b \<Longrightarrow> does view m V (Inr ()) V') \<Longrightarrow> (\<not> b \<Longrightarrow> V' = V) \<Longrightarrow> does view (perform b m) V (Inr ()) V'"
  by (cases b) (auto simp: perform_def does_ret)

lemma does_tryc: "does view m V (Inr x) V1 \<Longrightarrow> does view (tryc m h) V (Inr x) V1"
  by (fastforce simp: does_def py_simps)

lemma does_tryc_Inl: "does view m V (Inl e) V1 \<Longrightarrow> does view (h e) V1 r V2 \<Longrightarrow> does view (tryc m h) V r V2"
  by (fastforce simp: does_def py_simps)

text \<open>A sequence of calls, each tried whatever became of the one before; the outcomes in order.\<close>

fun call_all :: "('c \<Rightarrow> ('s, 'a) py) \<Rightarrow> 'c list \<Rightarrow> 's \<Rightarrow> (exn + 'a) list \<times> 's" where
  "call_all f [] s = ([], s)"
| "call_all f (q # qs) s =
     (case f q s of (r, s1) \<Rightarrow> (case call_all f qs s1 of (rs, s2) \<Rightarrow> (r # rs, s2)))"

subsection \<open>The documented behaviour\<close>

locale redis_server =
  fixes c :: "'d redis_client" and view :: "'d \<Rightarrow> keyspace"
  assumes get: "does view (rc_get c k) V (as_text (V k)) V"
    and set: "does view (rc_set c k v None) V (Inr ()) (V(k \<mapsto> RText v))"
    and delete: "does view (rc_delete c k) V (Inr ()) (V(k := None))"
    and rpush: "as_list (V k) = Inr xs \<Longrightarrow> does view (rc_rpush c k x) V (Inr ()) (V(k \<mapsto> RList (xs @ [x])))"
    and lrange: "does view (rc_lrange c k) V (as_list (V k)) V"
    and lindex: "does view (rc_last c k) V
      (case as_list (V k) of Inl e \<Rightarrow> Inl e | Inr xs \<Rightarrow> Inr (if xs = [] then None else Some (last xs))) V"
    and watch: "does view (rc_watch c k) V (Inr ()) V"
    and exec: "commands_ok qs V \<Longrightarrow> does view (rc_exec c qs) V (Inr ()) (fold apply_command qs V)"
    and scan: "view d = V \<Longrightarrow> plain_glob p \<Longrightarrow>
      \<exists>pages d'. rc_scan c p d = (Inr pages, d') \<and> view d' = V \<and>
        set (concat pages) = {k. V k \<noteq> None \<and> glob p k}"
begin

lemma get_text: "as_text (V k) = Inr t \<Longrightarrow> does view (rc_get c k) V (Inr t) V"
  using get [of k V] by simp

lemma lrange_list: "as_list (V k) = Inr xs \<Longrightarrow> does view (rc_lrange c k) V (Inr xs) V"
  using lrange [of k V] by simp

lemma lindex_list: "as_list (V k) = Inr xs \<Longrightarrow>
    does view (rc_last c k) V (Inr (if xs = [] then None else Some (last xs))) V"
  using lindex [of k V] by simp

text \<open>A list key rewritten from scratch: deleted, then pushed element by element.\<close>

lemma push_all:
  "does view (each (rc_rpush c k) xs) (V(k := (if ys = [] then None else Some (RList ys)))) (Inr ())
     (V(k := (if ys @ xs = [] then None else Some (RList (ys @ xs)))))"
proof (induction xs arbitrary: ys)
  case Nil
  show ?case unfolding append_Nil2 each.simps by (rule does_ret)
next
  case (Cons x xs)
  let ?V = "V(k := (if ys = [] then None else Some (RList ys)))"
  have "does view (rc_rpush c k x) ?V (Inr ()) (V(k \<mapsto> RList (ys @ [x])))"
    using rpush [of ?V k ys x] by (simp add: as_list_def)
  moreover have "does view (each (rc_rpush c k) xs) (V(k \<mapsto> RList (ys @ [x]))) (Inr ())
      (V(k := (if ys @ x # xs = [] then None else Some (RList (ys @ x # xs)))))"
    using Cons.IH [of "ys @ [x]"] by (simp add: fun_upd_def)
  ultimately show ?case unfolding each.simps by (rule does_sq)
qed

lemma push_new:
  "does view (each (rc_rpush c k) xs) (V(k := None)) (Inr ())
     (V(k := (if xs = [] then None else Some (RList xs))))"
  using push_all [where k = k and V = V and ys = "[]" and xs = xs] by (simp only: append_Nil if_True refl)

end

subsection \<open>An executable server\<close>

type_synonym table = "(string \<times> rvalue) list"

definition table_rpush :: "string \<Rightarrow> string \<Rightarrow> (table, unit) py" where
  "table_rpush k x d =
     (case as_list (map_of d k) of
        Inl e \<Rightarrow> (Inl e, d) | Inr xs \<Rightarrow> (Inr (), dset k (RList (xs @ [x])) d))"

fun table_command :: "redis_command \<Rightarrow> (table, unit) py" where
  "table_command (QSet k v ex) = modify (dset k (RText v))"
| "table_command (QRpush k x) = table_rpush k x"

definition table_client :: "table redis_client" where
  "table_client =
     \<lparr>rc_get = (\<lambda>k d. (as_text (map_of d k), d)),
      rc_set = (\<lambda>k v ex. modify (dset k (RText v))),
      rc_delete = (\<lambda>k. modify (ddel k)),
      rc_rpush = table_rpush,
      rc_lrange = (\<lambda>k d. (as_list (map_of d k), d)),
      rc_last = (\<lambda>k d. (case as_list (map_of d k) of
         Inl e \<Rightarrow> Inl e | Inr xs \<Rightarrow> Inr (if xs = [] then None else Some (last xs)), d)),
      rc_expire = (\<lambda>k t. ret ()),
      rc_watch = (\<lambda>k. ret ()),
      rc_exec = (\<lambda>qs. each table_command qs),
      rc_scan = (\<lambda>p d. (Inr [filter (glob p) (remdups (map fst d))], d))\<rparr>"

lemma table_client_simps [simp]:
  "rc_get table_client k d = (as_text (map_of d k), d)"
  "rc_set table_client k v ex = modify (dset k (RText v))"
  "rc_delete table_client k = modify (ddel k)"
  "rc_rpush table_client = table_rpush"
  "rc_lrange table_client k d = (as_list (map_of d k), d)"
  "rc_watch table_client k = ret ()"
  "rc_expire table_client k t = ret ()"
  "rc_exec table_client qs = each table_command qs"
  by (simp_all add: table_client_def)

lemma table_exec:
  "commands_ok qs (map_of d) \<Longrightarrow>
   \<exists>d'. each table_command qs d = (Inr (), d') \<and> map_of d' = fold apply_command qs (map_of d)"
proof (induction qs arbitrary: d)
  case Nil
  then show ?case by (simp add: py_simps)
next
  case (Cons q qs)
  obtain d1 where q: "table_command q d = (Inr (), d1)" "map_of d1 = apply_command q (map_of d)"
    using Cons.prems by (cases q) (auto simp: py_simps table_rpush_def)
  with Cons.prems have "commands_ok qs (map_of d1)" by simp
  with Cons.IH [of d1] q show ?case by (simp add: py_simps)
qed

interpretation table: redis_server table_client map_of
proof
  show "does map_of (rc_exec table_client qs) V (Inr ()) (fold apply_command qs V)"
    if "commands_ok qs V" for qs V
    using that table_exec by (auto simp: does_def)
  show "\<exists>pages d'. rc_scan table_client p d = (Inr pages, d') \<and> map_of d' = V \<and>
      set (concat pages) = {k. V k \<noteq> None \<and> glob p k}"
    if "map_of d = V" for p and d :: table and V
  proof -
    have "k \<in> fst ` set d \<longleftrightarrow> V k \<noteq> None" for k
      using that map_of_eq_None_iff [of d k] by auto
    then show ?thesis using that by (auto simp: table_client_def)
  qed
qed (auto simp: does_def py_simps table_rpush_def table_client_def)

end
