(* ===== verification/Redis_Run_Store.thy ===== *)
theory Redis_Run_Store
  imports Redis Run_Store
begin

section \<open>The Redis run store (\<open>RedisRunStore\<close> of \<open>governai/runtime/run_store.py\<close>)\<close>

text \<open>
  The durable implementation of the run store: one text key per run and per checkpoint, list keys for
  the thread indexes, a text key for a thread's active run. \<open>put\<close> is an optimistic transaction that is
  tried again, up to three times, when another client touches the run's key in between; it works on the
  caller's state object, so the object is part of the state here. Pydantic's dump and parse of a state,
  the client, the key prefix and the time to live are the store's parameters.

  The in-memory store is the specification: \<open>mirrors\<close> relates a key space to an in-memory store, and each
  operation gives the same answer on both and keeps them related. Run ids must not contain a colon (those
  the runtime draws do not): a run called \<open>checkpoint:x\<close> would be stored under a checkpoint's key.
\<close>

subsection \<open>Keys\<close>

record 'd redis_run_store =
  rr_client :: "'d redis_client"
  rr_prefix :: string
  rr_ttl :: "int option"
  rr_dump :: "run_state \<Rightarrow> string"
  rr_load :: "string \<Rightarrow> exn + run_state"

definition run_key :: "'d redis_run_store \<Rightarrow> string \<Rightarrow> string" where
  "run_key R run_id = rr_prefix R @ '':'' @ run_id"

definition checkpoint_key :: "'d redis_run_store \<Rightarrow> string \<Rightarrow> string" where
  "checkpoint_key R checkpoint_id = rr_prefix R @ '':checkpoint:'' @ checkpoint_id"

definition thread_checkpoint_index_key :: "'d redis_run_store \<Rightarrow> string \<Rightarrow> string" where
  "thread_checkpoint_index_key R thread_id = rr_prefix R @ '':thread:'' @ thread_id @ '':checkpoints''"

definition thread_run_index_key :: "'d redis_run_store \<Rightarrow> string \<Rightarrow> string" where
  "thread_run_index_key R thread_id = rr_prefix R @ '':thread:'' @ thread_id @ '':runs''"

definition thread_active_key :: "'d redis_run_store \<Rightarrow> string \<Rightarrow> string" where
  "thread_active_key R thread_id = rr_prefix R @ '':thread:'' @ thread_id @ '':active''"

subsection \<open>Helpers\<close>

definition maybe_expire :: "'d redis_run_store \<Rightarrow> string list \<Rightarrow> ('d, unit) py" where
  "maybe_expire R keys =
     (case rr_ttl R of
        None \<Rightarrow> ret ()
      | Some ttl \<Rightarrow> each (\<lambda>key. rc_expire (rr_client R) key ttl) keys)"

definition rewrite_list :: "'d redis_run_store \<Rightarrow> string \<Rightarrow> string list \<Rightarrow> ('d, unit) py" where
  "rewrite_list R key values =
     sq (rc_delete (rr_client R) key)
        (perform (values \<noteq> []) (sq (each (rc_rpush (rr_client R) key) values) (maybe_expire R [key])))"

definition redis_record_thread_run :: "'d redis_run_store \<Rightarrow> string \<Rightarrow> string \<Rightarrow> ('d, unit) py" where
  "redis_record_thread_run R thread_id run_id =
     (let key = thread_run_index_key R thread_id in
      bnd (rc_lrange (rr_client R) key) (\<lambda>existing.
      sq (perform (run_id \<notin> set existing) (rc_rpush (rr_client R) key run_id)) (maybe_expire R [key])))"

definition read_state :: "'d redis_run_store \<Rightarrow> string \<Rightarrow> ('d, run_state option) py" where
  "read_state R key =
     bnd (rc_get (rr_client R) key) (\<lambda>payload.
     case payload of
       None \<Rightarrow> ret None
     | Some t \<Rightarrow> bnd (lift_res (rr_load R t)) (\<lambda>s. ret (Some s)))"

subsection \<open>Writing a run\<close>

text \<open>\<open>put\<close> changes the state object it is given: the first component is that object.\<close>

definition on_db :: "('d, 'a) py \<Rightarrow> (run_state \<times> 'd, 'a) py" where
  "on_db = zoom snd (\<lambda>d p. (fst p, d))"

definition on_state :: "(run_state \<Rightarrow> run_state) \<Rightarrow> (run_state \<times> 'd, unit) py" where
  "on_state f = modify (\<lambda>p. (f (fst p), snd p))"

definition number_write :: "'d redis_run_store \<Rightarrow> run_state \<Rightarrow> string option \<Rightarrow> (run_state \<times> 'd, unit) py" where
  "number_write R state raw =
     (case raw of
        None \<Rightarrow> on_state (\<lambda>s. s\<lparr>rs_epoch := 1\<rparr>)
      | Some t \<Rightarrow>
          if t = [] then ret ()
          else bnd (lift_res (rr_load R t)) (\<lambda>existing.
            if rs_epoch existing > rs_epoch state
            then raise (Exn StateConcurrencyError (stale_message state (rs_epoch existing)))
            else on_state (\<lambda>s. s\<lparr>rs_epoch := rs_epoch existing + 1\<rparr>)))"

definition write_commands :: "'d redis_run_store \<Rightarrow> string \<Rightarrow> run_state \<Rightarrow> redis_command list" where
  "write_commands R checkpoint_id state =
     (let payload = rr_dump R state in
      [QSet (run_key R (rs_run_id state)) payload (rr_ttl R),
       QSet (checkpoint_key R checkpoint_id) payload (rr_ttl R),
       QRpush (thread_checkpoint_index_key R (rs_thread_id state)) checkpoint_id])"

definition put_once :: "'d redis_run_store \<Rightarrow> string \<Rightarrow> (run_state \<times> 'd, unit) py" where
  "put_once R checkpoint_id =
     bnd (gets fst) (\<lambda>state.
     sq (on_db (rc_watch (rr_client R) (run_key R (rs_run_id state))))
    (bnd (on_db (rc_get (rr_client R) (run_key R (rs_run_id state)))) (\<lambda>raw.
     sq (number_write R state raw)
    (sq (on_state (\<lambda>s. s\<lparr>rs_checkpoint_id := Some checkpoint_id\<rparr>))
    (bnd (gets fst) (\<lambda>state'.
     on_db (rc_exec (rr_client R) (write_commands R checkpoint_id state'))))))))"

definition conflict_error :: "run_state \<Rightarrow> exn" where
  "conflict_error state = Exn StateConcurrencyError
     (''Optimistic lock conflict on run '' @ rs_run_id state @ '' after 3 retries'')"

text \<open>\<open>n\<close> is the number of attempts left after this one.\<close>

fun put_attempts :: "'d redis_run_store \<Rightarrow> string \<Rightarrow> nat \<Rightarrow> (run_state \<times> 'd, unit) py" where
  "put_attempts R checkpoint_id n =
     tryc (put_once R checkpoint_id) (\<lambda>e.
       if is_watch_error e
       then (case n of
               0 \<Rightarrow> bnd (gets fst) (\<lambda>state. raise (conflict_error state))
             | Suc m \<Rightarrow> put_attempts R checkpoint_id m)
       else raise e)"

declare put_attempts.simps [simp del]

definition redis_put :: "'d redis_run_store \<Rightarrow> string \<Rightarrow> (run_state \<times> 'd, unit) py" where
  "redis_put R fresh_id =
     bnd (gets fst) (\<lambda>state.
     sq (lift_res (validate_state state))
    (sq (put_attempts R (or_else (rs_checkpoint_id state) fresh_id) 3)
    (sq (on_db (maybe_expire R [thread_checkpoint_index_key R (rs_thread_id state)]))
        (on_db (redis_record_thread_run R (rs_thread_id state) (rs_run_id state))))))"

definition redis_write_checkpoint :: "'d redis_run_store \<Rightarrow> string \<Rightarrow> run_state \<Rightarrow> ('d, string) py" where
  "redis_write_checkpoint R fresh_id state =
     (let checkpoint_id = or_else (rs_checkpoint_id state) fresh_id;
          payload = rr_dump R (state\<lparr>rs_checkpoint_id := Some checkpoint_id\<rparr>);
          key = thread_checkpoint_index_key R (rs_thread_id state)
      in sq (rc_set (rr_client R) (checkpoint_key R checkpoint_id) payload (rr_ttl R))
        (sq (rc_rpush (rr_client R) key checkpoint_id)
        (sq (maybe_expire R [key])
            (ret checkpoint_id))))"

subsection \<open>Reading, deleting, thread lookup\<close>

definition redis_get :: "'d redis_run_store \<Rightarrow> string \<Rightarrow> ('d, run_state option) py" where
  "redis_get R run_id = read_state R (run_key R run_id)"

definition redis_delete_run :: "'d redis_run_store \<Rightarrow> string \<Rightarrow> ('d, unit) py" where
  "redis_delete_run R run_id =
     bnd (redis_get R run_id) (\<lambda>found.
     sq (rc_delete (rr_client R) (run_key R run_id))
        (case found of
           None \<Rightarrow> ret ()
         | Some state \<Rightarrow>
             (let history_key = thread_run_index_key R (rs_thread_id state);
                  active_key = thread_active_key R (rs_thread_id state)
              in bnd (rc_lrange (rr_client R) history_key) (\<lambda>history.
                 sq (rewrite_list R history_key (filter (\<lambda>current. current \<noteq> run_id) history))
                (bnd (rc_get (rr_client R) active_key) (\<lambda>active_run_id.
                 perform (active_run_id = Some run_id) (rc_delete (rr_client R) active_key)))))))"

definition redis_get_checkpoint :: "'d redis_run_store \<Rightarrow> string \<Rightarrow> ('d, run_state option) py" where
  "redis_get_checkpoint R checkpoint_id = read_state R (checkpoint_key R checkpoint_id)"

definition redis_get_latest_checkpoint :: "'d redis_run_store \<Rightarrow> string \<Rightarrow> ('d, run_state option) py" where
  "redis_get_latest_checkpoint R thread_id =
     bnd (rc_last (rr_client R) (thread_checkpoint_index_key R thread_id)) (\<lambda>checkpoint_id.
     case checkpoint_id of None \<Rightarrow> ret None | Some c \<Rightarrow> redis_get_checkpoint R c)"

fun load_checkpoints :: "'d redis_run_store \<Rightarrow> string list \<Rightarrow> ('d, run_state list) py" where
  "load_checkpoints R [] = ret []"
| "load_checkpoints R (c # cs) =
     bnd (redis_get_checkpoint R c) (\<lambda>snapshot.
     bnd (load_checkpoints R cs) (\<lambda>out.
     ret (case snapshot of None \<Rightarrow> out | Some s \<Rightarrow> s # out)))"

definition redis_list_checkpoints :: "'d redis_run_store \<Rightarrow> string \<Rightarrow> ('d, run_state list) py" where
  "redis_list_checkpoints R thread_id =
     bnd (rc_lrange (rr_client R) (thread_checkpoint_index_key R thread_id)) (load_checkpoints R)"

definition redis_get_active_run_id :: "'d redis_run_store \<Rightarrow> string \<Rightarrow> ('d, string option) py" where
  "redis_get_active_run_id R thread_id =
     bnd (rc_get (rr_client R) (thread_active_key R thread_id)) (\<lambda>found.
     case found of
       None \<Rightarrow> ret None
     | Some run_id \<Rightarrow>
         bnd (redis_get R run_id) (\<lambda>state.
         if state = None
         then sq (rc_delete (rr_client R) (thread_active_key R thread_id)) (ret None)
         else ret (Some run_id)))"

fun unique_in_order :: "string list \<Rightarrow> string list \<Rightarrow> string list" where
  "unique_in_order seen [] = []"
| "unique_in_order seen (x # xs) =
     (if x \<in> set seen then unique_in_order seen xs else x # unique_in_order (x # seen) xs)"

fun existing_runs :: "'d redis_run_store \<Rightarrow> string list \<Rightarrow> ('d, string list) py" where
  "existing_runs R [] = ret []"
| "existing_runs R (r # rs) =
     bnd (redis_get R r) (\<lambda>state.
     bnd (existing_runs R rs) (\<lambda>valid.
     ret (if state = None then valid else r # valid)))"

definition redis_list_run_ids :: "'d redis_run_store \<Rightarrow> string \<Rightarrow> ('d, string list) py" where
  "redis_list_run_ids R thread_id =
     (let key = thread_run_index_key R thread_id in
      bnd (rc_lrange (rr_client R) key) (\<lambda>normalized.
      bnd (existing_runs R (unique_in_order [] normalized)) (\<lambda>valid.
      sq (perform (valid \<noteq> normalized) (rewrite_list R key valid))
         (ret valid))))"

definition redis_get_latest_run_id :: "'d redis_run_store \<Rightarrow> string \<Rightarrow> ('d, string option) py" where
  "redis_get_latest_run_id R thread_id =
     bnd (redis_list_run_ids R thread_id) (\<lambda>run_ids.
     ret (if run_ids = [] then None else Some (last run_ids)))"

definition redis_set_active_run_id :: "'d redis_run_store \<Rightarrow> string \<Rightarrow> string \<Rightarrow> ('d, unit) py" where
  "redis_set_active_run_id R thread_id run_id =
     sq (redis_record_thread_run R thread_id run_id)
        (rc_set (rr_client R) (thread_active_key R thread_id) run_id (rr_ttl R))"

definition redis_clear_active_run_id :: "'d redis_run_store \<Rightarrow> string \<Rightarrow> string \<Rightarrow> ('d, unit) py" where
  "redis_clear_active_run_id R thread_id run_id =
     (let key = thread_active_key R thread_id in
      bnd (rc_get (rr_client R) key) (\<lambda>active_run_id.
      perform (active_run_id = Some run_id) (rc_delete (rr_client R) key)))"

subsection \<open>Keys do not collide\<close>

definition plain_id :: "string \<Rightarrow> bool" where
  "plain_id r \<longleftrightarrow> CHR '':'' \<notin> set r"

lemma plain_idD: "plain_id (a @ CHR '':'' # b) \<Longrightarrow> P"
  by (simp add: plain_id_def)

lemma ends_differ: "rev s \<noteq> rev t \<Longrightarrow> s \<noteq> t"
  by blast

lemma run_key_eq [simp]: "run_key R r = run_key R r' \<longleftrightarrow> r = r'"
  by (simp add: run_key_def)

lemma checkpoint_key_eq [simp]: "checkpoint_key R c = checkpoint_key R c' \<longleftrightarrow> c = c'"
  by (simp add: checkpoint_key_def)

lemma thread_key_eq [simp]:
  "thread_checkpoint_index_key R t = thread_checkpoint_index_key R t' \<longleftrightarrow> t = t'"
  "thread_run_index_key R t = thread_run_index_key R t' \<longleftrightarrow> t = t'"
  "thread_active_key R t = thread_active_key R t' \<longleftrightarrow> t = t'"
  by (simp_all add: thread_checkpoint_index_key_def thread_run_index_key_def thread_active_key_def)

lemma thread_keys_apart [simp]:
  "thread_checkpoint_index_key R t \<noteq> thread_run_index_key R t'"
  "thread_checkpoint_index_key R t \<noteq> thread_active_key R t'"
  "thread_run_index_key R t \<noteq> thread_checkpoint_index_key R t'"
  "thread_run_index_key R t \<noteq> thread_active_key R t'"
  "thread_active_key R t \<noteq> thread_checkpoint_index_key R t'"
  "thread_active_key R t \<noteq> thread_run_index_key R t'"
  unfolding thread_checkpoint_index_key_def thread_run_index_key_def thread_active_key_def
  by (rule ends_differ, simp)+

lemma checkpoint_thread_apart [simp]:
  "checkpoint_key R c \<noteq> thread_checkpoint_index_key R t" "thread_checkpoint_index_key R t \<noteq> checkpoint_key R c"
  "checkpoint_key R c \<noteq> thread_run_index_key R t" "thread_run_index_key R t \<noteq> checkpoint_key R c"
  "checkpoint_key R c \<noteq> thread_active_key R t" "thread_active_key R t \<noteq> checkpoint_key R c"
  by (simp_all add: checkpoint_key_def thread_checkpoint_index_key_def thread_run_index_key_def thread_active_key_def)

lemma run_keys_apart [simp]:
  assumes "plain_id r"
  shows "run_key R r \<noteq> checkpoint_key R c" "checkpoint_key R c \<noteq> run_key R r"
    "run_key R r \<noteq> thread_checkpoint_index_key R t" "thread_checkpoint_index_key R t \<noteq> run_key R r"
    "run_key R r \<noteq> thread_run_index_key R t" "thread_run_index_key R t \<noteq> run_key R r"
    "run_key R r \<noteq> thread_active_key R t" "thread_active_key R t \<noteq> run_key R r"
  using assms
  by (auto simp: plain_id_def run_key_def checkpoint_key_def thread_checkpoint_index_key_def
      thread_run_index_key_def thread_active_key_def)

subsection \<open>The key space of an in-memory store\<close>

definition mirrors :: "'d redis_run_store \<Rightarrow> keyspace \<Rightarrow> mem_run_store \<Rightarrow> bool" where
  "mirrors R V st \<longleftrightarrow>
     (\<forall>r. plain_id r \<longrightarrow> V (run_key R r) = map_option (RText \<circ> rr_dump R) (dget (st_state st) r)) \<and>
     (\<forall>c. V (checkpoint_key R c) = map_option (RText \<circ> rr_dump R) (dget (st_checkpoints st) c)) \<and>
     (\<forall>t. as_list (V (thread_checkpoint_index_key R t)) = Inr (dget_or (st_thread_checkpoints st) t [])) \<and>
     (\<forall>t. as_list (V (thread_run_index_key R t)) = Inr (dget_or (st_thread_runs st) t [])) \<and>
     (\<forall>t. V (thread_active_key R t) = map_option RText (dget (st_thread_active st) t)) \<and>
     (\<forall>t. \<forall>r \<in> set (dget_or (st_thread_runs st) t []). plain_id r) \<and>
     (\<forall>t r. dget (st_thread_active st) t = Some r \<longrightarrow> plain_id r)"

lemma mirrorsI:
  assumes "\<And>r. plain_id r \<Longrightarrow> V (run_key R r) = map_option (RText \<circ> rr_dump R) (dget (st_state st) r)"
    and "\<And>c. V (checkpoint_key R c) = map_option (RText \<circ> rr_dump R) (dget (st_checkpoints st) c)"
    and "\<And>t. as_list (V (thread_checkpoint_index_key R t)) = Inr (dget_or (st_thread_checkpoints st) t [])"
    and "\<And>t. as_list (V (thread_run_index_key R t)) = Inr (dget_or (st_thread_runs st) t [])"
    and "\<And>t. V (thread_active_key R t) = map_option RText (dget (st_thread_active st) t)"
    and "\<And>t r. r \<in> set (dget_or (st_thread_runs st) t []) \<Longrightarrow> plain_id r"
    and "\<And>t r. dget (st_thread_active st) t = Some r \<Longrightarrow> plain_id r"
  shows "mirrors R V st"
  using assms by (auto simp: mirrors_def)

lemma mirrorsD:
  assumes "mirrors R V st"
  shows "plain_id r \<Longrightarrow> V (run_key R r) = map_option (RText \<circ> rr_dump R) (dget (st_state st) r)"
    and "V (checkpoint_key R c) = map_option (RText \<circ> rr_dump R) (dget (st_checkpoints st) c)"
    and "as_list (V (thread_checkpoint_index_key R t)) = Inr (dget_or (st_thread_checkpoints st) t [])"
    and "as_list (V (thread_run_index_key R t)) = Inr (dget_or (st_thread_runs st) t [])"
    and "V (thread_active_key R t) = map_option RText (dget (st_thread_active st) t)"
    and "r \<in> set (dget_or (st_thread_runs st) t []) \<Longrightarrow> plain_id r"
    and "dget (st_thread_active st) t = Some r \<Longrightarrow> plain_id r"
  using assms by (auto simp: mirrors_def)

lemma mirrors_empty: "mirrors R (\<lambda>_. None) empty_run_store"
  by (simp add: mirrors_def empty_run_store_def as_list_def)

lemma as_list_simps [simp]: "as_list None = Inr []" "as_list (Some (RList xs)) = Inr xs"
  by (simp_all add: as_list_def)

lemma as_list_rewrite [simp]: "as_list (if xs = [] then None else Some (RList xs)) = Inr xs"
  by simp

lemma as_text_map [simp]: "as_text (map_option (RText \<circ> f) x) = Inr (map_option f x)"
  "as_text (map_option RText y) = Inr y"
  by (cases x; cases y; simp add: as_text_def)+

lemma unique_in_order_distinct: "distinct xs \<Longrightarrow> set xs \<inter> set seen = {} \<Longrightarrow> unique_in_order seen xs = xs"
  by (induction xs arbitrary: seen) auto

subsection \<open>One object, one database\<close>

abbreviation pair_view :: "('d \<Rightarrow> keyspace) \<Rightarrow> run_state \<times> 'd \<Rightarrow> run_state \<times> keyspace" where
  "pair_view view \<equiv> map_prod (\<lambda>s. s) view"

lemma does_on_db: "does view m V r V' \<Longrightarrow> does (pair_view view) (on_db m) (s, V) r (s, V')"
  by (fastforce simp: does_def on_db_def py_simps)

lemma does_on_state: "does (pair_view view) (on_state f) (s, V) (Inr ()) (f s, V)"
  by (auto simp: does_def on_state_def py_simps)

lemma does_object: "does (pair_view view) (gets fst) (s, V) (Inr s) (s, V)"
  by (auto simp: does_def py_simps)

text \<open>\<open>tracks R view m V r st\<close>: from \<open>V\<close> the operation gives \<open>r\<close> and leaves a key space that mirrors \<open>st\<close>.\<close>

definition tracks ::
  "'d redis_run_store \<Rightarrow> ('d \<Rightarrow> keyspace) \<Rightarrow> ('d, 'a) py \<Rightarrow> keyspace \<Rightarrow> exn + 'a \<Rightarrow> mem_run_store \<Rightarrow> bool" where
  "tracks R view m V r st \<longleftrightarrow> (\<exists>V'. does view m V r V' \<and> mirrors R V' st)"

lemma tracksI: "does view m V r V' \<Longrightarrow> mirrors R V' st \<Longrightarrow> tracks R view m V r st"
  by (auto simp: tracks_def)

lemma tracks_bnd: "does view m V (Inr x) V1 \<Longrightarrow> tracks R view (f x) V1 r st \<Longrightarrow> tracks R view (bnd m f) V r st"
  by (auto simp: tracks_def intro: does_bnd)

lemma tracks_then:
  "tracks R view m V (Inr x) st1 \<Longrightarrow> (\<And>V1. mirrors R V1 st1 \<Longrightarrow> tracks R view (f x) V1 r st) \<Longrightarrow>
   tracks R view (bnd m f) V r st"
  by (fastforce simp: tracks_def intro: does_bnd)

lemma tracks_ret: "mirrors R V st \<Longrightarrow> tracks R view (ret x) V (Inr x) st"
  by (rule tracksI [OF does_ret])

locale redis_runs = redis_server "rr_client R" view for R :: "'d redis_run_store" and view +
  assumes load_dump: "rr_load R (rr_dump R s) = Inr s"
    and dump_text: "rr_dump R s \<noteq> []"
    and no_ttl: "rr_ttl R = None"
begin

lemma maybe_expire_does: "does view (maybe_expire R ks) V (Inr ()) V"
  by (simp add: maybe_expire_def no_ttl does_ret)

lemma rewrite_list_does:
  "does view (rewrite_list R k xs) V (Inr ()) (V(k := (if xs = [] then None else Some (RList xs))))"
  unfolding rewrite_list_def
  by (rule does_sq [OF delete], rule does_perform, rule does_sq [OF push_new maybe_expire_does]) simp

lemma read_state_does:
  assumes "V k = map_option (RText \<circ> rr_dump R) x"
  shows "does view (read_state R k) V (Inr x) V"
  unfolding read_state_def
  by (rule does_bnd [OF get_text [where t = "map_option (rr_dump R) x"]])
    (use assms in \<open>simp, cases x, simp_all add: load_dump does_def py_simps\<close>)

lemma record_run_does:
  assumes "as_list (V (thread_run_index_key R t)) = Inr xs"
  shows "does view (redis_record_thread_run R t r) V (Inr ())
    (if r \<in> set xs then V else V(thread_run_index_key R t \<mapsto> RList (xs @ [r])))"
  unfolding redis_record_thread_run_def Let_def
  by (rule does_bnd [OF lrange_list [where V = V, OF assms]], rule does_sq [OF does_perform maybe_expire_does])
    (use rpush [where V = V and k = "thread_run_index_key R t", OF assms] in auto)

lemma redis_get_does:
  "mirrors R V st \<Longrightarrow> plain_id r \<Longrightarrow> does view (redis_get R r) V (Inr (get st r)) V"
  unfolding redis_get_def get_def by (rule read_state_does) (rule mirrorsD(1))

lemma redis_get_checkpoint_does:
  "mirrors R V st \<Longrightarrow> does view (redis_get_checkpoint R c) V (Inr (get_checkpoint st c)) V"
  unfolding redis_get_checkpoint_def get_checkpoint_def by (rule read_state_does) (rule mirrorsD(2))

lemma checkpoint_ids_does:
  "mirrors R V st \<Longrightarrow>
   does view (rc_lrange (rr_client R) (thread_checkpoint_index_key R t)) V
     (Inr (dget_or (st_thread_checkpoints st) t [])) V"
  by (rule lrange_list) (rule mirrorsD(3))

lemma checkpoint_last_does:
  "mirrors R V st \<Longrightarrow>
   does view (rc_last (rr_client R) (thread_checkpoint_index_key R t)) V
     (Inr (let ids = dget_or (st_thread_checkpoints st) t [] in if ids = [] then None else Some (last ids))) V"
  unfolding Let_def by (rule lindex_list) (rule mirrorsD(3))

lemma history_does:
  "mirrors R V st \<Longrightarrow>
   does view (rc_lrange (rr_client R) (thread_run_index_key R t)) V (Inr (dget_or (st_thread_runs st) t [])) V"
  by (rule lrange_list) (rule mirrorsD(4))

lemma active_key_does:
  "mirrors R V st \<Longrightarrow>
   does view (rc_get (rr_client R) (thread_active_key R t)) V (Inr (dget (st_thread_active st) t)) V"
  by (rule get_text) (simp add: mirrorsD(5))

lemma redis_latest_checkpoint_does:
  assumes m: "mirrors R V st"
  shows "does view (redis_get_latest_checkpoint R t) V (Inr (get_latest_checkpoint st t)) V"
  unfolding redis_get_latest_checkpoint_def get_latest_checkpoint_def Let_def
  by (rule does_bnd [OF checkpoint_last_does [OF m]])
    (use redis_get_checkpoint_does [OF m] in \<open>simp add: does_ret get_checkpoint_def Let_def\<close>)

lemma load_checkpoints_does:
  assumes m: "mirrors R V st"
  shows "does view (load_checkpoints R cs) V (Inr (List.map_filter (get_checkpoint st) cs)) V"
proof (induction cs)
  case Nil
  show ?case by (simp add: does_ret map_filter_simps)
next
  case (Cons c cs)
  show ?case
    unfolding load_checkpoints.simps
    by (rule does_bnd [OF redis_get_checkpoint_does [OF m]], rule does_bnd [OF Cons.IH])
      (simp add: map_filter_simps does_def py_simps split: option.splits)
qed

lemma redis_list_checkpoints_does:
  assumes m: "mirrors R V st"
  shows "does view (redis_list_checkpoints R t) V (Inr (list_checkpoints st t)) V"
  unfolding redis_list_checkpoints_def list_checkpoints_def
  using load_checkpoints_does [OF m]
  by (intro does_bnd [OF checkpoint_ids_does [OF m]]) (simp add: get_checkpoint_def [abs_def])

lemma existing_runs_does:
  assumes m: "mirrors R V st" and "\<forall>r \<in> set rs. plain_id r"
  shows "does view (existing_runs R rs) V (Inr (filter (dhas (st_state st)) rs)) V"
  using assms(2)
proof (induction rs)
  case Nil
  show ?case by (simp add: does_ret)
next
  case (Cons r rs)
  show ?case
    unfolding existing_runs.simps
    by (rule does_bnd [OF redis_get_does [OF m]], use Cons.prems in simp, rule does_bnd [OF Cons.IH])
      (use Cons.prems in \<open>simp_all add: get_def dhas_def [abs_def] does_def py_simps\<close>)
qed

lemma mirrors_runs:
  assumes "mirrors R V st" and "\<forall>r \<in> set xs. plain_id r"
    and "as_list v = Inr xs" and "\<And>t'. dget_or ts t' [] = (if t' = t then xs else dget_or (st_thread_runs st) t' [])"
  shows "mirrors R (V(thread_run_index_key R t := v)) (st\<lparr>st_thread_runs := ts\<rparr>)"
  by (rule mirrorsI) (use assms mirrorsD [OF assms(1)] in \<open>auto simp: plain_id_def split: if_splits\<close>)

lemma mirrors_active:
  assumes "mirrors R V st" and "\<And>r. x = Some r \<Longrightarrow> plain_id r"
    and "\<And>t'. dget ts t' = (if t' = t then x else dget (st_thread_active st) t')"
  shows "mirrors R (V(thread_active_key R t := map_option RText x)) (st\<lparr>st_thread_active := ts\<rparr>)"
  by (rule mirrorsI) (use assms mirrorsD [OF assms(1)] in \<open>auto simp: plain_id_def split: if_splits\<close>)

lemma mirrors_forget_active:
  "mirrors R V st \<Longrightarrow>
   mirrors R (V(thread_active_key R t := None)) (st\<lparr>st_thread_active := ddel t (st_thread_active st)\<rparr>)"
  using mirrors_active [where x = None and V = V and st = st and t = t and ts = "ddel t (st_thread_active st)"]
  by simp

lemma rewrite_runs_tracks:
  assumes m: "mirrors R V st" and p: "\<forall>r \<in> set xs. plain_id r"
    and "\<And>t'. dget_or ts t' [] = (if t' = t then xs else dget_or (st_thread_runs st) t' [])"
  shows "tracks R view (rewrite_list R (thread_run_index_key R t) xs) V (Inr ()) (st\<lparr>st_thread_runs := ts\<rparr>)"
  by (rule tracksI [OF rewrite_list_does mirrors_runs [OF m p as_list_rewrite]]) (rule assms)

lemma record_run_tracks:
  assumes m: "mirrors R V st" and r: "plain_id r"
  shows "tracks R view (redis_record_thread_run R t r) V (Inr ()) (record_thread_run t r st)"
proof (rule tracksI [OF record_run_does [where V = V and t = t, OF mirrorsD(4) [OF m]]])
  let ?runs = "dget_or (st_thread_runs st) t []"
  have p: "\<forall>q \<in> set (if r \<in> set ?runs then ?runs else ?runs @ [r]). plain_id q"
    using r mirrorsD(6) [OF m] by auto
  show "mirrors R (if r \<in> set ?runs then V else V(thread_run_index_key R t \<mapsto> RList (?runs @ [r])))
      (record_thread_run t r st)"
  proof (cases "r \<in> set ?runs")
    case True
    then have "mirrors R (V(thread_run_index_key R t := V (thread_run_index_key R t))) (record_thread_run t r st)"
      unfolding record_thread_run_def Let_def
      by (intro mirrors_runs [OF m p]) (simp_all add: mirrorsD(4) [OF m])
    with True show ?thesis by simp
  next
    case False
    then show ?thesis
      unfolding record_thread_run_def Let_def by (simp, intro mirrors_runs [OF m p]) simp_all
  qed
qed

lemma list_run_ids_tracks:
  assumes m: "mirrors R V st" and inv: "store_inv st" and l: "list_run_ids t st = (ids, st')"
  shows "tracks R view (redis_list_run_ids R t) V (Inr ids) st'"
proof -
  let ?runs = "dget_or (st_thread_runs st) t []" and ?key = "thread_run_index_key R t"
  let ?valid = "filter (dhas (st_state st)) ?runs"
  have d: "distinct ?runs" using inv by (simp add: store_inv_defs)
  have p: "\<forall>r \<in> set ?runs. plain_id r" using mirrorsD(6) [OF m] by blast
  have e: "does view (existing_runs R (unique_in_order [] ?runs)) V (Inr ?valid) V"
    using existing_runs_does [OF m p] d by (simp add: unique_in_order_distinct)
  have same: "?valid \<noteq> ?runs \<longleftrightarrow> length ?valid \<noteq> length ?runs"
    by (metis filter_id_conv length_filter_less less_irrefl)
  have last: "tracks R view (sq (perform (?valid \<noteq> ?runs) (rewrite_list R ?key ?valid)) (ret ?valid)) V (Inr ids) st'"
  proof (cases "?valid = ?runs")
    case True
    then show ?thesis using l m same by (auto simp: list_run_ids_def perform_def sq_def tracks_def does_def py_simps)
  next
    case False
    then have st': "ids = ?valid" "st' = (if ?valid \<noteq> []
        then st\<lparr>st_thread_runs := dset t ?valid (st_thread_runs st)\<rparr>
        else st\<lparr>st_thread_runs := ddel t (st_thread_runs st)\<rparr>)"
      using l same by (auto simp: list_run_ids_def Let_def split: if_splits)
    have "tracks R view (rewrite_list R ?key ?valid) V (Inr ()) st'"
      unfolding st' using p
      by (cases "?valid = []") (auto intro!: rewrite_runs_tracks [OF m])
    with False st'(1) show ?thesis
      by (auto simp: perform_def sq_def intro: tracks_then tracks_ret)
  qed
  show ?thesis
    unfolding redis_list_run_ids_def Let_def
    by (rule tracks_bnd [OF history_does [OF m]], rule tracks_bnd [OF e]) (rule last)
qed

lemma latest_run_tracks:
  assumes m: "mirrors R V st" and inv: "store_inv st" and l: "get_latest_run_id t st = (x, st')"
  shows "tracks R view (redis_get_latest_run_id R t) V (Inr x) st'"
proof -
  obtain ids where ids: "list_run_ids t st = (ids, st')" "x = (if ids = [] then None else Some (last ids))"
    using l by (auto simp: get_latest_run_id_def split: prod.splits)
  show ?thesis
    unfolding redis_get_latest_run_id_def ids(2)
    by (rule tracks_then [OF list_run_ids_tracks [OF m inv ids(1)]]) (rule tracks_ret)
qed

lemma active_tracks:
  assumes m: "mirrors R V st" and a: "get_active_run_id t st = (x, st')"
  shows "tracks R view (redis_get_active_run_id R t) V (Inr x) st'"
proof (cases "dget (st_thread_active st) t")
  case None
  with a m show ?thesis
    unfolding redis_get_active_run_id_def
    by (intro tracks_bnd [OF active_key_does [OF m]])
      (auto simp: get_active_run_id_def intro: tracks_ret)
next
  case (Some r)
  have g: "does view (rc_get (rr_client R) (thread_active_key R t)) V (Inr (Some r)) V"
    using active_key_does [OF m, of t] Some by simp
  have s: "does view (redis_get R r) V (Inr (get st r)) V"
    using m mirrorsD(7) [OF m Some] by (rule redis_get_does)
  show ?thesis
    unfolding redis_get_active_run_id_def
    by (rule tracks_bnd [OF g], simp, rule tracks_bnd [OF s])
      (use a Some m in \<open>auto simp: get_active_run_id_def get_def dhas_def
        intro!: tracks_ret tracksI [OF does_sq [OF delete does_ret]] mirrors_forget_active split: if_splits\<close>)
qed

lemma set_active_tracks:
  assumes m: "mirrors R V st" and r: "plain_id r"
  shows "tracks R view (redis_set_active_run_id R t r) V (Inr ()) (set_active_run_id t r st)"
proof -
  have s: "tracks R view (rc_set (rr_client R) (thread_active_key R t) r (rr_ttl R)) V1 (Inr ())
      (set_active_run_id t r st)" if "mirrors R V1 (record_thread_run t r st)" for V1
    unfolding set_active_run_id_def Let_def no_ttl
    using mirrors_active [OF that, where x = "Some r" and t = t] r
    by (intro tracksI [OF set]) simp
  show ?thesis
    unfolding redis_set_active_run_id_def sq_def
    by (rule tracks_then [OF record_run_tracks [OF m r]]) (rule s)
qed

lemma clear_active_tracks:
  assumes m: "mirrors R V st"
  shows "tracks R view (redis_clear_active_run_id R t r) V (Inr ()) (clear_active_run_id t r st)"
  unfolding redis_clear_active_run_id_def clear_active_run_id_def Let_def
  by (rule tracks_bnd [OF active_key_does [OF m]])
    (auto simp: perform_def intro: tracks_ret [OF m] tracksI [OF delete mirrors_forget_active [OF m]])

lemma mirrors_drop_run:
  assumes m: "mirrors R V st" and r: "plain_id r"
  shows "mirrors R (V(run_key R r := None)) (st\<lparr>st_state := ddel r (st_state st)\<rparr>)"
  by (rule mirrorsI) (use mirrorsD [OF m] r in \<open>auto simp: plain_id_def\<close>)

lemma delete_tracks:
  assumes m: "mirrors R V st" and r: "plain_id r"
  shows "tracks R view (redis_delete_run R r) V (Inr ()) (delete_run r st)"
proof (cases "dget (st_state st) r")
  case None
  then have "V(run_key R r := None) = V" using mirrorsD(1) [OF m r] by auto
  with None show ?thesis
    unfolding redis_delete_run_def delete_run_def
    using delete [where V = V and k = "run_key R r"] m
    by (intro tracks_bnd [OF redis_get_does [OF m r]]) (auto simp: get_def intro: tracksI [OF does_sq [OF _ does_ret]])
next
  case (Some v)
  let ?t = "rs_thread_id v" and ?st1 = "st\<lparr>st_state := ddel r (st_state st)\<rparr>"
  let ?st2 = "remove_thread_run ?t r ?st1"
  let ?hist = "dget_or (st_thread_runs ?st1) ?t []"
  have m1: "mirrors R (V(run_key R r := None)) ?st1" using m r by (rule mirrors_drop_run)
  have runs: "tracks R view (rewrite_list R (thread_run_index_key R ?t) (filter (\<lambda>c. c \<noteq> r) ?hist)) V1 (Inr ()) ?st2"
    if m1: "mirrors R V1 ?st1" for V1
  proof -
    have "tracks R view (rewrite_list R (thread_run_index_key R ?t) (filter (\<lambda>c. c \<noteq> r) ?hist)) V1 (Inr ())
        (?st1\<lparr>st_thread_runs := st_thread_runs ?st2\<rparr>)"
      by (rule rewrite_runs_tracks [OF m1])
        (use mirrorsD(6) [OF m1] in \<open>auto simp: remove_thread_run_index Let_def\<close>)
    moreover have "?st1\<lparr>st_thread_runs := st_thread_runs ?st2\<rparr> = ?st2"
      by (simp add: remove_thread_run_def Let_def split: option.splits)
    ultimately show ?thesis by simp
  qed
  have active: "tracks R view (bnd (rc_get (rr_client R) (thread_active_key R ?t)) (\<lambda>active.
      perform (active = Some r) (rc_delete (rr_client R) (thread_active_key R ?t)))) V2 (Inr ()) (delete_run r st)"
    if m2: "mirrors R V2 ?st2" for V2
    by (rule tracks_bnd [OF active_key_does [OF m2]])
      (use Some m2 mirrors_forget_active [OF m2, of ?t] in
        \<open>auto simp: delete_run_def Let_def perform_def intro: tracks_ret tracksI [OF delete]\<close>)
  show ?thesis
    unfolding redis_delete_run_def sq_def
    by (rule tracks_bnd [OF redis_get_does [OF m r]], rule tracks_bnd [OF delete])
      (use Some m1 in \<open>simp add: get_def Let_def,
        intro tracks_bnd [OF history_does [OF m1]] tracks_then [OF runs] active, simp_all\<close>)
qed

lemma known_checkpoint: "store_inv st \<Longrightarrow> get_checkpoint st c = None \<Longrightarrow> c \<notin> set (dget_or (st_thread_checkpoints st) t [])"
proof
  assume "store_inv st" "get_checkpoint st c = None" "c \<in> set (dget_or (st_thread_checkpoints st) t [])"
  moreover from \<open>store_inv st\<close> have "\<forall>c \<in> set (dget_or (st_thread_checkpoints st) t []). dhas (st_checkpoints st) c"
    by (simp add: store_inv_defs)
  ultimately show False by (auto simp: get_checkpoint_def dhas_def)
qed

lemma mirrors_checkpoint:
  assumes m: "mirrors R V st" and inv: "store_inv st"
    and new: "get_checkpoint st (or_else (rs_checkpoint_id s) u) = None"
  shows "mirrors R
    (V(checkpoint_key R (or_else (rs_checkpoint_id s) u) \<mapsto>
         RText (rr_dump R (s\<lparr>rs_checkpoint_id := Some (or_else (rs_checkpoint_id s) u)\<rparr>)),
       thread_checkpoint_index_key R (rs_thread_id s) \<mapsto>
         RList (dget_or (st_thread_checkpoints st) (rs_thread_id s) [] @ [or_else (rs_checkpoint_id s) u])))
    (snd (write_checkpoint u s st))"
  by (rule mirrorsI)
    (use mirrorsD [OF m] known_checkpoint [OF inv new] in
      \<open>auto simp: write_checkpoint_get write_checkpoint_index Let_def plain_id_def\<close>)

lemma write_checkpoint_tracks:
  assumes m: "mirrors R V st" and inv: "store_inv st"
    and new: "get_checkpoint st (or_else (rs_checkpoint_id s) u) = None"
  shows "tracks R view (redis_write_checkpoint R u s) V (Inr (fst (write_checkpoint u s st)))
    (snd (write_checkpoint u s st))"
  unfolding redis_write_checkpoint_def Let_def sq_def no_ttl write_checkpoint_fst
  by (rule tracks_bnd [OF set], rule tracks_bnd [OF rpush], rule trans [OF _ mirrorsD(3) [OF m, of "rs_thread_id s"]],
      simp, rule tracks_bnd [OF maybe_expire_does], rule tracks_ret, rule mirrors_checkpoint [OF m inv new])

lemma number_write_does:
  assumes "\<And>old. g = Some old \<Longrightarrow> rs_epoch old \<le> rs_epoch s"
  shows "does (pair_view view) (number_write R s (map_option (rr_dump R) g)) (s, V) (Inr ())
    (s\<lparr>rs_epoch := next_epoch g\<rparr>, V)"
  using assms does_on_state [of view "\<lambda>s. s\<lparr>rs_epoch := next_epoch g\<rparr>" s V]
  by (cases g) (auto simp: number_write_def load_dump dump_text does_def py_simps not_less)

lemma number_write_stale:
  assumes "rs_epoch s < rs_epoch old"
  shows "does (pair_view view) (number_write R s (Some (rr_dump R old))) (s, V)
    (Inl (Exn StateConcurrencyError (stale_message s (rs_epoch old)))) (s, V)"
  using assms by (simp add: number_write_def load_dump dump_text does_def py_simps)

lemma run_key_does:
  assumes "mirrors R V st" and "plain_id r"
  shows "does view (rc_get (rr_client R) (run_key R r)) V (Inr (map_option (rr_dump R) (get st r))) V"
  by (rule get_text) (simp add: mirrorsD(1) [OF assms] get_def)

text \<open>The key space after the transaction that writes \<open>s\<close> (numbered, with its checkpoint id) as \<open>st\<close>'s.\<close>

definition committed :: "keyspace \<Rightarrow> string \<Rightarrow> run_state \<Rightarrow> mem_run_store \<Rightarrow> keyspace" where
  "committed V c s st =
     V(run_key R (rs_run_id s) \<mapsto> RText (rr_dump R s), checkpoint_key R c \<mapsto> RText (rr_dump R s),
       thread_checkpoint_index_key R (rs_thread_id s) \<mapsto>
         RList (dget_or (st_thread_checkpoints st) (rs_thread_id s) [] @ [c]))"

lemma write_commands_does:
  assumes m: "mirrors R V st" and r: "plain_id (rs_run_id s)"
  shows "does view (rc_exec (rr_client R) (write_commands R c s)) V (Inr ()) (committed V c s st)"
proof -
  have l: "as_list (V (thread_checkpoint_index_key R (rs_thread_id s))) =
      Inr (dget_or (st_thread_checkpoints st) (rs_thread_id s) [])" by (rule mirrorsD(3) [OF m])
  have "commands_ok (write_commands R c s) V"
    using l r by (simp add: write_commands_def Let_def no_ttl)
  moreover have "fold apply_command (write_commands R c s) V = committed V c s st"
    using l r by (simp add: write_commands_def Let_def committed_def)
  ultimately show ?thesis using exec by metis
qed

lemma put_once_does:
  assumes m: "mirrors R V st" and r: "plain_id (rs_run_id s)"
    and ok: "\<And>old. get st (rs_run_id s) = Some old \<Longrightarrow> rs_epoch old \<le> rs_epoch s"
  shows "does (pair_view view) (put_once R c) (s, V) (Inr ())
    (s\<lparr>rs_epoch := next_epoch (get st (rs_run_id s)), rs_checkpoint_id := Some c\<rparr>,
     committed V c (s\<lparr>rs_epoch := next_epoch (get st (rs_run_id s)), rs_checkpoint_id := Some c\<rparr>) st)"
  unfolding put_once_def sq_def
  by (rule does_bnd [OF does_object], rule does_bnd [OF does_on_db [OF watch]],
      rule does_bnd [OF does_on_db [OF run_key_does [OF m r]]], rule does_bnd [OF number_write_does [OF ok]],
      assumption, rule does_bnd [OF does_on_state], rule does_bnd [OF does_object],
      rule does_on_db, rule write_commands_does [OF m]) (simp add: r)

lemma put_once_stale:
  assumes m: "mirrors R V st" and r: "plain_id (rs_run_id s)"
    and old: "get st (rs_run_id s) = Some old" "rs_epoch s < rs_epoch old"
  shows "does (pair_view view) (put_once R c) (s, V)
    (Inl (Exn StateConcurrencyError (stale_message s (rs_epoch old)))) (s, V)"
  unfolding put_once_def sq_def
  using number_write_stale [OF old(2)] old(1)
  by (intro does_bnd [OF does_object] does_bnd [OF does_on_db [OF watch]]
      does_bnd [OF does_on_db [OF run_key_does [OF m r]]] does_bnd_Inl) simp

lemma mirrors_set_run:
  assumes m: "mirrors R V st" and r: "plain_id (rs_run_id s)"
  shows "mirrors R (V(run_key R (rs_run_id s) \<mapsto> RText (rr_dump R s)))
    (st\<lparr>st_state := dset (rs_run_id s) s (st_state st)\<rparr>)"
  by (rule mirrorsI) (use mirrorsD [OF m] r in \<open>auto simp: plain_id_def\<close>)

lemma mirrors_put:
  assumes m: "mirrors R V st" and inv: "store_inv st" and r: "plain_id (rs_run_id s)"
    and new: "get_checkpoint st (or_else (rs_checkpoint_id s) u) = None"
    and p: "put u s st = Inr (s', st')"
  obtains st1 where "mirrors R (committed V (or_else (rs_checkpoint_id s) u) s' st) st1"
    and "st' = record_thread_run (rs_thread_id s) (rs_run_id s) st1"
proof -
  let ?c = "or_else (rs_checkpoint_id s) u"
  let ?s1 = "s\<lparr>rs_epoch := next_epoch (get st (rs_run_id s))\<rparr>"
  let ?st1 = "(snd (write_checkpoint u ?s1 st))\<lparr>st_state := dset (rs_run_id s) s' (st_state st)\<rparr>"
  from p have s': "s' = ?s1\<lparr>rs_checkpoint_id := Some ?c\<rparr>"
    and st': "st' = record_thread_run (rs_thread_id s) (rs_run_id s) ?st1"
    by (auto elim!: put_InrE simp: written_def)
  have m1: "mirrors R (V(checkpoint_key R ?c \<mapsto> RText (rr_dump R s'),
       thread_checkpoint_index_key R (rs_thread_id s) \<mapsto>
         RList (dget_or (st_thread_checkpoints st) (rs_thread_id s) [] @ [?c])))
      (snd (write_checkpoint u ?s1 st))"
    using mirrors_checkpoint [OF m inv, of ?s1 u] new by (simp add: s')
  have "mirrors R (committed V ?c s' st) ?st1"
    using mirrors_set_run [OF m1, of s'] r
    by (simp add: committed_def s' fun_upd_twist [of "run_key R (rs_run_id s)"])
  with st' that show thesis by blast
qed

lemma put_tracks:
  assumes m: "mirrors R V st" and inv: "store_inv st" and r: "plain_id (rs_run_id s)"
    and new: "get_checkpoint st (or_else (rs_checkpoint_id s) u) = None"
  shows "(case put u s st of
      Inl e \<Rightarrow> does (pair_view view) (redis_put R u) (s, V) (Inl e) (s, V)
    | Inr (s', st') \<Rightarrow> \<exists>V'. does (pair_view view) (redis_put R u) (s, V) (Inr ()) (s', V') \<and> mirrors R V' st')"
proof (cases "put u s st")
  case (Inl e)
  let ?c = "or_else (rs_checkpoint_id s) u"
  have "does (pair_view view) (redis_put R u) (s, V) (Inl e) (s, V)"
  proof (cases "validate_state s")
    case (Inl e')
    with \<open>put u s st = Inl e\<close> show ?thesis
      unfolding redis_put_def sq_def
      by (intro does_bnd [OF does_object] does_bnd_Inl) (simp add: does_lift put_eq)
  next
    case (Inr x)
    with Inl obtain old where old: "get st (rs_run_id s) = Some old" "rs_epoch s < rs_epoch old"
      and e: "e = Exn StateConcurrencyError (stale_message s (rs_epoch old))"
      by (auto simp: put_eq split: option.splits if_splits)
    have "does (pair_view view) (put_attempts R ?c 3) (s, V) (Inl e) (s, V)"
      by (subst put_attempts.simps, rule does_tryc_Inl [OF put_once_stale [OF m r old]])
        (simp add: e is_watch_error_def does_raise)
    with Inr show ?thesis
      unfolding redis_put_def sq_def
      by (intro does_bnd [OF does_object] does_bnd [OF does_lift_Inr [OF Inr]] does_bnd_Inl)
  qed
  with Inl show ?thesis by simp
next
  case (Inr p)
  obtain s' st' where p: "p = (s', st')" by (cases p)
  let ?c = "or_else (rs_checkpoint_id s) u"
  have put: "put u s st = Inr (s', st')" using Inr p by simp
  obtain valid: "validate_state s = Inr ()" and s': "s' = s\<lparr>rs_epoch := next_epoch (get st (rs_run_id s)), rs_checkpoint_id := Some ?c\<rparr>"
    and ok: "\<And>old. get st (rs_run_id s) = Some old \<Longrightarrow> rs_epoch old \<le> rs_epoch s"
    using put by (elim put_InrE) (simp add: validate_state_iff written_def)
  obtain st1 where st1: "mirrors R (committed V ?c s' st) st1"
    "st' = record_thread_run (rs_thread_id s) (rs_run_id s) st1"
    by (rule mirrors_put [OF m inv r new put])
  have att: "does (pair_view view) (put_attempts R ?c 3) (s, V) (Inr ()) (s', committed V ?c s' st)"
    using put_once_does [OF m r ok, of ?c] s' by (subst put_attempts.simps) (simp add: does_tryc)
  obtain V' where rec: "does view (redis_record_thread_run R (rs_thread_id s) (rs_run_id s))
      (committed V ?c s' st) (Inr ()) V'" "mirrors R V' st'"
    using record_run_tracks [OF st1(1) r, of "rs_thread_id s"] st1(2) by (auto simp: tracks_def)
  have "does (pair_view view) (redis_put R u) (s, V) (Inr ()) (s', V')"
    unfolding redis_put_def sq_def
    by (rule does_bnd [OF does_object], rule does_bnd [OF does_lift_Inr [OF valid]],
        rule does_bnd [OF att], rule does_bnd [OF does_on_db [OF maybe_expire_does]], rule does_on_db, rule rec)
  with rec(2) put show ?thesis by auto
qed

end

end
