(* ===== verification/Json_Text.thy ===== *)
theory Json_Text
  imports Prelude
begin

section \<open>JSON text (Python's \<open>json\<close> module)\<close>

text \<open>
  \<open>json.dumps\<close> with its default separators and ASCII escapes, and \<open>json.loads\<close>, on the payload values
  of the model. \<open>json_loads\<close> is \<open>None\<close> where Python raises \<open>JSONDecodeError\<close>, and also for the texts
  whose value the model cannot hold (floating-point numbers, code points above 255).

  The recursion of the parser is on fuel. Every nested call is made after at least one character has
  been consumed, so the length of the text is enough; \<open>json_loads_dumps\<close> shows it for every printed value:
  loading what was dumped gives the value back.
\<close>

subsection \<open>Printing\<close>

definition escape_char :: "char \<Rightarrow> string" where
  "escape_char c =
     (let n = (of_char c :: nat); bs = CHR 0x5C in
      if c = CHR 0x22 \<or> c = bs then [bs, c]
      else if n = 10 then [bs, CHR ''n'']
      else if n = 13 then [bs, CHR ''r'']
      else if n = 9 then [bs, CHR ''t'']
      else if n = 12 then [bs, CHR ''f'']
      else if n = 8 then [bs, CHR ''b'']
      else if 32 \<le> n \<and> n \<le> 126 then [c]
      else [bs, CHR ''u'', CHR ''0'', CHR ''0'', hex_char (n div 16), hex_char (n mod 16)])"

definition dumps_str :: "string \<Rightarrow> string" where
  "dumps_str s = CHR 0x22 # concat (map escape_char s) @ [CHR 0x22]"

fun json_dumps :: "json \<Rightarrow> string" where
  "json_dumps JNull = ''null''"
| "json_dumps (JBool b) = (if b then ''true'' else ''false'')"
| "json_dumps (JInt i) = int_str i"
| "json_dumps (JStr s) = dumps_str s"
| "json_dumps (JList xs) = ''['' @ join '', '' (map json_dumps xs) @ '']''"
| "json_dumps (JObj kvs) =
     ''{'' @ join '', '' (map (\<lambda>(k, v). dumps_str k @ '': '' @ json_dumps v) kvs) @ ''}''"

subsection \<open>Parsing\<close>

definition json_space :: "char \<Rightarrow> bool" where
  "json_space c \<longleftrightarrow> c \<in> {CHR '' '', CHR 0x09, CHR 0x0A, CHR 0x0D}"

definition skip_ws :: "string \<Rightarrow> string" where
  "skip_ws s = dropWhile json_space s"

definition is_digit :: "char \<Rightarrow> bool" where
  "is_digit c \<longleftrightarrow> 48 \<le> (of_char c :: nat) \<and> (of_char c :: nat) \<le> 57"

definition digits_value :: "string \<Rightarrow> nat" where
  "digits_value s = foldl (\<lambda>n c. n * 10 + ((of_char c :: nat) - 48)) 0 s"

definition hex_value :: "char \<Rightarrow> nat option" where
  "hex_value c =
     (let n = (of_char c :: nat) in
      if 48 \<le> n \<and> n \<le> 57 then Some (n - 48)
      else if 97 \<le> n \<and> n \<le> 102 then Some (n - 87)
      else if 65 \<le> n \<and> n \<le> 70 then Some (n - 55)
      else None)"

definition escaped :: "char \<Rightarrow> char option" where
  "escaped c =
     (if c = CHR 0x22 \<or> c = CHR 0x5C \<or> c = CHR ''/'' then Some c
      else if c = CHR ''n'' then Some (CHR 0x0A)
      else if c = CHR ''r'' then Some (CHR 0x0D)
      else if c = CHR ''t'' then Some (CHR 0x09)
      else if c = CHR ''f'' then Some (CHR 0x0C)
      else if c = CHR ''b'' then Some (CHR 0x08)
      else None)"

definition unicode_char :: "char \<Rightarrow> char \<Rightarrow> char \<Rightarrow> char \<Rightarrow> char option" where
  "unicode_char a b c d =
     (case (hex_value a, hex_value b, hex_value c, hex_value d) of
        (Some 0, Some 0, Some x, Some y) \<Rightarrow> Some (char_of (16 * x + y))
      | _ \<Rightarrow> None)"

text \<open>The rest of a string literal, after its opening quote.\<close>

fun parse_str :: "string \<Rightarrow> (string \<times> string) option" where
  "parse_str [] = None"
| "parse_str (c # cs) =
     (if c = CHR 0x22 then Some ([], cs)
      else if c = CHR 0x5C then
        (case cs of
           [] \<Rightarrow> None
         | e # cs' \<Rightarrow>
             if e = CHR ''u'' then
               (case cs' of
                  a # b # x # y # cs'' \<Rightarrow>
                    (case unicode_char a b x y of
                       None \<Rightarrow> None
                     | Some d \<Rightarrow> map_option (\<lambda>(s, r). (d # s, r)) (parse_str cs''))
                | _ \<Rightarrow> None)
             else
               (case escaped e of
                  None \<Rightarrow> None
                | Some d \<Rightarrow> map_option (\<lambda>(s, r). (d # s, r)) (parse_str cs')))
      else if (of_char c :: nat) < 32 then None
      else map_option (\<lambda>(s, r). (c # s, r)) (parse_str cs))"

definition float_follows :: "string \<Rightarrow> bool" where
  "float_follows s \<longleftrightarrow>
     (case s of [] \<Rightarrow> False | c # _ \<Rightarrow> c = CHR ''.'' \<or> c = CHR ''e'' \<or> c = CHR ''E'')"

definition parse_nat :: "string \<Rightarrow> (nat \<times> string) option" where
  "parse_nat s =
     (let ds = takeWhile is_digit s; r = dropWhile is_digit s in
      if ds = [] \<or> (length ds > 1 \<and> hd ds = CHR ''0'') \<or> float_follows r then None
      else Some (digits_value ds, r))"

definition parse_num :: "string \<Rightarrow> (json \<times> string) option" where
  "parse_num s =
     (case s of
        [] \<Rightarrow> None
      | c # cs \<Rightarrow>
          if c = CHR ''-'' then map_option (\<lambda>(n, r). (JInt (- int n), r)) (parse_nat cs)
          else map_option (\<lambda>(n, r). (JInt (int n), r)) (parse_nat s))"

definition strip_prefix :: "string \<Rightarrow> string \<Rightarrow> string option" where
  "strip_prefix p s = (if prefix p s then Some (drop (length p) s) else None)"

fun parse_value :: "nat \<Rightarrow> string \<Rightarrow> (json \<times> string) option"
  and parse_items :: "nat \<Rightarrow> string \<Rightarrow> (json list \<times> string) option"
  and parse_members :: "nat \<Rightarrow> string \<Rightarrow> ((string \<times> json) list \<times> string) option" where
  "parse_value 0 s = None"
| "parse_value (Suc n) s =
     (case s of
        [] \<Rightarrow> None
      | c # cs \<Rightarrow>
          if c = CHR 0x22 then map_option (\<lambda>(x, r). (JStr x, r)) (parse_str cs)
          else if c = CHR ''['' then
            (case skip_ws cs of
               [] \<Rightarrow> None
             | d # ds \<Rightarrow>
                 if d = CHR '']'' then Some (JList [], ds)
                 else map_option (\<lambda>(xs, r). (JList xs, r)) (parse_items n (d # ds)))
          else if c = CHR 0x7B then
            (case skip_ws cs of
               [] \<Rightarrow> None
             | d # ds \<Rightarrow>
                 if d = CHR 0x7D then Some (JObj [], ds)
                 else map_option (\<lambda>(kvs, r). (JObj (dmerge [] kvs), r)) (parse_members n (d # ds)))
          else if prefix ''null'' s then Some (JNull, drop 4 s)
          else if prefix ''true'' s then Some (JBool True, drop 4 s)
          else if prefix ''false'' s then Some (JBool False, drop 5 s)
          else parse_num s)"
| "parse_items 0 s = None"
| "parse_items (Suc n) s =
     (case parse_value n s of
        None \<Rightarrow> None
      | Some (v, r) \<Rightarrow>
          (case skip_ws r of
             [] \<Rightarrow> None
           | d # ds \<Rightarrow>
               if d = CHR '']'' then Some ([v], ds)
               else if d = CHR '','' then map_option (\<lambda>(vs, r'). (v # vs, r')) (parse_items n (skip_ws ds))
               else None))"
| "parse_members 0 s = None"
| "parse_members (Suc n) s =
     (case s of
        [] \<Rightarrow> None
      | c # cs \<Rightarrow>
          if c \<noteq> CHR 0x22 then None
          else
            (case parse_str cs of
               None \<Rightarrow> None
             | Some (k, r) \<Rightarrow>
                 (case skip_ws r of
                    [] \<Rightarrow> None
                  | e # es \<Rightarrow>
                      if e \<noteq> CHR '':'' then None
                      else
                        (case parse_value n (skip_ws es) of
                           None \<Rightarrow> None
                         | Some (v, r') \<Rightarrow>
                             (case skip_ws r' of
                                [] \<Rightarrow> None
                              | d # ds \<Rightarrow>
                                  if d = CHR 0x7D then Some ([(k, v)], ds)
                                  else if d = CHR '','' then
                                    map_option (\<lambda>(kvs, q). ((k, v) # kvs, q)) (parse_members n (skip_ws ds))
                                  else None)))))"

definition json_loads :: "string \<Rightarrow> json option" where
  "json_loads s =
     (case parse_value (length s) (skip_ws s) of
        None \<Rightarrow> None
      | Some (v, r) \<Rightarrow> if skip_ws r = [] then Some v else None)"

subsection \<open>Loading what was dumped\<close>

lemma hex_value_hex_char: "d < 16 \<Longrightarrow> hex_value (hex_char d) = Some d"
  by (simp add: hex_value_def hex_char_def Let_def)

lemma char_by_code: "of_char c = (n :: nat) \<Longrightarrow> c = char_of n"
  by (metis char_of_char)

lemma parse_str_escape:
  "parse_str (escape_char c @ s) = map_option (\<lambda>(x, r). (c # x, r)) (parse_str s)"
proof -
  let ?n = "of_char c :: nat"
  have hex: "unicode_char (CHR ''0'') (CHR ''0'') (hex_char (?n div 16)) (hex_char (?n mod 16)) = Some c"
  proof -
    have "?n div 16 < 16" using nat_of_char_less_256 [of c] by linarith
    moreover have "hex_value (CHR ''0'') = Some 0" by code_simp
    moreover have "16 * (?n div 16) + ?n mod 16 = ?n" by simp
    ultimately show ?thesis by (simp add: unicode_char_def hex_value_hex_char)
  qed
  have controls: "char_of (8 :: nat) = CHR 0x08" "char_of (9 :: nat) = CHR 0x09"
    "char_of (10 :: nat) = CHR 0x0A" "char_of (12 :: nat) = CHR 0x0C" "char_of (13 :: nat) = CHR 0x0D"
    by code_simp+
  show ?thesis
    using hex controls
    by (auto simp: escape_char_def escaped_def Let_def dest: char_by_code)
qed

lemma parse_str_dumps: "parse_str (concat (map escape_char s) @ CHR 0x22 # r) = Some (s, r)"
  by (induction s) (simp_all add: parse_str_escape)

lemma digit_char_code: "d < 10 \<Longrightarrow> (of_char (digit_char d) :: nat) = 48 + d"
  by (simp add: digit_char_def)

lemma is_digit_digit_char [simp]: "d < 10 \<Longrightarrow> is_digit (digit_char d)"
  by (simp add: is_digit_def digit_char_code)

lemma nat_str_digits: "\<forall>c \<in> set (nat_str n). is_digit c"
proof (induction n rule: less_induct)
  case (less n)
  show ?case
  proof (cases "n < 10")
    case True
    then show ?thesis by (subst nat_str.simps) simp
  next
    case False
    with less [of "n div 10"] show ?thesis by (subst nat_str.simps) simp
  qed
qed

lemma digits_value_nat_str: "digits_value (nat_str n) = n"
proof (induction n rule: less_induct)
  case (less n)
  show ?case
  proof (cases "n < 10")
    case True
    then show ?thesis by (subst nat_str.simps) (simp add: digits_value_def digit_char_code)
  next
    case False
    with less [of "n div 10"] show ?thesis
      by (subst nat_str.simps) (simp add: digits_value_def digit_char_code)
  qed
qed

lemma nat_str_head: "0 < n \<Longrightarrow> hd (nat_str n) \<noteq> CHR ''0''"
proof (induction n rule: less_induct)
  case (less n)
  show ?case
  proof (cases "n < 10")
    case True
    have "digit_char n \<noteq> digit_char 0" using True less.prems digit_char_inj [of n 0] by auto
    moreover have "digit_char 0 = CHR ''0''" by code_simp
    ultimately show ?thesis using True by (subst nat_str.simps) simp
  next
    case False
    with less.IH [of "n div 10"] show ?thesis by (subst nat_str.simps) simp
  qed
qed

text \<open>What may follow a printed value: the next character is not part of a number.\<close>

definition number_ends :: "string \<Rightarrow> bool" where
  "number_ends r \<longleftrightarrow> (case r of [] \<Rightarrow> True | c # _ \<Rightarrow> \<not> is_digit c) \<and> \<not> float_follows r"

lemma parse_nat_str: "number_ends r \<Longrightarrow> parse_nat (nat_str n @ r) = Some (n, r)"
proof -
  assume r: "number_ends r"
  have t: "takeWhile is_digit (nat_str n @ r) = nat_str n" "dropWhile is_digit (nat_str n @ r) = r"
    using nat_str_digits r
    by (auto simp: takeWhile_append2 dropWhile_append2 number_ends_def split: list.splits)
  have "\<not> (length (nat_str n) > 1 \<and> hd (nat_str n) = CHR ''0'')"
  proof (cases "n = 0")
    case True
    then show ?thesis by (simp add: nat_str.simps)
  next
    case False
    then show ?thesis using nat_str_head by simp
  qed
  with t r show ?thesis by (simp add: parse_nat_def Let_def digits_value_nat_str number_ends_def)
qed

lemma parse_int_str: "number_ends r \<Longrightarrow> parse_num (int_str i @ r) = Some (JInt i, r)"
proof (cases "i < 0")
  case True
  assume "number_ends r"
  with True show ?thesis by (simp add: parse_num_def int_str_def parse_nat_str)
next
  case False
  assume r: "number_ends r"
  obtain c cs where c: "nat_str (nat i) = c # cs" by (cases "nat_str (nat i)") auto
  then have "is_digit c" using nat_str_digits [of "nat i"] by simp
  then have "c \<noteq> CHR ''-''" by (auto simp: is_digit_def)
  with c False r parse_nat_str [OF r, of "nat i"] show ?thesis
    by (simp add: parse_num_def int_str_def)
qed

text \<open>Payload values as Python has them: the keys of a dictionary are distinct.\<close>

fun json_ok :: "json \<Rightarrow> bool" where
  "json_ok (JList xs) \<longleftrightarrow> (\<forall>x \<in> set xs. json_ok x)"
| "json_ok (JObj kvs) \<longleftrightarrow> distinct (map fst kvs) \<and> (\<forall>p \<in> set kvs. json_ok (snd p))"
| "json_ok _ \<longleftrightarrow> True"

lemma dmerge_Nil:
  fixes e :: "(string \<times> 'b) list"
  shows "distinct (map fst e) \<Longrightarrow> dmerge [] e = e"
proof -
  have step: "distinct (map fst (d @ e)) \<Longrightarrow> fold (\<lambda>(k, v). dset k v) e d = d @ e"
    for d :: "(string \<times> 'b) list" and e
  proof (induction e arbitrary: d)
    case Nil
    then show ?case by simp
  next
    case (Cons p e)
    obtain k v where p: "p = (k, v)" by (cases p)
    have new: "k \<notin> fst ` set d' \<Longrightarrow> dset k v d' = d' @ [(k, v)]" for d' :: "(string \<times> 'b) list"
      by (induction d') auto
    have "dset k v d = d @ [(k, v)]" using Cons.prems p by (intro new) auto
    with Cons.IH [of "d @ [(k, v)]"] Cons.prems p show ?case by simp
  qed
  assume "distinct (map fst e)"
  with step [of "[]" e] show ?thesis by (simp add: dmerge_def)
qed

lemma int_str_head: "\<exists>c cs. int_str i = c # cs \<and> (is_digit c \<or> c = CHR ''-'')"
proof (cases "i < 0")
  case False
  then show ?thesis
    using nat_str_digits [of "nat i"] by (cases "nat_str (nat i)") (auto simp: int_str_def)
qed (simp add: int_str_def)

lemma dumps_head:
  obtains c cs where "json_dumps v = c # cs" "\<not> json_space c" "c \<noteq> CHR '']''" "c \<noteq> CHR 0x7D"
proof (cases v)
  case (JInt i)
  obtain c cs where c: "int_str i = c # cs" "is_digit c \<or> c = CHR ''-''" using int_str_head by blast
  then have "\<not> json_space c" "c \<noteq> CHR '']''" "c \<noteq> CHR 0x7D"
    by (auto simp: is_digit_def json_space_def)
  with JInt c(1) that show thesis by simp
next
  case (JBool b)
  with that show thesis by (cases b) (simp_all add: json_space_def)
qed (use that in \<open>simp_all add: json_space_def dumps_str_def\<close>)

lemma skip_ws_dumps [simp]: "skip_ws (json_dumps v @ r) = json_dumps v @ r"
  by (rule dumps_head [of v]) (simp add: skip_ws_def)

lemma skip_ws_Cons [simp]:
  "\<not> json_space c \<Longrightarrow> skip_ws (c # cs) = c # cs" "skip_ws (CHR '' '' # cs) = skip_ws cs" "skip_ws [] = []"
  by (simp_all add: skip_ws_def json_space_def)

lemma skip_ws_punct [simp]:
  "skip_ws (CHR '','' # cs) = CHR '','' # cs" "skip_ws (CHR '']'' # cs) = CHR '']'' # cs"
  "skip_ws (CHR 0x7D # cs) = CHR 0x7D # cs" "skip_ws (CHR '':'' # cs) = CHR '':'' # cs"
  "skip_ws (CHR 0x22 # cs) = CHR 0x22 # cs"
  by (simp_all add: json_space_def)

lemma number_ends_punct [simp]:
  "number_ends (CHR '','' # cs)" "number_ends (CHR '']'' # cs)" "number_ends (CHR 0x7D # cs)" "number_ends []"
  by (simp_all add: number_ends_def is_digit_def float_follows_def)

lemma join_Cons2: "xs \<noteq> [] \<Longrightarrow> join sep (x # xs) = x @ sep @ join sep xs"
  by (cases xs) simp_all

lemma parse_items_dumps:
  assumes IH: "\<And>x n r. \<lbrakk>x \<in> set xs; length (json_dumps x) \<le> n; number_ends r\<rbrakk> \<Longrightarrow>
      parse_value n (json_dumps x @ r) = Some (x, r)"
    and "xs \<noteq> []" and "length (join '', '' (map json_dumps xs)) < n"
  shows "parse_items n (join '', '' (map json_dumps xs) @ CHR '']'' # r) = Some (xs, r)"
  using assms
proof (induction xs arbitrary: n)
  case Nil
  then show ?case by simp
next
  case (Cons x xs)
  obtain m where n: "n = Suc m" using Cons.prems(3) by (cases n) auto
  show ?case
  proof (cases "xs = []")
    case True
    then show ?thesis using Cons.prems n by simp
  next
    case False
    then have l: "length (json_dumps x) \<le> m" "length (join '', '' (map json_dumps xs)) < m"
      using Cons.prems(3) n by (auto simp: join_Cons2)
    have x: "parse_value m (json_dumps x @ r') = Some (x, r')" if "number_ends r'" for r'
      using Cons.prems(1) l(1) that by simp
    have rest: "parse_items m (join '', '' (map json_dumps xs) @ CHR '']'' # r) = Some (xs, r)"
      using Cons.prems(1) False l(2) by (intro Cons.IH) auto
    obtain y ys where "xs = y # ys" using False by (cases xs) auto
    then have "skip_ws (join '', '' (map json_dumps xs) @ CHR '']'' # r) =
        join '', '' (map json_dumps xs) @ CHR '']'' # r"
      by (cases ys) simp_all
    with False x rest show ?thesis by (simp add: n join_Cons2)
  qed
qed

abbreviation dumps_pair :: "string \<times> json \<Rightarrow> string" where
  "dumps_pair \<equiv> \<lambda>(k, v). dumps_str k @ '': '' @ json_dumps v"

lemma parse_members_dumps:
  assumes IH: "\<And>p n r. \<lbrakk>p \<in> set kvs; length (json_dumps (snd p)) \<le> n; number_ends r\<rbrakk> \<Longrightarrow>
      parse_value n (json_dumps (snd p) @ r) = Some (snd p, r)"
    and "kvs \<noteq> []" and "length (join '', '' (map dumps_pair kvs)) < n"
  shows "parse_members n (join '', '' (map dumps_pair kvs) @ CHR 0x7D # r) = Some (kvs, r)"
  using assms
proof (induction kvs arbitrary: n)
  case Nil
  then show ?case by simp
next
  case (Cons p kvs)
  obtain k v where p: "p = (k, v)" by (cases p)
  obtain m where n: "n = Suc m" using Cons.prems(3) by (cases n) auto
  show ?case
  proof (cases "kvs = []")
    case True
    then show ?thesis using Cons.prems p n
      by (simp add: dumps_str_def parse_str_dumps)
  next
    case False
    then have l: "length (json_dumps v) \<le> m" "length (join '', '' (map dumps_pair kvs)) < m"
      using Cons.prems(3) n p by (auto simp: join_Cons2)
    have x: "parse_value m (json_dumps v @ r') = Some (v, r')" if "number_ends r'" for r'
      using Cons.prems(1) [of p m r'] l(1) that p by simp
    have rest: "parse_members m (join '', '' (map dumps_pair kvs) @ CHR 0x7D # r) = Some (kvs, r)"
      using Cons.prems(1) False l(2) by (intro Cons.IH) auto
    obtain q qs where "kvs = q # qs" using False by (cases kvs) auto
    then have "skip_ws (join '', '' (map dumps_pair kvs) @ CHR 0x7D # r) =
        join '', '' (map dumps_pair kvs) @ CHR 0x7D # r"
      by (cases qs; cases q) (simp_all add: dumps_str_def)
    with False x rest show ?thesis by (simp add: n p join_Cons2 dumps_str_def parse_str_dumps)
  qed
qed

lemma parse_value_dumps:
  "\<lbrakk>json_ok v; length (json_dumps v) \<le> n; number_ends r\<rbrakk> \<Longrightarrow>
   parse_value n (json_dumps v @ r) = Some (v, r)"
proof (induction v arbitrary: n r rule: json_dumps.induct)
  case 1
  then obtain m where "n = Suc m" by (cases n) auto
  then show ?case by simp
next
  case (2 b)
  then obtain m where "n = Suc m" by (cases n) (auto split: if_splits)
  then show ?case by simp
next
  case (3 i)
  obtain c cs where c: "int_str i = c # cs" "is_digit c \<or> c = CHR ''-''" using int_str_head by blast
  then obtain m where "n = Suc m" using 3 by (cases n) auto
  moreover have "c \<notin> {CHR 0x22, CHR ''['', CHR 0x7B, CHR ''n'', CHR ''t'', CHR ''f''}"
    using c(2) by (auto simp: is_digit_def)
  ultimately show ?case using c(1) parse_int_str [OF 3(3), of i] by auto
next
  case (4 s)
  then obtain m where "n = Suc m" by (cases n) (auto simp: dumps_str_def)
  then show ?case by (simp add: dumps_str_def parse_str_dumps)
next
  case (5 xs)
  then obtain m where n: "n = Suc m" by (cases n) auto
  show ?case
  proof (cases "xs = []")
    case False
    have items: "parse_items m (join '', '' (map json_dumps xs) @ CHR '']'' # r) = Some (xs, r)"
      using 5 n False by (intro parse_items_dumps) auto
    obtain y ys where y: "xs = y # ys" using False by (cases xs) auto
    obtain c cs where c: "json_dumps y = c # cs" "\<not> json_space c" "c \<noteq> CHR '']''" by (rule dumps_head [of y])
    then obtain ds where "join '', '' (map json_dumps xs) @ CHR '']'' # r = c # ds"
      by (cases ys) (simp_all add: y)
    with items c n show ?thesis by simp
  qed (simp add: n)
next
  case (6 kvs)
  then obtain m where n: "n = Suc m" by (cases n) auto
  show ?case
  proof (cases "kvs = []")
    case False
    have "parse_value n' (json_dumps (snd p) @ r') = Some (snd p, r')"
      if "p \<in> set kvs" "length (json_dumps (snd p)) \<le> n'" "number_ends r'" for p n' r'
      using 6(1) [of p "fst p" "snd p" n' r'] 6(2) that by auto
    then have members: "parse_members m (join '', '' (map dumps_pair kvs) @ CHR 0x7D # r) = Some (kvs, r)"
      using 6 n False by (intro parse_members_dumps) auto
    obtain q qs where q: "kvs = q # qs" using False by (cases kvs) auto
    then obtain ds where "join '', '' (map dumps_pair kvs) @ CHR 0x7D # r = CHR 0x22 # ds"
      by (cases qs; cases q) (simp_all add: dumps_str_def)
    moreover have "dmerge [] kvs = kvs" using 6(2) by (simp add: dmerge_Nil)
    ultimately show ?thesis using members n by simp
  qed (simp add: n dmerge_def)
qed

lemma json_loads_dumps: "json_ok v \<Longrightarrow> json_loads (json_dumps v) = Some v"
  using parse_value_dumps [of v "length (json_dumps v)" "[]"] skip_ws_dumps [of v "[]"]
  by (simp add: json_loads_def)

subsection \<open>Members\<close>

text \<open>The member of an object, which is also the attribute of a model's instance given by its dump.\<close>

definition attribute :: "json \<Rightarrow> string \<Rightarrow> json" where
  "attribute data f = (case data of JObj d \<Rightarrow> dget_or d f JNull | _ \<Rightarrow> JNull)"

end
