(* ===== verification/Run_State_Text.thy ===== *)
theory Run_State_Text
  imports Models Json_Text
begin

section \<open>A concrete text for run states\<close>

text \<open>
  The Redis stores take Pydantic's dump and parse of a run state as parameters and rely on parsing what
  was dumped. This theory has one pair of functions that does so, for the witnesses: a run state as a JSON
  array of its fields, dictionaries as arrays of pairs (so that nothing has to be said about their keys),
  printed and parsed as text.
\<close>

subsection \<open>Payload values\<close>

fun enc :: "json \<Rightarrow> json" where
  "enc (JList xs) = JList [JBool True, JList (map enc xs)]"
| "enc (JObj kvs) = JList [JBool False, JList (map (\<lambda>(k, v). JList [JStr k, enc v]) kvs)]"
| "enc v = v"

fun pair_key :: "json \<Rightarrow> string" where
  "pair_key (JList [JStr k, v]) = k"
| "pair_key _ = []"

fun pair_value :: "json \<Rightarrow> json" where
  "pair_value (JList [k, v]) = v"
| "pair_value _ = JNull"

lemma size_list_member: "x \<in> set xs \<Longrightarrow> size (x :: json) < Suc (size_list size xs)"
  by (induction xs) auto

lemma size_pair_value: "size (pair_value p) \<le> size p"
  by (induction p rule: pair_value.induct) simp_all

function dec :: "json \<Rightarrow> json" where
  "dec (JList xs) =
     (case xs of
        [JBool b, JList body] \<Rightarrow>
          (if b then JList (map dec body) else JObj (map (\<lambda>p. (pair_key p, dec (pair_value p))) body))
      | _ \<Rightarrow> JNull)"
| "dec JNull = JNull"
| "dec (JBool b) = JBool b"
| "dec (JInt i) = JInt i"
| "dec (JStr s) = JStr s"
| "dec (JObj kvs) = JObj kvs"
  by pat_completeness auto

termination
proof (relation "measure size", simp_all)
  fix body :: "json list" and x
  assume x: "x \<in> set body"
  then show "size x < Suc (Suc (Suc (Suc (size_list size body))))"
    using size_list_member [OF x] by simp
  show "size (pair_value x) < Suc (Suc (Suc (Suc (size_list size body))))"
    using size_list_member [OF x] size_pair_value [of x] by simp
qed

lemma dec_enc [simp]: "dec (enc v) = v"
proof (induction v)
  case (JObj kvs)
  have "dec (enc (snd p)) = snd p" if "p \<in> set kvs" for p
    using JObj.IH [of p "snd p"] that by (simp add: prod_set_defs)
  then show ?case by (simp add: split_beta map_idI)
qed (simp_all add: map_idI)

lemma json_ok_enc [simp]: "json_ok (enc v)"
  by (induction v) (auto simp: prod_set_defs)

subsection \<open>Run states\<close>

fun text_of :: "json \<Rightarrow> string" where
  "text_of (JStr s) = s"
| "text_of _ = []"

fun opt_text_of :: "json \<Rightarrow> string option" where
  "opt_text_of (JStr s) = Some s"
| "opt_text_of _ = None"

fun int_of_json :: "json \<Rightarrow> int" where
  "int_of_json (JInt i) = i"
| "int_of_json _ = 0"

fun items_of :: "json \<Rightarrow> json list" where
  "items_of (JList xs) = xs"
| "items_of _ = []"

fun dict_of :: "json \<Rightarrow> json dict" where
  "dict_of (JObj kvs) = kvs"
| "dict_of _ = []"

definition status_of :: "string \<Rightarrow> run_status" where
  "status_of s =
     (if s = ''PENDING'' then PENDING else if s = ''RUNNING'' then RUNNING
      else if s = ''WAITING_APPROVAL'' then WAITING_APPROVAL
      else if s = ''WAITING_INTERRUPT'' then WAITING_INTERRUPT
      else if s = ''COMPLETED'' then COMPLETED else FAILED)"

definition enc_request :: "approval_request \<Rightarrow> json" where
  "enc_request q = JList
     [JStr (ar_request_id q), JStr (ar_run_id q), JStr (ar_workflow_name q), JStr (ar_step_name q),
      JStr (ar_executor_name q), opt_json (ar_reason q), JInt (ar_created_at q),
      JList (map (\<lambda>(k, v). JList [JStr k, JStr v]) (ar_metadata q))]"

definition dec_request :: "json \<Rightarrow> approval_request" where
  "dec_request j =
     (let xs = items_of j in
      \<lparr>ar_request_id = text_of (xs ! 0), ar_run_id = text_of (xs ! 1), ar_workflow_name = text_of (xs ! 2),
       ar_step_name = text_of (xs ! 3), ar_executor_name = text_of (xs ! 4), ar_reason = opt_text_of (xs ! 5),
       ar_created_at = int_of_json (xs ! 6),
       ar_metadata = map (\<lambda>p. (pair_key p, text_of (pair_value p))) (items_of (xs ! 7))\<rparr>)"

definition enc_state :: "run_state \<Rightarrow> json" where
  "enc_state s = JList
     [JStr (rs_run_id s), JStr (rs_thread_id s), opt_json (rs_checkpoint_id s),
      opt_json (rs_parent_checkpoint_id s), JInt (rs_epoch s), JStr (rs_workflow_name s),
      JStr (status_value (rs_status s)), opt_json (rs_current_step s),
      JList (map JStr (rs_completed_steps s)), enc (JObj (rs_artifacts s)), enc (JObj (rs_channels s)),
      (case rs_pending_approval s of None \<Rightarrow> JNull | Some q \<Rightarrow> enc_request q),
      opt_json (rs_pending_interrupt_id s), JInt (rs_started_at s), JInt (rs_updated_at s),
      opt_json (rs_error s), enc (JObj (rs_metadata s))]"

definition dec_state :: "json \<Rightarrow> run_state" where
  "dec_state j =
     (let xs = items_of j in
      \<lparr>rs_run_id = text_of (xs ! 0), rs_thread_id = text_of (xs ! 1), rs_checkpoint_id = opt_text_of (xs ! 2),
       rs_parent_checkpoint_id = opt_text_of (xs ! 3), rs_epoch = int_of_json (xs ! 4),
       rs_workflow_name = text_of (xs ! 5), rs_status = status_of (text_of (xs ! 6)),
       rs_current_step = opt_text_of (xs ! 7), rs_completed_steps = map text_of (items_of (xs ! 8)),
       rs_artifacts = dict_of (dec (xs ! 9)), rs_channels = dict_of (dec (xs ! 10)),
       rs_pending_approval = (if xs ! 11 = JNull then None else Some (dec_request (xs ! 11))),
       rs_pending_interrupt_id = opt_text_of (xs ! 12), rs_started_at = int_of_json (xs ! 13),
       rs_updated_at = int_of_json (xs ! 14), rs_error = opt_text_of (xs ! 15),
       rs_metadata = dict_of (dec (xs ! 16))\<rparr>)"

lemma opt_text_of_opt_json [simp]: "opt_text_of (opt_json x) = x"
  by (cases x) (simp_all add: opt_json_def)

lemma status_of_value [simp]: "status_of (status_value s) = s"
  by (cases s) (simp_all add: status_of_def)

lemma dec_request_enc [simp]: "dec_request (enc_request q) = q"
  by (simp add: dec_request_def enc_request_def Let_def split_beta comp_def)

lemma enc_request_JNull [simp]: "enc_request q \<noteq> JNull"
  by (simp add: enc_request_def)

lemma dec_state_enc [simp]: "dec_state (enc_state s) = s"
  by (cases "rs_pending_approval s")
    (simp_all add: dec_state_def enc_state_def Let_def comp_def del: enc.simps)

lemma json_ok_opt [simp]: "json_ok (opt_json x)"
  by (cases x) (simp_all add: opt_json_def)

lemma json_ok_request [simp]: "json_ok (enc_request q)"
  by (auto simp: enc_request_def)

lemma json_ok_state [simp]: "json_ok (enc_state s)"
  by (cases "rs_pending_approval s") (auto simp: enc_state_def simp del: enc.simps)

definition state_text :: "run_state \<Rightarrow> string" where
  "state_text s = json_dumps (enc_state s)"

definition parse_state_text :: "string \<Rightarrow> exn + run_state" where
  "parse_state_text t =
     (case json_loads t of
        None \<Rightarrow> Inl (Exn ValidationError ''Invalid JSON'') | Some j \<Rightarrow> Inr (dec_state j))"

lemma parse_state_text: "parse_state_text (state_text s) = Inr s"
  by (simp add: parse_state_text_def state_text_def json_loads_dumps)

lemma state_text_nonempty: "state_text s \<noteq> []"
  by (simp add: state_text_def enc_state_def)

end
