(* ===== verification/Redis_Runs.thy ===== *)
theory Redis_Runs
  imports Redis_Run_Store Run_State_Text
begin

section \<open>The Redis run store refines the in-memory one\<close>

text \<open>
  The operations of the abstract class \<open>RunStore\<close> as data, what each does in memory and on Redis, and the
  simulation: a sequence of operations has the same answers on both. Then the case the simulation leaves
  out: another client's write between \<open>WATCH\<close> and \<open>EXEC\<close>. The retry of \<open>put\<close> has already raised the epoch
  of the caller's state, so a writer that should be refused as stale overwrites the other's write.
\<close>

subsection \<open>Operations and answers\<close>

datatype store_call =
    CPut string run_state
  | CGet string
  | CDelete string
  | CWriteCheckpoint string run_state
  | CGetCheckpoint string
  | CLatestCheckpoint string
  | CListCheckpoints string
  | CActive string
  | CLatestRun string
  | CListRuns string
  | CSetActive string string
  | CClearActive string string

datatype store_answer =
  ADone | AWritten run_state | AState "run_state option" | AStates "run_state list" | AId "string option"
  | AIds "string list"

fun mem_call :: "store_call \<Rightarrow> (mem_run_store, store_answer) py" where
  "mem_call (CPut u s) st =
     (case put u s st of Inl e \<Rightarrow> (Inl e, st) | Inr (s', st') \<Rightarrow> (Inr (AWritten s'), st'))"
| "mem_call (CGet r) st = (Inr (AState (get st r)), st)"
| "mem_call (CDelete r) st = (Inr ADone, delete_run r st)"
| "mem_call (CWriteCheckpoint u s) st = (case write_checkpoint u s st of (c, st') \<Rightarrow> (Inr (AId (Some c)), st'))"
| "mem_call (CGetCheckpoint c) st = (Inr (AState (get_checkpoint st c)), st)"
| "mem_call (CLatestCheckpoint t) st = (Inr (AState (get_latest_checkpoint st t)), st)"
| "mem_call (CListCheckpoints t) st = (Inr (AStates (list_checkpoints st t)), st)"
| "mem_call (CActive t) st = (case get_active_run_id t st of (x, st') \<Rightarrow> (Inr (AId x), st'))"
| "mem_call (CLatestRun t) st = (case get_latest_run_id t st of (x, st') \<Rightarrow> (Inr (AId x), st'))"
| "mem_call (CListRuns t) st = (case list_run_ids t st of (xs, st') \<Rightarrow> (Inr (AIds xs), st'))"
| "mem_call (CSetActive t r) st = (Inr ADone, set_active_run_id t r st)"
| "mem_call (CClearActive t r) st = (Inr ADone, clear_active_run_id t r st)"

text \<open>On Redis; a \<open>put\<close> is given a fresh object and answers with what it has become.\<close>

definition put_object :: "'d redis_run_store \<Rightarrow> string \<Rightarrow> run_state \<Rightarrow> ('d, run_state) py" where
  "put_object R u s =
     (\<lambda>d. case redis_put R u (s, d) of
            (Inl e, p) \<Rightarrow> (Inl e, snd p) | (Inr _, p) \<Rightarrow> (Inr (fst p), snd p))"

definition answer :: "('a \<Rightarrow> store_answer) \<Rightarrow> ('d, 'a) py \<Rightarrow> ('d, store_answer) py" where
  "answer f m = bnd m (\<lambda>x. ret (f x))"

fun redis_call :: "'d redis_run_store \<Rightarrow> store_call \<Rightarrow> ('d, store_answer) py" where
  "redis_call R (CPut u s) = answer AWritten (put_object R u s)"
| "redis_call R (CGet r) = answer AState (redis_get R r)"
| "redis_call R (CDelete r) = answer (\<lambda>_. ADone) (redis_delete_run R r)"
| "redis_call R (CWriteCheckpoint u s) = answer (AId \<circ> Some) (redis_write_checkpoint R u s)"
| "redis_call R (CGetCheckpoint c) = answer AState (redis_get_checkpoint R c)"
| "redis_call R (CLatestCheckpoint t) = answer AState (redis_get_latest_checkpoint R t)"
| "redis_call R (CListCheckpoints t) = answer AStates (redis_list_checkpoints R t)"
| "redis_call R (CActive t) = answer AId (redis_get_active_run_id R t)"
| "redis_call R (CLatestRun t) = answer AId (redis_get_latest_run_id R t)"
| "redis_call R (CListRuns t) = answer AIds (redis_list_run_ids R t)"
| "redis_call R (CSetActive t r) = answer (\<lambda>_. ADone) (redis_set_active_run_id R t r)"
| "redis_call R (CClearActive t r) = answer (\<lambda>_. ADone) (redis_clear_active_run_id R t r)"

text \<open>The calls of a client that draws run ids without a colon and checkpoint ids that are not in use.\<close>

fun call_ok :: "store_call \<Rightarrow> mem_run_store \<Rightarrow> bool" where
  "call_ok (CPut u s) st \<longleftrightarrow> plain_id (rs_run_id s) \<and> get_checkpoint st (or_else (rs_checkpoint_id s) u) = None"
| "call_ok (CGet r) st \<longleftrightarrow> plain_id r"
| "call_ok (CDelete r) st \<longleftrightarrow> plain_id r"
| "call_ok (CWriteCheckpoint u s) st \<longleftrightarrow> get_checkpoint st (or_else (rs_checkpoint_id s) u) = None"
| "call_ok (CSetActive t r) st \<longleftrightarrow> plain_id r"
| "call_ok _ st \<longleftrightarrow> True"

fun calls_ok :: "store_call list \<Rightarrow> mem_run_store \<Rightarrow> bool" where
  "calls_ok [] st \<longleftrightarrow> True"
| "calls_ok (q # qs) st \<longleftrightarrow> call_ok q st \<and> calls_ok qs (snd (mem_call q st))"

lemma mem_call_inv: "store_inv st \<Longrightarrow> store_inv (snd (mem_call q st))"
proof (induction q)
  case (CPut u s)
  then show ?case by (auto simp: put_inv split: sum.splits)
next
  case (CWriteCheckpoint u s)
  then show ?case using write_checkpoint_inv [of st u s] by (simp add: split_beta)
next
  case (CActive t)
  then show ?case using get_active_run_id_inv [of st t] by (simp add: split_beta)
next
  case (CLatestRun t)
  then show ?case using list_run_ids_inv [of st t] by (simp add: split_beta get_latest_run_id_def)
next
  case (CListRuns t)
  then show ?case using list_run_ids_inv [of st t] by (simp add: split_beta)
qed (simp_all add: delete_run_inv set_active_run_id_inv clear_active_run_id_inv)

lemma answer_tracks: "tracks R view m V (Inr x) st \<Longrightarrow> tracks R view (answer f m) V (Inr (f x)) st"
  unfolding answer_def by (rule tracks_then) (auto intro: tracks_ret)

lemma answer_does: "does view m V (Inr x) V \<Longrightarrow> mirrors R V st \<Longrightarrow> tracks R view (answer f m) V (Inr (f x)) st"
  by (intro answer_tracks tracksI)

lemma put_object_Inr:
  "does (pair_view view) (redis_put R u) (s, V) (Inr ()) (s', V') \<Longrightarrow> does view (put_object R u s) V (Inr s') V'"
  by (fastforce simp: does_def put_object_def)

lemma put_object_Inl:
  "does (pair_view view) (redis_put R u) (s, V) (Inl e) (s', V') \<Longrightarrow> does view (put_object R u s) V (Inl e) V'"
  by (fastforce simp: does_def put_object_def)

context redis_runs
begin

lemma call_tracks:
  assumes m: "mirrors R V st" and inv: "store_inv st" and ok: "call_ok q st"
  shows "tracks R view (redis_call R q) V (fst (mem_call q st)) (snd (mem_call q st))"
proof (cases q)
  case (CPut u s)
  with ok have r: "plain_id (rs_run_id s)" "get_checkpoint st (or_else (rs_checkpoint_id s) u) = None" by simp_all
  show ?thesis
  proof (cases "put u s st")
    case (Inl e)
    with put_tracks [OF m inv r] have "does view (put_object R u s) V (Inl e) V"
      by (auto intro: put_object_Inl)
    with Inl CPut m show ?thesis by (auto simp: answer_def intro: tracksI does_bnd_Inl)
  next
    case (Inr p)
    with put_tracks [OF m inv r] show ?thesis
      by (cases p) (auto simp: CPut intro!: answer_tracks intro: tracksI put_object_Inr)
  qed
qed (use ok m inv in \<open>auto simp: split_beta
    intro!: answer_tracks [where f = "\<lambda>_. ADone"] answer_tracks [where f = "AId \<circ> Some", simplified]
      answer_tracks [where f = AId] answer_tracks [where f = AIds] answer_does
    intro: redis_get_does redis_get_checkpoint_does redis_latest_checkpoint_does redis_list_checkpoints_does
      delete_tracks write_checkpoint_tracks active_tracks latest_run_tracks list_run_ids_tracks
      set_active_tracks clear_active_tracks\<close>)

lemma calls_agree:
  "\<lbrakk>mirrors R (view d) st; store_inv st; calls_ok qs st\<rbrakk> \<Longrightarrow>
   \<exists>d'. call_all (redis_call R) qs d = (fst (call_all mem_call qs st), d') \<and>
     mirrors R (view d') (snd (call_all mem_call qs st))"
proof (induction qs arbitrary: d st)
  case Nil
  then show ?case by simp
next
  case (Cons q qs)
  obtain V' where "does view (redis_call R q) (view d) (fst (mem_call q st)) V'"
    "mirrors R V' (snd (mem_call q st))"
    using call_tracks [OF Cons.prems(1,2), of q] Cons.prems(3) by (auto simp: tracks_def)
  then obtain d1 where d1: "redis_call R q d = (fst (mem_call q st), d1)"
    "mirrors R (view d1) (snd (mem_call q st))"
    by (metis does_def)
  with Cons.IH [OF d1(2) mem_call_inv [OF Cons.prems(2)]] Cons.prems(3) show ?case
    by (auto simp: split_beta)
qed

end

subsection \<open>A concrete store\<close>

definition table_runs :: "string \<Rightarrow> table redis_run_store" where
  "table_runs p =
     \<lparr>rr_client = table_client, rr_prefix = p, rr_ttl = None, rr_dump = state_text, rr_load = parse_state_text\<rparr>"

lemma table_runs_simps [simp]:
  "rr_client (table_runs p) = table_client" "rr_prefix (table_runs p) = p" "rr_ttl (table_runs p) = None"
  "rr_dump (table_runs p) = state_text" "rr_load (table_runs p) = parse_state_text"
  by (simp_all add: table_runs_def)

interpretation table_runs: redis_runs "table_runs p" map_of for p
proof (intro redis_runs.intro redis_runs_axioms.intro)
  show "redis_server (rr_client (table_runs p)) map_of" by (simp add: table.redis_server_axioms)
qed (simp_all add: parse_state_text state_text_nonempty)

subsection \<open>The simulation\<close>


definition sample_run :: "string \<Rightarrow> run_state" where
  "sample_run r = new_run_state r (Some ''user:1'') ''wf'' (Some ''a'') [] 0"

definition sample_calls :: "store_call list" where
  "sample_calls =
     [CPut ''c1'' (sample_run ''r1''), CPut ''c2'' (sample_run ''r1''), CSetActive ''user:1'' ''r1'',
      CPut ''c3'' ((sample_run ''r1'')\<lparr>rs_epoch := 1, rs_status := RUNNING\<rparr>), CActive ''user:1'',
      CPut ''c4'' (sample_run ''r2''), CListRuns ''user:1'', CDelete ''r1'', CActive ''user:1'',
      CListRuns ''user:1'', CLatestCheckpoint ''user:1'', CListCheckpoints ''user:1'']"


subsection \<open>Another client in between\<close>

text \<open>A contended client: the head of the list is what another client does to the database before the
  next \<open>EXEC\<close>, which fails with \<open>WatchError\<close> because the watched key was touched.\<close>

type_synonym 'd contention = "'d \<times> ('d \<Rightarrow> 'd) list"

definition beside :: "('d, 'a) py \<Rightarrow> ('d contention, 'a) py" where
  "beside = zoom fst (\<lambda>d p. (d, snd p))"

definition contended_exec :: "'d redis_client \<Rightarrow> redis_command list \<Rightarrow> ('d contention, unit) py" where
  "contended_exec c qs p =
     (case snd p of
        [] \<Rightarrow> beside (rc_exec c qs) p
      | f # fs \<Rightarrow> (Inl (watch_error ''Watched variable changed.''), (f (fst p), fs)))"

definition contended :: "'d redis_run_store \<Rightarrow> 'd contention redis_run_store" where
  "contended R =
     (let c = rr_client R in
      \<lparr>rr_client =
         \<lparr>rc_get = (\<lambda>k. beside (rc_get c k)), rc_set = (\<lambda>k v ex. beside (rc_set c k v ex)),
          rc_delete = (\<lambda>k. beside (rc_delete c k)), rc_rpush = (\<lambda>k x. beside (rc_rpush c k x)),
          rc_lrange = (\<lambda>k. beside (rc_lrange c k)), rc_last = (\<lambda>k. beside (rc_last c k)),
          rc_expire = (\<lambda>k n. beside (rc_expire c k n)), rc_watch = (\<lambda>k. beside (rc_watch c k)),
          rc_exec = contended_exec c, rc_scan = (\<lambda>p. beside (rc_scan c p))\<rparr>,
       rr_prefix = rr_prefix R, rr_ttl = rr_ttl R, rr_dump = rr_dump R, rr_load = rr_load R\<rparr>)"

lemma beside_run: "beside m (d, fs) = (case m d of (r, d') \<Rightarrow> (r, (d', fs)))"
  by (simp add: beside_def py_simps)

lemma contended_simps [simp]:
  "rc_get (rr_client (contended R)) k = beside (rc_get (rr_client R) k)"
  "rc_rpush (rr_client (contended R)) k x = beside (rc_rpush (rr_client R) k x)"
  "rc_lrange (rr_client (contended R)) k = beside (rc_lrange (rr_client R) k)"
  "rc_expire (rr_client (contended R)) k n = beside (rc_expire (rr_client R) k n)"
  "rc_watch (rr_client (contended R)) k = beside (rc_watch (rr_client R) k)"
  "rc_exec (rr_client (contended R)) = contended_exec (rr_client R)"
  "rr_ttl (contended R) = rr_ttl R" "rr_dump (contended R) = rr_dump R" "rr_load (contended R) = rr_load R"
  "run_key (contended R) = run_key R" "checkpoint_key (contended R) = checkpoint_key R"
  "thread_checkpoint_index_key (contended R) = thread_checkpoint_index_key R"
  "thread_run_index_key (contended R) = thread_run_index_key R"
  by (simp_all add: contended_def Let_def fun_eq_iff run_key_def checkpoint_key_def
      thread_checkpoint_index_key_def thread_run_index_key_def)

lemma write_commands_contended [simp]: "write_commands (contended R) = write_commands R"
  by (simp add: write_commands_def fun_eq_iff)

lemma number_write_frame:
  "number_write (contended R) s raw (s', (d, fs)) =
     (case number_write R s raw (s', d) of (r, (s1, d1)) \<Rightarrow> (r, (s1, (d1, fs))))"
  by (auto simp: number_write_def on_state_def py_simps split: option.splits sum.splits)

text \<open>Without contention a contended client is the client.\<close>

lemma put_once_alone:
  "put_once (contended R) c (s, (d, [])) =
     (case put_once R c (s, d) of (r, (s1, d1)) \<Rightarrow> (r, (s1, (d1, []))))"
  by (simp add: put_once_def py_simps on_db_def on_state_def beside_run number_write_frame contended_exec_def
      split: prod.splits sum.splits)

context redis_runs
begin

lemma put_once_contended:
  assumes m: "mirrors R (view d) st" and r: "plain_id (rs_run_id s)"
    and ok: "\<And>old. get st (rs_run_id s) = Some old \<Longrightarrow> rs_epoch old \<le> rs_epoch s"
  obtains d1 where "put_once (contended R) c (s, (d, f # fs)) =
      (Inl (watch_error ''Watched variable changed.''),
       (s\<lparr>rs_epoch := next_epoch (get st (rs_run_id s)), rs_checkpoint_id := Some c\<rparr>, (f d1, fs)))"
    and "view d1 = view d"
proof -
  obtain dw where w: "rc_watch (rr_client R) (run_key R (rs_run_id s)) d = (Inr (), dw)" "view dw = view d"
    using watch by (rule doesE) (rule refl)
  obtain dg where g: "rc_get (rr_client R) (run_key R (rs_run_id s)) dw =
      (Inr (map_option (rr_dump R) (get st (rs_run_id s))), dg)" "view dg = view d"
    using run_key_does [OF m r] w(2) by (rule doesE)
  obtain p where p: "number_write R s (map_option (rr_dump R) (get st (rs_run_id s))) (s, dg) = (Inr (), p)"
    "pair_view view p = (s\<lparr>rs_epoch := next_epoch (get st (rs_run_id s))\<rparr>, view d)"
    by (rule doesE [OF number_write_does [OF ok]]) (use g(2) in auto)
  obtain dn where dn: "p = (s\<lparr>rs_epoch := next_epoch (get st (rs_run_id s))\<rparr>, dn)" "view dn = view d"
    using p(2) by (cases p) simp
  show thesis
    by (rule that [of dn])
      (use w(1) g(1) p(1) dn in \<open>simp_all add: put_once_def py_simps on_db_def on_state_def beside_run
        number_write_frame contended_exec_def\<close>)
qed

end

lemma record_beside:
  "rr_ttl R = None \<Longrightarrow> redis_record_thread_run (contended R) t r (d, fs) =
     (case redis_record_thread_run R t r d of (x, d') \<Rightarrow> (x, (d', fs)))"
  by (auto simp: redis_record_thread_run_def Let_def py_simps beside_run maybe_expire_def
      split: prod.splits sum.splits)

context redis_runs
begin

lemma put_retried:
  assumes m: "mirrors R (view d) st" and r: "plain_id (rs_run_id s)"
    and old: "get st (rs_run_id s) = Some old" "rs_epoch s = rs_epoch old"
    and f: "\<And>d1. view d1 = view d \<Longrightarrow> mirrors R (view (f d1)) st1"
    and other: "get st1 (rs_run_id s) = Some other" "rs_epoch other = rs_epoch old + 1"
  obtains d' where "put_attempts (contended R) c 3 (s, (d, [f])) =
      (Inr (), (s\<lparr>rs_epoch := rs_epoch old + 2, rs_checkpoint_id := Some c\<rparr>, (d', [])))"
    and "view d' (run_key R (rs_run_id s)) =
      Some (RText (rr_dump R (s\<lparr>rs_epoch := rs_epoch old + 2, rs_checkpoint_id := Some c\<rparr>)))"
    and "as_list (view d' (thread_run_index_key R (rs_thread_id s))) =
      Inr (dget_or (st_thread_runs st1) (rs_thread_id s) [])"
proof -
  let ?s1 = "s\<lparr>rs_epoch := rs_epoch old + 1, rs_checkpoint_id := Some c\<rparr>"
  let ?s2 = "s\<lparr>rs_epoch := rs_epoch old + 2, rs_checkpoint_id := Some c\<rparr>"
  obtain d1 where first: "put_once (contended R) c (s, (d, [f])) =
      (Inl (watch_error ''Watched variable changed.''), (?s1, (f d1, [])))" and v: "view d1 = view d"
    by (rule put_once_contended [OF m r, where c = c and f = f and fs = "[]"]) (use old in auto)
  have m1: "mirrors R (view (f d1)) st1" using v by (rule f)
  have "does (pair_view view) (put_once R c) (?s1, view (f d1)) (Inr ()) (?s2, committed (view (f d1)) c ?s2 st1)"
    using put_once_does [OF m1, of ?s1 c] r other by (simp add: add.commute)
  then obtain p where p: "put_once R c (?s1, f d1) = (Inr (), p)"
    "pair_view view p = (?s2, committed (view (f d1)) c ?s2 st1)"
    by (rule doesE [where d = "(?s1, f d1)"]) simp_all
  obtain d' where d': "p = (?s2, d')" "view d' = committed (view (f d1)) c ?s2 st1" using p(2) by (cases p) simp
  have "put_attempts (contended R) c 3 (s, (d, [f])) = (Inr (), (?s2, (d', [])))"
    using first p(1) d'(1)
    by (simp add: put_attempts.simps [of _ _ "Suc _"] put_attempts.simps [of _ _ 3] py_simps
        is_watch_error_def watch_error_def numeral_3_eq_3 put_once_alone)
  then show thesis
    by (rule that) (use d'(2) r mirrorsD(4) [OF m1] in \<open>simp_all add: committed_def\<close>)
qed

lemma retry_overwrites:
  assumes m: "mirrors R (view d) st" and s: "state_consistent s" "plain_id (rs_run_id s)"
    and old: "get st (rs_run_id s) = Some old" "rs_epoch s = rs_epoch old"
    and f: "\<And>d1. view d1 = view d \<Longrightarrow> mirrors R (view (f d1)) st1"
    and other: "get st1 (rs_run_id s) = Some other" "rs_epoch other = rs_epoch old + 1"
  shows "\<exists>d' d''. redis_put (contended R) u (s, (d, [f])) =
      (Inr (), (s\<lparr>rs_epoch := rs_epoch old + 2, rs_checkpoint_id := Some (or_else (rs_checkpoint_id s) u)\<rparr>, (d', []))) \<and>
    redis_get R (rs_run_id s) d' =
      (Inr (Some (s\<lparr>rs_epoch := rs_epoch old + 2, rs_checkpoint_id := Some (or_else (rs_checkpoint_id s) u)\<rparr>)), d'')"
proof -
  let ?c = "or_else (rs_checkpoint_id s) u"
  let ?s2 = "s\<lparr>rs_epoch := rs_epoch old + 2, rs_checkpoint_id := Some ?c\<rparr>"
  let ?k = "run_key R (rs_run_id s)"
  obtain d1 where att: "put_attempts (contended R) ?c 3 (s, (d, [f])) = (Inr (), (?s2, (d1, [])))"
    and k1: "view d1 ?k = Some (RText (rr_dump R ?s2))"
    and l1: "as_list (view d1 (thread_run_index_key R (rs_thread_id s))) =
      Inr (dget_or (st_thread_runs st1) (rs_thread_id s) [])"
    by (rule put_retried [OF m s(2) old f other])
  obtain d' where rec: "redis_record_thread_run R (rs_thread_id s) (rs_run_id s) d1 = (Inr (), d')"
    and V: "view d' = (if rs_run_id s \<in> set (dget_or (st_thread_runs st1) (rs_thread_id s) []) then view d1
      else (view d1)(thread_run_index_key R (rs_thread_id s) \<mapsto>
        RList (dget_or (st_thread_runs st1) (rs_thread_id s) [] @ [rs_run_id s])))"
    by (rule doesE [OF record_run_does [where V = "view d1", OF l1] refl])
  have "view d' ?k = map_option (RText \<circ> rr_dump R) (Some ?s2)" using V k1 s(2) by simp
  then have "does view (redis_get R (rs_run_id s)) (view d') (Inr (Some ?s2)) (view d')"
    unfolding redis_get_def by (rule read_state_does)
  then obtain d'' where "redis_get R (rs_run_id s) d' = (Inr (Some ?s2), d'')" by (rule doesE) simp
  moreover have "redis_put (contended R) u (s, (d, [f])) = (Inr (), (?s2, (d', [])))"
    using att rec s(1) [folded validate_state_iff]
    by (simp add: redis_put_def py_simps on_db_def maybe_expire_def no_ttl record_beside [OF no_ttl])
  ultimately show ?thesis by blast
qed

end

text \<open>C27: the retry of the Redis \<open>put\<close> loses updates: two writers have read the same stored state of a run; one
  writes between the other's \<open>WATCH\<close> and \<open>EXEC\<close>. The other's transaction fails, but by then \<open>put\<close> has raised
  the epoch of its state object, so its second attempt passes the epoch check: the write succeeds and
  replaces the first writer's state, where in memory it is refused as stale.\<close>

theorem redis_retry_overwrites:
  assumes server: "redis_runs R view" and start: "mirrors R (view d) st" "store_inv st"
    and s: "state_consistent s" "plain_id (rs_run_id s)"
    and old: "get st (rs_run_id s) = Some old" "rs_epoch s = rs_epoch old"
    and other: "put v other st = Inr (other', st1)" "rs_run_id other = rs_run_id s"
    and f: "\<forall>d1. view d1 = view d \<longrightarrow> mirrors R (view (f d1)) st1"
  shows "(\<exists>m. put u s st1 = Inl (Exn StateConcurrencyError m)) \<and>
    (\<exists>s' d' d''. redis_put (contended R) u (s, (d, [f])) = (Inr (), (s', (d', []))) \<and>
       redis_get R (rs_run_id s) d' = (Inr (Some s'), d'') \<and>
       s' = s\<lparr>rs_epoch := rs_epoch old + 2, rs_checkpoint_id := Some (or_else (rs_checkpoint_id s) u)\<rparr>)"
proof
  have o: "get st1 (rs_run_id s) = Some other'" "rs_epoch other' = rs_epoch old + 1"
    using put_get [OF other(1)] other old(1) by (auto elim!: put_InrE)
  then show "\<exists>m. put u s st1 = Inl (Exn StateConcurrencyError m)"
    using mem.put_stale [OF s(1) o(1)] old(2) by simp
  show "\<exists>s' d' d''. redis_put (contended R) u (s, (d, [f])) = (Inr (), (s', (d', []))) \<and>
       redis_get R (rs_run_id s) d' = (Inr (Some s'), d'') \<and>
       s' = s\<lparr>rs_epoch := rs_epoch old + 2, rs_checkpoint_id := Some (or_else (rs_checkpoint_id s) u)\<rparr>"
    using redis_runs.retry_overwrites [OF server start(1) s old _ o] f by blast
qed

definition first_writer :: run_state where
  "first_writer = (sample_run ''r1'')\<lparr>rs_epoch := 1, rs_status := COMPLETED\<rparr>"

definition second_writer :: run_state where
  "second_writer = (sample_run ''r1'')\<lparr>rs_epoch := 1, rs_status := RUNNING\<rparr>"

lemma calls_on_table:
  assumes "calls_ok qs empty_run_store"
  obtains d where "mirrors (table_runs p) (map_of d) (snd (call_all mem_call qs empty_run_store))"
    and "store_inv (snd (call_all mem_call qs empty_run_store))"
proof -
  have empty: "map_of ([] :: table) = (\<lambda>_. None)" by (simp add: fun_eq_iff)
  have m: "mirrors (table_runs p) (map_of []) empty_run_store" unfolding empty by (rule mirrors_empty)
  have "store_inv st \<Longrightarrow> store_inv (snd (call_all mem_call qs st))" for st
    by (induction qs arbitrary: st) (auto simp: split_beta mem_call_inv)
  with table_runs.calls_agree [OF m store_inv_empty assms] that store_inv_empty show thesis by blast
qed

theorem redis_retry_overwrites_witness:
  "\<exists>d d2 d' d'' s'. redis_put (contended (table_runs ''p'')) ''c3'' (second_writer, (d, [\<lambda>_. d2])) =
      (Inr (), (s', (d', []))) \<and>
    redis_get (table_runs ''p'') ''r1'' d' = (Inr (Some s'), d'') \<and> rs_status s' = RUNNING \<and> rs_epoch s' = 3"
proof -
  let ?R = "table_runs ''p''"
  let ?a = "[CPut ''c1'' (sample_run ''r1'')]" and ?b = "[CPut ''c1'' (sample_run ''r1''), CPut ''c2'' first_writer]"
  let ?st = "snd (call_all mem_call ?a empty_run_store)" and ?st1 = "snd (call_all mem_call ?b empty_run_store)"
  have ok: "calls_ok ?a empty_run_store" "calls_ok ?b empty_run_store" by code_simp+
  obtain d where d: "mirrors ?R (map_of d) ?st" "store_inv ?st" by (rule calls_on_table [OF ok(1)])
  obtain d2 where d2: "mirrors ?R (map_of d2) ?st1" by (rule calls_on_table [OF ok(2)])
  have "map_option rs_epoch (get ?st ''r1'') = Some 1" by code_simp
  then obtain old where old: "get ?st ''r1'' = Some old" "rs_epoch old = 1" by auto
  have "case put ''c2'' first_writer ?st of Inr _ \<Rightarrow> True | _ \<Rightarrow> False" by code_simp
  then obtain other' where other: "put ''c2'' first_writer ?st = Inr (other', ?st1)"
    by (auto split: sum.splits)
  have s: "state_consistent second_writer" "plain_id (rs_run_id second_writer)"
    "rs_run_id second_writer = ''r1''" "rs_epoch second_writer = 1" "rs_run_id first_writer = rs_run_id second_writer"
    "rs_status second_writer = RUNNING"
    by code_simp+
  have "\<exists>s' d' d''. redis_put (contended ?R) ''c3'' (second_writer, (d, [\<lambda>_. d2])) = (Inr (), (s', (d', []))) \<and>
       redis_get ?R (rs_run_id second_writer) d' = (Inr (Some s'), d'') \<and>
       s' = second_writer\<lparr>rs_epoch := rs_epoch old + 2,
         rs_checkpoint_id := Some (or_else (rs_checkpoint_id second_writer) ''c3'')\<rparr>"
    by (rule redis_retry_overwrites [OF table_runs.redis_runs_axioms d s(1,2) _ _ other s(5), THEN conjunct2])
      (use old s d2 in auto)
  then show ?thesis using s(3,6) old(2) by fastforce
qed

end
