(* ===== verification/Python_Text.thy ===== *)
theory Python_Text
  imports Effects Json_Text
begin

section \<open>\<open>int\<close> and \<open>json.loads\<close> of a text, with their exceptions\<close>

text \<open>
  What the components that read texts share: \<open>int(s)\<close>, which allows surrounding space, a sign and single
  underscores between digits, and \<open>json.loads(s)\<close> with the exception it raises. \<open>py_int_str\<close>: reading a
  number that was written gives it back.
\<close>

text \<open>\<open>int(s)\<close> of a text.\<close>

definition grouped_digits :: "string \<Rightarrow> bool" where
  "grouped_digits s \<longleftrightarrow>
     s \<noteq> [] \<and> (\<forall>c \<in> set s. is_digit c \<or> c = CHR ''_'') \<and> hd s \<noteq> CHR ''_'' \<and> last s \<noteq> CHR ''_'' \<and>
     \<not> sublist ''__'' s"

definition py_int :: "string \<Rightarrow> exn + int" where
  "py_int s =
     (let t = strip s;
          negative = prefix ''-'' t;
          body = (if prefix ''-'' t \<or> prefix ''+'' t then tl t else t)
      in if grouped_digits body
         then let n = int (digits_value (filter is_digit body)) in Inr (if negative then - n else n)
         else Inl (Exn ValueError (''invalid literal for int() with base 10: '' @ repr_str s)))"

definition loads :: "string \<Rightarrow> exn + json" where
  "loads t =
     (case json_loads t of None \<Rightarrow> Inl (Exn (OtherError ''JSONDecodeError'') t) | Some j \<Rightarrow> Inr j)"

lemma strip_digits: "\<forall>c \<in> set s. \<not> is_space c \<Longrightarrow> strip s = s"
proof -
  have d: "\<forall>c \<in> set t. \<not> is_space c \<Longrightarrow> dropWhile is_space t = t" for t by (cases t) simp_all
  assume "\<forall>c \<in> set s. \<not> is_space c"
  with d [of s] d [of "rev s"] show ?thesis by (simp add: strip_def)
qed

lemma grouped_nat_str: "grouped_digits (nat_str n)"
proof -
  have d: "is_digit c \<Longrightarrow> c \<noteq> CHR ''_''" for c by (auto simp: is_digit_def)
  have no: "CHR ''_'' \<notin> set (nat_str n)" using nat_str_digits d by blast
  then have "\<not> sublist ''__'' (nat_str n)" by (auto dest: set_mono_sublist)
  moreover have "hd (nat_str n) \<noteq> CHR ''_''" "last (nat_str n) \<noteq> CHR ''_''"
    using no hd_in_set [OF nat_str_nonempty] last_in_set [OF nat_str_nonempty] by metis+
  ultimately show ?thesis using nat_str_digits [of n] no by (auto simp: grouped_digits_def)
qed

lemma py_int_str: "py_int (int_str i) = Inr i"
proof -
  have dig: "filter is_digit (nat_str n) = nat_str n" for n using nat_str_digits by (simp add: filter_id_conv)
  have "is_digit c \<Longrightarrow> \<not> is_space c" for c by (auto simp: is_space_def is_digit_def Let_def)
  moreover have "\<not> is_space (CHR ''-'')" by code_simp
  ultimately have sp: "\<forall>c \<in> set (int_str i). \<not> is_space c"
    using nat_str_digits by (auto simp: int_str_def)
  show ?thesis
  proof (cases "i < 0")
    case True
    then have "int_str i = CHR ''-'' # nat_str (nat (- i))" by (simp add: int_str_def)
    with True sp show ?thesis
      by (simp add: py_int_def Let_def strip_digits grouped_nat_str dig digits_value_nat_str)
  next
    case False
    then have s: "int_str i = nat_str (nat i)" by (simp add: int_str_def)
    obtain c cs where c: "nat_str (nat i) = c # cs" by (cases "nat_str (nat i)") auto
    with nat_str_digits [of "nat i"] have "c \<noteq> CHR ''-''" "c \<noteq> CHR ''+''" by (auto simp: is_digit_def)
    with c have "\<not> prefix ''-'' (nat_str (nat i))" "\<not> prefix ''+'' (nat_str (nat i))" by simp_all
    with False sp s show ?thesis
      by (simp add: py_int_def Let_def strip_digits grouped_nat_str dig digits_value_nat_str)
  qed
qed

end
