(* ===== verification/Redis_Interrupts.thy ===== *)
theory Redis_Interrupts
  imports Redis Interrupts Python_Text
begin

section \<open>The Redis interrupt store (\<open>RedisInterruptStore\<close> of \<open>governai/runtime/interrupts.py\<close>)\<close>

text \<open>
  The durable implementation of \<open>InterruptStore\<close>: a text key per request, holding the request's fields as
  JSON, a list key per run with the ids of its requests in order, a text key per run with its epoch. The
  client and the key prefix are parameters; the JSON text is written and read by the functions of
  \<open>Json_Text\<close>. A field of the wrong type in a stored text, which a dataclass would take as it is, is a
  \<open>TypeError\<close> here; the store reads only what it wrote.

  The in-memory store is the specification: the same calls have the same answers on both. The sweep removes
  exactly the overdue requests of all runs, as in memory, but leaves their ids in the lists; the next
  \<open>list_requests\<close> of the run drops them.
\<close>

subsection \<open>Requests as text\<close>

text \<open>\<open>asdict\<close>, and the constructor called with the entries of a dictionary as keyword arguments.\<close>

definition request_dict :: "interrupt_request \<Rightarrow> json dict" where
  "request_dict q =
     [(''interrupt_id'', JStr (ir_interrupt_id q)), (''run_id'', JStr (ir_run_id q)),
      (''step_name'', JStr (ir_step_name q)), (''message'', JStr (ir_message q)),
      (''context'', JObj (ir_context q)), (''epoch'', JInt (ir_epoch q)),
      (''created_at'', JInt (ir_created_at q)), (''expires_at'', JInt (ir_expires_at q)),
      (''status'', JStr (ir_status q))]"

definition request_fields :: "string list" where
  "request_fields =
     [''interrupt_id'', ''run_id'', ''step_name'', ''message'', ''context'', ''epoch'', ''created_at'',
      ''expires_at'', ''status'']"

definition str_field :: "json dict \<Rightarrow> string \<Rightarrow> string option \<Rightarrow> exn + string" where
  "str_field d k dflt =
     (case (dget d k, dflt) of
        (Some (JStr s), _) \<Rightarrow> Inr s
      | (None, Some s) \<Rightarrow> Inr s
      | (None, None) \<Rightarrow> Inl (Exn TypeError
          (''InterruptRequest.__init__() missing 1 required positional argument: '' @ quoted k))
      | _ \<Rightarrow> Inl (Exn TypeError k))"

definition int_field :: "json dict \<Rightarrow> string \<Rightarrow> int \<Rightarrow> exn + int" where
  "int_field d k dflt =
     (case dget d k of None \<Rightarrow> Inr dflt | Some (JInt i) \<Rightarrow> Inr i | _ \<Rightarrow> Inl (Exn TypeError k))"

definition dict_field :: "json dict \<Rightarrow> string \<Rightarrow> exn + json dict" where
  "dict_field d k =
     (case dget d k of None \<Rightarrow> Inr [] | Some (JObj x) \<Rightarrow> Inr x | _ \<Rightarrow> Inl (Exn TypeError k))"

definition request_of_dict :: "int \<Rightarrow> json dict \<Rightarrow> exn + interrupt_request" where
  "request_of_dict now d =
     (case filter (\<lambda>k. k \<notin> set request_fields) (dkeys d) of
        k # _ \<Rightarrow> Inl (Exn TypeError (''InterruptRequest.__init__() got an unexpected keyword argument '' @ quoted k))
      | [] \<Rightarrow>
          fst (bnd (lift_res (str_field d ''interrupt_id'' None)) (\<lambda>i.
               bnd (lift_res (str_field d ''run_id'' None)) (\<lambda>r.
               bnd (lift_res (str_field d ''step_name'' None)) (\<lambda>st.
               bnd (lift_res (str_field d ''message'' None)) (\<lambda>m.
               bnd (lift_res (dict_field d ''context'')) (\<lambda>ctx.
               bnd (lift_res (int_field d ''epoch'' 0)) (\<lambda>e.
               bnd (lift_res (int_field d ''created_at'' now)) (\<lambda>c.
               bnd (lift_res (int_field d ''expires_at'' 0)) (\<lambda>x.
               bnd (lift_res (str_field d ''status'' (Some ''pending''))) (\<lambda>s.
               ret \<lparr>ir_interrupt_id = i, ir_run_id = r, ir_step_name = st, ir_message = m, ir_context = ctx,
                    ir_epoch = e, ir_created_at = c, ir_expires_at = x, ir_status = s\<rparr>))))))))) ()))"

definition request_text :: "interrupt_request \<Rightarrow> string" where
  "request_text q = json_dumps (JObj (request_dict q))"

definition parse_request :: "int \<Rightarrow> string \<Rightarrow> exn + interrupt_request" where
  "parse_request now t =
     (case loads t of
        Inl e \<Rightarrow> Inl e
      | Inr (JObj d) \<Rightarrow> request_of_dict now d
      | Inr v \<Rightarrow> Inl (Exn TypeError
          (''InterruptRequest() argument after ** must be a mapping, not '' @ type_name v)))"

lemma parse_request_text:
  assumes "json_ok (JObj (ir_context q))"
  shows "parse_request now (request_text q) = Inr q"
proof -
  have "json_ok (JObj (request_dict q))" using assms by (simp add: request_dict_def)
  moreover have "request_of_dict now (request_dict q) = Inr q"
    by (simp add: request_of_dict_def request_dict_def dkeys_def request_fields_def str_field_def int_field_def
        dict_field_def py_simps)
  ultimately show ?thesis
    by (simp add: parse_request_def request_text_def loads_def json_loads_dumps del: json_dumps.simps json_ok.simps)
qed

subsection \<open>The store\<close>

record 'd redis_interrupts =
  ri_client :: "'d redis_client"
  ri_prefix :: string

definition epoch_key :: "'d redis_interrupts \<Rightarrow> string \<Rightarrow> string" where
  "epoch_key R run_id = ri_prefix R @ '':run:'' @ run_id @ '':epoch''"

definition request_key :: "'d redis_interrupts \<Rightarrow> string \<Rightarrow> string \<Rightarrow> string" where
  "request_key R run_id interrupt_id = ri_prefix R @ '':run:'' @ run_id @ '':request:'' @ interrupt_id"

definition request_index_key :: "'d redis_interrupts \<Rightarrow> string \<Rightarrow> string" where
  "request_index_key R run_id = ri_prefix R @ '':run:'' @ run_id @ '':requests''"

definition rewrite_ids :: "'d redis_interrupts \<Rightarrow> string \<Rightarrow> string list \<Rightarrow> ('d, unit) py" where
  "rewrite_ids R key values =
     sq (rc_delete (ri_client R) key) (each (rc_rpush (ri_client R) key) values)"

definition redis_get_epoch :: "'d redis_interrupts \<Rightarrow> string \<Rightarrow> ('d, int) py" where
  "redis_get_epoch R run_id =
     bnd (rc_get (ri_client R) (epoch_key R run_id)) (\<lambda>payload.
     case payload of None \<Rightarrow> ret 0 | Some t \<Rightarrow> lift_res (py_int t))"

definition redis_set_epoch :: "'d redis_interrupts \<Rightarrow> string \<Rightarrow> int \<Rightarrow> ('d, unit) py" where
  "redis_set_epoch R run_id epoch = rc_set (ri_client R) (epoch_key R run_id) (int_str epoch) None"

definition redis_save_request :: "'d redis_interrupts \<Rightarrow> interrupt_request \<Rightarrow> ('d, unit) py" where
  "redis_save_request R q =
     (let index_key = request_index_key R (ir_run_id q) in
      sq (rc_set (ri_client R) (request_key R (ir_run_id q) (ir_interrupt_id q)) (request_text q) None)
     (bnd (rc_lrange (ri_client R) index_key) (\<lambda>existing.
      perform (ir_interrupt_id q \<notin> set existing) (rc_rpush (ri_client R) index_key (ir_interrupt_id q)))))"

definition redis_get_request ::
  "'d redis_interrupts \<Rightarrow> int \<Rightarrow> string \<Rightarrow> string \<Rightarrow> ('d, interrupt_request option) py" where
  "redis_get_request R now run_id interrupt_id =
     bnd (rc_get (ri_client R) (request_key R run_id interrupt_id)) (\<lambda>payload.
     case payload of
       None \<Rightarrow> ret None
     | Some t \<Rightarrow> bnd (lift_res (parse_request now t)) (\<lambda>q. ret (Some q)))"

fun load_requests ::
  "'d redis_interrupts \<Rightarrow> int \<Rightarrow> string \<Rightarrow> string list \<Rightarrow> ('d, (string \<times> interrupt_request) list) py" where
  "load_requests R now run_id [] = ret []"
| "load_requests R now run_id (i # ids) =
     bnd (redis_get_request R now run_id i) (\<lambda>request.
     bnd (load_requests R now run_id ids) (\<lambda>out.
     ret (case request of None \<Rightarrow> out | Some q \<Rightarrow> (i, q) # out)))"

definition redis_list_requests ::
  "'d redis_interrupts \<Rightarrow> int \<Rightarrow> string \<Rightarrow> ('d, interrupt_request list) py" where
  "redis_list_requests R now run_id =
     bnd (rc_lrange (ri_client R) (request_index_key R run_id)) (\<lambda>normalized.
     bnd (load_requests R now run_id normalized) (\<lambda>found.
     sq (perform (map fst found \<noteq> normalized) (rewrite_ids R (request_index_key R run_id) (map fst found)))
        (ret (map snd found))))"

definition redis_delete_request :: "'d redis_interrupts \<Rightarrow> string \<Rightarrow> string \<Rightarrow> ('d, unit) py" where
  "redis_delete_request R run_id interrupt_id =
     sq (rc_delete (ri_client R) (request_key R run_id interrupt_id))
    (bnd (rc_lrange (ri_client R) (request_index_key R run_id)) (\<lambda>normalized.
     rewrite_ids R (request_index_key R run_id) (filter (\<lambda>current. current \<noteq> interrupt_id) normalized)))"

text \<open>The sweep reads the raw JSON of every key that matches: \<open>data.get("expires_at", 0) > 0\<close>.\<close>

definition overdue :: "int \<Rightarrow> json \<Rightarrow> exn + bool" where
  "overdue now data =
     (case data of
        JObj d \<Rightarrow>
          (case dget_or d ''expires_at'' (JInt 0) of
             JInt x \<Rightarrow> Inr (x > 0 \<and> x \<le> now)
           | JBool b \<Rightarrow> Inr (b \<and> 1 \<le> now)
           | v \<Rightarrow> Inl (Exn TypeError (quoted ''>'' @ '' not supported between instances of '' @
               quoted (type_name v) @ '' and '' @ quoted ''int'')))
      | v \<Rightarrow> Inl (Exn AttributeError (quoted (type_name v) @ '' object has no attribute '' @ quoted ''get'')))"

fun sweep_keys :: "'d redis_interrupts \<Rightarrow> int \<Rightarrow> string list \<Rightarrow> ('d, nat) py" where
  "sweep_keys R now [] = ret 0"
| "sweep_keys R now (key # ks) =
     bnd (rc_get (ri_client R) key) (\<lambda>payload.
     bnd (case payload of
            None \<Rightarrow> ret 0
          | Some t \<Rightarrow>
              bnd (lift_res (loads t)) (\<lambda>data.
              bnd (lift_res (overdue now data)) (\<lambda>b.
              if b then sq (rc_delete (ri_client R) key) (ret 1) else ret 0))) (\<lambda>n.
     bnd (sweep_keys R now ks) (\<lambda>m. ret (n + m))))"

definition sweep_pattern :: "'d redis_interrupts \<Rightarrow> string" where
  "sweep_pattern R = ri_prefix R @ '':run:*:request:*''"

definition redis_sweep_expired :: "'d redis_interrupts \<Rightarrow> int \<Rightarrow> ('d, nat) py" where
  "redis_sweep_expired R now =
     bnd (rc_scan (ri_client R) (sweep_pattern R)) (\<lambda>pages.
     sweep_keys R now (concat pages))"

subsection \<open>Keys do not collide\<close>

definition plain_run :: "string \<Rightarrow> bool" where
  "plain_run r \<longleftrightarrow> CHR '':'' \<notin> set r"

lemma plain_split:
  assumes "plain_run r" and "plain_run r'"
  shows "r @ CHR '':'' # x = r' @ CHR '':'' # y \<longleftrightarrow> r = r' \<and> x = y"
proof
  assume eq: "r @ CHR '':'' # x = r' @ CHR '':'' # y"
  have t: "takeWhile (\<lambda>c. c \<noteq> CHR '':'') (s @ CHR '':'' # z) = s" if "plain_run s" for s z
    using that by (subst takeWhile_append2) (auto simp: plain_run_def)
  from arg_cong [OF eq, of "takeWhile (\<lambda>c. c \<noteq> CHR '':'')"] t assms have "r = r'" by metis
  with eq show "r = r' \<and> x = y" by simp
qed simp

lemma interrupt_keys [simp]:
  assumes "plain_run r" "plain_run r'"
  shows "epoch_key R r = epoch_key R r' \<longleftrightarrow> r = r'"
    "request_key R r i = request_key R r' i' \<longleftrightarrow> r = r' \<and> i = i'"
    "request_index_key R r = request_index_key R r' \<longleftrightarrow> r = r'"
    "epoch_key R r \<noteq> request_key R r' i" "request_key R r' i \<noteq> epoch_key R r"
    "epoch_key R r \<noteq> request_index_key R r'" "request_index_key R r' \<noteq> epoch_key R r"
    "request_key R r i \<noteq> request_index_key R r'" "request_index_key R r' \<noteq> request_key R r i"
  using plain_split [OF assms] plain_split [OF assms(2,1)]
  by (simp_all add: epoch_key_def request_key_def request_index_key_def)

subsection \<open>The key space of an in-memory store\<close>

definition storable :: "interrupt_request \<Rightarrow> bool" where
  "storable q \<longleftrightarrow> json_ok (JObj (ir_context q))"

text \<open>\<open>ids r\<close> is the list of ids the server keeps for run \<open>r\<close>: the run's requests in order, and in between
  the ids of requests that a sweep has removed. Every key the sweep's pattern matches is a request's.\<close>

definition imirrors ::
  "'d redis_interrupts \<Rightarrow> (string \<Rightarrow> string list) \<Rightarrow> keyspace \<Rightarrow> mem_interrupts \<Rightarrow> bool" where
  "imirrors R ids V s \<longleftrightarrow>
     (\<forall>r. plain_run r \<longrightarrow>
        V (epoch_key R r) = map_option (RText \<circ> int_str) (dget (mi_epochs s) r) \<and>
        (\<forall>i. V (request_key R r i) = map_option (RText \<circ> request_text) (mem_get_request s r i)) \<and>
        as_list (V (request_index_key R r)) = Inr (ids r) \<and>
        filter (\<lambda>i. mem_get_request s r i \<noteq> None) (ids r) = map fst (dget_or (mi_requests s) r [])) \<and>
     (\<forall>r i q. mem_get_request s r i = Some q \<longrightarrow> storable q) \<and>
     (\<forall>k. V k \<noteq> None \<and> glob (sweep_pattern R) k \<longrightarrow> (\<exists>r i. plain_run r \<and> k = request_key R r i)) \<and>
     distinct (map fst (mi_requests s))"

lemma imirrorsI:
  assumes "\<And>r. plain_run r \<Longrightarrow> V (epoch_key R r) = map_option (RText \<circ> int_str) (dget (mi_epochs s) r)"
    and "\<And>r i. plain_run r \<Longrightarrow> V (request_key R r i) = map_option (RText \<circ> request_text) (mem_get_request s r i)"
    and "\<And>r. plain_run r \<Longrightarrow> as_list (V (request_index_key R r)) = Inr (ids r)"
    and "\<And>r. plain_run r \<Longrightarrow>
      filter (\<lambda>i. mem_get_request s r i \<noteq> None) (ids r) = map fst (dget_or (mi_requests s) r [])"
    and "\<And>r i q. mem_get_request s r i = Some q \<Longrightarrow> storable q"
    and "\<And>k. V k \<noteq> None \<Longrightarrow> glob (sweep_pattern R) k \<Longrightarrow> \<exists>r i. plain_run r \<and> k = request_key R r i"
    and "distinct (map fst (mi_requests s))"
  shows "imirrors R ids V s"
  unfolding imirrors_def using assms by blast

lemma imirrorsD:
  assumes "imirrors R ids V s"
  shows "plain_run r \<Longrightarrow> V (epoch_key R r) = map_option (RText \<circ> int_str) (dget (mi_epochs s) r)"
    and "plain_run r \<Longrightarrow> V (request_key R r i) = map_option (RText \<circ> request_text) (mem_get_request s r i)"
    and "plain_run r \<Longrightarrow> as_list (V (request_index_key R r)) = Inr (ids r)"
    and "plain_run r \<Longrightarrow>
      filter (\<lambda>i. mem_get_request s r i \<noteq> None) (ids r) = map fst (dget_or (mi_requests s) r [])"
    and "mem_get_request s r i = Some q \<Longrightarrow> storable q"
    and "V k \<noteq> None \<Longrightarrow> glob (sweep_pattern R) k \<Longrightarrow> \<exists>r i. plain_run r \<and> k = request_key R r i"
    and "distinct (map fst (mi_requests s))"
  using assms unfolding imirrors_def by blast+

lemma imirrors_empty: "imirrors R (\<lambda>_. []) (\<lambda>_. None) empty_interrupts"
  by (rule imirrorsI) (simp_all add: empty_interrupts_def mem_get_request_def as_list_def)

lemma glob_literal: "glob q s \<Longrightarrow> glob (p @ q) (p @ s)"
proof (induction p)
  case (Cons c p)
  then show ?case by (cases "p @ s") auto
qed simp

lemma glob_star: "glob q s \<Longrightarrow> glob (CHR ''*'' # q) (x @ s)"
proof (induction x)
  case Nil
  then show ?case by simp
next
  case (Cons c x)
  then show ?case by (subst glob.simps) simp
qed

lemma request_key_swept: "glob (sweep_pattern R) (request_key R r i)"
proof -
  have "glob ''*'' i" using glob_star [of "[]" "[]" i] by simp
  then have "glob ('':request:'' @ ''*'') ('':request:'' @ i)" by (rule glob_literal)
  then have "glob (CHR ''*'' # '':request:*'') (r @ '':request:'' @ i)" by (intro glob_star) simp
  then have "glob ('':run:'' @ CHR ''*'' # '':request:*'') ('':run:'' @ r @ '':request:'' @ i)" by (rule glob_literal)
  then show ?thesis unfolding sweep_pattern_def request_key_def by (intro glob_literal) simp
qed

text \<open>The other keys of a plain run do not match.\<close>

lemma glob_literalD: "glob (p @ q) (p @ s) \<Longrightarrow> CHR ''*'' \<notin> set p \<Longrightarrow> glob q s"
  by (induction p) auto

lemma glob_starE:
  assumes "glob (CHR ''*'' # q) s"
  obtains x y where "s = x @ y" and "glob q y"
  using assms
proof (induction s arbitrary: thesis)
  case Nil
  then show ?case by (metis append_Nil glob.simps(2) list.simps(4))
next
  case (Cons c s)
  from Cons.prems(2) consider "glob q (c # s)" | "glob (CHR ''*'' # q) s" by (subst (asm) glob.simps) auto
  then show ?case
  proof cases
    case 1
    with Cons.prems(1) [of "[]"] show ?thesis by simp
  next
    case 2
    from Cons.IH [OF _ 2] Cons.prems(1) show ?thesis by (metis append_Cons)
  qed
qed

lemma glob_prefixE: "glob (p @ q) y \<Longrightarrow> CHR ''*'' \<notin> set p \<Longrightarrow> \<exists>z. y = p @ z"
  by (induction p arbitrary: y) (auto split: list.splits)

lemma unswept:
  assumes p: "CHR ''*'' \<notin> set (ri_prefix R)" and r: "plain_run r" and t: "CHR '':'' \<notin> set t"
  shows "\<not> glob (sweep_pattern R) (ri_prefix R @ '':run:'' @ r @ CHR '':'' # t)"
proof
  assume "glob (sweep_pattern R) (ri_prefix R @ '':run:'' @ r @ CHR '':'' # t)"
  then have "glob ((ri_prefix R @ '':run:'') @ ''*:request:*'') ((ri_prefix R @ '':run:'') @ r @ CHR '':'' # t)"
    by (simp add: sweep_pattern_def)
  then have "glob ''*:request:*'' (r @ CHR '':'' # t)"
    by (rule glob_literalD) (use p in simp)
  from glob_starE [OF this] obtain x y where xy: "r @ CHR '':'' # t = x @ y" and g: "glob '':request:*'' y" .
  then obtain z where "y = '':request:'' @ z" using glob_prefixE [of "'':request:''" "''*''" y] by auto
  with xy have eq: "r @ CHR '':'' # t = x @ CHR '':'' # ''request'' @ CHR '':'' # z" by simp
  have "length (filter (\<lambda>c. c = CHR '':'') (r @ CHR '':'' # t)) = 1"
    using r t by (auto simp: plain_run_def filter_empty_conv)
  moreover have "length (filter (\<lambda>c. c = CHR '':'') (r @ CHR '':'' # t)) \<ge> 2" unfolding eq by simp
  ultimately show False by simp
qed

subsection \<open>Each operation, on both\<close>

lemma unswept_keys:
  assumes "CHR ''*'' \<notin> set (ri_prefix R)" and "plain_run r"
  shows "\<not> glob (sweep_pattern R) (epoch_key R r)" "\<not> glob (sweep_pattern R) (request_index_key R r)"
  using unswept [OF assms, of "''epoch''"] unswept [OF assms, of "''requests''"]
  by (simp_all add: epoch_key_def request_index_key_def)

lemma mem_get_None_iff: "mem_get_request s r i = None \<longleftrightarrow> i \<notin> set (map fst (dget_or (mi_requests s) r []))"
  by (simp add: mem_get_request_def map_of_eq_None_iff)

lemma keys_ddel: "map fst (ddel k d) = filter (\<lambda>k'. k' \<noteq> k) (map fst d)"
  by (induction d) auto

lemma save_keys:
  "map fst (dget_or (mi_requests (mem_save_request q s)) r []) =
     (let ks = map fst (dget_or (mi_requests s) r [])
      in if r = ir_run_id q \<and> ir_interrupt_id q \<notin> set ks then ks @ [ir_interrupt_id q] else ks)"
  by (simp add: mem_save_request_requests keys_dset Let_def)

lemma delete_keys:
  "map fst (dget_or (mi_requests (mem_delete_request r i s)) r' []) =
     (let ks = map fst (dget_or (mi_requests s) r' []) in if r' = r then filter (\<lambda>k. k \<noteq> i) ks else ks)"
  by (simp add: mem_delete_request_requests keys_ddel Let_def)

lemma save_runs_distinct:
  "distinct (map fst (mi_requests s)) \<Longrightarrow> distinct (map fst (mi_requests (mem_save_request q s)))"
  by (simp add: mem_save_request_def Let_def)

lemma delete_runs_distinct:
  "distinct (map fst (mi_requests s)) \<Longrightarrow> distinct (map fst (mi_requests (mem_delete_request r i s)))"
  by (simp add: mem_delete_request_def Let_def split: option.splits)

lemma mi_epochs_frame [simp]:
  "mi_epochs (mem_save_request q s) = mi_epochs s" "mi_epochs (mem_delete_request r i s) = mi_epochs s"
  "mi_requests (mem_set_epoch r e s) = mi_requests s" "mi_epochs (mem_set_epoch r e s) = dset r e (mi_epochs s)"
  by (simp_all add: mem_save_request_def mem_delete_request_def mem_set_epoch_def Let_def split: option.splits)

definition itracks ::
  "'d redis_interrupts \<Rightarrow> ('d \<Rightarrow> keyspace) \<Rightarrow> ('d, 'a) py \<Rightarrow> keyspace \<Rightarrow> exn + 'a \<Rightarrow> (string \<Rightarrow> string list) \<Rightarrow>
   mem_interrupts \<Rightarrow> bool" where
  "itracks R view m V r ids s \<longleftrightarrow> (\<exists>V'. does view m V r V' \<and> imirrors R ids V' s)"

lemma itracksI: "does view m V r V' \<Longrightarrow> imirrors R ids V' s \<Longrightarrow> itracks R view m V r ids s"
  by (auto simp: itracks_def)

lemma itracks_bnd:
  "does view m V (Inr x) V1 \<Longrightarrow> itracks R view (f x) V1 r ids s \<Longrightarrow> itracks R view (bnd m f) V r ids s"
  by (auto simp: itracks_def intro: does_bnd)

lemma itracks_then:
  "itracks R view m V (Inr x) ids1 s1 \<Longrightarrow> (\<And>V1. imirrors R ids1 V1 s1 \<Longrightarrow> itracks R view (f x) V1 r ids s) \<Longrightarrow>
   itracks R view (bnd m f) V r ids s"
  by (fastforce simp: itracks_def intro: does_bnd)

lemma itracks_ret: "imirrors R ids V s \<Longrightarrow> itracks R view (ret x) V (Inr x) ids s"
  by (rule itracksI [OF does_ret])

text \<open>The keys of one run written, the others as they were.\<close>

lemma imirrors_set_epoch:
  assumes p: "CHR ''*'' \<notin> set (ri_prefix R)" and m: "imirrors R ids V s" and r: "plain_run r"
  shows "imirrors R ids (V(epoch_key R r \<mapsto> RText (int_str e))) (mem_set_epoch r e s)"
  by (rule imirrorsI)
    (use imirrorsD [OF m] r unswept_keys [OF p r] in \<open>auto split: if_splits\<close>)

lemma imirrors_index:
  assumes p: "CHR ''*'' \<notin> set (ri_prefix R)" and m: "imirrors R ids V s" and r: "plain_run r"
    and x: "as_list v = Inr xs"
      "filter (\<lambda>i. mem_get_request s r i \<noteq> None) xs = map fst (dget_or (mi_requests s) r [])"
  shows "imirrors R (ids(r := xs)) (V(request_index_key R r := v)) s"
proof (rule imirrorsI)
  show "\<exists>r' i. plain_run r' \<and> k = request_key R r' i"
    if "(V(request_index_key R r := v)) k \<noteq> None" "glob (sweep_pattern R) k" for k
    using that imirrorsD(6) [OF m] unswept_keys(2) [OF p r] by (auto split: if_splits)
qed (use imirrorsD(1-5,7) [OF m] r x in auto)

lemma imirrors_save:
  assumes p: "CHR ''*'' \<notin> set (ri_prefix R)" and m: "imirrors R ids V s"
    and q: "plain_run (ir_run_id q)" "storable q"
    and new: "mem_get_request s (ir_run_id q) (ir_interrupt_id q) = None \<Longrightarrow> ir_interrupt_id q \<notin> set (ids (ir_run_id q))"
    and xs: "xs = (if ir_interrupt_id q \<in> set (ids (ir_run_id q)) then ids (ir_run_id q)
      else ids (ir_run_id q) @ [ir_interrupt_id q])"
    and v: "as_list v = Inr xs"
  shows "imirrors R (ids(ir_run_id q := xs))
    (V(request_key R (ir_run_id q) (ir_interrupt_id q) \<mapsto> RText (request_text q),
       request_index_key R (ir_run_id q) := v)) (mem_save_request q s)"
proof (rule imirrorsI)
  let ?r = "ir_run_id q" and ?i = "ir_interrupt_id q"
  let ?V = "V(request_key R ?r ?i \<mapsto> RText (request_text q), request_index_key R ?r := v)"
  show "\<exists>r' i. plain_run r' \<and> k = request_key R r' i" if "?V k \<noteq> None" "glob (sweep_pattern R) k" for k
    using that imirrorsD(6) [OF m] unswept_keys(2) [OF p q(1)] q(1) by (auto split: if_splits)
  show "filter (\<lambda>i. mem_get_request (mem_save_request q s) r i \<noteq> None) ((ids(?r := xs)) r) =
      map fst (dget_or (mi_requests (mem_save_request q s)) r [])" if r: "plain_run r" for r
  proof (cases "r = ?r")
    case False
    then show ?thesis using imirrorsD(4) [OF m r] by (simp add: mem_get_save save_keys Let_def)
  next
    case True
    have keys: "filter (\<lambda>i. mem_get_request s r i \<noteq> None) (ids r) = map fst (dget_or (mi_requests s) r [])"
      by (rule imirrorsD(4) [OF m r])
    show ?thesis
    proof (cases "mem_get_request s r ?i = None")
      case None: True
      then have i: "?i \<notin> set (ids r)" "?i \<notin> set (map fst (dget_or (mi_requests s) r []))"
        using new True by (simp_all add: mem_get_None_iff)
      have "filter (\<lambda>i. mem_get_request (mem_save_request q s) r i \<noteq> None) (ids r) =
          filter (\<lambda>i. mem_get_request s r i \<noteq> None) (ids r)"
        using i(1) by (intro filter_cong) (auto simp: mem_get_save)
      with i True xs keys show ?thesis by (simp add: save_keys Let_def mem_get_save)
    next
      case Some: False
      then have i: "?i \<in> set (map fst (dget_or (mi_requests s) r []))" by (simp add: mem_get_None_iff)
      then have "?i \<in> set (ids r)" using keys by (metis filter_is_subset subsetD)
      moreover have "filter (\<lambda>i. mem_get_request (mem_save_request q s) r i \<noteq> None) (ids r) =
          filter (\<lambda>i. mem_get_request s r i \<noteq> None) (ids r)"
        using Some True by (intro filter_cong) (auto simp: mem_get_save)
      ultimately show ?thesis using i True xs keys by (simp add: save_keys Let_def)
    qed
  qed
qed (use imirrorsD(1-3,5) [OF m] imirrorsD(7) [OF m] q v in
    \<open>auto simp: mem_get_save save_runs_distinct split: if_splits\<close>)

lemma imirrors_delete:
  assumes p: "CHR ''*'' \<notin> set (ri_prefix R)" and m: "imirrors R ids V s" and r: "plain_run r"
    and v: "as_list v = Inr (filter (\<lambda>k. k \<noteq> i) (ids r))"
  shows "imirrors R (ids(r := filter (\<lambda>k. k \<noteq> i) (ids r)))
    (V(request_key R r i := None, request_index_key R r := v)) (mem_delete_request r i s)"
proof (rule imirrorsI)
  let ?V = "V(request_key R r i := None, request_index_key R r := v)"
  show "\<exists>r' i. plain_run r' \<and> k = request_key R r' i" if "?V k \<noteq> None" "glob (sweep_pattern R) k" for k
    using that imirrorsD(6) [OF m] unswept_keys(2) [OF p r] by (auto split: if_splits)
  show "filter (\<lambda>k. mem_get_request (mem_delete_request r i s) r' k \<noteq> None) ((ids(r := filter (\<lambda>k. k \<noteq> i) (ids r))) r') =
      map fst (dget_or (mi_requests (mem_delete_request r i s)) r' [])" if "plain_run r'" for r'
    using imirrorsD(4) [OF m that, symmetric]
    by (auto simp: mem_get_delete delete_keys Let_def intro!: filter_cong)
qed (use imirrorsD(1-3,5) [OF m] imirrorsD(7) [OF m] r v in
    \<open>auto simp: mem_get_delete delete_runs_distinct split: if_splits\<close>)

lemma map_of_kept:
  assumes "distinct (map fst d)"
  shows "map_of (filter (\<lambda>(_, xs). xs \<noteq> []) (map (\<lambda>(r, xs). (r, filter P xs)) d)) r =
      (case map_of d r of None \<Rightarrow> None | Some xs \<Rightarrow> if filter P xs = [] then None else Some (filter P xs))"
  using assms
proof (induction d)
  case (Cons p d)
  have "map_of (filter (\<lambda>(_, xs). xs \<noteq> []) (map (\<lambda>(r, xs). (r, filter P xs)) d)) (fst p) = None"
    using Cons.prems by (auto simp: map_of_eq_None_iff image_iff)
  with Cons show ?case by (cases p) auto
qed simp

lemma swept_get:
  assumes "distinct (map fst (mi_requests s))"
  shows "dget_or (mi_requests (snd (mem_sweep_expired now s))) r [] =
    filter (\<lambda>(_, q). \<not> swept now q) (dget_or (mi_requests s) r [])"
  using map_of_kept [OF assms, of "\<lambda>(_, q). \<not> swept now q" r]
  by (simp add: mem_sweep_expired_def Let_def dget_or_def split: option.splits)

lemma swept_request:
  assumes d: "distinct (map fst (mi_requests s))" and inv: "mem_interrupts_inv s"
  shows "mem_get_request (snd (mem_sweep_expired now s)) r i =
    (case mem_get_request s r i of None \<Rightarrow> None | Some q \<Rightarrow> if swept now q then None else Some q)"
proof -
  have "map_of (filter (\<lambda>(_, q). \<not> P q) kvs) i =
      (case map_of kvs i of None \<Rightarrow> None | Some q \<Rightarrow> if P q then None else Some q)"
    if "distinct (map fst kvs)" for kvs :: "(string \<times> interrupt_request) list" and P
    using that
  proof (induction kvs)
    case (Cons p kvs)
    then show ?case by (cases p) (auto simp: map_of_eq_None_iff split: option.splits)
  qed simp
  then show ?thesis
    using mem_interrupts_invD(1) [OF inv]
    by (simp add: mem_get_request_def swept_get [OF d])
qed

lemma swept_inv:
  assumes d: "distinct (map fst (mi_requests s))" and inv: "mem_interrupts_inv s"
  shows "mem_interrupts_inv (snd (mem_sweep_expired now s))"
    and "distinct (map fst (mi_requests (snd (mem_sweep_expired now s))))"
    and "mi_epochs (snd (mem_sweep_expired now s)) = mi_epochs s"
proof -
  show "mem_interrupts_inv (snd (mem_sweep_expired now s))"
    using mem_interrupts_invD [OF inv]
    by (intro mem_interrupts_invI) (auto simp: swept_get [OF d] intro: distinct_map_filter)
  from d have "distinct (map fst (map (\<lambda>(r, reqs). (r, filter (\<lambda>(_, q). \<not> swept now q) reqs)) (mi_requests s)))"
    by (simp add: comp_def split_beta)
  then show "distinct (map fst (mi_requests (snd (mem_sweep_expired now s))))"
    unfolding mem_sweep_expired_def Let_def by (simp add: distinct_map_filter)
  show "mi_epochs (snd (mem_sweep_expired now s)) = mi_epochs s"
    by (simp add: mem_sweep_expired_def Let_def)
qed

lemma request_text_inj: "storable q \<Longrightarrow> storable q' \<Longrightarrow> request_text q = request_text q' \<Longrightarrow> q = q'"
  unfolding storable_def using parse_request_text by (metis sum.inject(2))

lemma overdue_request: "storable q \<Longrightarrow> loads (request_text q) = Inr (JObj (request_dict q)) \<and>
    overdue now (JObj (request_dict q)) = Inr (swept now q)"
proof
  assume "storable q"
  then have "json_ok (JObj (request_dict q))" by (simp add: storable_def request_dict_def)
  then show "loads (request_text q) = Inr (JObj (request_dict q))"
    by (simp add: request_text_def loads_def json_loads_dumps del: json_dumps.simps json_ok.simps)
  show "overdue now (JObj (request_dict q)) = Inr (swept now q)"
    by (simp add: overdue_def request_dict_def dget_or_def swept_def)
qed

definition sweeps :: "int \<Rightarrow> rvalue option \<Rightarrow> bool" where
  "sweeps now v \<longleftrightarrow> (\<exists>q. v = Some (RText (request_text q)) \<and> storable q \<and> swept now q)"

definition holds_request :: "rvalue option \<Rightarrow> bool" where
  "holds_request v \<longleftrightarrow> v = None \<or> (\<exists>q. v = Some (RText (request_text q)) \<and> storable q)"

lemma sweeps_text: "storable q \<Longrightarrow> sweeps now (Some (RText (request_text q))) \<longleftrightarrow> swept now q"
  unfolding sweeps_def using request_text_inj by blast

locale redis_requests = redis_server "ri_client R" view for R :: "'d redis_interrupts" and view +
  assumes plain_prefix: "CHR ''*'' \<notin> set (ri_prefix R)" "plain_glob (ri_prefix R)"
begin

lemma rewrite_ids_does:
  "does view (rewrite_ids R k xs) V (Inr ()) (V(k := (if xs = [] then None else Some (RList xs))))"
  unfolding rewrite_ids_def by (rule does_sq [OF delete push_new])

lemma ids_does:
  "imirrors R ids V s \<Longrightarrow> plain_run r \<Longrightarrow>
   does view (rc_lrange (ri_client R) (request_index_key R r)) V (Inr (ids r)) V"
  by (rule lrange_list) (rule imirrorsD(3))

lemma get_epoch_does:
  assumes m: "imirrors R ids V s" and r: "plain_run r"
  shows "does view (redis_get_epoch R r) V (Inr (mem_get_epoch s r)) V"
  unfolding redis_get_epoch_def
  by (rule does_bnd [OF get_text [where t = "map_option int_str (dget (mi_epochs s) r)"]])
    (use imirrorsD(1) [OF m r] in \<open>simp_all add: mem_get_epoch_def dget_or_def does_def py_simps py_int_str
      as_text_def split: option.splits\<close>)

lemma set_epoch_tracks:
  assumes m: "imirrors R ids V s" and r: "plain_run r"
  shows "itracks R view (redis_set_epoch R r e) V (Inr ()) ids (mem_set_epoch r e s)"
  unfolding redis_set_epoch_def
  by (rule itracksI [OF set]) (rule imirrors_set_epoch [OF plain_prefix(1) m r])

lemma get_request_does:
  assumes m: "imirrors R ids V s" and r: "plain_run r"
  shows "does view (redis_get_request R now r i) V (Inr (mem_get_request s r i)) V"
  unfolding redis_get_request_def
  by (rule does_bnd [OF get_text [where t = "map_option request_text (mem_get_request s r i)"]])
    (use imirrorsD(2) [OF m r, of i] imirrorsD(5) [OF m, of r i] parse_request_text in
      \<open>auto simp: does_def py_simps storable_def as_text_def split: option.splits\<close>)

lemma save_tracks:
  assumes m: "imirrors R ids V s" and q: "plain_run (ir_run_id q)" "storable q"
    and new: "mem_get_request s (ir_run_id q) (ir_interrupt_id q) = None \<Longrightarrow> ir_interrupt_id q \<notin> set (ids (ir_run_id q))"
  shows "itracks R view (redis_save_request R q) V (Inr ())
    (ids(ir_run_id q := (if ir_interrupt_id q \<in> set (ids (ir_run_id q)) then ids (ir_run_id q)
       else ids (ir_run_id q) @ [ir_interrupt_id q]))) (mem_save_request q s)"
proof -
  let ?r = "ir_run_id q" and ?i = "ir_interrupt_id q"
  let ?ik = "request_index_key R ?r" and ?V1 = "V(request_key R ?r ?i \<mapsto> RText (request_text q))"
  have ids: "as_list (?V1 ?ik) = Inr (ids ?r)" using imirrorsD(3) [OF m q(1)] q(1) by simp
  have push: "does view (perform (?i \<notin> set (ids ?r)) (rc_rpush (ri_client R) ?ik ?i)) ?V1 (Inr ())
      (?V1(?ik := (if ?i \<in> set (ids ?r) then V ?ik else Some (RList (ids ?r @ [?i])))))"
    using rpush [where V = ?V1 and k = ?ik, OF ids] q(1)
    by (intro does_perform) (auto simp: fun_upd_idem_iff)
  show ?thesis
    unfolding redis_save_request_def Let_def sq_def
    by (rule itracks_bnd [OF set], rule itracks_bnd [OF lrange_list [where V = ?V1 and k = ?ik, OF ids]],
        rule itracksI [OF push], rule imirrors_save [OF plain_prefix(1) m q new refl])
      (use imirrorsD(3) [OF m q(1)] in \<open>simp_all add: as_list_def\<close>)
qed

lemma delete_request_tracks:
  assumes m: "imirrors R ids V s" and r: "plain_run r"
  shows "itracks R view (redis_delete_request R r i) V (Inr ()) (ids(r := filter (\<lambda>k. k \<noteq> i) (ids r)))
    (mem_delete_request r i s)"
proof -
  let ?V1 = "V(request_key R r i := None)"
  have ids: "as_list (?V1 (request_index_key R r)) = Inr (ids r)" using imirrorsD(3) [OF m r] r by simp
  show ?thesis
    unfolding redis_delete_request_def sq_def
    by (rule itracks_bnd [OF delete], rule itracks_bnd [OF lrange_list [where V = ?V1, OF ids]],
        rule itracksI [OF rewrite_ids_does], rule imirrors_delete [OF plain_prefix(1) m r]) (simp add: as_list_def)
qed

lemma map_filter_keys:
  "distinct (map fst d) \<Longrightarrow> List.map_filter (\<lambda>i. map_option (Pair i) (map_of d i)) (map fst d) = d"
proof -
  assume "distinct (map fst d)"
  then have "\<forall>p \<in> set d. map_of d (fst p) = Some (snd p)" by simp
  then have "List.map_filter (\<lambda>i. map_option (Pair i) (map_of d i)) (map fst e) = e" if "set e \<subseteq> set d" for e
    using that by (induction e) (auto simp: map_filter_simps)
  then show ?thesis by blast
qed

lemma load_requests_does:
  assumes m: "imirrors R ids V s" and r: "plain_run r"
  shows "does view (load_requests R now r is) V
    (Inr (List.map_filter (\<lambda>i. map_option (Pair i) (mem_get_request s r i)) is)) V"
proof (induction "is")
  case Nil
  show ?case by (simp add: does_ret map_filter_simps)
next
  case (Cons i "is")
  show ?case
    unfolding load_requests.simps
    by (rule does_bnd [OF get_request_does [OF m r]], rule does_bnd [OF Cons.IH])
      (simp add: map_filter_simps does_def py_simps split: option.splits)
qed

lemma list_requests_tracks:
  assumes m: "imirrors R ids V s" and inv: "mem_interrupts_inv s" and r: "plain_run r"
  shows "itracks R view (redis_list_requests R now r) V (Inr (fst (mem_list_requests r s)))
    (ids(r := map fst (dget_or (mi_requests s) r []))) s"
proof -
  let ?d = "dget_or (mi_requests s) r []" and ?ik = "request_index_key R r"
  let ?g = "\<lambda>i. map_option (Pair i) (mem_get_request s r i)"
  have skip: "List.map_filter ?g xs = List.map_filter ?g (filter (\<lambda>i. mem_get_request s r i \<noteq> None) xs)" for xs
    by (induction xs) (auto simp: map_filter_simps)
  have "List.map_filter ?g (ids r) = List.map_filter ?g (map fst ?d)"
    by (rule trans [OF skip]) (simp only: imirrorsD(4) [OF m r])
  also have "\<dots> = ?d"
    unfolding mem_get_request_def using mem_interrupts_invD(1) [OF inv] by (rule map_filter_keys)
  finally have found: "does view (load_requests R now r (ids r)) V (Inr ?d) V"
    using load_requests_does [OF m r, of now "ids r"] by simp
  have keep: "imirrors R (ids(r := map fst ?d)) (V(?ik := v)) s" if "as_list v = Inr (map fst ?d)" for v
    by (rule imirrors_index [OF plain_prefix(1) m r that])
      (auto simp: filter_id_conv mem_get_None_iff simp flip: not_None_eq)
  have "itracks R view (sq (perform (map fst ?d \<noteq> ids r) (rewrite_ids R ?ik (map fst ?d))) (ret (map snd ?d))) V
      (Inr (map snd ?d)) (ids(r := map fst ?d)) s"
  proof (cases "map fst ?d = ids r")
    case True
    with m show ?thesis by (auto simp: perform_def sq_def itracks_def does_def py_simps)
  next
    case False
    have rw: "itracks R view (rewrite_ids R ?ik (map fst ?d)) V (Inr ()) (ids(r := map fst ?d)) s"
      by (rule itracksI [OF rewrite_ids_does keep]) (simp add: as_list_def)
    show ?thesis
      unfolding perform_def sq_def if_P [OF False] by (rule itracks_then [OF rw]) (rule itracks_ret)
  qed
  then show ?thesis
    unfolding redis_list_requests_def mem_list_requests_def dvalues_def fst_conv
    by (intro itracks_bnd [OF ids_does [OF m r]] itracks_bnd [OF found])
qed

lemma sweep_keys_does:
  "\<forall>k \<in> set ks. holds_request (V k) \<Longrightarrow>
   \<exists>n. does view (sweep_keys R now ks) V (Inr n) (\<lambda>k. if k \<in> set ks \<and> sweeps now (V k) then None else V k)"
proof (induction ks arbitrary: V)
  case Nil
  show ?case by (auto simp: does_def py_simps)
next
  case (Cons k ks)
  have step: "\<exists>n. does view (sweep_keys R now (k # ks)) V (Inr n) V2"
    if g: "does view (rc_get (ri_client R) k) V (Inr p) V"
      and h: "does view (case p of None \<Rightarrow> ret 0
          | Some t \<Rightarrow> bnd (lift_res (loads t)) (\<lambda>data. bnd (lift_res (overdue now data)) (\<lambda>b.
              if b then sq (rc_delete (ri_client R) k) (ret 1) else ret 0))) V (Inr m) V1"
      and r: "\<exists>n. does view (sweep_keys R now ks) V1 (Inr n) V2" for p V1 V2 and m :: nat
  proof -
    from r obtain n where n: "does view (sweep_keys R now ks) V1 (Inr n) V2" by blast
    have "does view (sweep_keys R now (k # ks)) V (Inr (m + n)) V2"
      unfolding sweep_keys.simps
      by (rule does_bnd [OF g], rule does_bnd [OF h], rule does_bnd [OF n], rule does_ret)
    then show ?thesis by blast
  qed
  show ?case
  proof (cases "V k")
    case None
    have "does view (rc_get (ri_client R) k) V (Inr None) V" using None by (intro get_text) (simp add: as_text_def)
    moreover have "\<exists>n. does view (sweep_keys R now ks) V (Inr n)
        (\<lambda>j. if j \<in> set ks \<and> sweeps now (V j) then None else V j)" using Cons by simp
    moreover have "(\<lambda>j. if j \<in> set ks \<and> sweeps now (V j) then None else V j) =
        (\<lambda>j. if j \<in> set (k # ks) \<and> sweeps now (V j) then None else V j)"
      using None by (auto simp: fun_eq_iff sweeps_def)
    ultimately show ?thesis by (intro step) (auto intro: does_ret)
  next
    case (Some v)
    then obtain q where q: "V k = Some (RText (request_text q))" "storable q"
      using Cons.prems by (auto simp: holds_request_def)
    let ?V1 = "if swept now q then V(k := None) else V"
    have g: "does view (rc_get (ri_client R) k) V (Inr (Some (request_text q))) V"
      using q by (intro get_text) (simp add: as_text_def)
    have h: "does view (bnd (lift_res (loads (request_text q))) (\<lambda>data. bnd (lift_res (overdue now data)) (\<lambda>b.
              if b then sq (rc_delete (ri_client R) k) (ret 1) else ret 0))) V
        (Inr (if swept now q then 1 else 0)) ?V1"
      using overdue_request [OF q(2), of now] does_sq [OF delete [of k V] does_ret]
      by (auto intro!: does_bnd [OF does_lift_Inr] does_ret)
    have "\<forall>j \<in> set ks. holds_request (?V1 j)" using Cons.prems by (simp add: holds_request_def)
    then have rest: "\<exists>n. does view (sweep_keys R now ks) ?V1 (Inr n)
        (\<lambda>j. if j \<in> set ks \<and> sweeps now (?V1 j) then None else ?V1 j)" by (rule Cons.IH)
    have all: "(\<lambda>j. if j \<in> set ks \<and> sweeps now (?V1 j) then None else ?V1 j) =
        (\<lambda>j. if j \<in> set (k # ks) \<and> sweeps now (V j) then None else V j)"
      using q sweeps_text [OF q(2), of now] by (auto simp: fun_eq_iff)
    show ?thesis by (rule step [OF g _ rest [unfolded all]]) (use h in simp)
  qed
qed

lemma imirrors_sweep:
  assumes m: "imirrors R ids V s" and inv: "mem_interrupts_inv s"
  shows "imirrors R ids (\<lambda>k. if (V k \<noteq> None \<and> glob (sweep_pattern R) k) \<and> sweeps now (V k) then None else V k)
    (snd (mem_sweep_expired now s))"
proof (rule imirrorsI)
  note d = imirrorsD(7) [OF m]
  let ?s = "snd (mem_sweep_expired now s)"
  show "(if (V (request_key R r i) \<noteq> None \<and> glob (sweep_pattern R) (request_key R r i)) \<and>
        sweeps now (V (request_key R r i)) then None else V (request_key R r i)) =
      map_option (RText \<circ> request_text) (mem_get_request ?s r i)" if "plain_run r" for r i
    using imirrorsD(2) [OF m that, of i] imirrorsD(5) [OF m, of r i]
    by (auto simp: swept_request [OF d inv] request_key_swept sweeps_text split: option.splits)
  show "filter (\<lambda>i. mem_get_request ?s r i \<noteq> None) (ids r) = map fst (dget_or (mi_requests ?s) r [])"
    if r: "plain_run r" for r
  proof -
    let ?kvs = "dget_or (mi_requests s) r []"
    have member: "mem_get_request s r i = Some q" if "(i, q) \<in> set ?kvs" for i q
      using that mem_interrupts_invD(1) [OF inv, of r] by (simp add: mem_get_request_def)
    have "filter (\<lambda>i. mem_get_request ?s r i \<noteq> None) (ids r) =
        filter (\<lambda>i. mem_get_request ?s r i \<noteq> None) (filter (\<lambda>i. mem_get_request s r i \<noteq> None) (ids r))"
      unfolding filter_filter by (rule filter_cong) (auto simp: swept_request [OF d inv] split: option.splits)
    also have "\<dots> = filter (\<lambda>i. mem_get_request ?s r i \<noteq> None) (map fst ?kvs)"
      by (simp only: imirrorsD(4) [OF m r])
    also have "\<dots> = map fst (filter (\<lambda>(_, q). \<not> swept now q) ?kvs)"
      unfolding filter_map
      by (intro arg_cong [where f = "map fst"] filter_cong) (auto simp: swept_request [OF d inv] dest: member)
    finally show ?thesis by (simp add: swept_get [OF d])
  qed
  show "storable q" if "mem_get_request ?s r i = Some q" for r i q
    using that imirrorsD(5) [OF m, of r i] by (auto simp: swept_request [OF d inv] split: option.splits if_splits)
  show "distinct (map fst (mi_requests ?s))" by (rule swept_inv(2) [OF d inv])
qed (use imirrorsD(1,3,6) [OF m] unswept_keys [OF plain_prefix(1)] imirrorsD(7) [OF m] inv in
    \<open>auto simp: swept_inv(3) split: if_splits\<close>)

lemma sweep_does:
  assumes m: "imirrors R ids (view d) s" and inv: "mem_interrupts_inv s"
  shows "\<exists>n d'. redis_sweep_expired R now d = (Inr n, d') \<and>
    imirrors R ids (view d') (snd (mem_sweep_expired now s))"
proof -
  have "plain_glob (sweep_pattern R)" using plain_prefix(2) by (simp add: plain_glob_def sweep_pattern_def)
  then obtain pages d1 where scan: "rc_scan (ri_client R) (sweep_pattern R) d = (Inr pages, d1)"
    and d1: "view d1 = view d"
    and pages: "set (concat pages) = {k. view d k \<noteq> None \<and> glob (sweep_pattern R) k}"
    using scan [OF refl] by blast
  have "holds_request (view d k)" if k: "view d k \<noteq> None" "glob (sweep_pattern R) k" for k
  proof -
    from imirrorsD(6) [OF m k] obtain r i where "plain_run r" "k = request_key R r i" by blast
    with k(1) imirrorsD(2) [OF m, of r i] imirrorsD(5) [OF m, of r i] show ?thesis
      by (auto simp: holds_request_def)
  qed
  then have "\<forall>k \<in> set (concat pages). holds_request (view d k)" unfolding pages by blast
  from sweep_keys_does [OF this, of now] obtain n where
    "does view (sweep_keys R now (concat pages)) (view d) (Inr n)
      (\<lambda>k. if k \<in> set (concat pages) \<and> sweeps now (view d k) then None else view d k)" by blast
  then obtain d' where "sweep_keys R now (concat pages) d1 = (Inr n, d')"
    and v: "view d' = (\<lambda>k. if k \<in> set (concat pages) \<and> sweeps now (view d k) then None else view d k)"
    using d1 by (rule doesE)
  then have "redis_sweep_expired R now d = (Inr n, d')"
    using scan by (simp add: redis_sweep_expired_def py_simps)
  moreover have "imirrors R ids (view d') (snd (mem_sweep_expired now s))"
    unfolding v pages mem_Collect_eq by (rule imirrors_sweep [OF m inv])
  ultimately show ?thesis by blast
qed

end

end
