(* ===== verification/Redis_Requests.thy ===== *)
theory Redis_Requests
  imports Redis_Interrupts
begin

section \<open>The Redis interrupt store refines the in-memory one\<close>

text \<open>
  The operations of the abstract class \<open>InterruptStore\<close> as data, what each does in memory and on Redis, and
  the simulation: the same sequence of operations has the same answers on both (the number a sweep reports
  is left out). \<open>ids_after\<close> follows the id lists the server keeps, in which the ids of swept requests stay
  until the run's requests are listed.
\<close>

datatype request_call =
    QGetEpoch string
  | QSetEpoch string int
  | QSave interrupt_request
  | QGet string string
  | QList string
  | QDelete string string
  | QSweep int

datatype request_answer =
  RDone | REpoch int | RRequest "interrupt_request option" | RRequests "interrupt_request list"

fun mem_request_call :: "request_call \<Rightarrow> (mem_interrupts, request_answer) py" where
  "mem_request_call (QGetEpoch r) s = (Inr (REpoch (mem_get_epoch s r)), s)"
| "mem_request_call (QSetEpoch r e) s = (Inr RDone, mem_set_epoch r e s)"
| "mem_request_call (QSave q) s = (Inr RDone, mem_save_request q s)"
| "mem_request_call (QGet r i) s = (Inr (RRequest (mem_get_request s r i)), s)"
| "mem_request_call (QList r) s = (case mem_list_requests r s of (qs, s') \<Rightarrow> (Inr (RRequests qs), s'))"
| "mem_request_call (QDelete r i) s = (Inr RDone, mem_delete_request r i s)"
| "mem_request_call (QSweep now) s = (Inr RDone, snd (mem_sweep_expired now s))"

definition reply :: "('a \<Rightarrow> request_answer) \<Rightarrow> ('d, 'a) py \<Rightarrow> ('d, request_answer) py" where
  "reply f m = bnd m (\<lambda>x. ret (f x))"

fun redis_request_call :: "'d redis_interrupts \<Rightarrow> int \<Rightarrow> request_call \<Rightarrow> ('d, request_answer) py" where
  "redis_request_call R now (QGetEpoch r) = reply REpoch (redis_get_epoch R r)"
| "redis_request_call R now (QSetEpoch r e) = reply (\<lambda>_. RDone) (redis_set_epoch R r e)"
| "redis_request_call R now (QSave q) = reply (\<lambda>_. RDone) (redis_save_request R q)"
| "redis_request_call R now (QGet r i) = reply RRequest (redis_get_request R now r i)"
| "redis_request_call R now (QList r) = reply RRequests (redis_list_requests R now r)"
| "redis_request_call R now (QDelete r i) = reply (\<lambda>_. RDone) (redis_delete_request R r i)"
| "redis_request_call R now (QSweep t) = reply (\<lambda>_. RDone) (redis_sweep_expired R t)"

fun ids_after :: "request_call \<Rightarrow> mem_interrupts \<Rightarrow> (string \<Rightarrow> string list) \<Rightarrow> string \<Rightarrow> string list" where
  "ids_after (QSave q) s ids =
     ids(ir_run_id q := (if ir_interrupt_id q \<in> set (ids (ir_run_id q)) then ids (ir_run_id q)
       else ids (ir_run_id q) @ [ir_interrupt_id q]))"
| "ids_after (QList r) s ids = ids(r := map fst (dget_or (mi_requests s) r []))"
| "ids_after (QDelete r i) s ids = ids(r := filter (\<lambda>k. k \<noteq> i) (ids r))"
| "ids_after _ s ids = ids"

text \<open>Run ids have no colon, contexts are dictionaries, and an id that was swept is not saved again.\<close>

fun request_call_ok :: "request_call \<Rightarrow> mem_interrupts \<Rightarrow> (string \<Rightarrow> string list) \<Rightarrow> bool" where
  "request_call_ok (QGetEpoch r) s ids \<longleftrightarrow> plain_run r"
| "request_call_ok (QSetEpoch r e) s ids \<longleftrightarrow> plain_run r"
| "request_call_ok (QSave q) s ids \<longleftrightarrow> plain_run (ir_run_id q) \<and> storable q \<and>
     (mem_get_request s (ir_run_id q) (ir_interrupt_id q) = None \<longrightarrow> ir_interrupt_id q \<notin> set (ids (ir_run_id q)))"
| "request_call_ok (QGet r i) s ids \<longleftrightarrow> plain_run r"
| "request_call_ok (QList r) s ids \<longleftrightarrow> plain_run r"
| "request_call_ok (QDelete r i) s ids \<longleftrightarrow> plain_run r"
| "request_call_ok (QSweep now) s ids \<longleftrightarrow> True"

fun request_calls_ok :: "request_call list \<Rightarrow> mem_interrupts \<Rightarrow> (string \<Rightarrow> string list) \<Rightarrow> bool" where
  "request_calls_ok [] s ids \<longleftrightarrow> True"
| "request_calls_ok (q # qs) s ids \<longleftrightarrow> request_call_ok q s ids \<and>
     request_calls_ok qs (snd (mem_request_call q s)) (ids_after q s ids)"

lemma mem_request_call_inv:
  assumes "mem_interrupts_inv s" and "distinct (map fst (mi_requests s))"
  shows "mem_interrupts_inv (snd (mem_request_call q s))"
  using assms by (cases q) (simp_all add: mem_save_inv mem_delete_inv swept_inv mem_list_requests_def)

lemma reply_tracks: "itracks R view m V (Inr x) ids s \<Longrightarrow> itracks R view (reply f m) V (Inr (f x)) ids s"
  unfolding reply_def by (rule itracks_then) (auto intro: itracks_ret)

lemma reply_does: "does view m V (Inr x) V \<Longrightarrow> imirrors R ids V s \<Longrightarrow> itracks R view (reply f m) V (Inr (f x)) ids s"
  by (intro reply_tracks itracksI)

context redis_requests
begin

lemma request_call_runs:
  assumes m: "imirrors R ids (view d) s" and inv: "mem_interrupts_inv s" and ok: "request_call_ok q s ids"
  shows "\<exists>d'. redis_request_call R now q d = (fst (mem_request_call q s), d') \<and>
    imirrors R (ids_after q s ids) (view d') (snd (mem_request_call q s))"
proof -
  have tracked: "\<exists>d'. f d = (r, d') \<and> imirrors R ids' (view d') s'" if "itracks R view f (view d) r ids' s'"
    for f :: "('d, request_answer) py" and r ids' s'
    using that by (auto simp: itracks_def does_def)
  show ?thesis
  proof (cases q)
    case (QSweep t)
    then show ?thesis using sweep_does [OF m inv, of t] by (auto simp: reply_def py_simps)
  next
    case (QList r)
    with ok have "itracks R view (redis_request_call R now q) (view d) (fst (mem_request_call q s)) (ids_after q s ids)
        (snd (mem_request_call q s))"
      using reply_tracks [OF list_requests_tracks [OF m inv, of r now], of RRequests] by (simp add: mem_list_requests_def)
    then show ?thesis by (rule tracked)
  next
    case (QSave x)
    with ok have "plain_run (ir_run_id x)" "storable x"
      "mem_get_request s (ir_run_id x) (ir_interrupt_id x) = None \<Longrightarrow> ir_interrupt_id x \<notin> set (ids (ir_run_id x))"
      by simp_all
    from reply_tracks [OF save_tracks [OF m this], of "\<lambda>_. RDone"] QSave show ?thesis
      by (intro tracked) (simp only: redis_request_call.simps mem_request_call.simps ids_after.simps fst_conv snd_conv)
  qed (use ok in \<open>auto intro!: tracked
      intro: reply_does [OF get_epoch_does [OF m] m] reply_does [OF get_request_does [OF m] m]
        reply_tracks [OF set_epoch_tracks [OF m], where f = "\<lambda>_. RDone"]
        reply_tracks [OF delete_request_tracks [OF m], where f = "\<lambda>_. RDone"]\<close>)
qed

lemma request_calls_agree:
  "\<lbrakk>imirrors R ids (view d) s; mem_interrupts_inv s; request_calls_ok qs s ids\<rbrakk> \<Longrightarrow>
   \<exists>ids' d'. call_all (redis_request_call R now) qs d = (fst (call_all mem_request_call qs s), d') \<and>
     imirrors R ids' (view d') (snd (call_all mem_request_call qs s))"
proof (induction qs arbitrary: d s ids)
  case Nil
  then show ?case by auto
next
  case (Cons q qs)
  obtain d1 where d1: "redis_request_call R now q d = (fst (mem_request_call q s), d1)"
    "imirrors R (ids_after q s ids) (view d1) (snd (mem_request_call q s))"
    using request_call_runs [OF Cons.prems(1,2), of q] Cons.prems(3) by auto
  have inv: "mem_interrupts_inv (snd (mem_request_call q s))"
    using Cons.prems(1,2) imirrorsD(7) by (blast intro: mem_request_call_inv)
  from Cons.IH [OF d1(2) inv] Cons.prems(3) d1(1) show ?case by (auto simp: split_beta)
qed

end

definition table_requests :: "table redis_interrupts" where
  "table_requests = \<lparr>ri_client = table_client, ri_prefix = ''governai:interrupt''\<rparr>"

interpretation table_requests: redis_requests table_requests map_of
proof (intro redis_requests.intro redis_requests_axioms.intro)
  show "redis_server (ri_client table_requests) map_of" by (simp add: table_requests_def table.redis_server_axioms)
qed (auto simp: table_requests_def plain_glob_def)


definition sample_request :: "string \<Rightarrow> int \<Rightarrow> interrupt_request" where
  "sample_request i expires =
     \<lparr>ir_interrupt_id = i, ir_run_id = ''r1'', ir_step_name = ''a'', ir_message = ''Why? '' @ [CHR 0x22, CHR 0x0A],
      ir_context = [(''k'', JList [JInt (-3), JNull])], ir_epoch = 2, ir_created_at = 5, ir_expires_at = expires,
      ir_status = ''pending''\<rparr>"


end
