(* ===== verification/Redis_Audit.thy ===== *)
theory Redis_Audit
  imports Redis Run_State_Text
begin

section \<open>The Redis audit emitter (\<open>governai/audit/redis.py\<close>)\<close>

text \<open>
  Events are pushed, as text, on a list per run and read back from it. Pydantic's dump and parse of an event,
  the client, the key prefix and the time to live are the emitter's parameters. The lemma: what is read
  back of a run is exactly what was emitted for it, in order.
\<close>

record 'd redis_audit =
  ra_client :: "'d redis_client"
  ra_prefix :: string
  ra_ttl :: "int option"
  ra_dump :: "audit_event \<Rightarrow> string"
  ra_load :: "string \<Rightarrow> exn + audit_event"

definition audit_run_key :: "'d redis_audit \<Rightarrow> string \<Rightarrow> string" where
  "audit_run_key R run_id = ra_prefix R @ '':run:'' @ run_id"

definition redis_emit :: "'d redis_audit \<Rightarrow> audit_event \<Rightarrow> ('d, unit) py" where
  "redis_emit R event =
     (let key = audit_run_key R (ev_run_id event) in
      sq (rc_rpush (ra_client R) key (ra_dump R event))
         (case ra_ttl R of None \<Rightarrow> ret () | Some ttl \<Rightarrow> rc_expire (ra_client R) key ttl))"

fun parse_events :: "'d redis_audit \<Rightarrow> string list \<Rightarrow> ('d, audit_event list) py" where
  "parse_events R [] = ret []"
| "parse_events R (p # ps) =
     bnd (lift_res (ra_load R p)) (\<lambda>e. bnd (parse_events R ps) (\<lambda>es. ret (e # es)))"

definition events_for_run :: "'d redis_audit \<Rightarrow> string \<Rightarrow> ('d, audit_event list) py" where
  "events_for_run R run_id = bnd (rc_lrange (ra_client R) (audit_run_key R run_id)) (parse_events R)"

text \<open>The key space holds, under each run's key, the texts of the events of that run.\<close>

definition logs :: "'d redis_audit \<Rightarrow> keyspace \<Rightarrow> audit_event list \<Rightarrow> bool" where
  "logs R V evs \<longleftrightarrow>
     (\<forall>r. as_list (V (audit_run_key R r)) = Inr (map (ra_dump R) (filter (\<lambda>e. ev_run_id e = r) evs)))"

lemma logs_empty: "logs R (\<lambda>_. None) []"
  by (simp add: logs_def as_list_def)

locale redis_events = redis_server "ra_client R" view for R :: "'d redis_audit" and view +
  assumes load_event: "ra_load R (ra_dump R e) = Inr e"
    and no_event_ttl: "ra_ttl R = None"
begin

lemma emit_does:
  assumes l: "logs R V evs"
  shows "\<exists>V'. does view (redis_emit R e) V (Inr ()) V' \<and> logs R V' (evs @ [e])"
proof -
  let ?k = "audit_run_key R (ev_run_id e)" and ?xs = "map (ra_dump R) (filter (\<lambda>x. ev_run_id x = ev_run_id e) evs)"
  have ids: "as_list (V ?k) = Inr ?xs" using l by (simp add: logs_def)
  have "does view (redis_emit R e) V (Inr ()) (V(?k \<mapsto> RList (?xs @ [ra_dump R e])))"
    unfolding redis_emit_def Let_def no_event_ttl option.case
    by (rule does_sq [OF rpush [where V = V and k = ?k, OF ids] does_ret])
  moreover have "logs R (V(?k \<mapsto> RList (?xs @ [ra_dump R e]))) (evs @ [e])"
    using l by (auto simp: logs_def audit_run_key_def as_list_def)
  ultimately show ?thesis by blast
qed

lemma parse_events_does: "does view (parse_events R (map (ra_dump R) evs)) V (Inr evs) V"
proof (induction evs)
  case Nil
  show ?case by (simp add: does_ret)
next
  case (Cons e evs)
  have "does view (parse_events R (ra_dump R e # map (ra_dump R) evs)) V (Inr (e # evs)) V"
    unfolding parse_events.simps
    by (rule does_bnd [OF does_lift_Inr [OF load_event]], rule does_bnd [OF Cons.IH], rule does_ret)
  then show ?case by simp
qed

lemma events_does:
  assumes l: "logs R V evs"
  shows "does view (events_for_run R r) V (Inr (filter (\<lambda>e. ev_run_id e = r) evs)) V"
proof -
  have ids: "as_list (V (audit_run_key R r)) = Inr (map (ra_dump R) (filter (\<lambda>e. ev_run_id e = r) evs))"
    using l by (simp add: logs_def)
  show ?thesis
    unfolding events_for_run_def
    by (rule does_bnd [OF lrange_list [where V = V, OF ids]], rule parse_events_does)
qed

lemma emitted_read_back:
  "logs R (view d) old \<Longrightarrow>
   \<exists>d'. each (redis_emit R) evs d = (Inr (), d') \<and> logs R (view d') (old @ evs)"
proof (induction evs arbitrary: d old)
  case Nil
  then show ?case by (simp add: py_simps)
next
  case (Cons e evs)
  obtain V' where "does view (redis_emit R e) (view d) (Inr ()) V'" "logs R V' (old @ [e])"
    using emit_does [OF Cons.prems, of e] by blast
  then obtain d1 where "redis_emit R e d = (Inr (), d1)" "logs R (view d1) (old @ [e])"
    by (metis doesE)
  with Cons.IH [of d1 "old @ [e]"] show ?case by (simp add: py_simps)
qed

end

subsection \<open>A concrete text for events\<close>

definition event_types :: "event_type list" where
  "event_types =
     [RUN_STARTED, CHECKPOINT_WRITTEN, CHECKPOINT_RESTORED, STEP_ENTERED, POLICY_CHECKED, POLICY_DENIED,
      APPROVAL_REQUESTED, APPROVAL_GRANTED, APPROVAL_REJECTED, INTERRUPT_REQUESTED, INTERRUPT_RESOLVED,
      INTERRUPT_EXPIRED, INTERRUPT_REJECTED_EPOCH, TOOL_EXECUTION_STARTED, TOOL_EXECUTION_COMPLETED,
      TOOL_EXECUTION_FAILED, AGENT_ENTERED, AGENT_COMPLETED, AGENT_FAILED, AGENT_HANDOFF_PROPOSED,
      AGENT_HANDOFF_ACCEPTED, AGENT_HANDOFF_REJECTED, AGENT_TOOL_CALL_STARTED, AGENT_TOOL_CALL_COMPLETED,
      AGENT_TOOL_CALL_FAILED, TRANSITION_CHOSEN, RUN_COMPLETED, RUN_FAILED, THREAD_CREATED, THREAD_ACTIVE,
      THREAD_INTERRUPTED, THREAD_IDLE, THREAD_ARCHIVED, CAPABILITY_DENIED, MEMORY_READ, MEMORY_WRITE,
      MEMORY_DELETE, MEMORY_SEARCH]"

definition event_index :: "event_type \<Rightarrow> int" where
  "event_index t = int (length (takeWhile (\<lambda>u. u \<noteq> t) event_types))"

lemma event_of_index [simp]: "event_types ! nat (event_index t) = t"
  by (cases t) (simp_all add: event_index_def event_types_def)

definition enc_event :: "audit_event \<Rightarrow> json" where
  "enc_event e = JList
     [JStr (ev_event_id e), JInt (ev_timestamp e), JStr (ev_run_id e), opt_json (ev_thread_id e),
      JStr (ev_workflow_name e), opt_json (ev_step_name e), JInt (event_index (ev_event_type e)),
      enc (JObj (ev_payload e)),
      JList (map (\<lambda>x. JList [JStr (ax_type_key x), enc (JObj (ax_data x))]) (ev_extensions e))]"

definition dec_event :: "json \<Rightarrow> audit_event" where
  "dec_event j =
     (let xs = items_of j in
      \<lparr>ev_event_id = text_of (xs ! 0), ev_timestamp = int_of_json (xs ! 1), ev_run_id = text_of (xs ! 2),
       ev_thread_id = opt_text_of (xs ! 3), ev_workflow_name = text_of (xs ! 4), ev_step_name = opt_text_of (xs ! 5),
       ev_event_type = event_types ! nat (int_of_json (xs ! 6)), ev_payload = dict_of (dec (xs ! 7)),
       ev_extensions = map (\<lambda>p. \<lparr>ax_type_key = pair_key p, ax_data = dict_of (dec (pair_value p))\<rparr>)
         (items_of (xs ! 8))\<rparr>)"

lemma extension_eta [simp]: "\<lparr>ax_type_key = ax_type_key x, ax_data = ax_data x\<rparr> = x"
  by (cases x) simp

lemma dec_event_enc [simp]: "dec_event (enc_event e) = e"
  by (simp add: dec_event_def enc_event_def Let_def comp_def del: enc.simps)

lemma json_ok_event: "json_ok (enc_event e)"
  by (auto simp: enc_event_def simp del: enc.simps)

definition event_text :: "audit_event \<Rightarrow> string" where
  "event_text e = json_dumps (enc_event e)"

definition parse_event_text :: "string \<Rightarrow> exn + audit_event" where
  "parse_event_text t =
     (case json_loads t of
        None \<Rightarrow> Inl (Exn ValidationError ''Invalid JSON'') | Some j \<Rightarrow> Inr (dec_event j))"

definition table_audit :: "table redis_audit" where
  "table_audit =
     \<lparr>ra_client = table_client, ra_prefix = ''governai:audit'', ra_ttl = None, ra_dump = event_text,
      ra_load = parse_event_text\<rparr>"

interpretation table_audit: redis_events table_audit map_of
proof (intro redis_events.intro redis_events_axioms.intro)
  show "redis_server (ra_client table_audit) map_of" by (simp add: table_audit_def table.redis_server_axioms)
qed (simp_all add: table_audit_def event_text_def parse_event_text_def json_loads_dumps json_ok_event)

text \<open>C29: the Redis audit log is faithful: after any events have been emitted, for whatever runs and in whatever
  order, reading the events of a run gives those that were there and those emitted for it, in order and
  unchanged.\<close>

theorem redis_events_read_back:
  assumes server: "redis_events R view" and start: "logs R (view d) old"
  shows "\<exists>d' d''. each (redis_emit R) evs d = (Inr (), d') \<and>
    events_for_run R r d' = (Inr (filter (\<lambda>e. ev_run_id e = r) (old @ evs)), d'')"
proof -
  obtain d' where d': "each (redis_emit R) evs d = (Inr (), d')" "logs R (view d') (old @ evs)"
    using redis_events.emitted_read_back [OF server start] by blast
  obtain d'' where "events_for_run R r d' = (Inr (filter (\<lambda>e. ev_run_id e = r) (old @ evs)), d'')"
    using redis_events.events_does [OF server d'(2), of r] by (metis doesE)
  with d' show ?thesis by blast
qed

definition sample_event :: "string \<Rightarrow> event_type \<Rightarrow> audit_event" where
  "sample_event r t =
     \<lparr>ev_event_id = ''e'' @ r, ev_timestamp = 7, ev_run_id = r, ev_thread_id = None, ev_workflow_name = ''wf'',
      ev_step_name = None, ev_event_type = t, ev_payload = [(''k'', JInt 1)], ev_extensions = []\<rparr>"

theorem redis_events_read_back_witness:
  "\<exists>d' d''. each (redis_emit table_audit)
      [sample_event ''a'' RUN_STARTED, sample_event ''b'' RUN_STARTED, sample_event ''a'' RUN_COMPLETED] [] =
      (Inr (), d') \<and>
    events_for_run table_audit ''a'' d' =
      (Inr [sample_event ''a'' RUN_STARTED, sample_event ''a'' RUN_COMPLETED], d'')"
proof -
  have empty: "map_of ([] :: table) = (\<lambda>_. None)" by (simp add: fun_eq_iff)
  have "logs table_audit (map_of []) []" unfolding empty by (rule logs_empty)
  from redis_events_read_back [OF table_audit.redis_events_axioms this,
      of "[sample_event ''a'' RUN_STARTED, sample_event ''b'' RUN_STARTED, sample_event ''a'' RUN_COMPLETED]" "''a''"]
  show ?thesis by (simp add: sample_event_def)
qed

end
