(* ===== verification/Flow_Spec.thy ===== *)
theory Flow_Spec
  imports Queries
begin

section \<open>Declarative flows (\<open>governai/app/spec.py\<close>, \<open>flow.py\<close>)\<close>

text \<open>
  \<open>GovernedFlowSpec\<close> describes a flow; \<open>governed_flow\<close> compiles it: a \<open>Workflow\<close> subclass is created
  from the attributes it collects, with the checks of the metaclass, a runtime is configured from the
  channels and the interrupt contract, and the policies are registered for the workflow. The keyword
  arguments are the record \<open>flow_options\<close>; a runtime that is handed in is its configuration.

  A step becomes a class attribute under its name, so it must not be called like one of the attributes
  of \<open>Workflow\<close> (\<open>workflow_attributes\<close>): the class would lose its method.
\<close>

subsection \<open>Specifications\<close>

record transition_spec =
  ts_kind :: string
  ts_next_step :: "string option"
  ts_router :: "string option"
  ts_mapping :: "string dict option"
  ts_allowed :: "string list option"

record governed_step_spec =
  gs_name :: string
  gs_version :: string
  gs_tool :: "tool option"
  gs_agent :: "agent option"
  gs_required_artifacts :: "string list"
  gs_emitted_artifact :: "string option"
  gs_approval_override :: "bool option"
  gs_transition :: "transition_spec option"

record interrupt_contract =
  ic_ttl_seconds :: int
  ic_max_pending :: int

record channel_spec =
  ch_name :: string
  ch_reducer :: string
  ch_initial :: json

text \<open>A policy function with its name.\<close>

type_synonym named_policy = "string \<times> policy"

record governed_flow_spec =
  sp_name :: string
  sp_steps :: "governed_step_spec list"
  sp_entry_step :: "string option"
  sp_policies :: "named_policy list"
  sp_skills :: "skill list"
  sp_channels :: "channel_spec list"
  sp_interrupts :: interrupt_contract

definition then_spec :: "string \<Rightarrow> transition_spec" where
  "then_spec next_step =
     \<lparr>ts_kind = ''then'', ts_next_step = Some next_step, ts_router = None, ts_mapping = None,
      ts_allowed = None\<rparr>"

definition end_spec :: transition_spec where
  "end_spec =
     \<lparr>ts_kind = ''end'', ts_next_step = None, ts_router = None, ts_mapping = None, ts_allowed = None\<rparr>"

definition branch_spec :: "string \<Rightarrow> string dict \<Rightarrow> transition_spec" where
  "branch_spec router mapping =
     \<lparr>ts_kind = ''branch'', ts_next_step = None, ts_router = Some router, ts_mapping = Some mapping,
      ts_allowed = None\<rparr>"

definition route_to_spec :: "string list \<Rightarrow> transition_spec" where
  "route_to_spec allowed =
     \<lparr>ts_kind = ''route_to'', ts_next_step = None, ts_router = None, ts_mapping = None,
      ts_allowed = Some allowed\<rparr>"

subsection \<open>Compilation\<close>

definition word_char :: "char \<Rightarrow> bool" where
  "word_char c \<longleftrightarrow>
     (let n = (of_char c :: nat)
      in 48 \<le> n \<and> n \<le> 57 \<or> 97 \<le> n \<and> n \<le> 122 \<or> 65 \<le> n \<and> n \<le> 90 \<or> n = 95)"

definition digit_first :: "string \<Rightarrow> bool" where
  "digit_first s = (case s of [] \<Rightarrow> False | c # _ \<Rightarrow> 48 \<le> (of_char c :: nat) \<and> (of_char c :: nat) \<le> 57)"

definition safe_class_name :: "string \<Rightarrow> string" where
  "safe_class_name name =
     (let cleaned = map (\<lambda>c. if word_char c then c else CHR ''_'') name;
          cleaned = (if cleaned = [] then ''GovernedFlow'' else cleaned)
      in if digit_first cleaned then ''Flow_'' @ cleaned else cleaned)"

definition apply_transition :: "transition_spec option \<Rightarrow> step \<Rightarrow> exn + step" where
  "apply_transition t s =
     (case t of
        None \<Rightarrow> Inr (then_end s)
      | Some t \<Rightarrow>
          if ts_kind t = ''then''
          then if absent (ts_next_step t)
               then Inl (Exn ValueError ''then transition requires next_step'')
               else Inr (then_step (the (ts_next_step t)) s)
          else if ts_kind t = ''end'' then Inr (then_end s)
          else if ts_kind t = ''branch''
          then if absent (ts_router t) \<or> ts_mapping t = None \<or> ts_mapping t = Some []
               then Inl (Exn ValueError ''branch transition requires router and mapping'')
               else Inr (branch (the (ts_router t)) (the (ts_mapping t)) s)
          else if ts_kind t = ''route_to''
          then if ts_allowed t = None \<or> ts_allowed t = Some []
               then Inl (Exn ValueError ''route_to transition requires allowed list'')
               else Inr (route_to (the (ts_allowed t)) s)
          else Inl (Exn ValueError (''Unsupported transition kind: '' @ ts_kind t)))"

definition compile_step :: "governed_step_spec \<Rightarrow> exn + step" where
  "compile_step p =
     (if (gs_tool p = None) = (gs_agent p = None)
      then Inl (Exn ValueError (''Step '' @ gs_name p @ '' must define exactly one of tool/agent''))
      else
        (case new_step (gs_name p) (gs_tool p) (gs_agent p) (gs_required_artifacts p)
                (gs_emitted_artifact p) (gs_approval_override p) of
           Inl e \<Rightarrow> Inl e
         | Inr s \<Rightarrow> apply_transition (gs_transition p) s))"

text \<open>The class body: the steps under their names, and \<open>entry_step\<close>.\<close>

datatype attr = StepAttr step | EntryAttr string

fun step_attrs :: "governed_step_spec list \<Rightarrow> attr dict \<Rightarrow> exn + attr dict" where
  "step_attrs [] attrs = Inr attrs"
| "step_attrs (p # ps) attrs =
     (case compile_step p of
        Inl e \<Rightarrow> Inl e
      | Inr s \<Rightarrow> step_attrs ps (dset (gs_name p) (StepAttr s) attrs))"

definition flow_attrs :: "governed_flow_spec \<Rightarrow> exn + attr dict" where
  "flow_attrs spec =
     map_sum id
       (\<lambda>attrs. case sp_entry_step spec of
                  None \<Rightarrow> attrs | Some e \<Rightarrow> dset ''entry_step'' (EntryAttr e) attrs)
       (step_attrs (sp_steps spec) [])"

fun attr_steps :: "attr list \<Rightarrow> step list" where
  "attr_steps [] = []"
| "attr_steps (StepAttr s # xs) = s # attr_steps xs"
| "attr_steps (EntryAttr _ # xs) = attr_steps xs"

text \<open>\<open>type(name, (Workflow,), attrs)\<close>. \<open>Workflow\<close> has no steps. A step called \<open>entry_step\<close> is itself
  taken for the name of the entry step.\<close>

definition class_of_attrs :: "string \<Rightarrow> attr dict \<Rightarrow> exn + workflow_class" where
  "class_of_attrs name attrs =
     (let declared = attr_steps (dvalues attrs)
      in case dget attrs ''entry_step'' of
           None \<Rightarrow> define_workflow name [] declared None
         | Some (EntryAttr e) \<Rightarrow> define_workflow name [] declared (Some e)
         | Some (StepAttr _) \<Rightarrow>
             (case define_workflow name [] declared None of
                Inl e \<Rightarrow> Inl e
              | Inr _ \<Rightarrow> Inl (Exn WorkflowDefinitionError
                  ''Entry step <governai.workflows.step.StepDefinition object> not found'')))"

definition flow_class :: "governed_flow_spec \<Rightarrow> exn + workflow_class" where
  "flow_class spec =
     (case flow_attrs spec of
        Inl e \<Rightarrow> Inl e
      | Inr attrs \<Rightarrow> class_of_attrs (safe_class_name (sp_name spec)) attrs)"

subsection \<open>The compiled flow\<close>

text \<open>\<open>fo_runtime\<close>: a runtime handed in; otherwise one is made from \<open>fo_base\<close> (the other arguments:
  policy engine, reducers, containment, adapter) and the specification. \<open>fo_manager_ttl\<close>: the default
  time to live of an interrupt manager handed in.\<close>

record flow_options =
  fo_runtime :: "config option"
  fo_base :: config
  fo_manager_ttl :: "int option"
  fo_tools :: tool_registry
  fo_agents :: agent_registry

record compiled_flow =
  gf_spec :: governed_flow_spec
  gf_workflow :: workflow
  gf_config :: config

definition channel_reducers :: "channel_spec list \<Rightarrow> channel_reducer dict" where
  "channel_reducers cs = fold (\<lambda>c. dset (ch_name c) (NamedReducer (ch_reducer c))) cs []"

definition channel_defaults :: "channel_spec list \<Rightarrow> json dict" where
  "channel_defaults cs = fold (\<lambda>c. dset (ch_name c) (ch_initial c)) cs []"

definition runtime_config :: "flow_options \<Rightarrow> governed_flow_spec \<Rightarrow> config" where
  "runtime_config opts spec =
     (case fo_runtime opts of
        Some c \<Rightarrow> c
      | None \<Rightarrow>
          init_config (ic_max_pending (sp_interrupts spec)) None
            ((fo_base opts)
               \<lparr>cfg_channel_reducers := channel_reducers (sp_channels spec),
                cfg_channel_defaults := channel_defaults (sp_channels spec),
                cfg_default_ttl :=
                  (case fo_manager_ttl opts of
                     None \<Rightarrow> ic_ttl_seconds (sp_interrupts spec) | Some ttl \<Rightarrow> ttl)\<rparr>))"

definition register_policies :: "string \<Rightarrow> named_policy list \<Rightarrow> config \<Rightarrow> config" where
  "register_policies workflow_name ps cfg =
     cfg\<lparr>cfg_policy_engine :=
           fold (\<lambda>(n, p). register_policy n p (Some workflow_name)) ps (cfg_policy_engine cfg)\<rparr>"

definition governed_flow :: "flow_options \<Rightarrow> governed_flow_spec \<Rightarrow> exn + compiled_flow" where
  "governed_flow opts spec =
     (case flow_class spec of
        Inl e \<Rightarrow> Inl e
      | Inr c \<Rightarrow>
          (let cfg = runtime_config opts spec
           in case create_workflow cfg c (fo_tools opts) (fo_agents opts) (sp_skills spec) of
                Inl e \<Rightarrow> Inl e
              | Inr wk \<Rightarrow>
                  Inr \<lparr>gf_spec = spec, gf_workflow = wk,
                       gf_config = register_policies (wf_name wk) (sp_policies spec) cfg\<rparr>))"

text \<open>The methods of \<open>GovernedFlow\<close> hand over to the workflow, and those of \<open>Workflow\<close> to the runtime.\<close>

definition flow_run :: "compiled_flow \<Rightarrow> py_value \<Rightarrow> string option \<Rightarrow> world \<Rightarrow> ((exn + run_state) \<times> world) option" where
  "flow_run f = run_workflow (gf_config f) (gf_workflow f)"

definition flow_resume :: "compiled_flow \<Rightarrow> string \<Rightarrow> resume_input \<Rightarrow> world \<Rightarrow> ((exn + run_state) \<times> world) option" where
  "flow_resume f = resume_workflow (gf_config f) (gf_workflow f)"

definition flow_resume_from_checkpoint ::
  "compiled_flow \<Rightarrow> string \<Rightarrow> json \<Rightarrow> world \<Rightarrow> ((exn + run_state) \<times> world) option" where
  "flow_resume_from_checkpoint f = resume_from_checkpoint (gf_config f) (gf_workflow f)"

definition flow_resume_latest ::
  "compiled_flow \<Rightarrow> string \<Rightarrow> resume_input \<Rightarrow> world \<Rightarrow> ((exn + run_state) \<times> world) option" where
  "flow_resume_latest f = resume_latest_workflow (gf_config f) (gf_workflow f)"

definition workflow_attributes :: "string list" where
  "workflow_attributes =
     [''__init__'', ''entry_step'', ''name'', ''steps'', ''entry_step_name'', ''get_step'', ''run'',
      ''resume'', ''resume_from_checkpoint'', ''get_run_state'', ''aget_run_state'',
      ''get_latest_run_state'', ''resume_latest'', ''list_thread_runs'', ''list_pending_interrupts'',
      ''get_pending_interrupt'', ''get_latest_pending_interrupt'', ''list_thread_pending_interrupts'',
      ''_register_step_executors'']"

subsection \<open>Compiled classes\<close>

lemma dset_append_new: "\<not> dhas d k \<Longrightarrow> dset k v d = d @ [(k, v)]"
  by (induction d) (auto simp: dhas_def)

lemma fold_dset_append:
  assumes "distinct (map f xs)" "f ` set xs \<inter> set (map fst d) = {}"
  shows "fold (\<lambda>x. dset (f x) (g x)) xs d = d @ map (\<lambda>x. (f x, g x)) xs"
  using assms
proof (induction xs arbitrary: d)
  case Nil
  then show ?case by simp
next
  case (Cons x xs)
  then have "dset (f x) (g x) d = d @ [(f x, g x)]"
    by (simp add: dset_append_new dhas_iff)
  with Cons show ?case by auto
qed

lemma compile_step_Inr:
  assumes "compile_step p = Inr s"
  shows "sd_name s = gs_name p" "sd_transition s \<noteq> None" "sd_mode s \<noteq> None"
  using assms
  by (auto simp: compile_step_def new_step_def apply_transition_def Let_def then_step_def then_end_def
      branch_def route_to_def split: option.splits if_splits)

lemma step_attrs_Inr:
  assumes "map compile_step ps = map Inr ss" "distinct (map gs_name ps)"
    and "gs_name ` set ps \<inter> set (map fst attrs) = {}"
  shows "step_attrs ps attrs = Inr (attrs @ map (\<lambda>s. (sd_name s, StepAttr s)) ss)"
  using assms
proof (induction ps arbitrary: attrs ss)
  case Nil
  then show ?case by simp
next
  case (Cons p ps)
  then obtain s rest where ss: "ss = s # rest" and s: "compile_step p = Inr s"
    and rest: "map compile_step ps = map Inr rest"
    by auto
  have "dset (gs_name p) (StepAttr s) attrs = attrs @ [(gs_name p, StepAttr s)]"
    using Cons.prems by (simp add: dset_append_new dhas_iff)
  moreover have "step_attrs ps (attrs @ [(gs_name p, StepAttr s)]) =
      Inr ((attrs @ [(gs_name p, StepAttr s)]) @ map (\<lambda>s. (sd_name s, StepAttr s)) rest)"
    using Cons.prems by (intro Cons.IH rest) auto
  ultimately show ?case
    using s compile_step_Inr(1) [OF s] by (simp add: ss)
qed

lemma attr_steps_append [simp]: "attr_steps (xs @ ys) = attr_steps xs @ attr_steps ys"
  by (induction xs rule: attr_steps.induct) simp_all

lemma attr_steps_map [simp]: "attr_steps (map (\<lambda>s. StepAttr s) ss) = ss"
  by (induction ss) simp_all

lemma compiled_names:
  "map compile_step ps = map Inr ss \<Longrightarrow> map sd_name ss = map gs_name ps"
proof (induction ps arbitrary: ss)
  case (Cons p ps)
  then obtain s rest where "ss = s # rest" "compile_step p = Inr s" "map compile_step ps = map Inr rest"
    by auto
  with Cons.IH compile_step_Inr(1) show ?case by simp
qed simp

text \<open>With names that do not clash, the class is the one of the compiled steps in their order.\<close>

lemma flow_class_steps:
  assumes "map compile_step (sp_steps spec) = map Inr ss" "distinct (map gs_name (sp_steps spec))"
    and "''entry_step'' \<notin> set (map gs_name (sp_steps spec))"
  shows "flow_class spec = define_workflow (safe_class_name (sp_name spec)) [] ss (sp_entry_step spec)"
proof -
  have names: "map sd_name ss = map gs_name (sp_steps spec)" by (rule compiled_names [OF assms(1)])
  let ?attrs = "map (\<lambda>s. (sd_name s, StepAttr s)) ss"
  have attrs: "step_attrs (sp_steps spec) [] = Inr ?attrs"
    using step_attrs_Inr [OF assms(1,2), of "[]"] by simp
  have free: "''entry_step'' \<notin> fst ` set ?attrs"
    using assms(3) names by (metis (no_types, lifting) list.map_comp list.map_cong0 list.set_map comp_apply fst_conv)
  then have no_entry: "dget ?attrs ''entry_step'' = None" by (simp add: map_of_eq_None_iff)
  have steps: "attr_steps (dvalues ?attrs) = ss" by (simp add: dvalues_def comp_def)
  show ?thesis
  proof (cases "sp_entry_step spec")
    case None
    then show ?thesis
      by (simp add: flow_class_def flow_attrs_def attrs class_of_attrs_def no_entry steps)
  next
    case (Some e)
    have "dset ''entry_step'' (EntryAttr e) ?attrs = ?attrs @ [(''entry_step'', EntryAttr e)]"
      by (rule dset_append_new) (simp add: dhas_def no_entry)
    moreover have "attr_steps (dvalues (?attrs @ [(''entry_step'', EntryAttr e)])) = ss"
      using steps by (simp add: dvalues_def)
    moreover have "dget (?attrs @ [(''entry_step'', EntryAttr e)]) ''entry_step'' = Some (EntryAttr e)"
      using no_entry by (simp add: map_add_def)
    ultimately show ?thesis
      using Some by (simp add: flow_class_def flow_attrs_def attrs class_of_attrs_def Let_def del: map_of_append)
  qed
qed

lemma add_declared_new:
  assumes "distinct (map fst new)" "fst ` set new \<inter> set (map fst old) = {}"
  shows "add_declared new old = Inr (old @ new)"
  using assms
proof (induction new arbitrary: old)
  case (Cons p new)
  obtain n s where p: "p = (n, s)" by (cases p)
  with Cons.prems have "\<not> dhas old n" by (auto simp: dhas_iff)
  with Cons.prems Cons.IH [of "old @ [(n, s)]"] show ?case by (auto simp: p dset_append_new)
qed simp

lemma define_workflow_succeeds:
  assumes names: "distinct (map sd_name ss)"
    and configured: "\<forall>s \<in> set ss. sd_transition s \<noteq> None \<and> sd_mode s \<noteq> None"
    and targets: "\<forall>s \<in> set ss. \<forall>t \<in> set (declared_targets s). t = END_STEP \<or> t \<in> set (map sd_name ss)"
    and entry: "\<forall>e. entry_step = Some e \<longrightarrow> e \<in> set (map sd_name ss)"
  shows "define_workflow name [] ss entry_step =
     Inr \<lparr>wc_name = name, wc_steps = map (\<lambda>s. (sd_name s, s)) ss,
          wc_entry = (if ss = [] then None
                      else Some (case entry_step of None \<Rightarrow> sd_name (hd ss) | Some e \<Rightarrow> e))\<rparr>"
proof (cases "ss = []")
  case True
  then show ?thesis by (simp add: define_workflow_def)
next
  case False
  let ?steps = "map (\<lambda>s. (sd_name s, s)) ss"
  have keys: "map fst ?steps = map sd_name ss" by simp
  have declared: "fold (\<lambda>s. dset (sd_name s) s) ss [] = ?steps"
    using fold_dset_append [of sd_name ss "[]" id] names by simp
  have add: "add_declared ?steps [] = Inr ?steps"
    using add_declared_new [of ?steps "[]"] names by (simp add: comp_def)
  have conf: "check_configured ?steps = Inr ()"
    using configured by (simp add: check_configured_Inr split_def)
  have trans: "check_transitions (dkeys ?steps) ?steps = Inr ()"
    using targets by (auto simp: check_transitions_Inr dkeys_def)
  have "dhas ?steps (case entry_step of None \<Rightarrow> hd (dkeys ?steps) | Some e \<Rightarrow> e)"
    using entry False by (cases ss) (auto simp: dhas_iff dkeys_def split: option.splits)
  then show ?thesis
    using False declared add conf trans
    by (cases ss) (auto simp: define_workflow_def Let_def dkeys_def split: option.splits)
qed

end
