(* ===== verification/Flow_Config.thy ===== *)
theory Flow_Config
  imports Flow_Spec
begin

section \<open>External flow configuration (\<open>governai/app/config.py\<close>)\<close>

text \<open>
  A configuration is loaded from a file, a text, a mapping or an object, validated, and compiled into a
  \<open>GovernedFlowSpec\<close> by resolving its names. The records are the Pydantic models; their validators are
  \<open>validate_shape\<close> and \<open>validate_executor\<close>. What lies outside is the record \<open>config_io\<close>: the file
  system, the JSON and YAML parsers, Pydantic's coercion of a payload to the fields' types, and its text
  for a list of problems.

  The exceptions of this module carry names that the flow language looks at, so they have a type of their
  own; \<open>Raised\<close> is any other exception.
\<close>

subsection \<open>Errors\<close>

datatype config_error =
    FlowConfigLoadError string
  | FlowConfigValidationError string
  | UnknownToolError string
  | UnknownAgentError string
  | UnknownPolicyError string
  | UnknownSkillError string
  | DuplicateStepError string
  | UnknownEntryStepError string
  | InvalidTransitionError string string
  | Raised exn

fun config_error_str :: "config_error \<Rightarrow> string" where
  "config_error_str (FlowConfigLoadError msg) = msg"
| "config_error_str (FlowConfigValidationError msg) = msg"
| "config_error_str (UnknownToolError n) = ''Unknown tool: '' @ n"
| "config_error_str (UnknownAgentError n) = ''Unknown agent: '' @ n"
| "config_error_str (UnknownPolicyError n) = ''Unknown policy: '' @ n"
| "config_error_str (UnknownSkillError n) = ''Unknown skill: '' @ n"
| "config_error_str (DuplicateStepError n) = ''Duplicate step name: '' @ n"
| "config_error_str (UnknownEntryStepError n) = ''Entry step not found: '' @ n"
| "config_error_str (InvalidTransitionError n msg) =
     ''Step '' @ n @ '' has invalid transition: '' @ msg"
| "config_error_str (Raised e) = exn_str e"

subsection \<open>Configuration models\<close>

datatype transition_kind = ThenKind | EndKind | BranchKind | RouteToKind

record transition_config =
  tc_kind :: transition_kind
  tc_next_step :: "string option"
  tc_router :: "string option"
  tc_mapping :: "string dict option"
  tc_allowed :: "string list option"

record step_config =
  sc_name :: string
  sc_tool :: "string option"
  sc_agent :: "string option"
  sc_required_artifacts :: "string list"
  sc_emitted_artifact :: "string option"
  sc_approval_override :: "bool option"
  sc_transition :: transition_config

record channel_config =
  cc_name :: string
  cc_reducer :: string
  cc_initial :: json

record interrupt_config =
  ix_ttl_seconds :: int
  ix_max_pending :: int

record flow_config =
  fc_version :: string
  fc_name :: string
  fc_steps :: "step_config list"
  fc_entry_step :: "string option"
  fc_policies :: "string list"
  fc_skills :: "string list"
  fc_channels :: "channel_config list"
  fc_interrupts :: interrupt_config

definition validate_shape :: "transition_config \<Rightarrow> string + transition_config" where
  "validate_shape t =
     (case tc_kind t of
        ThenKind \<Rightarrow>
          if absent (tc_next_step t) then Inl ''then transition requires next_step''
          else Inr (t\<lparr>tc_next_step := map_option normalize_step_ref (tc_next_step t),
                      tc_router := None, tc_mapping := None, tc_allowed := None\<rparr>)
      | EndKind \<Rightarrow>
          Inr (t\<lparr>tc_next_step := Some END_STEP, tc_router := None, tc_mapping := None,
                 tc_allowed := None\<rparr>)
      | BranchKind \<Rightarrow>
          if absent (tc_router t) then Inl ''branch transition requires router''
          else if tc_mapping t = None \<or> tc_mapping t = Some []
          then Inl ''branch transition requires non-empty mapping''
          else Inr (t\<lparr>tc_next_step := None, tc_allowed := None,
                      tc_mapping := map_option (map (\<lambda>(k, v). (k, normalize_step_ref v))) (tc_mapping t)\<rparr>)
      | RouteToKind \<Rightarrow>
          if tc_allowed t = None \<or> tc_allowed t = Some []
          then Inl ''route_to transition requires non-empty allowed list''
          else Inr (t\<lparr>tc_next_step := None, tc_router := None, tc_mapping := None,
                      tc_allowed := map_option (map normalize_step_ref) (tc_allowed t)\<rparr>))"

definition validate_executor :: "step_config \<Rightarrow> string + step_config" where
  "validate_executor s =
     (if (sc_tool s = None) = (sc_agent s = None)
      then Inl (''Step '' @ sc_name s @ '' must define exactly one of tool/agent'') else Inr s)"

text \<open>The field is validated first, then the model.\<close>

definition validate_step :: "step_config \<Rightarrow> string + step_config" where
  "validate_step s =
     (case validate_shape (sc_transition s) of
        Inl e \<Rightarrow> Inl e
      | Inr t \<Rightarrow> validate_executor (s\<lparr>sc_transition := t\<rparr>))"

definition problems :: "(string + 'a) list \<Rightarrow> string list" where
  "problems rs = concat (map (\<lambda>r. case r of Inl e \<Rightarrow> [e] | Inr _ \<Rightarrow> []) rs)"

text \<open>\<open>FlowConfigV1.model_validate\<close> on fields of the right types.\<close>

definition validate_model :: "(string list \<Rightarrow> string) \<Rightarrow> flow_config \<Rightarrow> string + flow_config" where
  "validate_model show c =
     (let rs = map validate_step (fc_steps c)
      in if problems rs = [] then Inr (c\<lparr>fc_steps := map projr rs\<rparr>) else Inl (show (problems rs)))"

subsection \<open>Loading\<close>

record config_io =
  io_exists :: "string \<Rightarrow> exn + bool"
  io_read :: "string \<Rightarrow> exn + string"
  io_json :: "string \<Rightarrow> string + json"
  io_yaml :: "(string \<Rightarrow> string + json) option"
  io_fields :: "json dict \<Rightarrow> string + flow_config"
  io_show :: "string list \<Rightarrow> string"

definition parse_config_payload :: "config_io \<Rightarrow> string \<Rightarrow> string \<Rightarrow> config_error + json dict" where
  "parse_config_payload io txt fmt =
     (if fmt = ''json''
      then (case io_json io txt of
              Inl msg \<Rightarrow> Inl (FlowConfigLoadError (''Invalid JSON config: '' @ msg))
            | Inr (JObj d) \<Rightarrow> Inr d
            | Inr _ \<Rightarrow> Inl (FlowConfigLoadError ''Config payload must be a JSON object''))
      else if fmt = ''yaml''
      then (case io_yaml io of
              None \<Rightarrow> Inl (FlowConfigLoadError ''YAML support requires PyYAML installed'')
            | Some safe_load \<Rightarrow>
                (case safe_load txt of
                   Inl msg \<Rightarrow> Inl (FlowConfigLoadError (''Invalid YAML config: '' @ msg))
                 | Inr (JObj d) \<Rightarrow> Inr d
                 | Inr _ \<Rightarrow> Inl (FlowConfigLoadError ''Config payload must be a YAML mapping/object'')))
      else Inl (FlowConfigLoadError (''Unsupported config format: '' @ fmt)))"

text \<open>\<open>path.suffix\<close>: from the last dot of the last component, unless the dot is at its start or end.\<close>

fun path_parts :: "string \<Rightarrow> string \<Rightarrow> string list" where
  "path_parts acc [] = [rev acc]"
| "path_parts acc (c # s) = (if c = CHR ''/'' then rev acc # path_parts [] s else path_parts (c # acc) s)"

definition path_name :: "string \<Rightarrow> string" where
  "path_name p =
     (let parts = filter (\<lambda>x. x \<noteq> [] \<and> x \<noteq> ''.'') (path_parts [] p)
      in if parts = [] then [] else last parts)"

definition path_suffix :: "string \<Rightarrow> string" where
  "path_suffix p =
     (let n = path_name p;
          tail = takeWhile (\<lambda>c. c \<noteq> CHR ''.'') (rev n)
      in if tail = [] \<or> length n \<le> Suc (length tail) then [] else CHR ''.'' # rev tail)"

definition infer_format :: "string option \<Rightarrow> string option \<Rightarrow> string \<Rightarrow> config_error + string" where
  "infer_format path txt requested =
     (let requested_lower = lower requested;
          suffix = (case path of None \<Rightarrow> [] | Some p \<Rightarrow> lower (path_suffix p));
          content = dropWhile is_space (case txt of None \<Rightarrow> [] | Some t \<Rightarrow> t)
      in if requested_lower \<in> {''yaml'', ''json''} then Inr requested_lower
         else if requested_lower \<noteq> ''auto''
         then Inl (FlowConfigLoadError (''Unknown format: '' @ requested))
         else if suffix \<in> {''.yml'', ''.yaml''} then Inr ''yaml''
         else if suffix = ''.json'' then Inr ''json''
         else if content \<noteq> [] \<and> hd content \<in> {CHR ''{'', CHR ''[''} then Inr ''json''
         else Inr ''yaml'')"

datatype config_input =
    ConfigObject flow_config
  | ConfigMapping "json dict"
  | ConfigPath string
  | ConfigText string
  | UnsupportedInput string

definition raised :: "exn + 'a \<Rightarrow> config_error + 'a" where
  "raised r = map_sum Raised id r"

definition read_input ::
  "config_io \<Rightarrow> config_input \<Rightarrow> config_error + string option \<times> string" where
  "read_input io inp =
     (case inp of
        ConfigPath p \<Rightarrow> map_sum Raised (\<lambda>txt. (Some p, txt)) (io_read io p)
      | ConfigText t \<Rightarrow>
          (case io_exists io t of
             Inl e \<Rightarrow> Inl (Raised e)
           | Inr True \<Rightarrow> map_sum Raised (\<lambda>txt. (Some t, txt)) (io_read io t)
           | Inr False \<Rightarrow> Inr (None, t))
      | UnsupportedInput tp \<Rightarrow> Inl (FlowConfigLoadError (''Unsupported config input type: '' @ tp))
      | ConfigObject _ \<Rightarrow> Inr (None, [])
      | ConfigMapping _ \<Rightarrow> Inr (None, []))"

definition model_of_payload :: "config_io \<Rightarrow> json dict \<Rightarrow> config_error + flow_config" where
  "model_of_payload io payload =
     (case io_fields io payload of
        Inl msg \<Rightarrow> Inl (FlowConfigValidationError msg)
      | Inr c \<Rightarrow> map_sum FlowConfigValidationError id (validate_model (io_show io) c))"

definition load_flow_config :: "config_io \<Rightarrow> config_input \<Rightarrow> string \<Rightarrow> config_error + flow_config" where
  "load_flow_config io inp fmt =
     (case inp of
        ConfigObject c \<Rightarrow> Inr c
      | ConfigMapping d \<Rightarrow> model_of_payload io d
      | _ \<Rightarrow>
          (case read_input io inp of
             Inl e \<Rightarrow> Inl e
           | Inr (path, txt) \<Rightarrow>
               (case infer_format path (Some txt) fmt of
                  Inl e \<Rightarrow> Inl e
                | Inr f \<Rightarrow>
                    (case parse_config_payload io txt f of
                       Inl e \<Rightarrow> Inl e
                     | Inr d \<Rightarrow> model_of_payload io d))))"

subsection \<open>Validation\<close>

fun first_duplicate :: "string list \<Rightarrow> string list \<Rightarrow> string option" where
  "first_duplicate seen [] = None"
| "first_duplicate seen (n # ns) = (if n \<in> set seen then Some n else first_duplicate (n # seen) ns)"

definition check_targets ::
  "string list \<Rightarrow> string \<Rightarrow> string \<Rightarrow> string list \<Rightarrow> config_error + unit" where
  "check_targets seen step_name what refs =
     (case unknown_ref seen refs of
        None \<Rightarrow> Inr ()
      | Some r \<Rightarrow> Inl (InvalidTransitionError step_name (what @ quoted r @ '' not found'')))"

definition assertion_failed :: "config_error + 'a" where
  "assertion_failed = Inl (Raised (Exn AssertionError []))"

definition check_step_targets :: "string list \<Rightarrow> step_config \<Rightarrow> config_error + unit" where
  "check_step_targets seen s =
     (let t = sc_transition s
      in case tc_kind t of
           ThenKind \<Rightarrow>
             (case tc_next_step t of
                None \<Rightarrow> assertion_failed
              | Some n \<Rightarrow> check_targets seen (sc_name s) ''next_step '' [n])
         | BranchKind \<Rightarrow>
             (case tc_mapping t of
                None \<Rightarrow> assertion_failed
              | Some m \<Rightarrow> check_targets seen (sc_name s) ''branch target '' (dvalues m))
         | RouteToKind \<Rightarrow>
             (case tc_allowed t of
                None \<Rightarrow> assertion_failed
              | Some ns \<Rightarrow> check_targets seen (sc_name s) ''route_to target '' ns)
         | EndKind \<Rightarrow> Inr ())"

fun check_all_targets :: "string list \<Rightarrow> step_config list \<Rightarrow> config_error + unit" where
  "check_all_targets seen [] = Inr ()"
| "check_all_targets seen (s # ss) =
     (case check_step_targets seen s of Inl e \<Rightarrow> Inl e | Inr _ \<Rightarrow> check_all_targets seen ss)"

definition validate_transition_targets :: "flow_config \<Rightarrow> config_error + unit" where
  "validate_transition_targets c =
     (let seen = map sc_name (fc_steps c)
      in case first_duplicate [] seen of
           Some n \<Rightarrow> Inl (DuplicateStepError n)
         | None \<Rightarrow>
             (case fc_entry_step c of
                Some e \<Rightarrow>
                  if e \<notin> set seen then Inl (UnknownEntryStepError e) else check_all_targets seen (fc_steps c)
              | None \<Rightarrow> check_all_targets seen (fc_steps c)))"

definition validate_flow_config :: "flow_config \<Rightarrow> config_error + flow_config" where
  "validate_flow_config c = map_sum id (\<lambda>_. c) (validate_transition_targets c)"

subsection \<open>Resolvers\<close>

type_synonym 'a resolver = "string \<Rightarrow> config_error + 'a"

definition registry_tool_resolver :: "tool_registry \<Rightarrow> tool resolver" where
  "registry_tool_resolver g n =
     (case get_tool g n of
        Inl e \<Rightarrow> Inl (if eclass e = KeyError then UnknownToolError n else Raised e)
      | Inr t \<Rightarrow> Inr t)"

definition registry_agent_resolver :: "agent_registry \<Rightarrow> agent resolver" where
  "registry_agent_resolver g n =
     (case get_agent g n of
        Inl e \<Rightarrow> Inl (if eclass e = KeyError then UnknownAgentError n else Raised e)
      | Inr a \<Rightarrow> Inr a)"

definition mapping_policy_resolver :: "named_policy dict \<Rightarrow> named_policy resolver" where
  "mapping_policy_resolver d n =
     (case dget d n of None \<Rightarrow> Inl (UnknownPolicyError n) | Some p \<Rightarrow> Inr p)"

text \<open>A \<open>SkillRegistry\<close> is searched by its method, a mapping by its key.\<close>

definition registry_skill_resolver :: "skill dict \<Rightarrow> skill resolver" where
  "registry_skill_resolver d n =
     (case get_skill d n of
        Inl e \<Rightarrow> Inl (if eclass e = KeyError then UnknownSkillError n else Raised e)
      | Inr s \<Rightarrow> Inr s)"

datatype 'a name_source = Entries "'a dict" | Custom "'a resolver"

definition coerce_policy_resolver ::
  "named_policy name_source option \<Rightarrow> named_policy resolver option" where
  "coerce_policy_resolver r =
     map_option (\<lambda>s. case s of Entries d \<Rightarrow> mapping_policy_resolver d | Custom f \<Rightarrow> f) r"

definition coerce_skill_resolver :: "skill name_source option \<Rightarrow> skill resolver option" where
  "coerce_skill_resolver r =
     map_option (\<lambda>s. case s of Entries d \<Rightarrow> registry_skill_resolver d | Custom f \<Rightarrow> f) r"

subsection \<open>Compilation\<close>

definition transition_to_spec :: "transition_config \<Rightarrow> config_error + transition_spec" where
  "transition_to_spec t =
     (case tc_kind t of
        ThenKind \<Rightarrow>
          (case tc_next_step t of None \<Rightarrow> assertion_failed | Some n \<Rightarrow> Inr (then_spec n))
      | EndKind \<Rightarrow> Inr end_spec
      | BranchKind \<Rightarrow>
          (case (tc_router t, tc_mapping t) of
             (Some r, Some m) \<Rightarrow> Inr (branch_spec r m)
           | _ \<Rightarrow> assertion_failed)
      | RouteToKind \<Rightarrow>
          (case tc_allowed t of None \<Rightarrow> assertion_failed | Some ns \<Rightarrow> Inr (route_to_spec ns)))"

text \<open>An optional name: nothing to resolve.\<close>

definition resolve_opt :: "'a resolver \<Rightarrow> string option \<Rightarrow> config_error + 'a option" where
  "resolve_opt f n = (case n of None \<Rightarrow> Inr None | Some x \<Rightarrow> map_sum id Some (f x))"

fun map_res :: "('a \<Rightarrow> 'e + 'b) \<Rightarrow> 'a list \<Rightarrow> 'e + 'b list" where
  "map_res f [] = Inr []"
| "map_res f (x # xs) =
     (case f x of Inl e \<Rightarrow> Inl e | Inr y \<Rightarrow> map_sum id (\<lambda>ys. y # ys) (map_res f xs))"

definition step_to_spec ::
  "tool resolver \<Rightarrow> agent resolver \<Rightarrow> step_config \<Rightarrow> config_error + governed_step_spec" where
  "step_to_spec tool_resolver agent_resolver s =
     (case resolve_opt tool_resolver (sc_tool s) of
        Inl e \<Rightarrow> Inl e
      | Inr tool \<Rightarrow>
          (case resolve_opt agent_resolver (sc_agent s) of
             Inl e \<Rightarrow> Inl e
           | Inr agent \<Rightarrow>
               map_sum id
                 (\<lambda>t. \<lparr>gs_name = sc_name s, gs_version = ''0.0.0'', gs_tool = tool, gs_agent = agent,
                       gs_required_artifacts = sc_required_artifacts s,
                       gs_emitted_artifact = sc_emitted_artifact s,
                       gs_approval_override = sc_approval_override s, gs_transition = Some t\<rparr>)
                 (transition_to_spec (sc_transition s))))"

definition resolve_names ::
  "(string \<Rightarrow> config_error) \<Rightarrow> 'a resolver option \<Rightarrow> string list \<Rightarrow> config_error + 'a list" where
  "resolve_names unknown resolver names =
     (if names = [] then Inr []
      else case resolver of None \<Rightarrow> Inl (unknown (hd names)) | Some f \<Rightarrow> map_res f names)"

definition flow_config_to_spec ::
  "flow_config \<Rightarrow> tool resolver \<Rightarrow> agent resolver \<Rightarrow> named_policy resolver option \<Rightarrow>
   skill resolver option \<Rightarrow> config_error + governed_flow_spec" where
  "flow_config_to_spec c tool_resolver agent_resolver policy_resolver skill_resolver =
     (case validate_flow_config c of
        Inl e \<Rightarrow> Inl e
      | Inr _ \<Rightarrow>
     (case map_res (step_to_spec tool_resolver agent_resolver) (fc_steps c) of
        Inl e \<Rightarrow> Inl e
      | Inr steps \<Rightarrow>
     (case resolve_names UnknownPolicyError policy_resolver (fc_policies c) of
        Inl e \<Rightarrow> Inl e
      | Inr policies \<Rightarrow>
          map_sum id
            (\<lambda>skills.
               \<lparr>sp_name = fc_name c, sp_steps = steps, sp_entry_step = fc_entry_step c,
                sp_policies = policies, sp_skills = skills,
                sp_channels = map (\<lambda>ch. \<lparr>ch_name = cc_name ch, ch_reducer = cc_reducer ch,
                                          ch_initial = cc_initial ch\<rparr>) (fc_channels c),
                sp_interrupts = \<lparr>ic_ttl_seconds = ix_ttl_seconds (fc_interrupts c),
                                 ic_max_pending = ix_max_pending (fc_interrupts c)\<rparr>\<rparr>)
            (resolve_names UnknownSkillError skill_resolver (fc_skills c)))))"

text \<open>The keyword arguments of \<open>governed_flow\<close> that \<open>runtime_overrides\<close> sets; \<open>containment_mode\<close> and the
  adapter have defaults, the others those of \<open>governed_flow\<close> itself: in particular no registry. \<open>defaults\<close>
  is the configuration of a runtime without arguments.\<close>

record runtime_overrides =
  ov_runtime :: "config option"
  ov_policy_engine :: "policy_engine option"
  ov_reducer_registry :: "reducer_registry option"
  ov_manager_ttl :: "int option"
  ov_containment :: "containment_mode option"
  ov_adapter :: "adapter option option"
  ov_tools :: "tool_registry option"
  ov_agents :: "agent_registry option"

definition no_overrides :: runtime_overrides where
  "no_overrides =
     \<lparr>ov_runtime = None, ov_policy_engine = None, ov_reducer_registry = None, ov_manager_ttl = None,
      ov_containment = None, ov_adapter = None, ov_tools = None, ov_agents = None\<rparr>"

definition or_default :: "'a option \<Rightarrow> 'a \<Rightarrow> 'a" where
  "or_default x d = (case x of None \<Rightarrow> d | Some v \<Rightarrow> v)"

definition merged_options ::
  "config \<Rightarrow> runtime_overrides \<Rightarrow> containment_mode \<Rightarrow> adapter option \<Rightarrow> flow_options" where
  "merged_options defaults ov containment adapter =
     \<lparr>fo_runtime = ov_runtime ov,
      fo_base = defaults
        \<lparr>cfg_policy_engine := or_default (ov_policy_engine ov) (cfg_policy_engine defaults),
         cfg_reducer_registry := or_default (ov_reducer_registry ov) (cfg_reducer_registry defaults),
         cfg_containment := or_default (ov_containment ov) containment,
         cfg_adapter := or_default (ov_adapter ov) adapter\<rparr>,
      fo_manager_ttl = ov_manager_ttl ov,
      fo_tools = or_default (ov_tools ov) empty_tool_registry,
      fo_agents = or_default (ov_agents ov) empty_agent_registry\<rparr>"

definition governed_flow_from_config ::
  "config_io \<Rightarrow> config_input \<Rightarrow> tool_registry \<Rightarrow> agent_registry \<Rightarrow> named_policy name_source option \<Rightarrow>
   skill name_source option \<Rightarrow> config \<Rightarrow> runtime_overrides \<Rightarrow> containment_mode \<Rightarrow> adapter option \<Rightarrow>
   string \<Rightarrow> config_error + compiled_flow" where
  "governed_flow_from_config io inp tools agents policies skills defaults ov containment adapter fmt =
     (case load_flow_config io inp fmt of
        Inl e \<Rightarrow> Inl e
      | Inr c \<Rightarrow>
     (case flow_config_to_spec c (registry_tool_resolver tools) (registry_agent_resolver agents)
             (coerce_policy_resolver policies) (coerce_skill_resolver skills) of
        Inl e \<Rightarrow> Inl e
      | Inr spec \<Rightarrow> raised (governed_flow (merged_options defaults ov containment adapter) spec)))"

end
