(* ===== verification/Flow_DSL.thy ===== *)
theory Flow_DSL
  imports Flow_Config Python_Text
begin

section \<open>The flow language (\<open>governai/app/dsl.py\<close>)\<close>

text \<open>
  The parser of the \<open>lark\<close> package is a parameter; its result is a tree of nodes (with the position of
  their first character) and tokens. With \<open>maybe_placeholders\<close>, \<open>lark\<close>'s default since 1.0, an optional
  part \<open>[...]\<close> of a rule that is absent leaves the child \<open>None\<close>: \<open>Absent\<close> here. \<open>build_ast\<close> turns a tree
  into a configuration, with the position of each step, and validates it.

  Where the grammar fixes the shape of a node, the operations on other shapes (the text of a node that is
  not a token, a pair outside an object) are only approximations. A number with a decimal point is read by
  the parameter \<open>float\<close>; payload values have none.
\<close>

subsection \<open>Trees\<close>

datatype tree =
    Tree (tree_data: string) (tree_children: "tree list") (tree_line: int) (tree_column: int)
  | Token string string
  | Absent

datatype node_value = Val json | Pair string json

record dsl_io =
  dl_parse :: "string \<Rightarrow> (int \<times> int) + tree"
  dl_float :: "string \<Rightarrow> exn + json"
  dl_config :: config_io

definition index_error :: "exn + 'a" where
  "index_error = Inl (Exn (OtherError ''IndexError'') ''list index out of range'')"

text \<open>\<open>str(child)\<close> of a token or a placeholder.\<close>

fun node_str :: "tree \<Rightarrow> string" where
  "node_str (Token _ s) = s"
| "node_str Absent = ''None''"
| "node_str (Tree d _ _ _) = ''Tree('' @ quoted d @ '')''"

fun is_tree :: "tree \<Rightarrow> bool" where
  "is_tree (Tree _ _ _ _) = True"
| "is_tree _ = False"

fun is_name_token :: "tree \<Rightarrow> bool" where
  "is_name_token (Token t _) = (t = ''NAME'')"
| "is_name_token _ = False"

text \<open>\<open>children[0]\<close>, \<open>children[1]\<close>.\<close>

definition child :: "nat \<Rightarrow> tree list \<Rightarrow> exn + tree" where
  "child i cs = (if i < length cs then Inr (cs ! i) else index_error)"

subsection \<open>Values\<close>

definition decode_number :: "(string \<Rightarrow> exn + json) \<Rightarrow> string \<Rightarrow> exn + json" where
  "decode_number float raw =
     (if CHR ''.'' \<in> set raw then float raw else map_sum id JInt (py_int raw))"

definition decode_bool :: "string \<Rightarrow> json" where
  "decode_bool s = JBool (lower s = ''true'')"

definition token_value :: "(string \<Rightarrow> exn + json) \<Rightarrow> string \<Rightarrow> string \<Rightarrow> exn + json" where
  "token_value float t s =
     (if t = ''ESCAPED_STRING'' then loads s
      else if t = ''SIGNED_NUMBER'' then decode_number float s
      else if t = ''BOOL'' then Inr (decode_bool s)
      else if t = ''NAME'' then Inr (JStr s)
      else if t = ''END'' then Inr (JStr ''end'')
      else if t = ''INT'' then map_sum id JInt (py_int s)
      else Inr (JStr s))"

definition on_text :: "tree list \<Rightarrow> (string \<Rightarrow> exn + json) \<Rightarrow> exn + node_value" where
  "on_text cs f = (case child 0 cs of Inl e \<Rightarrow> Inl e | Inr c \<Rightarrow> map_sum id Val (f (node_str c)))"

fun plain_value :: "node_value \<Rightarrow> json" where
  "plain_value (Val v) = v"
| "plain_value (Pair k v) = JList [JStr k, v]"

text \<open>The entries of an object. \<open>key, val = None\<close> is a \<open>TypeError\<close>.\<close>

fun object_of :: "node_value list \<Rightarrow> json dict \<Rightarrow> exn + json dict" where
  "object_of [] out = Inr out"
| "object_of (Pair k v # xs) out = object_of xs (dset k v out)"
| "object_of (Val v # xs) out =
     Inl (Exn TypeError (''cannot unpack non-iterable '' @ type_name v @ '' object''))"

definition map_key_value :: "tree \<Rightarrow> exn + json" where
  "map_key_value c =
     (case c of
        Token t s \<Rightarrow> if t = ''ESCAPED_STRING'' then loads s else Inr (JStr s)
      | _ \<Rightarrow> Inr (JStr (node_str c)))"

fun extract_value :: "(string \<Rightarrow> exn + json) \<Rightarrow> tree \<Rightarrow> exn + node_value"
and extract_values :: "(string \<Rightarrow> exn + json) \<Rightarrow> tree list \<Rightarrow> exn + node_value list" where
  "extract_value float (Token t s) = map_sum id Val (token_value float t s)"
| "extract_value float Absent = Inr (Val JNull)"
| "extract_value float (Tree d cs l c) =
     (if d = ''string'' then on_text cs loads
      else if d = ''number'' then on_text cs (decode_number float)
      else if d = ''boolean'' then on_text cs (\<lambda>s. Inr (decode_bool s))
      else if d = ''null'' then Inr (Val JNull)
      else if d = ''array'' then map_sum id (\<lambda>vs. Val (JList (map plain_value vs))) (extract_values float cs)
      else if d = ''pair''
      then (case cs of
              key # val # _ \<Rightarrow>
                (case loads (node_str key) of
                   Inl e \<Rightarrow> Inl e
                 | Inr k \<Rightarrow> map_sum id (\<lambda>v. Pair (py_str k) (plain_value v)) (extract_value float val))
            | _ \<Rightarrow> index_error)
      else if d = ''object''
      then (case extract_values float cs of
              Inl e \<Rightarrow> Inl e
            | Inr vs \<Rightarrow> map_sum id (\<lambda>out. Val (JObj out)) (object_of vs []))
      else if d = ''step_ref''
      then (case cs of c # _ \<Rightarrow> extract_value float c | [] \<Rightarrow> index_error)
      else if d = ''map_key''
      then (case cs of c # _ \<Rightarrow> map_sum id Val (map_key_value c) | [] \<Rightarrow> index_error)
      else map_sum id (\<lambda>vs. Val (JList (map plain_value vs))) (extract_values float cs))"
| "extract_values float [] = Inr []"
| "extract_values float (c # cs) =
     (case extract_value float c of
        Inl e \<Rightarrow> Inl e
      | Inr v \<Rightarrow> map_sum id (\<lambda>vs. v # vs) (extract_values float cs))"

definition value_of :: "(string \<Rightarrow> exn + json) \<Rightarrow> tree \<Rightarrow> exn + json" where
  "value_of float t = map_sum id plain_value (extract_value float t)"

text \<open>The first child that is a node of that name.\<close>

definition find_node :: "tree \<Rightarrow> string \<Rightarrow> tree option" where
  "find_node t name =
     List.find (\<lambda>c. is_tree c \<and> tree_data c = name) (case t of Tree _ cs _ _ \<Rightarrow> cs | _ \<Rightarrow> [])"

subsection \<open>Errors\<close>

type_synonym location = "int \<times> int"

datatype dsl_error =
    DSLSyntaxError string "location option"
  | DSLSemanticError string "location option"
  | Escaped config_error

definition located :: "string \<Rightarrow> location option \<Rightarrow> string" where
  "located msg loc =
     (case loc of
        None \<Rightarrow> msg
      | Some (line, column) \<Rightarrow>
          msg @ '' (line '' @ int_str line @ '', column '' @ int_str column @ '')'')"

definition syntax_error :: "string \<Rightarrow> location option \<Rightarrow> dsl_error + 'a" where
  "syntax_error msg loc = Inl (DSLSyntaxError (located msg loc) loc)"

definition semantic_error :: "string \<Rightarrow> location option \<Rightarrow> dsl_error + 'a" where
  "semantic_error msg loc = Inl (DSLSemanticError (located msg loc) loc)"

definition escaping :: "exn + 'a \<Rightarrow> dsl_error + 'a" where
  "escaping r = map_sum (\<lambda>e. Escaped (Raised e)) id r"

definition parse_lark_tree :: "dsl_io \<Rightarrow> string \<Rightarrow> dsl_error + tree" where
  "parse_lark_tree io txt =
     (case dl_parse io txt of
        Inl loc \<Rightarrow> syntax_error ''Invalid DSL syntax'' (Some loc)
      | Inr t \<Rightarrow> Inr t)"

subsection \<open>Statements\<close>

record dsl_ast =
  da_flow :: flow_config
  da_step_locations :: "location dict"
  da_entry_location :: "location option"

definition empty_config :: "string \<Rightarrow> flow_config" where
  "empty_config name =
     \<lparr>fc_version = ''v1'', fc_name = name, fc_steps = [], fc_entry_step = None, fc_policies = [],
      fc_skills = [], fc_channels = [], fc_interrupts = \<lparr>ix_ttl_seconds = 1800, ix_max_pending = 1\<rparr>\<rparr>"

definition location_of :: "tree \<Rightarrow> location" where
  "location_of t = (tree_line t, tree_column t)"

definition entry_item :: "dsl_io \<Rightarrow> tree \<Rightarrow> dsl_ast \<Rightarrow> dsl_error + dsl_ast" where
  "entry_item io item a =
     (case child 0 (tree_children item) of
        Inl e \<Rightarrow> Inl (Escaped (Raised e))
      | Inr c \<Rightarrow>
          escaping (map_sum id
            (\<lambda>v. a\<lparr>da_flow := (da_flow a)\<lparr>fc_entry_step := Some (py_str v)\<rparr>,
                   da_entry_location := Some (location_of item)\<rparr>)
            (value_of (dl_float io) c)))"

definition interrupt_item :: "tree \<Rightarrow> dsl_ast \<Rightarrow> dsl_error + dsl_ast" where
  "interrupt_item item a =
     (case tree_children item of
        ttl # pending # _ \<Rightarrow>
          (case py_int (node_str ttl) of
             Inl e \<Rightarrow> Inl (Escaped (Raised e))
           | Inr i \<Rightarrow>
               escaping (map_sum id
                 (\<lambda>j. a\<lparr>da_flow := (da_flow a)
                    \<lparr>fc_interrupts := \<lparr>ix_ttl_seconds = i, ix_max_pending = j\<rparr>\<rparr>\<rparr>)
                 (py_int (node_str pending))))
      | _ \<Rightarrow> escaping index_error)"

text \<open>Reducer and initial value of a channel, from the children after its name.\<close>

definition channel_rest :: "(string \<Rightarrow> exn + json) \<Rightarrow> tree list \<Rightarrow> exn + string \<times> json" where
  "channel_rest float remainder =
     (case remainder of
        [] \<Rightarrow> Inr (''replace'', JNull)
      | first # tail \<Rightarrow>
          if is_name_token first
          then (case tail of
                  [] \<Rightarrow> Inr (node_str first, JNull)
                | v # _ \<Rightarrow> map_sum id (\<lambda>j. (node_str first, j)) (value_of float v))
          else map_sum id (\<lambda>j. (''replace'', j)) (value_of float first))"

definition channel_item :: "dsl_io \<Rightarrow> tree \<Rightarrow> dsl_ast \<Rightarrow> dsl_error + dsl_ast" where
  "channel_item io item a =
     (case tree_children item of
        [] \<Rightarrow> escaping index_error
      | name # remainder \<Rightarrow>
          escaping (map_sum id
            (\<lambda>(reducer, initial). a\<lparr>da_flow := (da_flow a)
               \<lparr>fc_channels := fc_channels (da_flow a) @
                  [\<lparr>cc_name = node_str name, cc_reducer = reducer, cc_initial = initial\<rparr>]\<rparr>\<rparr>)
            (channel_rest (dl_float io) remainder)))"

text \<open>The locals of the loop over the parts of a step.\<close>

record step_parts =
  pt_required :: "string list"
  pt_emitted :: "string option"
  pt_override :: "bool option"
  pt_transition :: "transition_config option"

definition no_parts :: step_parts where
  "no_parts = \<lparr>pt_required = [], pt_emitted = None, pt_override = None, pt_transition = None\<rparr>"

text \<open>\<open>TransitionConfigV1(...)\<close>: its \<open>ValidationError\<close> is not caught.\<close>

definition checked_transition :: "dsl_io \<Rightarrow> transition_config \<Rightarrow> dsl_error + transition_config" where
  "checked_transition io t =
     map_sum (\<lambda>msg. Escaped (Raised (Exn ValidationError (io_show (dl_config io) [msg])))) id (validate_shape t)"

definition raw_transition :: "transition_kind \<Rightarrow> transition_config" where
  "raw_transition k =
     \<lparr>tc_kind = k, tc_next_step = None, tc_router = None, tc_mapping = None, tc_allowed = None\<rparr>"

fun mapping_of :: "(string \<Rightarrow> exn + json) \<Rightarrow> tree list \<Rightarrow> string dict \<Rightarrow> exn + string dict" where
  "mapping_of float [] m = Inr m"
| "mapping_of float (item # items) m =
     (if \<not> is_tree item \<or> tree_data item \<noteq> ''mapping_item'' then mapping_of float items m
      else
        (case tree_children item of
           k # v # _ \<Rightarrow>
             (case value_of float k of
                Inl e \<Rightarrow> Inl e
              | Inr key \<Rightarrow>
                  (case value_of float v of
                     Inl e \<Rightarrow> Inl e
                   | Inr target \<Rightarrow> mapping_of float items (dset (py_str key) (py_str target) m)))
         | _ \<Rightarrow> index_error))"

definition then_part :: "dsl_io \<Rightarrow> tree list \<Rightarrow> dsl_error + transition_config" where
  "then_part io cs =
     (case cs of
        [] \<Rightarrow> escaping index_error
      | c # _ \<Rightarrow>
          (case value_of (dl_float io) c of
             Inl e \<Rightarrow> Inl (Escaped (Raised e))
           | Inr v \<Rightarrow>
               if lower (py_str v) = ''end'' then checked_transition io (raw_transition EndKind)
               else checked_transition io ((raw_transition ThenKind)\<lparr>tc_next_step := Some (py_str v)\<rparr>)))"

definition branch_part :: "dsl_io \<Rightarrow> tree list \<Rightarrow> dsl_error + transition_config" where
  "branch_part io cs =
     (case cs of
        [] \<Rightarrow> escaping index_error
      | router # items \<Rightarrow>
          (case mapping_of (dl_float io) items [] of
             Inl e \<Rightarrow> Inl (Escaped (Raised e))
           | Inr m \<Rightarrow> checked_transition io
               ((raw_transition BranchKind)\<lparr>tc_router := Some (node_str router), tc_mapping := Some m\<rparr>)))"

definition route_part :: "dsl_io \<Rightarrow> tree list \<Rightarrow> dsl_error + transition_config" where
  "route_part io cs =
     (case map_res (value_of (dl_float io)) cs of
        Inl e \<Rightarrow> Inl (Escaped (Raised e))
      | Inr vs \<Rightarrow> checked_transition io ((raw_transition RouteToKind)\<lparr>tc_allowed := Some (map py_str vs)\<rparr>))"

definition step_part :: "dsl_io \<Rightarrow> tree \<Rightarrow> step_parts \<Rightarrow> dsl_error + step_parts" where
  "step_part io part p =
     (if \<not> is_tree part then Inr p
      else
        (let d = tree_data part; cs = tree_children part;
             set_transition = map_sum id (\<lambda>t. p\<lparr>pt_transition := Some t\<rparr>);
             with_first = (\<lambda>f. case cs of [] \<Rightarrow> escaping index_error | c # _ \<Rightarrow> Inr (f (node_str c)))
         in if d = ''requires_meta'' then Inr (p\<lparr>pt_required := map node_str cs\<rparr>)
            else if d = ''emit_meta'' then with_first (\<lambda>s. p\<lparr>pt_emitted := Some s\<rparr>)
            else if d = ''approval_meta'' then with_first (\<lambda>s. p\<lparr>pt_override := Some (lower s = ''true'')\<rparr>)
            else if d = ''then_transition'' then set_transition (then_part io cs)
            else if d = ''branch_transition'' then set_transition (branch_part io cs)
            else if d = ''route_transition'' then set_transition (route_part io cs)
            else Inr p))"

fun step_parts_of :: "dsl_io \<Rightarrow> tree list \<Rightarrow> step_parts \<Rightarrow> dsl_error + step_parts" where
  "step_parts_of io [] p = Inr p"
| "step_parts_of io (part # parts) p =
     (case step_part io part p of Inl e \<Rightarrow> Inl e | Inr p' \<Rightarrow> step_parts_of io parts p')"

definition step_of_parts :: "string \<Rightarrow> tree \<Rightarrow> string \<Rightarrow> step_parts \<Rightarrow> transition_config \<Rightarrow> step_config" where
  "step_of_parts name executor_tree called p t =
     \<lparr>sc_name = name,
      sc_tool = (if tree_data executor_tree = ''tool_exec'' then Some called else None),
      sc_agent = (if tree_data executor_tree = ''tool_exec'' then None else Some called),
      sc_required_artifacts = pt_required p, sc_emitted_artifact = pt_emitted p,
      sc_approval_override = pt_override p, sc_transition = t\<rparr>"

definition step_item :: "dsl_io \<Rightarrow> tree \<Rightarrow> dsl_ast \<Rightarrow> dsl_error + dsl_ast" where
  "step_item io item a =
     (case tree_children item of
        name # rest \<Rightarrow>
          (let step_name = node_str name; loc = location_of item
           in if dhas (da_step_locations a) step_name
              then semantic_error (''Duplicate step name: '' @ step_name) (Some loc)
              else
                (case rest of
                   [] \<Rightarrow> escaping index_error
                 | executor_tree # parts \<Rightarrow>
                     if \<not> is_tree executor_tree
                     then semantic_error (''Invalid executor declaration for step '' @ step_name) (Some loc)
                     else
                       (case child 0 (tree_children executor_tree) of
                          Inl e \<Rightarrow> Inl (Escaped (Raised e))
                        | Inr x \<Rightarrow>
                            (case step_parts_of io parts no_parts of
                               Inl e \<Rightarrow> Inl e
                             | Inr p \<Rightarrow>
                                 (case pt_transition p of
                                    None \<Rightarrow> semantic_error
                                      (''Step '' @ step_name @ '' is missing transition declaration'') (Some loc)
                                  | Some t \<Rightarrow>
                                      Inr (a\<lparr>da_step_locations := dset step_name loc (da_step_locations a),
                                             da_flow := (da_flow a)
                                               \<lparr>fc_steps := fc_steps (da_flow a) @
                                                  [step_of_parts step_name executor_tree (node_str x) p t]\<rparr>\<rparr>))))))
      | [] \<Rightarrow> escaping index_error)"

definition flow_item :: "dsl_io \<Rightarrow> tree \<Rightarrow> dsl_ast \<Rightarrow> dsl_error + dsl_ast" where
  "flow_item io item a =
     (if \<not> is_tree item then Inr a
      else
        (let d = tree_data item; names = map node_str (tree_children item); c = da_flow a
         in if d = ''entry_stmt'' then entry_item io item a
            else if d = ''policy_stmt'' then Inr (a\<lparr>da_flow := c\<lparr>fc_policies := fc_policies c @ names\<rparr>\<rparr>)
            else if d = ''skill_stmt'' then Inr (a\<lparr>da_flow := c\<lparr>fc_skills := fc_skills c @ names\<rparr>\<rparr>)
            else if d = ''interrupt_stmt'' then interrupt_item item a
            else if d = ''channel_stmt'' then channel_item io item a
            else if d = ''step_stmt'' then step_item io item a
            else Inr a))"

fun flow_items :: "dsl_io \<Rightarrow> tree list \<Rightarrow> dsl_ast \<Rightarrow> dsl_error + dsl_ast" where
  "flow_items io [] a = Inr a"
| "flow_items io (item # items) a =
     (case flow_item io item a of Inl e \<Rightarrow> Inl e | Inr a' \<Rightarrow> flow_items io items a')"

subsection \<open>The checked configuration\<close>

definition validation_error :: "dsl_ast \<Rightarrow> config_error \<Rightarrow> dsl_error + 'a" where
  "validation_error a e =
     (case e of
        InvalidTransitionError n _ \<Rightarrow> semantic_error (config_error_str e) (dget (da_step_locations a) n)
      | DuplicateStepError n \<Rightarrow> semantic_error (config_error_str e) (dget (da_step_locations a) n)
      | UnknownEntryStepError _ \<Rightarrow> semantic_error (config_error_str e) (da_entry_location a)
      | _ \<Rightarrow> Inl (Escaped e))"

definition checked_ast :: "dsl_io \<Rightarrow> dsl_ast \<Rightarrow> dsl_error + dsl_ast" where
  "checked_ast io a =
     (case validate_model (io_show (dl_config io)) (da_flow a) of
        Inl msg \<Rightarrow> semantic_error msg None
      | Inr c \<Rightarrow>
          (case validate_flow_config c of
             Inl e \<Rightarrow> validation_error a e
           | Inr _ \<Rightarrow> Inr (a\<lparr>da_flow := c\<rparr>)))"

definition build_ast :: "dsl_io \<Rightarrow> tree \<Rightarrow> dsl_error + dsl_ast" where
  "build_ast io t =
     (case find_node t ''flow'' of
        None \<Rightarrow> semantic_error ''Missing flow definition'' None
      | Some flow \<Rightarrow>
          (case tree_children flow of
             [] \<Rightarrow> escaping index_error
           | name # items \<Rightarrow>
               (case flow_items io items \<lparr>da_flow = empty_config (node_str name), da_step_locations = [],
                                          da_entry_location = None\<rparr> of
                  Inl e \<Rightarrow> Inl e
                | Inr a \<Rightarrow> checked_ast io a)))"

definition parse_dsl :: "dsl_io \<Rightarrow> string \<Rightarrow> dsl_error + dsl_ast" where
  "parse_dsl io txt = (case parse_lark_tree io txt of Inl e \<Rightarrow> Inl e | Inr t \<Rightarrow> build_ast io t)"

definition dsl_to_flow_config :: "dsl_io \<Rightarrow> string \<Rightarrow> dsl_error + flow_config" where
  "dsl_to_flow_config io txt = map_sum id da_flow (parse_dsl io txt)"

text \<open>An unknown tool or agent is reported at the first step that names it.\<close>

definition name_error :: "dsl_ast \<Rightarrow> config_error \<Rightarrow> dsl_error" where
  "name_error a e =
     (let at = (\<lambda>uses.
          case List.find uses (fc_steps (da_flow a)) of
            None \<Rightarrow> DSLSemanticError (config_error_str e) None
          | Some s \<Rightarrow>
              (let loc = dget (da_step_locations a) (sc_name s)
               in DSLSemanticError (located (config_error_str e) loc) loc))
      in case e of
           UnknownToolError n \<Rightarrow> at (\<lambda>s. sc_tool s = Some n)
         | UnknownAgentError n \<Rightarrow> at (\<lambda>s. sc_agent s = Some n)
         | _ \<Rightarrow> Escaped e)"

definition governed_flow_from_dsl ::
  "dsl_io \<Rightarrow> string \<Rightarrow> tool_registry \<Rightarrow> agent_registry \<Rightarrow> named_policy dict option \<Rightarrow> skill dict option \<Rightarrow>
   config \<Rightarrow> runtime_overrides \<Rightarrow> containment_mode \<Rightarrow> adapter option \<Rightarrow> dsl_error + compiled_flow" where
  "governed_flow_from_dsl io txt tools agents policies skills defaults ov containment adapter =
     (case parse_dsl io txt of
        Inl e \<Rightarrow> Inl e
      | Inr a \<Rightarrow>
          map_sum (name_error a) id
            (governed_flow_from_config (dl_config io) (ConfigObject (da_flow a)) tools agents
               (map_option Entries policies) (map_option Entries skills) defaults ov containment adapter ''auto''))"

end
