(* ===== verification/Flow_Contracts.thy ===== *)
theory Flow_Contracts
  imports Flow_Config Boundaries
begin

section \<open>Validated configurations compile\<close>

text \<open>
  Validation at load time and the checks of \<open>validate_flow_config\<close> are enough for the workflow class: its
  metaclass accepts every flow they let through. The registry arguments, however, do not reach the
  workflow, so an agent's allowed tools are known to it only as tools of a step or a skill.
\<close>

lemma map_sum_Inr: "map_sum f g r = Inr y \<longleftrightarrow> (\<exists>x. r = Inr x \<and> y = g x)"
  by (cases r) auto

subsection \<open>Validated models\<close>

lemma normalize_idem [simp]: "normalize_step_ref (normalize_step_ref x) = normalize_step_ref x"
  by (auto simp: normalize_step_ref_def)

lemma normalize_END [simp]: "normalize_step_ref END_STEP = END_STEP"
  by (simp add: normalize_step_ref_def)

lemma normalize_nonempty [simp]: "normalize_step_ref x = [] \<longleftrightarrow> x = []"
proof (cases "lower x = ''end''")
  case True
  then have "x \<noteq> []" by (auto simp: lower_def)
  with True show ?thesis by (simp add: normalize_step_ref_def END_STEP_def)
qed (simp add: normalize_step_ref_def)

definition config_valid :: "flow_config \<Rightarrow> bool" where
  "config_valid c \<longleftrightarrow> (\<forall>s \<in> set (fc_steps c). validate_step s = Inr s)"

lemma validate_shape_idem:
  assumes "validate_shape t = Inr t'"
  shows "validate_shape t' = Inr t'"
proof (cases "tc_kind t")
  case ThenKind
  with assms show ?thesis by (auto simp: validate_shape_def absent_def split: if_splits option.splits)
next
  case EndKind
  with assms show ?thesis by (auto simp: validate_shape_def)
next
  case BranchKind
  with assms show ?thesis
    by (auto simp: validate_shape_def absent_def split_def comp_def split: if_splits)
next
  case RouteToKind
  with assms show ?thesis by (auto simp: validate_shape_def comp_def split: if_splits)
qed

lemma validate_step_idem: "validate_step s = Inr s' \<Longrightarrow> validate_step s' = Inr s'"
  by (auto simp: validate_step_def validate_executor_def split: sum.splits if_splits
      dest: validate_shape_idem)

lemma problems_Nil: "problems rs = [] \<Longrightarrow> r \<in> set rs \<Longrightarrow> \<exists>x. r = Inr x"
  by (cases r) (auto simp: problems_def)

lemma validate_model_valid:
  assumes "validate_model show c = Inr c'"
  shows "config_valid c'"
proof -
  let ?rs = "map validate_step (fc_steps c)"
  from assms have ok: "problems ?rs = []" and c': "fc_steps c' = map projr ?rs"
    by (auto simp: validate_model_def Let_def split: if_splits)
  have "validate_step s' = Inr s'" if "s' \<in> set (fc_steps c')" for s'
  proof -
    from that c' obtain s where s: "s \<in> set (fc_steps c)" and s': "s' = projr (validate_step s)" by auto
    then obtain x where "validate_step s = Inr x" using problems_Nil [OF ok, of "validate_step s"] by auto
    then show ?thesis using s' validate_step_idem by simp
  qed
  then show ?thesis by (simp add: config_valid_def)
qed

lemma validate_model_fix:
  assumes "config_valid c"
  shows "validate_model f c = Inr c"
proof -
  from assms have ok: "validate_step s = Inr s" if "s \<in> set (fc_steps c)" for s
    using that by (simp add: config_valid_def)
  have "map projr (map validate_step (fc_steps c)) = fc_steps c"
    unfolding map_map by (rule map_idI) (simp add: ok)
  moreover have "problems (map validate_step (fc_steps c)) = []"
    by (auto simp: problems_def ok)
  ultimately show ?thesis by (simp add: validate_model_def Let_def)
qed

lemma load_flow_config_valid:
  assumes "load_flow_config io inp fmt = Inr c" "\<forall>c. inp = ConfigObject c \<longrightarrow> config_valid c"
  shows "config_valid c"
  using assms
  by (auto simp: load_flow_config_def model_of_payload_def map_sum_def
      split: config_input.splits sum.splits prod.splits intro: validate_model_valid)

subsection \<open>Validated steps compile\<close>

text \<open>The transition a validated configuration stands for.\<close>

definition transition_of_config :: "transition_config \<Rightarrow> transition" where
  "transition_of_config t =
     (case tc_kind t of
        ThenKind \<Rightarrow> StrictTransition (the (tc_next_step t))
      | EndKind \<Rightarrow> StrictTransition END_STEP
      | BranchKind \<Rightarrow> RuleBasedTransition (the (tc_router t)) (the (tc_mapping t))
      | RouteToKind \<Rightarrow> BoundedRoutingTransition (the (tc_allowed t)))"

definition implements :: "tool resolver \<Rightarrow> agent resolver \<Rightarrow> step_config \<Rightarrow> step \<Rightarrow> bool" where
  "implements tr ar c s \<longleftrightarrow>
     sd_name s = sc_name c \<and> sd_required_artifacts s = sc_required_artifacts c \<and>
     sd_emitted_artifact s = sc_emitted_artifact c \<and> sd_approval_override s = sc_approval_override c \<and>
     sd_transition s = Some (transition_of_config (sc_transition c)) \<and>
     sd_mode s = Some (mode_of (transition_of_config (sc_transition c))) \<and>
     (case sd_executor s of
        ToolExec t \<Rightarrow> \<exists>n. sc_tool c = Some n \<and> sc_agent c = None \<and> tr n = Inr t
      | AgentExec a \<Rightarrow> \<exists>n. sc_agent c = Some n \<and> sc_tool c = None \<and> ar n = Inr a)"

lemma validate_step_fix:
  assumes "validate_step s = Inr s"
  shows "validate_shape (sc_transition s) = Inr (sc_transition s)" "(sc_tool s = None) \<noteq> (sc_agent s = None)"
proof -
  obtain t where t: "validate_shape (sc_transition s) = Inr t" and s: "s = s\<lparr>sc_transition := t\<rparr>"
    and x: "(sc_tool s = None) \<noteq> (sc_agent s = None)"
    using assms by (auto simp: validate_step_def validate_executor_def split: sum.splits if_splits)
  from s have "sc_transition s = t" by (metis step_config.select_convs(7) step_config.surjective step_config.update_convs(7))
  with t x show "validate_shape (sc_transition s) = Inr (sc_transition s)"
      "(sc_tool s = None) \<noteq> (sc_agent s = None)" by simp_all
qed

text \<open>What a validated transition looks like, per kind.\<close>

lemma shape_cases:
  assumes "validate_shape t = Inr t"
  shows "tc_kind t = ThenKind \<and> (\<exists>n. tc_next_step t = Some n \<and> n \<noteq> [] \<and> normalize_step_ref n = n) \<or>
    tc_kind t = EndKind \<or>
    tc_kind t = BranchKind \<and> (\<exists>r m. tc_router t = Some r \<and> r \<noteq> [] \<and> tc_mapping t = Some m \<and> m \<noteq> [] \<and>
      map (\<lambda>(k, v). (k, normalize_step_ref v)) m = m) \<or>
    tc_kind t = RouteToKind \<and> (\<exists>ns. tc_allowed t = Some ns \<and> ns \<noteq> [] \<and> map normalize_step_ref ns = ns)"
proof -
  obtain k n r m a where t: "t = \<lparr>tc_kind = k, tc_next_step = n, tc_router = r, tc_mapping = m, tc_allowed = a\<rparr>"
    by (cases t) auto
  show ?thesis
  proof (cases k)
    case ThenKind
    with assms show ?thesis by (cases n) (auto simp: t validate_shape_def absent_def split: if_splits)
  next
    case EndKind
    then show ?thesis by (simp add: t)
  next
    case BranchKind
    with assms show ?thesis
      by (cases r; cases m) (auto simp: t validate_shape_def absent_def split: if_splits)
  next
    case RouteToKind
    with assms show ?thesis by (cases a) (auto simp: t validate_shape_def split: if_splits)
  qed
qed

lemma shape_applies:
  assumes "validate_shape t = Inr t"
  obtains p where "transition_to_spec t = Inr p"
    "\<And>s. apply_transition (Some p) s =
      Inr (s\<lparr>sd_transition := Some (transition_of_config t), sd_mode := Some (mode_of (transition_of_config t))\<rparr>)"
  using shape_cases [OF assms]
proof (elim disjE conjE exE, goal_cases)
  case (1 n)
  then show ?case
    by (auto simp: transition_to_spec_def then_spec_def apply_transition_def absent_def then_step_def
        strict_transition_def transition_of_config_def mode_of_def)
next
  case 2
  then show ?case
    by (auto simp: transition_to_spec_def end_spec_def apply_transition_def then_end_def
        strict_transition_def transition_of_config_def mode_of_def)
next
  case (3 r m)
  then show ?case
    by (auto simp: transition_to_spec_def branch_spec_def apply_transition_def absent_def branch_def
        rule_based_transition_def transition_of_config_def mode_of_def)
next
  case (4 ns)
  then show ?case
    by (auto simp: transition_to_spec_def route_to_spec_def apply_transition_def route_to_def
        bounded_routing_transition_def transition_of_config_def mode_of_def)
qed

lemma validated_step_compiles:
  assumes "validate_step c = Inr c" "step_to_spec tr ar c = Inr p"
  obtains s where "compile_step p = Inr s" "implements tr ar c s" "gs_name p = sc_name c"
proof -
  from validate_step_fix [OF assms(1)] have sh: "validate_shape (sc_transition c) = Inr (sc_transition c)"
    and x: "(sc_tool c = None) \<noteq> (sc_agent c = None)" by simp_all
  obtain q where q: "transition_to_spec (sc_transition c) = Inr q"
    and ap: "\<And>s. apply_transition (Some q) s =
      Inr (s\<lparr>sd_transition := Some (transition_of_config (sc_transition c)),
             sd_mode := Some (mode_of (transition_of_config (sc_transition c)))\<rparr>)"
    using shape_applies [OF sh] by blast
  show ?thesis
  proof (cases "sc_tool c")
    case None
    with x obtain n where n: "sc_agent c = Some n" by auto
    with assms(2) None q obtain a where "ar n = Inr a" "gs_transition p = Some q" "gs_tool p = None"
      "gs_agent p = Some a" "gs_name p = sc_name c" "gs_required_artifacts p = sc_required_artifacts c"
      "gs_emitted_artifact p = sc_emitted_artifact c" "gs_approval_override p = sc_approval_override c"
      by (auto simp: step_to_spec_def resolve_opt_def map_sum_Inr split: sum.splits)
    with n None show ?thesis
      by (intro that) (auto simp: compile_step_def new_step_def ap implements_def)
  next
    case (Some n)
    with x have "sc_agent c = None" by auto
    with assms(2) Some q obtain t where "tr n = Inr t" "gs_transition p = Some q" "gs_tool p = Some t"
      "gs_agent p = None" "gs_name p = sc_name c" "gs_required_artifacts p = sc_required_artifacts c"
      "gs_emitted_artifact p = sc_emitted_artifact c" "gs_approval_override p = sc_approval_override c"
      by (auto simp: step_to_spec_def resolve_opt_def map_sum_Inr split: sum.splits)
    with \<open>sc_agent c = None\<close> Some show ?thesis
      by (intro that) (auto simp: compile_step_def new_step_def ap implements_def)
  qed
qed

lemma validated_steps_compile:
  assumes "\<forall>c \<in> set cs. validate_step c = Inr c" "map_res (step_to_spec tr ar) cs = Inr ps"
  shows "\<exists>ss. map compile_step ps = map Inr ss \<and> list_all2 (implements tr ar) cs ss \<and>
    map gs_name ps = map sc_name cs"
  using assms
proof (induction cs arbitrary: ps)
  case Nil
  then show ?case by simp
next
  case (Cons c cs)
  then obtain p rest where ps: "ps = p # rest" and p: "step_to_spec tr ar c = Inr p"
    and rest: "map_res (step_to_spec tr ar) cs = Inr rest"
    by (auto simp: map_sum_def split: sum.splits)
  from Cons.prems(1) have "validate_step c = Inr c" by simp
  from validated_step_compiles [OF this p]
  obtain s where s: "compile_step p = Inr s" "implements tr ar c s" "gs_name p = sc_name c" by blast
  from Cons.IH [OF _ rest] Cons.prems(1) obtain ss where
    "map compile_step rest = map Inr ss" "list_all2 (implements tr ar) cs ss" "map gs_name rest = map sc_name cs"
    by auto
  with s show ?case by (intro exI [of _ "s # ss"]) (simp add: ps)
qed

subsection \<open>The class\<close>

lemma first_duplicate_None:
  "first_duplicate seen ns = None \<longleftrightarrow> distinct ns \<and> set ns \<inter> set seen = {}"
  by (induction seen ns rule: first_duplicate.induct) auto

lemma check_targets_Inr:
  "check_targets seen n what refs = Inr u \<longleftrightarrow> (\<forall>r \<in> set refs. r = END_STEP \<or> r \<in> set seen)"
  by (simp add: check_targets_def unknown_ref_None [symmetric] split: option.split)

lemma check_all_targets_Inr:
  "check_all_targets seen ss = Inr u \<longleftrightarrow> (\<forall>s \<in> set ss. check_step_targets seen s = Inr ())"
  by (induction ss) (auto split: sum.splits)

lemma step_targets_known:
  assumes "check_step_targets seen c = Inr ()" "implements tr ar c s" "t \<in> set (declared_targets s)"
  shows "t = END_STEP \<or> t \<in> set seen"
  using assms
  by (auto simp: check_step_targets_def implements_def declared_targets_def transition_of_config_def Let_def
      assertion_failed_def check_targets_Inr split: transition_kind.splits option.splits)

lemma validate_flow_config_Inr:
  "validate_flow_config c = Inr c' \<longleftrightarrow>
     c' = c \<and> distinct (map sc_name (fc_steps c)) \<and>
     (\<forall>e. fc_entry_step c = Some e \<longrightarrow> e \<in> set (map sc_name (fc_steps c))) \<and>
     (\<forall>s \<in> set (fc_steps c). check_step_targets (map sc_name (fc_steps c)) s = Inr ())"
  by (cases "first_duplicate [] (map sc_name (fc_steps c))")
    (auto simp: validate_flow_config_def validate_transition_targets_def Let_def map_sum_Inr
      check_all_targets_Inr [of _ _ "()"] first_duplicate_None [of "[]", simplified, symmetric]
      split: option.splits if_splits)

lemma implements_names: "list_all2 (implements tr ar) cs ss \<Longrightarrow> map sd_name ss = map sc_name cs"
  by (induction cs ss rule: list_all2_induct) (simp_all add: implements_def)

definition class_of_config :: "flow_config \<Rightarrow> step list \<Rightarrow> workflow_class" where
  "class_of_config c ss =
     \<lparr>wc_name = safe_class_name (fc_name c), wc_steps = map (\<lambda>s. (sd_name s, s)) ss,
      wc_entry = (if ss = [] then None
                  else Some (case fc_entry_step c of None \<Rightarrow> sd_name (hd ss) | Some e \<Rightarrow> e))\<rparr>"

lemma validated_config_class:
  assumes valid: "config_valid c" and spec: "flow_config_to_spec c tr ar pr sr = Inr spec"
    and free: "''entry_step'' \<notin> set (map sc_name (fc_steps c))"
  shows "\<exists>ss. list_all2 (implements tr ar) (fc_steps c) ss \<and> flow_class spec = Inr (class_of_config c ss)"
proof -
  let ?names = "map sc_name (fc_steps c)"
  from spec have ok: "validate_flow_config c = Inr c"
    and steps: "map_res (step_to_spec tr ar) (fc_steps c) = Inr (sp_steps spec)"
    and fields: "sp_name spec = fc_name c" "sp_entry_step spec = fc_entry_step c"
    by (auto simp: flow_config_to_spec_def map_sum_Inr validate_flow_config_def split: sum.splits)
  obtain ss where ss: "map compile_step (sp_steps spec) = map Inr ss" "list_all2 (implements tr ar) (fc_steps c) ss"
    "map gs_name (sp_steps spec) = ?names"
    using validated_steps_compile [OF _ steps] valid by (auto simp: config_valid_def)
  note names = implements_names [OF ss(2)]
  from ok have d: "distinct ?names" and entry: "\<And>e. fc_entry_step c = Some e \<Longrightarrow> e \<in> set ?names"
    and targets: "\<And>k. k \<in> set (fc_steps c) \<Longrightarrow> check_step_targets ?names k = Inr ()"
    by (auto simp: validate_flow_config_Inr)
  have each: "\<exists>k \<in> set (fc_steps c). implements tr ar k s" if "s \<in> set ss" for s
    using that ss(2) by (metis in_set_conv_nth list_all2_conv_all_nth)
  have "flow_class spec = define_workflow (safe_class_name (fc_name c)) [] ss (fc_entry_step c)"
    using flow_class_steps [OF ss(1)] d free by (simp add: ss(3) fields)
  also have "\<dots> = Inr (class_of_config c ss)"
    unfolding class_of_config_def
  proof (rule define_workflow_succeeds)
    show "\<forall>s \<in> set ss. sd_transition s \<noteq> None \<and> sd_mode s \<noteq> None"
      using each by (fastforce simp: implements_def)
    show "\<forall>s \<in> set ss. \<forall>t \<in> set (declared_targets s). t = END_STEP \<or> t \<in> set (map sd_name ss)"
      using each targets step_targets_known by (fastforce simp: names)
  qed (use d entry names in auto)
  finally show ?thesis using ss(2) by blast
qed

subsection \<open>Loading and compiling\<close>


text \<open>Two steps, the first named \<open>first\<close> leading to \<open>last\<close>, written with the shorthand \<open>End\<close>.\<close>

definition plain_step_config :: "string \<Rightarrow> string option \<Rightarrow> string option \<Rightarrow> transition_config \<Rightarrow> step_config" where
  "plain_step_config n tool agent t =
     \<lparr>sc_name = n, sc_tool = tool, sc_agent = agent, sc_required_artifacts = [], sc_emitted_artifact = None,
      sc_approval_override = None, sc_transition = t\<rparr>"

definition then_config :: "string \<Rightarrow> transition_config" where
  "then_config n =
     \<lparr>tc_kind = ThenKind, tc_next_step = Some n, tc_router = Some ''unused'', tc_mapping = None,
      tc_allowed = None\<rparr>"

definition config_of_steps :: "string \<Rightarrow> step_config list \<Rightarrow> flow_config" where
  "config_of_steps n ss =
     \<lparr>fc_version = ''v1'', fc_name = n, fc_steps = ss, fc_entry_step = None, fc_policies = [], fc_skills = [],
      fc_channels = [], fc_interrupts = \<lparr>ix_ttl_seconds = 1800, ix_max_pending = 1\<rparr>\<rparr>"

definition io_of_config :: "flow_config \<Rightarrow> config_io" where
  "io_of_config c =
     \<lparr>io_exists = (\<lambda>_. Inr False), io_read = (\<lambda>_. Inl (Exn (OtherError ''FileNotFoundError'') [])),
      io_json = (\<lambda>_. Inl ''Expecting value''), io_yaml = None, io_fields = (\<lambda>_. Inr c),
      io_show = join '', ''\<rparr>"

definition two_steps :: flow_config where
  "two_steps = config_of_steps ''two steps''
     [plain_step_config ''first'' (Some ''echo'') None (then_config ''last''),
      plain_step_config ''last'' (Some ''echo'') None (then_config ''End'')]"

definition two_steps_loaded :: flow_config where
  "two_steps_loaded = config_of_steps ''two steps''
     [plain_step_config ''first'' (Some ''echo'') None ((then_config ''last'')\<lparr>tc_router := None\<rparr>),
      plain_step_config ''last'' (Some ''echo'') None ((then_config END_STEP)\<lparr>tc_router := None\<rparr>)]"

lemma two_steps_load: "load_flow_config (io_of_config two_steps) (ConfigMapping []) ''auto'' = Inr two_steps_loaded"
  by code_simp

definition two_steps_spec :: governed_flow_spec where
  "two_steps_spec =
     projr (flow_config_to_spec two_steps_loaded (\<lambda>_. Inr echo_tool) (\<lambda>n. Inl (UnknownAgentError n)) None None)"

lemma two_steps_spec:
  "flow_config_to_spec two_steps_loaded (\<lambda>_. Inr echo_tool) (\<lambda>n. Inl (UnknownAgentError n)) None None =
     Inr two_steps_spec"
  by (simp add: two_steps_spec_def flow_config_to_spec_def two_steps_loaded_def config_of_steps_def
      plain_step_config_def then_config_def validate_flow_config_def validate_transition_targets_def
      check_step_targets_def check_targets_def unknown_ref_def step_to_spec_def resolve_opt_def
      transition_to_spec_def resolve_names_def END_STEP_def)


subsection \<open>Registries are not handed on\<close>

lemma register_tool_unregistered:
  "t_name t \<noteq> n \<Longrightarrow> has_tool (snd (register_tool t g)) n = has_tool g n"
  by (auto simp: register_tool_cases has_tool_def)

lemma register_executor_unregistered:
  assumes "\<forall>t. sd_executor s = ToolExec t \<longrightarrow> t_name t \<noteq> n"
  shows "has_tool (fst (snd (register_executor s p))) n = has_tool (fst p) n"
proof (cases "sd_executor s")
  case (ToolExec t)
  with assms register_tool_unregistered [of t n "fst p"] show ?thesis
    by (cases p) (simp add: register_executor_def py_simps perform_def split_beta)
next
  case (AgentExec a)
  then show ?thesis by (cases p) (simp add: register_executor_def py_simps perform_def split_beta)
qed

lemma register_executors_unregistered:
  assumes "\<forall>s \<in> set ss. \<forall>t. sd_executor s = ToolExec t \<longrightarrow> t_name t \<noteq> n"
  shows "has_tool (fst (snd (each register_executor ss p))) n = has_tool (fst p) n"
  using assms
proof (induction ss arbitrary: p)
  case Nil
  then show ?case by (simp add: py_simps)
next
  case (Cons s ss)
  obtain r q where run: "register_executor s p = (r, q)" by (cases "register_executor s p")
  with register_executor_unregistered [of s n p] Cons.prems have "has_tool (fst q) n = has_tool (fst p) n" by simp
  with run Cons show ?case by (cases r) (auto simp: sq_def bnd_def)
qed

lemma new_workflow_unregistered:
  assumes "new_workflow c g h [] = Inr wk" "\<not> has_tool g n"
    and "\<forall>s \<in> set (dvalues (wc_steps c)). \<forall>t. sd_executor s = ToolExec t \<longrightarrow> t_name t \<noteq> n"
  shows "\<not> has_tool (wf_tools wk) n" "wf_steps wk = wc_steps c"
proof -
  let ?run = "each register_executor (dvalues (wc_steps c)) (g, h)"
  obtain r q where run: "?run = (r, q)" by (cases ?run)
  from register_executors_unregistered [OF assms(3), of "(g, h)"] assms(2) run have "\<not> has_tool (fst q) n"
    by simp
  moreover from assms(1) run have "r = Inr ()" "wf_tools wk = fst q" "wf_steps wk = wc_steps c"
    by (auto simp: new_workflow_def register_step_executors_def sq_def bnd_def zoom_def ret_def
        split: sum.splits prod.splits)
  ultimately show "\<not> has_tool (wf_tools wk) n" "wf_steps wk = wc_steps c" by simp_all
qed

lemma workflow_knows_tools:
  assumes "validate_workflow cfg wk = Inr ()" "s \<in> set (dvalues (wf_steps wk))" "sd_executor s = AgentExec a"
    and "n \<in> set (a_allowed_tools a)"
  shows "has_tool (wf_tools wk) n"
proof -
  from assms(1) have "step_fits cfg (wf_tools wk) s"
    using check_placements_result [of cfg "wf_tools wk" "dvalues (wf_steps wk)"] assms(2)
    by (auto simp: validate_workflow_def)
  with assms(3,4) show ?thesis by (auto simp: step_fits_iff tools_known_def)
qed

text \<open>The registries given to \<open>governed_flow_from_config\<close> serve to resolve names only; the workflow
  gets new ones. A configuration whose agent may call a tool that is no step of its own does not
  compile, although the tool is registered.\<close>

theorem config_tools_not_handed_on:
  assumes load: "load_flow_config io inp fmt = Inr c" "\<forall>k. inp = ConfigObject k \<longrightarrow> config_valid k"
    and reg: "tool_registry_ok tools" "ov_tools ov = None"
    and agent: "k \<in> set (fc_steps c)" "sc_agent k = Some n" "get_agent agents n = Inr a"
      "tool \<in> set (a_allowed_tools a)"
    and none: "\<forall>s \<in> set (fc_steps c). sc_tool s \<noteq> Some tool" "fc_skills c = []"
    and free: "''entry_step'' \<notin> set (map sc_name (fc_steps c))"
  shows "\<exists>e. governed_flow_from_config io inp tools agents policies skills defaults ov containment adapter fmt = Inl e"
proof (rule ccontr)
  let ?tr = "registry_tool_resolver tools" and ?ar = "registry_agent_resolver agents"
  let ?opts = "merged_options defaults ov containment adapter"
  assume "\<not> ?thesis"
  then obtain f where "governed_flow_from_config io inp tools agents policies skills defaults ov containment
      adapter fmt = Inr f" by (meson sum.exhaust)
  with load(1) obtain spec where spec: "flow_config_to_spec c ?tr ?ar (coerce_policy_resolver policies)
      (coerce_skill_resolver skills) = Inr spec" and f: "governed_flow ?opts spec = Inr f"
    by (auto simp: governed_flow_from_config_def raised_def map_sum_Inr split: sum.splits)
  obtain ss where ss: "list_all2 (implements ?tr ?ar) (fc_steps c) ss"
    and cl: "flow_class spec = Inr (class_of_config c ss)"
    using validated_config_class [OF load_flow_config_valid [OF load] spec free] by blast
  from spec none(2) have skills: "sp_skills spec = []"
    by (auto simp: flow_config_to_spec_def resolve_names_def split: sum.splits)
  from f cl skills obtain wk where wk: "new_workflow (class_of_config c ss) empty_tool_registry (fo_agents ?opts) [] = Inr wk"
    and val: "validate_workflow (runtime_config ?opts spec) wk = Inr ()"
    using reg(2)
    by (auto simp: governed_flow_def create_workflow_def Let_def merged_options_def or_default_def map_sum_Inr
        split: sum.splits)
  have steps: "dvalues (wc_steps (class_of_config c ss)) = ss"
    by (simp add: class_of_config_def dvalues_def comp_def)
  have other: "t_name t \<noteq> tool" if "s \<in> set ss" "sd_executor s = ToolExec t" for s t
  proof -
    from that(1) ss obtain q where "q \<in> set (fc_steps c)" "implements ?tr ?ar q s"
      by (metis in_set_conv_nth list_all2_conv_all_nth)
    with that(2) obtain m where "sc_tool q = Some m" "?tr m = Inr t" by (auto simp: implements_def)
    moreover from this(2) reg(1) have "t_name t = m"
      by (auto simp: registry_tool_resolver_def get_tool_def get_tool_version_def tool_registry_ok_def
          split: sum.splits option.splits)
    ultimately show ?thesis using none(1) \<open>q \<in> set (fc_steps c)\<close> by auto
  qed
  have "\<not> has_tool (wf_tools wk) tool" and wsteps: "wf_steps wk = wc_steps (class_of_config c ss)"
    using new_workflow_unregistered [OF wk] other
    by (auto simp: steps has_tool_def empty_tool_registry_def dhas_def)
  moreover
  from agent(1) ss obtain s where s: "s \<in> set ss" "implements ?tr ?ar k s"
    by (metis in_set_conv_nth list_all2_conv_all_nth)
  with agent(2,3) have "sd_executor s = AgentExec a"
    by (auto simp: implements_def registry_agent_resolver_def split: executor.splits)
  with workflow_knows_tools [OF val, of s a tool] s(1) agent(4) have "has_tool (wf_tools wk) tool"
    by (simp add: wsteps steps)
  ultimately show False by simp
qed

definition helper_agent :: agent where
  "helper_agent =
     \<lparr>a_name = ''helper'', a_instruction = [], a_input_model = Inr, a_output_model = Inr,
      a_allowed_tools = [''echo''], a_allowed_handoffs = [], a_max_turns = 1, a_max_tool_calls = 1,
      a_requires_approval = False, a_capabilities = [], a_side_effect = False, a_placement = LocalOnly,
      a_remote_name = ''helper'',
      a_handler = (\<lambda>task. Return (Fields \<lparr>ag_status = Final, ag_output_payload = Some JNull,
                                         ag_next_agent = None, ag_reason = None\<rparr>))\<rparr>"

definition helper_flow :: flow_config where
  "helper_flow = config_of_steps ''help''
     [plain_step_config ''ask'' None (Some ''helper'') ((then_config END_STEP)\<lparr>tc_router := None\<rparr>)]"

theorem config_tools_not_handed_on_witness:
  "\<exists>e. governed_flow_from_config (io_of_config helper_flow) (ConfigMapping [])
     (snd (register_tool echo_tool empty_tool_registry)) \<lparr>ar_agents = [(''helper'', helper_agent)], ar_remote = []\<rparr>
     None None no_adapter_config no_overrides LocalDev None ''auto'' = Inl e"
proof (rule config_tools_not_handed_on [where n = "''helper''" and a = helper_agent and tool = "''echo''"
      and c = helper_flow and k = "hd (fc_steps helper_flow)"])
  show "load_flow_config (io_of_config helper_flow) (ConfigMapping []) ''auto'' = Inr helper_flow"
    by code_simp
  show "tool_registry_ok (snd (register_tool echo_tool empty_tool_registry))"
    by (rule register_tool_ok [OF tool_registry_ok_empty])
qed (simp_all add: no_overrides_def helper_flow_def config_of_steps_def plain_step_config_def get_agent_def
    helper_agent_def)

end
