(* ===== verification/Flow_DSL_Contracts.thy ===== *)
theory Flow_DSL_Contracts
  imports Flow_DSL Flow_Contracts
begin

section \<open>What the flow language is read as\<close>

text \<open>
  \<open>tree_of_config\<close> is the parse tree of a configuration written in the flow language, with the position
  \<open>place n\<close> for the statement about \<open>n\<close>. Reading it gives the configuration back. The configurations that
  can be written are \<open>dsl_config\<close>: no empty lists where the grammar would leave a placeholder, no step
  called like the end, no floating-point numbers.
\<close>

subsection \<open>Values\<close>

definition node :: "location \<Rightarrow> string \<Rightarrow> tree list \<Rightarrow> tree" where
  "node l d cs = Tree d cs (fst l) (snd l)"

lemma node_sel [simp]:
  "tree_data (node l d cs) = d" "tree_children (node l d cs) = cs" "is_tree (node l d cs)"
  "location_of (node l d cs) = l" "\<not> is_name_token (node l d cs)"
  by (simp_all add: node_def location_of_def)

definition text_token :: "string \<Rightarrow> tree" where
  "text_token s = Token ''ESCAPED_STRING'' (json_dumps (JStr s))"

fun value_tree :: "location \<Rightarrow> json \<Rightarrow> tree" where
  "value_tree l JNull = node l ''null'' []"
| "value_tree l (JBool b) = node l ''boolean'' [Token ''BOOL'' (if b then ''true'' else ''false'')]"
| "value_tree l (JInt i) = node l ''number'' [Token ''SIGNED_NUMBER'' (int_str i)]"
| "value_tree l (JStr s) = node l ''string'' [text_token s]"
| "value_tree l (JList xs) = node l ''array'' (map (value_tree l) xs)"
| "value_tree l (JObj kvs) =
     node l ''object'' (map (\<lambda>(k, v). node l ''pair'' [text_token k, value_tree l v]) kvs)"

fun dsl_value :: "json \<Rightarrow> bool" where
  "dsl_value (JList xs) = (xs \<noteq> [] \<and> (\<forall>x \<in> set xs. dsl_value x))"
| "dsl_value (JObj kvs) =
     (kvs \<noteq> [] \<and> distinct (map fst kvs) \<and> (\<forall>p \<in> set kvs. dsl_value (snd p)))"
| "dsl_value _ = True"

lemma loads_text [simp]: "loads (json_dumps (JStr s)) = Inr (JStr s)"
  by (simp add: loads_def json_loads_dumps del: json_dumps.simps)

lemma decode_int [simp]: "decode_number float (int_str i) = Inr (JInt i)"
proof -
  have "\<not> is_digit (CHR ''.'')" by code_simp
  then have "CHR ''.'' \<notin> set (nat_str n)" for n using nat_str_digits [of n] by blast
  then have "CHR ''.'' \<notin> set (int_str i)" by (simp add: int_str_def)
  then show ?thesis by (simp add: decode_number_def py_int_str)
qed

lemma extract_values_map:
  "(\<And>x. x \<in> set xs \<Longrightarrow> extract_value float (f x) = Inr (g x)) \<Longrightarrow>
   extract_values float (map f xs) = Inr (map g xs)"
  by (induction xs) auto

lemma object_of_pairs:
  "distinct (map fst kvs) \<Longrightarrow> fst ` set kvs \<inter> fst ` set out = {} \<Longrightarrow>
   object_of (map (\<lambda>(k, v). Pair k v) kvs) out = Inr (out @ kvs)"
proof (induction kvs arbitrary: out)
  case (Cons p kvs)
  obtain k v where p: "p = (k, v)" by (cases p)
  with Cons.prems have "dset k v out = out @ [(k, v)]" by (auto intro!: dset_append_new simp: dhas_iff)
  with Cons p show ?case by auto
qed simp

lemma extract_value_tree: "dsl_value v \<Longrightarrow> extract_value float (value_tree l v) = Inr (Val v)"
proof (induction v)
  case (JBool b)
  have "lower ''true'' = ''true''" "lower ''false'' \<noteq> ''true''" by code_simp+
  then show ?case by (simp add: node_def on_text_def child_def decode_bool_def)
next
  case (JStr s)
  show ?case by (simp add: node_def on_text_def child_def text_token_def del: json_dumps.simps)
next
  case (JList xs)
  then have "extract_values float (map (value_tree l) xs) = Inr (map Val xs)"
    by (intro extract_values_map) auto
  then show ?case by (simp add: node_def comp_def)
next
  case (JObj kvs)
  let ?tree = "\<lambda>(k, v). node l ''pair'' [text_token k, value_tree l v]"
  have pair: "extract_value float (?tree p) = Inr (case p of (k, v) \<Rightarrow> Pair k v)" if "p \<in> set kvs" for p
  proof -
    obtain k v where p: "p = (k, v)" by (cases p)
    with JObj that have "extract_value float (value_tree l v) = Inr (Val v)" by force
    then show ?thesis by (simp add: p node_def text_token_def del: json_dumps.simps)
  qed
  have "extract_values float (map ?tree kvs) = Inr (map (\<lambda>p. case p of (k, v) \<Rightarrow> Pair k v) kvs)"
    by (rule extract_values_map) (rule pair)
  moreover have "object_of (map (\<lambda>(k, v). Pair k v) kvs) [] = Inr kvs"
    using object_of_pairs [of kvs "[]"] JObj.prems by simp
  ultimately show ?case by (simp add: node_def)
qed (simp_all add: node_def on_text_def child_def)

lemma value_of_tree: "dsl_value v \<Longrightarrow> value_of float (value_tree l v) = Inr v"
  by (simp add: value_of_def extract_value_tree)

subsection \<open>Steps\<close>

definition name_token :: "string \<Rightarrow> tree" where
  "name_token n = Token ''NAME'' n"

lemma name_token_sel [simp]: "node_str (name_token n) = n" "is_name_token (name_token n)" "\<not> is_tree (name_token n)"
  by (simp_all add: name_token_def)

definition ref_tree :: "location \<Rightarrow> string \<Rightarrow> tree" where
  "ref_tree l n = node l ''step_ref'' [if n = END_STEP then Token ''END'' ''end'' else name_token n]"

lemma value_of_ref: "value_of float (ref_tree l n) = Inr (JStr (if n = END_STEP then ''end'' else n))"
  by (simp add: value_of_def ref_tree_def node_def name_token_def token_value_def)

lemma normalize_end [simp]: "normalize_step_ref ''end'' = END_STEP"
  by (simp add: normalize_step_ref_def) code_simp

lemma normalize_ref: "normalize_step_ref n = n \<Longrightarrow> normalize_step_ref (if n = END_STEP then ''end'' else n) = n"
  by simp

definition transition_tree :: "location \<Rightarrow> transition_config \<Rightarrow> tree" where
  "transition_tree l t =
     (case tc_kind t of
        ThenKind \<Rightarrow> node l ''then_transition'' [ref_tree l (the (tc_next_step t))]
      | EndKind \<Rightarrow> node l ''then_transition'' [ref_tree l END_STEP]
      | BranchKind \<Rightarrow>
          node l ''branch_transition''
            (name_token (the (tc_router t)) #
             map (\<lambda>(k, v). node l ''mapping_item'' [node l ''map_key'' [text_token k], ref_tree l v])
               (the (tc_mapping t)))
      | RouteToKind \<Rightarrow> node l ''route_transition'' (map (ref_tree l) (the (tc_allowed t))))"

definition dsl_transition :: "transition_config \<Rightarrow> bool" where
  "dsl_transition t \<longleftrightarrow>
     (case tc_kind t of
        ThenKind \<Rightarrow> tc_next_step t \<noteq> Some END_STEP
      | BranchKind \<Rightarrow> distinct (map fst (the (tc_mapping t)))
      | _ \<Rightarrow> True)"

definition step_tree :: "location \<Rightarrow> step_config \<Rightarrow> tree" where
  "step_tree l s =
     node l ''step_stmt''
       ([name_token (sc_name s),
         (case sc_tool s of
            Some t \<Rightarrow> node l ''tool_exec'' [name_token t]
          | None \<Rightarrow> node l ''agent_exec'' [name_token (the (sc_agent s))])] @
        (if sc_required_artifacts s = [] then []
         else [node l ''requires_meta'' (map name_token (sc_required_artifacts s))]) @
        (case sc_emitted_artifact s of None \<Rightarrow> [] | Some n \<Rightarrow> [node l ''emit_meta'' [name_token n]]) @
        (case sc_approval_override s of
           None \<Rightarrow> []
         | Some b \<Rightarrow> [node l ''approval_meta'' [Token ''BOOL'' (if b then ''true'' else ''false'')]]) @
        [transition_tree l (sc_transition s)])"

lemma mapping_of_trees:
  assumes "distinct (map fst m)" "fst ` set m \<inter> fst ` set out = {}"
  shows "mapping_of float (map (\<lambda>(k, v). node l ''mapping_item'' [node l ''map_key'' [text_token k], ref_tree l v]) m) out =
    Inr (out @ map (\<lambda>(k, v). (k, if v = END_STEP then ''end'' else v)) m)"
  using assms
proof (induction m arbitrary: out)
  case Nil
  then show ?case by simp
next
  case (Cons p m)
  obtain k v where p: "p = (k, v)" by (cases p)
  let ?v = "if v = END_STEP then ''end'' else v"
  have key: "value_of float (node l ''map_key'' [text_token k]) = Inr (JStr k)"
    by (simp add: value_of_def node_def map_key_value_def text_token_def del: json_dumps.simps)
  from Cons.prems p have "dset k ?v out = out @ [(k, ?v)]" by (intro dset_append_new) (auto simp: dhas_iff)
  moreover have "mapping_of float (map (\<lambda>(k, v). node l ''mapping_item'' [node l ''map_key'' [text_token k], ref_tree l v]) m)
      (out @ [(k, ?v)]) = Inr ((out @ [(k, ?v)]) @ map (\<lambda>(k, v). (k, if v = END_STEP then ''end'' else v)) m)"
    using Cons.prems p by (intro Cons.IH) auto
  ultimately show ?case by (simp add: p key value_of_ref)
qed

text \<open>A validated transition has only the fields of its kind.\<close>

lemma shape_form:
  assumes "validate_shape t = Inr t"
  shows "(\<exists>n. t = (raw_transition ThenKind)\<lparr>tc_next_step := Some n\<rparr> \<and> n \<noteq> [] \<and> normalize_step_ref n = n) \<or>
    t = (raw_transition EndKind)\<lparr>tc_next_step := Some END_STEP\<rparr> \<or>
    (\<exists>r m. t = (raw_transition BranchKind)\<lparr>tc_router := Some r, tc_mapping := Some m\<rparr> \<and> r \<noteq> [] \<and> m \<noteq> [] \<and>
      (\<forall>(k, v) \<in> set m. normalize_step_ref v = v)) \<or>
    (\<exists>ns. t = (raw_transition RouteToKind)\<lparr>tc_allowed := Some ns\<rparr> \<and> ns \<noteq> [] \<and>
      (\<forall>n \<in> set ns. normalize_step_ref n = n))"
proof -
  obtain k n r m a where t: "t = \<lparr>tc_kind = k, tc_next_step = n, tc_router = r, tc_mapping = m, tc_allowed = a\<rparr>"
    by (cases t) auto
  have vals: "map (\<lambda>(k, v). (k, normalize_step_ref v)) xs = xs \<Longrightarrow> \<forall>(k, v) \<in> set xs. normalize_step_ref v = v" for xs :: "string dict"
    by (induction xs) auto
  have names: "map normalize_step_ref xs = xs \<Longrightarrow> \<forall>n \<in> set xs. normalize_step_ref n = n" for xs
    by (induction xs) auto
  show ?thesis
  proof (cases k)
    case ThenKind
    with assms show ?thesis by (cases n) (auto simp: t validate_shape_def raw_transition_def absent_def split: if_splits)
  next
    case EndKind
    with assms show ?thesis by (auto simp: t validate_shape_def raw_transition_def)
  next
    case BranchKind
    with assms vals show ?thesis
      by (cases r; cases m) (auto simp: t validate_shape_def raw_transition_def absent_def split: if_splits)
  next
    case RouteToKind
    with assms names show ?thesis
      by (cases a) (auto simp: t validate_shape_def raw_transition_def split: if_splits)
  qed
qed

lemma map_res_map: "(\<And>x. x \<in> set xs \<Longrightarrow> f (g x) = Inr (h x)) \<Longrightarrow> map_res f (map g xs) = Inr (map h xs)"
  by (induction xs) auto

lemma map_fix: "(\<And>x. x \<in> set xs \<Longrightarrow> f x = x) \<Longrightarrow> map f xs = xs"
  by (induction xs) auto

lemma transition_part:
  assumes "validate_shape t = Inr t" "dsl_transition t"
  shows "step_part io (transition_tree l t) p = Inr (p\<lparr>pt_transition := Some t\<rparr>)"
  using shape_form [OF assms(1)]
proof (elim disjE exE conjE)
  fix n assume t: "t = (raw_transition ThenKind)\<lparr>tc_next_step := Some n\<rparr>" and n: "normalize_step_ref n = n" "n \<noteq> []"
  with assms(2) have "n \<noteq> END_STEP" by (simp add: dsl_transition_def raw_transition_def)
  with n(1) have "lower n \<noteq> ''end''" by (auto simp: normalize_step_ref_def)
  moreover have "checked_transition io t = Inr t" using assms(1) by (simp add: checked_transition_def)
  ultimately show ?thesis
    using \<open>n \<noteq> END_STEP\<close> by (simp add: t transition_tree_def raw_transition_def step_part_def then_part_def value_of_ref)
next
  assume t: "t = (raw_transition EndKind)\<lparr>tc_next_step := Some END_STEP\<rparr>"
  moreover have "lower ''end'' = ''end''" by code_simp
  ultimately show ?thesis
    by (simp add: transition_tree_def raw_transition_def step_part_def then_part_def value_of_ref
        checked_transition_def validate_shape_def)
next
  fix r m assume t: "t = (raw_transition BranchKind)\<lparr>tc_router := Some r, tc_mapping := Some m\<rparr>"
    and m: "r \<noteq> []" "m \<noteq> []" "\<forall>(k, v) \<in> set m. normalize_step_ref v = v"
  have "map (\<lambda>(k, v). (k, normalize_step_ref (if v = END_STEP then ''end'' else v))) m = m"
    by (rule map_fix) (use m(3) in auto)
  then have norm: "map (\<lambda>(k, v). (k, normalize_step_ref v)) (map (\<lambda>(k, v). (k, if v = END_STEP then ''end'' else v)) m) = m"
    by (simp add: comp_def split_def)
  from assms(2) t have d: "distinct (map fst m)" by (simp add: dsl_transition_def raw_transition_def)
  show ?thesis
    using m(1,2) norm mapping_of_trees [OF d, of "[]"]
    by (simp add: t transition_tree_def raw_transition_def step_part_def branch_part_def checked_transition_def
        validate_shape_def absent_def)
next
  fix ns assume t: "t = (raw_transition RouteToKind)\<lparr>tc_allowed := Some ns\<rparr>"
    and ns: "ns \<noteq> []" "\<forall>n \<in> set ns. normalize_step_ref n = n"
  have "map_res (value_of (dl_float io)) (map (ref_tree l) ns) = Inr (map (\<lambda>n. JStr (if n = END_STEP then ''end'' else n)) ns)"
    by (rule map_res_map) (rule value_of_ref)
  moreover have "map normalize_step_ref (map py_str (map (\<lambda>n. JStr (if n = END_STEP then ''end'' else n)) ns)) = ns"
    unfolding map_map by (rule map_fix) (use ns(2) in auto)
  ultimately show ?thesis
    using ns(1) by (simp add: t transition_tree_def raw_transition_def step_part_def route_part_def
        checked_transition_def validate_shape_def)
qed

lemma step_parts_of_append:
  "step_parts_of io (xs @ ys) p =
     (case step_parts_of io xs p of Inl e \<Rightarrow> Inl e | Inr p' \<Rightarrow> step_parts_of io ys p')"
  by (induction xs arbitrary: p) (auto split: sum.splits)

lemma bool_text: "lower (if b then ''true'' else ''false'') = ''true'' \<longleftrightarrow> b"
proof -
  have "lower ''true'' = ''true''" "lower ''false'' \<noteq> ''true''" by code_simp+
  then show ?thesis by simp
qed

lemma step_parts_tree:
  assumes "validate_shape (sc_transition s) = Inr (sc_transition s)" "dsl_transition (sc_transition s)"
  shows "step_parts_of io (drop 2 (tree_children (step_tree l s))) no_parts =
    Inr \<lparr>pt_required = sc_required_artifacts s, pt_emitted = sc_emitted_artifact s,
         pt_override = sc_approval_override s, pt_transition = Some (sc_transition s)\<rparr>"
proof -
  have req: "step_parts_of io (if xs = [] then [] else [node l ''requires_meta'' (map name_token xs)]) no_parts =
      Inr \<lparr>pt_required = xs, pt_emitted = None, pt_override = None, pt_transition = None\<rparr>" for xs
    by (cases xs) (simp_all add: no_parts_def step_part_def comp_def)
  have emit: "step_parts_of io (case x of None \<Rightarrow> [] | Some n \<Rightarrow> [node l ''emit_meta'' [name_token n]])
        \<lparr>pt_required = xs, pt_emitted = None, pt_override = None, pt_transition = None\<rparr> =
      Inr \<lparr>pt_required = xs, pt_emitted = x, pt_override = None, pt_transition = None\<rparr>" for x xs
    by (cases x) (simp_all add: step_part_def)
  have app: "step_parts_of io (case x of None \<Rightarrow> [] | Some b \<Rightarrow>
        [node l ''approval_meta'' [Token ''BOOL'' (if b then ''true'' else ''false'')]])
        \<lparr>pt_required = xs, pt_emitted = y, pt_override = None, pt_transition = None\<rparr> =
      Inr \<lparr>pt_required = xs, pt_emitted = y, pt_override = x, pt_transition = None\<rparr>" for x y xs
    using bool_text by (cases x) (simp_all add: step_part_def)
  show ?thesis
    by (simp add: step_tree_def step_parts_of_append req emit app transition_part [OF assms])
qed

lemma step_tree_children:
  "tree_children (step_tree l s) =
     name_token (sc_name s) #
     (case sc_tool s of
        Some t \<Rightarrow> node l ''tool_exec'' [name_token t]
      | None \<Rightarrow> node l ''agent_exec'' [name_token (the (sc_agent s))]) #
     drop 2 (tree_children (step_tree l s))"
  by (simp add: step_tree_def)

lemma step_item_tree:
  assumes "validate_step s = Inr s" "dsl_transition (sc_transition s)" "\<not> dhas (da_step_locations a) (sc_name s)"
  shows "flow_item io (step_tree l s) a =
    Inr (a\<lparr>da_step_locations := da_step_locations a @ [(sc_name s, l)],
           da_flow := (da_flow a)\<lparr>fc_steps := fc_steps (da_flow a) @ [s]\<rparr>\<rparr>)"
proof -
  note v = validate_step_fix [OF assms(1)]
  note parts = step_parts_tree [OF v(1) assms(2), of io l]
  have item: "flow_item io (step_tree l s) a = step_item io (step_tree l s) a"
    by (simp add: flow_item_def step_tree_def)
  have loc: "location_of (step_tree l s) = l" by (simp add: step_tree_def)
  have app: "dset (sc_name s) l (da_step_locations a) = da_step_locations a @ [(sc_name s, l)]"
    by (rule dset_append_new [OF assms(3)])
  show ?thesis
  proof (cases "sc_tool s")
    case None
    with v(2) obtain n where "sc_agent s = Some n" by auto
    with None assms(3) show ?thesis
      unfolding item step_item_def
      by (subst step_tree_children) (simp add: parts loc app child_def step_of_parts_def Let_def)
  next
    case (Some n)
    with v(2) have "sc_agent s = None" by auto
    with Some assms(3) show ?thesis
      unfolding item step_item_def
      by (subst step_tree_children) (simp add: parts loc app child_def step_of_parts_def Let_def)
  qed
qed

lemma flow_items_append:
  "flow_items io (xs @ ys) a = (case flow_items io xs a of Inl e \<Rightarrow> Inl e | Inr a' \<Rightarrow> flow_items io ys a')"
  by (induction xs arbitrary: a) (auto split: sum.splits)

lemma flow_items_steps:
  assumes "\<forall>s \<in> set ss. validate_step s = Inr s \<and> dsl_transition (sc_transition s)"
    and "distinct (map sc_name ss)" "sc_name ` set ss \<inter> fst ` set (da_step_locations a) = {}"
  shows "flow_items io (map (\<lambda>s. step_tree (place (sc_name s)) s) ss) a =
    Inr (a\<lparr>da_step_locations := da_step_locations a @ map (\<lambda>s. (sc_name s, place (sc_name s))) ss,
           da_flow := (da_flow a)\<lparr>fc_steps := fc_steps (da_flow a) @ ss\<rparr>\<rparr>)"
  using assms
proof (induction ss arbitrary: a)
  case Nil
  then show ?case by simp
next
  case (Cons s ss)
  then have "\<not> dhas (da_step_locations a) (sc_name s)" by (auto simp: dhas_iff)
  with Cons.prems(1) have "flow_item io (step_tree (place (sc_name s)) s) a =
      Inr (a\<lparr>da_step_locations := da_step_locations a @ [(sc_name s, place (sc_name s))],
             da_flow := (da_flow a)\<lparr>fc_steps := fc_steps (da_flow a) @ [s]\<rparr>\<rparr>)"
    by (intro step_item_tree) auto
  moreover note Cons.IH [of "a\<lparr>da_step_locations := da_step_locations a @ [(sc_name s, place (sc_name s))],
             da_flow := (da_flow a)\<lparr>fc_steps := fc_steps (da_flow a) @ [s]\<rparr>\<rparr>"]
  ultimately show ?case using Cons.prems by auto
qed

subsection \<open>Flows\<close>

definition channel_tree :: "location \<Rightarrow> channel_config \<Rightarrow> tree" where
  "channel_tree l c =
     node l ''channel_stmt''
       [name_token (cc_name c), name_token (cc_reducer c),
        (if cc_initial c = JNull then Absent else value_tree l (cc_initial c))]"

lemma flow_items_channels:
  assumes "\<forall>c \<in> set cs. dsl_value (cc_initial c)"
  shows "flow_items io (map (channel_tree l) cs) a =
    Inr (a\<lparr>da_flow := (da_flow a)\<lparr>fc_channels := fc_channels (da_flow a) @ cs\<rparr>\<rparr>)"
  using assms
proof (induction cs arbitrary: a)
  case Nil
  then show ?case by simp
next
  case (Cons c cs)
  have "value_of float (if cc_initial c = JNull then Absent else value_tree l (cc_initial c)) = Inr (cc_initial c)" for float
    using Cons.prems value_of_tree by (simp add: value_of_def [of float Absent])
  then have "flow_item io (channel_tree l c) a =
      Inr (a\<lparr>da_flow := (da_flow a)\<lparr>fc_channels := fc_channels (da_flow a) @ [c]\<rparr>\<rparr>)"
    by (simp add: flow_item_def channel_tree_def channel_item_def channel_rest_def escaping_def)
  with Cons show ?case by simp
qed

definition names_tree :: "location \<Rightarrow> string \<Rightarrow> string list \<Rightarrow> tree list" where
  "names_tree l d ns = (if ns = [] then [] else [node l d (map name_token ns)])"

definition interrupts_tree :: "location \<Rightarrow> interrupt_config \<Rightarrow> tree" where
  "interrupts_tree l i =
     node l ''interrupt_stmt''
       [Token ''INT'' (int_str (ix_ttl_seconds i)), Token ''INT'' (int_str (ix_max_pending i))]"

definition header_trees :: "location \<Rightarrow> flow_config \<Rightarrow> tree list" where
  "header_trees l c =
     (case fc_entry_step c of None \<Rightarrow> [] | Some e \<Rightarrow> [node l ''entry_stmt'' [ref_tree l e]]) @
     names_tree l ''policy_stmt'' (fc_policies c) @ names_tree l ''skill_stmt'' (fc_skills c) @
     [interrupts_tree l (fc_interrupts c)]"

definition tree_of_config :: "(string \<Rightarrow> location) \<Rightarrow> flow_config \<Rightarrow> tree" where
  "tree_of_config place c =
     node (place []) ''start''
       [node (place []) ''flow''
          (name_token (fc_name c) # header_trees (place []) c @
           map (channel_tree (place [])) (fc_channels c) @
           map (\<lambda>s. step_tree (place (sc_name s)) s) (fc_steps c))]"

definition dsl_config :: "flow_config \<Rightarrow> bool" where
  "dsl_config c \<longleftrightarrow>
     fc_version c = ''v1'' \<and> config_valid c \<and> distinct (map sc_name (fc_steps c)) \<and>
     (\<forall>s \<in> set (fc_steps c). dsl_transition (sc_transition s)) \<and>
     (\<forall>ch \<in> set (fc_channels c). dsl_value (cc_initial ch)) \<and>
     fc_entry_step c \<noteq> Some END_STEP \<and>
     0 \<le> ix_ttl_seconds (fc_interrupts c) \<and> 0 \<le> ix_max_pending (fc_interrupts c)"

definition ast_of_config :: "(string \<Rightarrow> location) \<Rightarrow> flow_config \<Rightarrow> dsl_ast" where
  "ast_of_config place c =
     \<lparr>da_flow = c, da_step_locations = map (\<lambda>s. (sc_name s, place (sc_name s))) (fc_steps c),
      da_entry_location = map_option (\<lambda>_. place []) (fc_entry_step c)\<rparr>"

lemma flow_items_names:
  "flow_items io (names_tree l ''policy_stmt'' ns) a =
     Inr (a\<lparr>da_flow := (da_flow a)\<lparr>fc_policies := fc_policies (da_flow a) @ ns\<rparr>\<rparr>)"
  "flow_items io (names_tree l ''skill_stmt'' ns) a =
     Inr (a\<lparr>da_flow := (da_flow a)\<lparr>fc_skills := fc_skills (da_flow a) @ ns\<rparr>\<rparr>)"
  by (simp_all add: names_tree_def flow_item_def comp_def Let_def)

lemma flow_items_header:
  assumes "fc_entry_step c \<noteq> Some END_STEP"
  shows "flow_items io (header_trees l c)
      \<lparr>da_flow = empty_config n, da_step_locations = [], da_entry_location = None\<rparr> =
    Inr \<lparr>da_flow = (empty_config n)\<lparr>fc_entry_step := fc_entry_step c, fc_policies := fc_policies c,
            fc_skills := fc_skills c, fc_interrupts := fc_interrupts c\<rparr>,
         da_step_locations = [], da_entry_location = map_option (\<lambda>_. l) (fc_entry_step c)\<rparr>"
proof -
  have interrupts: "flow_items io [interrupts_tree l i] a =
      Inr (a\<lparr>da_flow := (da_flow a)\<lparr>fc_interrupts := i\<rparr>\<rparr>)" for i a
    by (simp add: flow_item_def interrupts_tree_def interrupt_item_def py_int_str escaping_def)
  show ?thesis
  proof (cases "fc_entry_step c")
    case None
    then show ?thesis
      by (simp add: header_trees_def flow_items_append flow_items_names interrupts empty_config_def del: flow_items.simps(2))
  next
    case (Some e)
    with assms have "flow_items io [node l ''entry_stmt'' [ref_tree l e]] a =
        Inr (a\<lparr>da_flow := (da_flow a)\<lparr>fc_entry_step := Some e\<rparr>, da_entry_location := Some l\<rparr>)" for a
      by (simp add: flow_item_def entry_item_def child_def value_of_ref escaping_def)
    then show ?thesis
      unfolding header_trees_def Some option.case flow_items_append
      by (simp only: sum.case flow_items_names interrupts) (simp add: empty_config_def)
  qed
qed

lemma built_tree:
  assumes "dsl_config c"
  shows "build_ast io (tree_of_config place c) =
    (case validate_flow_config c of
       Inl e \<Rightarrow> validation_error (ast_of_config place c) e
     | Inr _ \<Rightarrow> Inr (ast_of_config place c))"
proof -
  from assms have steps: "\<forall>s \<in> set (fc_steps c). validate_step s = Inr s \<and> dsl_transition (sc_transition s)"
    and d: "distinct (map sc_name (fc_steps c))" and ch: "\<forall>ch \<in> set (fc_channels c). dsl_value (cc_initial ch)"
    and en: "fc_entry_step c \<noteq> Some END_STEP" and v1: "fc_version c = ''v1''"
    by (auto simp: dsl_config_def config_valid_def)
  let ?items = "header_trees (place []) c @ map (channel_tree (place [])) (fc_channels c) @
      map (\<lambda>s. step_tree (place (sc_name s)) s) (fc_steps c)"
  have items: "flow_items io ?items
      \<lparr>da_flow = empty_config (fc_name c), da_step_locations = [], da_entry_location = None\<rparr> =
      Inr (ast_of_config place c)"
    using v1 by (simp add: flow_items_append flow_items_header [OF en] flow_items_channels [OF ch]
        flow_items_steps [OF steps d] ast_of_config_def) (simp add: empty_config_def)
  from assms have valid: "validate_model f c = Inr c" for f
    by (intro validate_model_fix) (simp add: dsl_config_def)
  have "find_node (tree_of_config place c) ''flow'' = Some (node (place []) ''flow'' (name_token (fc_name c) # ?items))"
    by (simp add: find_node_def tree_of_config_def node_def)
  then show ?thesis
    by (simp add: build_ast_def items checked_ast_def valid ast_of_config_def split: sum.split)
qed


definition dsl_example :: flow_config where
  "dsl_example = (config_of_steps ''calc_flow''
     [plain_step_config ''first'' (Some ''gov.add'') None ((raw_transition ThenKind)\<lparr>tc_next_step := Some ''decide''\<rparr>),
      (plain_step_config ''decide'' (Some ''gov.branch'') None
         ((raw_transition BranchKind)\<lparr>tc_router := Some ''route'',
            tc_mapping := Some [(''even'', ''first''), (''odd'', END_STEP)]\<rparr>))\<lparr>sc_approval_override := Some True\<rparr>])
     \<lparr>fc_entry_step := Some ''first'',
      fc_channels := [\<lparr>cc_name = ''profile'', cc_reducer = ''merge'', cc_initial = JObj [(''role'', JStr ''agent'')]\<rparr>]\<rparr>"

definition silent_dsl :: dsl_io where
  "silent_dsl =
     \<lparr>dl_parse = (\<lambda>_. Inl (1, 1)), dl_float = (\<lambda>s. Inl (Exn ValueError s)), dl_config = io_of_config dsl_example\<rparr>"


subsection \<open>What is read compiles\<close>

lemma error_never_Inr [simp]:
  "semantic_error msg loc \<noteq> Inr x" "syntax_error msg loc \<noteq> Inr x" "escaping index_error \<noteq> Inr x"
  by (simp_all add: semantic_error_def syntax_error_def escaping_def index_error_def)

lemma validation_error_never_Inr [simp]: "validation_error a e \<noteq> Inr x"
  by (cases e) (simp_all add: validation_error_def)

lemma checked_ast_Inr:
  assumes "checked_ast io b = Inr a"
  shows "config_valid (da_flow a)" "validate_flow_config (da_flow a) = Inr (da_flow a)"
proof -
  obtain c where c: "validate_model (io_show (dl_config io)) (da_flow b) = Inr c"
    using assms by (cases "validate_model (io_show (dl_config io)) (da_flow b)") (simp_all add: checked_ast_def)
  obtain d where d: "validate_flow_config c = Inr d"
    using assms by (cases "validate_flow_config c") (simp_all add: checked_ast_def c)
  then have "d = c" by (cases "validate_transition_targets c") (simp_all add: validate_flow_config_def)
  moreover have "da_flow a = c" using assms by (auto simp: checked_ast_def c d)
  ultimately show "config_valid (da_flow a)" "validate_flow_config (da_flow a) = Inr (da_flow a)"
    using c d by (auto intro: validate_model_valid)
qed

lemma parsed_ast_checked:
  assumes "parse_dsl io t = Inr a"
  shows "config_valid (da_flow a)" "validate_flow_config (da_flow a) = Inr (da_flow a)"
proof -
  obtain tree where "build_ast io tree = Inr a"
    using assms by (cases "parse_lark_tree io t") (simp_all add: parse_dsl_def)
  then obtain flow where flow: "find_node tree ''flow'' = Some flow" and
    rest: "(case tree_children flow of [] \<Rightarrow> escaping index_error
       | name # items \<Rightarrow>
           (case flow_items io items \<lparr>da_flow = empty_config (node_str name), da_step_locations = [],
                                      da_entry_location = None\<rparr> of
              Inl e \<Rightarrow> Inl e | Inr a \<Rightarrow> checked_ast io a)) = Inr a"
    by (cases "find_node tree ''flow''") (simp_all add: build_ast_def)
  from rest obtain name items where ch: "tree_children flow = name # items" by (cases "tree_children flow") simp_all
  from rest obtain b where "checked_ast io b = Inr a"
    by (cases "flow_items io items \<lparr>da_flow = empty_config (node_str name), da_step_locations = [],
        da_entry_location = None\<rparr>") (simp_all add: ch)
  then show "config_valid (da_flow a)" "validate_flow_config (da_flow a) = Inr (da_flow a)"
    by (rule checked_ast_Inr)+
qed

lemma map_res_total: "(\<And>x. x \<in> set xs \<Longrightarrow> \<exists>y. f x = Inr y) \<Longrightarrow> \<exists>ys. map_res f xs = Inr ys"
proof (induction xs)
  case (Cons x xs)
  then obtain y ys where "f x = Inr y" "map_res f xs = Inr ys" by (meson list.set_intros)
  then show ?case by simp
qed simp

lemma known_tool_resolves: "has_tool g n \<Longrightarrow> \<exists>t. registry_tool_resolver g n = Inr t"
  by (cases "dget (tg_tools g) (n, DEFAULT_VERSION)")
    (simp_all add: has_tool_def dhas_def registry_tool_resolver_def get_tool_def get_tool_version_def)

lemma known_agent_resolves: "has_agent g n \<Longrightarrow> \<exists>t. registry_agent_resolver g n = Inr t"
  by (cases "dget (ar_agents g) n")
    (simp_all add: has_agent_def dhas_def registry_agent_resolver_def get_agent_def)

lemma resolve_opt_total: "(\<And>x. n = Some x \<Longrightarrow> \<exists>y. f x = Inr y) \<Longrightarrow> \<exists>y. resolve_opt f n = Inr y"
  by (cases n) (auto simp: resolve_opt_def map_sum_Inr)

text \<open>The compiler of the flow language accepts only what compiles. A text that \<open>parse_dsl\<close> reads, whose
  tools and agents are registered and which names no policies or skills, yields a specification, and the
  workflow class of that specification exists and has exactly the steps of the text.\<close>

theorem dsl_text_compiles:
  assumes parsed: "parse_dsl io text = Inr a"
    and tools: "\<forall>s \<in> set (fc_steps (da_flow a)). \<forall>n. sc_tool s = Some n \<longrightarrow> has_tool tools n"
    and agents: "\<forall>s \<in> set (fc_steps (da_flow a)). \<forall>n. sc_agent s = Some n \<longrightarrow> has_agent agents n"
    and none: "fc_policies (da_flow a) = []" "fc_skills (da_flow a) = []"
    and free: "''entry_step'' \<notin> set (map sc_name (fc_steps (da_flow a)))"
  shows "\<exists>spec ss.
    flow_config_to_spec (da_flow a) (registry_tool_resolver tools) (registry_agent_resolver agents) None None = Inr spec \<and>
    list_all2 (implements (registry_tool_resolver tools) (registry_agent_resolver agents)) (fc_steps (da_flow a)) ss \<and>
    flow_class spec = Inr (class_of_config (da_flow a) ss)"
proof -
  let ?c = "da_flow a" and ?tr = "registry_tool_resolver tools" and ?ar = "registry_agent_resolver agents"
  note valid = parsed_ast_checked [OF parsed]
  have "\<exists>p. step_to_spec ?tr ?ar s = Inr p" if "s \<in> set (fc_steps ?c)" for s
  proof -
    have "\<exists>x. resolve_opt ?tr (sc_tool s) = Inr x"
      by (rule resolve_opt_total) (rule known_tool_resolves, use tools that in blast)
    moreover have "\<exists>x. resolve_opt ?ar (sc_agent s) = Inr x"
      by (rule resolve_opt_total) (rule known_agent_resolves, use agents that in blast)
    moreover from valid(1) that have "validate_step s = Inr s" by (simp add: config_valid_def)
    from shape_applies [OF validate_step_fix(1) [OF this]]
    have "\<exists>q. transition_to_spec (sc_transition s) = Inr q" by blast
    ultimately show ?thesis by (auto simp: step_to_spec_def)
  qed
  from map_res_total [where f = "step_to_spec ?tr ?ar" and xs = "fc_steps ?c", OF this] obtain ps where "map_res (step_to_spec ?tr ?ar) (fc_steps ?c) = Inr ps" by blast
  then have "\<exists>spec. flow_config_to_spec ?c ?tr ?ar None None = Inr spec"
    using none by (simp add: flow_config_to_spec_def valid(2) resolve_names_def)
  with validated_config_class [OF valid(1) _ free] show ?thesis by blast
qed

definition example_dsl :: dsl_io where
  "example_dsl = silent_dsl\<lparr>dl_parse := (\<lambda>_. Inr (tree_of_config (\<lambda>_. (1, 1)) dsl_example))\<rparr>"

definition example_tools :: tool_registry where
  "example_tools =
     \<lparr>tg_tools = map (\<lambda>n. ((n, DEFAULT_VERSION), echo_tool\<lparr>t_name := n\<rparr>)) [''gov.add'', ''gov.branch''],
      tg_remote = []\<rparr>"

theorem dsl_text_compiles_witness:
  "\<exists>spec ss.
    flow_config_to_spec dsl_example (registry_tool_resolver example_tools)
      (registry_agent_resolver empty_agent_registry) None None = Inr spec \<and>
    list_all2 (implements (registry_tool_resolver example_tools) (registry_agent_resolver empty_agent_registry))
      (fc_steps dsl_example) ss \<and>
    flow_class spec = Inr (class_of_config dsl_example ss)"
proof -
  have "dsl_config dsl_example" by code_simp
  moreover have "validate_flow_config dsl_example = Inr dsl_example" by code_simp
  ultimately have "parse_dsl example_dsl [] = Inr (ast_of_config (\<lambda>_. (1, 1)) dsl_example)"
    by (simp add: parse_dsl_def parse_lark_tree_def example_dsl_def built_tree)
  from dsl_text_compiles [OF this, of example_tools empty_agent_registry] show ?thesis
    by (simp add: ast_of_config_def) (simp add: dsl_example_def config_of_steps_def plain_step_config_def
        example_tools_def has_tool_def dhas_def)
qed

subsection \<open>Placeholders\<close>

text \<open>A channel with an initial value but no reducer: the placeholder of the reducer is taken for the
  value, and the value is dropped.\<close>

lemma initial_without_reducer_is_dropped:
  "flow_item io (node l ''channel_stmt'' [name_token n, Absent, v]) a =
     Inr (a\<lparr>da_flow := (da_flow a)\<lparr>fc_channels := fc_channels (da_flow a) @
       [\<lparr>cc_name = n, cc_reducer = ''replace'', cc_initial = JNull\<rparr>]\<rparr>\<rparr>)"
  by (simp add: flow_item_def channel_item_def channel_rest_def escaping_def value_of_def)

text \<open>An empty list is read as the list of the one name \<open>None\<close>.\<close>

lemma empty_requires_is_None:
  "step_part io (node l ''requires_meta'' [Absent]) p = Inr (p\<lparr>pt_required := [''None'']\<rparr>)"
  by (simp add: step_part_def)

lemma empty_route_is_None:
  "step_part io (node l ''route_transition'' [Absent]) p =
     Inr (p\<lparr>pt_transition := Some ((raw_transition RouteToKind)\<lparr>tc_allowed := Some [''None'']\<rparr>)\<rparr>)"
proof -
  have "normalize_step_ref ''None'' = ''None''" by code_simp
  then show ?thesis
    by (simp add: step_part_def route_part_def value_of_def checked_transition_def validate_shape_def
        raw_transition_def)
qed

text \<open>An empty mapping raises Pydantic's error, not one of the language.\<close>

lemma empty_branch_escapes:
  assumes "r \<noteq> []"
  shows "step_part io (node l ''branch_transition'' [name_token r, Absent]) p =
     Inl (Escaped (Raised (Exn ValidationError
       (io_show (dl_config io) [''branch transition requires non-empty mapping'']))))"
  using assms by (simp add: step_part_def branch_part_def checked_transition_def validate_shape_def
      raw_transition_def absent_def)

end
