(* ===== verification/Flow_Grammar.thy ===== *)
theory Flow_Grammar
  imports Flow_DSL_Contracts
begin

section \<open>The grammar of the flow language\<close>

text \<open>
  The parser itself is \<open>lark\<close>'s, but the grammar it is given is the text \<open>_GRAMMAR\<close> of \<open>app/dsl.py\<close>. Each of its
  rules is a predicate on trees here, by \<open>lark\<close>'s documented shaping: keywords and punctuation leave no child,
  \<open>?rule\<close> and aliases \<open>-> name\<close> decide the name of a node, an absent \<open>[...]\<close> is \<open>Absent\<close>. What the texts of
  \<open>ESCAPED_STRING\<close> and \<open>SIGNED_NUMBER\<close> are does not matter; \<open>legible\<close> says that they can be decoded.

  Any legible tree of the grammar is read, or refused with a \<open>DSLSemanticError\<close> that carries the position of the
  statement at fault: no shape of the grammar runs into an \<open>IndexError\<close>, a missing transition or a message of
  Pydantic.
\<close>

subsection \<open>Rules\<close>

definition token_of :: "string \<Rightarrow> (string \<Rightarrow> bool) \<Rightarrow> tree \<Rightarrow> bool" where
  "token_of kind P t = (case t of Token k s \<Rightarrow> k = kind \<and> P s | _ \<Rightarrow> False)"

definition rule_of :: "string \<Rightarrow> (tree list \<Rightarrow> bool) \<Rightarrow> tree \<Rightarrow> bool" where
  "rule_of d P t = (case t of Tree d' cs _ _ \<Rightarrow> d' = d \<and> P cs | _ \<Rightarrow> False)"

text \<open>A sequence of symbols; \<open>x ("," x)*\<close>; the same in brackets; \<open>[x]\<close>.\<close>

definition symbols :: "(tree \<Rightarrow> bool) list \<Rightarrow> tree list \<Rightarrow> bool" where
  "symbols Ps cs = list_all2 (\<lambda>P c. P c) Ps cs"

definition some_of :: "(tree \<Rightarrow> bool) \<Rightarrow> tree list \<Rightarrow> bool" where
  "some_of P cs \<longleftrightarrow> cs \<noteq> [] \<and> list_all P cs"

definition listed :: "(tree \<Rightarrow> bool) \<Rightarrow> tree list \<Rightarrow> bool" where
  "listed P cs \<longleftrightarrow> cs = [Absent] \<or> some_of P cs"

definition optional :: "(tree \<Rightarrow> bool) \<Rightarrow> tree \<Rightarrow> bool" where
  "optional P t \<longleftrightarrow> t = Absent \<or> P t"

text \<open>Terminals.\<close>

definition name_start :: "char \<Rightarrow> bool" where
  "name_start c \<longleftrightarrow> CHR ''A'' \<le> c \<and> c \<le> CHR ''Z'' \<or> CHR ''a'' \<le> c \<and> c \<le> CHR ''z'' \<or> c = CHR ''_''"

definition name_char :: "char \<Rightarrow> bool" where
  "name_char c \<longleftrightarrow> name_start c \<or> is_digit c \<or> c = CHR ''.'' \<or> c = CHR ''-''"

fun name_text :: "string \<Rightarrow> bool" where
  "name_text [] = False"
| "name_text (c # cs) = (name_start c \<and> list_all name_char cs)"

definition digits_text :: "string \<Rightarrow> bool" where
  "digits_text s \<longleftrightarrow> s \<noteq> [] \<and> list_all is_digit s"

definition g_NAME :: "tree \<Rightarrow> bool" where
  "g_NAME = token_of ''NAME'' name_text"

definition g_INT :: "tree \<Rightarrow> bool" where
  "g_INT = token_of ''INT'' digits_text"

definition g_BOOL :: "tree \<Rightarrow> bool" where
  "g_BOOL = token_of ''BOOL'' (\<lambda>s. lower s = ''true'' \<or> lower s = ''false'')"

definition g_END :: "tree \<Rightarrow> bool" where
  "g_END = token_of ''END'' (\<lambda>s. lower s = ''end'')"

definition g_STRING :: "tree \<Rightarrow> bool" where
  "g_STRING = token_of ''ESCAPED_STRING'' (\<lambda>_. True)"

definition g_NUMBER :: "tree \<Rightarrow> bool" where
  "g_NUMBER = token_of ''SIGNED_NUMBER'' (\<lambda>_. True)"

text \<open>Values.\<close>

fun g_value :: "tree \<Rightarrow> bool" and g_pair :: "tree \<Rightarrow> bool" where
  "g_value (Tree d cs _ _) =
     (if d = ''object'' then cs = [Absent] \<or> cs \<noteq> [] \<and> list_all g_pair cs
      else if d = ''array'' then cs = [Absent] \<or> cs \<noteq> [] \<and> list_all g_value cs
      else if d = ''string'' then symbols [g_STRING] cs
      else if d = ''number'' then symbols [g_NUMBER] cs
      else if d = ''boolean'' then symbols [g_BOOL] cs
      else d = ''null'' \<and> cs = [])"
| "g_value _ = False"
| "g_pair (Tree d [k, v] _ _) = (d = ''pair'' \<and> g_STRING k \<and> g_value v)"
| "g_pair _ = False"

text \<open>Statements.\<close>

definition g_step_ref :: "tree \<Rightarrow> bool" where
  "g_step_ref = rule_of ''step_ref'' (symbols [\<lambda>c. g_NAME c \<or> g_END c])"

definition g_map_key :: "tree \<Rightarrow> bool" where
  "g_map_key = rule_of ''map_key'' (symbols [\<lambda>c. g_NAME c \<or> g_STRING c])"

definition g_mapping_item :: "tree \<Rightarrow> bool" where
  "g_mapping_item = rule_of ''mapping_item'' (symbols [g_map_key, g_step_ref])"

definition g_transition :: "tree \<Rightarrow> bool" where
  "g_transition t \<longleftrightarrow>
     rule_of ''then_transition'' (symbols [g_step_ref]) t \<or>
     rule_of ''branch_transition'' (\<lambda>cs. cs \<noteq> [] \<and> g_NAME (hd cs) \<and> listed g_mapping_item (tl cs)) t \<or>
     rule_of ''route_transition'' (listed g_step_ref) t"

definition g_step_meta :: "tree \<Rightarrow> bool" where
  "g_step_meta t \<longleftrightarrow>
     rule_of ''requires_meta'' (listed g_NAME) t \<or>
     rule_of ''emit_meta'' (symbols [g_NAME]) t \<or>
     rule_of ''approval_meta'' (symbols [g_BOOL]) t"

definition g_executor :: "tree \<Rightarrow> bool" where
  "g_executor t \<longleftrightarrow>
     rule_of ''tool_exec'' (symbols [g_NAME]) t \<or> rule_of ''agent_exec'' (symbols [g_NAME]) t"

definition g_step_stmt :: "tree \<Rightarrow> bool" where
  "g_step_stmt = rule_of ''step_stmt'' (\<lambda>cs.
     (case cs of
        name # executor # rest \<Rightarrow>
          g_NAME name \<and> g_executor executor \<and> rest \<noteq> [] \<and>
          list_all g_step_meta (butlast rest) \<and> g_transition (last rest)
      | _ \<Rightarrow> False))"

definition g_flow_item :: "tree \<Rightarrow> bool" where
  "g_flow_item t \<longleftrightarrow>
     rule_of ''entry_stmt'' (symbols [g_step_ref]) t \<or>
     rule_of ''policy_stmt'' (some_of g_NAME) t \<or>
     rule_of ''skill_stmt'' (some_of g_NAME) t \<or>
     rule_of ''channel_stmt'' (symbols [g_NAME, optional g_NAME, optional g_value]) t \<or>
     rule_of ''interrupt_stmt'' (symbols [g_INT, g_INT]) t \<or>
     g_step_stmt t"

definition g_flow :: "tree \<Rightarrow> bool" where
  "g_flow = rule_of ''flow'' (\<lambda>cs. cs \<noteq> [] \<and> g_NAME (hd cs) \<and> list_all g_flow_item (tl cs))"

definition g_start :: "tree \<Rightarrow> bool" where
  "g_start = rule_of ''start'' (symbols [g_flow])"

subsection \<open>Legible trees\<close>

text \<open>Literals that can be decoded, and no placeholder where the reader trips over one.\<close>

definition literal_ok :: "(string \<Rightarrow> exn + json) \<Rightarrow> string \<Rightarrow> tree list \<Rightarrow> bool" where
  "literal_ok float d cs =
     (case cs of
        [] \<Rightarrow> True
      | c # _ \<Rightarrow>
          if d = ''string'' \<or> d = ''pair'' then \<not> isl (loads (node_str c))
          else if d = ''number'' then \<not> isl (decode_number float (node_str c))
          else if d = ''map_key'' then \<not> isl (map_key_value c)
          else if d = ''object'' \<or> d = ''branch_transition'' then Absent \<notin> set cs
          else True)"

fun legible :: "(string \<Rightarrow> exn + json) \<Rightarrow> tree \<Rightarrow> bool" where
  "legible float (Tree d cs _ _) = (literal_ok float d cs \<and> list_all (legible float) cs)"
| "legible float _ = True"

definition statements :: "tree \<Rightarrow> tree list" where
  "statements t = (case find_node t ''flow'' of None \<Rightarrow> [] | Some f \<Rightarrow> tl (tree_children f))"

subsection \<open>Shapes\<close>

named_theorems shape

lemma rule_ofE:
  assumes "rule_of d P t"
  obtains cs l c where "t = Tree d cs l c" "P cs"
  using assms by (cases t) (auto simp: rule_of_def)

lemma token_ofE:
  assumes "token_of k P t"
  obtains s where "t = Token k s" "P s"
  using assms by (cases t) (auto simp: token_of_def)

lemma symbols_simps [shape]:
  "symbols [] cs \<longleftrightarrow> cs = []"
  "symbols (P # Ps) cs \<longleftrightarrow> (\<exists>c cs'. cs = c # cs' \<and> P c \<and> symbols Ps cs')"
  by (simp_all add: symbols_def list_all2_Cons1)

lemma NAME_E:
  assumes "g_NAME t"
  obtains s where "t = Token ''NAME'' s" "name_text s"
  using assms unfolding g_NAME_def by (rule token_ofE)

lemma name_text_nonempty: "name_text s \<Longrightarrow> s \<noteq> []"
  by (cases s) simp_all

lemma digits_int: "digits_text s \<Longrightarrow> \<exists>i. py_int s = Inr i"
proof -
  assume "digits_text s"
  then have d: "\<forall>c \<in> set s. is_digit c" and ne: "s \<noteq> []" by (simp_all add: digits_text_def list_all_iff)
  have "is_digit c \<Longrightarrow> \<not> is_space c" for c by (auto simp: is_space_def is_digit_def Let_def)
  with d have sp: "strip s = s" by (intro strip_digits) blast
  have no: "\<not> is_digit (CHR ''-'')" "\<not> is_digit (CHR ''+'')" "\<not> is_digit (CHR ''_'')" by code_simp+
  with d have "CHR ''_'' \<notin> set s" by blast
  moreover from this have "\<not> sublist ''__'' s" by (auto dest: set_mono_sublist)
  moreover have "hd s \<in> set s" "last s \<in> set s" using ne by simp_all
  ultimately have "grouped_digits s"
    using d ne by (metis grouped_digits_def)
  moreover have "\<not> prefix ''-'' s" "\<not> prefix ''+'' s" using d ne no by (cases s; auto)+
  ultimately show ?thesis by (simp add: py_int_def sp Let_def)
qed

subsection \<open>Values\<close>

lemma isl_Inr: "\<not> isl r \<Longrightarrow> \<exists>x. r = Inr x"
  by (cases r) simp_all

lemma extract_values_total:
  "\<forall>c \<in> set cs. \<exists>v. extract_value float c = Inr v \<and> Q v \<Longrightarrow>
   \<exists>vs. extract_values float cs = Inr vs \<and> list_all Q vs"
proof (induction cs)
  case (Cons c cs)
  then obtain v vs where "extract_value float c = Inr v" "Q v" "extract_values float cs = Inr vs" "list_all Q vs"
    by auto
  then show ?case by simp
qed simp

lemma object_of_total: "list_all (\<lambda>v. \<exists>k x. v = Pair k x) vs \<Longrightarrow> \<exists>out'. object_of vs out = Inr out'"
  by (induction vs arbitrary: out) auto

lemma grammatical_values:
  "g_value t \<Longrightarrow> legible float t \<Longrightarrow> \<exists>v. extract_value float t = Inr (Val v)"
  "g_pair t \<Longrightarrow> legible float t \<Longrightarrow> \<exists>k v. extract_value float t = Inr (Pair k v)"
proof (induction t and t rule: g_value_g_pair.induct)
  case (1 d cs l c)
  have "d = ''object'' \<or> d = ''array'' \<or> d = ''string'' \<or> d = ''number'' \<or> d = ''boolean'' \<or> d = ''null''"
    using "1.prems"(1) by (rule_tac ccontr) simp
  then show ?case
  proof (elim disjE)
    assume d: "d = ''object''"
    with "1.prems" have pairs: "list_all g_pair cs" "list_all (legible float) cs"
      by (auto simp: literal_ok_def split: if_splits)
    with d "1.IH"(1) have "\<forall>c \<in> set cs. \<exists>v. extract_value float c = Inr v \<and> (\<exists>k x. v = Pair k x)"
      by (fastforce simp: list_all_iff)
    from extract_values_total [OF this] obtain vs
      where vs: "extract_values float cs = Inr vs" "list_all (\<lambda>v. \<exists>k x. v = Pair k x) vs" by blast
    from object_of_total [OF vs(2)] obtain out where "object_of vs [] = Inr out" by blast
    with d vs(1) show ?thesis by simp
  next
    assume d: "d = ''array''"
    with "1.prems" have "cs = [Absent] \<or> list_all g_value cs \<and> list_all (legible float) cs"
      by (auto split: if_splits)
    then have "\<forall>c \<in> set cs. \<exists>v. extract_value float c = Inr v \<and> True"
      using d "1.IH"(2) by (fastforce simp: list_all_iff)
    from extract_values_total [OF this] d show ?thesis by auto
  next
    assume d: "d = ''string''"
    with "1.prems" show ?thesis
      by (auto simp: shape literal_ok_def on_text_def child_def dest!: isl_Inr)
  next
    assume d: "d = ''number''"
    with "1.prems" show ?thesis
      by (auto simp: shape literal_ok_def on_text_def child_def dest!: isl_Inr)
  next
    assume d: "d = ''boolean''"
    with "1.prems" show ?thesis by (auto simp: shape on_text_def child_def)
  next
    assume d: "d = ''null''"
    then show ?thesis by simp
  qed
next
  case (3 d k v l c)
  then obtain x where "extract_value float v = Inr (Val x)" by auto
  with 3 show ?case by (auto simp: literal_ok_def dest!: isl_Inr)
qed simp_all

lemma value_read: "g_value t \<Longrightarrow> legible float t \<Longrightarrow> \<exists>v. value_of float t = Inr v"
  using grammatical_values(1) [of t float] by (auto simp: value_of_def)

lemma ref_read:
  assumes "g_step_ref t"
  shows "\<exists>n. value_of float t = Inr (JStr n) \<and> n \<noteq> []"
  using assms by (auto simp: g_step_ref_def g_NAME_def g_END_def shape value_of_def token_value_def
      elim!: rule_ofE token_ofE dest: name_text_nonempty)

lemma key_read:
  assumes "g_map_key t" "legible float t"
  shows "\<exists>v. value_of float t = Inr v"
  using assms by (auto simp: g_map_key_def shape value_of_def literal_ok_def
      elim!: rule_ofE dest!: isl_Inr)

subsection \<open>Steps\<close>

lemma checked_total:
  assumes "\<And>m. validate_shape t \<noteq> Inl m"
  shows "\<exists>t'. checked_transition io t = Inr t' \<and> validate_shape t' = Inr t'"
  using assms by (cases "validate_shape t") (auto simp: checked_transition_def dest: validate_shape_idem)

lemma raw_shapes:
  "validate_shape (raw_transition EndKind) \<noteq> Inl m"
  "n \<noteq> [] \<Longrightarrow> validate_shape ((raw_transition ThenKind)\<lparr>tc_next_step := Some n\<rparr>) \<noteq> Inl m"
  "r \<noteq> [] \<Longrightarrow> mm \<noteq> [] \<Longrightarrow>
   validate_shape ((raw_transition BranchKind)\<lparr>tc_router := Some r, tc_mapping := Some mm\<rparr>) \<noteq> Inl m"
  "ns \<noteq> [] \<Longrightarrow> validate_shape ((raw_transition RouteToKind)\<lparr>tc_allowed := Some ns\<rparr>) \<noteq> Inl m"
  by (simp_all add: raw_transition_def validate_shape_def absent_def)

lemma then_read:
  assumes "g_step_ref c"
  shows "\<exists>t. then_part io [c] = Inr t \<and> validate_shape t = Inr t"
proof -
  obtain n where "value_of (dl_float io) c = Inr (JStr n)" "n \<noteq> []" using ref_read [OF assms] by blast
  then show ?thesis
    by (simp add: then_part_def checked_total raw_shapes)
qed

lemma mapping_read:
  "list_all g_mapping_item items \<Longrightarrow> list_all (legible float) items \<Longrightarrow>
   \<exists>m'. mapping_of float items m = Inr m' \<and> (items \<noteq> [] \<or> m \<noteq> [] \<longrightarrow> m' \<noteq> [])"
proof (induction items arbitrary: m)
  case (Cons item items)
  then obtain k r l c where item: "item = Tree ''mapping_item'' [k, r] l c" "g_map_key k" "g_step_ref r"
    by (auto simp: g_mapping_item_def shape elim!: rule_ofE)
  with Cons.prems obtain key n where "value_of float k = Inr key" "value_of float r = Inr (JStr n)"
    using key_read [of k float] ref_read [of r float] by auto
  moreover obtain m' where "mapping_of float items (dset (py_str key) n m) = Inr m'"
      "items \<noteq> [] \<or> dset (py_str key) n m \<noteq> [] \<longrightarrow> m' \<noteq> []"
    using Cons.IH [of "dset (py_str key) n m"] Cons.prems by auto
  moreover have "dset (py_str key) n m \<noteq> []" by (cases m) auto
  ultimately show ?case by (simp add: item(1))
qed simp

lemma branch_read:
  assumes "g_NAME router" "listed g_mapping_item items" "Absent \<notin> set items" "list_all (legible (dl_float io)) items"
  shows "\<exists>t. branch_part io (router # items) = Inr t \<and> validate_shape t = Inr t"
proof -
  from assms(2,3) have items: "items \<noteq> []" "list_all g_mapping_item items" by (auto simp: listed_def some_of_def)
  from mapping_read [OF items(2) assms(4), of "[]"] items(1) obtain m
    where "mapping_of (dl_float io) items [] = Inr m" "m \<noteq> []" by blast
  moreover from assms(1) have "node_str router \<noteq> []" by (auto elim!: NAME_E dest: name_text_nonempty)
  ultimately show ?thesis
    by (simp add: branch_part_def checked_total raw_shapes)
qed

lemma route_read:
  assumes "listed g_step_ref cs"
  shows "\<exists>t. route_part io cs = Inr t \<and> validate_shape t = Inr t"
proof -
  have "\<exists>v. value_of (dl_float io) c = Inr v" if "c \<in> set cs" for c
    using that assms ref_read [of c "dl_float io"]
    by (auto simp: listed_def some_of_def list_all_iff value_of_def)
  then obtain vs where "map_res (value_of (dl_float io)) cs = Inr vs"
    using map_res_total [of cs] by blast
  moreover from this assms have "vs \<noteq> []"
    by (cases cs; cases "map_res (value_of (dl_float io)) (tl cs)") (auto simp: listed_def some_of_def split: sum.splits)
  ultimately show ?thesis
    by (simp add: route_part_def checked_total raw_shapes)
qed

lemma transition_read:
  assumes "g_transition part" "legible (dl_float io) part"
  shows "\<exists>t. step_part io part p = Inr (p\<lparr>pt_transition := Some t\<rparr>) \<and> validate_shape t = Inr t"
  using assms(1) unfolding g_transition_def
proof (elim disjE)
  assume "rule_of ''then_transition'' (symbols [g_step_ref]) part"
  then obtain r l c where part: "part = Tree ''then_transition'' [r] l c" "g_step_ref r"
    by (auto simp: shape elim!: rule_ofE)
  obtain t where "then_part io [r] = Inr t" "validate_shape t = Inr t" using then_read [OF part(2)] by blast
  then show ?thesis by (intro exI [of _ t]) (simp add: part(1) step_part_def)
next
  assume "rule_of ''branch_transition'' (\<lambda>cs. cs \<noteq> [] \<and> g_NAME (hd cs) \<and> listed g_mapping_item (tl cs)) part"
  then obtain cs l c where part: "part = Tree ''branch_transition'' cs l c" "cs \<noteq> []" "g_NAME (hd cs)"
      "listed g_mapping_item (tl cs)" by (auto elim!: rule_ofE)
  obtain router items where cs: "cs = router # items" using part(2) by (cases cs) auto
  have "Absent \<notin> set items" "list_all (legible (dl_float io)) items"
    using assms(2) by (simp_all add: part(1) cs literal_ok_def)
  from branch_read [OF _ _ this] part(3,4) cs obtain t
    where "branch_part io (router # items) = Inr t" "validate_shape t = Inr t" by auto
  then show ?thesis by (intro exI [of _ t]) (simp add: part(1) cs step_part_def)
next
  assume "rule_of ''route_transition'' (listed g_step_ref) part"
  then obtain cs l c where part: "part = Tree ''route_transition'' cs l c" "listed g_step_ref cs" by (elim rule_ofE)
  obtain t where "route_part io cs = Inr t" "validate_shape t = Inr t" using route_read [OF part(2)] by blast
  then show ?thesis by (intro exI [of _ t]) (simp add: part(1) step_part_def)
qed

lemma meta_read:
  assumes "g_step_meta part"
  shows "\<exists>p'. step_part io part p = Inr p'"
  using assms unfolding g_step_meta_def by (elim disjE rule_ofE) (auto simp: shape step_part_def)

lemma metas_read: "list_all g_step_meta parts \<Longrightarrow> \<exists>p'. step_parts_of io parts p = Inr p'"
proof (induction parts arbitrary: p)
  case (Cons part parts)
  with meta_read [of part io p] obtain p' where "step_part io part p = Inr p'" by auto
  with Cons show ?case by simp
qed simp

lemma parts_read:
  assumes "rest \<noteq> []" "list_all g_step_meta (butlast rest)" "g_transition (last rest)"
    "list_all (legible (dl_float io)) rest"
  shows "\<exists>p t. step_parts_of io rest no_parts = Inr p \<and> pt_transition p = Some t \<and> validate_shape t = Inr t"
proof -
  obtain p where p: "step_parts_of io (butlast rest) no_parts = Inr p" using metas_read [OF assms(2)] by blast
  from assms(1,4) have "legible (dl_float io) (last rest)" by (simp add: list_all_iff)
  from transition_read [OF assms(3) this] obtain t
    where "step_part io (last rest) p = Inr (p\<lparr>pt_transition := Some t\<rparr>)" "validate_shape t = Inr t" by blast
  with p have "step_parts_of io (butlast rest @ [last rest]) no_parts = Inr (p\<lparr>pt_transition := Some t\<rparr>)"
    by (simp add: step_parts_of_append)
  with \<open>validate_shape t = Inr t\<close> assms(1) show ?thesis by simp
qed

subsection \<open>Statements\<close>

definition stmt_name :: "tree \<Rightarrow> string" where
  "stmt_name item = node_str (hd (tree_children item))"

text \<open>An error of the language at the statement it is about.\<close>

definition points_at :: "dsl_error \<Rightarrow> tree \<Rightarrow> bool" where
  "points_at e item \<longleftrightarrow>
     (\<exists>problem. e = DSLSemanticError (located (config_error_str problem) (Some (location_of item)))
                    (Some (location_of item)) \<and>
       (tree_data item = ''step_stmt'' \<and>
          (problem = DuplicateStepError (stmt_name item) \<or> (\<exists>m. problem = InvalidTransitionError (stmt_name item) m)) \<or>
        tree_data item = ''entry_stmt'' \<and> (\<exists>n. problem = UnknownEntryStepError n)))"

text \<open>What has been read so far comes from the statements \<open>ss\<close>.\<close>

definition well_read :: "tree list \<Rightarrow> dsl_ast \<Rightarrow> bool" where
  "well_read ss a \<longleftrightarrow>
     config_valid (da_flow a) \<and> distinct (map fst (da_step_locations a)) \<and>
     map sc_name (fc_steps (da_flow a)) = map fst (da_step_locations a) \<and>
     (\<forall>(n, l) \<in> set (da_step_locations a).
        \<exists>item \<in> set ss. tree_data item = ''step_stmt'' \<and> stmt_name item = n \<and> location_of item = l) \<and>
     (fc_entry_step (da_flow a) \<noteq> None \<longrightarrow>
        (\<exists>item \<in> set ss. tree_data item = ''entry_stmt'' \<and> da_entry_location a = Some (location_of item)))"

lemma well_read_other:
  assumes "well_read ss a" "fc_steps c = fc_steps (da_flow a)" "fc_entry_step c = fc_entry_step (da_flow a)"
  shows "well_read ss (a\<lparr>da_flow := c\<rparr>)"
  using assms by (simp add: well_read_def config_valid_def)

lemma well_read_step:
  assumes "well_read ss a" "item \<in> set ss" "tree_data item = ''step_stmt''" "validate_step s = Inr s"
    "sc_name s = stmt_name item" "\<not> dhas (da_step_locations a) (stmt_name item)"
  shows "well_read ss (a\<lparr>da_step_locations := da_step_locations a @ [(stmt_name item, location_of item)],
                da_flow := (da_flow a)\<lparr>fc_steps := fc_steps (da_flow a) @ [s]\<rparr>\<rparr>)"
  using assms by (auto simp: well_read_def config_valid_def dhas_iff)

lemma step_stmt_read:
  assumes "well_read ss a" "g_step_stmt item" "item \<in> set ss" "legible (dl_float io) item"
  shows "(\<exists>a'. flow_item io item a = Inr a' \<and> well_read ss a') \<or>
    (\<exists>e. flow_item io item a = Inl e \<and> points_at e item)"
proof -
  obtain name executor rest l c where item: "item = Tree ''step_stmt'' (name # executor # rest) l c"
    and g: "g_executor executor" "rest \<noteq> []" "list_all g_step_meta (butlast rest)" "g_transition (last rest)"
    using assms(2) unfolding g_step_stmt_def by (elim rule_ofE) (auto split: list.splits)
  obtain called el ec d where ex: "executor = Tree d [called] el ec" using g(1)
    by (auto simp: g_executor_def shape elim!: rule_ofE)
  obtain p t where p: "step_parts_of io rest no_parts = Inr p" "pt_transition p = Some t" "validate_shape t = Inr t"
    using parts_read [OF g(2-4), of io] assms(4) by (auto simp: item)
  have read: "flow_item io item a = step_item io item a" by (simp add: item flow_item_def)
  show ?thesis
  proof (cases "dhas (da_step_locations a) (node_str name)")
    case True
    then have "flow_item io item a =
        Inl (DSLSemanticError (located (config_error_str (DuplicateStepError (stmt_name item))) (Some (location_of item)))
          (Some (location_of item)))"
      unfolding read by (simp add: step_item_def item semantic_error_def stmt_name_def Let_def)
    moreover have "tree_data item = ''step_stmt''" by (simp add: item)
    ultimately show ?thesis unfolding points_at_def by blast
  next
    case False
    let ?s = "step_of_parts (node_str name) executor (node_str called) p t"
    let ?a = "a\<lparr>da_step_locations := da_step_locations a @ [(node_str name, location_of item)],
                da_flow := (da_flow a)\<lparr>fc_steps := fc_steps (da_flow a) @ [?s]\<rparr>\<rparr>"
    have "flow_item io item a = Inr ?a"
      using False p unfolding read
      by (simp add: step_item_def item ex child_def dset_append_new Let_def)
    moreover have "validate_step ?s = Inr ?s"
      using p(3) by (simp add: validate_step_def validate_executor_def step_of_parts_def)
    then have "well_read ss ?a"
      using well_read_step [OF assms(1,3), of ?s] False by (simp add: item stmt_name_def step_of_parts_def)
    ultimately show ?thesis by blast
  qed
qed

lemma entry_read:
  assumes "well_read ss a" "rule_of ''entry_stmt'' (symbols [g_step_ref]) item" "item \<in> set ss"
  shows "\<exists>a'. flow_item io item a = Inr a' \<and> well_read ss a'"
proof -
  obtain r l c where item: "item = Tree ''entry_stmt'' [r] l c" "g_step_ref r"
    using assms(2) by (auto simp: shape elim!: rule_ofE)
  then obtain n where "value_of (dl_float io) r = Inr (JStr n)" using ref_read by blast
  then have "flow_item io item a =
      Inr (a\<lparr>da_flow := (da_flow a)\<lparr>fc_entry_step := Some n\<rparr>, da_entry_location := Some (location_of item)\<rparr>)"
    by (simp add: flow_item_def entry_item_def child_def escaping_def item(1))
  moreover have "tree_data item = ''entry_stmt''" by (simp add: item(1))
  ultimately show ?thesis using assms(1,3) by (auto simp: well_read_def config_valid_def)
qed

lemma interrupt_read:
  assumes "well_read ss a" "rule_of ''interrupt_stmt'' (symbols [g_INT, g_INT]) item"
  shows "\<exists>a'. flow_item io item a = Inr a' \<and> well_read ss a'"
proof -
  obtain x y l c where item: "item = Tree ''interrupt_stmt'' [x, y] l c" "g_INT x" "g_INT y"
    using assms(2) by (auto simp: shape elim!: rule_ofE)
  then obtain i j where "py_int (node_str x) = Inr i" "py_int (node_str y) = Inr j"
    using digits_int by (auto simp: g_INT_def elim!: token_ofE) blast
  with assms(1) show ?thesis
    by (auto simp: flow_item_def interrupt_item_def escaping_def item(1) intro!: well_read_other)
qed

lemma channel_read:
  assumes "well_read ss a" "legible (dl_float io) item"
    and "rule_of ''channel_stmt'' (symbols [g_NAME, optional g_NAME, optional g_value]) item"
  shows "\<exists>a'. flow_item io item a = Inr a' \<and> well_read ss a'"
proof -
  obtain n r v l c where item: "item = Tree ''channel_stmt'' [n, r, v] l c" "optional g_NAME r" "optional g_value v"
    using assms(3) by (auto simp: shape elim!: rule_ofE)
  have "\<exists>x. value_of (dl_float io) v = Inr x"
    using item(3) assms(2) value_read [of v "dl_float io"] by (auto simp: optional_def item(1) value_of_def)
  then have "\<exists>x. channel_rest (dl_float io) [r, v] = Inr x"
    using item(2) by (auto simp: channel_rest_def optional_def g_NAME_def value_of_def elim!: token_ofE)
  with assms(1) show ?thesis
    by (auto simp: flow_item_def channel_item_def escaping_def item(1) intro!: well_read_other)
qed

lemma statement_read:
  assumes "well_read ss a" "g_flow_item item" "item \<in> set ss" "legible (dl_float io) item"
  shows "(\<exists>a'. flow_item io item a = Inr a' \<and> well_read ss a') \<or>
    (\<exists>e. flow_item io item a = Inl e \<and> points_at e item)"
proof -
  have names: "\<exists>a'. flow_item io item a = Inr a' \<and> well_read ss a'"
    if "rule_of ''policy_stmt'' P item \<or> rule_of ''skill_stmt'' P item" for P
    using that assms(1) by (elim disjE rule_ofE) (simp_all add: flow_item_def well_read_other Let_def)
  from assms(2) show ?thesis
    unfolding g_flow_item_def
    using names entry_read [OF assms(1) _ assms(3)] interrupt_read [OF assms(1)] channel_read [OF assms(1,4)]
      step_stmt_read [OF assms(1) _ assms(3,4)] by blast
qed

lemma statements_read:
  assumes "well_read ss a" "list_all g_flow_item items" "set items \<subseteq> set ss" "list_all (legible (dl_float io)) items"
  shows "(\<exists>a'. flow_items io items a = Inr a' \<and> well_read ss a') \<or>
    (\<exists>e. flow_items io items a = Inl e \<and> (\<exists>item \<in> set ss. points_at e item))"
  using assms
proof (induction items arbitrary: a)
  case (Cons item items)
  from Cons.prems have "item \<in> set ss" "g_flow_item item" "legible (dl_float io) item" by auto
  from statement_read [OF Cons.prems(1) this(2,1,3)] show ?case
  proof (elim disjE exE conjE)
    fix a' assume a': "flow_item io item a = Inr a'" "well_read ss a'"
    from Cons.IH [OF a'(2)] Cons.prems a'(1) show ?thesis by simp
  next
    fix e assume "flow_item io item a = Inl e" "points_at e item"
    with \<open>item \<in> set ss\<close> show ?thesis by auto
  qed
qed simp

subsection \<open>Validation\<close>

lemma step_target_errors:
  assumes "validate_step s = Inr s" "check_step_targets seen s = Inl e"
  shows "\<exists>m. e = InvalidTransitionError (sc_name s) m"
  using shape_cases [OF validate_step_fix(1) [OF assms(1)]] assms(2)
  by (auto simp: check_step_targets_def check_targets_def Let_def split: option.splits)

lemma target_errors:
  assumes "\<forall>s \<in> set steps. validate_step s = Inr s" "check_all_targets seen steps = Inl e"
  shows "\<exists>n m. e = InvalidTransitionError n m \<and> n \<in> sc_name ` set steps"
  using assms by (induction steps) (auto split: sum.splits dest: step_target_errors)

lemma flow_errors:
  assumes "config_valid c" "distinct (map sc_name (fc_steps c))" "validate_flow_config c = Inl e"
  shows "(\<exists>n. e = UnknownEntryStepError n \<and> fc_entry_step c = Some n) \<or>
    (\<exists>n m. e = InvalidTransitionError n m \<and> n \<in> sc_name ` set (fc_steps c))"
proof -
  have "first_duplicate [] (map sc_name (fc_steps c)) = None"
    using assms(2) by (simp add: first_duplicate_None)
  moreover have "check_all_targets seen (fc_steps c) = Inl e \<Longrightarrow>
      \<exists>n m. e = InvalidTransitionError n m \<and> n \<in> sc_name ` set (fc_steps c)" for seen
    using assms(1) by (intro target_errors) (simp_all add: config_valid_def)
  ultimately show ?thesis
    using assms(3) by (cases "check_all_targets (map sc_name (fc_steps c)) (fc_steps c)")
      (simp_all add: validate_flow_config_def validate_transition_targets_def Let_def split: option.splits if_splits)
qed

lemma checked_errors:
  assumes "well_read ss a" "checked_ast io a = Inl e"
  shows "\<exists>item \<in> set ss. points_at e item"
proof -
  from assms(1) have valid: "config_valid (da_flow a)" and d: "distinct (map fst (da_step_locations a))"
    and names: "map sc_name (fc_steps (da_flow a)) = map fst (da_step_locations a)" by (simp_all add: well_read_def)
  then have "validate_model (io_show (dl_config io)) (da_flow a) = Inr (da_flow a)" by (simp add: validate_model_fix)
  with assms(2) obtain p where p: "validate_flow_config (da_flow a) = Inl p" and e: "Inl e = (validation_error a p :: dsl_error + dsl_ast)"
    by (auto simp: checked_ast_def split: sum.splits)
  from d names have "distinct (map sc_name (fc_steps (da_flow a)))" by simp
  from flow_errors [OF valid this p] show ?thesis
  proof (elim disjE exE conjE)
    fix n assume n: "p = UnknownEntryStepError n" "fc_entry_step (da_flow a) = Some n"
    with assms(1) obtain item where "item \<in> set ss" "tree_data item = ''entry_stmt''"
        "da_entry_location a = Some (location_of item)" by (auto simp: well_read_def)
    with n(1) e show ?thesis
      unfolding points_at_def
      by (intro bexI [of _ item] exI [of _ p])
        (simp_all add: validation_error_def semantic_error_def del: config_error_str.simps)
  next
    fix n m assume n: "p = InvalidTransitionError n m" "n \<in> sc_name ` set (fc_steps (da_flow a))"
    then have "n \<in> fst ` set (da_step_locations a)" using names by (metis list.set_map)
    then obtain l where l: "(n, l) \<in> set (da_step_locations a)" by auto
    with assms(1) obtain item where item: "item \<in> set ss" "tree_data item = ''step_stmt''" "stmt_name item = n"
        "location_of item = l" by (auto simp: well_read_def)
    from l d have "dget (da_step_locations a) n = Some l" by simp
    with n(1) e item show ?thesis
      unfolding points_at_def
      by (intro bexI [of _ item] exI [of _ p])
        (simp_all add: validation_error_def semantic_error_def del: config_error_str.simps)
  qed
qed

subsection \<open>The reader and its grammar\<close>


text \<open>A branch to a step that does not exist.\<close>

definition dangling_tree :: tree where
  "dangling_tree = tree_of_config (\<lambda>n. (int (length n), 3))
     (dsl_example\<lparr>fc_steps := take 1 (fc_steps dsl_example)\<rparr>)"


text \<open>What \<open>legible\<close> excludes does go wrong: a number in scientific notation without a point and an escape
  sequence that JSON does not know are texts of \<open>SIGNED_NUMBER\<close> and \<open>ESCAPED_STRING\<close>, but their exceptions are
  not caught.\<close>

lemma exponent_escapes:
  "g_value (node l ''number'' [Token ''SIGNED_NUMBER'' ''1e5''])"
  "\<exists>e. flow_item io (node l ''channel_stmt''
      [name_token n, name_token r, node l ''number'' [Token ''SIGNED_NUMBER'' ''1e5'']]) a =
    Inl (Escaped (Raised (Exn ValueError e)))"
proof -
  show "g_value (node l ''number'' [Token ''SIGNED_NUMBER'' ''1e5''])"
    by (simp add: node_def g_NUMBER_def token_of_def shape)
  have "case py_int ''1e5'' of Inl (Exn ValueError _) \<Rightarrow> True | _ \<Rightarrow> False" by code_simp
  then obtain e where "py_int ''1e5'' = Inl (Exn ValueError e)"
    by (auto split: sum.splits exn.splits exn_class.splits)
  then show "\<exists>e. flow_item io (node l ''channel_stmt''
      [name_token n, name_token r, node l ''number'' [Token ''SIGNED_NUMBER'' ''1e5'']]) a =
    Inl (Escaped (Raised (Exn ValueError e)))"
    by (simp add: flow_item_def channel_item_def channel_rest_def value_of_def decode_number_def escaping_def Let_def)
      (simp add: node_def on_text_def child_def decode_number_def)
qed

subsection \<open>What is written follows the grammar\<close>

text \<open>The trees of \<open>tree_of_config\<close> are trees of the grammar if the names of the configuration are names.\<close>

definition grammatical_step :: "step_config \<Rightarrow> bool" where
  "grammatical_step s \<longleftrightarrow>
     name_text (sc_name s) \<and> pred_option name_text (sc_tool s) \<and> pred_option name_text (sc_agent s) \<and>
     list_all name_text (sc_required_artifacts s) \<and> pred_option name_text (sc_emitted_artifact s) \<and>
     pred_option name_text (tc_next_step (sc_transition s)) \<and> pred_option name_text (tc_router (sc_transition s)) \<and>
     pred_option (list_all (\<lambda>(k, v). name_text v)) (tc_mapping (sc_transition s)) \<and>
     pred_option (list_all name_text) (tc_allowed (sc_transition s))"

definition grammatical_config :: "flow_config \<Rightarrow> bool" where
  "grammatical_config c \<longleftrightarrow>
     name_text (fc_name c) \<and> pred_option name_text (fc_entry_step c) \<and>
     list_all name_text (fc_policies c) \<and> list_all name_text (fc_skills c) \<and>
     list_all (\<lambda>ch. name_text (cc_name ch) \<and> name_text (cc_reducer ch)) (fc_channels c) \<and>
     list_all grammatical_step (fc_steps c)"

lemma rule_node [simp]: "rule_of d P (node l d' cs) \<longleftrightarrow> d' = d \<and> P cs"
  by (simp add: rule_of_def node_def)

lemma g_tokens [simp]:
  "g_NAME (name_token n) = name_text n" "g_END (Token ''END'' ''end'')"
  "g_BOOL (Token ''BOOL'' (if b then ''true'' else ''false''))" "g_STRING (text_token s)"
  "g_NUMBER (Token ''SIGNED_NUMBER'' s)"
proof -
  have "lower ''true'' = ''true''" "lower ''false'' = ''false''" "lower ''end'' = ''end''" by code_simp+
  then show "g_BOOL (Token ''BOOL'' (if b then ''true'' else ''false''))" "g_END (Token ''END'' ''end'')"
    by (simp_all add: g_BOOL_def g_END_def token_of_def)
qed (simp_all add: g_NAME_def g_STRING_def g_NUMBER_def token_of_def name_token_def text_token_def)

lemma g_INT_str: "0 \<le> i \<Longrightarrow> g_INT (Token ''INT'' (int_str i))"
  using nat_str_digits [of "nat i"] by (simp add: g_INT_def token_of_def digits_text_def int_str_def list_all_iff)

lemma g_ref [simp]: "name_text n \<Longrightarrow> g_step_ref (ref_tree l n)"
  by (simp add: g_step_ref_def ref_tree_def shape)

lemma some_of_map: "some_of P (map f xs) \<longleftrightarrow> xs \<noteq> [] \<and> (\<forall>x \<in> set xs. P (f x))"
  by (simp add: some_of_def list_all_iff)

lemma g_value_tree: "dsl_value v \<Longrightarrow> g_value (value_tree l v)"
proof (induction v)
  case (JObj kvs)
  then have "g_pair (case p of (k, v) \<Rightarrow> node l ''pair'' [text_token k, value_tree l v])" if "p \<in> set kvs" for p
    using that by (cases p) (force simp: node_def)
  with JObj.prems show ?case by (simp add: node_def list_all_iff)
qed (auto simp: node_def shape list_all_iff)

lemma g_transition_tree:
  assumes "validate_shape t = Inr t" "pred_option name_text (tc_next_step t)" "pred_option name_text (tc_router t)"
    "pred_option (list_all (\<lambda>(k, v). name_text v)) (tc_mapping t)" "pred_option (list_all name_text) (tc_allowed t)"
  shows "g_transition (transition_tree l t)"
proof -
  have "name_text END_STEP" by code_simp
  then show ?thesis
    using shape_form [OF assms(1)] assms(2-5)
    by (elim disjE exE conjE)
      (auto simp: transition_tree_def g_transition_def raw_transition_def shape listed_def some_of_map
        g_mapping_item_def g_map_key_def list_all_iff)
qed

lemma g_step_tree:
  assumes "validate_step s = Inr s" "grammatical_step s"
  shows "g_step_stmt (step_tree l s)"
proof -
  have "g_transition (transition_tree l (sc_transition s))"
    using assms validate_step_fix(1) [OF assms(1)] by (simp add: g_transition_tree grammatical_step_def)
  moreover have "g_executor (case sc_tool s of
      Some t \<Rightarrow> node l ''tool_exec'' [name_token t] | None \<Rightarrow> node l ''agent_exec'' [name_token (the (sc_agent s))])"
    using assms(2) validate_step_fix(2) [OF assms(1)]
    by (auto simp: grammatical_step_def g_executor_def shape split: option.splits)
  moreover have "list_all g_step_meta
      (case sc_emitted_artifact s of None \<Rightarrow> [] | Some n \<Rightarrow> [node l ''emit_meta'' [name_token n]])"
    using assms(2) by (cases "sc_emitted_artifact s") (simp_all add: grammatical_step_def g_step_meta_def shape)
  moreover have "list_all g_step_meta (case sc_approval_override s of
      None \<Rightarrow> [] | Some b \<Rightarrow> [node l ''approval_meta'' [Token ''BOOL'' (if b then ''true'' else ''false'')]])"
    unfolding g_step_meta_def using g_tokens(3)
    by (cases "sc_approval_override s") (simp_all only: option.case list.pred_inject rule_node symbols_simps, blast)
  moreover have "list_all g_step_meta (if sc_required_artifacts s = [] then []
      else [node l ''requires_meta'' (map name_token (sc_required_artifacts s))])"
    using assms(2) by (simp add: grammatical_step_def g_step_meta_def listed_def some_of_map list_all_iff)
  ultimately show ?thesis
    using assms(2) by (simp add: step_tree_def g_step_stmt_def grammatical_step_def butlast_append)
qed

lemma written_follows_grammar:
  assumes "dsl_config c" "grammatical_config c"
  shows "g_start (tree_of_config place c)"
proof -
  have "g_flow_item (channel_tree l ch)" if "ch \<in> set (fc_channels c)" for ch l
    using that assms g_value_tree [of "cc_initial ch" l]
    by (auto simp: g_flow_item_def channel_tree_def shape optional_def dsl_config_def grammatical_config_def list_all_iff)
  moreover have "g_flow_item (step_tree l s)" if "s \<in> set (fc_steps c)" for s l
    using that assms
    by (simp add: g_flow_item_def g_step_tree dsl_config_def config_valid_def grammatical_config_def list_all_iff)
  moreover have "list_all g_flow_item (header_trees l c)" for l
    using assms
    by (cases "fc_entry_step c")
      (simp_all add: header_trees_def names_tree_def interrupts_tree_def g_flow_item_def shape some_of_map g_INT_str
        dsl_config_def grammatical_config_def list_all_iff)
  ultimately show ?thesis
    using assms(2) by (simp add: tree_of_config_def g_start_def g_flow_def shape list_all_iff grammatical_config_def ball_Un)
qed

end
