(* ===== verification/Tool_Calls.thy ===== *)
theory Tool_Calls
  imports Boundaries
begin

section \<open>Tool calls of a language model (\<open>governai/integrations/tool_calls.py\<close>, \<open>llm.py\<close>)\<close>

text \<open>
  The tool calls of a model's message, normalised, and the loop that executes them under the runtime's
  governance. A message is an object with a \<open>tool_calls\<close> attribute, or a dictionary. \<open>json.loads\<close> and
  \<open>json.dumps\<close> are parameters. A reply is \<open>langchain\<close>'s \<open>ToolMessage\<close> or, without that package, a dictionary
  with the same fields. \<open>GovernedLLM\<close> wraps a chat model, whose calls are parameters.
\<close>

record tool_call =
  tc_id :: string
  tc_name :: string
  tc_args :: "json dict"

record tool_message =
  tm_tool_call_id :: string
  tm_name :: string
  tm_content :: string
  tm_is_error :: bool

datatype ai_message = MessageObject "json option" | MessageDict "json dict"

definition normalize_args :: "(string \<Rightarrow> json option) \<Rightarrow> json \<Rightarrow> json dict" where
  "normalize_args loads v =
     (case v of
        JObj d \<Rightarrow> d
      | JStr s \<Rightarrow>
          (case loads s of
             None \<Rightarrow> [(''value'', v)]
           | Some (JObj d) \<Rightarrow> d
           | Some parsed \<Rightarrow> [(''value'', parsed)])
      | _ \<Rightarrow> [])"

text \<open>The raw calls: absent or not a list is no call.\<close>

definition raw_calls :: "ai_message \<Rightarrow> json list" where
  "raw_calls m =
     (case (case m of MessageObject a \<Rightarrow> a | MessageDict d \<Rightarrow> dget d ''tool_calls'') of
        Some (JList xs) \<Rightarrow> xs
      | _ \<Rightarrow> [])"

text \<open>One raw call: skipped, or normalised, with a fresh id where it has none.\<close>

definition extract_call :: "(string \<Rightarrow> json option) \<Rightarrow> json \<Rightarrow> tool_call option rt" where
  "extract_call loads raw =
     (case raw of
        JObj d \<Rightarrow>
          (case dget_or d ''name'' JNull of
             JStr name \<Rightarrow>
               if name = [] then ret None
               else
                 (let raw_id = dget_or d ''id'' JNull; args = dget_or d ''args'' (JObj [])
                  in bnd (if truthy raw_id then ret (py_str raw_id) else fresh_uuid) (\<lambda>i.
                     ret (Some \<lparr>tc_id = i, tc_name = name, tc_args = normalize_args loads args\<rparr>)))
           | _ \<Rightarrow> ret None)
      | _ \<Rightarrow> ret None)"

fun extract_calls :: "(string \<Rightarrow> json option) \<Rightarrow> json list \<Rightarrow> tool_call list rt" where
  "extract_calls loads [] = ret []"
| "extract_calls loads (raw # rest) =
     bnd (extract_call loads raw) (\<lambda>c.
     bnd (extract_calls loads rest) (\<lambda>cs.
     ret (case c of None \<Rightarrow> cs | Some x \<Rightarrow> x # cs)))"

definition extract_tool_calls :: "(string \<Rightarrow> json option) \<Rightarrow> ai_message \<Rightarrow> tool_call list rt" where
  "extract_tool_calls loads m = extract_calls loads (raw_calls m)"

definition build_tool_message :: "string \<Rightarrow> string \<Rightarrow> string \<Rightarrow> bool \<Rightarrow> tool_message" where
  "build_tool_message call_id name content is_error =
     \<lparr>tm_tool_call_id = call_id, tm_name = name, tm_content = content, tm_is_error = is_error\<rparr>"

subsection \<open>The governed loop\<close>

text \<open>One call: its result as text, or the exception's text.\<close>

definition answer_call ::
  "(json \<Rightarrow> exn + string) \<Rightarrow> config \<Rightarrow> workflow \<Rightarrow> string \<Rightarrow> string \<Rightarrow> tool_call \<Rightarrow> tool_message rt" where
  "answer_call dumps cfg wk r step_name c =
     tryc
       (bnd (execute_named_tool cfg wk r step_name (tc_name c) (JObj (tc_args c))) (\<lambda>result.
        bnd (lift_res (dumps result)) (\<lambda>content.
        ret (build_tool_message (tc_id c) (tc_name c) content False))))
       (\<lambda>e. ret (build_tool_message (tc_id c) (tc_name c) (exn_str e) True))"

fun answer_calls ::
  "(json \<Rightarrow> exn + string) \<Rightarrow> config \<Rightarrow> workflow \<Rightarrow> string \<Rightarrow> string \<Rightarrow> tool_call list \<Rightarrow> tool_message list rt" where
  "answer_calls dumps cfg wk r step_name [] = ret []"
| "answer_calls dumps cfg wk r step_name (c # cs) =
     bnd (answer_call dumps cfg wk r step_name c) (\<lambda>m.
     bnd (answer_calls dumps cfg wk r step_name cs) (\<lambda>ms. ret (m # ms)))"

definition execute_once ::
  "(string \<Rightarrow> json option) \<Rightarrow> (json \<Rightarrow> exn + string) \<Rightarrow> config \<Rightarrow> workflow \<Rightarrow> string \<Rightarrow> string \<Rightarrow> ai_message \<Rightarrow>
   tool_message list rt" where
  "execute_once loads dumps cfg wk r step_name m =
     bnd (extract_tool_calls loads m) (\<lambda>calls. answer_calls dumps cfg wk r step_name calls)"

subsection \<open>GovernedLLM\<close>

text \<open>The calls a chat model has, each absent if the object lacks the method; a reply has a content and a
  \<open>tool_calls\<close> attribute.\<close>

record llm_reply =
  lr_content :: "json option"
  lr_tool_calls :: "json option"

record llm_response =
  ln_content :: "string option"
  ln_tool_calls :: "tool_call list"
  ln_raw :: llm_reply

datatype chat_model = ChatModel
  (cm_invoke: "(json \<Rightarrow> exn + llm_reply) option")
  (cm_ainvoke: "(json \<Rightarrow> exn + llm_reply) option")
  (cm_bind_tools: "(json list \<Rightarrow> json dict \<Rightarrow> exn + chat_model) option")

definition normalize_reply :: "(string \<Rightarrow> json option) \<Rightarrow> llm_reply \<Rightarrow> llm_response rt" where
  "normalize_reply loads raw =
     bnd (extract_tool_calls loads (MessageObject (lr_tool_calls raw))) (\<lambda>calls.
     ret \<lparr>ln_content = (case lr_content raw of None \<Rightarrow> None | Some JNull \<Rightarrow> None | Some v \<Rightarrow> Some (py_str v)),
          ln_tool_calls = calls, ln_raw = raw\<rparr>)"

definition call_model :: "string \<Rightarrow> (json \<Rightarrow> exn + llm_reply) option \<Rightarrow> (string \<Rightarrow> json option) \<Rightarrow> json \<Rightarrow> llm_response rt" where
  "call_model method invoker loads messages =
     (case invoker of
        None \<Rightarrow> raise (Exn RuntimeError (''Underlying model does not support '' @ method @ ''(...)''))
      | Some f \<Rightarrow> bnd (lift_res (f messages)) (normalize_reply loads))"

definition llm_invoke :: "chat_model \<Rightarrow> (string \<Rightarrow> json option) \<Rightarrow> json \<Rightarrow> llm_response rt" where
  "llm_invoke m = call_model ''invoke'' (cm_invoke m)"

definition llm_ainvoke :: "chat_model \<Rightarrow> (string \<Rightarrow> json option) \<Rightarrow> json \<Rightarrow> llm_response rt" where
  "llm_ainvoke m = call_model ''ainvoke'' (cm_ainvoke m)"

definition llm_bind_tools :: "chat_model \<Rightarrow> json list \<Rightarrow> json option \<Rightarrow> json dict \<Rightarrow> exn + chat_model" where
  "llm_bind_tools m tools tool_choice options =
     (case cm_bind_tools m of
        None \<Rightarrow> Inl (Exn RuntimeError ''Underlying model does not support bind_tools(...)'')
      | Some bind_tools \<Rightarrow>
          bind_tools tools (case tool_choice of
                          None \<Rightarrow> options
                        | Some c \<Rightarrow> if c = JNull then options else dset ''tool_choice'' c options))"

subsection \<open>Every call is answered\<close>

lemma fresh_uuid_run: "fresh_uuid w = (Inr (uuid_of (w_fresh w)), w\<lparr>w_fresh := Suc (w_fresh w)\<rparr>)"
  by (simp add: fresh_uuid_def)

lemma extract_call_total: "\<exists>c w'. extract_call loads raw w = (Inr c, w')"
  by (auto simp: extract_call_def py_simps fresh_uuid_run Let_def split: json.split)

lemma extract_calls_total: "\<exists>cs w'. extract_calls loads raws w = (Inr cs, w')"
proof (induction raws arbitrary: w)
  case (Cons raw raws)
  obtain c w1 where "extract_call loads raw w = (Inr c, w1)" using extract_call_total by blast
  moreover from Cons obtain cs w2 where "extract_calls loads raws w1 = (Inr cs, w2)" by blast
  ultimately show ?case by (simp add: py_simps)
qed (simp add: py_simps)

lemma answer_call_total:
  "\<exists>m w'. answer_call dumps cfg wk r st c w = (Inr m, w') \<and> tm_tool_call_id m = tc_id c \<and> tm_name m = tc_name c \<and>
     (case execute_named_tool cfg wk r st (tc_name c) (JObj (tc_args c)) w of
        (Inr v, _) \<Rightarrow> (case dumps v of Inr t \<Rightarrow> tm_content m = t \<and> \<not> tm_is_error m | Inl e \<Rightarrow> tm_is_error m)
      | (Inl e, _) \<Rightarrow> tm_content m = exn_str e \<and> tm_is_error m)"
proof (cases "execute_named_tool cfg wk r st (tc_name c) (JObj (tc_args c)) w")
  case (Pair res w1)
  then show ?thesis
  proof (cases res)
    case (Inr v)
    with Pair show ?thesis by (cases "dumps v") (simp_all add: answer_call_def py_simps build_tool_message_def)
  qed (simp add: answer_call_def py_simps build_tool_message_def)
qed

context exec_relation
begin

lemma pres_extract_call [pres_intros]: "pres R (extract_call loads raw)"
  by (cases raw) (auto simp: extract_call_def Let_def split: json.split intro!: pres_intros)

lemma pres_extract_calls [pres_intros]: "pres R (extract_calls loads raws)"
  by (induction raws) (simp_all only: extract_calls.simps, (intro pres_intros)+)

lemma pres_answer_call [pres_intros]: "pres R (answer_call dumps cfg wk r st c)"
  unfolding answer_call_def by (intro pres_intros)

lemma pres_answer_calls [pres_intros]: "pres R (answer_calls dumps cfg wk r st cs)"
  by (induction cs) (simp_all only: answer_calls.simps, (intro pres_intros)+)

lemma pres_execute_once [pres_intros]: "pres R (execute_once loads dumps cfg wk r st m)"
  unfolding execute_once_def extract_tool_calls_def by (intro pres_intros)

end

definition answers :: "tool_call \<Rightarrow> tool_message \<Rightarrow> bool" where
  "answers c m \<longleftrightarrow> tm_tool_call_id m = tc_id c \<and> tm_name m = tc_name c"

lemma answer_calls_total:
  "\<exists>ms w'. answer_calls dumps cfg wk r st cs w = (Inr ms, w') \<and> list_all2 answers cs ms"
proof (induction cs arbitrary: w)
  case (Cons c cs)
  obtain m w1 where "answer_call dumps cfg wk r st c w = (Inr m, w1)" "answers c m"
    using answer_call_total [of dumps cfg wk r st c w] by (auto simp: answers_def)
  moreover from Cons obtain ms w2 where "answer_calls dumps cfg wk r st cs w1 = (Inr ms, w2)" "list_all2 answers cs ms"
    by blast
  ultimately show ?case by (simp add: py_simps)
qed (simp add: py_simps)


end
