(* ===== verification/Http_Client.thy ===== *)
theory Http_Client
  imports Prelude
begin

section \<open>The HTTP client (\<open>governai/integrations/http_client.py\<close>)\<close>

text \<open>
  \<open>GovernedHTTPClient\<close> tries a request again on failures that may pass, and stops sending after too many
  failures in a row (a circuit breaker). The network is the parameter \<open>fetch\<close>: what the n-th request is
  answered, and how long that takes. Times are integers of one unit; \<open>json.dumps\<close> is a parameter.
\<close>

record http_call =
  hq_method :: string
  hq_url :: string
  hq_headers :: "string dict"
  hq_payload :: "string option"

record http_response =
  hr_status_code :: int
  hr_headers :: "string dict"
  hr_body :: string

text \<open>\<open>urlopen\<close>: a response, an \<open>HTTPError\<close> with its status and body, or a \<open>URLError\<close>.\<close>

datatype fetch_result = Fetched int "string dict" string | HTTPError int string | URLError string

record governed_http_error =
  ge_message :: string
  ge_status_code :: "int option"
  ge_body :: string

record circuit_state =
  ci_failures :: int
  ci_opened_at :: "int option"

record http_client =
  hc_retry_attempts :: int
  hc_retry_backoff :: int
  hc_retry_status_codes :: "int list"
  hc_circuit_fail_max :: int
  hc_circuit_reset :: int

text \<open>The breaker, the monotonic clock, and the number of requests sent so far.\<close>

record http_state =
  hs_circuit :: circuit_state
  hs_clock :: int
  hs_calls :: nat

definition closed_circuit :: circuit_state where
  "closed_circuit = \<lparr>ci_failures = 0, ci_opened_at = None\<rparr>"

type_synonym 'a http_op = "http_state \<Rightarrow> 'a \<times> http_state"

type_synonym network = "nat \<Rightarrow> http_call \<Rightarrow> nat \<times> fetch_result"

subsection \<open>The circuit breaker\<close>

definition circuit_open :: "http_client \<Rightarrow> bool http_op" where
  "circuit_open h s =
     (case ci_opened_at (hs_circuit s) of
        None \<Rightarrow> (False, s)
      | Some t \<Rightarrow>
          if hs_clock s - t \<ge> hc_circuit_reset h then (False, s\<lparr>hs_circuit := closed_circuit\<rparr>)
          else (True, s))"

definition record_success :: "http_state \<Rightarrow> http_state" where
  "record_success s = s\<lparr>hs_circuit := closed_circuit\<rparr>"

definition record_failure :: "http_client \<Rightarrow> http_state \<Rightarrow> http_state" where
  "record_failure h s =
     (let failures = ci_failures (hs_circuit s) + 1
      in s\<lparr>hs_circuit := \<lparr>ci_failures = failures,
             ci_opened_at = (if failures \<ge> hc_circuit_fail_max h then Some (hs_clock s)
                             else ci_opened_at (hs_circuit s))\<rparr>\<rparr>)"

subsection \<open>One request\<close>

definition sync_request :: "network \<Rightarrow> http_call \<Rightarrow> (governed_http_error + http_response) http_op" where
  "sync_request fetch q s =
     (case fetch (hs_calls s) (q\<lparr>hq_method := upper (hq_method q)\<rparr>) of
        (duration, result) \<Rightarrow>
          ((case result of
              Fetched status headers body \<Rightarrow>
                Inr \<lparr>hr_status_code = status, hr_headers = fold (\<lambda>(k, v). dset (lower k) v) headers [],
                     hr_body = body\<rparr>
            | HTTPError code body \<Rightarrow>
                Inl \<lparr>ge_message = ''HTTP request failed: '' @ int_str code, ge_status_code = Some code,
                     ge_body = body\<rparr>
            | URLError msg \<Rightarrow>
                Inl \<lparr>ge_message = ''HTTP request network error: '' @ msg, ge_status_code = None, ge_body = []\<rparr>),
           s\<lparr>hs_clock := hs_clock s + int duration, hs_calls := Suc (hs_calls s)\<rparr>))"

text \<open>A status that is not accepted is raised as an error too.\<close>

definition accepted_request ::
  "network \<Rightarrow> int list \<Rightarrow> http_call \<Rightarrow> (governed_http_error + http_response) http_op" where
  "accepted_request fetch accepted q s =
     (case sync_request fetch q s of
        (Inr r, s') \<Rightarrow>
          if accepted \<noteq> [] \<and> hr_status_code r \<notin> set accepted
          then (Inl \<lparr>ge_message = ''HTTP status not accepted'', ge_status_code = Some (hr_status_code r),
                     ge_body = hr_body r\<rparr>, s')
          else (Inr r, s')
      | (Inl e, s') \<Rightarrow> (Inl e, s'))"

definition retryable :: "http_client \<Rightarrow> governed_http_error \<Rightarrow> bool" where
  "retryable h e = (case ge_status_code e of None \<Rightarrow> True | Some c \<Rightarrow> c \<in> set (hc_retry_status_codes h))"

text \<open>The attempts from number \<open>attempt\<close> on, \<open>left\<close> of them. After the loop comes an error of its own.\<close>

primrec attempts_from ::
  "nat \<Rightarrow> http_client \<Rightarrow> network \<Rightarrow> int list \<Rightarrow> http_call \<Rightarrow> int \<Rightarrow> (governed_http_error + http_response) http_op" where
  "attempts_from 0 h fetch accepted q attempt s =
     (Inl \<lparr>ge_message = ''HTTP request exhausted retries'', ge_status_code = None, ge_body = []\<rparr>, s)"
| "attempts_from (Suc left) h fetch accepted q attempt s =
     (case accepted_request fetch accepted q s of
        (Inr r, s') \<Rightarrow> (Inr r, record_success s')
      | (Inl e, s') \<Rightarrow>
          (let s'' = record_failure h s'
           in if attempt \<ge> max 1 (hc_retry_attempts h) \<or> \<not> retryable h e then (Inl e, s'')
              else attempts_from left h fetch accepted q (attempt + 1)
                     (s''\<lparr>hs_clock := hs_clock s'' + hc_retry_backoff h * attempt\<rparr>)))"

definition prepared_request ::
  "(json dict \<Rightarrow> string) \<Rightarrow> string \<Rightarrow> string \<Rightarrow> json dict option \<Rightarrow> string dict \<Rightarrow> http_call" where
  "prepared_request dumps meth url json_body headers =
     \<lparr>hq_method = meth, hq_url = url,
      hq_headers =
        (if json_body \<noteq> None \<and> \<not> dhas headers ''Content-Type''
         then dset ''Content-Type'' ''application/json'' headers else headers),
      hq_payload = map_option dumps json_body\<rparr>"

definition http_request ::
  "(json dict \<Rightarrow> string) \<Rightarrow> http_client \<Rightarrow> network \<Rightarrow> string \<Rightarrow> string \<Rightarrow> json dict option \<Rightarrow> string dict \<Rightarrow> int list \<Rightarrow>
   (governed_http_error + http_response) http_op" where
  "http_request dumps h fetch meth url json_body headers accepted s =
     (case circuit_open h s of
        (True, s') \<Rightarrow>
          (Inl \<lparr>ge_message = ''Circuit breaker is open'', ge_status_code = None, ge_body = []\<rparr>, s')
      | (False, s') \<Rightarrow>
          attempts_from (nat (max 1 (hc_retry_attempts h))) h fetch accepted
            (prepared_request dumps meth url json_body headers) 1 s')"

subsection \<open>What a request does\<close>

text \<open>\<open>n\<close> requests were sent. A response closes the circuit; an error counts each of them as a failure and
  opens the circuit, as of the last one at the earliest, once the limit is reached.\<close>

definition request_effect :: "http_client \<Rightarrow> nat \<Rightarrow> http_state \<Rightarrow> governed_http_error + http_response \<Rightarrow> http_state \<Rightarrow> bool" where
  "request_effect h n s res s' \<longleftrightarrow>
     hs_calls s' = hs_calls s + n \<and>
     (case res of
        Inr r \<Rightarrow> hs_circuit s' = closed_circuit
      | Inl e \<Rightarrow>
          ci_failures (hs_circuit s') = ci_failures (hs_circuit s) + int n \<and>
          (if ci_failures (hs_circuit s') \<ge> hc_circuit_fail_max h
           then \<exists>t \<ge> hs_clock s. ci_opened_at (hs_circuit s') = Some t \<and> t \<le> hs_clock s'
           else ci_opened_at (hs_circuit s') = ci_opened_at (hs_circuit s)))"

lemma accepted_request_effect:
  assumes "accepted_request fetch accepted q s = (res, s')"
  shows "hs_calls s' = Suc (hs_calls s)" "hs_circuit s' = hs_circuit s" "hs_clock s \<le> hs_clock s'"
    "\<And>r. res = Inr r \<Longrightarrow> accepted = [] \<or> hr_status_code r \<in> set accepted"
  using assms
  by (auto simp: accepted_request_def sync_request_def split: prod.splits sum.splits if_splits fetch_result.splits)

lemma attempts_from_effect:
  assumes "attempts_from (Suc left) h fetch accepted q attempt s = (res, s')"
    and "attempt + int left = max 1 (hc_retry_attempts h)" "0 \<le> hc_retry_backoff h" "0 \<le> attempt"
  shows "(\<exists>n. 1 \<le> n \<and> n \<le> Suc left \<and> request_effect h n s res s') \<and> hs_clock s \<le> hs_clock s' \<and>
    (\<forall>r. res = Inr r \<longrightarrow> accepted = [] \<or> hr_status_code r \<in> set accepted)"
  using assms
proof (induction left arbitrary: attempt s)
  case 0
  obtain r1 s1 where one: "accepted_request fetch accepted q s = (r1, s1)"
    by (cases "accepted_request fetch accepted q s")
  note eff = accepted_request_effect [OF one]
  from 0 one eff show ?case
    by (cases r1)
      (auto simp: record_success_def record_failure_def request_effect_def Let_def intro!: exI [of _ "1::nat"])
next
  case (Suc left)
  obtain r1 s1 where one: "accepted_request fetch accepted q s = (r1, s1)"
    by (cases "accepted_request fetch accepted q s")
  note eff = accepted_request_effect [OF one]
  show ?case
  proof (cases r1)
    case (Inr r)
    with Suc.prems one eff show ?thesis
      by (auto simp: record_success_def request_effect_def intro!: exI [of _ "1::nat"])
  next
    case (Inl e)
    let ?s2 = "record_failure h s1"
    show ?thesis
    proof (cases "attempt \<ge> max 1 (hc_retry_attempts h) \<or> \<not> retryable h e")
      case True
      with Suc.prems(1) one Inl have "res = Inl e" "s' = ?s2" by (auto simp: Let_def)
      with eff show ?thesis
        by (auto simp: record_failure_def request_effect_def Let_def intro!: exI [of _ "1::nat"])
    next
      case False
      let ?s3 = "?s2\<lparr>hs_clock := hs_clock ?s2 + hc_retry_backoff h * attempt\<rparr>"
      have run: "attempts_from (Suc left) h fetch accepted q (attempt + 1) ?s3 = (res, s')"
        using Suc.prems(1) unfolding attempts_from.simps(2) [of "Suc left"] one Inl
        by (simp only: prod.case sum.case Let_def False if_False)
      have "(\<exists>n. 1 \<le> n \<and> n \<le> Suc left \<and> request_effect h n ?s3 res s') \<and> hs_clock ?s3 \<le> hs_clock s' \<and>
          (\<forall>r. res = Inr r \<longrightarrow> accepted = [] \<or> hr_status_code r \<in> set accepted)"
        by (rule Suc.IH [OF run]) (use Suc.prems in auto)
      then obtain n where n: "1 \<le> n" "n \<le> Suc left" "request_effect h n ?s3 res s'" "hs_clock ?s3 \<le> hs_clock s'"
        "\<forall>r. res = Inr r \<longrightarrow> accepted = [] \<or> hr_status_code r \<in> set accepted" by blast
      have clock: "hs_clock s \<le> hs_clock ?s3"
        using eff(3) mult_nonneg_nonneg [OF Suc.prems(3,4)] by (simp add: record_failure_def Let_def)
      have "request_effect h (Suc n) s res s'"
        using n(1,3,4) eff clock
        by (cases res) (auto simp: request_effect_def record_failure_def Let_def split: if_splits)
      with n clock show ?thesis by (intro conjI exI [of _ "Suc n"]) auto
    qed
  qed
qed


text \<open>A server that fails twice and then answers.\<close>

definition flaky :: network where
  "flaky n q = (1, if n < 2 then HTTPError 503 ''busy'' else Fetched 200 [] ''ok'')"

definition patient_client :: http_client where
  "patient_client =
     \<lparr>hc_retry_attempts = 3, hc_retry_backoff = 1, hc_retry_status_codes = [503], hc_circuit_fail_max = 5,
      hc_circuit_reset = 60\<rparr>"

definition fresh_state :: http_state where
  "fresh_state = \<lparr>hs_circuit = closed_circuit, hs_clock = 0, hs_calls = 0\<rparr>"


end
