(* ===== verification/Provider_Errors.thy ===== *)
theory Provider_Errors
  imports Effects
begin

section \<open>Provider errors (\<open>governai/integrations/provider_errors.py\<close>)\<close>

text \<open>
  What a provider's response says of an error, as one of the known codes. The response is a dictionary of
  JSON data, or anything else.
\<close>

datatype provider_error_code = NO_OPTIONS | UPSTREAM_ERROR | INVALID_INPUT | TIMEOUT | AUTH_ERROR | UNKNOWN

fun code_value :: "provider_error_code \<Rightarrow> string" where
  "code_value NO_OPTIONS = ''NO_OPTIONS''"
| "code_value UPSTREAM_ERROR = ''UPSTREAM_ERROR''"
| "code_value INVALID_INPUT = ''INVALID_INPUT''"
| "code_value TIMEOUT = ''TIMEOUT''"
| "code_value AUTH_ERROR = ''AUTH_ERROR''"
| "code_value UNKNOWN = ''UNKNOWN''"

definition provider_error_codes :: "provider_error_code list" where
  "provider_error_codes = [NO_OPTIONS, UPSTREAM_ERROR, INVALID_INPUT, TIMEOUT, AUTH_ERROR, UNKNOWN]"

record provider_error =
  pe_code :: string
  pe_message :: string
  pe_retriable :: bool
  pe_provider :: string
  pe_context :: "json dict"

fun is_truthy_error :: "json \<Rightarrow> bool" where
  "is_truthy_error (JStr s) = (lower (strip s) \<in> {''1'', ''true'', ''yes'', ''error''})"
| "is_truthy_error v = truthy v"

text \<open>\<open>str(v or "")\<close>.\<close>

definition text_or_empty :: "json \<Rightarrow> string" where
  "text_or_empty v = (if truthy v then py_str v else [])"

text \<open>\<open>(response.get("details") or {}).get("provider")\<close>: only a dictionary has \<open>get\<close>.\<close>

definition details_provider :: "json \<Rightarrow> exn + json" where
  "details_provider details =
     (if \<not> truthy details then Inr JNull
      else case details of
             JObj d \<Rightarrow> Inr (dget_or d ''provider'' JNull)
           | v \<Rightarrow> Inl (Exn AttributeError
               (quoted (type_name v) @ '' object has no attribute '' @ quoted ''get'')))"

definition known_code :: "string \<Rightarrow> string" where
  "known_code code = (if code \<in> set (map code_value provider_error_codes) then code else code_value UNKNOWN)"

definition retriable_code :: "string \<Rightarrow> bool" where
  "retriable_code code \<longleftrightarrow> code \<in> set (map code_value [UPSTREAM_ERROR, TIMEOUT, UNKNOWN])"

definition reports_error :: "json dict \<Rightarrow> bool" where
  "reports_error d \<longleftrightarrow>
     is_truthy_error (dget_or d ''error'' JNull) \<or> is_truthy_error (dget_or d ''compat_error'' JNull) \<or>
     lower (text_or_empty (dget_or d ''status'' JNull)) = ''error'' \<or>
     upper (text_or_empty (dget_or d ''error_code'' JNull)) \<noteq> []"

definition parse_provider_error :: "json \<Rightarrow> exn + provider_error option" where
  "parse_provider_error response =
     (case response of
        JObj d \<Rightarrow>
          (let status = lower (text_or_empty (dget_or d ''status'' JNull));
               code = upper (text_or_empty (dget_or d ''error_code'' JNull));
               error_message = dget_or d ''error_message'' JNull;
               message = strip (text_or_empty
                 (if truthy error_message then error_message else dget_or d ''error'' JNull));
               normalized_code = known_code code
           in if \<not> reports_error d then Inr None
              else
                (case details_provider (dget_or d ''details'' JNull) of
                   Inl e \<Rightarrow> Inl e
                 | Inr provider \<Rightarrow>
                     Inr (Some \<lparr>pe_code = normalized_code,
                       pe_message = (if message = [] then ''unknown_error'' else message),
                       pe_retriable = retriable_code normalized_code,
                       pe_provider = text_or_empty provider,
                       pe_context = [(''status'', JStr status), (''details'', dget_or d ''details'' JNull)]\<rparr>)))
      | _ \<Rightarrow> Inr None)"

subsection \<open>What is reported\<close>

lemma known_code_known: "known_code c \<in> set (map code_value provider_error_codes)"
  by (simp add: known_code_def provider_error_codes_def)

text \<open>A reported error has a known code and a message, and may be retried exactly when it is an upstream
  error, a timeout or unknown.\<close>

lemma parsed_error:
  assumes "parse_provider_error response = Inr (Some e)"
  shows "pe_code e \<in> set (map code_value provider_error_codes)" "pe_message e \<noteq> []"
    "pe_retriable e \<longleftrightarrow> pe_code e \<in> {''UPSTREAM_ERROR'', ''TIMEOUT'', ''UNKNOWN''}"
    "\<exists>d. response = JObj d \<and> reports_error d"
  using assms known_code_known
  by (auto simp: parse_provider_error_def Let_def retriable_code_def split: json.splits if_splits sum.splits)

lemma no_error_parsed:
  "parse_provider_error response = Inr None \<longleftrightarrow> (\<forall>d. response = JObj d \<longrightarrow> \<not> reports_error d)"
  by (auto simp: parse_provider_error_def Let_def split: json.splits sum.splits)

text \<open>A response whose details are, say, a text is not understood: \<open>get\<close> is called on the text.\<close>

lemma details_not_understood:
  assumes "reports_error d" "dget d ''details'' = Some v" "truthy v" "\<forall>x. v \<noteq> JObj x"
  shows "\<exists>e. parse_provider_error (JObj d) = Inl e \<and> eclass e = AttributeError"
  using assms
  by (cases v) (auto simp: parse_provider_error_def Let_def details_provider_def dget_or_def)

lemma parse_raises_iff:
  "(\<exists>e. parse_provider_error response = Inl e) \<longleftrightarrow>
     (\<exists>d. response = JObj d \<and> reports_error d \<and> truthy (dget_or d ''details'' JNull) \<and>
        (\<forall>x. dget_or d ''details'' JNull \<noteq> JObj x))"
  by (auto simp: parse_provider_error_def Let_def details_provider_def split: json.splits if_splits sum.splits)

text \<open>An error that is given as a text, without a code or a status, is taken for no error: only the texts
  \<open>1\<close>, \<open>true\<close>, \<open>yes\<close> and \<open>error\<close> count.\<close>

lemma textual_error_ignored: "parse_provider_error (JObj [(''error'', JStr ''connection refused'')]) = Inr None"
  by code_simp

end
