(* ===== verification/Descriptions.thy ===== *)
theory Descriptions
  imports Agents
begin

section \<open>Serialisable descriptions of agents and tools (\<open>agents/spec.py\<close>, \<open>tools/manifest.py\<close>)\<close>

text \<open>
  \<open>Agent.to_spec\<close> and \<open>Agent.from_spec\<close>, \<open>Tool.to_manifest\<close>. A Pydantic model class is its name, its JSON
  schema and its \<open>model_validate\<close>. An agent and a tool have here what the runtime does not read too: their
  description, tags and model classes. \<open>digest\<close> is the BLAKE2b digest of the sorted \<open>json.dumps\<close>.
\<close>

record 'v model_class =
  mc_name :: string
  mc_schema :: "json dict"
  mc_validate :: 'v

record model_schema_ref =
  ms_name :: string
  ms_schema :: "json dict"

definition schema_ref :: "'v model_class \<Rightarrow> model_schema_ref" where
  "schema_ref c = \<lparr>ms_name = mc_name c, ms_schema = mc_schema c\<rparr>"

definition fingerprint :: "(json \<Rightarrow> string) \<Rightarrow> json dict \<Rightarrow> json dict \<Rightarrow> string" where
  "fingerprint digest input_schema output_schema =
     digest (JObj [(''input'', JObj input_schema), (''output'', JObj output_schema)])"

subsection \<open>Agents\<close>

record agent_spec =
  as_name :: string
  as_description :: string
  as_instruction :: string
  as_version :: string
  as_schema_fingerprint :: "string option"
  as_input_model :: model_schema_ref
  as_output_model :: model_schema_ref
  as_allowed_tools :: "string list"
  as_allowed_handoffs :: "string list"
  as_max_turns :: int
  as_max_tool_calls :: int
  as_tags :: "string list"
  as_requires_approval :: bool
  as_capabilities :: "string list"
  as_side_effect :: bool
  as_executor_type :: string
  as_placement :: placement
  as_remote_name :: "string option"

type_synonym json_model = "(json \<Rightarrow> string + json) model_class"

record described_agent = agent +
  da_description :: string
  da_tags :: "string list"
  da_input_class :: json_model
  da_output_class :: json_model

definition to_spec :: "(json \<Rightarrow> string) \<Rightarrow> described_agent \<Rightarrow> agent_spec" where
  "to_spec digest a =
     \<lparr>as_name = a_name a, as_description = da_description a, as_instruction = a_instruction a,
      as_version = DEFAULT_VERSION,
      as_schema_fingerprint =
        Some (fingerprint digest (mc_schema (da_input_class a)) (mc_schema (da_output_class a))),
      as_input_model = schema_ref (da_input_class a), as_output_model = schema_ref (da_output_class a),
      as_allowed_tools = a_allowed_tools a, as_allowed_handoffs = a_allowed_handoffs a,
      as_max_turns = a_max_turns a, as_max_tool_calls = a_max_tool_calls a, as_tags = da_tags a,
      as_requires_approval = a_requires_approval a, as_capabilities = a_capabilities a,
      as_side_effect = a_side_effect a, as_executor_type = ''agent'', as_placement = a_placement a,
      as_remote_name = Some (a_remote_name a)\<rparr>"

text \<open>The constructor, on the fields of a spec: it checks the limits and defaults the remote name.\<close>

definition agent_of_spec ::
  "agent_spec \<Rightarrow> (agent_task \<Rightarrow> agent_return prog) \<Rightarrow> json_model \<Rightarrow> json_model \<Rightarrow> exn + described_agent" where
  "agent_of_spec spec handler input_model output_model =
     (case agent_check (as_max_turns spec) (as_max_tool_calls spec) of
        Inl e \<Rightarrow> Inl e
      | Inr _ \<Rightarrow> Inr
          \<lparr>a_name = as_name spec, a_instruction = as_instruction spec,
           a_input_model = mc_validate input_model, a_output_model = mc_validate output_model,
           a_allowed_tools = as_allowed_tools spec, a_allowed_handoffs = as_allowed_handoffs spec,
           a_max_turns = as_max_turns spec, a_max_tool_calls = as_max_tool_calls spec,
           a_requires_approval = as_requires_approval spec, a_capabilities = as_capabilities spec,
           a_side_effect = as_side_effect spec, a_placement = as_placement spec,
           a_remote_name = or_else (as_remote_name spec) (as_name spec), a_handler = handler,
           da_description = as_description spec, da_tags = as_tags spec, da_input_class = input_model,
           da_output_class = output_model\<rparr>)"

text \<open>The model registry, when there is one, is its \<open>resolve\<close>.\<close>

definition from_spec ::
  "(string \<Rightarrow> exn + json_model) option \<Rightarrow> agent_spec \<Rightarrow> (agent_task \<Rightarrow> agent_return prog) \<Rightarrow> exn + described_agent" where
  "from_spec registry spec handler =
     (case registry of
        None \<Rightarrow> Inl (Exn ValueError
          (''ModelRegistry required to reconstruct input/output models for Agent '' @ quoted (as_name spec)))
      | Some resolve \<Rightarrow>
          (case resolve (ms_name (as_input_model spec)) of
             Inl e \<Rightarrow> Inl e
           | Inr input_model \<Rightarrow>
               (case resolve (ms_name (as_output_model spec)) of
                  Inl e \<Rightarrow> Inl e
                | Inr output_model \<Rightarrow> agent_of_spec spec handler input_model output_model)))"

text \<open>What the constructor ensures, and that the model classes are those of the agent.\<close>

definition constructed :: "described_agent \<Rightarrow> bool" where
  "constructed a \<longleftrightarrow>
     agent_check (a_max_turns a) (a_max_tool_calls a) = Inr () \<and> a_remote_name a \<noteq> [] \<and>
     a_input_model a = mc_validate (da_input_class a) \<and> a_output_model a = mc_validate (da_output_class a)"

lemma agent_of_spec_constructed:
  "agent_of_spec spec h i out = Inr a \<Longrightarrow> as_name spec \<noteq> [] \<Longrightarrow> constructed a"
  by (auto simp: agent_of_spec_def constructed_def or_else_def split: sum.splits option.splits if_splits)

lemma from_spec_Inr:
  "from_spec registry spec h = Inr a \<longleftrightarrow>
     (\<exists>resolve i out. registry = Some resolve \<and> resolve (ms_name (as_input_model spec)) = Inr i \<and>
        resolve (ms_name (as_output_model spec)) = Inr out \<and> agent_of_spec spec h i out = Inr a)"
  by (auto simp: from_spec_def split: option.splits sum.splits)

text \<open>An agent survives its spec, given its handler and a registry that knows its two model classes.\<close>

lemma agent_survives_spec:
  assumes "constructed a" "resolve (mc_name (da_input_class a)) = Inr (da_input_class a)"
    "resolve (mc_name (da_output_class a)) = Inr (da_output_class a)"
  shows "from_spec (Some resolve) (to_spec digest a) (a_handler a) = Inr a"
  using assms
  by (cases a) (simp add: from_spec_def agent_of_spec_def to_spec_def schema_ref_def constructed_def or_else_def)

text \<open>A spec survives its agent but for its version, its executor type and its fingerprint, which are written
  anew, and for an absent remote name, which becomes the name.\<close>

lemma spec_survives_agent:
  assumes f: "from_spec (Some resolve) spec h = Inr a"
    and names: "\<And>n c. resolve n = Inr c \<Longrightarrow> n = ms_name (as_input_model spec) \<Longrightarrow> schema_ref c = as_input_model spec"
      "\<And>n c. resolve n = Inr c \<Longrightarrow> n = ms_name (as_output_model spec) \<Longrightarrow> schema_ref c = as_output_model spec"
  shows "to_spec digest a = spec\<lparr>as_version := DEFAULT_VERSION, as_executor_type := ''agent'',
    as_schema_fingerprint := Some (fingerprint digest (ms_schema (as_input_model spec)) (ms_schema (as_output_model spec))),
    as_remote_name := Some (or_else (as_remote_name spec) (as_name spec))\<rparr>"
proof -
  obtain i out where r: "resolve (ms_name (as_input_model spec)) = Inr i"
    "resolve (ms_name (as_output_model spec)) = Inr out" and a: "agent_of_spec spec h i out = Inr a"
    using f by (auto simp: from_spec_Inr)
  from names(1) [OF r(1) refl] names(2) [OF r(2) refl]
  have "as_input_model spec = schema_ref i" "as_output_model spec = schema_ref out" by simp_all
  with a show ?thesis
    by (cases spec) (auto simp: agent_of_spec_def to_spec_def schema_ref_def split: sum.splits)
qed

subsection \<open>Tools\<close>

record tool_manifest =
  tf_name :: string
  tf_version :: string
  tf_description :: string
  tf_input_schema :: "json dict"
  tf_output_schema :: "json dict"
  tf_schema_fingerprint :: "string option"
  tf_capabilities :: "string list"
  tf_side_effect :: bool
  tf_timeout_seconds :: "int option"
  tf_requires_approval :: bool
  tf_tags :: "string list"
  tf_executor_type :: string
  tf_placement :: placement
  tf_remote_name :: "string option"

record described_tool = tool +
  dt_description :: string
  dt_tags :: "string list"
  dt_schema_fingerprint :: "string option"
  dt_input_class :: json_model
  dt_output_class :: "(py_value \<Rightarrow> string + py_value) model_class"

definition tool_fingerprint :: "(json \<Rightarrow> string) \<Rightarrow> described_tool \<Rightarrow> string" where
  "tool_fingerprint digest t = fingerprint digest (mc_schema (dt_input_class t)) (mc_schema (dt_output_class t))"

text \<open>The fingerprint that registration stores in the tool.\<close>

definition fingerprinted :: "(json \<Rightarrow> string) \<Rightarrow> described_tool \<Rightarrow> described_tool" where
  "fingerprinted digest t = t\<lparr>dt_schema_fingerprint := Some (tool_fingerprint digest t)\<rparr>"

definition to_manifest :: "(json \<Rightarrow> string) \<Rightarrow> described_tool \<Rightarrow> tool_manifest" where
  "to_manifest digest t =
     \<lparr>tf_name = t_name t, tf_version = t_version t, tf_description = dt_description t,
      tf_input_schema = mc_schema (dt_input_class t), tf_output_schema = mc_schema (dt_output_class t),
      tf_schema_fingerprint =
        (case dt_schema_fingerprint t of None \<Rightarrow> Some (tool_fingerprint digest t) | Some f \<Rightarrow> Some f),
      tf_capabilities = t_capabilities t, tf_side_effect = t_side_effect t,
      tf_timeout_seconds = t_timeout_seconds t, tf_requires_approval = t_requires_approval t,
      tf_tags = dt_tags t, tf_executor_type = t_executor_type t, tf_placement = t_placement t,
      tf_remote_name = Some (t_remote_name t)\<rparr>"

text \<open>A tool has the same manifest before and after it is registered.\<close>

lemma manifest_of_registered:
  "dt_schema_fingerprint t = None \<Longrightarrow> to_manifest digest (fingerprinted digest t) = to_manifest digest t"
  by (cases t) (simp add: to_manifest_def fingerprinted_def tool_fingerprint_def)

end
