(* ===== verification/Backends.thy ===== *)
theory Backends
  imports Effects "HOL-Library.Multiset"
begin

section \<open>Execution backends (\<open>governai/execution\<close>)\<close>

text \<open>
  How a backend runs callables concurrently. A callable is a coroutine: each of its steps changes the shared
  state, and then it returns, raises, or waits to go on. \<open>parallel\<close> makes a task of each and gathers the
  results; the event loop takes any task that has not ended. A task that raises makes \<open>gather\<close> raise at
  once, and the other tasks go on running. What a thread or process pool does with a call is a parameter.
\<close>

datatype ('s, 'r) coroutine = Done "exn + 'r" | Awaiting "'s \<Rightarrow> ('s, 'r) coroutine \<times> 's"

record ('s, 'r) callable =
  cl_is_coroutine_function :: bool
  cl_start :: "'s \<Rightarrow> ('s, 'r) coroutine \<times> 's"

datatype backend = AsyncBackend | ThreadPoolBackend | ProcessPoolBackend

text \<open>\<open>call\<close>: nothing runs before the first turn of the loop.\<close>

definition backend_call ::
  "(backend \<Rightarrow> ('s, 'r) callable \<Rightarrow> 's \<Rightarrow> ('s, 'r) coroutine \<times> 's) \<Rightarrow> backend \<Rightarrow> ('s, 'r) callable \<Rightarrow> ('s, 'r) coroutine" where
  "backend_call pool b c =
     Awaiting
       (if b = AsyncBackend then cl_start c
        else if b = ProcessPoolBackend \<and> cl_is_coroutine_function c
        then (\<lambda>s. (Done (Inl (Exn TypeError ''ProcessPoolBackend only supports sync callables'')), s))
        else pool b c)"

text \<open>\<open>gather\<close>: the tasks in the order of the callables, and the first exception raised.\<close>

record ('s, 'r) gathering =
  ga_tasks :: "('s, 'r) coroutine list"
  ga_raised :: "exn option"
  ga_state :: 's

fun result_of :: "('s, 'r) coroutine \<Rightarrow> (exn + 'r) option" where
  "result_of (Done x) = Some x"
| "result_of (Awaiting f) = None"

fun first_error :: "exn option \<Rightarrow> ('s, 'r) coroutine \<Rightarrow> exn option" where
  "first_error None (Done (Inl e)) = Some e"
| "first_error raised _ = raised"

definition start_parallel ::
  "(backend \<Rightarrow> ('s, 'r) callable \<Rightarrow> 's \<Rightarrow> ('s, 'r) coroutine \<times> 's) \<Rightarrow> backend \<Rightarrow> ('s, 'r) callable list \<Rightarrow> 's \<Rightarrow> ('s, 'r) gathering" where
  "start_parallel pool b cs s = \<lparr>ga_tasks = map (backend_call pool b) cs, ga_raised = None, ga_state = s\<rparr>"

definition start_amap ::
  "(backend \<Rightarrow> ('s, 'r) callable \<Rightarrow> 's \<Rightarrow> ('s, 'r) coroutine \<times> 's) \<Rightarrow> backend \<Rightarrow> ('a \<Rightarrow> ('s, 'r) callable) \<Rightarrow> 'a list \<Rightarrow> 's \<Rightarrow> ('s, 'r) gathering" where
  "start_amap pool b f items s = start_parallel pool b (map f items) s"

text \<open>What \<open>gather\<close> has to give: an exception, the results in order, or nothing yet.\<close>

definition gathered :: "('s, 'r) gathering \<Rightarrow> (exn + 'r list) option" where
  "gathered g =
     (case ga_raised g of
        Some e \<Rightarrow> Some (Inl e)
      | None \<Rightarrow>
          if \<forall>c \<in> set (ga_tasks g). result_of c \<noteq> None
          then Some (Inr (map (\<lambda>c. case c of Done (Inr r) \<Rightarrow> r) (ga_tasks g))) else None)"

definition fan_in :: "'r list \<Rightarrow> ('r list \<Rightarrow> 'x) option \<Rightarrow> 'r list + 'x" where
  "fan_in results reducer = (case reducer of None \<Rightarrow> Inl results | Some f \<Rightarrow> Inr (f results))"

text \<open>\<open>backend or _DEFAULT_BACKEND\<close> of \<open>primitives.py\<close>.\<close>

definition runner :: "backend \<Rightarrow> backend option \<Rightarrow> backend" where
  "runner default_backend b = (case b of None \<Rightarrow> default_backend | Some x \<Rightarrow> x)"

text \<open>The module's default backend is a variable; the primitives use it where no backend is given.\<close>

definition get_default_backend :: "(backend, backend) py" where
  "get_default_backend = gets (\<lambda>b. b)"

definition set_default_backend :: "backend \<Rightarrow> (backend, unit) py" where
  "set_default_backend b = modify (\<lambda>_. b)"

definition call_primitive ::
  "(backend \<Rightarrow> ('s, 'r) callable \<Rightarrow> 's \<Rightarrow> ('s, 'r) coroutine \<times> 's) \<Rightarrow> ('s, 'r) callable \<Rightarrow> backend option \<Rightarrow>
   (backend, ('s, 'r) coroutine) py" where
  "call_primitive pool c b = bnd get_default_backend (\<lambda>d. ret (backend_call pool (runner d b) c))"

definition parallel_primitive ::
  "(backend \<Rightarrow> ('s, 'r) callable \<Rightarrow> 's \<Rightarrow> ('s, 'r) coroutine \<times> 's) \<Rightarrow> ('s, 'r) callable list \<Rightarrow> backend option \<Rightarrow>
   's \<Rightarrow> (backend, ('s, 'r) gathering) py" where
  "parallel_primitive pool cs b s = bnd get_default_backend (\<lambda>d. ret (start_parallel pool (runner d b) cs s))"

definition amap_primitive ::
  "(backend \<Rightarrow> ('s, 'r) callable \<Rightarrow> 's \<Rightarrow> ('s, 'r) coroutine \<times> 's) \<Rightarrow> ('a \<Rightarrow> ('s, 'r) callable) \<Rightarrow> 'a list \<Rightarrow>
   backend option \<Rightarrow> 's \<Rightarrow> (backend, ('s, 'r) gathering) py" where
  "amap_primitive pool f items b s = parallel_primitive pool (map f items) b s"

lemma default_backend_used:
  "snd (set_default_backend b d) = b"
  "fst (call_primitive pool c b' d) = Inr (backend_call pool (runner d b') c)"
  "fst (parallel_primitive pool cs b' s d) = Inr (start_parallel pool (runner d b') cs s)"
  "fst (amap_primitive pool f items b' s d) = Inr (start_amap pool (runner d b') f items s)"
  by (simp_all add: set_default_backend_def call_primitive_def parallel_primitive_def amap_primitive_def
      get_default_backend_def start_amap_def py_simps)

text \<open>The pool of a \<open>ProcessPoolBackend\<close>: once \<open>aclose\<close> has shut it down it takes no call; \<open>shut\<close> and
  \<open>close\<close> are the pool as a part of the state.\<close>

definition aclose :: "('s \<Rightarrow> 's) \<Rightarrow> ('s, unit) py" where
  "aclose close = modify close"

definition process_pool ::
  "('s \<Rightarrow> bool) \<Rightarrow> (backend \<Rightarrow> ('s, 'r) callable \<Rightarrow> 's \<Rightarrow> ('s, 'r) coroutine \<times> 's) \<Rightarrow>
   backend \<Rightarrow> ('s, 'r) callable \<Rightarrow> 's \<Rightarrow> ('s, 'r) coroutine \<times> 's" where
  "process_pool shut pool b c s =
     (if b = ProcessPoolBackend \<and> shut s
      then (Done (Inl (Exn RuntimeError ''cannot schedule new futures after shutdown'')), s)
      else pool b c s)"

lemma closed_pool_takes_no_call:
  assumes "\<And>s. shut (close s)"
  shows "\<exists>e f. backend_call (process_pool shut pool) ProcessPoolBackend c = Awaiting f \<and>
    f (snd (aclose close s)) = (Done (Inl e), snd (aclose close s))"
  using assms by (auto simp: backend_call_def process_pool_def aclose_def py_simps)

subsection \<open>The event loop\<close>

definition step_task :: "nat \<Rightarrow> ('s, 'r) gathering \<Rightarrow> ('s, 'r) gathering" where
  "step_task i g =
     (case ga_tasks g ! i of
        Done x \<Rightarrow> g
      | Awaiting f \<Rightarrow>
          (case f (ga_state g) of
             (c, s) \<Rightarrow> g\<lparr>ga_tasks := (ga_tasks g)[i := c], ga_raised := first_error (ga_raised g) c, ga_state := s\<rparr>))"

inductive loop_step :: "('s, 'r) gathering \<Rightarrow> ('s, 'r) gathering \<Rightarrow> bool" where
  turn: "i < length (ga_tasks g) \<Longrightarrow> result_of (ga_tasks g ! i) = None \<Longrightarrow> loop_step g (step_task i g)"

inductive_cases loop_stepE: "loop_step g g'"

lemma loop_step_task:
  assumes "loop_step g g'"
  obtains i f c s where "i < length (ga_tasks g)" "ga_tasks g ! i = Awaiting f" "f (ga_state g) = (c, s)"
    "g' = g\<lparr>ga_tasks := (ga_tasks g)[i := c], ga_raised := first_error (ga_raised g) c, ga_state := s\<rparr>"
proof -
  from assms obtain i where i: "i < length (ga_tasks g)" "result_of (ga_tasks g ! i) = None" "g' = step_task i g"
    by (rule loop_stepE)
  then obtain f where f: "ga_tasks g ! i = Awaiting f" by (cases "ga_tasks g ! i") simp_all
  obtain c s where "f (ga_state g) = (c, s)" by (cases "f (ga_state g)")
  with that i f show ?thesis by (simp add: step_task_def)
qed

text \<open>The loop always comes to an end: a turn replaces a task by what is left of it.\<close>

inductive rest_of :: "('s, 'r) coroutine \<Rightarrow> ('s, 'r) coroutine \<Rightarrow> bool" where
  rest: "rest_of (fst (f s)) (Awaiting f)"

inductive_cases rest_of_DoneE: "rest_of c (Done x)"
inductive_cases rest_of_AwaitingE: "rest_of c (Awaiting f)"

lemma accp_rest: "Wellfounded.accp rest_of c"
proof (induction c)
  case (Done x)
  show ?case by (rule accp.accI) (erule rest_of_DoneE)
next
  case (Awaiting f)
  have "fst (f s) \<in> Basic_BNFs.fsts (f s)" for s by (cases "f s") simp
  then have "Wellfounded.accp rest_of (fst (f s))" for s by (intro Awaiting [of "f s"] rangeI)
  then show ?case by (auto intro: accp.accI elim: rest_of_AwaitingE)
qed

lemma wf_rest: "wfP rest_of"
  by (rule accp_wfpI) (rule allI [OF accp_rest])

theorem event_loop_ends: "wfP (\<lambda>g' g. loop_step g g')"
proof -
  let ?r = "{(c', c). rest_of c' c}"
  have "(mset (ga_tasks g'), mset (ga_tasks g)) \<in> mult ?r" if st: "loop_step g g'" for g g' :: "('s, 'r) gathering"
  proof -
    obtain i f c s where i: "i < length (ga_tasks g)" "ga_tasks g ! i = Awaiting f" "f (ga_state g) = (c, s)"
      and g': "ga_tasks g' = (ga_tasks g)[i := c]" using st by (rule loop_step_task) simp
    define M where "M = mset (ga_tasks g) - {#Awaiting f#}"
    have m: "mset (ga_tasks g) = add_mset (Awaiting f) M"
      using i(1,2) by (metis M_def insert_DiffM nth_mem_mset)
    have m': "mset (ga_tasks g') = add_mset c M"
      using i(1,2) by (simp add: g' mset_update M_def)
    have "rest_of c (Awaiting f)" using rest [of f "ga_state g"] i(3) by simp
    then have "(add_mset c M, add_mset (Awaiting f) M) \<in> mult1 ?r"
      by (intro mult1I [of _ "Awaiting f" M _ "{#c#}"]) simp_all
    then show ?thesis unfolding m m' mult_def by (rule r_into_trancl)
  qed
  then have "{(g', g). loop_step g g'} \<subseteq> inv_image (mult ?r) (\<lambda>g. mset (ga_tasks g))"
    by (auto simp: inv_image_def)
  moreover have "wf (inv_image (mult ?r) (\<lambda>g. mset (ga_tasks g)))"
    using wf_rest by (intro wf_inv_image wf_mult) (simp add: wfp_def)
  ultimately show ?thesis unfolding wfp_def by (rule wf_subset [rotated])
qed

subsection \<open>The order of the results does not depend on the schedule\<close>

text \<open>A coroutine that ends in \<open>x\<close> whatever the others do to the state.\<close>

inductive ends_in :: "exn + 'r \<Rightarrow> ('s, 'r) coroutine \<Rightarrow> bool" for x where
  ends_done: "ends_in x (Done x)"
| ends_awaiting: "(\<And>s. ends_in x (fst (f s))) \<Longrightarrow> ends_in x (Awaiting f)"

inductive_cases ends_in_AwaitingE: "ends_in x (Awaiting f)"
inductive_simps ends_in_Done: "ends_in x (Done y)"

definition on_schedule :: "(exn + 'r) list \<Rightarrow> ('s, 'r) gathering \<Rightarrow> bool" where
  "on_schedule xs g \<longleftrightarrow>
     list_all2 ends_in xs (ga_tasks g) \<and> (\<forall>e. ga_raised g = Some e \<longrightarrow> Inl e \<in> set xs) \<and>
     (ga_raised g = None \<longrightarrow> (\<forall>e. Done (Inl e) \<notin> set (ga_tasks g)))"

lemma first_error_Some: "first_error raised c = Some e \<longleftrightarrow> raised = Some e \<or> raised = None \<and> c = Done (Inl e)"
  by (cases raised; cases c rule: result_of.cases) (auto split: sum.splits elim: first_error.elims)

lemma first_error_None: "first_error raised c = None \<longleftrightarrow> raised = None \<and> (\<forall>e. c \<noteq> Done (Inl e))"
  using first_error_Some [of raised c] by (metis not_None_eq)

lemma on_schedule_step:
  assumes g: "on_schedule xs g" and st: "loop_step g g'"
  shows "on_schedule xs g'"
proof -
  obtain i f c s where i: "i < length (ga_tasks g)" "ga_tasks g ! i = Awaiting f" "f (ga_state g) = (c, s)"
    and g': "g' = g\<lparr>ga_tasks := (ga_tasks g)[i := c], ga_raised := first_error (ga_raised g) c, ga_state := s\<rparr>"
    using st by (rule loop_step_task)
  from g have all: "list_all2 ends_in xs (ga_tasks g)" by (simp add: on_schedule_def)
  then have x: "i < length xs" "ends_in (xs ! i) (Awaiting f)"
    using i(1,2) by (auto simp: list_all2_conv_all_nth)
  then have c: "ends_in (xs ! i) c" using i(3) by (metis ends_in_AwaitingE fst_conv)
  with all i(1) have "list_all2 ends_in xs ((ga_tasks g)[i := c])"
    by (auto simp: list_all2_conv_all_nth nth_list_update)
  moreover have "Inl e \<in> set xs" if "c = Done (Inl e)" for e
    using c x(1) that by (metis ends_in_Done nth_mem)
  moreover have "set ((ga_tasks g)[i := c]) \<subseteq> insert c (set (ga_tasks g))" by (rule set_update_subset_insert)
  ultimately show ?thesis
    using g by (auto simp: on_schedule_def g' first_error_Some first_error_None)
qed

lemma on_schedule_reached: "loop_step\<^sup>*\<^sup>* g g' \<Longrightarrow> on_schedule xs g \<Longrightarrow> on_schedule xs g'"
  by (induction rule: rtranclp_induct) (auto intro: on_schedule_step)

text \<open>When no task is left, the results are those of the callables in their order; if any raised, \<open>gather\<close>
  raised the exception of one of them.\<close>

theorem parallel_keeps_order:
  assumes c: "list_all2 ends_in xs (map (backend_call pool b) cs)"
    and run: "loop_step\<^sup>*\<^sup>* (start_parallel pool b cs s) g" and stop: "\<nexists>g'. loop_step g g'"
  shows "case gathered g of
      None \<Rightarrow> False
    | Some (Inl e) \<Rightarrow> Inl e \<in> set xs
    | Some (Inr rs) \<Rightarrow> xs = map Inr rs"
proof -
  have "on_schedule xs (start_parallel pool b cs s)"
    using c by (auto simp: on_schedule_def start_parallel_def backend_call_def)
  with run have g: "on_schedule xs g" by (rule on_schedule_reached)
  have ended: "result_of t \<noteq> None" if "t \<in> set (ga_tasks g)" for t
    using stop that by (metis in_set_conv_nth loop_step.turn)
  show ?thesis
  proof (cases "ga_raised g")
    case None
    have "xs = map Inr (map (\<lambda>c. case c of Done (Inr r) \<Rightarrow> r) (ga_tasks g))"
    proof (rule nth_equalityI)
      from g show len: "length xs = length (map Inr (map (\<lambda>c. case c of Done (Inr r) \<Rightarrow> r) (ga_tasks g)))"
        by (auto simp: on_schedule_def dest: list_all2_lengthD)
      fix i assume i: "i < length xs"
      with len have l: "i < length (ga_tasks g)" by simp
      then have m: "ga_tasks g ! i \<in> set (ga_tasks g)" by simp
      obtain y where y: "ga_tasks g ! i = Done y" using ended [OF m] by (cases "ga_tasks g ! i") simp_all
      with g None m obtain r where r: "y = Inr r" by (cases y) (auto simp: on_schedule_def)
      have "ends_in (xs ! i) (ga_tasks g ! i)"
        using list_all2_nthD [OF _ i, of ends_in "ga_tasks g"] g by (simp add: on_schedule_def)
      then have "xs ! i = Inr r" unfolding y r by (simp add: ends_in_Done)
      then show "xs ! i = map Inr (map (\<lambda>c. case c of Done (Inr r) \<Rightarrow> r) (ga_tasks g)) ! i"
        using l y r by simp
    qed
    with None ended show ?thesis by (simp add: gathered_def)
  qed (use g in \<open>auto simp: gathered_def on_schedule_def\<close>)
qed

end
