(* ===== verification/Workflow_Facade.thy ===== *)
theory Workflow_Facade
  imports Flow_Spec
begin

section \<open>The workflow as a facade of its runtime (\<open>workflows/base.py\<close>, \<open>app/flow.py\<close>)\<close>

text \<open>
  A \<open>Workflow\<close> hands every call on to its runtime, which may be any object: its attributes are the fields
  of \<open>runtime_api\<close>, those the class looks up with \<open>getattr(..., None)\<close> optional. Where one is missing,
  the class falls back to another or raises \<open>NotImplementedError\<close>. \<open>local_api\<close> is \<open>LocalRuntime\<close>.
\<close>

type_synonym entry_point = "world \<Rightarrow> ((exn + run_state) \<times> world) option"

record runtime_api =
  api_run_workflow :: "workflow \<Rightarrow> py_value \<Rightarrow> string option \<Rightarrow> entry_point"
  api_resume_workflow :: "workflow \<Rightarrow> string \<Rightarrow> resume_input \<Rightarrow> entry_point"
  api_resume_from_checkpoint :: "workflow \<Rightarrow> string \<Rightarrow> json \<Rightarrow> entry_point"
  api_get_run_state :: "string \<Rightarrow> run_state rt"
  api_aget_run_state :: "(string \<Rightarrow> run_state rt) option"
  api_get_latest_run_state :: "(string \<Rightarrow> run_state rt) option"
  api_resume_latest_workflow :: "(workflow \<Rightarrow> string \<Rightarrow> resume_input \<Rightarrow> entry_point) option"
  api_list_thread_runs :: "(string \<Rightarrow> run_state list rt) option"
  api_list_pending_interrupts :: "(string \<Rightarrow> interrupt_request list rt) option"
  api_get_pending_interrupt :: "(string \<Rightarrow> string \<Rightarrow> interrupt_request option rt) option"
  api_get_latest_pending_interrupt :: "(string \<Rightarrow> interrupt_request option rt) option"
  api_list_thread_pending_interrupts :: "(string \<Rightarrow> interrupt_request list rt) option"

subsection \<open>\<open>Workflow\<close>\<close>

definition not_supported :: "string \<Rightarrow> 'a rt" where
  "not_supported what = raise (Exn NotImplementedError (''runtime does not support '' @ what))"

definition workflow_run :: "runtime_api \<Rightarrow> workflow \<Rightarrow> py_value \<Rightarrow> string option \<Rightarrow> entry_point" where
  "workflow_run rt wk data thread_id = api_run_workflow rt wk data thread_id"

definition workflow_resume :: "runtime_api \<Rightarrow> workflow \<Rightarrow> string \<Rightarrow> resume_input \<Rightarrow> entry_point" where
  "workflow_resume rt wk run_id p = api_resume_workflow rt wk run_id p"

definition workflow_resume_from_checkpoint :: "runtime_api \<Rightarrow> workflow \<Rightarrow> string \<Rightarrow> json \<Rightarrow> entry_point" where
  "workflow_resume_from_checkpoint rt wk checkpoint_id p = api_resume_from_checkpoint rt wk checkpoint_id p"

definition workflow_get_run_state :: "runtime_api \<Rightarrow> string \<Rightarrow> run_state rt" where
  "workflow_get_run_state rt run_id = api_get_run_state rt run_id"

definition workflow_aget_run_state :: "runtime_api \<Rightarrow> string \<Rightarrow> run_state rt" where
  "workflow_aget_run_state rt run_id =
     (case api_aget_run_state rt of
        None \<Rightarrow> workflow_get_run_state rt run_id
      | Some getter \<Rightarrow> getter run_id)"

definition workflow_get_latest_run_state :: "runtime_api \<Rightarrow> string \<Rightarrow> run_state rt" where
  "workflow_get_latest_run_state rt thread_id =
     (case api_get_latest_run_state rt of
        None \<Rightarrow> not_supported ''thread-aware run lookup''
      | Some getter \<Rightarrow> getter thread_id)"

definition workflow_resume_latest :: "runtime_api \<Rightarrow> workflow \<Rightarrow> string \<Rightarrow> resume_input \<Rightarrow> entry_point" where
  "workflow_resume_latest rt wk thread_id p w =
     (case api_resume_latest_workflow rt of
        Some resumer \<Rightarrow> resumer wk thread_id p w
      | None \<Rightarrow>
          (case workflow_get_latest_run_state rt thread_id w of
             (Inl e, w') \<Rightarrow> Some (Inl e, w')
           | (Inr state, w') \<Rightarrow> workflow_resume rt wk (rs_run_id state) p w'))"

definition workflow_list_thread_runs :: "runtime_api \<Rightarrow> string \<Rightarrow> run_state list rt" where
  "workflow_list_thread_runs rt thread_id =
     (case api_list_thread_runs rt of
        None \<Rightarrow> not_supported ''thread-aware run lookup''
      | Some getter \<Rightarrow> getter thread_id)"

definition workflow_list_pending_interrupts :: "runtime_api \<Rightarrow> string \<Rightarrow> interrupt_request list rt" where
  "workflow_list_pending_interrupts rt run_id =
     (case api_list_pending_interrupts rt of
        None \<Rightarrow> not_supported ''interrupt inspection''
      | Some getter \<Rightarrow> getter run_id)"

definition workflow_get_pending_interrupt :: "runtime_api \<Rightarrow> string \<Rightarrow> string \<Rightarrow> interrupt_request option rt" where
  "workflow_get_pending_interrupt rt run_id interrupt_id =
     (case api_get_pending_interrupt rt of
        None \<Rightarrow> not_supported ''interrupt inspection''
      | Some getter \<Rightarrow> getter run_id interrupt_id)"

definition workflow_get_latest_pending_interrupt :: "runtime_api \<Rightarrow> string \<Rightarrow> interrupt_request option rt" where
  "workflow_get_latest_pending_interrupt rt run_id =
     (case api_get_latest_pending_interrupt rt of
        None \<Rightarrow> not_supported ''interrupt inspection''
      | Some getter \<Rightarrow> getter run_id)"

definition workflow_list_thread_pending_interrupts :: "runtime_api \<Rightarrow> string \<Rightarrow> interrupt_request list rt" where
  "workflow_list_thread_pending_interrupts rt thread_id =
     (case api_list_thread_pending_interrupts rt of
        None \<Rightarrow> not_supported ''interrupt inspection''
      | Some getter \<Rightarrow> getter thread_id)"

subsection \<open>\<open>LocalRuntime\<close> as a runtime\<close>

definition local_api :: "config \<Rightarrow> runtime_api" where
  "local_api cfg =
     \<lparr>api_run_workflow = run_workflow cfg, api_resume_workflow = resume_workflow cfg,
      api_resume_from_checkpoint = resume_from_checkpoint cfg, api_get_run_state = get_run_state,
      api_aget_run_state = Some aget_run_state, api_get_latest_run_state = Some get_latest_run_state,
      api_resume_latest_workflow = Some (resume_latest_workflow cfg),
      api_list_thread_runs = Some list_thread_runs, api_list_pending_interrupts = Some list_pending_interrupts,
      api_get_pending_interrupt = Some get_pending_interrupt,
      api_get_latest_pending_interrupt = Some get_latest_pending_interrupt,
      api_list_thread_pending_interrupts = Some list_thread_pending_interrupts\<rparr>"

subsection \<open>The remaining methods of \<open>GovernedFlow\<close>\<close>

definition flow_api :: "compiled_flow \<Rightarrow> runtime_api" where
  "flow_api f = local_api (gf_config f)"

definition flow_get_run_state :: "compiled_flow \<Rightarrow> string \<Rightarrow> run_state rt" where
  "flow_get_run_state f = workflow_get_run_state (flow_api f)"

definition flow_get_latest_run_state :: "compiled_flow \<Rightarrow> string \<Rightarrow> run_state rt" where
  "flow_get_latest_run_state f = workflow_get_latest_run_state (flow_api f)"

definition flow_list_thread_runs :: "compiled_flow \<Rightarrow> string \<Rightarrow> run_state list rt" where
  "flow_list_thread_runs f = workflow_list_thread_runs (flow_api f)"

definition flow_list_pending_interrupts :: "compiled_flow \<Rightarrow> string \<Rightarrow> interrupt_request list rt" where
  "flow_list_pending_interrupts f = workflow_list_pending_interrupts (flow_api f)"

definition flow_get_pending_interrupt :: "compiled_flow \<Rightarrow> string \<Rightarrow> string \<Rightarrow> interrupt_request option rt" where
  "flow_get_pending_interrupt f = workflow_get_pending_interrupt (flow_api f)"

definition flow_get_latest_pending_interrupt :: "compiled_flow \<Rightarrow> string \<Rightarrow> interrupt_request option rt" where
  "flow_get_latest_pending_interrupt f = workflow_get_latest_pending_interrupt (flow_api f)"

definition flow_list_thread_pending_interrupts :: "compiled_flow \<Rightarrow> string \<Rightarrow> interrupt_request list rt" where
  "flow_list_thread_pending_interrupts f = workflow_list_thread_pending_interrupts (flow_api f)"

subsection \<open>The fallbacks\<close>

text \<open>\<open>GovernedFlow\<close>'s calls go through the facade.\<close>

lemma flow_calls:
  "flow_run f = workflow_run (flow_api f) (gf_workflow f)"
  "flow_resume f = workflow_resume (flow_api f) (gf_workflow f)"
  "flow_resume_from_checkpoint f = workflow_resume_from_checkpoint (flow_api f) (gf_workflow f)"
  "flow_resume_latest f = workflow_resume_latest (flow_api f) (gf_workflow f)"
  by (intro ext; simp add: flow_run_def flow_resume_def flow_resume_from_checkpoint_def flow_resume_latest_def
      workflow_run_def workflow_resume_def workflow_resume_from_checkpoint_def workflow_resume_latest_def flow_api_def local_api_def)+

text \<open>Without \<open>resume_latest_workflow\<close> the facade does what the runtime's own method does.\<close>

theorem resume_latest_fallback_agrees:
  "workflow_resume_latest (local_api cfg\<lparr>api_resume_latest_workflow := None\<rparr>) wk t p w =
   workflow_resume_latest (local_api cfg) wk t p w"
  by (simp add: workflow_resume_latest_def workflow_get_latest_run_state_def workflow_resume_def local_api_def
      resume_latest_workflow_def resume_workflow_def then_advance_def py_simps split: prod.split sum.split)

text \<open>Without \<open>aget_run_state\<close> it sees only what the process has in memory: the same run when it is there,
  and an unknown one when it is only stored.\<close>

theorem aget_fallback:
  "workflow_aget_run_state (local_api cfg\<lparr>api_aget_run_state := None\<rparr>) r w =
     (if dget (w_runs w) r = None then (Inl (Exn KeyError (''Unknown run_id: '' @ r)), w)
      else workflow_aget_run_state (local_api cfg) r w)"
  by (simp add: workflow_aget_run_state_def workflow_get_run_state_def local_api_def get_run_state_def aget_run_state_def
      load_state_def known_run_def py_simps state_of_def run_of_def split: option.split)

text \<open>A runtime without thread lookup refuses every operation on threads and leaves the world alone.\<close>

theorem no_thread_lookup:
  assumes "api_get_latest_run_state rt = None" "api_resume_latest_workflow rt = None" "api_list_thread_runs rt = None"
  shows "(\<exists>msg. workflow_get_latest_run_state rt t w = (Inl (Exn NotImplementedError msg), w)) \<and>
    (\<exists>msg. workflow_resume_latest rt wk t p w = Some (Inl (Exn NotImplementedError msg), w)) \<and>
    (\<exists>msg. workflow_list_thread_runs rt t w = (Inl (Exn NotImplementedError msg), w))"
  using assms
  by (simp add: workflow_get_latest_run_state_def workflow_resume_latest_def workflow_list_thread_runs_def
      not_supported_def py_simps)

end
