(* ===== verification/Example_Models.thy ===== *)
theory Example_Models
  imports Completion Json_Text
begin

section \<open>The model classes of the examples\<close>

text \<open>
  The examples declare their payloads as Pydantic models. Pydantic is not part of the repository: its
  validation is the parameter \<open>validate\<close> of everything below, a function from the fields of a model class
  and the data to an error text or the dump of the instance. What the examples rely on is \<open>accepts_dumps\<close>:
  a dictionary that has every field of the declared type is accepted, and the instance has those fields.
\<close>

datatype field_type = TextField | FlagField | NumberField

type_synonym fields = "(string \<times> field_type) list"

fun of_type :: "field_type \<Rightarrow> json \<Rightarrow> bool" where
  "of_type TextField (JStr _) = True"
| "of_type FlagField (JBool _) = True"
| "of_type NumberField (JInt _) = True"
| "of_type _ _ = False"

definition fills :: "fields \<Rightarrow> json dict \<Rightarrow> bool" where
  "fills fs d = list_all (\<lambda>(f, t). case dget d f of None \<Rightarrow> False | Some v \<Rightarrow> of_type t v) fs"

definition dump_of :: "fields \<Rightarrow> json dict \<Rightarrow> json" where
  "dump_of fs d = JObj (map (\<lambda>(f, _). (f, dget_or d f JNull)) fs)"

type_synonym pydantic = "fields \<Rightarrow> json \<Rightarrow> string + json"

definition accepts_dumps :: "pydantic \<Rightarrow> bool" where
  "accepts_dumps validate \<longleftrightarrow>
     (\<forall>fs d. distinct (map fst fs) \<and> fills fs d \<longrightarrow> validate fs (JObj d) = Inr (dump_of fs d))"

lemma accepts: "accepts_dumps validate \<Longrightarrow> distinct (map fst fs) \<Longrightarrow> fills fs d \<Longrightarrow> validate fs (JObj d) = Inr (dump_of fs d)"
  by (simp add: accepts_dumps_def)

text \<open>A validation without conversions has it.\<close>

definition strict_model :: pydantic where
  "strict_model fs v =
     (case v of
        JObj d \<Rightarrow> if fills fs d then Inr (dump_of fs d) else Inl ''Field required''
      | _ \<Rightarrow> Inl ''Input should be a valid dictionary'')"

lemma strict_model_accepts: "accepts_dumps strict_model"
  by (simp add: accepts_dumps_def strict_model_def)

text \<open>An output that is an instance is one of the output model's class.\<close>

definition output_model :: "pydantic \<Rightarrow> fields \<Rightarrow> py_value \<Rightarrow> string + py_value" where
  "output_model validate fs v =
     (case v of
        Instance d \<Rightarrow> Inr (Instance d)
      | Plain j \<Rightarrow> map_sum id Instance (validate fs j)
      | CommandObj _ \<Rightarrow> Inl ''Input should be a valid dictionary or instance'')"

lemma output_model_instance [simp]: "output_model validate fs (Instance d) = Inr (Instance d)"
  by (simp add: output_model_def)

text \<open>A model class called with keyword arguments.\<close>

definition construct :: "pydantic \<Rightarrow> fields \<Rightarrow> json dict \<Rightarrow> py_value prog" where
  "construct validate fs args =
     (case validate fs (JObj args) of
        Inl msg \<Rightarrow> Throw (Exn ValidationError msg)
      | Inr d \<Rightarrow> Return (Instance d))"

text \<open>\<open>v[key]\<close> with a text key.\<close>

definition subscript :: "json \<Rightarrow> string \<Rightarrow> exn + json" where
  "subscript v key =
     (case v of
        JObj d \<Rightarrow> (case dget d key of None \<Rightarrow> Inl (Exn KeyError key) | Some x \<Rightarrow> Inr x)
      | JStr _ \<Rightarrow> Inl (Exn TypeError (''string indices must be integers, not '' @ quoted ''str''))
      | JList _ \<Rightarrow> Inl (Exn TypeError ''list indices must be integers or slices, not str'')
      | _ \<Rightarrow> Inl (Exn TypeError (quoted (type_name v) @ '' object is not subscriptable'')))"

text \<open>Statements of a module or a class body run in order; the first exception ends it.\<close>

fun all_right :: "(exn + 'a) list \<Rightarrow> exn + 'a list" where
  "all_right [] = Inr []"
| "all_right (Inl e # xs) = Inl e"
| "all_right (Inr x # xs) = map_sum id ((#) x) (all_right xs)"

lemma construct_Return:
  "accepts_dumps validate \<Longrightarrow> distinct (map fst fs) \<Longrightarrow> fills fs args \<Longrightarrow>
   construct validate fs args = Return (Instance (dump_of fs args))"
  by (simp add: construct_def accepts)

subsection \<open>A step of a class body that runs a tool\<close>

definition then_of :: "string \<Rightarrow> string \<Rightarrow> tool \<Rightarrow> exn + step" where
  "then_of name next_step t = map_sum id (then_step next_step) (new_step name (Some t) None [] None None)"

definition end_of :: "string \<Rightarrow> tool \<Rightarrow> exn + step" where
  "end_of name t = map_sum id then_end (new_step name (Some t) None [] None None)"

definition tool_step :: "bool option \<Rightarrow> string \<Rightarrow> string \<Rightarrow> tool \<Rightarrow> step" where
  "tool_step override name next_step t =
     \<lparr>sd_name = name, sd_executor = ToolExec t, sd_required_artifacts = [], sd_emitted_artifact = None,
      sd_approval_override = override, sd_transition = Some (StrictTransition next_step), sd_mode = Some STRICT\<rparr>"

lemma end_ref: "normalize_step_ref END_STEP = END_STEP"
  by code_simp

lemma step_built:
  "then_of n m t = Inr (tool_step None n (normalize_step_ref m) t)" "end_of n t = Inr (tool_step None n END_STEP t)"
  by (simp_all add: then_of_def end_of_def new_step_def then_step_def then_end_def strict_transition_def tool_step_def
      Let_def end_ref)

definition needs_approval :: "bool option \<Rightarrow> tool \<Rightarrow> bool" where
  "needs_approval override t = (case override of Some b \<Rightarrow> b | None \<Rightarrow> t_requires_approval t)"

text \<open>What the tool answers to the payload, given the artifacts.\<close>

definition tool_answers :: "config \<Rightarrow> tool \<Rightarrow> json \<Rightarrow> json dict \<Rightarrow> json \<Rightarrow> bool" where
  "tool_answers cfg t p A out \<longleftrightarrow>
     (\<exists>v y. t_input_model t p = Inr v \<and>
        (\<forall>cx w. cx_artifacts cx = A \<longrightarrow> tool_prog cfg cx (t_handler t v) w = (Inr y, w)) \<and>
        t_output_model t y = Inr (Instance out))"

lemma answers_with:
  assumes "t_input_model t p = Inr v" "t_output_model t y = Inr (Instance out)"
    and "\<And>cx w. cx_artifacts cx = A \<Longrightarrow> tool_prog cfg cx (t_handler t v) w = (Inr y, w)"
  shows "tool_answers cfg t p A out"
  using assms unfolding tool_answers_def by blast

lemma tool_step_works:
  assumes cfg: "plain cfg" and local: "should_execute_remotely cfg (t_name t) (t_placement t) = Inr False"
    and m: "m = END_STEP \<or> dhas (wf_steps wk) m" and n: "n \<noteq> []"
    and ok: "\<And>s. tidy s \<Longrightarrow> needs_approval a t \<longrightarrow> n \<in> approvals s \<Longrightarrow>
      verdict (policies_for (cfg_policy_engine cfg) (wf_name wk)) (gate_ctx wk (tool_step a n m t) s) = Inr ()"
    and runs: "\<And>p A G. fits (Some n) p A G \<Longrightarrow> needs_approval a t \<longrightarrow> n \<in> G \<Longrightarrow>
      \<exists>out. tool_answers cfg t p A out \<and> fits (next_point m) out (artifacts_set A n out) (G - {n})"
  shows "step_works cfg wk fits n (tool_step a n m t)"
proof (rule step_worksI, intro conjI allI impI; (elim conjE)?)
  let ?st = "tool_step a n m t"
  have st: "sd_executor ?st = ToolExec t" "sd_name ?st = n" "output_key ?st = n"
    by (simp_all add: tool_step_def or_else_def)
  show "check_artifacts (sd_name ?st) A (sd_required_artifacts ?st) = Inr ()" for A by (simp add: tool_step_def)
  fix r s w p
  assume l: "loaded r s w" and f: "fits (Some n) p (rs_artifacts s) (approvals s)"
    and g: "requires_approval ?st s = Inr False"
  from l have t: "tidy s" and s: "dget (w_runs w) r = Some s" by (simp_all add: loaded_def)
  have G: "needs_approval a t \<longrightarrow> n \<in> approvals s"
    using g requires_approval_tidy [OF t, of ?st] by (auto simp: tool_step_def executor_requires_approval_def needs_approval_def split: option.splits)
  show "verdict (policies_for (cfg_policy_engine cfg) (wf_name wk)) (gate_ctx wk ?st s) = Inr ()" by (rule ok [OF t G])
  obtain out v y where v: "t_input_model t p = Inr v"
    and y: "\<And>cx w. cx_artifacts cx = rs_artifacts s \<Longrightarrow> tool_prog cfg cx (t_handler t v) w = (Inr y, w)"
    and out: "t_output_model t y = Inr (Instance out)"
    and next_ok: "fits (next_point m) out (artifacts_set (rs_artifacts s) n out) (approvals s - {n})"
    using runs [OF f G] unfolding tool_answers_def by blast
  obtain w' where w': "run_executor cfg wk r ?st p w = (Inr (out, None, None), w')" "quiet w w'"
    using local_tool_answers [OF cfg s st(1) local v y out instance_output] by blast
  have "run_of w' r = s" using quiet_run_of [OF w'(2)] loaded_run_of [OF l] by simp
  moreover have "resolve_next_step_for_step wk ?st out None None = Inr m"
    using m by (auto simp: resolve_next_step_for_step_def resolve_next_step_def proposed_step_def check_handoff_def tool_step_def)
  ultimately show "\<exists>out h m' w'. run_executor cfg wk r ?st p w = (Inr (out, h, None), w') \<and> tidy (run_of w' r) \<and>
      resolve_next_step_for_step wk ?st out h None = Inr m' \<and>
      fits (next_point m') out (artifacts_set (rs_artifacts s) (output_key ?st) out) (approvals (run_of w' r) - {sd_name ?st})"
    using w'(1) t next_ok st by auto
qed

lemma tool_step_outputs:
  assumes cfg: "plain cfg" "cfg_containment cfg = LocalDev" and t: "t_placement t = LocalOnly" "n \<noteq> []"
    and k: "k = END_STEP \<or> dhas (wf_steps wk) k"
    and ok: "\<And>s. tidy s \<Longrightarrow> needs_approval a t \<longrightarrow> n \<in> approvals s \<Longrightarrow>
      verdict (policies_for (cfg_policy_engine cfg) (wf_name wk)) (gate_ctx wk (tool_step a n k t) s) = Inr ()"
    and run: "\<And>p A G. fits (Some n) p A G \<Longrightarrow> needs_approval a t \<longrightarrow> n \<in> G \<Longrightarrow>
      tool_answers cfg t p A out \<and> fits (next_point k) out (artifacts_set A n out) (G - {n})"
  shows "step_works cfg wk fits n (tool_step a n k t)"
proof (rule tool_step_works [OF cfg(1) _ k t(2) ok])
  show "should_execute_remotely cfg (t_name t) (t_placement t) = Inr False"
    using cfg(2) t(1) by (simp add: should_execute_remotely_def)
  show "\<exists>out. tool_answers cfg t p A out \<and> fits (next_point k) out (artifacts_set A n out) (G - {n})"
    if "fits (Some n) p A G" "needs_approval a t \<longrightarrow> n \<in> G" for p A G
    using run [OF that] by (rule exI [of _ out])
qed

text \<open>A step whose gate is closed needs an approval.\<close>

lemma closed_gate_needs: "requires_approval (tool_step a n m t) s = Inr True \<Longrightarrow> needs_approval a t"
  by (auto simp: requires_approval_def tool_step_def executor_requires_approval_def needs_approval_def
      split: sum.splits if_splits option.splits)

text \<open>A policy that lets the tool \<open>x\<close> run only in an approved step.\<close>

lemma approved_steps_policy:
  assumes p: "pol_timeout pol = None" "pol_suspended pol = (\<lambda>_. 0)"
      "\<And>ctx. pol_run pol ctx =
        (if pc_tool_name ctx \<noteq> x then Decides allow
         else case py_set (dget_or (pc_metadata ctx) ''approved_steps'' (JList [])) of
             Inl e \<Rightarrow> Raises e
           | Inr approved \<Rightarrow> Decides (if JStr (pc_step_name ctx) \<notin> set approved then no else allow))"
      "pd_allow allow"
    and t: "tidy s" and a: "t_name t = x \<longrightarrow> n \<in> approvals s"
  shows "verdict [(name, pol)] (gate_ctx wk (tool_step b n m t) s) = Inr ()"
proof -
  obtain given where "approved_steps s = Inr (map JStr given)" "approvals s = set given" using tidy_texts [OF t] by blast
  with a p show ?thesis
    by (auto simp: verdict_def run_policy_isolated_def run_policy_def gate_ctx_def policy_ctx_def tool_step_def
        executor_name_def approved_steps_def)
qed

subsection \<open>Workflows with one gate, at the last step\<close>

text \<open>The annotation \<open>fits\<close> has no end: a run waits, and at no other step than \<open>g\<close>.\<close>

definition one_gate :: "workflow \<Rightarrow> annotation \<Rightarrow> string \<Rightarrow> bool" where
  "one_gate wk fits g \<longleftrightarrow>
     (\<forall>p A G. \<not> fits None p A G) \<and>
     (\<forall>n st s. dget (wf_steps wk) n = Some st \<and> requires_approval st s = Inr True \<longrightarrow> n = g)"

definition held :: "workflow \<Rightarrow> annotation \<Rightarrow> string \<Rightarrow> string \<Rightarrow> run_state \<Rightarrow> world \<Rightarrow> bool" where
  "held wk fits g r s w \<longleftrightarrow>
     s = run_of w r \<and> dget (w_runs w) r = Some s \<and> get (w_store w) r = Some s \<and> gated wk fits r g w \<and> rs_run_id s = r \<and>
     rs_status s = WAITING_APPROVAL \<and> rs_current_step s = Some g \<and> rs_pending_approval s \<noteq> None \<and>
     (\<exists>p. fits (Some g) p (rs_artifacts s) (approvals s))"

lemma waits_at_gate:
  assumes "plain cfg" "world_ok w" "works cfg wk fits" "acyclic_workflow rank wk"
    and "wf_entry wk = Some n" "dhas (wf_steps wk) n" "fits (Some n) (to_payload data) [] {}" and one: "one_gate wk fits g"
  obtains r s w1 where "run_workflow cfg wk data th w = Some (Inr s, w1)" "held wk fits g r s w1"
    "rs_thread_id s = (case th of None \<Rightarrow> r | Some t \<Rightarrow> t)" "dget (st_thread_active (w_store w1)) (rs_thread_id s) = Some r"
proof -
  obtain r at w1 where run: "run_workflow cfg wk data th w = Some (Inr (run_of w1 r), w1)"
    and outcome: "finished fits r w1 \<or> (\<exists>n. gated wk fits r n w1 \<and> place (run_of w1 r) w1 = at)"
    and at: "fst at = (case th of None \<Rightarrow> r | Some t \<Rightarrow> t)" "dget (snd at) (fst at) = Some r"
    using run_works_plain [OF assms(1-7), of th] by blast
  have "\<not> finished fits r w1" using one by (auto simp: finished_def one_gate_def)
  with outcome obtain m where m: "gated wk fits r m w1" "place (run_of w1 r) w1 = at" by blast
  then obtain s q given p st where s: "waiting_for r q given s w1" "rs_current_step s = Some m"
    "dget (wf_steps wk) m = Some st" "fits (Some m) p (rs_artifacts s) (approvals s)"
    "requires_approval st s = Inr True" "get (w_store w1) r = Some s" by (auto simp: gated_def)
  have of: "run_of w1 r = s" "rs_status s = WAITING_APPROVAL" "rs_run_id s = r" "rs_pending_approval s \<noteq> None"
    "dget (w_runs w1) r = Some s"
    using s(1) gated_run [OF m(1)] by (auto simp: waiting_for_def run_of_def)
  have "m = g" using one s(3,5) unfolding one_gate_def by blast
  then have "held wk fits g r s w1" using m(1) s of by (auto simp: held_def)
  moreover have "rs_thread_id s = fst at" "st_thread_active (w_store w1) = snd at"
    using m(2) of(1) by (auto simp: place_def)
  ultimately show ?thesis using run of(1) at that by simp
qed

lemma gate_passed:
  assumes cfg: "plain cfg" and works: "works cfg wk fits'" and rank: "acyclic_workflow rank wk" "rank g = 0"
    and h: "held wk fits g r s w" and d: "ad_decision d = APPROVE"
    and more: "\<And>q A G st. fits (Some g) q A G \<Longrightarrow> dget (wf_steps wk) g = Some st \<Longrightarrow> fits' (Some g) q A (insert (sd_name st) G)"
  obtains s' w2 where "resume_workflow cfg wk r (GivenDecision d) w = Some (Inr s', w2)" "s' = run_of w2 r"
    "finished fits' r w2" "rs_thread_id s' = rs_thread_id s"
proof -
  have app: "approves cfg (w_now w) (GivenDecision d) d"
    using d by (simp add: approves_def normalize_resume_payload_def normalize_decision_def Let_def)
  have g: "gated wk fits r g w" and s: "s = run_of w r" using h by (simp_all add: held_def)
  from resume_works [OF cfg works rank(1) g app more] rank(2)
  obtain w2 where "resume_workflow cfg wk r (GivenDecision d) w = Some (Inr (run_of w2 r), w2)"
    "finished fits' r w2" "rs_thread_id (run_of w2 r) = rs_thread_id s"
    unfolding delivered_plain s by (auto simp: place_def)
  then show ?thesis using that by blast
qed

text \<open>In process, tools that run in process are accepted.\<close>

lemma local_tools_accepted:
  assumes "cfg_containment cfg = LocalDev" "\<forall>s \<in> set (dvalues (wf_steps wk)). \<exists>t. sd_executor s = ToolExec t \<and> t_placement t = LocalOnly"
  shows "validate_workflow cfg wk = Inr ()"
proof -
  have "check_placements cfg g ss = Inr False"
    if "\<forall>s \<in> set ss. \<exists>t. sd_executor s = ToolExec t \<and> t_placement t = LocalOnly" for g ss
    using that assms(1) by (induction ss) (auto simp: executor_placement_def)
  then show ?thesis using assms(2) by (simp add: validate_workflow_def)
qed

text \<open>A runtime in process, without policies.\<close>

definition open_runtime :: "config \<Rightarrow> bool" where
  "open_runtime cfg \<longleftrightarrow> plain cfg \<and> cfg_containment cfg = LocalDev \<and> cfg_policy_engine cfg = empty_policy_engine"

lemma open_runtime_local: "open_runtime cfg \<Longrightarrow> should_execute_remotely cfg n LocalOnly = Inr False"
  by (simp add: should_execute_remotely_def open_runtime_def)

lemma open_runtime_allows: "open_runtime cfg \<Longrightarrow> verdict (policies_for (cfg_policy_engine cfg) n) ctx = Inr ()"
  by (simp add: open_runtime_def policies_for_def empty_policy_engine_def dget_or_def verdict_def)

lemma open_no_adapter: "open_runtime no_adapter_config"
  by (simp add: open_runtime_def no_adapter_config_def)

end
