(* ===== verification/Example_Support.thy ===== *)
theory Example_Support
  imports Example_Models
begin

section \<open>The support example (\<open>examples/support_flow.py\<close>)\<close>

text \<open>
  The repository's main example: a customer's message is validated, the customer fetched, a reply drafted by
  a command-line script, shaped, and sent after an approval. Tools, policy and workflow class are built the
  way the module builds them.
\<close>

subsection \<open>Models\<close>

definition SupportIn :: fields where
  "SupportIn = [(''customer_id'', TextField), (''message'', TextField), (''to_email'', TextField)]"

definition ValidateOut :: fields where
  "ValidateOut = [(''customer_id'', TextField), (''message'', TextField), (''to_email'', TextField)]"

definition FetchCustomerOut :: fields where
  "FetchCustomerOut =
     [(''customer_id'', TextField), (''email'', TextField), (''tier'', TextField), (''message'', TextField)]"

definition DraftOut :: fields where
  "DraftOut = [(''subject'', TextField), (''body'', TextField), (''to_email'', TextField)]"

definition SendOut :: fields where
  "SendOut = [(''sent'', FlagField), (''provider_id'', TextField)]"

definition DraftIn :: fields where
  "DraftIn = [(''customer_id'', TextField), (''tier'', TextField), (''message'', TextField), (''email'', TextField)]"

definition DraftCliOut :: fields where
  "DraftCliOut = [(''subject'', TextField), (''body'', TextField)]"

subsection \<open>The drafting script (\<open>examples/scripts/draft_message.py\<close>)\<close>

text \<open>\<open>main\<close> on the text of standard input. \<open>trace\<close> is the traceback Python prints when it raises.\<close>

definition draft_message :: "(string \<Rightarrow> string) \<Rightarrow> string \<Rightarrow> process_result" where
  "draft_message trace raw =
     (case json_loads (if raw = [] then ''{}'' else raw) of
        Some (JObj payload) \<Rightarrow>
          (let customer_id = dget_or payload ''customer_id'' (JStr ''unknown'');
               tier = dget_or payload ''tier'' (JStr ''standard'');
               message = dget_or payload ''message'' (JStr [])
           in ProcessExit 0
                (json_dumps (JObj
                   [(''subject'', JStr (''Support update for '' @ py_str customer_id)),
                    (''body'', JStr (''Hello, thanks for contacting support. Tier='' @ py_str tier @
                       ''. We received: '' @ py_str message))])) [])
      | _ \<Rightarrow> ProcessExit 1 [] (trace raw))"

subsection \<open>Tools\<close>

text \<open>What the module takes from outside: Pydantic's validation and \<open>model_dump_json\<close>, Python's traceback, the
  path of the interpreter and of the script.\<close>

record module_env =
  me_validate :: pydantic
  me_dump_json :: "json \<Rightarrow> string"
  me_trace :: "string \<Rightarrow> string"
  me_executable :: string
  me_script_path :: string

definition validate_input :: "module_env \<Rightarrow> tool" where
  "validate_input e =
     python_tool ''support.validate'' (me_validate e SupportIn) (output_model (me_validate e) ValidateOut)
       (no_tool_args\<lparr>ta_capabilities := Some [''support.validate'']\<rparr>)
       (\<lambda>data. if strip (py_str (attribute data ''message'')) = []
               then Throw (Exn ValueError ''message cannot be empty'')
               else construct (me_validate e) ValidateOut
                      [(''customer_id'', attribute data ''customer_id''), (''message'', attribute data ''message''),
                       (''to_email'', attribute data ''to_email'')])"

definition fetch_customer :: "module_env \<Rightarrow> tool" where
  "fetch_customer e =
     python_tool ''customer.fetch'' (me_validate e ValidateOut) (output_model (me_validate e) FetchCustomerOut)
       (no_tool_args\<lparr>ta_capabilities := Some [''crm.read'']\<rparr>)
       (\<lambda>data. construct (me_validate e) FetchCustomerOut
                 [(''customer_id'', attribute data ''customer_id''), (''email'', attribute data ''to_email''),
                  (''tier'', JStr ''gold''), (''message'', attribute data ''message'')])"

definition draft_reply :: "module_env \<Rightarrow> exn + tool" where
  "draft_reply e =
     cli_tool json_loads (\<lambda>command data. draft_message (me_trace e) (me_dump_json e data)) ''message.draft''
       [me_executable e, me_script_path e] (me_validate e DraftIn) (output_model (me_validate e) DraftCliOut)
       ''json-stdin'' ''json-stdout'' (no_tool_args\<lparr>ta_capabilities := Some [''llm.invoke'']\<rparr>)"

definition send_reply :: "module_env \<Rightarrow> tool" where
  "send_reply e =
     python_tool ''message.send'' (me_validate e DraftOut) (output_model (me_validate e) SendOut)
       (no_tool_args\<lparr>ta_capabilities := Some [''email.send''], ta_side_effect := True, ta_requires_approval := True\<rparr>)
       (\<lambda>data. construct (me_validate e) SendOut
                 [(''sent'', JBool True), (''provider_id'', JStr (''mock-'' @ py_str (attribute data ''to_email'')))])"

definition draft_shape :: "module_env \<Rightarrow> tool" where
  "draft_shape e =
     python_tool ''draft.shape'' (me_validate e DraftCliOut) (output_model (me_validate e) DraftOut) no_tool_args
       (\<lambda>data. GetArtifact ''fetch_customer'' JNull (\<lambda>fetch.
          case fetch of
            Inl x \<Rightarrow> Throw x
          | Inr v \<Rightarrow>
              (case subscript v ''email'' of
                 Inl x \<Rightarrow> Throw x
               | Inr email \<Rightarrow> construct (me_validate e) DraftOut
                   [(''subject'', attribute data ''subject''), (''body'', attribute data ''body''), (''to_email'', email)])))"

subsection \<open>The policy\<close>

definition deny_send_without_approval :: policy where
  "deny_send_without_approval =
     (let allow = \<lparr>pd_allow = True, pd_reason = None, pd_requires_approval = False\<rparr>
      in \<lparr>pol_run = (\<lambda>ctx.
            if pc_tool_name ctx \<noteq> ''message.send'' then Decides allow
            else
              (case py_set (dget_or (pc_metadata ctx) ''approved_steps'' (JList [])) of
                 Inl x \<Rightarrow> Raises x
               | Inr approved \<Rightarrow>
                   Decides (if JStr (pc_step_name ctx) \<notin> set approved
                            then deny ''external send requires explicit approval'' else allow))),
          pol_suspended = (\<lambda>_. 0), pol_timeout = None\<rparr>)"

subsection \<open>The workflow\<close>

definition SupportFlow :: "module_env \<Rightarrow> exn + workflow_class" where
  "SupportFlow e =
     (case draft_reply e of
        Inl x \<Rightarrow> Inl x
      | Inr draft \<Rightarrow>
          (case all_right
                  [then_of ''validate'' ''fetch_customer'' (validate_input e),
                   then_of ''fetch_customer'' ''draft_reply'' (fetch_customer e),
                   then_of ''draft_reply'' ''draft_shape'' draft,
                   then_of ''draft_shape'' ''send_reply'' (draft_shape e),
                   end_of ''send_reply'' (send_reply e)] of
             Inl x \<Rightarrow> Inl x
           | Inr steps \<Rightarrow> define_workflow ''SupportFlow'' [] steps None))"

text \<open>\<open>SupportFlow(audit_emitter=audit)\<close>\<close>

definition support_flow :: "config \<Rightarrow> module_env \<Rightarrow> exn + workflow" where
  "support_flow cfg e =
     (case SupportFlow e of
        Inl x \<Rightarrow> Inl x
      | Inr c \<Rightarrow> create_workflow cfg c empty_tool_registry empty_agent_registry [])"

text \<open>\<open>demo\<close>, with the runtime's configuration, the input and the decision as parameters.\<close>

definition support_demo :: "config \<Rightarrow> workflow \<Rightarrow> py_value \<Rightarrow> approval_decision \<Rightarrow> world \<Rightarrow>
    ((exn + run_state) \<times> world) option" where
  "support_demo cfg wk data d w =
     (case run_workflow cfg wk data None w of
        Some (Inr start, w') \<Rightarrow> resume_workflow cfg wk (rs_run_id start) (GivenDecision d) w'
      | x \<Rightarrow> x)"

definition support_config :: "config \<Rightarrow> config" where
  "support_config cfg =
     cfg\<lparr>cfg_policy_engine :=
       register_policy ''deny_send_without_approval'' deny_send_without_approval None (cfg_policy_engine cfg)\<rparr>"

subsection \<open>The workflow as it is created\<close>

definition draft_tool :: "module_env \<Rightarrow> tool" where
  "draft_tool e =
     new_tool ''cli'' ''message.draft'' (me_validate e DraftIn) (output_model (me_validate e) DraftCliOut)
       (no_tool_args\<lparr>ta_capabilities := Some [''llm.invoke'']\<rparr>) (Some [me_executable e, me_script_path e])
       (cli_handler json_loads (\<lambda>command data. draft_message (me_trace e) (me_dump_json e data)) ''message.draft''
          [me_executable e, me_script_path e])"

lemma draft_reply_tool: "draft_reply e = Inr (draft_tool e)"
  by (simp add: draft_reply_def cli_tool_def cli_tool_check_def draft_tool_def)

text \<open>\<open>override\<close>: the approval override of the last step.\<close>

definition support_steps :: "bool option \<Rightarrow> module_env \<Rightarrow> step dict" where
  "support_steps override e =
     [(''validate'', tool_step None ''validate'' ''fetch_customer'' (validate_input e)),
      (''fetch_customer'', tool_step None ''fetch_customer'' ''draft_reply'' (fetch_customer e)),
      (''draft_reply'', tool_step None ''draft_reply'' ''draft_shape'' (draft_tool e)),
      (''draft_shape'', tool_step None ''draft_shape'' ''send_reply'' (draft_shape e)),
      (''send_reply'', tool_step override ''send_reply'' END_STEP (send_reply e))]"

lemma support_refs:
  "normalize_step_ref ''fetch_customer'' = ''fetch_customer''" "normalize_step_ref ''draft_reply'' = ''draft_reply''"
  "normalize_step_ref ''draft_shape'' = ''draft_shape''" "normalize_step_ref ''send_reply'' = ''send_reply''"
  by code_simp+

lemma tool_names:
  "t_name (validate_input e) = ''support.validate''" "t_name (fetch_customer e) = ''customer.fetch''"
  "t_name (draft_tool e) = ''message.draft''" "t_name (draft_shape e) = ''draft.shape''"
  "t_name (send_reply e) = ''message.send''"
  "t_remote_name (validate_input e) = ''support.validate''" "t_remote_name (fetch_customer e) = ''customer.fetch''"
  "t_remote_name (draft_tool e) = ''message.draft''" "t_remote_name (draft_shape e) = ''draft.shape''"
  "t_remote_name (send_reply e) = ''message.send''"
  by (simp_all add: validate_input_def fetch_customer_def draft_tool_def draft_shape_def send_reply_def
      python_tool_def new_tool_def no_tool_args_def or_else_def)

lemma tool_versions:
  "t_version (validate_input e) = DEFAULT_VERSION" "t_version (fetch_customer e) = DEFAULT_VERSION"
  "t_version (draft_tool e) = DEFAULT_VERSION" "t_version (draft_shape e) = DEFAULT_VERSION"
  "t_version (send_reply e) = DEFAULT_VERSION"
  by (simp_all add: validate_input_def fetch_customer_def draft_tool_def draft_shape_def send_reply_def
      python_tool_def new_tool_def)

lemma SupportFlow_class:
  "SupportFlow e = Inr \<lparr>wc_name = ''SupportFlow'', wc_steps = support_steps None e, wc_entry = Some ''validate''\<rparr>"
  by (simp add: SupportFlow_def draft_reply_tool step_built support_refs define_workflow_def Let_def support_steps_def
      tool_step_def dhas_def check_transition_def unknown_ref_def dkeys_def END_STEP_def)

lemma support_executors_registered:
  obtains g where "register_step_executors (support_steps override e) (empty_tool_registry, h) = (Inr (), (g, h))"
proof -
  have "\<exists>g. register_step_executors (support_steps override e) (empty_tool_registry, h) = (Inr (), (g, h))"
    by (simp add: register_step_executors_def register_executor_def support_steps_def tool_step_def
        dvalues_def py_simps register_tool_cases has_tool_def empty_tool_registry_def dhas_def tool_names tool_versions)
  then show ?thesis using that by blast
qed

lemma support_placement:
  "t_placement (validate_input e) = LocalOnly" "t_placement (fetch_customer e) = LocalOnly"
  "t_placement (draft_tool e) = LocalOnly" "t_placement (draft_shape e) = LocalOnly"
  "t_placement (send_reply e) = LocalOnly" "t_requires_approval (send_reply e)"
  "\<not> t_requires_approval (validate_input e)" "\<not> t_requires_approval (fetch_customer e)"
  "\<not> t_requires_approval (draft_tool e)" "\<not> t_requires_approval (draft_shape e)"
  by (simp_all add: validate_input_def fetch_customer_def draft_tool_def draft_shape_def send_reply_def
      python_tool_def new_tool_def no_tool_args_def)

lemma support_created:
  assumes "cfg_containment cfg = LocalDev" "wc_steps c = support_steps override e"
  obtains wk where "create_workflow cfg c empty_tool_registry h [] = Inr wk" "wf_name wk = wc_name c"
    "wf_steps wk = support_steps override e" "wf_entry wk = wc_entry c"
proof -
  obtain g where g: "register_step_executors (support_steps override e) (empty_tool_registry, h) = (Inr (), (g, h))"
    by (rule support_executors_registered)
  let ?wk = "\<lparr>wf_name = wc_name c, wf_steps = wc_steps c, wf_entry = wc_entry c, wf_tools = g, wf_agents = h\<rparr>"
  have "validate_workflow cfg ?wk = Inr ()"
    by (rule local_tools_accepted [OF assms(1)])
      (simp add: assms(2) support_steps_def dvalues_def tool_step_def support_placement)
  then have "create_workflow cfg c empty_tool_registry h [] = Inr ?wk"
    using g by (simp add: create_workflow_def new_workflow_def assms(2) py_simps)
  then show ?thesis using that assms(2) by simp
qed

lemma support_flow_created:
  assumes "cfg_containment cfg = LocalDev"
  obtains wk where "support_flow cfg e = Inr wk" "wf_name wk = ''SupportFlow''" "wf_steps wk = support_steps None e"
    "wf_entry wk = Some ''validate''"
proof -
  let ?c = "\<lparr>wc_name = ''SupportFlow'', wc_steps = support_steps None e, wc_entry = Some ''validate''\<rparr>"
  obtain wk where "create_workflow cfg ?c empty_tool_registry empty_agent_registry [] = Inr wk" "wf_name wk = ''SupportFlow''"
    "wf_steps wk = support_steps None e" "wf_entry wk = Some ''validate''"
    by (rule support_created [OF assms, of ?c None e empty_agent_registry]) simp_all
  then show ?thesis using that by (simp add: support_flow_def SupportFlow_class)
qed

subsection \<open>What the tools answer\<close>

text \<open>The payloads of a run for the customer \<open>c\<close> with the message \<open>m\<close>, answered to the address \<open>a\<close>.\<close>

definition support_in :: "string \<Rightarrow> string \<Rightarrow> string \<Rightarrow> json" where
  "support_in c m a = JObj [(''customer_id'', JStr c), (''message'', JStr m), (''to_email'', JStr a)]"

definition fetched :: "string \<Rightarrow> string \<Rightarrow> string \<Rightarrow> json" where
  "fetched c m a =
     JObj [(''customer_id'', JStr c), (''email'', JStr a), (''tier'', JStr ''gold''), (''message'', JStr m)]"

definition draft_subject :: "string \<Rightarrow> string" where
  "draft_subject c = ''Support update for '' @ c"

definition draft_body :: "string \<Rightarrow> string" where
  "draft_body m = ''Hello, thanks for contacting support. Tier='' @ ''gold'' @ ''. We received: '' @ m"

definition drafted :: "string \<Rightarrow> string \<Rightarrow> json" where
  "drafted c m = JObj [(''subject'', JStr (draft_subject c)), (''body'', JStr (draft_body m))]"

definition shaped :: "string \<Rightarrow> string \<Rightarrow> string \<Rightarrow> json" where
  "shaped c m a =
     JObj [(''subject'', JStr (draft_subject c)), (''body'', JStr (draft_body m)), (''to_email'', JStr a)]"

definition provider_id :: "string \<Rightarrow> string" where
  "provider_id a = ''mock-'' @ a"

definition sent :: "string \<Rightarrow> json" where
  "sent a = JObj [(''sent'', JBool True), (''provider_id'', JStr (provider_id a))]"

text \<open>What the module relies on from outside: Pydantic accepts well-typed data, and \<open>json.loads\<close> reads what
  \<open>model_dump_json\<close> writes.\<close>

definition env_ok :: "module_env \<Rightarrow> bool" where
  "env_ok e \<longleftrightarrow> accepts_dumps (me_validate e) \<and>
     (\<forall>v. json_ok v \<longrightarrow> json_loads (me_dump_json e v) = Some v)"

lemmas model_defs = SupportIn_def ValidateOut_def FetchCustomerOut_def DraftOut_def SendOut_def DraftIn_def
  DraftCliOut_def support_in_def fetched_def drafted_def shaped_def sent_def

lemmas handler_simps = env_ok_def python_tool_def new_tool_def model_defs accepts construct_Return fills_def dump_of_def
  dget_or_def attribute_def ret_run

lemma validate_answers:
  assumes "env_ok e" "strip m \<noteq> []"
  shows "tool_answers cfg (validate_input e) (support_in c m a) A (support_in c m a)"
  by (rule answers_with [where v = "support_in c m a" and y = "Instance (support_in c m a)"])
    (use assms in \<open>simp_all add: validate_input_def handler_simps\<close>)

lemma fetch_answers:
  assumes "env_ok e"
  shows "tool_answers cfg (fetch_customer e) (support_in c m a) A (fetched c m a)"
  by (rule answers_with [where v = "support_in c m a" and y = "Instance (fetched c m a)"])
    (use assms in \<open>simp_all add: fetch_customer_def handler_simps\<close>)

lemma send_answers:
  assumes "env_ok e"
  shows "tool_answers cfg (send_reply e) (shaped c m a) A (sent a)"
  by (rule answers_with [where v = "shaped c m a" and y = "Instance (sent a)"])
    (use assms in \<open>simp_all add: send_reply_def handler_simps provider_id_def\<close>)

lemma shape_answers:
  assumes "env_ok e" "dget A ''fetch_customer'' = Some (fetched c m a)"
  shows "tool_answers cfg (draft_shape e) (drafted c m) A (shaped c m a)"
  by (rule answers_with [where v = "drafted c m" and y = "Instance (shaped c m a)"])
    (use assms in \<open>simp_all add: draft_shape_def handler_simps artifacts_get_def subscript_def\<close>)

text \<open>The drafting script, from its standard input to the tool's output.\<close>

lemma strip_object: "strip (json_dumps (JObj d)) = json_dumps (JObj d)"
  by (simp add: strip_def is_space_def)

lemma draft_answers:
  assumes e: "env_ok e"
  shows "tool_answers cfg (draft_tool e) (fetched c m a) A (drafted c m)"
proof (rule answers_with [where y = "Plain (drafted c m)"])
  let ?v = "JObj [(''customer_id'', JStr c), (''tier'', JStr ''gold''), (''message'', JStr m), (''email'', JStr a)]"
  show "t_input_model (draft_tool e) (fetched c m a) = Inr ?v"
    using e by (simp add: draft_tool_def handler_simps)
  show "t_output_model (draft_tool e) (Plain (drafted c m)) = Inr (Instance (drafted c m))"
    using e by (simp add: draft_tool_def handler_simps output_model_def)
  have load: "json_loads (me_dump_json e ?v) = Some ?v" using e by (simp add: env_ok_def)
  then have "me_dump_json e ?v \<noteq> []" by (auto simp: json_loads_def skip_ws_def)
  then have "draft_message (me_trace e) (me_dump_json e ?v) = ProcessExit 0 (json_dumps (drafted c m)) []"
    using load by (simp add: draft_message_def drafted_def draft_subject_def draft_body_def dget_or_def)
  moreover have "json_loads (json_dumps (drafted c m)) = Some (drafted c m)"
    by (rule json_loads_dumps) (simp add: drafted_def)
  moreover have "strip (json_dumps (drafted c m)) = json_dumps (drafted c m)" "json_dumps (drafted c m) \<noteq> []"
    unfolding drafted_def strip_object by simp_all
  ultimately show "tool_prog cfg cx (t_handler (draft_tool e) ?v) w = (Inr (Plain (drafted c m)), w)" for cx w
    by (simp add: draft_tool_def new_tool_def cli_handler_def cli_result_def ret_run)
qed

subsection \<open>The run\<close>

text \<open>What each step is given, with the artifacts at that point, and the artifacts of the completed run. Before
  the approval the run does not end; with it, only the last step is run.\<close>

definition support_artifacts :: "string \<Rightarrow> string \<Rightarrow> string \<Rightarrow> json dict" where
  "support_artifacts c m a =
     [(''validate'', support_in c m a), (''fetch_customer'', fetched c m a), (''draft_reply'', drafted c m),
      (''draft_shape'', shaped c m a), (''send_reply'', sent a)]"

definition support_fits :: "string \<Rightarrow> string \<Rightarrow> string \<Rightarrow> bool \<Rightarrow> annotation" where
  "support_fits c m a approved n p A G \<longleftrightarrow>
     (case n of
        None \<Rightarrow> approved \<and> A = support_artifacts c m a
      | Some x \<Rightarrow>
          \<not> approved \<and> G = {} \<and>
            (x = ''validate'' \<and> p = support_in c m a \<and> A = [] \<or>
             x = ''fetch_customer'' \<and> p = support_in c m a \<and> A = take 1 (support_artifacts c m a) \<or>
             x = ''draft_reply'' \<and> p = fetched c m a \<and> A = take 2 (support_artifacts c m a) \<or>
             x = ''draft_shape'' \<and> p = drafted c m \<and> A = take 3 (support_artifacts c m a)) \<or>
          x = ''send_reply'' \<and> p = shaped c m a \<and> A = take 4 (support_artifacts c m a) \<and>
            G = (if approved then {''send_reply''} else {}))"

definition support_rank :: "string \<Rightarrow> nat" where
  "support_rank n =
     (if n = ''validate'' then 4 else if n = ''fetch_customer'' then 3 else if n = ''draft_reply'' then 2
      else if n = ''draft_shape'' then 1 else 0)"

lemma support_policy_allows:
  assumes t: "tidy s" and a: "t_name t = ''message.send'' \<longrightarrow> n \<in> approvals s"
  shows "verdict [(''deny_send_without_approval'', deny_send_without_approval)] (gate_ctx wk (tool_step x n m t) s) = Inr ()"
  by (rule approved_steps_policy [OF _ _ _ _ t a]) (auto simp: deny_send_without_approval_def Let_def)

text \<open>A flow with these steps, on a runtime in process whose only policy for it is the example's.\<close>

definition support_runs :: "config \<Rightarrow> workflow \<Rightarrow> bool option \<Rightarrow> module_env \<Rightarrow> bool" where
  "support_runs cfg wk override e \<longleftrightarrow>
     plain cfg \<and> cfg_containment cfg = LocalDev \<and>
     policies_for (cfg_policy_engine cfg) (wf_name wk) = [(''deny_send_without_approval'', deny_send_without_approval)] \<and>
     override \<noteq> Some False \<and> wf_steps wk = support_steps override e \<and> wf_entry wk = Some ''validate''"

lemma support_steps_work:
  assumes runs: "support_runs cfg wk override e" and e: "env_ok e" and msg: "strip m \<noteq> []"
  shows "works cfg wk (support_fits c m a approved)"
proof -
  let ?F = "support_fits c m a approved"
  have plain: "plain cfg" and wk: "wf_steps wk = support_steps override e" and over: "override \<noteq> Some False"
    and pol: "policies_for (cfg_policy_engine cfg) (wf_name wk) = [(''deny_send_without_approval'', deny_send_without_approval)]"
    using runs by (simp_all add: support_runs_def)
  have local: "cfg_containment cfg = LocalDev" using runs by (simp add: support_runs_def)
  have pol: "verdict (policies_for (cfg_policy_engine cfg) (wf_name wk)) (gate_ctx wk (tool_step x n k t) s) = Inr ()"
    if "tidy s" "needs_approval x t \<longrightarrow> n \<in> approvals s" "t_name t = ''message.send'' \<longrightarrow> needs_approval x t" for x n k t s
    unfolding pol by (rule support_policy_allows) (use that in auto)
  note work = tool_step_outputs [where fits = ?F, OF plain local _ _ _ pol]
  note S = support_fits_def next_point_def artifacts_set_def support_artifacts_def END_STEP_def
  note T = support_placement tool_names support_steps_def dhas_def needs_approval_def
  have "step_works cfg wk ?F ''validate'' (tool_step None ''validate'' ''fetch_customer'' (validate_input e))"
    by (rule work [where out = "support_in c m a"]) (use validate_answers [OF e msg] in \<open>auto simp: S T wk\<close>)
  moreover have "step_works cfg wk ?F ''fetch_customer'' (tool_step None ''fetch_customer'' ''draft_reply'' (fetch_customer e))"
    by (rule work [where out = "fetched c m a"]) (use fetch_answers [OF e] in \<open>auto simp: S T wk\<close>)
  moreover have "step_works cfg wk ?F ''draft_reply'' (tool_step None ''draft_reply'' ''draft_shape'' (draft_tool e))"
    by (rule work [where out = "drafted c m"]) (use draft_answers [OF e] in \<open>auto simp: S T wk\<close>)
  moreover have "step_works cfg wk ?F ''draft_shape'' (tool_step None ''draft_shape'' ''send_reply'' (draft_shape e))"
    by (rule work [where out = "shaped c m a"]) (use shape_answers [OF e] in \<open>auto simp: S T wk\<close>)
  moreover have "step_works cfg wk ?F ''send_reply'' (tool_step override ''send_reply'' END_STEP (send_reply e))"
    by (rule work [where out = "sent a"])
      (use send_answers [OF e] over in \<open>auto simp: S T split: if_splits option.splits\<close>)
  ultimately show ?thesis unfolding works_def wk by (auto simp: support_steps_def split: if_splits)
qed

lemma support_ranked: "wf_steps wk = support_steps override e \<Longrightarrow> acyclic_workflow support_rank wk"
  by (auto simp: acyclic_workflow_def wf_edge_def support_steps_def tool_step_def declared_targets_def support_rank_def
      split: if_splits)

text \<open>The run up to the approval, and its resumption.\<close>

lemma support_one_gate:
  "wf_steps wk = support_steps override e \<Longrightarrow> one_gate wk (support_fits c m a False) ''send_reply''"
  unfolding one_gate_def
proof (intro conjI allI impI; (elim conjE)?)
  fix n st s
  assume "wf_steps wk = support_steps override e" "dget (wf_steps wk) n = Some st" "requires_approval st s = Inr True"
  then show "n = ''send_reply''"
    by (auto simp: support_steps_def needs_approval_def support_placement split: if_splits dest!: closed_gate_needs)
qed (simp add: support_fits_def)

lemma support_waits:
  assumes runs: "support_runs cfg wk override e" and e: "env_ok e" and msg: "strip m \<noteq> []" and ok: "world_ok w"
  obtains r s w1 where "run_workflow cfg wk (Instance (support_in c m a)) th w = Some (Inr s, w1)"
    "held wk (support_fits c m a False) ''send_reply'' r s w1" "rs_artifacts s = take 4 (support_artifacts c m a)"
proof -
  let ?data = "Instance (support_in c m a)"
  have plain: "plain cfg" and wk: "wf_steps wk = support_steps override e" "wf_entry wk = Some ''validate''"
    using runs by (simp_all add: support_runs_def)
  have start: "dhas (wf_steps wk) ''validate''" "support_fits c m a False (Some ''validate'') (to_payload ?data) [] {}"
    by (simp_all add: wk(1) support_steps_def dhas_def support_fits_def to_payload_def)
  obtain r s w1 where run: "run_workflow cfg wk ?data th w = Some (Inr s, w1)"
    and h: "held wk (support_fits c m a False) ''send_reply'' r s w1"
    by (rule waits_at_gate [OF plain ok support_steps_work [OF runs e msg] support_ranked [OF wk(1)] wk(2) start
        support_one_gate [OF wk(1)]])
  moreover have "rs_artifacts s = take 4 (support_artifacts c m a)" using h by (auto simp: held_def support_fits_def)
  ultimately show ?thesis by (rule that)
qed

lemma support_resumed:
  assumes runs: "support_runs cfg wk override e" and e: "env_ok e" and msg: "strip m \<noteq> []"
    and h: "held wk (support_fits c m a False) ''send_reply'' r s w1" and d: "ad_decision d = APPROVE"
  obtains s' w2 where "resume_workflow cfg wk r (GivenDecision d) w1 = Some (Inr s', w2)" "rs_run_id s' = r"
    "rs_status s' = COMPLETED" "rs_artifacts s' = support_artifacts c m a" "get (w_store w2) r = Some s'"
proof -
  have plain: "plain cfg" and wk: "wf_steps wk = support_steps override e"
    using runs by (simp_all add: support_runs_def)
  obtain s' w2 where "resume_workflow cfg wk r (GivenDecision d) w1 = Some (Inr s', w2)" "s' = run_of w2 r"
    "finished (support_fits c m a True) r w2"
    by (rule gate_passed [OF plain support_steps_work [OF runs e msg] support_ranked [OF wk] _ h d])
      (auto simp: support_rank_def support_fits_def wk support_steps_def tool_step_def)
  then show ?thesis using that by (auto simp: finished_def support_fits_def)
qed

text \<open>A runtime of its own, in process, before the policy is registered.\<close>

definition support_runtime :: "config \<Rightarrow> bool" where
  "support_runtime cfg \<longleftrightarrow> plain cfg \<and> cfg_containment cfg = LocalDev \<and> cfg_policy_engine cfg = empty_policy_engine"


definition example_env :: module_env where
  "example_env =
     \<lparr>me_validate = strict_model, me_dump_json = json_dumps, me_trace = (\<lambda>_. ''Traceback''),
      me_executable = ''python'', me_script_path = ''scripts/draft_message.py''\<rparr>"


end
