(* ===== verification/Example_Definitions.thy ===== *)
theory Example_Definitions
  imports Example_Support Flow_DSL_Contracts
begin

section \<open>The support example from definitions (\<open>examples/support_flow_from_definitions.py\<close>)\<close>

text \<open>
  The same flow, compiled from a YAML configuration and from the flow language
  (\<open>examples/config/support_flow.yaml\<close>, \<open>support_flow.dsl\<close>), with the tools and the policy of the support
  example. Each compiled flow has a runtime, and so a world, of its own.
\<close>

definition then_of_config :: "string \<Rightarrow> transition_config" where
  "then_of_config n = \<lparr>tc_kind = ThenKind, tc_next_step = Some n, tc_router = None, tc_mapping = None, tc_allowed = None\<rparr>"

definition definition_step :: "string \<Rightarrow> string \<Rightarrow> bool option \<Rightarrow> transition_config \<Rightarrow> step_config" where
  "definition_step n tool override t =
     \<lparr>sc_name = n, sc_tool = Some tool, sc_agent = None, sc_required_artifacts = [], sc_emitted_artifact = None,
      sc_approval_override = override, sc_transition = t\<rparr>"

text \<open>The content of both files.\<close>

definition support_definition :: flow_config where
  "support_definition =
     \<lparr>fc_version = ''v1'', fc_name = ''support_flow'',
      fc_steps =
        [definition_step ''validate'' ''support.validate'' None (then_of_config ''fetch_customer''),
         definition_step ''fetch_customer'' ''customer.fetch'' None (then_of_config ''draft_reply''),
         definition_step ''draft_reply'' ''message.draft'' None (then_of_config ''draft_shape''),
         definition_step ''draft_shape'' ''draft.shape'' None (then_of_config ''send_reply''),
         definition_step ''send_reply'' ''message.send'' (Some True)
           \<lparr>tc_kind = EndKind, tc_next_step = Some END_STEP, tc_router = None, tc_mapping = None, tc_allowed = None\<rparr>],
      fc_entry_step = Some ''validate'', fc_policies = [''deny_send_without_approval''], fc_skills = [],
      fc_channels = [], fc_interrupts = \<lparr>ix_ttl_seconds = 1800, ix_max_pending = 1\<rparr>\<rparr>"

text \<open>\<open>_tool_registry\<close>, \<open>_run_with_approval\<close> and \<open>demo\<close>.\<close>

definition support_registry :: "module_env \<Rightarrow> exn + tool_registry" where
  "support_registry e =
     (case draft_reply e of
        Inl x \<Rightarrow> Inl x
      | Inr draft \<Rightarrow>
          (case each register_tool [validate_input e, fetch_customer e, draft, draft_shape e, send_reply e] empty_tool_registry of
             (Inl x, _) \<Rightarrow> Inl x
           | (Inr _, g) \<Rightarrow> Inr g))"

definition run_with_approval ::
  "compiled_flow \<Rightarrow> py_value \<Rightarrow> approval_decision \<Rightarrow> world \<Rightarrow> ((exn + run_state) \<times> world) option" where
  "run_with_approval f payload d w =
     (case flow_run f payload None w of
        Some (Inr first, w') \<Rightarrow>
          if rs_pending_approval first = None then Some (Inr first, w')
          else flow_resume f (rs_run_id first) (GivenDecision d) w'
      | x \<Rightarrow> x)"

definition config_flow ::
  "config_io \<Rightarrow> string \<Rightarrow> tool_registry \<Rightarrow> config \<Rightarrow> config_error + compiled_flow" where
  "config_flow io path g defaults =
     governed_flow_from_config io (ConfigPath path) g empty_agent_registry
       (Some (Entries [(''deny_send_without_approval'', (''deny_send_without_approval'', deny_send_without_approval))]))
       None defaults no_overrides LocalDev None ''auto''"

definition dsl_flow :: "dsl_io \<Rightarrow> string \<Rightarrow> tool_registry \<Rightarrow> config \<Rightarrow> dsl_error + compiled_flow" where
  "dsl_flow io txt g defaults =
     governed_flow_from_dsl io txt g empty_agent_registry
       (Some [(''deny_send_without_approval'', (''deny_send_without_approval'', deny_send_without_approval))])
       None defaults no_overrides LocalDev None"

text \<open>What is read: PyYAML and Pydantic's coercion deliver the content of the file to the model, and Lark the tree
  of the text.\<close>

definition reads_definition :: "config_io \<Rightarrow> string \<Rightarrow> bool" where
  "reads_definition io path \<longleftrightarrow>
     (\<exists>txt safe_load d. io_read io path = Inr txt \<and> lower (path_suffix path) = ''.yaml'' \<and>
        io_yaml io = Some safe_load \<and> safe_load txt = Inr (JObj d) \<and> io_fields io d = Inr support_definition)"

definition parses_definition :: "dsl_io \<Rightarrow> string \<Rightarrow> bool" where
  "parses_definition io txt \<longleftrightarrow> (\<exists>place. dl_parse io txt = Inr (tree_of_config place support_definition))"

subsection \<open>Reading\<close>

lemma definition_valid:
  "validate_flow_config support_definition = Inr support_definition" "dsl_config support_definition"
  "validate_model f support_definition = Inr support_definition"
proof -
  show "validate_flow_config support_definition = Inr support_definition" "dsl_config support_definition" by code_simp+
  have "problems (map validate_step (fc_steps support_definition)) = []"
    "support_definition\<lparr>fc_steps := map projr (map validate_step (fc_steps support_definition))\<rparr> = support_definition"
    by code_simp+
  then show "validate_model f support_definition = Inr support_definition"
    unfolding validate_model_def Let_def by metis
qed

lemma definition_loaded:
  "reads_definition io path \<Longrightarrow> load_flow_config io (ConfigPath path) ''auto'' = Inr support_definition"
proof -
  assume "reads_definition io path"
  moreover have "lower ''auto'' = ''auto''" by code_simp
  ultimately show ?thesis
    by (auto simp: reads_definition_def load_flow_config_def read_input_def infer_format_def Let_def parse_config_payload_def
        model_of_payload_def definition_valid)
qed

lemma definition_parsed:
  assumes "parses_definition io txt"
  shows "\<exists>a. parse_dsl io txt = Inr a \<and> da_flow a = support_definition"
  using assms
  by (auto simp: parses_definition_def parse_dsl_def parse_lark_tree_def built_tree [OF definition_valid(2)] definition_valid(1)
      ast_of_config_def)

subsection \<open>Compiling\<close>

lemma registry_has_tools:
  obtains g where "support_registry e = Inr g" "get_tool g ''support.validate'' = Inr (validate_input e)"
    "get_tool g ''customer.fetch'' = Inr (fetch_customer e)" "get_tool g ''message.draft'' = Inr (draft_tool e)"
    "get_tool g ''draft.shape'' = Inr (draft_shape e)" "get_tool g ''message.send'' = Inr (send_reply e)"
proof -
  have "\<exists>g. support_registry e = Inr g \<and> get_tool g ''support.validate'' = Inr (validate_input e) \<and>
    get_tool g ''customer.fetch'' = Inr (fetch_customer e) \<and> get_tool g ''message.draft'' = Inr (draft_tool e) \<and>
    get_tool g ''draft.shape'' = Inr (draft_shape e) \<and> get_tool g ''message.send'' = Inr (send_reply e)"
    by (simp add: support_registry_def draft_reply_tool py_simps register_tool_cases empty_tool_registry_def dhas_def
        tool_names tool_versions get_tool_def get_tool_version_def)
  then show ?thesis using that by blast
qed

definition spec_step :: "string \<Rightarrow> tool \<Rightarrow> bool option \<Rightarrow> transition_spec \<Rightarrow> governed_step_spec" where
  "spec_step n t override tr =
     \<lparr>gs_name = n, gs_version = ''0.0.0'', gs_tool = Some t, gs_agent = None, gs_required_artifacts = [],
      gs_emitted_artifact = None, gs_approval_override = override, gs_transition = Some tr\<rparr>"

definition support_spec :: "module_env \<Rightarrow> governed_flow_spec" where
  "support_spec e =
     \<lparr>sp_name = ''support_flow'',
      sp_steps =
        [spec_step ''validate'' (validate_input e) None (then_spec ''fetch_customer''),
         spec_step ''fetch_customer'' (fetch_customer e) None (then_spec ''draft_reply''),
         spec_step ''draft_reply'' (draft_tool e) None (then_spec ''draft_shape''),
         spec_step ''draft_shape'' (draft_shape e) None (then_spec ''send_reply''),
         spec_step ''send_reply'' (send_reply e) (Some True) end_spec],
      sp_entry_step = Some ''validate'',
      sp_policies = [(''deny_send_without_approval'', deny_send_without_approval)], sp_skills = [], sp_channels = [],
      sp_interrupts = \<lparr>ic_ttl_seconds = 1800, ic_max_pending = 1\<rparr>\<rparr>"

lemma definition_spec:
  assumes "support_registry e = Inr g"
  shows "flow_config_to_spec support_definition (registry_tool_resolver g) agents
      (Some (mapping_policy_resolver [(''deny_send_without_approval'', (''deny_send_without_approval'', deny_send_without_approval))]))
      None = Inr (support_spec e)"
proof -
  obtain g' where g': "support_registry e = Inr g'" "get_tool g' ''support.validate'' = Inr (validate_input e)"
    "get_tool g' ''customer.fetch'' = Inr (fetch_customer e)" "get_tool g' ''message.draft'' = Inr (draft_tool e)"
    "get_tool g' ''draft.shape'' = Inr (draft_shape e)" "get_tool g' ''message.send'' = Inr (send_reply e)"
    by (rule registry_has_tools)
  then have "g' = g" using assms by simp
  with g' show ?thesis
    unfolding flow_config_to_spec_def definition_valid
    by (simp add: support_definition_def definition_step_def then_of_config_def step_to_spec_def resolve_opt_def
        registry_tool_resolver_def transition_to_spec_def resolve_names_def mapping_policy_resolver_def support_spec_def spec_step_def)
qed

lemma definition_class:
  "flow_class (support_spec e) =
     Inr \<lparr>wc_name = ''support_flow'', wc_steps = support_steps (Some True) e, wc_entry = Some ''validate''\<rparr>"
proof -
  have "safe_class_name ''support_flow'' = ''support_flow''" by code_simp
  then show ?thesis
    by (simp add: flow_class_def flow_attrs_def support_spec_def spec_step_def compile_step_def new_step_def Let_def
        apply_transition_def then_spec_def end_spec_def absent_def then_step_def then_end_def strict_transition_def
        support_refs end_ref class_of_attrs_def dvalues_def define_workflow_def dhas_def check_transition_def unknown_ref_def
        dkeys_def support_steps_def tool_step_def)
qed

text \<open>Both front ends compile to the example's steps, under the policy, on a runtime of their own.\<close>

lemma definition_runs:
  assumes defaults: "support_runtime defaults"
  obtains f where "governed_flow (merged_options defaults no_overrides LocalDev None) (support_spec e) = Inr f"
    "support_runs (gf_config f) (gf_workflow f) (Some True) e"
proof -
  let ?opts = "merged_options defaults no_overrides LocalDev None"
  let ?cfg = "runtime_config ?opts (support_spec e)"
  let ?c = "\<lparr>wc_name = ''support_flow'', wc_steps = support_steps (Some True) e, wc_entry = Some ''validate''\<rparr>"
  have cfg: "cfg_containment ?cfg = LocalDev" "plain ?cfg" "cfg_policy_engine ?cfg = empty_policy_engine"
    "fo_tools ?opts = empty_tool_registry"
    using defaults by (simp_all add: runtime_config_def merged_options_def no_overrides_def or_default_def init_config_def
        support_runtime_def)
  obtain wk where wk: "create_workflow ?cfg ?c empty_tool_registry (fo_agents ?opts) [] = Inr wk" "wf_name wk = ''support_flow''"
    "wf_steps wk = support_steps (Some True) e" "wf_entry wk = Some ''validate''"
    by (rule support_created [OF cfg(1), of ?c "Some True" e "fo_agents ?opts"]) simp_all
  let ?f = "\<lparr>gf_spec = support_spec e, gf_workflow = wk,
      gf_config = register_policies (wf_name wk) (sp_policies (support_spec e)) ?cfg\<rparr>"
  have "sp_skills (support_spec e) = []" by (simp add: support_spec_def)
  then have "governed_flow ?opts (support_spec e) = Inr ?f"
    using wk(1) by (simp add: governed_flow_def definition_class cfg(4) Let_def)
  moreover have "support_runs (gf_config ?f) (gf_workflow ?f) (Some True) e"
    using cfg wk(2-4) by (simp add: support_runs_def register_policies_def support_spec_def policies_for_def
        register_policy_def empty_policy_engine_def dget_or_def)
  ultimately show ?thesis by (rule that)
qed

lemma front_ends_compile:
  assumes defaults: "support_runtime defaults" and g: "support_registry e = Inr g"
  obtains f where "support_runs (gf_config f) (gf_workflow f) (Some True) e"
    "\<And>io path. reads_definition io path \<Longrightarrow> config_flow io path g defaults = Inr f"
    "\<And>io txt. parses_definition io txt \<Longrightarrow> dsl_flow io txt g defaults = Inr f"
proof -
  obtain f where f: "governed_flow (merged_options defaults no_overrides LocalDev None) (support_spec e) = Inr f"
    "support_runs (gf_config f) (gf_workflow f) (Some True) e" by (rule definition_runs [OF defaults])
  have config: "governed_flow_from_config io inp g empty_agent_registry
       (Some (Entries [(''deny_send_without_approval'', (''deny_send_without_approval'', deny_send_without_approval))]))
       None defaults no_overrides LocalDev None fmt = Inr f"
    if "load_flow_config io inp fmt = Inr support_definition" for io inp fmt
    using that f(1) definition_spec [OF g]
    by (simp add: governed_flow_from_config_def coerce_policy_resolver_def coerce_skill_resolver_def raised_def)
  show ?thesis
  proof (rule that [OF f(2)])
    show "config_flow io path g defaults = Inr f" if "reads_definition io path" for io path
      unfolding config_flow_def by (rule config) (rule definition_loaded [OF that])
    show "dsl_flow io txt g defaults = Inr f" if parsed: "parses_definition io txt" for io "txt"
    proof -
      obtain a where "parse_dsl io txt = Inr a" "da_flow a = support_definition" using definition_parsed [OF parsed] by blast
      then show ?thesis
        using config [of "dl_config io" "ConfigObject support_definition" "''auto''"]
        by (simp add: dsl_flow_def governed_flow_from_dsl_def load_flow_config_def)
    qed
  qed
qed

text \<open>The flow compiled from the YAML configuration and the one compiled from the flow language, run with an
  approval in worlds of their own, both complete, with the same artifacts: those of the support example.\<close>

theorem definitions_agree:
  assumes defaults: "support_runtime defaults" and e: "env_ok e" and msg: "strip m \<noteq> []"
    and ok: "world_ok w" "world_ok v" and d: "ad_decision d = APPROVE"
    and files: "reads_definition io path" "parses_definition dio txt"
  shows "\<exists>g f h s w' t v'. support_registry e = Inr g \<and> config_flow io path g defaults = Inr f \<and>
    dsl_flow dio txt g defaults = Inr h \<and>
    run_with_approval f (Instance (support_in c m a)) d w = Some (Inr s, w') \<and>
    run_with_approval h (Instance (support_in c m a)) d v = Some (Inr t, v') \<and>
    rs_status s = COMPLETED \<and> rs_status t = COMPLETED \<and>
    rs_artifacts s = support_artifacts c m a \<and> rs_artifacts t = support_artifacts c m a"
proof -
  obtain g where g: "support_registry e = Inr g" by (rule registry_has_tools)
  obtain f where f: "support_runs (gf_config f) (gf_workflow f) (Some True) e"
    and compiled: "config_flow io path g defaults = Inr f" "dsl_flow dio txt g defaults = Inr f"
    by (rule front_ends_compile [OF defaults g]) (use files in blast)
  have run: "\<exists>s u'. run_with_approval f (Instance (support_in c m a)) d u = Some (Inr s, u') \<and>
      rs_status s = COMPLETED \<and> rs_artifacts s = support_artifacts c m a" if u: "world_ok u" for u
  proof -
    obtain r s u1 where run: "run_workflow (gf_config f) (gf_workflow f) (Instance (support_in c m a)) None u = Some (Inr s, u1)"
      and gate: "held (gf_workflow f) (support_fits c m a False) ''send_reply'' r s u1"
      by (rule support_waits [OF f e msg u])
    obtain s' u2 where "resume_workflow (gf_config f) (gf_workflow f) r (GivenDecision d) u1 = Some (Inr s', u2)"
      "rs_status s' = COMPLETED" "rs_artifacts s' = support_artifacts c m a"
      by (rule support_resumed [OF f e msg gate d])
    with run gate show ?thesis by (auto simp: run_with_approval_def flow_run_def flow_resume_def held_def)
  qed
  obtain s w' where s: "run_with_approval f (Instance (support_in c m a)) d w = Some (Inr s, w')"
    "rs_status s = COMPLETED" "rs_artifacts s = support_artifacts c m a" using run [OF ok(1)] by blast
  obtain t v' where t: "run_with_approval f (Instance (support_in c m a)) d v = Some (Inr t, v')"
    "rs_status t = COMPLETED" "rs_artifacts t = support_artifacts c m a" using run [OF ok(2)] by blast
  from g compiled s t show ?thesis by blast
qed

definition yaml_io :: config_io where
  "yaml_io = (io_of_config support_definition)
     \<lparr>io_read := (\<lambda>_. Inr ''version: v1''), io_yaml := Some (\<lambda>_. Inr (JObj []))\<rparr>"

definition lark_io :: dsl_io where
  "lark_io =
     \<lparr>dl_parse = (\<lambda>_. Inr (tree_of_config (\<lambda>_. (1, 1)) support_definition)), dl_float = (\<lambda>s. Inl (Exn ValueError s)),
      dl_config = yaml_io\<rparr>"

theorem definitions_agree_witness:
  "\<exists>g f h s w' t v'. support_registry example_env = Inr g \<and>
     config_flow yaml_io ''config/support_flow.yaml'' g no_adapter_config = Inr f \<and>
     dsl_flow lark_io ''flow support_flow'' g no_adapter_config = Inr h \<and>
     run_with_approval f (Instance (support_in ''cust-1'' ''Hi'' ''u''))
       \<lparr>ad_decision = APPROVE, ad_decided_by = None, ad_reason = None, ad_decided_at = 0\<rparr> (init_world 0) = Some (Inr s, w') \<and>
     run_with_approval h (Instance (support_in ''cust-1'' ''Hi'' ''u''))
       \<lparr>ad_decision = APPROVE, ad_decided_by = None, ad_reason = None, ad_decided_at = 0\<rparr> (init_world 0) = Some (Inr t, v') \<and>
     rs_artifacts s = rs_artifacts t"
proof -
  have cfg: "support_runtime no_adapter_config" by (simp add: support_runtime_def no_adapter_config_def)
  have e: "env_ok example_env" by (simp add: env_ok_def example_env_def strict_model_accepts json_loads_dumps)
  have m: "strip ''Hi'' \<noteq> []" by code_simp
  have "lower (path_suffix ''config/support_flow.yaml'') = ''.yaml''" by code_simp
  then have "reads_definition yaml_io ''config/support_flow.yaml''"
    by (simp add: reads_definition_def yaml_io_def io_of_config_def)
  moreover have "parses_definition lark_io ''flow support_flow''" by (auto simp: parses_definition_def lark_io_def)
  ultimately show ?thesis
    using definitions_agree [OF cfg e m world_ok_init [of 0] world_ok_init [of 0],
        of "\<lparr>ad_decision = APPROVE, ad_decided_by = None, ad_reason = None, ad_decided_at = 0\<rparr>" yaml_io
          "''config/support_flow.yaml''" lark_io "''flow support_flow''" "''cust-1''" "''u''"]
    by fastforce
qed

end
