(* ===== verification/Example_Thread.thy ===== *)
theory Example_Thread
  imports Example_Models
begin

section \<open>The thread example (\<open>examples/thread_resume.py\<close>)\<close>

text \<open>
  A run that waits for approval is found again by its thread: as the thread's latest run, by
  \<open>resume_latest\<close>, and in the thread's history.
\<close>

subsection \<open>The module\<close>

definition InModel :: fields where
  "InModel = [(''value'', NumberField)]"

definition MidModel :: fields where
  "MidModel = [(''value'', NumberField)]"

definition OutModel :: fields where
  "OutModel = [(''sent'', FlagField)]"

definition prepare_tool :: "pydantic \<Rightarrow> tool" where
  "prepare_tool validate =
     python_tool ''threaded.prepare'' (validate InModel) (output_model validate MidModel) no_tool_args
       (\<lambda>data. construct validate MidModel [(''value'', attribute data ''value'')])"

definition send_tool :: "pydantic \<Rightarrow> tool" where
  "send_tool validate =
     python_tool ''threaded.send'' (validate MidModel) (output_model validate OutModel)
       (no_tool_args\<lparr>ta_side_effect := True, ta_requires_approval := True\<rparr>)
       (\<lambda>data. construct validate OutModel [(''sent'', JBool True)])"

definition ThreadedApprovalFlow :: "pydantic \<Rightarrow> exn + workflow_class" where
  "ThreadedApprovalFlow validate =
     (case all_right [then_of ''prepare'' ''send'' (prepare_tool validate), end_of ''send'' (send_tool validate)] of
        Inl x \<Rightarrow> Inl x
      | Inr steps \<Rightarrow> define_workflow ''ThreadedApprovalFlow'' [] steps None)"

definition threaded_flow :: "config \<Rightarrow> pydantic \<Rightarrow> exn + workflow" where
  "threaded_flow cfg validate =
     (case ThreadedApprovalFlow validate of
        Inl x \<Rightarrow> Inl x
      | Inr c \<Rightarrow> create_workflow cfg c empty_tool_registry empty_agent_registry [])"

text \<open>\<open>main\<close>, with the input, the thread and the decision as parameters: the waiting run, the latest run of
  the thread, the resumed run, and the thread's history.\<close>

definition threaded_main ::
  "config \<Rightarrow> workflow \<Rightarrow> py_value \<Rightarrow> string \<Rightarrow> approval_decision \<Rightarrow> world \<Rightarrow>
   ((exn + run_state \<times> run_state \<times> run_state \<times> run_state list) \<times> world) option" where
  "threaded_main cfg wk data t d w =
     (case run_workflow cfg wk data (Some t) w of
        None \<Rightarrow> None
      | Some (Inl e, w1) \<Rightarrow> Some (Inl e, w1)
      | Some (Inr waiting, w1) \<Rightarrow>
          (case get_latest_run_state t w1 of
             (Inl e, w2) \<Rightarrow> Some (Inl e, w2)
           | (Inr latest, w2) \<Rightarrow>
               (case resume_latest_workflow cfg wk t (GivenDecision d) w2 of
                  None \<Rightarrow> None
                | Some (Inl e, w3) \<Rightarrow> Some (Inl e, w3)
                | Some (Inr resumed, w3) \<Rightarrow>
                    Some (bnd (list_thread_runs t) (\<lambda>runs. ret (waiting, latest, resumed, runs)) w3))))"

subsection \<open>Finding a run by its thread\<close>

lemma aget_cached: "dget (w_runs w) r = Some s \<Longrightarrow> aget_run_state r w = (Inr s, w)"
  by (simp add: aget_run_state_def load_state_def known_run_def py_simps state_of_def run_of_def)

text \<open>A stored run that is the active one of its thread is the thread's latest run; looking it up changes
  nothing.\<close>

lemma active_run_found:
  assumes "dget (w_runs w) r = Some s" "get (w_store w) r = Some s'" "dget (st_thread_active (w_store w)) t = Some r"
  shows "get_latest_run_state t w = (Inr s, w)"
proof -
  have "get_active_run_id t (w_store w) = (Some r, w_store w)"
    using assms(2,3) by (simp add: get_active_run_id_def dhas_def get_def)
  then have "thread_target_run_id t w = (Inr r, w)"
    by (simp add: thread_target_run_id_def on_store_def py_simps put_store_def)
  then show ?thesis using aget_cached [OF assms(1)] by (simp add: get_latest_run_state_def py_simps)
qed

lemma resume_latest_found:
  assumes "get_latest_run_state t w = (Inr s, w)" "rs_run_id s = r"
  shows "resume_latest_workflow cfg wk t p w = resume_workflow cfg wk r p w"
  using assms by (simp add: resume_latest_workflow_def resume_workflow_def then_advance_def py_simps)

lemma load_all_found:
  assumes "\<forall>r \<in> set rs. dget (w_runs w) r \<noteq> None \<or> get (w_store w) r \<noteq> None"
  shows "\<exists>ss w'. load_all rs w = (Inr ss, w') \<and> length ss = length rs \<and>
    (\<forall>i < length rs. \<forall>s. dget (w_runs w) (rs ! i) = Some s \<longrightarrow> ss ! i = s)"
  using assms
proof (induction rs arbitrary: w)
  case Nil
  then show ?case by (simp add: ret_run)
next
  case (Cons r rs)
  obtain s w1 where a: "aget_run_state r w = (Inr s, w1)" "\<forall>q v. dget (w_runs w) q = Some v \<longrightarrow> dget (w_runs w1) q = Some v"
    "w_store w1 = w_store w" "\<forall>v. dget (w_runs w) r = Some v \<longrightarrow> s = v"
  proof (cases "dget (w_runs w) r")
    case None
    with Cons.prems obtain s where "get (w_store w) r = Some s" by auto
    with None show ?thesis
      by (intro that [of s "set_run r s w"])
        (auto simp: aget_run_state_def load_state_def known_run_def py_simps state_of_def)
  next
    case (Some s)
    then show ?thesis by (intro that [OF aget_cached]) auto
  qed
  have "\<forall>q \<in> set rs. dget (w_runs w1) q \<noteq> None \<or> get (w_store w1) q \<noteq> None"
    using Cons.prems a(2,3) by (metis list.set_intros(2) option.exhaust option.distinct(1))
  from Cons.IH [OF this] obtain ss w' where l: "load_all rs w1 = (Inr ss, w')" "length ss = length rs"
    "\<forall>i < length rs. \<forall>s. dget (w_runs w1) (rs ! i) = Some s \<longrightarrow> ss ! i = s" by blast
  have "load_all (r # rs) w = (Inr (s # ss), w')" using a(1) l(1) by (simp add: py_simps)
  moreover have "\<forall>i < length (r # rs). \<forall>v. dget (w_runs w) ((r # rs) ! i) = Some v \<longrightarrow> (s # ss) ! i = v"
    using a(2,4) l(3) by (auto simp: nth_Cons split: nat.splits)
  ultimately show ?case using l(2) by auto
qed

text \<open>A cached and stored run is in the history of its thread, as it is cached.\<close>

lemma run_in_history:
  assumes ok: "world_ok w" and s: "dget (w_runs w) r = Some s" "get (w_store w) r = Some s"
  shows "\<exists>runs w'. list_thread_runs (rs_thread_id s) w = (Inr runs, w') \<and> s \<in> set runs"
proof -
  let ?t = "rs_thread_id s"
  obtain ids st where ids: "list_run_ids ?t (w_store w) = (ids, st)" by (cases "list_run_ids ?t (w_store w)")
  have valid: "ids = filter (dhas (st_state (w_store w))) (dget_or (st_thread_runs (w_store w)) ?t [])"
    "st_state st = st_state (w_store w)"
    using ids by (auto simp: list_run_ids_def Let_def split: if_splits)
  have "r \<in> set (dget_or (st_thread_runs (w_store w)) ?t [])"
    using ok s(2) by (auto simp: world_ok_def stores_ok_def store_inv_defs get_def)
  then have r: "r \<in> set ids" using s(2) by (simp add: valid get_def dhas_def)
  let ?w = "put_store st w"
  have "\<forall>q \<in> set ids. dget (w_runs ?w) q \<noteq> None \<or> get (w_store ?w) q \<noteq> None"
    using valid by (auto simp: put_store_def get_def dhas_def)
  from load_all_found [OF this] obtain runs w' where l: "load_all ids ?w = (Inr runs, w')" "length runs = length ids"
    "\<forall>i < length ids. \<forall>v. dget (w_runs ?w) (ids ! i) = Some v \<longrightarrow> runs ! i = v" by blast
  from r obtain i where i: "i < length ids" "ids ! i = r" by (auto simp: in_set_conv_nth)
  then have "runs ! i = s" using l(3) s(1) by (simp add: put_store_def)
  then have "s \<in> set runs" using i(1) l(2) by (auto simp: in_set_conv_nth)
  moreover have "list_thread_runs ?t w = (Inr runs, w')"
    using l(1) by (simp add: list_thread_runs_def on_store_def py_simps ids)
  ultimately show ?thesis by blast
qed

subsection \<open>The flow\<close>

definition threaded_steps :: "pydantic \<Rightarrow> step dict" where
  "threaded_steps validate =
     [(''prepare'', tool_step None ''prepare'' ''send'' (prepare_tool validate)),
      (''send'', tool_step None ''send'' END_STEP (send_tool validate))]"

lemma threaded_tools:
  "t_name (prepare_tool v) = ''threaded.prepare''" "t_name (send_tool v) = ''threaded.send''"
  "t_remote_name (prepare_tool v) = ''threaded.prepare''" "t_remote_name (send_tool v) = ''threaded.send''"
  "t_version (prepare_tool v) = DEFAULT_VERSION" "t_version (send_tool v) = DEFAULT_VERSION"
  "t_placement (prepare_tool v) = LocalOnly" "t_placement (send_tool v) = LocalOnly"
  "\<not> t_requires_approval (prepare_tool v)" "t_requires_approval (send_tool v)"
  by (simp_all add: prepare_tool_def send_tool_def python_tool_def new_tool_def no_tool_args_def or_else_def)

lemma threaded_class:
  "ThreadedApprovalFlow v = Inr \<lparr>wc_name = ''ThreadedApprovalFlow'', wc_steps = threaded_steps v, wc_entry = Some ''prepare''\<rparr>"
proof -
  have "normalize_step_ref ''send'' = ''send''" by code_simp
  then show ?thesis
    by (simp add: ThreadedApprovalFlow_def step_built define_workflow_def Let_def threaded_steps_def tool_step_def dhas_def
        check_transition_def unknown_ref_def dkeys_def END_STEP_def)
qed

lemma threaded_flow_created:
  assumes "cfg_containment cfg = LocalDev"
  obtains wk where "threaded_flow cfg v = Inr wk" "wf_name wk = ''ThreadedApprovalFlow''" "wf_steps wk = threaded_steps v"
    "wf_entry wk = Some ''prepare''"
proof -
  let ?c = "\<lparr>wc_name = ''ThreadedApprovalFlow'', wc_steps = threaded_steps v, wc_entry = Some ''prepare''\<rparr>"
  have "\<exists>wk. new_workflow ?c empty_tool_registry empty_agent_registry [] = Inr wk \<and> wf_name wk = ''ThreadedApprovalFlow'' \<and>
      wf_steps wk = threaded_steps v \<and> wf_entry wk = Some ''prepare''"
    by (simp add: new_workflow_def register_step_executors_def register_executor_def threaded_steps_def tool_step_def
        dvalues_def py_simps register_tool_cases has_tool_def empty_tool_registry_def dhas_def threaded_tools)
  then obtain wk where wk: "new_workflow ?c empty_tool_registry empty_agent_registry [] = Inr wk"
    "wf_name wk = ''ThreadedApprovalFlow''" "wf_steps wk = threaded_steps v" "wf_entry wk = Some ''prepare''" by blast
  have "validate_workflow cfg wk = Inr ()"
    by (rule local_tools_accepted [OF assms])
      (simp add: wk(3) threaded_steps_def dvalues_def tool_step_def threaded_tools)
  with wk show ?thesis using that by (simp add: threaded_flow_def threaded_class create_workflow_def)
qed

definition number_in :: "int \<Rightarrow> json" where
  "number_in i = JObj [(''value'', JInt i)]"

definition sent_out :: json where
  "sent_out = JObj [(''sent'', JBool True)]"

definition threaded_fits :: "int \<Rightarrow> bool \<Rightarrow> annotation" where
  "threaded_fits i approved n p A G \<longleftrightarrow>
     (case n of
        None \<Rightarrow> approved \<and> A = [(''prepare'', number_in i), (''send'', sent_out)]
      | Some x \<Rightarrow>
          p = number_in i \<and>
          (\<not> approved \<and> x = ''prepare'' \<and> A = [] \<and> G = {} \<or>
           x = ''send'' \<and> A = [(''prepare'', number_in i)] \<and> G = (if approved then {''send''} else {})))"

lemma threaded_steps_work:
  assumes cfg: "open_runtime cfg" and v: "accepts_dumps v" and wk: "wf_steps wk = threaded_steps v"
  shows "works cfg wk (threaded_fits i approved)"
proof -
  let ?F = "threaded_fits i approved"
  have plain: "plain cfg" using cfg by (simp add: open_runtime_def)
  have local: "should_execute_remotely cfg n LocalOnly = Inr False" for n
    using cfg by (simp add: should_execute_remotely_def open_runtime_def)
  have pol: "verdict (policies_for (cfg_policy_engine cfg) n) ctx = Inr ()" for n ctx
    using cfg by (simp add: open_runtime_def policies_for_def empty_policy_engine_def dget_or_def verdict_def)
  have prep: "tool_answers cfg (prepare_tool v) (number_in i) A (number_in i)" for A
    by (rule answers_with [where v = "number_in i" and y = "Instance (number_in i)"])
      (use v in \<open>simp_all add: prepare_tool_def python_tool_def new_tool_def number_in_def InModel_def MidModel_def accepts
        construct_Return fills_def dump_of_def dget_or_def attribute_def ret_run\<close>)
  have send: "tool_answers cfg (send_tool v) (number_in i) A sent_out" for A
    by (rule answers_with [where v = "number_in i" and y = "Instance sent_out"])
      (use v in \<open>simp_all add: send_tool_def python_tool_def new_tool_def number_in_def MidModel_def OutModel_def accepts
        construct_Return fills_def dump_of_def dget_or_def ret_run sent_out_def\<close>)
  note S = threaded_fits_def next_point_def artifacts_set_def END_STEP_def
  have "step_works cfg wk ?F ''prepare'' (tool_step None ''prepare'' ''send'' (prepare_tool v))"
    by (rule tool_step_works [OF plain _ _ _ pol])
      (use prep in \<open>auto simp: S threaded_tools needs_approval_def local wk threaded_steps_def dhas_def intro!: exI [of _ "number_in i"]\<close>)
  moreover have "step_works cfg wk ?F ''send'' (tool_step None ''send'' END_STEP (send_tool v))"
    by (rule tool_step_works [OF plain _ _ _ pol])
      (use send in \<open>auto simp: S threaded_tools needs_approval_def local intro!: exI [of _ sent_out] split: if_splits\<close>)
  ultimately show ?thesis unfolding works_def wk by (auto simp: threaded_steps_def split: if_splits)
qed

text \<open>The thread example, for every input and thread: the run waits for the approval of its second step; the
  latest run of the thread is that run; resuming the thread with an approval completes it, with both
  artifacts; and the thread's history contains it as completed.\<close>

theorem thread_finds_its_waiting_run:
  assumes cfg: "open_runtime cfg" and v: "accepts_dumps v" and ok: "world_ok w" and d: "ad_decision d = APPROVE"
  shows "\<exists>wk waiting resumed runs w'. threaded_flow cfg v = Inr wk \<and>
    threaded_main cfg wk (Instance (number_in i)) t d w = Some (Inr (waiting, waiting, resumed, runs), w') \<and>
    rs_status waiting = WAITING_APPROVAL \<and> rs_current_step waiting = Some ''send'' \<and> rs_thread_id waiting = t \<and>
    rs_run_id resumed = rs_run_id waiting \<and> rs_status resumed = COMPLETED \<and> rs_thread_id resumed = t \<and>
    rs_artifacts resumed = [(''prepare'', number_in i), (''send'', sent_out)] \<and> resumed \<in> set runs"
proof -
  obtain wk where wk: "threaded_flow cfg v = Inr wk" "wf_steps wk = threaded_steps v" "wf_entry wk = Some ''prepare''"
    by (rule threaded_flow_created [of cfg v]) (use cfg in \<open>simp add: open_runtime_def\<close>)
  let ?data = "Instance (number_in i)" and ?rank = "\<lambda>n. if n = ''prepare'' then 1 else 0 :: nat"
  have plain: "plain cfg" using cfg by (simp add: open_runtime_def)
  note works = threaded_steps_work [OF cfg v wk(2)]
  have rank: "acyclic_workflow ?rank wk"
    by (auto simp: acyclic_workflow_def wf_edge_def wk(2) threaded_steps_def tool_step_def declared_targets_def split: if_splits)
  have start: "dhas (wf_steps wk) ''prepare''" "threaded_fits i False (Some ''prepare'') (to_payload ?data) [] {}"
    by (simp_all add: wk(2) threaded_steps_def dhas_def threaded_fits_def to_payload_def)
  have gate: "one_gate wk (threaded_fits i False) ''send''"
    by (auto simp: one_gate_def threaded_fits_def wk(2) threaded_steps_def needs_approval_def threaded_tools split: if_splits
        dest!: closed_gate_needs)
  obtain r s w1 where run: "run_workflow cfg wk ?data (Some t) w = Some (Inr s, w1)"
    and h: "held wk (threaded_fits i False) ''send'' r s w1"
    and at: "rs_thread_id s = (case Some t of None \<Rightarrow> r | Some t \<Rightarrow> t)" "dget (st_thread_active (w_store w1)) (rs_thread_id s) = Some r"
    by (rule waits_at_gate [OF plain ok works rank wk(3) start gate])
  then have thread: "rs_thread_id s = t" "dget (st_thread_active (w_store w1)) t = Some r" by simp_all
  have s: "dget (w_runs w1) r = Some s" "get (w_store w1) r = Some s" "rs_run_id s = r" using h unfolding held_def by blast+
  have latest: "get_latest_run_state t w1 = (Inr s, w1)" by (rule active_run_found [OF s(1,2) thread(2)])
  obtain s' w2 where res: "resume_workflow cfg wk r (GivenDecision d) w1 = Some (Inr s', w2)" "s' = run_of w2 r"
    and fin: "finished (threaded_fits i True) r w2" "rs_thread_id s' = rs_thread_id s"
    by (rule gate_passed [OF plain works rank _ h d])
      (auto simp: threaded_fits_def wk(2) threaded_steps_def tool_step_def)
  have fin': "world_ok w2" "rs_run_id (run_of w2 r) = r" "rs_status (run_of w2 r) = COMPLETED"
    "get (w_store w2) r = Some (run_of w2 r)"
    "rs_artifacts (run_of w2 r) = [(''prepare'', number_in i), (''send'', sent_out)]"
    "dget (w_runs w2) r = Some (run_of w2 r)"
    using fin(1) by (auto simp: finished_def threaded_fits_def)
  obtain runs w3 where "list_thread_runs t w2 = (Inr runs, w3)" "run_of w2 r \<in> set runs"
    using run_in_history [OF fin'(1,6,4)] fin(2) res(2) thread(1) by auto
  with run latest resume_latest_found [OF latest s(3), of cfg wk "GivenDecision d"] res thread(1) h fin' fin(2) wk(1)
  show ?thesis by (fastforce simp: threaded_main_def py_simps held_def)
qed

theorem thread_finds_its_waiting_run_witness:
  "\<exists>wk waiting resumed runs w'. threaded_flow no_adapter_config strict_model = Inr wk \<and>
     threaded_main no_adapter_config wk (Instance (number_in 1)) ''thread-123''
       \<lparr>ad_decision = APPROVE, ad_decided_by = Some ''demo'', ad_reason = None, ad_decided_at = 0\<rparr> (init_world 0) =
       Some (Inr (waiting, waiting, resumed, runs), w') \<and>
     rs_status resumed = COMPLETED \<and> resumed \<in> set runs"
proof -
  have cfg: "open_runtime no_adapter_config" by (simp add: open_runtime_def no_adapter_config_def)
  show ?thesis
    using thread_finds_its_waiting_run [OF cfg strict_model_accepts world_ok_init [of 0],
        of "\<lparr>ad_decision = APPROVE, ad_decided_by = Some ''demo'', ad_reason = None, ad_decided_at = 0\<rparr>" 1 "''thread-123''"]
    by auto
qed

end
