(* ===== verification/Example_Handoff.thy ===== *)
theory Example_Handoff
  imports Example_Models
begin

section \<open>The multi-agent notebook (\<open>examples/notebooks/governai_multi_agent_workflow.ipynb\<close>)\<close>

text \<open>
  Two agents in process: the first researches with its tool and hands off to the second, which drafts the
  answer with its own. The language model is a parameter: the messages it is given to its content or an
  exception.
\<close>

subsection \<open>The module\<close>

definition UserQuestion :: fields where
  "UserQuestion = [(''question'', TextField)]"

definition ResearchPayload :: fields where
  "ResearchPayload = [(''question'', TextField)]"

definition ResearchResult :: fields where
  "ResearchResult = [(''question'', TextField), (''research'', TextField)]"

definition DraftResult :: fields where
  "DraftResult = [(''answer'', TextField)]"

text \<open>Pydantic, the environment and \<open>ChatOpenAI(model, api_key).invoke(messages).content\<close>.\<close>

record notebook_env =
  nb_validate :: pydantic
  nb_getenv :: "string \<Rightarrow> string option"
  nb_chat :: "string \<Rightarrow> string \<Rightarrow> (string \<times> string) list \<Rightarrow> exn + json"

definition make_llm :: "notebook_env \<Rightarrow> exn + ((string \<times> string) list \<Rightarrow> exn + json)" where
  "make_llm e =
     (let api_key = or_else (nb_getenv e ''OPENAI_API_KEY'') []
      in if api_key = [] then Inl (Exn RuntimeError ''Missing OPENAI_API_KEY in local .env'')
         else Inr (nb_chat e (case nb_getenv e ''OPENAI_MODEL'' of None \<Rightarrow> ''gpt-4o-mini'' | Some m \<Rightarrow> m) api_key))"

definition newline :: string where
  "newline = [CHR 0x0A]"

definition research_messages :: "json \<Rightarrow> (string \<times> string) list" where
  "research_messages data =
     [(''system'', ''You are a precise research assistant. Keep output concise and factual.''),
      (''human'', ''Question: '' @ py_str (attribute data ''question'') @ newline @
         ''Provide 5 concise factual research bullets.'')]"

definition llm_research :: "notebook_env \<Rightarrow> tool" where
  "llm_research e =
     python_tool ''llm.research'' (nb_validate e ResearchPayload) (output_model (nb_validate e) ResearchResult)
       (no_tool_args\<lparr>ta_capabilities := Some [''llm.invoke'']\<rparr>)
       (\<lambda>data. case make_llm e of
          Inl x \<Rightarrow> Throw x
        | Inr llm \<Rightarrow>
            (case llm (research_messages data) of
               Inl x \<Rightarrow> Throw x
             | Inr content \<Rightarrow> construct (nb_validate e) ResearchResult
                 [(''question'', attribute data ''question''), (''research'', content)]))"

definition draft_messages :: "json \<Rightarrow> (string \<times> string) list" where
  "draft_messages data =
     [(''system'', ''You write clear final responses for users.''),
      (''human'', ''Question: '' @ py_str (attribute data ''question'') @ newline @
         ''Research notes:'' @ newline @ py_str (attribute data ''research'') @ newline @ newline @
         ''Write a final answer in 6-10 bullet points.'')]"

definition llm_draft :: "notebook_env \<Rightarrow> tool" where
  "llm_draft e =
     python_tool ''llm.draft'' (nb_validate e ResearchResult) (output_model (nb_validate e) DraftResult)
       (no_tool_args\<lparr>ta_capabilities := Some [''llm.invoke'']\<rparr>)
       (\<lambda>data. case make_llm e of
          Inl x \<Rightarrow> Throw x
        | Inr llm \<Rightarrow>
            (case llm (draft_messages data) of
               Inl x \<Rightarrow> Throw x
             | Inr content \<Rightarrow> construct (nb_validate e) DraftResult [(''answer'', content)]))"

definition research_agent_handler :: "agent_task \<Rightarrow> agent_return prog" where
  "research_agent_handler task =
     (case subscript (at_input_payload task) ''question'' of
        Inl x \<Rightarrow> Throw x
      | Inr question \<Rightarrow>
          UseTool ''llm.research'' (JObj [(''question'', question)]) (\<lambda>research_out.
            case research_out of
              Inl x \<Rightarrow> Throw x
            | Inr out \<Rightarrow> Return (Fields
                \<lparr>ag_status = Handoff, ag_output_payload = Some out, ag_next_agent = Some ''draft_agent'',
                 ag_reason = None\<rparr>)))"

definition draft_agent_handler :: "agent_task \<Rightarrow> agent_return prog" where
  "draft_agent_handler task =
     UseTool ''llm.draft'' (at_input_payload task) (\<lambda>draft_out.
       case draft_out of
         Inl x \<Rightarrow> Throw x
       | Inr out \<Rightarrow> Return (Fields
           \<lparr>ag_status = Final, ag_output_payload = Some out, ag_next_agent = None, ag_reason = None\<rparr>))"

definition research_agent :: "notebook_env \<Rightarrow> exn + agent" where
  "research_agent e =
     new_agent ''research_agent'' ''Gather factual research then hand off to drafting agent.'' research_agent_handler
       (nb_validate e UserQuestion) (nb_validate e ResearchResult) [''llm.research''] [''draft_agent'']
       (no_agent_args\<lparr>aa_max_turns := 1, aa_max_tool_calls := 1\<rparr>)"

definition draft_agent :: "notebook_env \<Rightarrow> exn + agent" where
  "draft_agent e =
     new_agent ''draft_agent'' ''Draft final user-facing answer.'' draft_agent_handler
       (nb_validate e ResearchResult) (nb_validate e DraftResult) [''llm.draft''] []
       (no_agent_args\<lparr>aa_max_turns := 1, aa_max_tool_calls := 1\<rparr>)"

definition MultiAgentResearchFlow :: "notebook_env \<Rightarrow> exn + workflow_class" where
  "MultiAgentResearchFlow e =
     (case all_right [research_agent e, draft_agent e] of
        Inl x \<Rightarrow> Inl x
      | Inr agents \<Rightarrow>
          (case all_right
                  [map_sum id (then_step ''draft'') (new_step ''research'' None (Some (agents ! 0)) [] None None),
                   map_sum id then_end (new_step ''draft'' None (Some (agents ! 1)) [] None None)] of
             Inl x \<Rightarrow> Inl x
           | Inr steps \<Rightarrow> define_workflow ''MultiAgentResearchFlow'' [] steps None))"

definition multi_agent_flow :: "config \<Rightarrow> notebook_env \<Rightarrow> exn + workflow" where
  "multi_agent_flow cfg e =
     (case MultiAgentResearchFlow e of
        Inl x \<Rightarrow> Inl x
      | Inr c \<Rightarrow>
          (case each register_tool [llm_research e, llm_draft e] empty_tool_registry of
             (Inl x, _) \<Rightarrow> Inl x
           | (Inr _, tools) \<Rightarrow> create_workflow cfg c tools empty_agent_registry []))"

definition run_multi_agent :: "config \<Rightarrow> notebook_env \<Rightarrow> py_value \<Rightarrow> world \<Rightarrow> ((exn + run_state) \<times> world) option" where
  "run_multi_agent cfg e question w =
     (case multi_agent_flow cfg e of
        Inl x \<Rightarrow> Some (Inl x, w)
      | Inr flow \<Rightarrow> run_workflow cfg flow question None w)"

subsection \<open>An agent in process that makes one tool call\<close>

text \<open>The tool runs in process, without an approval, and answers as given.\<close>

lemma local_named_tool:
  assumes cfg: "plain cfg" and s: "dget (w_runs w) r = Some s" and g: "get_tool (wf_tools wk) name = Inr t"
    and t: "tool_answers cfg t p (rs_artifacts s) out" "\<not> t_requires_approval t"
      "should_execute_remotely cfg (t_name t) (t_placement t) = Inr False"
    and allowed: "\<And>ctx. verdict (policies_for (cfg_policy_engine cfg) (wf_name wk)) ctx = Inr ()"
  shows "\<exists>w'. execute_named_tool cfg wk r n name p w = (Inr out, w') \<and> quiet w w'"
proof -
  have of: "run_of w r = s" using s by (simp add: run_of_def)
  let ?ctx = "policy_ctx wk n (t_name t) (t_capabilities t) (t_side_effect t) True s"
  obtain w1 where e: "evaluate_policies cfg wk r n ?ctx w = (Inr (), w1)" "quiet w w1"
    using evaluate_policies_verdict [OF cfg s, of wk n ?ctx] allowed by metis
  obtain v y where v: "t_input_model t p = Inr v" "t_output_model t y = Inr (Instance out)"
    and y: "\<And>cx w. cx_artifacts cx = rs_artifacts s \<Longrightarrow> tool_prog cfg cx (t_handler t v) w = (Inr y, w)"
    using t(1) unfolding tool_answers_def by blast
  let ?p = "[(''tool_name'', JStr (t_name t))]"
  let ?w2 = "log_event r AGENT_TOOL_CALL_STARTED (Some n) ?p w1"
  let ?w3 = "log_event r AGENT_TOOL_CALL_COMPLETED (Some n) ?p ?w2"
  have s1: "dget (w_runs w1) r = Some s" "run_of w1 r = s" and s2: "dget (w_runs ?w2) r = Some s"
    using e(2) s of quiet_run_of [OF e(2)] by (simp_all add: quiet_def)
  have "execute_named_tool cfg wk r n name p w = (Inr out, ?w3)"
    using g e(1) emit_run_plain [OF cfg s1(1)] emit_run_plain [OF cfg s2] t(2,3) v y s1(2)
    by (simp add: execute_named_tool_def run_tool_def make_context_def state_of_def of py_simps Let_def execute_tool_def instance_output)
  moreover have "quiet w ?w3" using e(2) by (blast intro: quiet_trans quiet_log)
  ultimately show ?thesis by blast
qed

text \<open>The agent calls the tool and returns \<open>res\<close>, made from the tool's answer \<open>d\<close>: a final output, or a handoff
  to an agent it may hand off to.\<close>

definition asks_once :: "agent \<Rightarrow> json \<Rightarrow> string \<Rightarrow> json \<Rightarrow> json \<Rightarrow> agent_result \<Rightarrow> bool" where
  "asks_once a v name q d res \<longleftrightarrow>
     name \<in> set (a_allowed_tools a) \<and> a_max_tool_calls a = 1 \<and>
     (\<forall>task. at_input_payload task = v \<longrightarrow>
        (\<exists>k. a_handler a task = UseTool name q k \<and> k (Inr d) = Return (Fields res)))"

lemma asks_once_runs:
  assumes "asks_once a v name q d res" "at_input_payload task = v" "acx_allowed_tools acx = a_allowed_tools a"
    "acx_max_tool_calls acx = a_max_tool_calls a" "call name q w = (Inr d, w')"
  shows "agent_prog acx call (a_handler a task) 0 w = (Inr (Fields res, 1), w')"
proof -
  obtain k where "a_handler a task = UseTool name q k" "k (Inr d) = Return (Fields res)"
    using assms(1,2) by (auto simp: asks_once_def)
  moreover have "use_tool_check acx 0 name = Inr ()" using assms by (simp add: use_tool_check_def asks_once_def)
  ultimately show ?thesis using assms(5) by (simp add: py_simps)
qed

lemma local_agent_completes:
  assumes cfg: "plain cfg" and s: "dget (w_runs w) r = Some s"
    and a: "should_execute_remotely cfg (a_name a) (a_placement a) = Inr False" "a_input_model a p = Inr v"
      "asks_once a v name q d res"
    and tool: "\<And>w. dget (w_runs w) r = Some s \<Longrightarrow> \<exists>w'. execute_named_tool cfg wk r n name q w = (Inr d, w') \<and> quiet w w'"
    and res: "ag_output_payload res = Some (JObj out)" "out \<noteq> []" "extract_command cfg (Plain (JObj out)) = Inr (JObj out, None)"
    and status: "ag_status res = Final \<and> a_output_model a (JObj out) = Inr (JObj out) \<and> target = None \<or>
      ag_status res = Handoff \<and> ag_next_agent res = Some m \<and> m \<noteq> [] \<and> m \<in> set (a_allowed_handoffs a) \<and>
      has_agent (wf_agents wk) m \<and> target = Some m"
  shows "\<exists>w'. run_agent cfg wk r n a p w = (Inr (JObj out, target, None), w') \<and> w_runs w' = w_runs w"
proof -
  have of: "run_of w r = s" using s by (simp add: run_of_def)
  let ?name = "[(''agent_name'', JStr (a_name a))]"
  let ?w1 = "log_event r AGENT_ENTERED (Some n) ?name w"
  obtain task_id w2 where u: "fresh_uuid ?w1 = (Inr task_id, w2)" "w_runs w2 = w_runs w"
    by (simp add: fresh_uuid_def py_simps)
  have s2: "dget (w_runs w2) r = Some s" using s u(2) by simp
  obtain w3 where t: "execute_named_tool cfg wk r n name q w2 = (Inr d, w3)" "quiet w2 w3" using tool [OF s2] by blast
  have s3: "dget (w_runs w3) r = Some s" "w_runs w3 = w_runs w" "run_of w3 r = s"
    using t(2) s u(2) by (simp_all add: quiet_def run_of_def)
  define cx where "cx = \<lparr>cx_run_id = rs_run_id s, cx_workflow_name = rs_workflow_name s, cx_step_name = n,
          cx_artifacts = rs_artifacts s, cx_channels = rs_channels s, cx_thread_id = Some (rs_thread_id s), cx_metadata = r\<rparr>"
  let ?acx = "\<lparr>acx_base = cx, acx_allowed_tools = a_allowed_tools a, acx_max_tool_calls = a_max_tool_calls a\<rparr>"
  have ok: "validate_result res = Inr res" "res\<lparr>ag_output_payload := Some (JObj out)\<rparr> = res" "a_max_tool_calls a = 1"
    using res(1) status a(3) by (auto simp: validate_result_def absent_def asks_once_def)
  have asks: "agent_prog ?acx (execute_named_tool cfg wk r n) (a_handler a task) 0 w2 = (Inr (Fields res, 1), w3)"
    if "at_input_payload task = v" for task
    by (rule asks_once_runs [OF a(3) that]) (simp_all add: t(1))
  have "execute_agent cfg ?acx (execute_named_tool cfg wk r n) a p ?w1 = (Inr res, w3)"
    using a(2) u(1) asks status res(1) ok
    by (auto simp: execute_agent_def py_simps result_model_def Let_def)
  moreover have "\<exists>w4. finish_agent cfg wk r n a res w3 = (Inr (JObj out, target, None), w4) \<and> w_runs w4 = w_runs w3"
    using status
  proof
    assume f: "ag_status res = Final \<and> a_output_model a (JObj out) = Inr (JObj out) \<and> target = None"
    show ?thesis
      using f res emit_run_plain [OF cfg s3(1)]
      by (simp add: finish_agent_def or_empty_payload_def py_simps Let_def perform_def)
  next
    assume h: "ag_status res = Handoff \<and> ag_next_agent res = Some m \<and> m \<noteq> [] \<and> m \<in> set (a_allowed_handoffs a) \<and>
      has_agent (wf_agents wk) m \<and> target = Some m"
    let ?w4 = "log_event r AGENT_HANDOFF_PROPOSED (Some n) [(''agent_name'', JStr (a_name a)), (''next_agent'', JStr m)] w3"
    have "dget (w_runs ?w4) r = Some s" using s3(1) by simp
    from emit_run_plain [OF cfg s3(1)] emit_run_plain [OF cfg this] h res show ?thesis
      by (simp add: finish_agent_def or_empty_payload_def py_simps Let_def perform_def opt_json_def)
  qed
  ultimately show ?thesis
    using a(1) emit_run_plain [OF cfg s] s3(2)
    by (auto simp: run_agent_def make_context_def state_of_def of py_simps Let_def cx_def)
qed

subsection \<open>Its step\<close>

definition agent_step :: "string \<Rightarrow> string \<Rightarrow> agent \<Rightarrow> step" where
  "agent_step name next_step a =
     \<lparr>sd_name = name, sd_executor = AgentExec a, sd_required_artifacts = [], sd_emitted_artifact = None,
      sd_approval_override = None, sd_transition = Some (StrictTransition next_step), sd_mode = Some STRICT\<rparr>"

text \<open>What an agent makes of a payload through a tool in process, when the artifacts are \<open>A\<close>.\<close>

definition agent_answers :: "config \<Rightarrow> workflow \<Rightarrow> agent \<Rightarrow> json \<Rightarrow> json dict \<Rightarrow> json \<Rightarrow> string option \<Rightarrow> bool" where
  "agent_answers cfg wk a p A out target \<longleftrightarrow>
     (\<exists>v name q t res obj. a_input_model a p = Inr v \<and> asks_once a v name q out res \<and>
        get_tool (wf_tools wk) name = Inr t \<and> \<not> t_requires_approval t \<and> t_placement t = LocalOnly \<and>
        tool_answers cfg t q A out \<and> out = JObj obj \<and> obj \<noteq> [] \<and> dget obj ''__command__'' = None \<and>
        ag_output_payload res = Some out \<and>
        (ag_status res = Final \<and> a_output_model a out = Inr out \<and> target = None \<or>
         (\<exists>m. ag_status res = Handoff \<and> ag_next_agent res = Some m \<and> m \<noteq> [] \<and> m \<in> set (a_allowed_handoffs a) \<and>
            has_agent (wf_agents wk) m \<and> target = Some m)))"

lemma agent_step_works:
  assumes cfg: "open_runtime cfg" and a: "a_placement a = LocalOnly"
    and runs: "\<And>p A G. fits (Some n) p A G \<Longrightarrow> \<exists>out target. agent_answers cfg wk a p A out target \<and>
      resolve_next_step_for_step wk (agent_step n m a) out target None = Inr m \<and>
      fits (next_point m) out (artifacts_set A n out) (G - {n})" and n: "n \<noteq> []"
  shows "step_works cfg wk fits n (agent_step n m a)"
proof (rule step_worksI, intro conjI allI impI; (elim conjE)?)
  let ?st = "agent_step n m a"
  have plain: "plain cfg" using cfg by (simp add: open_runtime_def)
  show "check_artifacts (sd_name ?st) A (sd_required_artifacts ?st) = Inr ()" for A by (simp add: agent_step_def)
  fix r s w p
  assume l: "loaded r s w" and f: "fits (Some n) p (rs_artifacts s) (approvals s)"
  show "verdict (policies_for (cfg_policy_engine cfg) (wf_name wk)) (gate_ctx wk ?st s) = Inr ()"
    by (rule open_runtime_allows [OF cfg])
  have s: "dget (w_runs w) r = Some s" and tidy: "tidy s" using l by (simp_all add: loaded_def)
  from runs [OF f] obtain out target where ans: "agent_answers cfg wk a p (rs_artifacts s) out target"
    and next_ok: "resolve_next_step_for_step wk ?st out target None = Inr m"
      "fits (next_point m) out (artifacts_set (rs_artifacts s) n out) (approvals s - {n})" by blast
  from ans obtain v name q t res obj where v: "a_input_model a p = Inr v" "asks_once a v name q out res"
    and t: "get_tool (wf_tools wk) name = Inr t" "\<not> t_requires_approval t" "t_placement t = LocalOnly"
      "tool_answers cfg t q (rs_artifacts s) out"
    and out: "out = JObj obj" "obj \<noteq> []" "dget obj ''__command__'' = None" "ag_output_payload res = Some out"
    and status: "ag_status res = Final \<and> a_output_model a out = Inr out \<and> target = None \<or>
         (\<exists>m. ag_status res = Handoff \<and> ag_next_agent res = Some m \<and> m \<noteq> [] \<and> m \<in> set (a_allowed_handoffs a) \<and>
            has_agent (wf_agents wk) m \<and> target = Some m)"
    unfolding agent_answers_def by blast
  have local: "should_execute_remotely cfg x LocalOnly = Inr False" for x by (rule open_runtime_local [OF cfg])
  have tool: "\<exists>w'. execute_named_tool cfg wk r n name q w = (Inr out, w') \<and> quiet w w'" if "dget (w_runs w) r = Some s" for w
    by (rule local_named_tool [OF plain that t(1,4,2)]) (simp_all add: t(3) local open_runtime_allows [OF cfg])
  have no_command: "extract_command cfg (Plain (JObj obj)) = Inr (JObj obj, None)"
    using out(3) by (simp add: extract_command_def)
  obtain w' where w': "run_agent cfg wk r n a p w = (Inr (out, target, None), w')" "w_runs w' = w_runs w"
    using local_agent_completes [OF plain s _ v tool, where out = obj and target = target] a local out no_command status by fastforce
  have "run_executor cfg wk r ?st p w = (Inr (out, target, None), w')"
    using w'(1) by (simp add: run_executor_def agent_step_def)
  moreover have "run_of w' r = s" using w'(2) loaded_run_of [OF l] by (simp add: run_of_def)
  moreover have "output_key ?st = n" "sd_name ?st = n" using n by (simp_all add: agent_step_def or_else_def)
  ultimately show "\<exists>out h m' w'. run_executor cfg wk r ?st p w = (Inr (out, h, None), w') \<and> tidy (run_of w' r) \<and>
      resolve_next_step_for_step wk ?st out h None = Inr m' \<and>
      fits (next_point m') out (artifacts_set (rs_artifacts s) (output_key ?st) out) (approvals (run_of w' r) - {sd_name ?st})"
    using tidy next_ok by auto
qed

subsection \<open>The flow as it is built\<close>

definition researcher :: "notebook_env \<Rightarrow> agent" where
  "researcher e =
     \<lparr>a_name = ''research_agent'', a_instruction = ''Gather factual research then hand off to drafting agent.'',
      a_input_model = nb_validate e UserQuestion, a_output_model = nb_validate e ResearchResult,
      a_allowed_tools = [''llm.research''], a_allowed_handoffs = [''draft_agent''], a_max_turns = 1, a_max_tool_calls = 1,
      a_requires_approval = False, a_capabilities = [], a_side_effect = False, a_placement = LocalOnly,
      a_remote_name = ''research_agent'', a_handler = research_agent_handler\<rparr>"

definition drafter :: "notebook_env \<Rightarrow> agent" where
  "drafter e =
     \<lparr>a_name = ''draft_agent'', a_instruction = ''Draft final user-facing answer.'',
      a_input_model = nb_validate e ResearchResult, a_output_model = nb_validate e DraftResult,
      a_allowed_tools = [''llm.draft''], a_allowed_handoffs = [], a_max_turns = 1, a_max_tool_calls = 1,
      a_requires_approval = False, a_capabilities = [], a_side_effect = False, a_placement = LocalOnly,
      a_remote_name = ''draft_agent'', a_handler = draft_agent_handler\<rparr>"

lemma notebook_agents: "research_agent e = Inr (researcher e)" "draft_agent e = Inr (drafter e)"
  by (simp_all add: research_agent_def draft_agent_def researcher_def drafter_def new_agent_def agent_check_def
      no_agent_args_def or_else_def)

definition notebook_steps :: "notebook_env \<Rightarrow> step dict" where
  "notebook_steps e =
     [(''research'', agent_step ''research'' ''draft'' (researcher e)), (''draft'', agent_step ''draft'' END_STEP (drafter e))]"

lemma notebook_tools:
  "t_name (llm_research e) = ''llm.research''" "t_name (llm_draft e) = ''llm.draft''"
  "t_remote_name (llm_research e) = ''llm.research''" "t_remote_name (llm_draft e) = ''llm.draft''"
  "t_version (llm_research e) = DEFAULT_VERSION" "t_version (llm_draft e) = DEFAULT_VERSION"
  "t_placement (llm_research e) = LocalOnly" "t_placement (llm_draft e) = LocalOnly"
  "\<not> t_requires_approval (llm_research e)" "\<not> t_requires_approval (llm_draft e)"
  by (simp_all add: llm_research_def llm_draft_def python_tool_def new_tool_def no_tool_args_def or_else_def)

lemma notebook_class:
  "MultiAgentResearchFlow e = Inr \<lparr>wc_name = ''MultiAgentResearchFlow'', wc_steps = notebook_steps e, wc_entry = Some ''research''\<rparr>"
proof -
  have "normalize_step_ref ''draft'' = ''draft''" by code_simp
  moreover have "normalize_step_ref ''__END__'' = ''__END__''" by code_simp
  ultimately show ?thesis
    by (simp add: MultiAgentResearchFlow_def notebook_agents new_step_def then_step_def then_end_def strict_transition_def
        end_ref define_workflow_def Let_def notebook_steps_def agent_step_def dhas_def check_transition_def unknown_ref_def
        dkeys_def END_STEP_def)
qed

definition notebook_flow :: "notebook_env \<Rightarrow> workflow \<Rightarrow> bool" where
  "notebook_flow e wk \<longleftrightarrow>
     wf_steps wk = notebook_steps e \<and> wf_entry wk = Some ''research'' \<and> has_agent (wf_agents wk) ''draft_agent'' \<and>
     get_tool (wf_tools wk) ''llm.research'' = Inr (llm_research e) \<and>
     get_tool (wf_tools wk) ''llm.draft'' = Inr (llm_draft e)"

lemma notebook_flow_created:
  assumes "cfg_containment cfg = LocalDev"
  obtains wk where "multi_agent_flow cfg e = Inr wk" "notebook_flow e wk"
proof -
  let ?g = "\<lparr>tg_tools = [((''llm.research'', DEFAULT_VERSION), llm_research e), ((''llm.draft'', DEFAULT_VERSION), llm_draft e)],
      tg_remote = [(''llm.research'', llm_research e), (''llm.draft'', llm_draft e)]\<rparr>"
  let ?c = "\<lparr>wc_name = ''MultiAgentResearchFlow'', wc_steps = notebook_steps e, wc_entry = Some ''research''\<rparr>"
  have reg: "each register_tool [llm_research e, llm_draft e] empty_tool_registry = (Inr (), ?g)"
    by (simp add: py_simps register_tool_cases empty_tool_registry_def dhas_def notebook_tools)
  have "\<exists>h. new_workflow ?c ?g empty_agent_registry [] =
      Inr \<lparr>wf_name = ''MultiAgentResearchFlow'', wf_steps = notebook_steps e, wf_entry = Some ''research'', wf_tools = ?g, wf_agents = h\<rparr> \<and>
      has_agent h ''draft_agent''"
    by (simp add: new_workflow_def register_step_executors_def register_executor_def notebook_steps_def agent_step_def
        dvalues_def py_simps register_agent_cases has_agent_def empty_agent_registry_def dhas_def researcher_def drafter_def)
  then obtain h where h: "new_workflow ?c ?g empty_agent_registry [] =
      Inr \<lparr>wf_name = ''MultiAgentResearchFlow'', wf_steps = notebook_steps e, wf_entry = Some ''research'', wf_tools = ?g, wf_agents = h\<rparr>"
    "has_agent h ''draft_agent''" by blast
  let ?wk = "\<lparr>wf_name = ''MultiAgentResearchFlow'', wf_steps = notebook_steps e, wf_entry = Some ''research'', wf_tools = ?g, wf_agents = h\<rparr>"
  have tools: "get_tool ?g ''llm.research'' = Inr (llm_research e)" "get_tool ?g ''llm.draft'' = Inr (llm_draft e)"
    by (simp_all add: get_tool_def get_tool_version_def)
  have "validate_workflow cfg ?wk = Inr ()"
    using assms tools by (simp add: validate_workflow_def notebook_steps_def dvalues_def agent_step_def executor_placement_def
        researcher_def drafter_def notebook_tools)
  then have "multi_agent_flow cfg e = Inr ?wk"
    using reg h(1) by (simp add: multi_agent_flow_def notebook_class create_workflow_def)
  moreover have "notebook_flow e ?wk" using h(2) tools by (simp add: notebook_flow_def)
  ultimately show ?thesis by (rule that)
qed

subsection \<open>The run\<close>

definition asked :: "string \<Rightarrow> json" where
  "asked q = JObj [(''question'', JStr q)]"

definition researched :: "string \<Rightarrow> string \<Rightarrow> json" where
  "researched q notes = JObj [(''question'', JStr q), (''research'', JStr notes)]"

definition answered :: "string \<Rightarrow> json" where
  "answered answer = JObj [(''answer'', JStr answer)]"

text \<open>There is a key, and the model answers the two conversations.\<close>

definition model_answers :: "notebook_env \<Rightarrow> string \<Rightarrow> string \<Rightarrow> string \<Rightarrow> bool" where
  "model_answers e q notes answer \<longleftrightarrow>
     accepts_dumps (nb_validate e) \<and>
     (\<exists>llm. make_llm e = Inr llm \<and> llm (research_messages (asked q)) = Inr (JStr notes) \<and>
        llm (draft_messages (researched q notes)) = Inr (JStr answer))"

lemma notebook_models:
  assumes "accepts_dumps v"
  shows "v UserQuestion (asked q) = Inr (asked q)" "v ResearchPayload (asked q) = Inr (asked q)"
    "v ResearchResult (researched q notes) = Inr (researched q notes)" "v DraftResult (answered answer) = Inr (answered answer)"
    "construct v ResearchResult [(''question'', JStr q), (''research'', JStr notes)] = Return (Instance (researched q notes))"
    "construct v DraftResult [(''answer'', JStr answer)] = Return (Instance (answered answer))"
  using assms
  by (simp_all add: asked_def researched_def answered_def UserQuestion_def ResearchPayload_def ResearchResult_def
      DraftResult_def accepts construct_Return fills_def dump_of_def dget_or_def)

lemma question_of: "attribute (asked q) ''question'' = JStr q" "subscript (asked q) ''question'' = Inr (JStr q)"
  by (simp_all add: attribute_def subscript_def asked_def dget_or_def)

lemma research_answers:
  assumes m: "model_answers e q notes answer"
  shows "tool_answers cfg (llm_research e) (asked q) A (researched q notes)"
proof (rule answers_with [where v = "asked q" and y = "Instance (researched q notes)"])
  obtain llm where llm: "accepts_dumps (nb_validate e)" "make_llm e = Inr llm" "llm (research_messages (asked q)) = Inr (JStr notes)"
    using m by (auto simp: model_answers_def)
  then show "t_input_model (llm_research e) (asked q) = Inr (asked q)"
    by (simp add: llm_research_def python_tool_def new_tool_def notebook_models)
  show "tool_prog cfg cx (t_handler (llm_research e) (asked q)) w = (Inr (Instance (researched q notes)), w)" for cx w
    using llm by (simp add: llm_research_def python_tool_def new_tool_def question_of notebook_models ret_run)
qed (simp add: llm_research_def python_tool_def new_tool_def)

lemma draft_answers_question:
  assumes m: "model_answers e q notes answer"
  shows "tool_answers cfg (llm_draft e) (researched q notes) A (answered answer)"
proof (rule answers_with [where v = "researched q notes" and y = "Instance (answered answer)"])
  obtain llm where llm: "accepts_dumps (nb_validate e)" "make_llm e = Inr llm"
    "llm (draft_messages (researched q notes)) = Inr (JStr answer)"
    using m by (auto simp: model_answers_def)
  then show "t_input_model (llm_draft e) (researched q notes) = Inr (researched q notes)"
    by (simp add: llm_draft_def python_tool_def new_tool_def notebook_models)
  show "tool_prog cfg cx (t_handler (llm_draft e) (researched q notes)) w = (Inr (Instance (answered answer)), w)" for cx w
    using llm by (simp add: llm_draft_def python_tool_def new_tool_def notebook_models ret_run)
qed (simp add: llm_draft_def python_tool_def new_tool_def)

definition handoff_fits :: "string \<Rightarrow> string \<Rightarrow> string \<Rightarrow> annotation" where
  "handoff_fits q notes answer n p A G \<longleftrightarrow>
     (case n of
        None \<Rightarrow> A = [(''research'', researched q notes), (''draft'', answered answer)]
      | Some x \<Rightarrow>
          x = ''research'' \<and> p = asked q \<and> A = [] \<or>
          x = ''draft'' \<and> p = researched q notes \<and> A = [(''research'', researched q notes)])"

lemma notebook_steps_work:
  assumes cfg: "open_runtime cfg" and m: "model_answers e q notes answer" and wk: "notebook_flow e wk"
  shows "works cfg wk (handoff_fits q notes answer)"
proof -
  let ?F = "handoff_fits q notes answer"
  have v: "accepts_dumps (nb_validate e)" using m by (simp add: model_answers_def)
  have steps: "wf_steps wk = notebook_steps e" using wk by (simp add: notebook_flow_def)
  note S = handoff_fits_def next_point_def artifacts_set_def END_STEP_def
  note N = resolve_next_step_for_step_def resolve_next_step_def proposed_step_def check_handoff_def agent_step_def
  let ?r = "\<lparr>ag_status = Handoff, ag_output_payload = Some (researched q notes), ag_next_agent = Some ''draft_agent'', ag_reason = None\<rparr>"
  have "asks_once (researcher e) (asked q) ''llm.research'' (asked q) (researched q notes) ?r"
    by (auto simp: asks_once_def researcher_def research_agent_handler_def question_of) (simp add: asked_def)
  then have research: "agent_answers cfg wk (researcher e) (asked q) A (researched q notes) (Some ''draft_agent'')" for A
    unfolding agent_answers_def using research_answers [OF m, of cfg A] wk
    by (intro exI [of _ "asked q"] exI [of _ "''llm.research''"] exI [of _ "llm_research e"] exI [of _ ?r])
      (auto simp: researcher_def notebook_models [OF v] notebook_flow_def notebook_tools researched_def)
  let ?d = "\<lparr>ag_status = Final, ag_output_payload = Some (answered answer), ag_next_agent = None, ag_reason = None\<rparr>"
  have "asks_once (drafter e) (researched q notes) ''llm.draft'' (researched q notes) (answered answer) ?d"
    by (auto simp: asks_once_def drafter_def draft_agent_handler_def)
  then have draft: "agent_answers cfg wk (drafter e) (researched q notes) A (answered answer) None" for A
    unfolding agent_answers_def using draft_answers_question [OF m, of cfg A] wk
    by (intro exI [of _ "researched q notes"] exI [of _ "''llm.draft''"] exI [of _ "llm_draft e"] exI [of _ ?d])
      (auto simp: drafter_def notebook_models [OF v] notebook_models(4) [OF v, unfolded answered_def] notebook_flow_def
        notebook_tools answered_def)
  have "step_works cfg wk ?F ''research'' (agent_step ''research'' ''draft'' (researcher e))"
  proof (rule agent_step_works [OF cfg])
    fix p A G assume "?F (Some ''research'') p A G"
    then have "p = asked q" "A = []" by (auto simp: S)
    moreover have "resolve_next_step_for_step wk (agent_step ''research'' ''draft'' (researcher e)) out (Some ''draft_agent'') None = Inr ''draft''" for out
      by (simp add: N steps notebook_steps_def dhas_def runs_agent_def drafter_def END_STEP_def)
    ultimately show "\<exists>out target. agent_answers cfg wk (researcher e) p A out target \<and>
        resolve_next_step_for_step wk (agent_step ''research'' ''draft'' (researcher e)) out target None = Inr ''draft'' \<and>
        ?F (next_point ''draft'') out (artifacts_set A ''research'' out) (G - {''research''})"
      using research by (intro exI [of _ "researched q notes"] exI [of _ "Some ''draft_agent''"]) (auto simp: S)
  qed (simp_all add: researcher_def)
  moreover have "step_works cfg wk ?F ''draft'' (agent_step ''draft'' END_STEP (drafter e))"
  proof (rule agent_step_works [OF cfg])
    fix p A G assume "?F (Some ''draft'') p A G"
    then have "p = researched q notes" "A = [(''research'', researched q notes)]" by (auto simp: S)
    moreover have "resolve_next_step_for_step wk (agent_step ''draft'' END_STEP (drafter e)) out None None = Inr END_STEP" for out
      by (simp add: N)
    ultimately show "\<exists>out target. agent_answers cfg wk (drafter e) p A out target \<and>
        resolve_next_step_for_step wk (agent_step ''draft'' END_STEP (drafter e)) out target None = Inr END_STEP \<and>
        ?F (next_point END_STEP) out (artifacts_set A ''draft'' out) (G - {''draft''})"
      using draft by (intro exI [of _ "answered answer"] exI [of _ None]) (auto simp: S)
  qed (simp_all add: drafter_def)
  ultimately show ?thesis unfolding works_def steps by (auto simp: notebook_steps_def split: if_splits)
qed

text \<open>The multi-agent notebook, for every question and whatever the language model answers: the research agent's
  run ends with its handoff to the drafting agent, which the flow accepts, and the run completes with the
  notes and the answer the model gave.\<close>

theorem handoff_flow_completes:
  assumes cfg: "open_runtime cfg" and m: "model_answers e q notes answer" and ok: "world_ok w"
  shows "\<exists>s w'. run_multi_agent cfg e (Instance (asked q)) w = Some (Inr s, w') \<and> rs_status s = COMPLETED \<and>
    rs_artifacts s = [(''research'', researched q notes), (''draft'', answered answer)] \<and> get (w_store w') (rs_run_id s) = Some s"
proof -
  let ?data = "Instance (asked q)" and ?rank = "\<lambda>n. if n = ''research'' then 1 else 0 :: nat"
  have plain: "plain cfg" and local: "cfg_containment cfg = LocalDev" using cfg by (simp_all add: open_runtime_def)
  obtain wk where wk: "multi_agent_flow cfg e = Inr wk" "notebook_flow e wk" by (rule notebook_flow_created [OF local])
  have steps: "wf_steps wk = notebook_steps e" "wf_entry wk = Some ''research''" using wk(2) by (simp_all add: notebook_flow_def)
  have rank: "acyclic_workflow ?rank wk"
    by (auto simp: acyclic_workflow_def wf_edge_def steps notebook_steps_def agent_step_def declared_targets_def split: if_splits)
  have "handoff_fits q notes answer (Some ''research'') (to_payload ?data) [] {}" by (simp add: handoff_fits_def to_payload_def)
  moreover have "dhas (wf_steps wk) ''research''" by (simp add: steps notebook_steps_def dhas_def)
  ultimately obtain r at w' where run: "run_workflow cfg wk ?data None w = Some (Inr (run_of w' r), w')"
    and outcome: "finished (handoff_fits q notes answer) r w' \<or> (\<exists>n. gated wk (handoff_fits q notes answer) r n w')"
    using run_works_plain [OF plain ok notebook_steps_work [OF cfg m wk(2)] rank steps(2), of ?data None] by blast
  have "\<not> gated wk (handoff_fits q notes answer) r n w'" for n
    by (auto simp: gated_def steps notebook_steps_def agent_step_def requires_approval_def executor_requires_approval_def
        researcher_def drafter_def split: if_splits sum.splits)
  with outcome have "finished (handoff_fits q notes answer) r w'" by blast
  then have "rs_run_id (run_of w' r) = r" "get (w_store w') r = Some (run_of w' r)" "rs_status (run_of w' r) = COMPLETED"
    "rs_artifacts (run_of w' r) = [(''research'', researched q notes), (''draft'', answered answer)]"
    by (auto simp: finished_def handoff_fits_def)
  then show ?thesis using run by (auto simp: run_multi_agent_def wk(1))
qed

theorem handoff_flow_completes_witness:
  "\<exists>s w'. run_multi_agent no_adapter_config
       \<lparr>nb_validate = strict_model, nb_getenv = (\<lambda>_. Some ''key''), nb_chat = (\<lambda>_ _ _. Inr (JStr ''text''))\<rparr>
       (Instance (asked ''Why?'')) (init_world 0) = Some (Inr s, w') \<and>
     rs_status s = COMPLETED \<and> rs_artifacts s = [(''research'', researched ''Why?'' ''text''), (''draft'', answered ''text'')]"
proof -
  have "model_answers \<lparr>nb_validate = strict_model, nb_getenv = (\<lambda>_. Some ''key''), nb_chat = (\<lambda>_ _ _. Inr (JStr ''text''))\<rparr>
      ''Why?'' ''text'' ''text''"
    by (simp add: model_answers_def make_llm_def strict_model_accepts or_else_def)
  from handoff_flow_completes [OF open_no_adapter this world_ok_init [of 0]] show ?thesis by blast
qed

end
