(* ===== verification/Example_Notebook.thy ===== *)
theory Example_Notebook
  imports Example_Handoff Failures
begin

section \<open>The support notebook (\<open>examples/notebooks/governai_support_workflow.ipynb\<close>)\<close>

text \<open>
  The support flow with a language model as the drafting tool. The model and the environment are parameters, as
  in \<open>Example_Handoff\<close>, whose \<open>make_llm\<close> is the same function.
\<close>

subsection \<open>The module\<close>

definition nb_SupportIn :: fields where
  "nb_SupportIn = [(''customer_id'', TextField), (''customer_email'', TextField), (''issue'', TextField)]"

definition nb_ValidateOut :: fields where
  "nb_ValidateOut = [(''customer_id'', TextField), (''customer_email'', TextField), (''issue'', TextField)]"

definition nb_CustomerOut :: fields where
  "nb_CustomerOut =
     [(''customer_id'', TextField), (''customer_email'', TextField), (''customer_name'', TextField), (''tier'', TextField),
      (''issue'', TextField)]"

definition nb_DraftOut :: fields where
  "nb_DraftOut = [(''subject'', TextField), (''body'', TextField), (''to_email'', TextField)]"

definition nb_SendOut :: fields where
  "nb_SendOut = [(''sent'', FlagField), (''provider_message_id'', TextField)]"

definition model_dump :: "json \<Rightarrow> json dict" where
  "model_dump data = (case data of JObj d \<Rightarrow> d | _ \<Rightarrow> [])"

definition nb_validate_input :: "notebook_env \<Rightarrow> tool" where
  "nb_validate_input e =
     python_tool ''support.validate'' (nb_validate e nb_SupportIn) (output_model (nb_validate e) nb_ValidateOut) no_tool_args
       (\<lambda>data. if length (strip (py_str (attribute data ''issue''))) < 6
               then Throw (Exn ValueError ''Issue must be at least 6 characters'')
               else construct (nb_validate e) nb_ValidateOut (model_dump data))"

definition nb_fetch_customer :: "notebook_env \<Rightarrow> tool" where
  "nb_fetch_customer e =
     python_tool ''customer.fetch'' (nb_validate e nb_ValidateOut) (output_model (nb_validate e) nb_CustomerOut) no_tool_args
       (\<lambda>data. construct (nb_validate e) nb_CustomerOut
                 [(''customer_id'', attribute data ''customer_id''), (''customer_email'', attribute data ''customer_email''),
                  (''customer_name'', JStr ''Alex Doe''), (''tier'', JStr ''gold''), (''issue'', attribute data ''issue'')])"

definition support_messages :: "json \<Rightarrow> (string \<times> string) list" where
  "support_messages data =
     [(''system'', ''You are a precise customer support assistant.''),
      (''human'', ''Customer: '' @ py_str (attribute data ''customer_name'') @ newline @
         ''Tier: '' @ py_str (attribute data ''tier'') @ newline @
         ''Issue: '' @ py_str (attribute data ''issue'') @ newline @
         ''Write a concise, professional support reply with next steps.'')]"

definition nb_draft_reply :: "notebook_env \<Rightarrow> tool" where
  "nb_draft_reply e =
     python_tool ''reply.draft'' (nb_validate e nb_CustomerOut) (output_model (nb_validate e) nb_DraftOut)
       (no_tool_args\<lparr>ta_capabilities := Some [''llm.invoke'']\<rparr>)
       (\<lambda>data. case make_llm e of
          Inl x \<Rightarrow> Throw x
        | Inr llm \<Rightarrow>
            (case llm (support_messages data) of
               Inl x \<Rightarrow> Throw x
             | Inr content \<Rightarrow> construct (nb_validate e) nb_DraftOut
                 [(''subject'', JStr (''Re: Support for '' @ py_str (attribute data ''customer_id''))), (''body'', content),
                  (''to_email'', attribute data ''customer_email'')]))"

definition nb_send_reply :: "notebook_env \<Rightarrow> tool" where
  "nb_send_reply e =
     python_tool ''reply.send'' (nb_validate e nb_DraftOut) (output_model (nb_validate e) nb_SendOut)
       (no_tool_args\<lparr>ta_capabilities := Some [''email.send''], ta_side_effect := True, ta_requires_approval := True\<rparr>)
       (\<lambda>data. construct (nb_validate e) nb_SendOut
                 [(''sent'', JBool True), (''provider_message_id'', JStr (''mock-'' @ py_str (attribute data ''to_email'')))])"

definition deny_send_without_explicit_approval :: policy where
  "deny_send_without_explicit_approval =
     (let allow = \<lparr>pd_allow = True, pd_reason = None, pd_requires_approval = False\<rparr>
      in \<lparr>pol_run = (\<lambda>ctx.
            if pc_tool_name ctx \<noteq> ''reply.send'' then Decides allow
            else
              (case py_set (dget_or (pc_metadata ctx) ''approved_steps'' (JList [])) of
                 Inl x \<Rightarrow> Raises x
               | Inr approved \<Rightarrow>
                   Decides (if JStr (pc_step_name ctx) \<notin> set approved
                            then deny ''External send requires approval'' else allow))),
          pol_suspended = (\<lambda>_. 0), pol_timeout = None\<rparr>)"

definition SupportGovernedFlow :: "notebook_env \<Rightarrow> exn + workflow_class" where
  "SupportGovernedFlow e =
     (case all_right
             [then_of ''validate'' ''fetch_customer'' (nb_validate_input e),
              then_of ''fetch_customer'' ''draft_reply'' (nb_fetch_customer e),
              then_of ''draft_reply'' ''send_reply'' (nb_draft_reply e),
              end_of ''send_reply'' (nb_send_reply e)] of
        Inl x \<Rightarrow> Inl x
      | Inr steps \<Rightarrow> define_workflow ''SupportGovernedFlow'' [] steps None)"

text \<open>\<open>SupportGovernedFlow()\<close>, then the policy is registered with its runtime.\<close>

definition governed_support :: "config \<Rightarrow> notebook_env \<Rightarrow> exn + (config \<times> workflow)" where
  "governed_support cfg e =
     (case SupportGovernedFlow e of
        Inl x \<Rightarrow> Inl x
      | Inr c \<Rightarrow>
          (case create_workflow cfg c empty_tool_registry empty_agent_registry [] of
             Inl x \<Rightarrow> Inl x
           | Inr flow \<Rightarrow> Inr
               (cfg\<lparr>cfg_policy_engine := register_policy ''deny_send_without_explicit_approval''
                      deny_send_without_explicit_approval None (cfg_policy_engine cfg)\<rparr>, flow)))"

definition nb_run_demo :: "config \<Rightarrow> notebook_env \<Rightarrow> string \<Rightarrow> world \<Rightarrow> ((exn + run_state) \<times> world) option" where
  "nb_run_demo cfg0 e issue w =
     (case governed_support cfg0 e of
        Inl x \<Rightarrow> Some (Inl x, w)
      | Inr (cfg, flow) \<Rightarrow>
          (case nb_validate e nb_SupportIn (JObj
                  [(''customer_id'', JStr ''cust-42''), (''customer_email'', JStr ''customer@example.com''),
                   (''issue'', JStr issue)]) of
             Inl msg \<Rightarrow> Some (Inl (Exn ValidationError msg), w)
           | Inr data \<Rightarrow>
               (case run_workflow cfg flow (Instance data) None w of
                  Some (Inr first, w') \<Rightarrow>
                    resume_workflow cfg flow (rs_run_id first) (GivenDecision
                      \<lparr>ad_decision = APPROVE, ad_decided_by = Some ''notebook-user'', ad_reason = None,
                       ad_decided_at = w_now w'\<rparr>) w'
                | x \<Rightarrow> x)))"

subsection \<open>The flow as it is created\<close>

definition nb_steps :: "notebook_env \<Rightarrow> step dict" where
  "nb_steps e =
     [(''validate'', tool_step None ''validate'' ''fetch_customer'' (nb_validate_input e)),
      (''fetch_customer'', tool_step None ''fetch_customer'' ''draft_reply'' (nb_fetch_customer e)),
      (''draft_reply'', tool_step None ''draft_reply'' ''send_reply'' (nb_draft_reply e)),
      (''send_reply'', tool_step None ''send_reply'' END_STEP (nb_send_reply e))]"

lemmas nb_tool_defs = nb_validate_input_def nb_fetch_customer_def nb_draft_reply_def nb_send_reply_def

lemma nb_tools:
  "t_name (nb_validate_input e) = ''support.validate''" "t_name (nb_fetch_customer e) = ''customer.fetch''"
  "t_name (nb_draft_reply e) = ''reply.draft''" "t_name (nb_send_reply e) = ''reply.send''"
  "t_remote_name (nb_validate_input e) = ''support.validate''" "t_remote_name (nb_fetch_customer e) = ''customer.fetch''"
  "t_remote_name (nb_draft_reply e) = ''reply.draft''" "t_remote_name (nb_send_reply e) = ''reply.send''"
  "t_version (nb_validate_input e) = DEFAULT_VERSION" "t_version (nb_fetch_customer e) = DEFAULT_VERSION"
  "t_version (nb_draft_reply e) = DEFAULT_VERSION" "t_version (nb_send_reply e) = DEFAULT_VERSION"
  by (simp_all add: nb_tool_defs python_tool_def new_tool_def no_tool_args_def or_else_def)

lemma nb_placement:
  "t_placement (nb_validate_input e) = LocalOnly" "t_placement (nb_fetch_customer e) = LocalOnly"
  "t_placement (nb_draft_reply e) = LocalOnly" "t_placement (nb_send_reply e) = LocalOnly"
  "t_requires_approval (nb_send_reply e)" "\<not> t_requires_approval (nb_validate_input e)"
  "\<not> t_requires_approval (nb_fetch_customer e)" "\<not> t_requires_approval (nb_draft_reply e)"
  by (simp_all add: nb_tool_defs python_tool_def new_tool_def no_tool_args_def)

lemma nb_refs:
  "normalize_step_ref ''fetch_customer'' = ''fetch_customer''" "normalize_step_ref ''draft_reply'' = ''draft_reply''"
  "normalize_step_ref ''send_reply'' = ''send_reply''"
  by code_simp+

lemma nb_class:
  "SupportGovernedFlow e = Inr \<lparr>wc_name = ''SupportGovernedFlow'', wc_steps = nb_steps e, wc_entry = Some ''validate''\<rparr>"
  by (simp add: SupportGovernedFlow_def step_built nb_refs define_workflow_def Let_def nb_steps_def
      tool_step_def dhas_def check_transition_def unknown_ref_def dkeys_def END_STEP_def)

definition nb_flow :: "config \<Rightarrow> notebook_env \<Rightarrow> workflow \<Rightarrow> bool" where
  "nb_flow cfg e wk \<longleftrightarrow>
     plain cfg \<and> cfg_containment cfg = LocalDev \<and>
     policies_for (cfg_policy_engine cfg) (wf_name wk) =
       [(''deny_send_without_explicit_approval'', deny_send_without_explicit_approval)] \<and>
     wf_steps wk = nb_steps e \<and> wf_entry wk = Some ''validate''"

lemma nb_flow_created:
  assumes cfg: "open_runtime cfg0"
  obtains cfg wk where "governed_support cfg0 e = Inr (cfg, wk)" "nb_flow cfg e wk"
proof -
  let ?c = "\<lparr>wc_name = ''SupportGovernedFlow'', wc_steps = nb_steps e, wc_entry = Some ''validate''\<rparr>"
  let ?cfg = "cfg0\<lparr>cfg_policy_engine := register_policy ''deny_send_without_explicit_approval''
                      deny_send_without_explicit_approval None (cfg_policy_engine cfg0)\<rparr>"
  have "\<exists>g. register_step_executors (nb_steps e) (empty_tool_registry, empty_agent_registry) = (Inr (), (g, empty_agent_registry))"
    by (simp add: register_step_executors_def register_executor_def nb_steps_def tool_step_def
        dvalues_def py_simps register_tool_cases has_tool_def empty_tool_registry_def dhas_def nb_tools)
  then obtain g where g: "register_step_executors (nb_steps e) (empty_tool_registry, empty_agent_registry) =
      (Inr (), (g, empty_agent_registry))" by blast
  let ?wk = "\<lparr>wf_name = ''SupportGovernedFlow'', wf_steps = nb_steps e, wf_entry = Some ''validate'', wf_tools = g,
      wf_agents = empty_agent_registry\<rparr>"
  have "validate_workflow cfg0 ?wk = Inr ()"
    by (rule local_tools_accepted)
      (use cfg in \<open>simp_all add: open_runtime_def nb_steps_def dvalues_def tool_step_def nb_placement\<close>)
  then have "create_workflow cfg0 ?c empty_tool_registry empty_agent_registry [] = Inr ?wk"
    using g by (simp add: create_workflow_def new_workflow_def py_simps)
  then have "governed_support cfg0 e = Inr (?cfg, ?wk)" using g by (simp add: governed_support_def nb_class)
  moreover have "nb_flow ?cfg e ?wk"
    using cfg by (simp add: nb_flow_def open_runtime_def policies_for_def register_policy_def empty_policy_engine_def dget_or_def)
  ultimately show ?thesis by (rule that)
qed

subsection \<open>What the tools answer\<close>

definition nb_support_in :: "string \<Rightarrow> json" where
  "nb_support_in i =
     JObj [(''customer_id'', JStr ''cust-42''), (''customer_email'', JStr ''customer@example.com''), (''issue'', JStr i)]"

definition nb_customer :: "string \<Rightarrow> json" where
  "nb_customer i =
     JObj [(''customer_id'', JStr ''cust-42''), (''customer_email'', JStr ''customer@example.com''),
       (''customer_name'', JStr ''Alex Doe''), (''tier'', JStr ''gold''), (''issue'', JStr i)]"

definition nb_drafted :: "string \<Rightarrow> json" where
  "nb_drafted reply =
     JObj [(''subject'', JStr ''Re: Support for cust-42''), (''body'', JStr reply), (''to_email'', JStr ''customer@example.com'')]"

definition nb_sent :: json where
  "nb_sent = JObj [(''sent'', JBool True), (''provider_message_id'', JStr ''mock-customer@example.com'')]"

text \<open>There is a key, and the model drafts \<open>reply\<close> for the issue.\<close>

definition model_drafts :: "notebook_env \<Rightarrow> string \<Rightarrow> string \<Rightarrow> bool" where
  "model_drafts e i reply \<longleftrightarrow>
     (\<exists>llm. make_llm e = Inr llm \<and> llm (support_messages (nb_customer i)) = Inr (JStr reply))"

lemmas nb_models = nb_SupportIn_def nb_ValidateOut_def nb_CustomerOut_def nb_DraftOut_def nb_SendOut_def
  nb_support_in_def nb_customer_def nb_drafted_def nb_sent_def

lemmas nb_simps = python_tool_def new_tool_def nb_models accepts construct_Return fills_def dump_of_def dget_or_def
  attribute_def model_dump_def ret_run

lemma nb_validate_answers:
  assumes "accepts_dumps (nb_validate e)" "6 \<le> length (strip i)"
  shows "tool_answers cfg (nb_validate_input e) (nb_support_in i) A (nb_support_in i)"
  by (rule answers_with [where v = "nb_support_in i" and y = "Instance (nb_support_in i)"])
    (use assms in \<open>simp_all add: nb_validate_input_def nb_simps\<close>)

lemma nb_fetch_answers:
  assumes "accepts_dumps (nb_validate e)"
  shows "tool_answers cfg (nb_fetch_customer e) (nb_support_in i) A (nb_customer i)"
  by (rule answers_with [where v = "nb_support_in i" and y = "Instance (nb_customer i)"])
    (use assms in \<open>simp_all add: nb_fetch_customer_def nb_simps\<close>)

lemma nb_draft_answers:
  assumes v: "accepts_dumps (nb_validate e)" and m: "model_drafts e i reply"
  shows "tool_answers cfg (nb_draft_reply e) (nb_customer i) A (nb_drafted reply)"
proof (rule answers_with [where v = "nb_customer i" and y = "Instance (nb_drafted reply)"])
  obtain llm where "make_llm e = Inr llm" "llm (support_messages (nb_customer i)) = Inr (JStr reply)"
    using m by (auto simp: model_drafts_def)
  then show "tool_prog cfg cx (t_handler (nb_draft_reply e) (nb_customer i)) w = (Inr (Instance (nb_drafted reply)), w)" for cx w
    using v by (simp add: nb_draft_reply_def nb_simps)
qed (use v in \<open>simp_all add: nb_draft_reply_def nb_simps\<close>)

lemma nb_send_answers:
  assumes "accepts_dumps (nb_validate e)"
  shows "tool_answers cfg (nb_send_reply e) (nb_drafted reply) A nb_sent"
  by (rule answers_with [where v = "nb_drafted reply" and y = "Instance nb_sent"])
    (use assms in \<open>simp_all add: nb_send_reply_def nb_simps\<close>)

subsection \<open>The run\<close>

definition nb_artifacts :: "string \<Rightarrow> string \<Rightarrow> json dict" where
  "nb_artifacts i reply =
     [(''validate'', nb_support_in i), (''fetch_customer'', nb_customer i), (''draft_reply'', nb_drafted reply),
      (''send_reply'', nb_sent)]"

definition nb_fits :: "string \<Rightarrow> string \<Rightarrow> bool \<Rightarrow> annotation" where
  "nb_fits i reply approved n p A G \<longleftrightarrow>
     (case n of
        None \<Rightarrow> approved \<and> A = nb_artifacts i reply
      | Some x \<Rightarrow>
          \<not> approved \<and> G = {} \<and>
            (x = ''validate'' \<and> p = nb_support_in i \<and> A = [] \<or>
             x = ''fetch_customer'' \<and> p = nb_support_in i \<and> A = take 1 (nb_artifacts i reply) \<or>
             x = ''draft_reply'' \<and> p = nb_customer i \<and> A = take 2 (nb_artifacts i reply)) \<or>
          x = ''send_reply'' \<and> p = nb_drafted reply \<and> A = take 3 (nb_artifacts i reply) \<and>
            G = (if approved then {''send_reply''} else {}))"

definition nb_rank :: "string \<Rightarrow> nat" where
  "nb_rank n =
     (if n = ''validate'' then 3 else if n = ''fetch_customer'' then 2 else if n = ''draft_reply'' then 1 else 0)"

lemma nb_policy_allows:
  assumes "nb_flow cfg e wk" "tidy s" "t_name t = ''reply.send'' \<longrightarrow> n \<in> approvals s"
  shows "verdict (policies_for (cfg_policy_engine cfg) (wf_name wk)) (gate_ctx wk (tool_step x n m t) s) = Inr ()"
proof -
  have pol: "policies_for (cfg_policy_engine cfg) (wf_name wk) =
      [(''deny_send_without_explicit_approval'', deny_send_without_explicit_approval)]" using assms(1) by (simp add: nb_flow_def)
  show ?thesis
    unfolding pol
    by (rule approved_steps_policy [OF _ _ _ _ assms(2,3)]) (auto simp: deny_send_without_explicit_approval_def Let_def)
qed

lemma nb_steps_work:
  assumes f: "nb_flow cfg e wk" and v: "accepts_dumps (nb_validate e)" and m: "model_drafts e i reply" and i: "6 \<le> length (strip i)"
  shows "works cfg wk (nb_fits i reply approved)"
proof -
  let ?F = "nb_fits i reply approved"
  have plain: "plain cfg" and local: "cfg_containment cfg = LocalDev" and wk: "wf_steps wk = nb_steps e"
    using f by (simp_all add: nb_flow_def)
  have pol: "verdict (policies_for (cfg_policy_engine cfg) (wf_name wk)) (gate_ctx wk (tool_step x n k t) s) = Inr ()"
    if "tidy s" "needs_approval x t \<longrightarrow> n \<in> approvals s" "t_name t = ''reply.send'' \<longrightarrow> needs_approval x t" for x n k t s
    by (rule nb_policy_allows [OF f]) (use that in auto)
  note work = tool_step_outputs [where fits = ?F, OF plain local _ _ _ pol]
  note S = nb_fits_def next_point_def artifacts_set_def nb_artifacts_def END_STEP_def
  note T = nb_placement nb_tools nb_steps_def dhas_def needs_approval_def wk
  have "step_works cfg wk ?F ''validate'' (tool_step None ''validate'' ''fetch_customer'' (nb_validate_input e))"
    by (rule work [where out = "nb_support_in i"]) (use nb_validate_answers [OF v i] in \<open>auto simp: S T\<close>)
  moreover have "step_works cfg wk ?F ''fetch_customer'' (tool_step None ''fetch_customer'' ''draft_reply'' (nb_fetch_customer e))"
    by (rule work [where out = "nb_customer i"]) (use nb_fetch_answers [OF v] in \<open>auto simp: S T\<close>)
  moreover have "step_works cfg wk ?F ''draft_reply'' (tool_step None ''draft_reply'' ''send_reply'' (nb_draft_reply e))"
    by (rule work [where out = "nb_drafted reply"]) (use nb_draft_answers [OF v m] in \<open>auto simp: S T\<close>)
  moreover have "step_works cfg wk ?F ''send_reply'' (tool_step None ''send_reply'' END_STEP (nb_send_reply e))"
    by (rule work [where out = nb_sent]) (use nb_send_answers [OF v] in \<open>auto simp: S T split: if_splits\<close>)
  ultimately show ?thesis unfolding works_def wk by (auto simp: nb_steps_def split: if_splits)
qed

lemma nb_ranked: "wf_steps wk = nb_steps e \<Longrightarrow> acyclic_workflow nb_rank wk"
  by (auto simp: acyclic_workflow_def wf_edge_def nb_steps_def tool_step_def declared_targets_def nb_rank_def split: if_splits)

lemma nb_one_gate: "wf_steps wk = nb_steps e \<Longrightarrow> one_gate wk (nb_fits i reply False) ''send_reply''"
  unfolding one_gate_def
proof (intro conjI allI impI; (elim conjE)?)
  fix n st s
  assume "wf_steps wk = nb_steps e" "dget (wf_steps wk) n = Some st" "requires_approval st s = Inr True"
  then show "n = ''send_reply''"
    by (auto simp: nb_steps_def needs_approval_def nb_placement split: if_splits dest!: closed_gate_needs)
qed (simp add: nb_fits_def)

text \<open>The notebook, for every issue of six characters or more and whatever the model drafts: the run waits for the
  approval of \<open>send_reply\<close> with the draft and nothing sent, and the approval completes it.\<close>

lemma support_notebook_sends:
  assumes cfg: "open_runtime cfg0" and v: "accepts_dumps (nb_validate e)" and m: "model_drafts e i reply"
    and i: "6 \<le> length (strip i)" and ok: "world_ok w"
  shows "\<exists>cfg wk s w1 s' w2. governed_support cfg0 e = Inr (cfg, wk) \<and>
    run_workflow cfg wk (Instance (nb_support_in i)) None w = Some (Inr s, w1) \<and>
    rs_status s = WAITING_APPROVAL \<and> rs_current_step s = Some ''send_reply'' \<and>
    rs_artifacts s = take 3 (nb_artifacts i reply) \<and>
    nb_run_demo cfg0 e i w = Some (Inr s', w2) \<and> rs_run_id s' = rs_run_id s \<and> rs_status s' = COMPLETED \<and>
    rs_artifacts s' = nb_artifacts i reply \<and> get (w_store w2) (rs_run_id s) = Some s'"
proof -
  obtain cfg wk where g: "governed_support cfg0 e = Inr (cfg, wk)" and f: "nb_flow cfg e wk" by (rule nb_flow_created [OF cfg])
  have plain: "plain cfg" and wk: "wf_steps wk = nb_steps e" "wf_entry wk = Some ''validate''" using f by (simp_all add: nb_flow_def)
  let ?data = "Instance (nb_support_in i)"
  note works = nb_steps_work [OF f v m i] and rank = nb_ranked [OF wk(1)]
  have start: "dhas (wf_steps wk) ''validate''" "nb_fits i reply False (Some ''validate'') (to_payload ?data) [] {}"
    by (simp_all add: wk(1) nb_steps_def dhas_def nb_fits_def to_payload_def)
  obtain r s w1 where run: "run_workflow cfg wk ?data None w = Some (Inr s, w1)" and h: "held wk (nb_fits i reply False) ''send_reply'' r s w1"
    by (rule waits_at_gate [OF plain ok works rank wk(2) start nb_one_gate [OF wk(1)]])
  let ?d = "\<lparr>ad_decision = APPROVE, ad_decided_by = Some ''notebook-user'', ad_reason = None, ad_decided_at = w_now w1\<rparr>"
  obtain s' w2 where res: "resume_workflow cfg wk r (GivenDecision ?d) w1 = Some (Inr s', w2)" "s' = run_of w2 r"
    "finished (nb_fits i reply True) r w2"
    by (rule gate_passed [OF plain works rank _ h, of ?d])
      (auto simp: nb_rank_def nb_fits_def wk nb_steps_def tool_step_def)
  have s: "rs_run_id s = r" "rs_status s = WAITING_APPROVAL" "rs_current_step s = Some ''send_reply''"
    "rs_artifacts s = take 3 (nb_artifacts i reply)"
    using h unfolding held_def by (blast, blast, blast, auto simp: nb_fits_def)
  have data: "nb_validate e nb_SupportIn (JObj
      [(''customer_id'', JStr ''cust-42''), (''customer_email'', JStr ''customer@example.com''), (''issue'', JStr i)]) =
      Inr (nb_support_in i)"
    using v by (simp add: nb_simps)
  have "nb_run_demo cfg0 e i w = Some (Inr s', w2)" using g data run res(1) s(1) by (simp add: nb_run_demo_def)
  moreover have "rs_run_id s' = r" "rs_status s' = COMPLETED" "rs_artifacts s' = nb_artifacts i reply" "get (w_store w2) r = Some s'"
    using res(2,3) by (auto simp: finished_def nb_fits_def)
  ultimately show ?thesis
    unfolding s(1) [symmetric] using g run s
    by (intro exI [of _ cfg] exI [of _ wk] exI [of _ s] exI [of _ w1] exI [of _ s'] exI [of _ w2]) simp
qed

subsection \<open>Issues that are too short\<close>

lemma local_tool_raises:
  assumes cfg: "plain cfg" and s: "dget (w_runs w) r = Some s" and st: "sd_executor st = ToolExec t"
    and local: "should_execute_remotely cfg (t_name t) (t_placement t) = Inr False"
    and t: "t_input_model t payload = Inr v" "t_handler t v = Throw x" "\<not> is_tool_error (eclass x)"
  shows "\<exists>w'. run_executor cfg wk r st payload w =
    (Inl (Exn ToolExecutionError (''Execution failed for '' @ t_name t @ '': '' @ exn_str x)), w')"
proof -
  let ?p = "[(''tool_name'', JStr (t_name t))]"
  let ?w1 = "log_event r TOOL_EXECUTION_STARTED (Some (sd_name st)) ?p w"
  have s1: "dget (w_runs ?w1) r = Some s" using s by simp
  show ?thesis
    using emit_run_plain [OF cfg s] emit_run_plain [OF cfg s1] local t
    by (simp add: run_executor_def st run_tool_def make_context_def state_of_def py_simps Let_def execute_tool_def)
qed

text \<open>The run is failed by its first step, with no artifact, and the demo raises.\<close>

lemma support_notebook_rejects:
  assumes cfg: "open_runtime cfg0" and v: "accepts_dumps (nb_validate e)" and i: "length (strip i) < 6" and ok: "world_ok w"
  shows "\<exists>x r s w'. nb_run_demo cfg0 e i w = Some (Inl x, w') \<and> eclass x = ToolExecutionError \<and> failed_with x r s w' \<and>
    rs_artifacts s = []"
proof -
  obtain cfg wk where g: "governed_support cfg0 e = Inr (cfg, wk)" and f: "nb_flow cfg e wk" by (rule nb_flow_created [OF cfg])
  have plain: "plain cfg" and local: "cfg_containment cfg = LocalDev" and wk: "wf_steps wk = nb_steps e" "wf_entry wk = Some ''validate''"
    using f by (simp_all add: nb_flow_def)
  let ?t = "nb_validate_input e" and ?data = "Instance (nb_support_in i)"
  let ?st = "tool_step None ''validate'' ''fetch_customer'' ?t"
  let ?x = "Exn ToolExecutionError (''Execution failed for '' @ t_name ?t @ '': '' @
      exn_str (Exn ValueError ''Issue must be at least 6 characters''))"
  have input: "t_input_model ?t (nb_support_in i) = Inr (nb_support_in i)"
    using v by (simp add: nb_validate_input_def nb_simps)
  have handler: "t_handler ?t (nb_support_in i) = Throw (Exn ValueError ''Issue must be at least 6 characters'')"
    using i by (simp add: nb_validate_input_def nb_simps)
  have x: "\<exists>w2. run_executor cfg wk r ?st (to_payload ?data) w1 = (Inl ?x, w2)" if "loaded r s w1" for r s w1
  proof (rule local_tool_raises [OF plain _ _ _ _ handler])
    show "dget (w_runs w1) r = Some s" using that by (simp add: loaded_def)
    show "sd_executor ?st = ToolExec ?t" by (simp add: tool_step_def)
    show "should_execute_remotely cfg (t_name ?t) (t_placement ?t) = Inr False"
      using local by (simp add: should_execute_remotely_def nb_placement)
    show "t_input_model ?t (to_payload ?data) = Inr (nb_support_in i)" using input by (simp add: to_payload_def)
  qed simp
  have step: "get_step wk ''validate'' = Inr ?st" "sd_required_artifacts ?st = []"
    by (simp_all add: get_step_def wk(1) nb_steps_def tool_step_def)
  have gate: "requires_approval ?st s \<noteq> Inr True" for s
    using closed_gate_needs [of None "''validate''" "''fetch_customer''" ?t s] by (auto simp: needs_approval_def nb_placement)
  have pol: "verdict (policies_for (cfg_policy_engine cfg) (wf_name wk)) (gate_ctx wk ?st s) = Inr ()" if "tidy s" for s
    by (rule nb_policy_allows [OF f that]) (simp add: nb_tools)
  obtain r s w' where run: "run_workflow cfg wk ?data None w = Some (Inl ?x, w')" and s: "failed_with ?x r s w'" "rs_artifacts s = []"
    by (rule entry_step_raises [where th = None, OF plain ok wk(2) step gate pol x]) simp_all
  have data: "nb_validate e nb_SupportIn (JObj
      [(''customer_id'', JStr ''cust-42''), (''customer_email'', JStr ''customer@example.com''), (''issue'', JStr i)]) =
      Inr (nb_support_in i)"
    using v by (simp add: nb_simps)
  have "nb_run_demo cfg0 e i w = Some (Inl ?x, w')" using g data run by (simp add: nb_run_demo_def)
  with s show ?thesis by (intro exI [of _ ?x] exI [of _ r] exI [of _ s] exI [of _ w']) simp
qed

end
