(* ===== verification/Sandbox.thy ===== *)
theory Sandbox
  imports Remote Secrets
begin

section \<open>The sandbox service (\<open>governai/sandbox/service.py\<close>)\<close>

text \<open>
  The server side of the remote protocol: the endpoints of the FastAPI application as functions of a
  request that has passed its model's validation. A handler runs here without memory, secrets or the
  runtime's clock. An agent that calls a tool raises \<open>PendingToolCall\<close>, which ends the request with
  status \<open>tool_call\<close>; the runtime calls the tool and sends the request again with the result, and the
  handler starts from its beginning.

  Parameters: the operating system's answer to a command, \<open>json.loads\<close>, Pydantic's list of errors and its
  text. Time in a handler is not counted.
\<close>

record sandbox =
  sx_tools :: tool_registry
  sx_agents :: agent_registry
  sx_token :: string
  sx_spawn :: "string list \<Rightarrow> json \<Rightarrow> int option \<Rightarrow> process_result"
  sx_loads :: "string \<Rightarrow> json option"
  sx_errors :: "string \<Rightarrow> json"
  sx_show_error :: "string \<Rightarrow> string"

definition create_sandbox_app :: "sandbox \<Rightarrow> exn + sandbox" where
  "create_sandbox_app sx =
     (if sx_token sx = [] then Inl (Exn ValueError ''bearer_token must not be empty'') else Inr sx)"

definition remote_failure_of :: "string \<Rightarrow> string \<Rightarrow> json dict \<Rightarrow> remote_failure" where
  "remote_failure_of code message details =
     \<lparr>rf_code = code, rf_message = message, rf_details = details\<rparr>"

definition bearer :: "string \<Rightarrow> string" where
  "bearer token = ''Bearer '' @ token"

text \<open>An endpoint answers or fails with a status code and a detail.\<close>

definition require_auth :: "sandbox \<Rightarrow> string option \<Rightarrow> (int \<times> string) + unit" where
  "require_auth sx authorization =
     (if authorization \<noteq> Some (bearer (sx_token sx)) then Inl (401, ''unauthorized'') else Inr ())"

definition health :: "sandbox \<Rightarrow> string option \<Rightarrow> (int \<times> string) + json dict" where
  "health sx authorization = map_sum id (\<lambda>_. [(''status'', JStr ''ok'')]) (require_auth sx authorization)"

subsection \<open>Tools\<close>

definition execute_inline_cli :: "sandbox \<Rightarrow> remote_tool_request \<Rightarrow> exn + json" where
  "execute_inline_cli sx q =
     (case sx_spawn sx (case tq_command q of None \<Rightarrow> [] | Some c \<Rightarrow> c) (tq_input_payload q)
             (tq_timeout_seconds q) of
        ProcessFailed e \<Rightarrow> Inl e
      | ProcessTimeout \<Rightarrow> Inl (Exn RuntimeError ''cli tool timed out'')
      | ProcessExit returncode stdout stderr \<Rightarrow>
          (let stdout_text = strip stdout; stderr_text = strip stderr
           in if returncode \<noteq> 0
              then Inl (Exn RuntimeError (''cli tool failed with exit_code='' @ int_str returncode @ '': '' @
                     (if stderr_text = [] then stdout_text else stderr_text)))
              else
                (case sx_loads sx (if stdout_text = [] then ''{}'' else stdout_text) of
                   None \<Rightarrow> Inl (Exn RuntimeError
                     (''cli tool returned invalid JSON: '' @ take 200 stdout_text))
                 | Some (JObj d) \<Rightarrow> Inr (JObj d)
                 | Some _ \<Rightarrow> Inl (Exn RuntimeError ''cli tool must return a JSON object''))))"

text \<open>A tool's handler on the context of the request. The state is the metadata; there is no memory
  connector and no secrets provider.\<close>

definition no_memory :: "string \<Rightarrow> exn + 'a" where
  "no_memory name =
     Inl (Exn AttributeError (quoted ''NoneType'' @ '' object has no attribute '' @ quoted name))"

definition no_context_attribute :: "string \<Rightarrow> string \<Rightarrow> exn + 'a" where
  "no_context_attribute cls name =
     Inl (Exn AttributeError (quoted cls @ '' object has no attribute '' @ quoted name))"

primrec sandbox_tool_prog :: "remote_tool_request \<Rightarrow> 'r prog \<Rightarrow> (json dict, 'r) py" where
  "sandbox_tool_prog q (Return r) = ret r"
| "sandbox_tool_prog q (Throw e) = raise e"
| "sandbox_tool_prog q (Elapse n p) = sandbox_tool_prog q p"
| "sandbox_tool_prog q (GetArtifact key dflt f) =
     sandbox_tool_prog q (f (Inr (artifacts_get (tq_artifacts q) key dflt)))"
| "sandbox_tool_prog q (RequireArtifact key f) =
     sandbox_tool_prog q (f (case dget (tq_artifacts q) key of
        None \<Rightarrow> Inl (Exn KeyError (''Missing artifact: '' @ key)) | Some v \<Rightarrow> Inr v))"
| "sandbox_tool_prog q (ArtifactsSnapshot f) = sandbox_tool_prog q (f (Inr (tq_artifacts q)))"
| "sandbox_tool_prog q (GetChannel key dflt f) =
     sandbox_tool_prog q (f (Inr (dget_or (tq_channels q) key dflt)))"
| "sandbox_tool_prog q (ChannelsSnapshot f) = sandbox_tool_prog q (f (Inr (tq_channels q)))"
| "sandbox_tool_prog q (SetMetadata key value f) =
     attempt (modify (dset key value)) (\<lambda>r. sandbox_tool_prog q (f r))"
| "sandbox_tool_prog q (GetMetadata key dflt f) =
     attempt (gets (\<lambda>m. dget_or m key dflt)) (\<lambda>r. sandbox_tool_prog q (f r))"
| "sandbox_tool_prog q (ResolveSecret key f) = sandbox_tool_prog q (f (null_resolve key))"
| "sandbox_tool_prog q (MemoryRead key scope target f) = sandbox_tool_prog q (f (no_memory ''read''))"
| "sandbox_tool_prog q (MemoryWrite key value scope target f) =
     sandbox_tool_prog q (f (no_memory ''write''))"
| "sandbox_tool_prog q (MemoryDelete key scope target f) =
     sandbox_tool_prog q (f (no_memory ''delete''))"
| "sandbox_tool_prog q (MemorySearch query scope target f) =
     sandbox_tool_prog q (f (no_memory ''search''))"
| "sandbox_tool_prog q (UseTool name payload f) =
     sandbox_tool_prog q (f (no_context_attribute ''ExecutionContext'' ''use_tool''))"
| "sandbox_tool_prog q (ToolCallsUsed f) =
     sandbox_tool_prog q (f (no_context_attribute ''ExecutionContext'' ''tool_calls_used''))"

text \<open>\<open>Tool.execute\<close> on that context.\<close>

definition sandbox_execute :: "remote_tool_request \<Rightarrow> tool \<Rightarrow> exn + py_value" where
  "sandbox_execute q t =
     (case t_input_model t (tq_input_payload q) of
        Inl msg \<Rightarrow> Inl (Exn ToolValidationError
          (''Input validation failed for '' @ t_name t @ '': '' @ msg))
      | Inr validated_input \<Rightarrow>
          (case fst (sandbox_tool_prog q (t_handler t validated_input) (tq_metadata q)) of
             Inl e \<Rightarrow>
               Inl (if is_tool_error (eclass e) then e
                    else Exn ToolExecutionError (''Execution failed for '' @ t_name t @ '': '' @ exn_str e))
           | Inr output \<Rightarrow>
               (case t_output_model t output of
                  Inl msg \<Rightarrow> Inl (Exn ToolValidationError
                    (''Output validation failed for '' @ t_name t @ '': '' @ msg))
                | Inr v \<Rightarrow> Inr v)))"

definition as_object :: "json \<Rightarrow> json" where
  "as_object v = (case v of JObj d \<Rightarrow> JObj d | _ \<Rightarrow> JObj [(''value'', v)])"

definition tool_output :: "sandbox \<Rightarrow> remote_tool_request \<Rightarrow> exn + json" where
  "tool_output sx q =
     (if tq_tool_kind q = ''cli''
      then if tq_command q = None \<or> tq_command q = Some []
           then Inl (Exn RuntimeError ''remote CLI execution requires command'')
           else execute_inline_cli sx q
      else
        (case get_remote_tool (sx_tools sx) (tq_executor_name q) of
           Inl e \<Rightarrow> Inl e
         | Inr t \<Rightarrow> map_sum id (\<lambda>v. as_object (to_payload v)) (sandbox_execute q t)))"

definition tool_failure :: "sandbox \<Rightarrow> remote_tool_request \<Rightarrow> exn \<Rightarrow> remote_tool_response" where
  "tool_failure sx q e =
     \<lparr>ts_output_payload = None,
      ts_error = Some
        (if eclass e = KeyError
         then remote_failure_of ''not_found'' (''Unknown remote tool: '' @ tq_executor_name q) []
         else if eclass e = ValidationError
         then remote_failure_of ''validation_error'' ''Remote tool validation failed''
                [(''errors'', sx_errors sx (emsg e))]
         else remote_failure_of ''execution_failed'' (exn_str e) [])\<rparr>"

definition sandbox_tool ::
  "sandbox \<Rightarrow> remote_tool_request \<Rightarrow> string option \<Rightarrow> (int \<times> string) + remote_tool_response" where
  "sandbox_tool sx q authorization =
     map_sum id
       (\<lambda>_. case tool_output sx q of
              Inl e \<Rightarrow> tool_failure sx q e
            | Inr v \<Rightarrow> \<lparr>ts_output_payload = Some v, ts_error = None\<rparr>)
       (require_auth sx authorization)"

subsection \<open>Agents\<close>

text \<open>\<open>PendingToolCall(name, payload)\<close>\<close>

definition pending_error :: "string \<Rightarrow> json \<Rightarrow> exn" where
  "pending_error name payload = Exn (PendingToolCall name payload) (''pending remote tool call: '' @ name)"

text \<open>\<open>RemoteAgentExecutionContext\<close>: what \<open>use_tool\<close> changes, and the metadata.\<close>

record remote_context =
  rc_tool_calls :: int
  rc_resume_name :: "string option"
  rc_resume_result :: "json option"
  rc_metadata :: "json dict"

definition remote_use_tool :: "remote_agent_request \<Rightarrow> string \<Rightarrow> json \<Rightarrow> (remote_context, json) py" where
  "remote_use_tool q name payload =
     (if name \<notin> set (aq_allowed_tools q)
      then raise (Exn AgentToolNotAllowedError
             (''Agent step '' @ aq_step_name q @ '' cannot call tool '' @ name))
      else
        bnd (gets rc_resume_name) (\<lambda>resumed.
        case resumed of
          Some known \<Rightarrow>
            if known \<noteq> name
            then raise (Exn AgentExecutionError
                   (''Remote agent resumed with tool result for '' @ known @ '', but requested '' @ name))
            else
              bnd (gets rc_resume_result) (\<lambda>result.
              sq (modify (\<lambda>c. c\<lparr>rc_resume_name := None, rc_resume_result := None\<rparr>))
                 (ret (case result of Some v \<Rightarrow> if truthy v then v else JObj [] | None \<Rightarrow> JObj [])))
        | None \<Rightarrow>
            bnd (gets rc_tool_calls) (\<lambda>used.
            if used \<ge> aq_max_tool_calls q
            then raise (Exn AgentLimitExceededError
                   (''Agent step '' @ aq_step_name q @ '' exceeded max_tool_calls='' @
                    int_str (aq_max_tool_calls q)))
            else
              sq (modify (\<lambda>c. c\<lparr>rc_tool_calls := used + 1\<rparr>))
                 (raise (pending_error name (as_object payload))))))"

definition no_remote_attribute :: "string \<Rightarrow> exn + 'a" where
  "no_remote_attribute name = no_context_attribute ''RemoteAgentExecutionContext'' name"

primrec sandbox_agent_prog :: "remote_agent_request \<Rightarrow> 'r prog \<Rightarrow> (remote_context, 'r) py" where
  "sandbox_agent_prog q (Return r) = ret r"
| "sandbox_agent_prog q (Throw e) = raise e"
| "sandbox_agent_prog q (Elapse n p) = sandbox_agent_prog q p"
| "sandbox_agent_prog q (GetArtifact key dflt f) =
     sandbox_agent_prog q (f (Inr (artifacts_get (aq_artifacts q) key dflt)))"
| "sandbox_agent_prog q (RequireArtifact key f) =
     sandbox_agent_prog q (f (no_remote_attribute ''require_artifact''))"
| "sandbox_agent_prog q (ArtifactsSnapshot f) = sandbox_agent_prog q (f (Inr (aq_artifacts q)))"
| "sandbox_agent_prog q (GetChannel key dflt f) =
     sandbox_agent_prog q (f (no_remote_attribute ''get_channel''))"
| "sandbox_agent_prog q (ChannelsSnapshot f) =
     sandbox_agent_prog q (f (no_remote_attribute ''channels_snapshot''))"
| "sandbox_agent_prog q (SetMetadata key value f) =
     attempt (modify (\<lambda>c. c\<lparr>rc_metadata := dset key value (rc_metadata c)\<rparr>))
       (\<lambda>r. sandbox_agent_prog q (f r))"
| "sandbox_agent_prog q (GetMetadata key dflt f) =
     sandbox_agent_prog q (f (no_remote_attribute ''get_metadata''))"
| "sandbox_agent_prog q (ResolveSecret key f) =
     sandbox_agent_prog q (f (no_remote_attribute ''resolve_secret''))"
| "sandbox_agent_prog q (MemoryRead key scope target f) =
     sandbox_agent_prog q (f (no_remote_attribute ''memory''))"
| "sandbox_agent_prog q (MemoryWrite key value scope target f) =
     sandbox_agent_prog q (f (no_remote_attribute ''memory''))"
| "sandbox_agent_prog q (MemoryDelete key scope target f) =
     sandbox_agent_prog q (f (no_remote_attribute ''memory''))"
| "sandbox_agent_prog q (MemorySearch query scope target f) =
     sandbox_agent_prog q (f (no_remote_attribute ''memory''))"
| "sandbox_agent_prog q (UseTool name payload f) =
     attempt (remote_use_tool q name payload) (\<lambda>r. sandbox_agent_prog q (f r))"
| "sandbox_agent_prog q (ToolCallsUsed f) =
     attempt (gets (\<lambda>c. nat (rc_tool_calls c))) (\<lambda>r. sandbox_agent_prog q (f r))"

definition request_context :: "remote_agent_request \<Rightarrow> remote_context" where
  "request_context q =
     \<lparr>rc_tool_calls = aq_tool_calls_used q, rc_resume_name = aq_resume_tool_name q,
      rc_resume_result = aq_resume_tool_result q, rc_metadata = aq_metadata q\<rparr>"

definition agent_response :: "remote_status \<Rightarrow> remote_agent_response" where
  "agent_response st =
     \<lparr>rr_status = st, rr_output_payload = None, rr_next_agent = None, rr_reason = None, rr_tool_call = None,
      rr_error = None\<rparr>"

text \<open>The constructor, with the model's validator.\<close>

definition checked_response :: "remote_agent_response \<Rightarrow> exn + remote_agent_response" where
  "checked_response r = map_sum (Exn ValidationError) id (check_agent_response r)"

definition answer_result ::
  "remote_agent_request \<Rightarrow> agent \<Rightarrow> agent_result \<Rightarrow> exn + remote_agent_response" where
  "answer_result q a r =
     (case ag_status r of
        Final \<Rightarrow>
          (case a_output_model a (case ag_output_payload r of None \<Rightarrow> JNull | Some p \<Rightarrow> p) of
             Inl msg \<Rightarrow> Inl (Exn ValidationError msg)
           | Inr out \<Rightarrow> checked_response ((agent_response RFinal)\<lparr>rr_output_payload := Some out\<rparr>))
      | Handoff \<Rightarrow>
          if ag_next_agent r \<notin> Some ` set (aq_allowed_handoffs q)
          then Inl (Exn AgentExecutionError
                 (''Remote agent '' @ a_name a @ '' attempted disallowed handoff to '' @
                  (case ag_next_agent r of None \<Rightarrow> ''None'' | Some n \<Rightarrow> n)))
          else checked_response ((agent_response RHandoff)\<lparr>rr_next_agent := ag_next_agent r\<rparr>)
      | NeedsApproval \<Rightarrow> checked_response ((agent_response RNeedsApproval)\<lparr>rr_reason := ag_reason r\<rparr>)
      | Failed \<Rightarrow>
          checked_response ((agent_response RFailed)
            \<lparr>rr_reason := ag_reason r,
             rr_error := Some (remote_failure_of ''agent_failed''
               (or_else (ag_reason r) (''Agent '' @ a_name a @ '' failed'')) [])\<rparr>))"

definition agent_task_of :: "string \<Rightarrow> remote_agent_request \<Rightarrow> json \<Rightarrow> agent_task" where
  "agent_task_of task_id q validated_input =
     \<lparr>at_task_id = task_id, at_goal = aq_instruction q, at_input_payload = validated_input,
      at_context_artifacts = aq_artifacts q\<rparr>"

definition answer_agent ::
  "sandbox \<Rightarrow> string \<Rightarrow> remote_agent_request \<Rightarrow> exn + remote_agent_response" where
  "answer_agent sx task_id q =
     (case get_remote_agent (sx_agents sx) (aq_executor_name q) of
        Inl e \<Rightarrow> Inl e
      | Inr a \<Rightarrow>
          (case a_input_model a (aq_input_payload q) of
             Inl msg \<Rightarrow> Inl (Exn ValidationError msg)
           | Inr validated_input \<Rightarrow>
               (case fst (sandbox_agent_prog q (a_handler a (agent_task_of task_id q validated_input))
                       (request_context q)) of
                  Inl e \<Rightarrow> Inl e
                | Inr raw \<Rightarrow>
                    (case result_model (sx_show_error sx) raw of
                       Inl msg \<Rightarrow> Inl (Exn ValidationError msg)
                     | Inr r \<Rightarrow> answer_result q a r))))"

definition failed_response :: "string \<Rightarrow> remote_failure \<Rightarrow> remote_agent_response" where
  "failed_response reason err = (agent_response RFailed)\<lparr>rr_reason := Some reason, rr_error := Some err\<rparr>"

text \<open>The \<open>except\<close> clauses, in order.\<close>

definition agent_failure :: "sandbox \<Rightarrow> remote_agent_request \<Rightarrow> exn \<Rightarrow> remote_agent_response" where
  "agent_failure sx q e =
     (case eclass e of
        PendingToolCall name payload \<Rightarrow>
          (agent_response RToolCall)\<lparr>rr_tool_call := Some (name, payload)\<rparr>
      | KeyError \<Rightarrow>
          (let msg = ''Unknown remote agent: '' @ aq_executor_name q
           in failed_response msg (remote_failure_of ''not_found'' msg []))
      | ValidationError \<Rightarrow>
          failed_response ''Remote agent validation failed''
            (remote_failure_of ''validation_error'' ''Remote agent validation failed''
               [(''errors'', sx_errors sx (emsg e))])
      | _ \<Rightarrow> failed_response (exn_str e) (remote_failure_of ''execution_failed'' (exn_str e) []))"

definition sandbox_agent ::
  "sandbox \<Rightarrow> string \<Rightarrow> remote_agent_request \<Rightarrow> string option \<Rightarrow> (int \<times> string) + remote_agent_response" where
  "sandbox_agent sx task_id q authorization =
     map_sum id
       (\<lambda>_. case answer_agent sx task_id q of Inl e \<Rightarrow> agent_failure sx q e | Inr r \<Rightarrow> r)
       (require_auth sx authorization)"

end
