(* ===== verification/Sandbox_Contracts.thy ===== *)
theory Sandbox_Contracts
  imports Sandbox Governance
begin

section \<open>The sandbox and the runtime\<close>

text \<open>
  What the sandbox answers passes the checks of the client's models; an agent that makes one tool call
  behaves in the sandbox as it does in process; an agent that needs the results of two different tools
  never finishes there, because a request carries the result of one call only.
\<close>

subsection \<open>Answers are valid responses\<close>

lemma checked_response_Inr: "checked_response r = Inr r' \<Longrightarrow> check_agent_response r' = Inr r'"
  by (cases "check_agent_response r") (auto simp: checked_response_def check_agent_response_Inr)

lemma answer_result_valid: "answer_result q a r = Inr r' \<Longrightarrow> check_agent_response r' = Inr r'"
  by (cases "ag_status r")
    (auto simp: answer_result_def split: sum.splits if_splits intro: checked_response_Inr)

lemma answer_agent_valid: "answer_agent sx tid q = Inr r \<Longrightarrow> check_agent_response r = Inr r"
  by (auto simp: answer_agent_def split: sum.splits intro: answer_result_valid)

lemma agent_failure_valid: "check_agent_response (agent_failure sx q e) = Inr (agent_failure sx q e)"
  by (cases "eclass e")
    (simp_all add: agent_failure_def check_agent_response_def agent_response_def failed_response_def Let_def)

text \<open>Whatever handlers do, an authorised request is answered by a response that satisfies the response
  models, so the client never rejects it, and an unauthorised one by 401 only.\<close>

lemma sandbox_tool_valid:
  "case sandbox_tool sx q authorization of
     Inl e \<Rightarrow> e = (401, ''unauthorized'') \<and> authorization \<noteq> Some (bearer (sx_token sx))
   | Inr r \<Rightarrow> check_tool_response r = Inr r \<and> authorization = Some (bearer (sx_token sx))"
  by (cases "tool_output sx q") (auto simp: sandbox_tool_def require_auth_def tool_failure_def check_tool_response_def)

lemma sandbox_agent_valid:
  "case sandbox_agent sx task_id q authorization of
     Inl e \<Rightarrow> e = (401, ''unauthorized'') \<and> authorization \<noteq> Some (bearer (sx_token sx))
   | Inr r \<Rightarrow> check_agent_response r = Inr r \<and> authorization = Some (bearer (sx_token sx))"
  using answer_agent_valid agent_failure_valid
  by (cases "answer_agent sx task_id q") (auto simp: sandbox_agent_def require_auth_def)

subsection \<open>One call: the sandbox agrees with the runtime\<close>

text \<open>Programs that use only what the local and the remote agent context have in common, and call at most
  the tool \<open>only\<close>, once.\<close>

primrec portable :: "'r prog \<Rightarrow> string option \<Rightarrow> bool" where
  "portable (Return r) only = True"
| "portable (Throw e) only = True"
| "portable (Elapse n p) only = portable p only"
| "portable (GetArtifact key dflt f) only = (\<forall>r. portable (f r) only)"
| "portable (RequireArtifact key f) only = False"
| "portable (ArtifactsSnapshot f) only = (\<forall>r. portable (f r) only)"
| "portable (GetChannel key dflt f) only = False"
| "portable (ChannelsSnapshot f) only = False"
| "portable (SetMetadata key value f) only = (\<forall>r. portable (f r) only)"
| "portable (GetMetadata key dflt f) only = False"
| "portable (ResolveSecret key f) only = False"
| "portable (MemoryRead key scope target f) only = False"
| "portable (MemoryWrite key value scope target f) only = False"
| "portable (MemoryDelete key scope target f) only = False"
| "portable (MemorySearch query scope target f) only = False"
| "portable (UseTool name payload f) only = (only = Some name \<and> (\<forall>r. portable (f r) None))"
| "portable (ToolCallsUsed f) only = False"

definition same_artifacts :: "agent_context \<Rightarrow> remote_agent_request \<Rightarrow> bool" where
  "same_artifacts acx q \<longleftrightarrow> cx_artifacts (acx_base acx) = aq_artifacts q"

lemma set_metadata_Inr: "\<exists>w'. set_metadata r k v w = (Inr (), w')"
  by (auto simp: set_metadata_def update_state_def modify_def)

lemma no_call_agrees:
  assumes "portable p None" "same_artifacts acx q"
  shows "fst (sandbox_agent_prog q p c) = map_sum id fst (fst (agent_prog acx call p used w))"
  using assms
proof (induction p arbitrary: c w)
  case (SetMetadata k v f)
  obtain w' where w': "set_metadata (cx_metadata (acx_base acx)) k v w = (Inr (), w')"
    using set_metadata_Inr by blast
  show ?case
    using SetMetadata.IH [of "f (Inr ())" "c\<lparr>rc_metadata := dset k v (rc_metadata c)\<rparr>" w'] SetMetadata.prems
    by (simp add: py_simps w')
qed (auto simp: py_simps elapse_def same_artifacts_def)

text \<open>The request that carries the result of the call.\<close>

definition resumed_with :: "string \<Rightarrow> json \<Rightarrow> remote_context \<Rightarrow> bool" where
  "resumed_with name v c \<longleftrightarrow> rc_resume_name c = Some name \<and> rc_resume_result c = Some v"

lemma one_call_agrees:
  assumes "portable p (Some name)" "same_artifacts acx q" "resumed_with name (JObj d) c"
    and "name \<in> set (aq_allowed_tools q)" "name \<in> set (acx_allowed_tools acx)" "0 < acx_max_tool_calls acx"
    and call: "\<And>payload w. fst (call name payload w) = Inr (JObj d)"
  shows "fst (sandbox_agent_prog q p c) = map_sum id fst (fst (agent_prog acx call p 0 w))"
  using assms(1,2,3)
proof (induction p arbitrary: c w)
  case (SetMetadata k v f)
  obtain w' where w': "set_metadata (cx_metadata (acx_base acx)) k v w = (Inr (), w')"
    using set_metadata_Inr by blast
  show ?case
    using SetMetadata.IH [of "f (Inr ())" "c\<lparr>rc_metadata := dset k v (rc_metadata c)\<rparr>" w'] SetMetadata.prems
    by (simp add: py_simps w' resumed_with_def)
next
  case (UseTool n payload f)
  then have n: "n = name" and rest: "portable (f (Inr (JObj d))) None" by auto
  let ?c = "c\<lparr>rc_resume_name := None, rc_resume_result := None\<rparr>"
  have "remote_use_tool q name payload c = (Inr (JObj d), ?c)"
    using UseTool.prems(3) assms(4) by (auto simp: remote_use_tool_def resumed_with_def py_simps)
  moreover have "use_tool_check acx 0 name = Inr ()"
    using assms(5,6) by (simp add: use_tool_check_def)
  moreover obtain w' where "call name payload w = (Inr (JObj d), w')"
    using call [of payload w] by (cases "call name payload w") simp
  ultimately show ?case
    using no_call_agrees [OF rest UseTool.prems(2), of ?c call "Suc 0" w']
    by (simp add: n py_simps id_def)
qed (auto simp: py_simps elapse_def same_artifacts_def)

text \<open>The first request: the tool call ends it as an exception of the call would end the local run.\<close>

definition pending_call :: "string \<Rightarrow> json \<Rightarrow> json rt" where
  "pending_call name payload = raise (pending_error name (as_object payload))"

lemma first_request_agrees:
  assumes "portable p (Some name)" "same_artifacts acx q" "rc_resume_name c = None" "rc_tool_calls c = 0"
    and "name \<in> set (aq_allowed_tools q)" "name \<in> set (acx_allowed_tools acx)" "0 < acx_max_tool_calls acx"
      "0 < aq_max_tool_calls q"
  shows "fst (sandbox_agent_prog q p c) = map_sum id fst (fst (agent_prog acx pending_call p 0 w))"
  using assms(1-4)
proof (induction p arbitrary: c w)
  case (SetMetadata k v f)
  obtain w' where w': "set_metadata (cx_metadata (acx_base acx)) k v w = (Inr (), w')"
    using set_metadata_Inr by blast
  show ?case
    using SetMetadata.IH [of "f (Inr ())" "c\<lparr>rc_metadata := dset k v (rc_metadata c)\<rparr>" w'] SetMetadata.prems
    by (simp add: py_simps w')
next
  case (UseTool n payload f)
  let ?e = "pending_error name (as_object payload)"
  from UseTool.prems have n: "n = name" and rest: "portable (f (Inl ?e)) None" by auto
  have "remote_use_tool q name payload c = (Inl ?e, c\<lparr>rc_tool_calls := 1\<rparr>)"
    using UseTool.prems(3,4) assms(5,8) by (simp add: remote_use_tool_def py_simps)
  moreover have "use_tool_check acx 0 name = Inr ()"
    using assms(6,7) by (simp add: use_tool_check_def)
  moreover have pend: "pending_call name payload w = (Inl ?e, w)" by (simp add: pending_call_def py_simps)
  ultimately show ?case
    using no_call_agrees [OF rest UseTool.prems(2), of "c\<lparr>rc_tool_calls := 1\<rparr>" pending_call "Suc 0" w]
    by (simp add: n py_simps pend id_def)
qed (auto simp: py_simps elapse_def same_artifacts_def)

text \<open>The answer to a request whose handler's outcome is given.\<close>

definition answer_of_outcome ::
  "sandbox \<Rightarrow> remote_agent_request \<Rightarrow> agent \<Rightarrow> exn + agent_return \<Rightarrow> remote_agent_response" where
  "answer_of_outcome sx q a outcome =
     (case outcome of
        Inl e \<Rightarrow> agent_failure sx q e
      | Inr raw \<Rightarrow>
          (case result_model (sx_show_error sx) raw of
             Inl msg \<Rightarrow> agent_failure sx q (Exn ValidationError msg)
           | Inr r \<Rightarrow> (case answer_result q a r of Inl e \<Rightarrow> agent_failure sx q e | Inr resp \<Rightarrow> resp)))"

lemma sandbox_agent_outcome:
  assumes "get_remote_agent (sx_agents sx) (aq_executor_name q) = Inr a"
    and "a_input_model a (aq_input_payload q) = Inr input"
  shows "sandbox_agent sx tid q (Some (bearer (sx_token sx))) =
    Inr (answer_of_outcome sx q a
      (fst (sandbox_agent_prog q (a_handler a (agent_task_of tid q input)) (request_context q))))"
  using assms
  by (simp add: sandbox_agent_def require_auth_def answer_agent_def answer_of_outcome_def split: sum.split)


text \<open>A handler that calls \<open>echo\<close> and returns what it got.\<close>

definition relay_agent :: agent where
  "relay_agent =
     \<lparr>a_name = ''relay'', a_instruction = [], a_input_model = Inr, a_output_model = Inr,
      a_allowed_tools = [''echo''], a_allowed_handoffs = [], a_max_turns = 1, a_max_tool_calls = 1,
      a_requires_approval = False, a_capabilities = [], a_side_effect = False, a_placement = LocalOrRemote,
      a_remote_name = ''relay'',
      a_handler = (\<lambda>task. UseTool ''echo'' (at_input_payload task) (\<lambda>r.
        case r of
          Inl e \<Rightarrow> Throw e
        | Inr v \<Rightarrow> Return (Fields \<lparr>ag_status = Final, ag_output_payload = Some v, ag_next_agent = None,
                                  ag_reason = None\<rparr>)))\<rparr>"

definition sandbox_of :: "agent \<Rightarrow> sandbox" where
  "sandbox_of a =
     \<lparr>sx_tools = empty_tool_registry, sx_agents = \<lparr>ar_agents = [(a_name a, a)], ar_remote = [(a_remote_name a, a)]\<rparr>,
      sx_token = ''secret'', sx_spawn = (\<lambda>_ _ _. ProcessTimeout), sx_loads = (\<lambda>_. None),
      sx_errors = JStr, sx_show_error = id\<rparr>"

definition relay_request :: remote_agent_request where
  "relay_request =
     \<lparr>aq_run_id = ''r'', aq_workflow_name = ''w'', aq_step_name = ''s'', aq_executor_name = ''relay'',
      aq_input_payload = JObj [(''x'', JInt 1)], aq_artifacts = [], aq_channels = [], aq_metadata = [],
      aq_instruction = [], aq_allowed_tools = [''echo''], aq_allowed_handoffs = [], aq_max_tool_calls = 1,
      aq_tool_calls_used = 0, aq_resume_tool_name = None, aq_resume_tool_result = None\<rparr>"

definition relay_context :: agent_context where
  "relay_context =
     \<lparr>acx_base = \<lparr>cx_run_id = ''r'', cx_workflow_name = ''w'', cx_step_name = ''s'', cx_artifacts = [],
                   cx_channels = [], cx_thread_id = None, cx_metadata = ''r''\<rparr>,
      acx_allowed_tools = [''echo''], acx_max_tool_calls = 1\<rparr>"


subsection \<open>Two calls: the sandbox never finishes\<close>

text \<open>A handler that calls the tool \<open>first\<close>, then \<open>second\<close>, and lets errors pass.\<close>

definition two_tools :: "string \<Rightarrow> json \<Rightarrow> string \<Rightarrow> (json \<Rightarrow> json) \<Rightarrow> (json \<Rightarrow> json \<Rightarrow> 'r prog) \<Rightarrow> 'r prog" where
  "two_tools first x second y rest =
     UseTool first x (\<lambda>r. case r of
       Inl e \<Rightarrow> Throw e
     | Inr v \<Rightarrow> UseTool second (y v) (\<lambda>r'. case r' of Inl e \<Rightarrow> Throw e | Inr u \<Rightarrow> rest v u))"

lemma remote_use_tool_result:
  assumes "remote_use_tool q name x c = (Inr v, c')"
  shows "rc_resume_name c = Some name \<and> rc_resume_name c' = None"
  using assms
  by (auto simp: remote_use_tool_def py_simps split: if_splits option.splits)

lemma two_tools_raises:
  assumes "first \<noteq> second"
  shows "\<exists>e. fst (sandbox_agent_prog q (two_tools first x second y rest) c) = Inl e"
proof (cases "remote_use_tool q first x c")
  case fields: (Pair r c')
  show ?thesis
  proof (cases r)
    case (Inl e)
    then show ?thesis by (simp add: two_tools_def py_simps fields)
  next
    case (Inr v)
    with fields have c': "rc_resume_name c' = None" by (auto dest: remote_use_tool_result)
    obtain r' c'' where second: "remote_use_tool q second (y v) c' = (r', c'')"
      by (cases "remote_use_tool q second (y v) c'")
    with c' obtain e where "r' = Inl e" by (cases r') (auto dest: remote_use_tool_result)
    with second show ?thesis by (simp add: two_tools_def py_simps fields Inr)
  qed
qed

text \<open>The sandbox as the runtime's adapter: the HTTP client reports a refused request as \<open>http_error\<close>.\<close>

definition served :: "(int \<times> string) + 'a \<Rightarrow> exn + 'a" where
  "served reply = map_sum (\<lambda>(code, detail). Exn (RemoteExecutionError ''http_error'') detail) id reply"

definition sandbox_adapter :: "sandbox \<Rightarrow> adapter" where
  "sandbox_adapter sx =
     \<lparr>ax_tool = (\<lambda>n q. served (sandbox_tool sx q (Some (bearer (sx_token sx))))),
      ax_agent = (\<lambda>n q. served (sandbox_agent sx (uuid_of n) q (Some (bearer (sx_token sx)))))\<rparr>"

definition two_tool_agent :: "agent \<Rightarrow> string \<Rightarrow> string \<Rightarrow> bool" where
  "two_tool_agent a first second \<longleftrightarrow>
     first \<noteq> second \<and> (\<forall>task. \<exists>x y rest. a_handler a task = two_tools first x second y rest)"

lemma two_tool_answer:
  assumes "get_remote_agent (sx_agents sx) (aq_executor_name q) = Inr b" "two_tool_agent b first second"
  shows "\<exists>r. ax_agent (sandbox_adapter sx) n q = Inr r \<and> check_agent_response r = Inr r \<and>
    (rr_status r = RToolCall \<or> rr_status r = RFailed \<and> rr_error r \<noteq> None)"
proof -
  have raises: "\<exists>e. answer_agent sx (uuid_of n) q = Inl e"
  proof (cases "a_input_model b (aq_input_payload q)")
    case (Inl e)
    then show ?thesis using assms(1) by (simp add: answer_agent_def)
  next
    case (Inr input)
    from assms(2) obtain x y rest where
      h: "a_handler b (agent_task_of (uuid_of n) q input) = two_tools first x second y rest" and "first \<noteq> second"
      unfolding two_tool_agent_def by blast
    from two_tools_raises [OF this(2)] obtain e where
      "fst (sandbox_agent_prog q (two_tools first x second y rest) (request_context q)) = Inl e" by blast
    then show ?thesis using assms(1) Inr h by (simp add: answer_agent_def)
  qed
  then obtain e where "answer_agent sx (uuid_of n) q = Inl e" by blast
  then have "ax_agent (sandbox_adapter sx) n q = Inr (agent_failure sx q e)"
    by (simp add: sandbox_adapter_def served_def sandbox_agent_def require_auth_def)
  moreover have "rr_status (agent_failure sx q e) = RToolCall \<or>
      rr_status (agent_failure sx q e) = RFailed \<and> rr_error (agent_failure sx q e) \<noteq> None"
    by (cases "eclass e") (simp_all add: agent_failure_def agent_response_def failed_response_def Let_def)
  ultimately show ?thesis using agent_failure_valid by blast
qed

lemma two_tool_turn:
  assumes b: "get_remote_agent (sx_agents sx) (a_remote_name a) = Inr b" "two_tool_agent b first second"
    and call: "\<And>name payload w. \<exists>e. fst (call name payload w) = Inl e"
  shows "\<exists>e. fst (remote_agent_turn cfg wk r step_name a (sandbox_adapter sx) input used resume call w) = Inl e"
proof -
  let ?q = "agent_request (run_of w r) step_name a input used resume"
  obtain n w1 where n: "count_call w = (Inr n, w1)" by (cases "count_call w") (auto simp: count_call_def py_simps)
  have "get_remote_agent (sx_agents sx) (aq_executor_name ?q) = Inr b"
    using b(1) by (simp add: agent_request_def)
  from two_tool_answer [OF this b(2), of n] obtain resp where
    resp: "ax_agent (sandbox_adapter sx) n ?q = Inr resp" "check_agent_response resp = Inr resp"
      "rr_status resp = RToolCall \<or> rr_status resp = RFailed \<and> rr_error resp \<noteq> None" by blast
  then have "remote_call cfg (ax_agent (sandbox_adapter sx)) check_agent_response ?q w = (Inr resp, w1)"
    by (simp add: remote_call_def n py_simps)
  moreover have "state_of r w = (Inr (run_of w r), w)" by (simp add: state_of_def py_simps)
  ultimately show ?thesis
    using resp(3) call
    by (auto simp: remote_agent_turn_def py_simps split: option.split)
qed

lemma two_tool_turns:
  assumes "get_remote_agent (sx_agents sx) (a_remote_name a) = Inr b" "two_tool_agent b first second"
  shows "\<exists>e. fst (remote_agent_turns left cfg wk r step_name a (sandbox_adapter sx) input used resume w) = Inl e"
proof (induction left arbitrary: used resume w)
  case 0
  show ?case unfolding remote_agent_turns.simps
    by (rule two_tool_turn [OF assms]) (simp add: py_simps)
next
  case (Suc left)
  show ?case unfolding remote_agent_turns.simps
  proof (rule two_tool_turn [OF assms])
    fix name payload w
    obtain res w' where "execute_named_tool cfg wk r step_name name payload w = (res, w')"
      by (cases "execute_named_tool cfg wk r step_name name payload w")
    with Suc show "\<exists>e. fst (bnd (execute_named_tool cfg wk r step_name name payload)
        (\<lambda>result. remote_agent_turns left cfg wk r step_name a (sandbox_adapter sx) input (used + 1)
           (Some (name, result))) w) = Inl e"
      by (cases res) (simp_all add: py_simps)
  qed
qed


definition comparing_agent :: agent where
  "comparing_agent = relay_agent
     \<lparr>a_allowed_tools := [''echo'', ''count''], a_max_tool_calls := 2,
      a_handler := (\<lambda>task. two_tools ''echo'' (at_input_payload task) ''count'' (\<lambda>v. v)
        (\<lambda>v u. Return (Fields \<lparr>ag_status = Final, ag_output_payload = Some u, ag_next_agent = None,
                              ag_reason = None\<rparr>)))\<rparr>"


end
