(* ===== verification/Wire.thy ===== *)
theory Wire
  imports Sandbox_Contracts Json_Text
begin

section \<open>The runtime's HTTP adapter in front of a sandbox\<close>

text \<open>
  \<open>HTTPSandboxExecutionAdapter\<close> and the service's endpoints joined: the requests as \<open>model_dump\<close> gives
  them, the answers as the endpoints return them. What carries them (the HTTP libraries, FastAPI's decoding
  of a body into its request model) and Pydantic's decoding of the answers are parameters; \<open>connected\<close>
  says what they do with an endpoint's answer: one with an error status reaches the client as a failed
  request, any other is decoded into what the endpoint answered.
\<close>

subsection \<open>Requests and responses as dictionaries\<close>

definition text_list :: "string list \<Rightarrow> json" where
  "text_list xs = JList (map JStr xs)"

definition or_null :: "('a \<Rightarrow> json) \<Rightarrow> 'a option \<Rightarrow> json" where
  "or_null f x = (case x of None \<Rightarrow> JNull | Some v \<Rightarrow> f v)"

definition tool_request_dump :: "remote_tool_request \<Rightarrow> json" where
  "tool_request_dump q =
     JObj [(''run_id'', JStr (tq_run_id q)), (''workflow_name'', JStr (tq_workflow_name q)),
       (''step_name'', JStr (tq_step_name q)), (''executor_name'', JStr (tq_executor_name q)),
       (''executor_type'', JStr (tq_executor_type q)), (''input_payload'', tq_input_payload q),
       (''artifacts'', JObj (tq_artifacts q)), (''channels'', JObj (tq_channels q)),
       (''metadata'', JObj (tq_metadata q)), (''tool_kind'', JStr (tq_tool_kind q)),
       (''command'', or_null text_list (tq_command q)), (''timeout_seconds'', or_null JInt (tq_timeout_seconds q)),
       (''capabilities'', text_list (tq_capabilities q)), (''side_effect'', JBool (tq_side_effect q)),
       (''requires_approval'', JBool (tq_requires_approval q))]"

definition agent_request_dump :: "remote_agent_request \<Rightarrow> json" where
  "agent_request_dump q =
     JObj [(''run_id'', JStr (aq_run_id q)), (''workflow_name'', JStr (aq_workflow_name q)),
       (''step_name'', JStr (aq_step_name q)), (''executor_name'', JStr (aq_executor_name q)),
       (''executor_type'', JStr ''agent''), (''input_payload'', aq_input_payload q),
       (''artifacts'', JObj (aq_artifacts q)), (''channels'', JObj (aq_channels q)),
       (''metadata'', JObj (aq_metadata q)), (''instruction'', JStr (aq_instruction q)),
       (''allowed_tools'', text_list (aq_allowed_tools q)),
       (''allowed_handoffs'', text_list (aq_allowed_handoffs q)),
       (''max_tool_calls'', JInt (aq_max_tool_calls q)), (''tool_calls_used'', JInt (aq_tool_calls_used q)),
       (''resume_tool_name'', or_null JStr (aq_resume_tool_name q)),
       (''resume_tool_result'', or_null id (aq_resume_tool_result q))]"

definition failure_dump :: "remote_failure \<Rightarrow> json" where
  "failure_dump e =
     JObj [(''code'', JStr (rf_code e)), (''message'', JStr (rf_message e)), (''details'', JObj (rf_details e))]"

definition tool_response_dump :: "remote_tool_response \<Rightarrow> json dict" where
  "tool_response_dump r =
     [(''output_payload'', or_null id (ts_output_payload r)), (''error'', or_null failure_dump (ts_error r))]"

definition tool_call_dump :: "string \<times> json \<Rightarrow> json" where
  "tool_call_dump call = JObj [(''tool_name'', JStr (fst call)), (''payload'', snd call)]"

definition agent_response_dump :: "remote_agent_response \<Rightarrow> json dict" where
  "agent_response_dump r =
     [(''status'', JStr (remote_status_value (rr_status r))), (''output_payload'', or_null id (rr_output_payload r)),
      (''next_agent'', or_null JStr (rr_next_agent r)), (''reason'', or_null JStr (rr_reason r)),
      (''requested_tool_call'', or_null tool_call_dump (rr_tool_call r)),
      (''error'', or_null failure_dump (rr_error r))]"

text \<open>The payload fields hold dictionaries or nothing: a null is nothing, also inside \<open>Some\<close>. What
  \<open>json\<close> prints and reads back are dictionaries without a key twice.\<close>

definition tool_answer_fits :: "remote_tool_response \<Rightarrow> bool" where
  "tool_answer_fits r \<longleftrightarrow> ts_output_payload r \<noteq> Some JNull \<and> json_ok (JObj (tool_response_dump r))"

definition agent_answer_fits :: "remote_agent_response \<Rightarrow> bool" where
  "agent_answer_fits r \<longleftrightarrow> rr_output_payload r \<noteq> Some JNull \<and> json_ok (JObj (agent_response_dump r))"

definition agent_request_fits :: "remote_agent_request \<Rightarrow> bool" where
  "agent_request_fits q \<longleftrightarrow> aq_resume_tool_result q \<noteq> Some JNull"

subsection \<open>The connection\<close>

text \<open>The \<open>n\<close>th call goes out through \<open>hc_send n\<close>.\<close>

record http_side =
  hc_send :: "nat \<Rightarrow> http"
  hc_loads :: "string \<Rightarrow> json option"
  hc_tool_response :: "json dict \<Rightarrow> string + remote_tool_response"
  hc_agent_response :: "json dict \<Rightarrow> string + remote_agent_response"

definition http_adapter :: "http_side \<Rightarrow> string \<times> string \<Rightarrow> adapter" where
  "http_adapter c site =
     \<lparr>ax_tool = (\<lambda>n. http_execute_tool (hc_send c n) (hc_loads c) (hc_tool_response c) tool_request_dump
                   (fst site) (snd site)),
      ax_agent = (\<lambda>n. http_execute_agent (hc_send c n) (hc_loads c) (hc_agent_response c) agent_request_dump
                   (fst site) (snd site))\<rparr>"

text \<open>\<open>HTTPSandboxExecutionAdapter(base_url, bearer_token)\<close>\<close>

definition connect :: "http_side \<Rightarrow> string \<Rightarrow> string \<Rightarrow> exn + adapter" where
  "connect c base_url token = map_sum id (http_adapter c) (new_http_adapter base_url token)"

definition arrives :: "http_side \<Rightarrow> (json dict \<Rightarrow> string + 'a) \<Rightarrow> string + string \<Rightarrow> (int \<times> string) + 'a \<Rightarrow> bool" where
  "arrives c decode reply answer \<longleftrightarrow>
     (case answer of
        Inl _ \<Rightarrow> \<exists>msg. reply = Inl msg
      | Inr r \<Rightarrow> \<exists>body d. reply = Inr body \<and> hc_loads c body = Some (JObj d) \<and> decode d = Inr r)"

definition connected :: "http_side \<Rightarrow> sandbox \<Rightarrow> string \<Rightarrow> bool" where
  "connected c sx url \<longleftrightarrow>
     (\<forall>n q headers. let answer = sandbox_tool sx q (dget headers ''Authorization'') in
        (\<forall>r. answer = Inr r \<longrightarrow> tool_answer_fits r) \<longrightarrow>
        arrives c (hc_tool_response c)
          (hc_send c n ''POST'' (url @ ''/execute/tool'') (Some (tool_request_dump q)) headers) answer) \<and>
     (\<forall>n q headers. agent_request_fits q \<longrightarrow>
        (\<exists>task_id. let answer = sandbox_agent sx task_id q (dget headers ''Authorization'') in
           (\<forall>r. answer = Inr r \<longrightarrow> agent_answer_fits r) \<longrightarrow>
           arrives c (hc_agent_response c)
             (hc_send c n ''POST'' (url @ ''/execute/agent'') (Some (agent_request_dump q)) headers) answer))"

lemma auth_header [simp]: "dget (auth_headers token) ''Authorization'' = Some (bearer token)"
  by (simp add: auth_headers_def bearer_def)

lemma arrives_Inl: "arrives c decode reply (Inl e) \<longleftrightarrow> (\<exists>msg. reply = Inl msg)"
  by (simp add: arrives_def)

lemma arrives_Inr:
  "arrives c decode reply (Inr r) \<longleftrightarrow>
     (\<exists>body d. reply = Inr body \<and> hc_loads c body = Some (JObj d) \<and> decode d = Inr r)"
  by (simp add: arrives_def)

lemmas arrives_simps = arrives_Inl arrives_Inr

lemma same_token: "bearer token = bearer token' \<longleftrightarrow> token = token'"
  by (simp add: bearer_def)

lemma tool_over_http:
  assumes "connected c sx url"
  shows "case sandbox_tool sx q (Some (bearer token)) of
      Inl e \<Rightarrow> sx_token sx \<noteq> token \<and> e = (401, ''unauthorized'') \<and>
        (\<exists>msg. ax_tool (http_adapter c (url, token)) n q = Inl (Exn (RemoteExecutionError ''http_error'') msg))
    | Inr r \<Rightarrow> sx_token sx = token \<and> (tool_answer_fits r \<longrightarrow> ax_tool (http_adapter c (url, token)) n q = Inr r)"
proof -
  have "(\<forall>r. sandbox_tool sx q (Some (bearer token)) = Inr r \<longrightarrow> tool_answer_fits r) \<Longrightarrow>
      arrives c (hc_tool_response c) (hc_send c n ''POST'' (url @ ''/execute/tool'') (Some (tool_request_dump q)) (auth_headers token))
        (sandbox_tool sx q (Some (bearer token)))"
    using assms by (simp add: connected_def Let_def) (metis auth_header)
  with sandbox_tool_valid [where sx = sx and q = q and authorization = "Some (bearer token)"] show ?thesis
    by (cases "sandbox_tool sx q (Some (bearer token))")
      (auto simp: same_token arrives_simps http_adapter_def http_execute_tool_def post_json_def)
qed

lemma agent_over_http:
  assumes "connected c sx url" "agent_request_fits q"
  shows "\<exists>task_id. case sandbox_agent sx task_id q (Some (bearer token)) of
      Inl e \<Rightarrow> sx_token sx \<noteq> token \<and> e = (401, ''unauthorized'') \<and>
        (\<exists>msg. ax_agent (http_adapter c (url, token)) n q = Inl (Exn (RemoteExecutionError ''http_error'') msg))
    | Inr r \<Rightarrow> sx_token sx = token \<and> (agent_answer_fits r \<longrightarrow> ax_agent (http_adapter c (url, token)) n q = Inr r)"
    (is "\<exists>task_id. ?P task_id")
proof -
  from assms obtain task_id where
    "(\<forall>r. sandbox_agent sx task_id q (Some (bearer token)) = Inr r \<longrightarrow> agent_answer_fits r) \<Longrightarrow>
      arrives c (hc_agent_response c) (hc_send c n ''POST'' (url @ ''/execute/agent'') (Some (agent_request_dump q)) (auth_headers token))
        (sandbox_agent sx task_id q (Some (bearer token)))"
    by (simp add: connected_def Let_def) (metis auth_header)
  with sandbox_agent_valid [where sx = sx and q = q and task_id = task_id and authorization = "Some (bearer token)"]
  have "?P task_id"
    by (cases "sandbox_agent sx task_id q (Some (bearer token))")
      (auto simp: same_token arrives_simps http_adapter_def http_execute_agent_def post_json_def)
  then show ?thesis ..
qed


subsection \<open>A connection\<close>

text \<open>A client and a server in one: bodies are decoded field by field, answers sent as JSON text.\<close>

fun text_value :: "json \<Rightarrow> string" where
  "text_value (JStr s) = s"
| "text_value _ = []"

fun as_int :: "json \<Rightarrow> int" where
  "as_int (JInt i) = i"
| "as_int _ = 0"

fun as_dict :: "json \<Rightarrow> json dict" where
  "as_dict (JObj d) = d"
| "as_dict _ = []"

fun as_texts :: "json \<Rightarrow> string list" where
  "as_texts (JList xs) = map text_value xs"
| "as_texts _ = []"

definition as_option :: "(json \<Rightarrow> 'a) \<Rightarrow> json \<Rightarrow> 'a option" where
  "as_option f v = (if v = JNull then None else Some (f v))"

lemma as_texts_list [simp]: "as_texts (text_list xs) = xs"
  by (simp add: text_list_def comp_def)

lemma text_list_not_null [simp]: "text_list xs \<noteq> JNull"
  by (simp add: text_list_def)

lemma as_option_or_null: "\<forall>v. f v \<noteq> JNull \<and> g (f v) = v \<Longrightarrow> as_option g (or_null f x) = x"
  by (auto simp: as_option_def or_null_def split: option.splits)

lemma as_option_dict: "x \<noteq> Some JNull \<Longrightarrow> as_option id (or_null id x) = x"
  by (auto simp: as_option_def or_null_def split: option.splits)

definition tool_request_load :: "json \<Rightarrow> remote_tool_request" where
  "tool_request_load v =
     (let f = attribute v
      in \<lparr>tq_run_id = text_value (f ''run_id''), tq_workflow_name = text_value (f ''workflow_name''),
          tq_step_name = text_value (f ''step_name''), tq_executor_name = text_value (f ''executor_name''),
          tq_executor_type = text_value (f ''executor_type''), tq_input_payload = f ''input_payload'',
          tq_artifacts = as_dict (f ''artifacts''), tq_channels = as_dict (f ''channels''),
          tq_metadata = as_dict (f ''metadata''), tq_tool_kind = text_value (f ''tool_kind''),
          tq_command = as_option as_texts (f ''command''), tq_timeout_seconds = as_option as_int (f ''timeout_seconds''),
          tq_capabilities = as_texts (f ''capabilities''), tq_side_effect = (f ''side_effect'' = JBool True),
          tq_requires_approval = (f ''requires_approval'' = JBool True)\<rparr>)"

definition agent_request_load :: "json \<Rightarrow> remote_agent_request" where
  "agent_request_load v =
     (let f = attribute v
      in \<lparr>aq_run_id = text_value (f ''run_id''), aq_workflow_name = text_value (f ''workflow_name''),
          aq_step_name = text_value (f ''step_name''), aq_executor_name = text_value (f ''executor_name''),
          aq_input_payload = f ''input_payload'', aq_artifacts = as_dict (f ''artifacts''),
          aq_channels = as_dict (f ''channels''), aq_metadata = as_dict (f ''metadata''),
          aq_instruction = text_value (f ''instruction''), aq_allowed_tools = as_texts (f ''allowed_tools''),
          aq_allowed_handoffs = as_texts (f ''allowed_handoffs''), aq_max_tool_calls = as_int (f ''max_tool_calls''),
          aq_tool_calls_used = as_int (f ''tool_calls_used''), aq_resume_tool_name = as_option text_value (f ''resume_tool_name''),
          aq_resume_tool_result = as_option id (f ''resume_tool_result'')\<rparr>)"

definition failure_load :: "json \<Rightarrow> remote_failure" where
  "failure_load v =
     \<lparr>rf_code = text_value (attribute v ''code''), rf_message = text_value (attribute v ''message''),
      rf_details = as_dict (attribute v ''details'')\<rparr>"

definition tool_response_load :: "json dict \<Rightarrow> string + remote_tool_response" where
  "tool_response_load d =
     Inr \<lparr>ts_output_payload = as_option id (attribute (JObj d) ''output_payload''),
          ts_error = as_option failure_load (attribute (JObj d) ''error'')\<rparr>"

definition tool_call_load :: "json \<Rightarrow> string \<times> json" where
  "tool_call_load v = (text_value (attribute v ''tool_name''), attribute v ''payload'')"

definition status_load :: "string \<Rightarrow> remote_status" where
  "status_load s =
     (if s = ''final'' then RFinal else if s = ''handoff'' then RHandoff else if s = ''needs_approval'' then RNeedsApproval
      else if s = ''failed'' then RFailed else RToolCall)"

definition agent_response_load :: "json dict \<Rightarrow> string + remote_agent_response" where
  "agent_response_load d =
     (let f = attribute (JObj d)
      in Inr \<lparr>rr_status = status_load (text_value (f ''status'')), rr_output_payload = as_option id (f ''output_payload''),
              rr_next_agent = as_option text_value (f ''next_agent''), rr_reason = as_option text_value (f ''reason''),
              rr_tool_call = as_option tool_call_load (f ''requested_tool_call''),
              rr_error = as_option failure_load (f ''error'')\<rparr>)"

lemma attribute_simps [simp]:
  "attribute (JObj ((k, v) # d)) k = v"
  "k \<noteq> k' \<Longrightarrow> attribute (JObj ((k', v) # d)) k = attribute (JObj d) k"
  by (simp_all add: attribute_def dget_or_def)

lemma tool_request_round_trip: "tool_request_load (tool_request_dump q) = q"
  by (simp add: tool_request_load_def tool_request_dump_def Let_def as_option_or_null)

lemma agent_request_round_trip: "agent_request_fits q \<Longrightarrow> agent_request_load (agent_request_dump q) = q"
  by (simp add: agent_request_load_def agent_request_dump_def Let_def as_option_or_null as_option_dict agent_request_fits_def)

lemma failure_round_trip: "as_option failure_load (or_null failure_dump e) = e"
  by (rule as_option_or_null) (simp_all add: failure_load_def failure_dump_def)

lemma tool_response_round_trip: "tool_answer_fits r \<Longrightarrow> tool_response_load (tool_response_dump r) = Inr r"
  by (simp add: tool_response_load_def tool_response_dump_def as_option_dict failure_round_trip tool_answer_fits_def)

lemma agent_response_round_trip:
  assumes "agent_answer_fits r"
  shows "agent_response_load (agent_response_dump r) = Inr r"
proof -
  have "as_option tool_call_load (or_null tool_call_dump c) = c" for c
    by (rule as_option_or_null) (simp_all add: tool_call_load_def tool_call_dump_def)
  moreover have "status_load (remote_status_value st) = st" for st by (cases st) (simp_all add: status_load_def)
  ultimately show ?thesis
    using assms
    by (simp add: agent_response_load_def agent_response_dump_def Let_def as_option_or_null as_option_dict failure_round_trip agent_answer_fits_def)
qed

definition worker_reply :: "('a \<Rightarrow> json dict) \<Rightarrow> (int \<times> string) + 'a \<Rightarrow> string + string" where
  "worker_reply dump answer =
     (case answer of Inl (code, detail) \<Rightarrow> Inl detail | Inr r \<Rightarrow> Inr (json_dumps (JObj (dump r))))"

definition worker_http :: "sandbox \<Rightarrow> string \<Rightarrow> nat \<Rightarrow> http" where
  "worker_http sx url n method target body headers =
     (let authorization = dget headers ''Authorization''
      in case body of
           None \<Rightarrow> Inl ''Method Not Allowed''
         | Some v \<Rightarrow>
             if target = url @ ''/execute/tool''
             then worker_reply tool_response_dump (sandbox_tool sx (tool_request_load v) authorization)
             else if target = url @ ''/execute/agent''
             then worker_reply agent_response_dump
                    (sandbox_agent sx (uuid_of n) (agent_request_load v) authorization)
             else Inl ''Not Found'')"

definition worker_side :: "sandbox \<Rightarrow> string \<Rightarrow> http_side" where
  "worker_side sx url =
     \<lparr>hc_send = worker_http sx url, hc_loads = json_loads, hc_tool_response = tool_response_load,
      hc_agent_response = agent_response_load\<rparr>"

lemma worker_reply_arrives:
  assumes "hc_loads c = json_loads"
    and "\<And>r. answer = Inr r \<Longrightarrow> json_ok (JObj (dump r)) \<and> decode (dump r) = Inr r"
  shows "arrives c decode (worker_reply dump answer) answer"
proof (cases answer)
  case (Inl e)
  then show ?thesis by (cases e) (simp add: arrives_simps worker_reply_def)
next
  case (Inr r)
  with assms(2) have "json_loads (json_dumps (JObj (dump r))) = Some (JObj (dump r))"
    by (intro json_loads_dumps) simp
  with assms Inr show ?thesis by (auto simp: arrives_simps worker_reply_def simp del: json_dumps.simps)
qed

lemma worker_connected: "connected (worker_side sx url) sx url"
  unfolding connected_def Let_def
proof (intro conjI allI impI)
  fix n q headers
  assume "\<forall>r. sandbox_tool sx q (dget headers ''Authorization'') = Inr r \<longrightarrow> tool_answer_fits r"
  then show "arrives (worker_side sx url) (hc_tool_response (worker_side sx url))
      (hc_send (worker_side sx url) n ''POST'' (url @ ''/execute/tool'') (Some (tool_request_dump q)) headers)
      (sandbox_tool sx q (dget headers ''Authorization''))"
    by (simp add: worker_side_def worker_http_def tool_request_round_trip)
      (rule worker_reply_arrives, auto simp: tool_answer_fits_def tool_response_round_trip)
next
  fix n q headers
  assume q: "agent_request_fits q"
  show "\<exists>task_id. (\<forall>r. sandbox_agent sx task_id q (dget headers ''Authorization'') = Inr r \<longrightarrow> agent_answer_fits r) \<longrightarrow>
      arrives (worker_side sx url) (hc_agent_response (worker_side sx url))
        (hc_send (worker_side sx url) n ''POST'' (url @ ''/execute/agent'') (Some (agent_request_dump q)) headers)
        (sandbox_agent sx task_id q (dget headers ''Authorization''))"
    by (rule exI [of _ "uuid_of n"])
      (simp add: worker_side_def worker_http_def agent_request_round_trip [OF q];
       intro impI worker_reply_arrives; auto simp: agent_answer_fits_def agent_response_round_trip)
qed

lemma relay_answer:
  "sandbox_agent (sandbox_of relay_agent) tid relay_request (Some (bearer ''secret'')) =
     Inr ((agent_response RToolCall)\<lparr>rr_tool_call := Some (''echo'', JObj [(''x'', JInt 1)])\<rparr>)"
  by (simp add: sandbox_agent_def require_auth_def sandbox_of_def relay_agent_def relay_request_def answer_agent_def
      get_remote_agent_def agent_task_of_def request_context_def remote_use_tool_def py_simps pending_error_def
      as_object_def agent_failure_def)


end
