(* ===== verification/Example_Remote.thy ===== *)
theory Example_Remote
  imports Example_Models Wire
begin

section \<open>The strict-remote example (\<open>examples/strict_remote_sandbox.py\<close>)\<close>

text \<open>
  A control plane that may run nothing itself, and a worker: the workflow's agent and its tool have handlers
  that raise on the control plane and are carried out by the worker's agent and tool of the same remote
  names. The runtime in strict remote mode, the HTTP adapter and the sandbox service are put together here.
\<close>

subsection \<open>Models\<close>

definition PromptIn :: fields where
  "PromptIn = [(''text'', TextField)]"

definition DraftOut_remote :: fields where
  "DraftOut_remote = [(''text'', TextField)]"

definition ReviewOut :: fields where
  "ReviewOut = [(''approved'', FlagField), (''text'', TextField)]"

subsection \<open>The control plane\<close>

definition control_plane_draft :: "pydantic \<Rightarrow> tool" where
  "control_plane_draft validate =
     python_tool ''example.remote.draft'' (validate PromptIn) (output_model validate DraftOut_remote)
       (no_tool_args\<lparr>ta_placement := RemoteOnly, ta_remote_name := Some ''sandbox.remote.draft''\<rparr>)
       (\<lambda>data. Throw (Exn RuntimeError ''strict_remote should never execute draft on the control plane''))"

definition control_plane_reviewer :: "agent_task \<Rightarrow> agent_return prog" where
  "control_plane_reviewer task =
     Throw (Exn RuntimeError ''strict_remote should never execute agents on the control plane'')"

definition review_instruction :: string where
  "review_instruction = ''Draft the response, then approve it if it is concise and safe.''"

definition review_agent :: "pydantic \<Rightarrow> exn + agent" where
  "review_agent validate =
     new_agent ''example.remote.review'' review_instruction control_plane_reviewer (validate PromptIn)
       (validate ReviewOut) [''example.remote.draft''] []
       (no_agent_args\<lparr>aa_max_tool_calls := 1, aa_placement := RemoteOnly,
          aa_remote_name := Some ''sandbox.remote.review''\<rparr>)"

definition RemoteReviewFlow :: "pydantic \<Rightarrow> exn + workflow_class" where
  "RemoteReviewFlow validate =
     (case review_agent validate of
        Inl x \<Rightarrow> Inl x
      | Inr a \<Rightarrow>
          (case map_sum id then_end (new_step ''review'' None (Some a) [] None None) of
             Inl x \<Rightarrow> Inl x
           | Inr review \<Rightarrow> define_workflow ''RemoteReviewFlow'' [] [review] None))"

subsection \<open>The worker\<close>

definition sandbox_draft :: "pydantic \<Rightarrow> tool" where
  "sandbox_draft validate =
     python_tool ''example.remote.draft.worker'' (validate PromptIn) (output_model validate DraftOut_remote)
       (no_tool_args\<lparr>ta_remote_name := Some ''sandbox.remote.draft''\<rparr>)
       (\<lambda>data. construct validate DraftOut_remote
                 [(''text'', JStr (''Draft: '' @ strip (py_str (attribute data ''text''))))])"

definition sandbox_reviewer :: "agent_task \<Rightarrow> agent_return prog" where
  "sandbox_reviewer task =
     (case subscript (at_input_payload task) ''text'' of
        Inl x \<Rightarrow> Throw x
      | Inr prompt \<Rightarrow>
          UseTool ''example.remote.draft'' (JObj [(''text'', prompt)]) (\<lambda>draft.
            case draft of
              Inl x \<Rightarrow> Throw x
            | Inr d \<Rightarrow>
                (case subscript d ''text'' of
                   Inl x \<Rightarrow> Throw x
                 | Inr drafted \<Rightarrow> Return (Fields
                     \<lparr>ag_status = Final,
                      ag_output_payload = Some (JObj [(''approved'', JBool True), (''text'', drafted)]),
                      ag_next_agent = None, ag_reason = None\<rparr>))))"

definition sandbox_review_agent :: "pydantic \<Rightarrow> exn + agent" where
  "sandbox_review_agent validate =
     new_agent ''example.remote.review.worker'' review_instruction sandbox_reviewer (validate PromptIn)
       (validate ReviewOut) [''example.remote.draft''] []
       (no_agent_args\<lparr>aa_max_tool_calls := 1, aa_remote_name := Some ''sandbox.remote.review''\<rparr>)"

text \<open>The service's own surroundings (the operating system, \<open>json.loads\<close>, Pydantic's error lists) are those of
  \<open>host\<close>.\<close>

definition build_worker_app :: "pydantic \<Rightarrow> sandbox \<Rightarrow> exn + sandbox" where
  "build_worker_app validate host =
     (case sandbox_review_agent validate of
        Inl x \<Rightarrow> Inl x
      | Inr a \<Rightarrow>
          (case register_tool (sandbox_draft validate) empty_tool_registry of
             (Inl x, _) \<Rightarrow> Inl x
           | (Inr _, tools) \<Rightarrow>
               (case register_agent a empty_agent_registry of
                  (Inl x, _) \<Rightarrow> Inl x
                | (Inr _, agents) \<Rightarrow>
                    create_sandbox_app
                      (host\<lparr>sx_tools := tools, sx_agents := agents, sx_token := ''replace-me''\<rparr>))))"

subsection \<open>The run of the control plane\<close>

text \<open>The runtime is that of \<open>cfg\<close> but for the mode and the adapter.\<close>

definition remote_runtime :: "config \<Rightarrow> adapter \<Rightarrow> config" where
  "remote_runtime cfg adapter = cfg\<lparr>cfg_containment := StrictRemote, cfg_adapter := Some adapter\<rparr>"

definition review_flow :: "config \<Rightarrow> adapter \<Rightarrow> pydantic \<Rightarrow> exn + workflow" where
  "review_flow cfg adapter validate =
     (case RemoteReviewFlow validate of
        Inl x \<Rightarrow> Inl x
      | Inr c \<Rightarrow>
          (case register_tool (control_plane_draft validate) empty_tool_registry of
             (Inl x, _) \<Rightarrow> Inl x
           | (Inr _, tools) \<Rightarrow> create_workflow (remote_runtime cfg adapter) c tools empty_agent_registry []))"

text \<open>\<open>run_control_plane\<close>, with the prompt as a parameter: it prints the artifact \<open>review\<close>.\<close>

definition run_control_plane ::
  "config \<Rightarrow> http_side \<Rightarrow> string \<Rightarrow> pydantic \<Rightarrow> py_value \<Rightarrow> world \<Rightarrow> ((exn + json) \<times> world) option" where
  "run_control_plane cfg c base_url validate data w =
     (case connect c base_url ''replace-me'' of
        Inl x \<Rightarrow> Some (Inl x, w)
      | Inr adapter \<Rightarrow>
          (case review_flow cfg adapter validate of
             Inl x \<Rightarrow> Some (Inl x, w)
           | Inr wk \<Rightarrow>
               (case run_workflow (remote_runtime cfg adapter) wk data None w of
                  None \<Rightarrow> None
                | Some (Inl x, w') \<Rightarrow> Some (Inl x, w')
                | Some (Inr state, w') \<Rightarrow> Some (subscript (JObj (rs_artifacts state)) ''review'', w'))))"

subsection \<open>An agent that is run by the adapter and makes one tool call\<close>

text \<open>What the adapter answers to the call of a tool, at any time.\<close>

definition tool_answered :: "config \<Rightarrow> adapter \<Rightarrow> run_state \<Rightarrow> string \<Rightarrow> tool \<Rightarrow> json \<Rightarrow> json \<Rightarrow> bool" where
  "tool_answered cfg ax s n t p out \<longleftrightarrow>
     cfg_adapter cfg = Some ax \<and> should_execute_remotely cfg (t_name t) (t_placement t) = Inr True \<and>
     t_executor_type t = ''python'' \<and> \<not> t_requires_approval t \<and>
     (\<exists>v d. t_input_model t p = Inr v \<and> d \<noteq> [] \<and>
        (\<forall>k. ax_tool ax k (tool_request s n t v) = Inr \<lparr>ts_output_payload = Some (JObj d), ts_error = None\<rparr>) \<and>
        t_output_model t (Plain (JObj d)) = Inr (Instance out))"

lemma remote_call_run:
  "remote_call cfg f check q w =
     ((case f (w_calls w) q of
        Inl e \<Rightarrow> Inl e
      | Inr resp \<Rightarrow>
          (case check resp of Inl msg \<Rightarrow> Inl (Exn ValidationError (cfg_show_error cfg msg)) | Inr resp' \<Rightarrow> Inr resp')),
      w\<lparr>w_calls := Suc (w_calls w)\<rparr>)"
  by (simp add: remote_call_def count_call_def py_simps split: sum.split)

lemma execute_tool_remote_answered:
  assumes s: "dget (w_runs w) r = Some s" and t: "tool_answered cfg ax s n t p out"
  shows "execute_tool_remote cfg r n t p w = (Inr (Instance out), w\<lparr>w_calls := Suc (w_calls w)\<rparr>)"
proof -
  have "run_of w r = s" using s by (simp add: run_of_def)
  with t show ?thesis
    by (auto simp: execute_tool_remote_def tool_answered_def require_adapter_def remote_call_run py_simps state_of_def
        check_tool_response_def or_empty_payload_def)
qed

lemma named_tool_answered:
  assumes cfg: "plain cfg" and s: "dget (w_runs w) r = Some s" and g: "get_tool (wf_tools wk) name = Inr t"
    and t: "tool_answered cfg ax s n t p out"
    and allowed: "\<And>ctx. verdict (policies_for (cfg_policy_engine cfg) (wf_name wk)) ctx = Inr ()"
  shows "\<exists>w'. execute_named_tool cfg wk r n name p w = (Inr out, w') \<and> w_runs w' = w_runs w"
proof -
  have of: "run_of w r = s" using s by (simp add: run_of_def)
  let ?ctx = "policy_ctx wk n (t_name t) (t_capabilities t) (t_side_effect t) True s"
  obtain w1 where e: "evaluate_policies cfg wk r n ?ctx w = (Inr (), w1)" "quiet w w1"
    using evaluate_policies_verdict [OF cfg s, of wk n ?ctx] allowed by metis
  let ?p = "[(''tool_name'', JStr (t_name t))]"
  let ?w2 = "log_event r AGENT_TOOL_CALL_STARTED (Some n) ?p w1"
  let ?w3 = "?w2\<lparr>w_calls := Suc (w_calls ?w2)\<rparr>"
  let ?w4 = "log_event r AGENT_TOOL_CALL_COMPLETED (Some n) ?p ?w3"
  have s1: "dget (w_runs w1) r = Some s" and s3: "dget (w_runs ?w2) r = Some s" "dget (w_runs ?w3) r = Some s"
    using e(2) s by (simp_all add: quiet_def)
  have "should_execute_remotely cfg (t_name t) (t_placement t) = Inr True" "\<not> t_requires_approval t"
    using t by (simp_all add: tool_answered_def)
  then have "execute_named_tool cfg wk r n name p w = (Inr out, ?w4)"
    using g e(1) emit_run_plain [OF cfg s1] emit_run_plain [OF cfg s3(2)] execute_tool_remote_answered [OF s3(1) t]
    by (simp add: execute_named_tool_def run_tool_def make_context_def state_of_def of py_simps Let_def instance_output)
  moreover have "w_runs ?w4 = w_runs w" using e(2) by (simp add: quiet_def)
  ultimately show ?thesis by blast
qed

lemma remote_turn_run:
  assumes s: "dget (w_runs w) r = Some s"
    and a: "ax_agent ax (w_calls w) (agent_request s n a v used resume) = Inr resp"
    and resp: "check_agent_response resp = Inr resp" "rr_error resp = None"
  shows "remote_agent_turn cfg wk r n a ax v used resume call w =
    (case rr_status resp of
       RToolCall \<Rightarrow>
         (case rr_tool_call resp of
            None \<Rightarrow> raise (Exn AssertionError [])
          | Some (name, q) \<Rightarrow>
              if name \<notin> set (a_allowed_tools a)
              then raise (Exn AgentExecutionError (''Remote agent '' @ a_name a @ '' requested disallowed tool '' @ name))
              else call name q)
     | RNeedsApproval \<Rightarrow> raise (Exn ApprovalRequiredError
         (or_else (rr_reason resp) (''Agent '' @ a_name a @ '' requested approval'')))
     | RFailed \<Rightarrow> raise (Exn AgentExecutionError (or_else (rr_reason resp) (''Agent '' @ a_name a @ '' failed'')))
     | _ \<Rightarrow> finish_remote_agent cfg wk r n a resp) (w\<lparr>w_calls := Suc (w_calls w)\<rparr>)"
proof -
  have "run_of w r = s" using s by (simp add: run_of_def)
  then show ?thesis
    using a resp by (simp add: remote_agent_turn_def py_simps state_of_def remote_call_run)
qed

lemma remote_agent_completes:
  assumes cfg: "plain cfg" and s: "dget (w_runs w) r = Some s"
    and allowed: "\<And>ctx. verdict (policies_for (cfg_policy_engine cfg) (wf_name wk)) ctx = Inr ()"
    and a: "should_execute_remotely cfg (a_name a) (a_placement a) = Inr True" "a_max_tool_calls a = 1"
      "a_input_model a p = Inr v" "name \<in> set (a_allowed_tools a)"
    and asks: "\<And>k. ax_agent ax k (agent_request s n a v 0 None) =
      Inr ((agent_response RToolCall)\<lparr>rr_tool_call := Some (name, q)\<rparr>)"
    and tool: "get_tool (wf_tools wk) name = Inr t" "tool_answered cfg ax s n t q d"
    and answers: "\<And>k. ax_agent ax k (agent_request s n a v 1 (Some (name, d))) =
      Inr ((agent_response RFinal)\<lparr>rr_output_payload := Some (JObj obj)\<rparr>)" "obj \<noteq> []"
    and out: "a_output_model a (JObj obj) = Inr out" "extract_command cfg (Plain out) = Inr (out, None)"
  shows "\<exists>w'. run_agent cfg wk r n a p w = (Inr (out, None, None), w') \<and> w_runs w' = w_runs w"
proof -
  have of: "run_of w r = s" using s by (simp add: run_of_def)
  let ?w1 = "log_event r AGENT_ENTERED (Some n) [(''agent_name'', JStr (a_name a))] w"
  let ?w2 = "?w1\<lparr>w_calls := Suc (w_calls ?w1)\<rparr>"
  have s1: "dget (w_runs ?w1) r = Some s" "dget (w_runs ?w2) r = Some s" using s by simp_all
  obtain w3 where t: "execute_named_tool cfg wk r n name q ?w2 = (Inr d, w3)" "w_runs w3 = w_runs ?w2"
    using named_tool_answered [OF cfg s1(2) tool allowed] by blast
  let ?w4 = "w3\<lparr>w_calls := Suc (w_calls w3)\<rparr>"
  have s3: "dget (w_runs w3) r = Some s" "dget (w_runs ?w4) r = Some s" using t(2) s by simp_all
  have ax: "cfg_adapter cfg = Some ax" using tool(2) by (simp add: tool_answered_def)
  let ?r1 = "(agent_response RToolCall)\<lparr>rr_tool_call := Some (name, q)\<rparr>"
    and ?r2 = "(agent_response RFinal)\<lparr>rr_output_payload := Some (JObj obj)\<rparr>"
  have r: "check_agent_response ?r1 = Inr ?r1" "rr_error ?r1 = None" "check_agent_response ?r2 = Inr ?r2" "rr_error ?r2 = None"
    by (simp_all add: check_agent_response_def agent_response_def)
  have fin: "finish_remote_agent cfg wk r n a ?r2 ?w4 = (Inr (out, None, None), ?w4)"
    using answers(2) out by (simp add: finish_remote_agent_def agent_response_def or_empty_payload_def py_simps)
  have "remote_agent_turns 1 cfg wk r n a ax v 0 None ?w1 = (Inr (out, None, None), ?w4)"
    using remote_turn_run [OF s1(1) asks r(1,2)] remote_turn_run [OF s3(1) answers(1) r(3,4)] a(4) t(1) fin
    by (simp add: py_simps agent_response_def)
  then have "execute_agent_remote cfg wk r n a p ?w1 = (Inr (out, None, None), ?w4)"
    using a(2,3) by (simp add: execute_agent_remote_def require_adapter_def ax py_simps)
  then have "run_agent cfg wk r n a p w = (Inr (out, None, None),
      log_event r AGENT_COMPLETED (Some n) [(''agent_name'', JStr (a_name a)), (''status'', JStr ''remote'')] ?w4)"
    using a(1) emit_run_plain [OF cfg s] emit_run_plain [OF cfg s3(2)]
    by (simp add: run_agent_def make_context_def state_of_def of py_simps Let_def)
  then show ?thesis using t(2) by simp
qed

subsection \<open>The agents, the worker and the flow as they are built\<close>

definition reviewing_agent :: "string \<Rightarrow> (agent_task \<Rightarrow> agent_return prog) \<Rightarrow> placement \<Rightarrow> pydantic \<Rightarrow> agent" where
  "reviewing_agent name handler p validate =
     \<lparr>a_name = name, a_instruction = review_instruction, a_input_model = validate PromptIn,
      a_output_model = validate ReviewOut, a_allowed_tools = [''example.remote.draft''], a_allowed_handoffs = [],
      a_max_turns = 1, a_max_tool_calls = 1, a_requires_approval = False, a_capabilities = [], a_side_effect = False,
      a_placement = p, a_remote_name = ''sandbox.remote.review'', a_handler = handler\<rparr>"

definition controlled :: "pydantic \<Rightarrow> agent" where
  "controlled = reviewing_agent ''example.remote.review'' control_plane_reviewer RemoteOnly"

definition working :: "pydantic \<Rightarrow> agent" where
  "working = reviewing_agent ''example.remote.review.worker'' sandbox_reviewer LocalOnly"

lemma agents_built: "review_agent v = Inr (controlled v)" "sandbox_review_agent v = Inr (working v)"
  by (simp_all add: review_agent_def sandbox_review_agent_def controlled_def working_def reviewing_agent_def new_agent_def
      agent_check_def no_agent_args_def or_else_def)

definition review_step :: "pydantic \<Rightarrow> step" where
  "review_step validate =
     \<lparr>sd_name = ''review'', sd_executor = AgentExec (controlled validate), sd_required_artifacts = [],
      sd_emitted_artifact = None, sd_approval_override = None, sd_transition = Some (StrictTransition END_STEP),
      sd_mode = Some STRICT\<rparr>"

lemma remote_tools:
  "t_name (control_plane_draft v) = ''example.remote.draft''" "t_version (control_plane_draft v) = DEFAULT_VERSION"
  "t_remote_name (control_plane_draft v) = ''sandbox.remote.draft''" "t_placement (control_plane_draft v) = RemoteOnly"
  "t_executor_type (control_plane_draft v) = ''python''" "\<not> t_requires_approval (control_plane_draft v)"
  "t_command (control_plane_draft v) = None"
  "t_input_model (control_plane_draft v) = v PromptIn" "t_output_model (control_plane_draft v) = output_model v DraftOut_remote"
  "t_name (sandbox_draft v) = ''example.remote.draft.worker''" "t_version (sandbox_draft v) = DEFAULT_VERSION"
  "t_remote_name (sandbox_draft v) = ''sandbox.remote.draft''"
  by (simp_all add: control_plane_draft_def sandbox_draft_def python_tool_def new_tool_def no_tool_args_def or_else_def)

lemma worker_built:
  obtains sx where "build_worker_app v host = Inr sx" "sx_token sx = ''replace-me''"
    "get_remote_tool (sx_tools sx) ''sandbox.remote.draft'' = Inr (sandbox_draft v)"
    "get_remote_agent (sx_agents sx) ''sandbox.remote.review'' = Inr (working v)"
proof -
  have "\<exists>sx. build_worker_app v host = Inr sx \<and> sx_token sx = ''replace-me'' \<and>
      get_remote_tool (sx_tools sx) ''sandbox.remote.draft'' = Inr (sandbox_draft v) \<and>
      get_remote_agent (sx_agents sx) ''sandbox.remote.review'' = Inr (working v)"
    by (simp add: build_worker_app_def agents_built register_tool_cases register_agent_cases empty_tool_registry_def
        empty_agent_registry_def dhas_def remote_tools create_sandbox_app_def get_remote_tool_def get_remote_agent_def)
      (simp add: working_def reviewing_agent_def)
  then show ?thesis using that by blast
qed

lemma flow_built:
  obtains wk where "review_flow cfg ax v = Inr wk" "wf_steps wk = [(''review'', review_step v)]" "wf_entry wk = Some ''review''"
    "get_tool (wf_tools wk) ''example.remote.draft'' = Inr (control_plane_draft v)"
proof -
  have flow: "RemoteReviewFlow v = Inr \<lparr>wc_name = ''RemoteReviewFlow'', wc_steps = [(''review'', review_step v)], wc_entry = Some ''review''\<rparr>"
    by (simp add: RemoteReviewFlow_def agents_built new_step_def then_end_def strict_transition_def end_ref define_workflow_def
        Let_def review_step_def dhas_def check_transition_def unknown_ref_def dkeys_def)
  have "\<exists>wk. review_flow cfg ax v = Inr wk \<and> wf_steps wk = [(''review'', review_step v)] \<and> wf_entry wk = Some ''review'' \<and>
      get_tool (wf_tools wk) ''example.remote.draft'' = Inr (control_plane_draft v)"
    by (simp add: review_flow_def flow register_tool_cases empty_tool_registry_def dhas_def remote_tools create_workflow_def
        new_workflow_def register_step_executors_def register_executor_def dvalues_def py_simps review_step_def
        has_agent_def register_agent_cases empty_agent_registry_def validate_workflow_def executor_placement_def
        remote_runtime_def get_tool_def get_tool_version_def controlled_def reviewing_agent_def)
  then show ?thesis using that by blast
qed

subsection \<open>What the worker answers\<close>

definition prompt :: "string \<Rightarrow> json" where
  "prompt t = JObj [(''text'', JStr t)]"

definition draft_text :: "string \<Rightarrow> string" where
  "draft_text t = ''Draft: '' @ strip t"

definition drafted_reply :: "string \<Rightarrow> json" where
  "drafted_reply t = JObj [(''text'', JStr (draft_text t))]"

definition reviewed :: "string \<Rightarrow> json" where
  "reviewed t = JObj [(''approved'', JBool True), (''text'', JStr (draft_text t))]"

lemma models_accept:
  assumes "accepts_dumps v"
  shows "v PromptIn (prompt t) = Inr (prompt t)" "v DraftOut_remote (drafted_reply t) = Inr (drafted_reply t)"
    "v ReviewOut (reviewed t) = Inr (reviewed t)"
  using assms
  by (simp_all add: prompt_def drafted_reply_def reviewed_def PromptIn_def DraftOut_remote_def ReviewOut_def accepts fills_def
      dump_of_def dget_or_def)

lemma text_of [simp]: "subscript (prompt t) ''text'' = Inr (JStr t)" "subscript (drafted_reply t) ''text'' = Inr (JStr (draft_text t))"
  by (simp_all add: subscript_def prompt_def drafted_reply_def)

text \<open>A worker with the example's executors and token.\<close>

definition works_for :: "pydantic \<Rightarrow> sandbox \<Rightarrow> bool" where
  "works_for v sx \<longleftrightarrow>
     accepts_dumps v \<and> sx_token sx = ''replace-me'' \<and>
     get_remote_tool (sx_tools sx) ''sandbox.remote.draft'' = Inr (sandbox_draft v) \<and>
     get_remote_agent (sx_agents sx) ''sandbox.remote.review'' = Inr (working v)"

lemma worker_drafts:
  assumes w: "works_for v sx" and q: "tq_tool_kind q = ''python''" "tq_executor_name q = ''sandbox.remote.draft''"
    "tq_input_payload q = prompt t"
  shows "sandbox_tool sx q (Some (bearer ''replace-me'')) = Inr \<lparr>ts_output_payload = Some (drafted_reply t), ts_error = None\<rparr>"
proof -
  have v: "accepts_dumps v" using w by (simp add: works_for_def)
  have c: "construct v DraftOut_remote [(''text'', JStr (draft_text t))] = Return (Instance (drafted_reply t))"
    by (simp add: construct_def drafted_reply_def [symmetric] models_accept [OF v])
  have "sandbox_execute q (sandbox_draft v) = Inr (Instance (drafted_reply t))"
    using models_accept [OF v] c
    by (simp add: sandbox_execute_def sandbox_draft_def python_tool_def new_tool_def q(3) ret_run draft_text_def)
      (simp add: prompt_def ret_run)
  then show ?thesis
    using w q by (simp add: works_for_def sandbox_tool_def tool_output_def require_auth_def as_object_def to_payload_def drafted_reply_def)
qed

lemma worker_agent_run:
  assumes w: "works_for v sx" and q: "aq_executor_name q = ''sandbox.remote.review''" "aq_input_payload q = prompt t"
  shows "sandbox_agent sx tid q (Some (bearer ''replace-me'')) =
    Inr (answer_of_outcome sx q (working v) (fst (sandbox_agent_prog q (sandbox_reviewer (agent_task_of tid q (prompt t))) (request_context q))))"
proof -
  have "get_remote_agent (sx_agents sx) (aq_executor_name q) = Inr (working v)" "sx_token sx = ''replace-me''"
    "a_input_model (working v) (aq_input_payload q) = Inr (prompt t)" "a_handler (working v) = sandbox_reviewer"
    using w q models_accept [of v t] by (simp_all add: works_for_def working_def reviewing_agent_def)
  from sandbox_agent_outcome [OF this(1,3), of tid] this(2,4) show ?thesis by simp
qed

lemma worker_asks:
  assumes w: "works_for v sx" and q: "aq_executor_name q = ''sandbox.remote.review''" "aq_input_payload q = prompt t"
    and fresh: "aq_resume_tool_name q = None" "aq_tool_calls_used q = 0" "aq_max_tool_calls q = 1"
      "aq_allowed_tools q = [''example.remote.draft'']"
  shows "sandbox_agent sx tid q (Some (bearer ''replace-me'')) =
    Inr ((agent_response RToolCall)\<lparr>rr_tool_call := Some (''example.remote.draft'', prompt t)\<rparr>)"
  unfolding worker_agent_run [OF w q]
  by (simp add: sandbox_reviewer_def agent_task_of_def remote_use_tool_def request_context_def fresh py_simps
      answer_of_outcome_def agent_failure_def pending_error_def as_object_def) (simp add: prompt_def)

lemma worker_reviews:
  assumes w: "works_for v sx" and q: "aq_executor_name q = ''sandbox.remote.review''" "aq_input_payload q = prompt t"
    and resumed: "aq_resume_tool_name q = Some ''example.remote.draft''" "aq_resume_tool_result q = Some (drafted_reply t)"
      "aq_allowed_tools q = [''example.remote.draft'']"
  shows "sandbox_agent sx tid q (Some (bearer ''replace-me'')) =
    Inr ((agent_response RFinal)\<lparr>rr_output_payload := Some (reviewed t)\<rparr>)"
proof -
  have v: "accepts_dumps v" using w by (simp add: works_for_def)
  have "truthy (drafted_reply t)" by (simp add: drafted_reply_def)
  then have "fst (sandbox_agent_prog q (sandbox_reviewer (agent_task_of tid q (prompt t))) (request_context q)) =
      Inr (Fields \<lparr>ag_status = Final, ag_output_payload = Some (reviewed t), ag_next_agent = None, ag_reason = None\<rparr>)"
    by (simp add: sandbox_reviewer_def agent_task_of_def remote_use_tool_def request_context_def resumed py_simps)
      (simp add: reviewed_def)
  then show ?thesis
    unfolding worker_agent_run [OF w q]
    by (simp add: answer_of_outcome_def result_model_def validate_result_def answer_result_def working_def
        reviewing_agent_def models_accept [OF v] checked_response_def check_agent_response_def agent_response_def)
qed

subsection \<open>The run\<close>

text \<open>The same answers, over HTTP.\<close>

lemma drafts_over_http:
  assumes c: "connected c sx url" and w: "works_for v sx" and q: "tq_tool_kind q = ''python''"
    "tq_executor_name q = ''sandbox.remote.draft''" "tq_input_payload q = prompt t"
  shows "ax_tool (http_adapter c (url, ''replace-me'')) k q = Inr \<lparr>ts_output_payload = Some (drafted_reply t), ts_error = None\<rparr>"
  using tool_over_http [OF c, where q = q and token = "''replace-me''" and n = k] worker_drafts [OF w q]
  by (simp add: tool_answer_fits_def tool_response_dump_def or_null_def drafted_reply_def)

lemma agent_call_over_http:
  assumes c: "connected c sx url" and q: "agent_request_fits q"
    and answer: "\<And>tid. sandbox_agent sx tid q (Some (bearer ''replace-me'')) = Inr resp" and fits: "agent_answer_fits resp"
  shows "ax_agent (http_adapter c (url, ''replace-me'')) k q = Inr resp"
  using agent_over_http [OF c q, where token = "''replace-me''" and n = k] fits by (simp add: answer)

lemma asks_over_http:
  assumes c: "connected c sx url" and w: "works_for v sx"
  shows "ax_agent (http_adapter c (url, ''replace-me'')) k (agent_request s n (controlled v) (prompt t) 0 None) =
    Inr ((agent_response RToolCall)\<lparr>rr_tool_call := Some (''example.remote.draft'', prompt t)\<rparr>)"
  by (rule agent_call_over_http [OF c _ worker_asks [OF w]])
    (simp_all add: agent_request_def controlled_def reviewing_agent_def agent_request_fits_def agent_answer_fits_def
      agent_response_dump_def agent_response_def or_null_def tool_call_dump_def prompt_def)

lemma reviews_over_http:
  assumes c: "connected c sx url" and w: "works_for v sx"
  shows "ax_agent (http_adapter c (url, ''replace-me'')) k
      (agent_request s n (controlled v) (prompt t) 1 (Some (''example.remote.draft'', drafted_reply t))) =
    Inr ((agent_response RFinal)\<lparr>rr_output_payload := Some (reviewed t)\<rparr>)"
  by (rule agent_call_over_http [OF c _ worker_reviews [OF w]])
    (simp_all add: agent_request_def controlled_def reviewing_agent_def agent_request_fits_def agent_answer_fits_def
      agent_response_dump_def agent_response_def or_null_def reviewed_def drafted_reply_def)

definition review_fits :: "string \<Rightarrow> annotation" where
  "review_fits t n p A G \<longleftrightarrow>
     (case n of None \<Rightarrow> A = [(''review'', reviewed t)] | Some x \<Rightarrow> x = ''review'' \<and> p = prompt t \<and> A = [])"

lemma review_step_works:
  assumes cfg: "plain cfg" and allowed: "\<And>ctx. verdict (policies_for (cfg_policy_engine cfg) (wf_name wk)) ctx = Inr ()"
    and c: "connected c sx url" and w: "works_for v sx"
    and wk: "get_tool (wf_tools wk) ''example.remote.draft'' = Inr (control_plane_draft v)"
  shows "step_works (remote_runtime cfg (http_adapter c (url, ''replace-me''))) wk (review_fits t) ''review'' (review_step v)"
proof (rule step_worksI, intro conjI allI impI; (elim conjE)?)
  let ?ax = "http_adapter c (url, ''replace-me'')" and ?st = "review_step v"
  let ?cfg = "remote_runtime cfg ?ax"
  have v: "accepts_dumps v" using w by (simp add: works_for_def)
  have plain: "plain ?cfg" and engine: "cfg_policy_engine ?cfg = cfg_policy_engine cfg" using cfg by (simp_all add: remote_runtime_def)
  have remote: "should_execute_remotely ?cfg n RemoteOnly = Inr True" for n by (simp add: should_execute_remotely_def)
  show "check_artifacts (sd_name ?st) A (sd_required_artifacts ?st) = Inr ()" for A by (simp add: review_step_def)
  fix r s w p
  assume l: "loaded r s w" and f: "review_fits t (Some ''review'') p (rs_artifacts s) (approvals s)"
  show "verdict (policies_for (cfg_policy_engine ?cfg) (wf_name wk)) (gate_ctx wk ?st s) = Inr ()"
    unfolding engine by (rule allowed)
  have s: "dget (w_runs w) r = Some s" and tidy: "tidy s" using l by (simp_all add: loaded_def)
  have p: "p = prompt t" and A: "rs_artifacts s = []" using f by (simp_all add: review_fits_def)
  have tool: "tool_answered ?cfg ?ax s ''review'' (control_plane_draft v) (prompt t) (drafted_reply t)"
    using drafts_over_http [OF c assms(4)] models_accept [OF v]
    by (simp add: tool_answered_def remote_runtime_def remote [unfolded remote_runtime_def] remote_tools output_model_def)
      (simp add: drafted_reply_def tool_request_def remote_tools)
  have execute: "extract_command ?cfg (Plain (reviewed t)) = Inr (reviewed t, None)"
    by (simp add: extract_command_def reviewed_def Let_def)
  obtain w' where w': "run_agent ?cfg wk r ''review'' (controlled v) (prompt t) w = (Inr (reviewed t, None, None), w')"
    "w_runs w' = w_runs w"
    using remote_agent_completes [where cfg = ?cfg and ax = ?ax and a = "controlled v" and v = "prompt t" and p = "prompt t"
        and name = "''example.remote.draft''" and q = "prompt t" and d = "drafted_reply t" and n = "''review''", OF plain s _ _ _ _ _
        asks_over_http [OF c assms(4)] wk tool reviews_over_http [OF c assms(4), unfolded reviewed_def] _ _ execute]
      allowed models_accept [OF v]
    by (simp add: engine remote controlled_def reviewing_agent_def reviewed_def) blast
  have "run_of w' r = s" using w'(2) loaded_run_of [OF l] by (simp add: run_of_def)
  moreover have "run_executor ?cfg wk r ?st p w = (Inr (reviewed t, None, None), w')"
    using w'(1) by (simp add: run_executor_def review_step_def p)
  moreover have "resolve_next_step_for_step wk ?st (reviewed t) None None = Inr END_STEP"
    by (simp add: resolve_next_step_for_step_def resolve_next_step_def proposed_step_def check_handoff_def review_step_def)
  ultimately show "\<exists>out h m w'. run_executor ?cfg wk r ?st p w = (Inr (out, h, None), w') \<and> tidy (run_of w' r) \<and>
      resolve_next_step_for_step wk ?st out h None = Inr m \<and>
      review_fits t (next_point m) out (artifacts_set (rs_artifacts s) (output_key ?st) out) (approvals (run_of w' r) - {sd_name ?st})"
    using tidy by (auto simp: review_fits_def next_point_def A artifacts_set_def review_step_def or_else_def)
qed

text \<open>C39: the strict-remote example, for every prompt: connected to the worker the module builds, the control
  plane's run completes with the review of the worker's draft. The agent runs in the sandbox, its tool call
  comes back to the control plane, passes its policies, runs in the sandbox too, and its result is handed to
  the agent, started again; the handlers of the control plane, which raise, are never run.\<close>

theorem strict_remote_review_completes:
  assumes cfg: "plain cfg" and allowed: "\<And>n ctx. verdict (policies_for (cfg_policy_engine cfg) n) ctx = Inr ()"
    and ok: "world_ok w" and v: "accepts_dumps v"
    and worker: "build_worker_app v host = Inr sx" and url: "rstrip_slash base_url = url" "url \<noteq> []"
    and c: "connected c sx url"
  shows "\<exists>w' r s. run_control_plane cfg c base_url v (Instance (prompt t)) w = Some (Inr (reviewed t), w') \<and>
    get (w_store w') r = Some s \<and> rs_status s = COMPLETED \<and> rs_artifacts s = [(''review'', reviewed t)]"
proof -
  let ?ax = "http_adapter c (url, ''replace-me'')" and ?data = "Instance (prompt t)"
  let ?cfg = "remote_runtime cfg ?ax"
  have sx: "works_for v sx" by (rule worker_built [of v host]) (use worker v in \<open>simp add: works_for_def\<close>)
  have ax: "connect c base_url ''replace-me'' = Inr ?ax" using url by (simp add: connect_def new_http_adapter_def Let_def)
  obtain wk where wk: "review_flow cfg ?ax v = Inr wk" "wf_steps wk = [(''review'', review_step v)]" "wf_entry wk = Some ''review''"
    "get_tool (wf_tools wk) ''example.remote.draft'' = Inr (control_plane_draft v)"
    by (rule flow_built)
  have plain: "plain ?cfg" using cfg by (simp add: remote_runtime_def)
  have "works ?cfg wk (review_fits t)"
    using review_step_works [OF cfg allowed c sx wk(4)] by (auto simp: works_def wk(2) split: if_splits)
  moreover have "acyclic_workflow (\<lambda>_. 0) wk"
    by (auto simp: acyclic_workflow_def wf_edge_def wk(2) review_step_def declared_targets_def split: if_splits)
  moreover have "dhas (wf_steps wk) ''review''" by (simp add: wk(2) dhas_def)
  moreover have "review_fits t (Some ''review'') (to_payload ?data) [] {}" by (simp add: review_fits_def to_payload_def)
  ultimately obtain r at w' where run: "run_workflow ?cfg wk ?data None w = Some (Inr (run_of w' r), w')"
    and outcome: "finished (review_fits t) r w' \<or> (\<exists>n. gated wk (review_fits t) r n w')"
    using run_works_plain [OF plain ok _ _ wk(3), of "review_fits t" "\<lambda>_. 0" ?data None] by blast
  have "\<not> gated wk (review_fits t) r n w'" for n
    by (auto simp: gated_def wk(2) review_step_def requires_approval_def executor_requires_approval_def controlled_def
        reviewing_agent_def split: if_splits sum.splits)
  with outcome have fin: "get (w_store w') r = Some (run_of w' r)" "rs_status (run_of w' r) = COMPLETED"
    "rs_artifacts (run_of w' r) = [(''review'', reviewed t)]"
    by (auto simp: finished_def review_fits_def)
  have "run_control_plane cfg c base_url v ?data w = Some (Inr (reviewed t), w')"
    using run fin(3) by (simp add: run_control_plane_def ax wk(1) subscript_def)
  with fin show ?thesis by blast
qed

theorem strict_remote_review_completes_witness:
  "\<exists>sx w'. build_worker_app strict_model (sandbox_of relay_agent) = Inr sx \<and>
     run_control_plane no_adapter_config (worker_side sx ''http://127.0.0.1:8000'') ''http://127.0.0.1:8000/'' strict_model
       (Instance (prompt ''Summarize the incident status in one sentence.'')) (init_world 0) =
     Some (Inr (reviewed ''Summarize the incident status in one sentence.''), w')"
proof -
  obtain sx where sx: "build_worker_app strict_model (sandbox_of relay_agent) = Inr sx" by (rule worker_built)
  have "rstrip_slash ''http://127.0.0.1:8000/'' = ''http://127.0.0.1:8000''" by code_simp
  from strict_remote_review_completes [OF plain_no_adapter no_adapter_verdict world_ok_init [of 0] strict_model_accepts sx this _
      worker_connected, of "''Summarize the incident status in one sentence.''"]
  show ?thesis using sx by auto
qed

end
